(* ===== verification/Prelude.thy ===== *)
theory Prelude
  imports Main "HOL-Library.Word"
begin

text \<open>
  Shared ground of the development: the lemma collections, the string operations of the
  source language that the components use, thrown errors as values, JSON values, calendar
  time, and the relational table the persistence code updates.

  Conventions. A JavaScript number that the code uses as a count, a height or a time in
  milliseconds is an \<^typ>\<open>int\<close>; a \<^verbatim>\<open>bigint\<close> is an \<^typ>\<open>int\<close>; a string is a \<^typ>\<open>string\<close>;
  \<^verbatim>\<open>null\<close> and \<^verbatim>\<open>undefined\<close> in a column are \<^const>\<open>None\<close>. A function that may throw returns
  a sum with the error on the left. Time is the argument \<open>now\<close>: the code's
  \<^verbatim>\<open>Date.now()\<close> read once per operation.
\<close>

named_theorems table_simps "rewriting of table selections and updates"
named_theorems js_simps "unfolding of the language-level helpers"

section \<open>Strings\<close>

definition lower_char :: "char \<Rightarrow> char" where
  "lower_char c = (let n = of_char c :: nat in if 65 \<le> n \<and> n \<le> 90 then char_of (n + 32) else c)"

definition toLowerCase :: "string \<Rightarrow> string" where
  "toLowerCase = map lower_char"

lemma lower_lower: "toLowerCase (toLowerCase s) = toLowerCase s"
proof -
  have "lower_char (lower_char c) = lower_char c" for c by (auto simp: lower_char_def Let_def)
  then show ?thesis by (simp add: toLowerCase_def)
qed

lemma lower_empty [simp]: "toLowerCase s = [] \<longleftrightarrow> s = []"
  by (simp add: toLowerCase_def)

fun startsWith :: "string \<Rightarrow> string \<Rightarrow> bool" where
  "startsWith s [] = True"
| "startsWith [] (p # ps) = False"
| "startsWith (c # cs) (p # ps) = (c = p \<and> startsWith cs ps)"

fun strIncludes :: "string \<Rightarrow> string \<Rightarrow> bool" where
  "strIncludes [] p = (p = [])"
| "strIncludes (c # cs) p = (startsWith (c # cs) p \<or> strIncludes cs p)"

definition is_space :: "char \<Rightarrow> bool" where
  "is_space c = (let n = of_char c :: nat in n = 32 \<or> (9 \<le> n \<and> n \<le> 13) \<or> n = 160)"

definition trim :: "string \<Rightarrow> string" where
  "trim s = rev (dropWhile is_space (rev (dropWhile is_space s)))"

definition is_digit :: "char \<Rightarrow> bool" where
  "is_digit c = (let n = of_char c :: nat in 48 \<le> n \<and> n \<le> 57)"

definition is_lower_hex :: "char \<Rightarrow> bool" where
  "is_lower_hex c = (let n = of_char c :: nat in (48 \<le> n \<and> n \<le> 57) \<or> (97 \<le> n \<and> n \<le> 102))"

text \<open>\<^verbatim>\<open>HEX64_RE\<close> of \<^verbatim>\<open>srv/utils/hex-patterns.ts\<close>: 64 lowercase hexadecimal characters.\<close>

definition HEX64_RE :: "string \<Rightarrow> bool" where
  "HEX64_RE s \<longleftrightarrow> length s = 64 \<and> list_all is_lower_hex s"

text \<open>The prefix \<^verbatim>\<open>/^0x/i\<close> removed, once.\<close>

fun strip_0x :: "string \<Rightarrow> string" where
  "strip_0x (a # b # cs) = (if a = CHR ''0'' \<and> lower_char b = CHR ''x'' then cs else a # b # cs)"
| "strip_0x cs = cs"

definition bareHex :: "string \<Rightarrow> string" where
  "bareHex s = toLowerCase (strip_0x (trim s))"

definition digit_char :: "nat \<Rightarrow> char" where
  "digit_char d = char_of (48 + d)"

fun nat_str :: "nat \<Rightarrow> string" where
  "nat_str n = (if n < 10 then [digit_char n] else nat_str (n div 10) @ [digit_char (n mod 10)])"

declare nat_str.simps [simp del]

definition int_str :: "int \<Rightarrow> string" where
  "int_str i = (if i < 0 then CHR ''-'' # nat_str (nat (- i)) else nat_str (nat i))"

text \<open>A string in single quotes, as the messages print names.\<close>

definition quoted :: "string \<Rightarrow> string" where
  "quoted s = [CHR 0x27] @ s @ [CHR 0x27]"

fun join :: "string \<Rightarrow> string list \<Rightarrow> string" where
  "join sep [] = []"
| "join sep [x] = x"
| "join sep (x # y # ys) = x @ sep @ join sep (y # ys)"

text \<open>The names an object literal has without listing them: the properties of \<^verbatim>\<open>Object.prototype\<close>.\<close>

definition OBJECT_PROPERTIES :: "string list" where
  "OBJECT_PROPERTIES = [''constructor'', ''__defineGetter__'', ''__defineSetter__'', ''hasOwnProperty'', ''__lookupGetter__'', ''__lookupSetter__'',
     ''isPrototypeOf'', ''propertyIsEnumerable'', ''toString'', ''valueOf'', ''__proto__'', ''toLocaleString'']"

text \<open>\<^verbatim>\<open>split\<close> at a character: the pieces between its occurrences, at least one.\<close>

fun split_at_char :: "char \<Rightarrow> string \<Rightarrow> string list" where
  "split_at_char sep [] = [[]]"
| "split_at_char sep (c # cs) =
     (if c = sep then [] # split_at_char sep cs
      else (case split_at_char sep cs of [] \<Rightarrow> [[c]] | p # ps \<Rightarrow> (c # p) # ps))"

lemma split_at_char_nonempty [simp]: "split_at_char sep s \<noteq> []"
  by (cases s) (auto split: list.splits)

section \<open>Thrown values\<close>

text \<open>
  What the code reads of a thrown value: its \<^verbatim>\<open>code\<close> (empty when it has none) and its message
  (\<^verbatim>\<open>errorMessage\<close> of \<^verbatim>\<open>srv/utils/errors.ts\<close> on an \<^verbatim>\<open>Error\<close>).
\<close>

record js_error =
  err_code :: string
  err_message :: string

definition js_Error :: "string \<Rightarrow> js_error" where
  "js_Error m = \<lparr>err_code = [], err_message = m\<rparr>"

type_synonym 'a result = "js_error + 'a"

fun isInr :: "'a + 'b \<Rightarrow> bool" where
  "isInr (Inr _) = True"
| "isInr (Inl _) = False"

text \<open>A check that refuses ends the sequence of checks.\<close>

definition check_then :: "'e + 'a \<Rightarrow> ('a \<Rightarrow> 'e + 'b) \<Rightarrow> 'e + 'b" where
  "check_then m f = (case m of Inl e \<Rightarrow> Inl e | Inr x \<Rightarrow> f x)"

definition require :: "bool \<Rightarrow> 'e \<Rightarrow> 'e + unit" where
  "require b e = (if b then Inr () else Inl e)"

lemma check_then_Inr [simp]: "check_then m f = Inr y \<longleftrightarrow> (\<exists>x. m = Inr x \<and> f x = Inr y)"
  by (cases m) (auto simp: check_then_def)

lemma require_Inr [simp]: "require b e = Inr u \<longleftrightarrow> b"
  by (simp add: require_def)

section \<open>JSON values\<close>

text \<open>
  A text column written by \<^verbatim>\<open>JSON.stringify\<close> and read by \<^verbatim>\<open>JSON.parse\<close> is modelled by the value it
  stands for; \<open>JRaw\<close> is a text that does not parse. Numbers are integers.
\<close>

datatype json = JNull | JBool bool | JNum int | JStr string | JArr "json list" | JObj "(string \<times> json) list"

datatype json_text = JText json | JRaw string

fun json_parse :: "json_text \<Rightarrow> json option" where
  "json_parse (JText v) = Some v"
| "json_parse (JRaw _) = None"

fun json_field :: "string \<Rightarrow> json \<Rightarrow> json option" where
  "json_field k (JObj kvs) = map_of kvs k"
| "json_field k _ = None"

text \<open>\<^verbatim>\<open>JSON.stringify\<close>.\<close>

definition hex_digit :: "nat \<Rightarrow> char" where
  "hex_digit n = (if n < 10 then char_of (48 + n) else char_of (87 + n))"

definition json_escape :: "char \<Rightarrow> string" where
  "json_escape c =
     (let n = of_char c :: nat; bs = char_of (92 :: nat) in
      if n = 34 then [bs, c] else if n = 92 then [bs, bs]
      else if n = 8 then [bs, CHR ''b''] else if n = 9 then [bs, CHR ''t''] else if n = 10 then [bs, CHR ''n'']
      else if n = 12 then [bs, CHR ''f''] else if n = 13 then [bs, CHR ''r'']
      else if n < 32 then [bs, CHR ''u'', CHR ''0'', CHR ''0'', hex_digit (n div 16), hex_digit (n mod 16)]
      else [c])"

definition json_quote :: "string \<Rightarrow> string" where
  "json_quote s = [CHR 0x22] @ concat (map json_escape s) @ [CHR 0x22]"

fun json_stringify :: "json \<Rightarrow> string" where
  "json_stringify JNull = ''null''"
| "json_stringify (JBool b) = (if b then ''true'' else ''false'')"
| "json_stringify (JNum n) = int_str n"
| "json_stringify (JStr s) = json_quote s"
| "json_stringify (JArr vs) = ''['' @ join '','' (map json_stringify vs) @ '']''"
| "json_stringify (JObj kvs) = ''{'' @ join '','' (map (\<lambda>(k, v). json_quote k @ '':'' @ json_stringify v) kvs) @ ''}''"

fun json_strings :: "json list \<Rightarrow> string list" where
  "json_strings [] = []"
| "json_strings (JStr s # vs) = s # json_strings vs"
| "json_strings (_ # vs) = json_strings vs"

text \<open>\<^verbatim>\<open>parseJsonStringList\<close>: the strings of a stored JSON array, anything else reads as empty.\<close>

definition parseJsonStringList :: "json_text option \<Rightarrow> string list" where
  "parseJsonStringList raw =
     (case raw of None \<Rightarrow> []
      | Some t \<Rightarrow> (case json_parse t of Some (JArr vs) \<Rightarrow> json_strings vs | _ \<Rightarrow> []))"

definition json_of_strings :: "string list \<Rightarrow> json_text" where
  "json_of_strings xs = JText (JArr (map JStr xs))"

lemma json_strings_map [simp]: "json_strings (map JStr xs) = xs"
  by (induction xs) auto

lemma parse_json_of_strings [simp]: "parseJsonStringList (Some (json_of_strings xs)) = xs"
  by (simp add: parseJsonStringList_def json_of_strings_def)

lemma parse_json_None [simp]: "parseJsonStringList None = []"
  by (simp add: parseJsonStringList_def)

text \<open>\<^verbatim>\<open>String(value)\<close>.\<close>

fun js_String :: "json \<Rightarrow> string" where
  "js_String (JStr s) = s"
| "js_String (JNum n) = int_str n"
| "js_String (JBool b) = (if b then ''true'' else ''false'')"
| "js_String JNull = ''null''"
| "js_String (JArr vs) = join '','' (map (\<lambda>v. if v = JNull then [] else js_String v) vs)"
| "js_String (JObj kvs) = ''[object Object]''"

section \<open>Numbers\<close>

abbreviation MAX_SAFE_INTEGER :: int where "MAX_SAFE_INTEGER \<equiv> 9007199254740991"

fun digits_val :: "string \<Rightarrow> int \<Rightarrow> int" where
  "digits_val [] acc = acc"
| "digits_val (c # cs) acc = digits_val cs (10 * acc + (int (of_char c) - 48))"

lemma digits_val_append: "digits_val (xs @ ys) acc = digits_val ys (digits_val xs acc)"
  by (induction xs acc rule: digits_val.induct) simp_all

lemma digits_val_nonneg: "list_all is_digit s \<Longrightarrow> 0 \<le> acc \<Longrightarrow> 0 \<le> digits_val s acc"
  by (induction s arbitrary: acc) (auto simp: is_digit_def Let_def)

lemma digit_char_digit: "d < 10 \<Longrightarrow> is_digit (digit_char d)" "d < 10 \<Longrightarrow> (of_char (digit_char d) :: nat) = 48 + d"
  by (simp_all add: is_digit_def digit_char_def)

text \<open>Printing a number and reading its digits gives the number back.\<close>

lemma nat_str_digits: "nat_str n \<noteq> [] \<and> list_all is_digit (nat_str n) \<and> digits_val (nat_str n) 0 = int n"
proof (induction n rule: nat_str.induct)
  case (1 n)
  show ?case
  proof (cases "n < 10")
    case True
    then show ?thesis by (subst (1 2 3) nat_str.simps) (simp add: digit_char_digit)
  next
    case False
    have "int n = 10 * int (n div 10) + int (n mod 10)" by presburger
    then show ?thesis using False 1 by (subst (1 2 3) nat_str.simps) (simp add: digit_char_digit digits_val_append)
  qed
qed

text \<open>\<^verbatim>\<open>toBigInt\<close> and \<^verbatim>\<open>toInt\<close> of \<^verbatim>\<open>srv/utils/numbers.ts\<close>.\<close>

definition text_int :: "string \<Rightarrow> int" where
  "text_int s =
     (case filter (\<lambda>c. c \<noteq> CHR '','' \<and> c \<noteq> CHR ''_'' \<and> \<not> is_space c) s of
        [] \<Rightarrow> 0
      | c # cs \<Rightarrow>
          if c = CHR ''-'' then (if cs \<noteq> [] \<and> list_all is_digit cs then - digits_val cs 0 else 0)
          else if list_all is_digit (c # cs) then digits_val (c # cs) 0 else 0)"

definition toBigInt :: "json option \<Rightarrow> int" where
  "toBigInt v = (case v of Some (JNum n) \<Rightarrow> n | None \<Rightarrow> 0 | Some JNull \<Rightarrow> 0 | Some w \<Rightarrow> text_int (js_String w))"

definition toInt :: "json option \<Rightarrow> int" where
  "toInt v = (let big = toBigInt v in if big \<le> MAX_SAFE_INTEGER \<and> - MAX_SAFE_INTEGER \<le> big then big else 0)"

text \<open>\<^verbatim>\<open>bareHex\<close> on a value of any type.\<close>

definition bareHex_of :: "json option \<Rightarrow> string" where
  "bareHex_of v = (case v of None \<Rightarrow> [] | Some JNull \<Rightarrow> [] | Some w \<Rightarrow> bareHex (js_String w))"

section \<open>Lists\<close>

text \<open>Lists cut into pieces, for statements that take a limited number of parameters.\<close>

function chunks_of :: "nat \<Rightarrow> 'a list \<Rightarrow> 'a list list" where
  "chunks_of n xs = (if xs = [] \<or> n = 0 then [] else take n xs # chunks_of n (drop n xs))"
  by pat_completeness auto
termination
  by (relation "measure (\<lambda>(n, xs). length xs)") auto

declare chunks_of.simps [simp del]

lemma chunks_of_concat: "0 < n \<Longrightarrow> concat (chunks_of n xs) = xs"
proof (induction n xs rule: chunks_of.induct)
  case (1 n xs)
  then show ?case by (subst chunks_of.simps) simp
qed

lemma chunks_of_set: "0 < n \<Longrightarrow> (\<Union>c \<in> set (chunks_of n xs). set c) = set xs"
  by (metis chunks_of_concat set_concat)

text \<open>The elements of a \<^verbatim>\<open>Set\<close> in insertion order.\<close>

definition js_set :: "'a list \<Rightarrow> 'a list" where
  "js_set xs = rev (remdups (rev xs))"

lemma set_js_set [simp]: "set (js_set xs) = set xs"
  by (simp add: js_set_def)

lemma distinct_js_set [simp]: "distinct (js_set xs)"
  by (simp add: js_set_def)

section \<open>Calendar time\<close>

text \<open>
  \<^verbatim>\<open>Date.prototype.toISOString\<close> on a time in milliseconds since 1970: the proleptic Gregorian date of
  the day number, then the time of day, with years 0 to 9999.
\<close>

definition civil_of_days :: "int \<Rightarrow> int \<times> int \<times> int" where
  "civil_of_days d =
     (let z = d + 719468;
          era = z div 146097;
          doe = z mod 146097;
          yoe = (doe - doe div 1460 + doe div 36524 - doe div 146096) div 365;
          doy = doe - (365 * yoe + yoe div 4 - yoe div 100);
          mp = (5 * doy + 2) div 153;
          dd = doy - (153 * mp + 2) div 5 + 1;
          mm = (if mp < 10 then mp + 3 else mp - 9);
          yy = yoe + era * 400
      in (if mm \<le> 2 then yy + 1 else yy, mm, dd))"

definition pad :: "nat \<Rightarrow> int \<Rightarrow> string" where
  "pad n i = (let s = int_str i in replicate (n - length s) (CHR ''0'') @ s)"

abbreviation ms_per_hour :: int where "ms_per_hour \<equiv> 3600000"
abbreviation ms_per_day :: int where "ms_per_day \<equiv> 86400000"

definition toISOString :: "int \<Rightarrow> string" where
  "toISOString ms =
     (let (y, m, d) = civil_of_days (ms div ms_per_day); t = ms mod ms_per_day
      in pad 4 y @ ''-'' @ pad 2 m @ ''-'' @ pad 2 d @ ''T''
         @ pad 2 (t div ms_per_hour) @ '':'' @ pad 2 (t div 60000 mod 60) @ '':''
         @ pad 2 (t div 1000 mod 60) @ ''.'' @ pad 3 (t mod 1000) @ ''Z'')"

section \<open>Tables\<close>

text \<open>
  A database table is the list of its rows in insertion order. An \<^verbatim>\<open>UPDATE ... SET ... WHERE\<close> is one
  atomic step: every matching row is patched, and the driver answers with the number of
  rows it changed.
\<close>

definition update_where :: "('r \<Rightarrow> bool) \<Rightarrow> ('r \<Rightarrow> 'r) \<Rightarrow> 'r list \<Rightarrow> nat \<times> 'r list" where
  "update_where g p rs = (length (filter g rs), map (\<lambda>r. if g r then p r else r) rs)"

definition select_one :: "('r \<Rightarrow> bool) \<Rightarrow> 'r list \<Rightarrow> 'r option" where
  "select_one g rs = find g rs"

lemma fst_update_where [table_simps]: "fst (update_where g p rs) = length (filter g rs)"
  by (simp add: update_where_def)

lemma snd_update_where [table_simps]: "snd (update_where g p rs) = map (\<lambda>r. if g r then p r else r) rs"
  by (simp add: update_where_def)

lemma length_update_where [simp]: "length (snd (update_where g p rs)) = length rs"
  by (simp add: update_where_def)

lemma update_where_none: "fst (update_where g p rs) = 0 \<Longrightarrow> snd (update_where g p rs) = rs"
  by (auto simp: update_where_def filter_empty_conv intro!: map_idI)

lemma update_where_keeps:
  "(\<And>r. g r \<Longrightarrow> f (p r) = f r) \<Longrightarrow> map f (snd (update_where g p rs)) = map f rs"
  by (simp add: update_where_def)

lemma select_one_Some: "select_one g rs = Some r \<Longrightarrow> r \<in> set rs \<and> g r"
  by (auto simp: select_one_def find_Some_iff)

lemma select_one_None: "select_one g rs = None \<longleftrightarrow> (\<forall>r \<in> set rs. \<not> g r)"
  by (auto simp: select_one_def find_None_iff)

lemma distinct_map_eqD: "distinct (map f xs) \<Longrightarrow> x \<in> set xs \<Longrightarrow> y \<in> set xs \<Longrightarrow> f x = f y \<Longrightarrow> x = y"
  by (auto simp: distinct_map inj_on_def)

lemma filter_eq_single: "distinct xs \<Longrightarrow> x \<in> set xs \<Longrightarrow> filter (\<lambda>y. y = x) xs = [x]"
  by (induction xs) (auto simp: filter_empty_conv)

lemma filter_key_single:
  assumes "distinct (map f xs)" and "x \<in> set xs" and "P x" and "\<And>y. P y \<Longrightarrow> f y = f x"
  shows "filter P xs = [x]"
proof -
  have "filter P xs = filter (\<lambda>y. y = x) xs"
    by (rule filter_cong) (use assms in \<open>auto dest: distinct_map_eqD\<close>)
  then show ?thesis using assms(1,2) by (simp add: distinct_map filter_eq_single)
qed

lemma filter_key_at_most_one:
  assumes d: "distinct (map f xs)" and k: "\<And>x y. P x \<Longrightarrow> P y \<Longrightarrow> f x = f y"
  shows "length (filter P xs) \<le> 1"
proof (cases "filter P xs")
  case (Cons x rest)
  then have x: "x \<in> set (filter P xs)" by simp
  have "filter P xs = [x]"
    by (rule filter_key_single [OF d]) (use x in simp, use x in simp, use x in \<open>auto intro: k\<close>)
  then show ?thesis by simp
qed simp

end
