(* ===== verification/Db_Retry.thy ===== *)
theory Db_Retry
  imports Prelude
begin

text \<open>
  The retry wrapper of the persistence layer (\<^verbatim>\<open>srv/submission/db-write-retry.ts\<close>) and the
  classification of driver errors (\<^verbatim>\<open>srv/utils/db-errors.ts\<close>).

  A write attempt is a function of the attempt's number and of the database. Which attempts
  the driver fails is not under the code's control, so it is a parameter: \<open>faults n\<close> is the
  error of attempt \<open>n\<close>, raised before anything commits. The back-off sleeps between attempts
  change no state and are left out.
\<close>

section \<open>Classification of errors\<close>

definition PG_RETRY_SQLSTATES :: "string list" where
  "PG_RETRY_SQLSTATES = [''40001'', ''40P01'', ''55P03'', ''57014'']"

definition LOCK_PATTERNS :: "string list" where
  "LOCK_PATTERNS =
     [''database is locked'', ''sqlite_busy'', ''could not serialize access'', ''deadlock detected'',
      ''lock timeout'', ''canceling statement due to lock timeout'', ''resourcerequest timed out'']"

definition isLockContention :: "js_error \<Rightarrow> bool" where
  "isLockContention e \<longleftrightarrow>
     err_code e \<in> set PG_RETRY_SQLSTATES \<or> err_code e = ''SQLITE_BUSY''
     \<or> list_ex (strIncludes (toLowerCase (err_message e))) LOCK_PATTERNS"

definition UNIQUE_PATTERNS :: "string list" where
  "UNIQUE_PATTERNS =
     [''unique constraint failed'', ''duplicate key value'', ''violates unique constraint'',
      ''unique constraint violated'']"

definition isUniqueViolation :: "js_error \<Rightarrow> bool" where
  "isUniqueViolation e \<longleftrightarrow>
     err_code e = ''23505'' \<or> err_code e = ''UNIQUE_CONSTRAINT_VIOLATION'' \<or> err_code e = ''ENTITY_ALREADY_EXISTS''
     \<or> list_ex (strIncludes (toLowerCase (err_message e))) UNIQUE_PATTERNS"

section \<open>The retry loop\<close>

definition LOCK_CONTENTION_ATTEMPTS :: nat where
  "LOCK_CONTENTION_ATTEMPTS = 5"

type_synonym ('s, 'a) attempt = "nat \<Rightarrow> 's \<Rightarrow> 'a result \<times> 's"

text \<open>
  The \<^verbatim>\<open>for\<close> loop: attempt \<open>i\<close> runs the write; a lock error is remembered and the next attempt
  runs, any other error is thrown at once, and after the last attempt the remembered error is
  thrown.
\<close>

function retry_from :: "nat \<Rightarrow> js_error \<Rightarrow> ('s, 'a) attempt \<Rightarrow> 's \<Rightarrow> 'a result \<times> 's" where
  "retry_from i lastErr wr s =
     (if i < LOCK_CONTENTION_ATTEMPTS then
        (case wr i s of
           (Inr a, s') \<Rightarrow> (Inr a, s')
         | (Inl e, s') \<Rightarrow>
             if isLockContention e then retry_from (Suc i) e wr s' else (Inl e, s'))
      else (Inl lastErr, s))"
  by pat_completeness auto
termination
  by (relation "measure (\<lambda>(i, _). LOCK_CONTENTION_ATTEMPTS - i)") auto

declare retry_from.simps [simp del]

definition withLockContentionRetry :: "('s, 'a) attempt \<Rightarrow> 's \<Rightarrow> 'a result \<times> 's" where
  "withLockContentionRetry wr s = retry_from 0 (js_Error ''undefined'') wr s"

type_synonym faults = "nat \<Rightarrow> js_error option"

text \<open>One statement or transaction against the driver, which may fail before it commits.\<close>

definition db_write :: "faults \<Rightarrow> ('s \<Rightarrow> 'a \<times> 's) \<Rightarrow> ('s, 'a) attempt" where
  "db_write faults stmt n s =
     (case faults n of Some e \<Rightarrow> (Inl e, s) | None \<Rightarrow> (case stmt s of (a, s') \<Rightarrow> (Inr a, s')))"

text \<open>A transaction: a thrown error rolls everything back.\<close>

definition db_tx :: "faults \<Rightarrow> ('s \<Rightarrow> 'a result \<times> 's) \<Rightarrow> ('s, 'a) attempt" where
  "db_tx faults body n s =
     (case faults n of Some e \<Rightarrow> (Inl e, s)
      | None \<Rightarrow> (case body s of (Inr a, s') \<Rightarrow> (Inr a, s') | (Inl e, _) \<Rightarrow> (Inl e, s)))"

text \<open>A property every attempt keeps is kept by the wrapper, also when attempts commit part of their work.\<close>

lemma retry_from_keeps:
  assumes "\<And>n s. P s \<Longrightarrow> P (snd (wr n s))" and "P s"
  shows "P (snd (retry_from i le wr s))"
  using assms(2)
proof (induction "LOCK_CONTENTION_ATTEMPTS - i" arbitrary: i le s)
  case 0
  then show ?case by (subst retry_from.simps) simp
next
  case (Suc d)
  then have "P (snd (wr i s))" using assms(1) by simp
  with Suc show ?case by (subst retry_from.simps) (auto split: prod.splits sum.splits)
qed

lemma retry_keeps:
  assumes "\<And>n s. P s \<Longrightarrow> P (snd (wr n s))" and "P s"
  shows "P (snd (withLockContentionRetry wr s))"
  using retry_from_keeps [OF assms] by (simp add: withLockContentionRetry_def)

lemma retry_from_returned:
  assumes "retry_from i le wr s = (Inr a, s')" and "\<And>n s e s'. I s \<Longrightarrow> wr n s = (Inl e, s') \<Longrightarrow> I s'" and "I s"
    and "\<And>n s s'. I s \<Longrightarrow> wr n s = (Inr a, s') \<Longrightarrow> Q s'"
  shows "Q s'"
  using assms(1,3)
proof (induction "LOCK_CONTENTION_ATTEMPTS - i" arbitrary: i le s)
  case 0
  then show ?case by (simp add: retry_from.simps [of i])
next
  case (Suc d)
  obtain x t where wt: "wr i s = (x, t)" by (cases "wr i s")
  have i: "i < LOCK_CONTENTION_ATTEMPTS" using Suc.hyps(2) by simp
  show ?case
  proof (cases x)
    case (Inr b)
    then have "b = a" "t = s'" using Suc.prems(1) i wt by (simp_all add: retry_from.simps [of i])
    with Inr wt show ?thesis using assms(4) [OF Suc.prems(2)] by blast
  next
    case (Inl e)
    then have "retry_from (Suc i) e wr t = (Inr a, s')"
      using Suc.prems(1) i wt by (simp add: retry_from.simps [of i] split: if_splits)
    moreover have "d = LOCK_CONTENTION_ATTEMPTS - Suc i" using Suc.hyps(2) by simp
    moreover have "I t" using assms(2) [OF Suc.prems(2)] wt Inl by blast
    ultimately show ?thesis using Suc.hyps(1) by blast
  qed
qed

text \<open>What a successful attempt establishes holds when the wrapper returns.\<close>

lemma retry_returned:
  assumes "withLockContentionRetry wr s = (Inr a, s')" and "\<And>n s e s'. I s \<Longrightarrow> wr n s = (Inl e, s') \<Longrightarrow> I s'" and "I s"
    and "\<And>n s s'. I s \<Longrightarrow> wr n s = (Inr a, s') \<Longrightarrow> Q s'"
  shows "Q s'"
  using assms retry_from_returned [where wr = wr and I = I and Q = Q and a = a]
  unfolding withLockContentionRetry_def by blast

text \<open>What every failed attempt keeps holds when the wrapper throws.\<close>

lemma retry_from_failed:
  assumes "retry_from i le wr s = (Inl e, s')" and "\<And>n s e s'. I s \<Longrightarrow> wr n s = (Inl e, s') \<Longrightarrow> I s'" and "I s"
  shows "I s'"
  using assms(1,3)
proof (induction "LOCK_CONTENTION_ATTEMPTS - i" arbitrary: i le s)
  case 0
  then show ?case by (simp add: retry_from.simps [of i])
next
  case (Suc d)
  obtain x t where wt: "wr i s = (x, t)" by (cases "wr i s")
  have i: "i < LOCK_CONTENTION_ATTEMPTS" using Suc.hyps(2) by simp
  show ?case
  proof (cases x)
    case (Inr b)
    then show ?thesis using Suc.prems(1) i wt by (simp add: retry_from.simps [of i])
  next
    case (Inl e1)
    have "I t" using assms(2) [OF Suc.prems(2)] wt Inl by blast
    moreover have "t = s' \<or> retry_from (Suc i) e1 wr t = (Inl e, s')"
      using Suc.prems(1) i wt Inl by (simp add: retry_from.simps [of i] split: if_splits)
    moreover have "d = LOCK_CONTENTION_ATTEMPTS - Suc i" using Suc.hyps(2) by simp
    ultimately show ?thesis using Suc.hyps(1) by blast
  qed
qed

section \<open>The interface: attempts that fail atomically\<close>

text \<open>
  What the retry loop needs of a write to be safe: a failed attempt leaves the database as it was.
\<close>

locale atomic_attempt =
  fixes wr :: "('s, 'a) attempt"
  assumes failed_keeps: "wr n s = (Inl e, s') \<Longrightarrow> s' = s"
begin

lemma retry_from_step:
  "retry_from i le wr s =
     (if i < LOCK_CONTENTION_ATTEMPTS then
        (case wr i s of (Inr a, s') \<Rightarrow> (Inr a, s')
         | (Inl e, _) \<Rightarrow> if isLockContention e then retry_from (Suc i) e wr s else (Inl e, s))
      else (Inl le, s))"
  by (subst retry_from.simps) (auto split: prod.splits sum.splits dest: failed_keeps)

lemma retry_from_cases:
  "retry_from i le wr s = (r, s') \<Longrightarrow>
     (\<exists>e. r = Inl e \<and> s' = s)
     \<or> (\<exists>n a. n < LOCK_CONTENTION_ATTEMPTS \<and> r = Inr a \<and> wr n s = (Inr a, s'))"
proof (induction "LOCK_CONTENTION_ATTEMPTS - i" arbitrary: i le)
  case 0
  then show ?case by (auto simp: retry_from_step [of i])
next
  case (Suc d)
  then have d: "d = LOCK_CONTENTION_ATTEMPTS - Suc i" and i: "i < LOCK_CONTENTION_ATTEMPTS" by simp_all
  show ?case
    using Suc.prems Suc.hyps(1) [OF d] i
    by (auto simp: retry_from_step [of i] split: prod.splits sum.splits if_splits)
qed

text \<open>
  The wrapper commits the write at most once: either it throws and the database is unchanged, or
  exactly one attempt succeeded, on the database as the wrapper found it.
\<close>

lemma retry_cases:
  assumes "withLockContentionRetry wr s = (r, s')"
  obtains (failed) e where "r = Inl e" and "s' = s"
    | (committed) n a where "n < LOCK_CONTENTION_ATTEMPTS" and "r = Inr a" and "wr n s = (Inr a, s')"
  using retry_from_cases [of 0 "js_Error ''undefined''" s r s'] assms
  by (auto simp: withLockContentionRetry_def)

lemma retry_all_locked:
  assumes "\<And>n. n < LOCK_CONTENTION_ATTEMPTS \<Longrightarrow> \<exists>e. wr n s = (Inl e, s) \<and> isLockContention e"
  shows "\<exists>e. withLockContentionRetry wr s = (Inl e, s) \<and> isLockContention e"
proof -
  have "\<exists>e. retry_from i le wr s = (Inl e, s) \<and> isLockContention e"
    if "i \<le> LOCK_CONTENTION_ATTEMPTS" and "i = LOCK_CONTENTION_ATTEMPTS \<longrightarrow> isLockContention le" for i le
    using that
  proof (induction "LOCK_CONTENTION_ATTEMPTS - i" arbitrary: i le)
    case 0
    then show ?case by (simp add: retry_from_step [of LOCK_CONTENTION_ATTEMPTS])
  next
    case (Suc d)
    then have i: "i < LOCK_CONTENTION_ATTEMPTS" by simp
    then obtain e where e: "wr i s = (Inl e, s)" "isLockContention e" using assms by blast
    then show ?case using Suc i by (simp add: retry_from_step [of i])
  qed
  then show ?thesis by (simp add: withLockContentionRetry_def LOCK_CONTENTION_ATTEMPTS_def)
qed

lemma retry_first:
  assumes "wr 0 s = (Inr a, s')"
  shows "withLockContentionRetry wr s = (Inr a, s')"
  using assms by (simp add: withLockContentionRetry_def retry_from_step LOCK_CONTENTION_ATTEMPTS_def)

lemma retry_throws:
  assumes "wr 0 s = (Inl e, s)" and "\<not> isLockContention e"
  shows "withLockContentionRetry wr s = (Inl e, s)"
  using assms by (simp add: withLockContentionRetry_def retry_from_step LOCK_CONTENTION_ATTEMPTS_def)

end

interpretation stmt_attempt: atomic_attempt "db_write faults stmt" for faults stmt
  by unfold_locales (auto simp: db_write_def split: option.splits prod.splits)

interpretation tx_attempt: atomic_attempt "db_tx faults body" for faults body
  by unfold_locales (auto simp: db_tx_def split: option.splits prod.splits sum.splits)

text \<open>What a component sees of a wrapped statement or transaction.\<close>

lemma retried_stmt_cases:
  assumes "withLockContentionRetry (db_write faults stmt) s = (r, s')"
  shows "(\<exists>e. r = Inl e \<and> s' = s) \<or> (r = Inr (fst (stmt s)) \<and> s' = snd (stmt s))"
  using assms
  by (rule stmt_attempt.retry_cases) (auto simp: db_write_def split: option.splits prod.splits)

lemma retried_tx_cases:
  assumes "withLockContentionRetry (db_tx faults body) s = (r, s')"
  shows "(\<exists>e. r = Inl e \<and> s' = s) \<or> (\<exists>a. r = Inr a \<and> body s = (Inr a, s'))"
  using assms
  by (rule tx_attempt.retry_cases) (auto simp: db_tx_def split: option.splits prod.splits sum.splits)

lemma retried_stmt_ok:
  "faults 0 = None \<Longrightarrow> withLockContentionRetry (db_write faults stmt) s = (Inr (fst (stmt s)), snd (stmt s))"
  by (rule stmt_attempt.retry_first) (simp add: db_write_def split: prod.splits)

lemma retried_tx_ok:
  "faults 0 = None \<Longrightarrow> body s = (Inr a, s') \<Longrightarrow> withLockContentionRetry (db_tx faults body) s = (Inr a, s')"
  by (rule tx_attempt.retry_first) (simp add: db_tx_def)

end
