(* ===== verification/Job_Kinds.thy ===== *)
theory Job_Kinds
  imports Prelude "HOL-Library.AList"
begin

text \<open>
  The table of background-job kinds (\<^verbatim>\<open>srv/submission/job-kinds.ts\<close>), the registry of processors
  and finalizers (\<^verbatim>\<open>srv/submission/job-registry.ts\<close>) and the concurrency classes the scheduler
  derives from the traits (\<^verbatim>\<open>srv/submission/job-scheduler.ts\<close>). A JavaScript \<^verbatim>\<open>Map\<close> is an association
  list in insertion order: \<^verbatim>\<open>set\<close> is \<^const>\<open>AList.update\<close>, which keeps the place of a known key.
\<close>

section \<open>The table of kinds\<close>

record job_traits =
  heavy :: bool
  workflowParent :: bool
  identifierKeyed :: bool
  serial :: bool
  sessionBound :: bool

datatype job_executor = ExWallet | ExContract | ExMintShieldedTestToken | ExMintFactoryToken
  | ExSponsorFinalized | ExSponsorUnbound | ExReindexDisclosures

datatype job_finalizer = ContractProjection | SponsoredSubmission | FactoryMint

record job_kind_def =
  traits :: job_traits
  executor :: job_executor
  kind_op :: "string option"
  finalizer :: "job_finalizer option"

definition LIGHT_KIND :: job_traits where
  "LIGHT_KIND = \<lparr>heavy = False, workflowParent = False, identifierKeyed = False, serial = False, sessionBound = False\<rparr>"

definition HEAVY_KIND :: job_traits where
  "HEAVY_KIND = \<lparr>heavy = True, workflowParent = False, identifierKeyed = False, serial = False, sessionBound = False\<rparr>"

definition WORKFLOW_PARENT_KIND :: job_traits where
  "WORKFLOW_PARENT_KIND = \<lparr>heavy = True, workflowParent = True, identifierKeyed = False, serial = False, sessionBound = False\<rparr>"

definition contract :: "string \<Rightarrow> job_traits \<Rightarrow> job_finalizer option \<Rightarrow> job_kind_def" where
  "contract opn t fin = \<lparr>traits = t, executor = ExContract, kind_op = Some opn, finalizer = fin\<rparr>"

definition JOB_KINDS :: "(string \<times> job_kind_def) list" where
  "JOB_KINDS =
    [(''connectWalletForSigning'',
        \<lparr>traits = LIGHT_KIND\<lparr>serial := True, sessionBound := True\<rparr>, executor = ExWallet, kind_op = Some ''prewarm'', finalizer = None\<rparr>),
     (''registerForDustGeneration'', \<lparr>traits = HEAVY_KIND, executor = ExWallet, kind_op = Some ''registerDust'', finalizer = None\<rparr>),
     (''deregisterFromDustGeneration'', \<lparr>traits = HEAVY_KIND, executor = ExWallet, kind_op = Some ''deregisterDust'', finalizer = None\<rparr>),
     (''sendNight'', \<lparr>traits = HEAVY_KIND, executor = ExWallet, kind_op = Some ''sendNight'', finalizer = None\<rparr>),
     (''deployContract'', contract ''deploy'' HEAVY_KIND None),
     (''submitContractCall'', contract ''call'' HEAVY_KIND None),
     (''submitContractCallBatch'', contract ''callBatch'' HEAVY_KIND (Some ContractProjection)),
     (''mintShieldedTestToken'', \<lparr>traits = HEAVY_KIND, executor = ExMintShieldedTestToken, kind_op = Some ''call'', finalizer = None\<rparr>),
     (''mintFactoryToken'', \<lparr>traits = HEAVY_KIND, executor = ExMintFactoryToken, kind_op = Some ''call'', finalizer = Some FactoryMint\<rparr>),
     (''anchorDocument'', contract ''anchorDocument'' HEAVY_KIND (Some ContractProjection)),
     (''grantDisclosure'', contract ''grantDisclosure'' HEAVY_KIND (Some ContractProjection)),
     (''revokeDisclosure'', contract ''revokeDisclosure'' HEAVY_KIND (Some ContractProjection)),
     (''registerPassport'', contract ''registerPassport'' HEAVY_KIND (Some ContractProjection)),
     (''retract'', contract ''retract'' HEAVY_KIND (Some ContractProjection)),
     (''reindexDisclosures'', \<lparr>traits = LIGHT_KIND, executor = ExReindexDisclosures, kind_op = Some ''reindexDisclosures'', finalizer = None\<rparr>),
     (''issueFieldPredicateAttestation'', contract ''fieldPredicateWorkflow'' WORKFLOW_PARENT_KIND None),
     (''issueFieldPredicateAttestationBatch'', contract ''fieldPredicateBatchWorkflow'' WORKFLOW_PARENT_KIND None),
     (''issueFieldEqualityAttestation'', contract ''fieldEqualityWorkflow'' WORKFLOW_PARENT_KIND None),
     (''issueFieldMembershipAttestation'', contract ''fieldMembershipWorkflow'' WORKFLOW_PARENT_KIND None),
     (''issueDocumentIntegrityAttestation'', contract ''documentIntegrityWorkflow'' WORKFLOW_PARENT_KIND None),
     (''issueDocumentDiffAttestation'', contract ''documentDiffWorkflow'' WORKFLOW_PARENT_KIND None),
     (''fieldAnchorRoot'', contract ''call'' HEAVY_KIND None),
     (''fieldPredicateProof'', contract ''call'' HEAVY_KIND None),
     (''fieldPredicateBatchProof'', contract ''callBatch'' HEAVY_KIND (Some ContractProjection)),
     (''fieldEqualityProof'', contract ''call'' HEAVY_KIND None),
     (''fieldMembershipProof'', contract ''call'' HEAVY_KIND None),
     (''documentIntegrityProof'', contract ''call'' HEAVY_KIND None),
     (''documentDiffProof'', contract ''call'' HEAVY_KIND None),
     (''buildSponsorableTx'', contract ''buildSponsorable'' HEAVY_KIND None),
     (''sponsorFinalizedTransaction'',
        \<lparr>traits = LIGHT_KIND\<lparr>identifierKeyed := True\<rparr>, executor = ExSponsorFinalized, kind_op = None, finalizer = Some SponsoredSubmission\<rparr>),
     (''sponsorUnboundTransaction'',
        \<lparr>traits = HEAVY_KIND\<lparr>identifierKeyed := True\<rparr>, executor = ExSponsorUnbound, kind_op = None, finalizer = Some SponsoredSubmission\<rparr>),
     (''sponsorSwap'',
        \<lparr>traits = HEAVY_KIND\<lparr>identifierKeyed := True\<rparr>, executor = ExSponsorUnbound, kind_op = None, finalizer = Some SponsoredSubmission\<rparr>),
     (''sponsorTransfer'',
        \<lparr>traits = HEAVY_KIND\<lparr>identifierKeyed := True\<rparr>, executor = ExSponsorUnbound, kind_op = None, finalizer = Some SponsoredSubmission\<rparr>),
     (''burnFactoryToken'', contract ''call'' HEAVY_KIND None)]"

definition JOB_KIND_TRAITS :: "(string \<times> job_traits) list" where
  "JOB_KIND_TRAITS = map (\<lambda>(k, d). (k, traits d)) JOB_KINDS"

definition jobKindsOf :: "job_executor \<Rightarrow> string list" where
  "jobKindsOf ex = map fst (filter (\<lambda>(_, d). executor d = ex) JOB_KINDS)"

definition jobKindOp :: "string \<Rightarrow> string option" where
  "jobKindOp k = (case map_of JOB_KINDS k of Some d \<Rightarrow> kind_op d | None \<Rightarrow> None)"

definition declaredJobKindTraits :: "string \<Rightarrow> job_traits result" where
  "declaredJobKindTraits k =
     (case map_of JOB_KIND_TRAITS k of
        Some t \<Rightarrow> Inr t
      | None \<Rightarrow> Inl (js_Error (''job kind '' @ quoted k @ '' is not declared in srv/submission/job-kinds.ts'')))"

section \<open>The registry\<close>

text \<open>Processors and finalizers are opaque values; only their keys matter here.\<close>

record ('p, 'f) job_registry =
  kindTraits :: "(string \<times> job_traits) list"
  processors :: "(string \<times> 'p) list"
  reconciliationFinalizers :: "(string \<times> 'f) list"

definition declareJobKind :: "string \<Rightarrow> job_traits \<Rightarrow> ('p, 'f) job_registry \<Rightarrow> ('p, 'f) job_registry result" where
  "declareJobKind k t r =
     (if k = [] then Inl (js_Error (''declareJobKind(): heavy, workflowParent and identifierKeyed must be booleans''))
      else Inr (r\<lparr>kindTraits := AList.update k t (kindTraits r)\<rparr>))"

definition jobKindTraits :: "('p, 'f) job_registry \<Rightarrow> string \<Rightarrow> job_traits" where
  "jobKindTraits r k = (case map_of (kindTraits r) k of Some t \<Rightarrow> t | None \<Rightarrow> LIGHT_KIND)"

definition kindsWithTrait :: "(job_traits \<Rightarrow> bool) \<Rightarrow> ('p, 'f) job_registry \<Rightarrow> string list" where
  "kindsWithTrait tr r = map fst (filter (\<lambda>(_, t). tr t) (kindTraits r))"

definition processorKey :: "string \<Rightarrow> int \<Rightarrow> string" where
  "processorKey k v = k @ [CHR 0x00] @ int_str v"

definition registerBackgroundJobProcessor ::
    "string \<Rightarrow> int \<Rightarrow> job_traits \<Rightarrow> 'p \<Rightarrow> ('p, 'f) job_registry \<Rightarrow> ('p, 'f) job_registry result" where
  "registerBackgroundJobProcessor k v t p r =
     (if k = [] \<or> v < 1 then Inl (js_Error ''registerBackgroundJobProcessor: kind, positive version, traits and processor are required'')
      else (case declareJobKind k t r of
              Inl e \<Rightarrow> Inl e
            | Inr r' \<Rightarrow> Inr (r'\<lparr>processors := AList.update (processorKey k v) p (processors r')\<rparr>)))"

definition undeclaredOrUnregisteredJobKinds :: "('p, 'f) job_registry \<Rightarrow> string list" where
  "undeclaredOrUnregisteredJobKinds r =
     (let registered = map (takeWhile (\<lambda>c. c \<noteq> CHR 0x00) \<circ> fst) (processors r)
      in filter (\<lambda>k. k \<notin> set registered) (map fst JOB_KIND_TRAITS))"

definition registerBackgroundJobReconciliationFinalizer ::
    "string \<Rightarrow> int \<Rightarrow> 'f \<Rightarrow> ('p, 'f) job_registry \<Rightarrow> ('p, 'f) job_registry result" where
  "registerBackgroundJobReconciliationFinalizer k v f r =
     (if k = [] \<or> v < 1 then Inl (js_Error ''registerBackgroundJobReconciliationFinalizer: kind, positive version and finalizer are required'')
      else Inr (r\<lparr>reconciliationFinalizers := AList.update (processorKey k v) f (reconciliationFinalizers r)\<rparr>))"

section \<open>Concurrency classes\<close>

datatype cap_class = Heavy | Light | Serial

definition concurrencyClass :: "('p, 'f) job_registry \<Rightarrow> string \<Rightarrow> string \<times> cap_class" where
  "concurrencyClass r k =
     (let t = jobKindTraits r k in
      if serial t then (''serial:'' @ k, Serial)
      else if workflowParent t then (''workflow'', Heavy)
      else if heavy t then (''heavy'', Heavy)
      else (''light:'' @ k, Light))"

definition DEFAULT_CONCURRENCY :: "cap_class \<Rightarrow> int" where
  "DEFAULT_CONCURRENCY c = (case c of Heavy \<Rightarrow> 4 | Light \<Rightarrow> 16 | Serial \<Rightarrow> 1)"

text \<open>\<^verbatim>\<open>getSemaphore\<close>'s limit: the configured cap of the class, else the default.\<close>

definition semaphore_cap :: "(cap_class \<Rightarrow> int option) \<Rightarrow> ('p, 'f) job_registry \<Rightarrow> string \<Rightarrow> int" where
  "semaphore_cap userCaps r k =
     (case userCaps (snd (concurrencyClass r k)) of Some n \<Rightarrow> n | None \<Rightarrow> DEFAULT_CONCURRENCY (snd (concurrencyClass r k)))"

section \<open>Facts\<close>

lemma jobKindTraits_declare:
  "declareJobKind k t r = Inr r' \<Longrightarrow> jobKindTraits r' k' = (if k' = k then t else jobKindTraits r k')"
  by (auto simp: declareJobKind_def jobKindTraits_def update_conv split: if_splits)

lemma takeWhile_processorKey:
  "CHR 0x00 \<notin> set k \<Longrightarrow> takeWhile (\<lambda>c. c \<noteq> CHR 0x00) (processorKey k v) = k"
  by (auto simp: processorKey_def takeWhile_append)

lemma set_fst_update: "fst ` set (AList.update k v al) = insert k (fst ` set al)"
  by (induction al) auto

lemma undeclared_register:
  assumes "registerBackgroundJobProcessor k v t p r = Inr r'" and "CHR 0x00 \<notin> set k"
  shows "set (undeclaredOrUnregisteredJobKinds r') = set (undeclaredOrUnregisteredJobKinds r) - {k}"
proof -
  have "processors r' = AList.update (processorKey k v) p (processors r)"
    using assms(1) by (auto simp: registerBackgroundJobProcessor_def declareJobKind_def split: if_splits)
  then have pr: "fst ` set (processors r') = insert (processorKey k v) (fst ` set (processors r))"
    by (simp add: set_fst_update)
  have "set (map (takeWhile (\<lambda>c. c \<noteq> CHR 0x00) \<circ> fst) (processors r'))
        = insert k (set (map (takeWhile (\<lambda>c. c \<noteq> CHR 0x00) \<circ> fst) (processors r)))"
    using pr takeWhile_processorKey [OF assms(2), of v]
    by (metis (no_types, lifting) image_comp image_insert list.set_map)
  then show ?thesis
    unfolding undeclaredOrUnregisteredJobKinds_def Let_def by auto
qed

text \<open>The classes are disjoint: each key belongs to one shape of traits.\<close>

lemma concurrencyClass_workflow:
  "fst (concurrencyClass r k) = ''workflow'' \<longleftrightarrow> workflowParent (jobKindTraits r k) \<and> \<not> serial (jobKindTraits r k)"
  by (auto simp: concurrencyClass_def Let_def)

lemma concurrencyClass_heavy:
  "fst (concurrencyClass r k) = ''heavy'' \<longleftrightarrow>
     heavy (jobKindTraits r k) \<and> \<not> workflowParent (jobKindTraits r k) \<and> \<not> serial (jobKindTraits r k)"
  by (auto simp: concurrencyClass_def Let_def)

end
