(* ===== verification/Job_Store.thy ===== *)
theory Job_Store
  imports Db_Retry Job_Kinds
begin

text \<open>
  The \<^verbatim>\<open>BackgroundJobs\<close> table (\<^verbatim>\<open>db/schema.cds\<close>) and its status changes
  (\<^verbatim>\<open>srv/submission/job-store.ts\<close>). Each operation is one guarded \<^verbatim>\<open>UPDATE\<close> through the retry wrapper
  of \<^verbatim>\<open>Db_Retry\<close>; its guard and its patch are definitions of their own, so that the laws
  every update obeys are stated once, in the locale \<open>job_update\<close>, and discharged per operation.
\<close>

section \<open>Rows\<close>

datatype job_status = Pending | Running | ExternalExecution | Submitted | Succeeded | Failed | ReconciliationRequired

datatype chain_status = ChainPending | ChainSuccess | ChainFailure | ChainDropped

text \<open>A stored command: plain JSON, or the envelope the encryption produced.\<close>

datatype stored_command = PlainCommand json | SealedCommand string

record job =
  ID :: string
  kind :: string
  sessionId :: "string option"
  status :: job_status
  idempotencyKey :: "string option"
  request :: "json_text option"
  payloadFingerprint :: "string option"
  commandVersion :: "int option"
  command :: "stored_command option"
  commandEncoding :: "string option"
  requestedBy :: "string option"
  grantId :: "string option"
  parentJobId :: "string option"
  workflowStep :: "string option"
  job_result :: "json_text option"
  errorCode :: "string option"
  errorMessage :: "string option"
  startedAt :: "int option"
  queuedAt :: "int option"
  externalExecutionAt :: "int option"
  submittedAt :: "int option"
  finishedAt :: "int option"
  attempt_no :: int
  maxAttempts :: int
  leaseOwner :: "string option"
  leaseExpiresAt :: "int option"
  heartbeatAt :: "int option"
  submissionId :: "string option"
  txHash :: "string option"
  chainStatus :: "chain_status option"
  chainFinalizedAt :: "int option"
  chainBlockHeight :: "int option"
  chainBlockHash :: "string option"
  indexerTxHash :: "string option"
  chainSegments :: "json_text option"

type_synonym jobs = "job list"

text \<open>The runtime a status change reads: the clock, this process's worker id, the lease time to live.\<close>

record job_env =
  now :: int
  workerId :: string
  leaseTtl :: int

definition leaseExpiry :: "job_env \<Rightarrow> int" where
  "leaseExpiry env = now env + leaseTtl env"

text \<open>\<^verbatim>\<open>getRuntimeWorkerId\<close>: the first non-empty of the sources, kept for the process's life.\<close>

definition getRuntimeWorkerId :: "string option \<Rightarrow> string \<Rightarrow> string \<Rightarrow> string \<Rightarrow> string \<Rightarrow> string" where
  "getRuntimeWorkerId cached instanceId cfGuid hostname uuid =
     (case cached of Some w \<Rightarrow> w
      | None \<Rightarrow> if instanceId \<noteq> [] then instanceId else if cfGuid \<noteq> [] then cfGuid
               else if hostname \<noteq> [] then hostname else uuid)"

definition in_flight :: "job_status \<Rightarrow> bool" where
  "in_flight s \<longleftrightarrow> s = Running \<or> s = ExternalExecution \<or> s = Submitted"

definition past_boundary :: "job_status \<Rightarrow> bool" where
  "past_boundary s \<longleftrightarrow> s = ExternalExecution \<or> s = Submitted"

definition clear_lease :: "job \<Rightarrow> job" where
  "clear_lease j = j\<lparr>leaseOwner := None, leaseExpiresAt := None, heartbeatAt := None\<rparr>"

definition beat :: "job_env \<Rightarrow> job \<Rightarrow> job" where
  "beat env j = j\<lparr>heartbeatAt := Some (now env), leaseExpiresAt := Some (leaseExpiry env)\<rparr>"

section \<open>Reads\<close>

definition getJobById :: "string \<Rightarrow> jobs \<Rightarrow> job option" where
  "getJobById i js = (if i = [] then None else select_one (\<lambda>j. ID j = i) js)"

text \<open>The last inserted row of the kind in the session: \<^verbatim>\<open>orderBy('createdAt desc')\<close>.\<close>

definition findLatestJob :: "string \<Rightarrow> string \<Rightarrow> jobs \<Rightarrow> (string \<times> job_status) option" where
  "findLatestJob k sid js =
     map_option (\<lambda>j. (ID j, status j)) (select_one (\<lambda>j. sessionId j = Some sid \<and> kind j = k) (rev js))"

text \<open>Why a workflow fails with its child, as it is stored with the parent.\<close>

definition childFailedMessage :: "job \<Rightarrow> jobs \<Rightarrow> string" where
  "childFailedMessage failed siblings =
     (let landed = map (\<lambda>c. case workflowStep c of Some w \<Rightarrow> w | None \<Rightarrow> ID c) (filter (\<lambda>c. status c = Succeeded) siblings)
      in ''Child job '' @ ID failed @ '' (workflow step '' @ quoted (case workflowStep failed of Some w \<Rightarrow> w | None \<Rightarrow> ''?'')
         @ '') failed ['' @ (case errorCode failed of Some c \<Rightarrow> c | None \<Rightarrow> ''UNKNOWN'') @ '']: ''
         @ take 1500 (case errorMessage failed of Some m \<Rightarrow> m | None \<Rightarrow> ''unknown error'')
         @ (if landed \<noteq> [] then '' Steps already on chain: '' @ join '', '' landed @ ''.'' else '' No step of this workflow is on chain.'')
         @ '' A new attempt needs a new idempotencyKey.'')"

section \<open>The guarded updates\<close>

definition owned :: "job_env \<Rightarrow> string \<Rightarrow> job \<Rightarrow> bool" where
  "owned env i j \<longleftrightarrow> ID j = i \<and> leaseOwner j = Some (workerId env)"

definition running_guard :: "string \<Rightarrow> job \<Rightarrow> bool" where
  "running_guard i j \<longleftrightarrow> ID j = i \<and> status j = Pending"

definition running_patch :: "job_env \<Rightarrow> job \<Rightarrow> job" where
  "running_patch env j = beat env (j\<lparr>status := Running, startedAt := Some (now env), leaseOwner := Some (workerId env)\<rparr>)"

definition finish_guard :: "job_env \<Rightarrow> string \<Rightarrow> job \<Rightarrow> bool" where
  "finish_guard env i j \<longleftrightarrow> owned env i j \<and> in_flight (status j)"

definition succeeded_patch :: "job_env \<Rightarrow> json \<Rightarrow> job \<Rightarrow> job" where
  "succeeded_patch env res j =
     clear_lease (j\<lparr>status := Succeeded, job_result := Some (JText res), finishedAt := Some (now env)\<rparr>)"

definition failed_patch :: "job_env \<Rightarrow> string \<Rightarrow> string \<Rightarrow> job \<Rightarrow> job" where
  "failed_patch env c m j =
     clear_lease (j\<lparr>status := Failed, errorCode := Some (take 64 c), errorMessage := Some (take 4000 m), finishedAt := Some (now env)\<rparr>)"

definition reconciliation_patch :: "string \<Rightarrow> string \<Rightarrow> job \<Rightarrow> job" where
  "reconciliation_patch c m j =
     clear_lease (j\<lparr>status := ReconciliationRequired, errorCode := Some (take 64 c), errorMessage := Some (take 4000 m)\<rparr>)"

definition external_guard :: "job_env \<Rightarrow> string \<Rightarrow> job \<Rightarrow> bool" where
  "external_guard env i j \<longleftrightarrow> owned env i j \<and> status j = Running"

definition external_patch :: "job_env \<Rightarrow> string option \<Rightarrow> job \<Rightarrow> job" where
  "external_patch env sub j =
     beat env (j\<lparr>status := ExternalExecution, submissionId := sub, externalExecutionAt := Some (now env)\<rparr>)"

definition broadcast_guard :: "job_env \<Rightarrow> string \<Rightarrow> bool \<Rightarrow> job \<Rightarrow> bool" where
  "broadcast_guard env i first j \<longleftrightarrow>
     owned env i j \<and> (if first then status j = Running else past_boundary (status j))"

definition broadcast_patch :: "job_env \<Rightarrow> string option \<Rightarrow> string option \<Rightarrow> bool \<Rightarrow> job \<Rightarrow> job" where
  "broadcast_patch env sub hash first j =
     beat env (j\<lparr>status := Submitted, submissionId := sub, txHash := hash, chainStatus := Some ChainPending,
                externalExecutionAt := (if first then Some (now env) else externalExecutionAt j),
                submittedAt := Some (now env)\<rparr>)"

definition rejected_guard :: "job_env \<Rightarrow> string \<Rightarrow> string option \<Rightarrow> job \<Rightarrow> bool" where
  "rejected_guard env i hash j \<longleftrightarrow>
     owned env i j \<and> past_boundary (status j)
     \<and> (case hash of None \<Rightarrow> True | Some h \<Rightarrow> h = [] \<or> txHash j = Some h)"

definition rejected_patch :: "job_env \<Rightarrow> string option \<Rightarrow> job \<Rightarrow> job" where
  "rejected_patch env sub j =
     beat env (j\<lparr>status := ExternalExecution, txHash := None, chainStatus := None, submissionId := sub\<rparr>)"

definition submitted_guard :: "job_env \<Rightarrow> string \<Rightarrow> job \<Rightarrow> bool" where
  "submitted_guard env i j \<longleftrightarrow> owned env i j \<and> past_boundary (status j)"

definition submitted_patch :: "job_env \<Rightarrow> string option \<Rightarrow> string option \<Rightarrow> job \<Rightarrow> job" where
  "submitted_patch env sub hash j =
     beat env (j\<lparr>status := Submitted, submissionId := sub, txHash := hash, chainStatus := Some ChainPending, submittedAt := Some (now env)\<rparr>)"

definition supersede_guard :: "string \<Rightarrow> string \<Rightarrow> string option \<Rightarrow> job \<Rightarrow> bool" where
  "supersede_guard k sid excl j \<longleftrightarrow>
     kind j = k \<and> sessionId j = Some sid \<and> (status j = Pending \<or> status j = Running)
     \<and> (case excl of Some x \<Rightarrow> x = [] \<or> ID j \<noteq> x | None \<Rightarrow> True)"

definition drop_guard :: "string list \<Rightarrow> job \<Rightarrow> bool" where
  "drop_guard sids j \<longleftrightarrow> status j = Pending \<and> (case sessionId j of Some s \<Rightarrow> s \<in> set sids | None \<Rightarrow> False)"

definition end_patch :: "job_env \<Rightarrow> string \<Rightarrow> string \<Rightarrow> job \<Rightarrow> job" where
  "end_patch env c m j =
     clear_lease (j\<lparr>status := Failed, errorCode := Some c, errorMessage := Some m, finishedAt := Some (now env)\<rparr>)"

section \<open>The operations\<close>

text \<open>A transaction around one update that must hit exactly one row; otherwise the lease is lost.\<close>

definition leased_update :: "string \<Rightarrow> (job \<Rightarrow> bool) \<Rightarrow> (job \<Rightarrow> job) \<Rightarrow> jobs \<Rightarrow> unit result \<times> jobs" where
  "leased_update what g p js =
     (case update_where g p js of
        (n, js') \<Rightarrow> if n \<noteq> 1 then (Inl (js_Error (''Lease lost before '' @ what)), js') else (Inr (), js'))"

definition markRunning :: "job_env \<Rightarrow> faults \<Rightarrow> string \<Rightarrow> jobs \<Rightarrow> bool result \<times> jobs" where
  "markRunning env faults i js =
     (case withLockContentionRetry (db_write faults (update_where (running_guard i) (running_patch env))) js of
        (Inr n, js') \<Rightarrow> (Inr (n = 1), js')
      | (Inl e, js') \<Rightarrow> (Inl e, js'))"

definition markSucceeded :: "job_env \<Rightarrow> faults \<Rightarrow> string \<Rightarrow> json \<Rightarrow> jobs \<Rightarrow> unit result \<times> jobs" where
  "markSucceeded env faults i res js =
     withLockContentionRetry
       (db_tx faults (leased_update (''markSucceeded('' @ i @ '')'') (finish_guard env i) (succeeded_patch env res))) js"

text \<open>The two failure marks log a write error and return; the row then stays as it is.\<close>

definition markFailed :: "job_env \<Rightarrow> faults \<Rightarrow> string \<Rightarrow> string \<Rightarrow> string \<Rightarrow> jobs \<Rightarrow> jobs" where
  "markFailed env faults i c m js =
     snd (withLockContentionRetry
       (db_tx faults (leased_update (''markFailed('' @ i @ '')'') (finish_guard env i) (failed_patch env c m))) js)"

definition markReconciliationRequired :: "job_env \<Rightarrow> faults \<Rightarrow> string \<Rightarrow> string \<Rightarrow> string \<Rightarrow> jobs \<Rightarrow> jobs" where
  "markReconciliationRequired env faults i c m js =
     snd (withLockContentionRetry
       (db_tx faults (leased_update (''parent reconciliation update ('' @ i @ '')'') (finish_guard env i) (reconciliation_patch c m))) js)"

text \<open>One tick of the lease heartbeat; a driver error is logged and skipped.\<close>

definition lease_heartbeat :: "job_env \<Rightarrow> js_error option \<Rightarrow> string \<Rightarrow> jobs \<Rightarrow> jobs" where
  "lease_heartbeat env fault i js =
     snd (db_write (\<lambda>_. fault) (update_where (finish_guard env i) (beat env)) 0 js)"

definition markJobExternalExecution :: "job_env \<Rightarrow> faults \<Rightarrow> string \<Rightarrow> string option \<Rightarrow> jobs \<Rightarrow> unit result \<times> jobs" where
  "markJobExternalExecution env faults i sub js =
     (case withLockContentionRetry (db_write faults (update_where (external_guard env i) (external_patch env sub))) js of
        (Inl e, js') \<Rightarrow> (Inl e, js')
      | (Inr n, js') \<Rightarrow>
          if n = 1 then (Inr (), js')
          else (case getJobById i js' of
                  Some cur \<Rightarrow>
                    if leaseOwner cur = Some (workerId env) \<and> past_boundary (status cur)
                    then (Inl (js_Error (''markJobExternalExecution('' @ i @ ''): job already crossed the external-effect boundary; a background job may perform at most one external submission.'')), js')
                    else (Inl (js_Error (''Lease lost before markJobExternalExecution('' @ i @ '')'')), js')
                | None \<Rightarrow> (Inl (js_Error (''Lease lost before markJobExternalExecution('' @ i @ '')'')), js')))"

text \<open>The two marks that run inside the caller's transaction: no retry of their own.\<close>

definition markJobBroadcastOn ::
    "job_env \<Rightarrow> string \<Rightarrow> string option \<Rightarrow> string option \<Rightarrow> bool \<Rightarrow> jobs \<Rightarrow> unit result \<times> jobs" where
  "markJobBroadcastOn env i sub hash first js =
     (case update_where (broadcast_guard env i first) (broadcast_patch env sub hash first) js of
        (n, js') \<Rightarrow>
          if n = 1 then (Inr (), js')
          else (Inl (js_Error (''Lease lost before markJobBroadcastOn('' @ i @ '')'' @ (if first then [] else '' (rebuild attempt)''))), js'))"

definition markJobSubmissionRejectedOn ::
    "job_env \<Rightarrow> string \<Rightarrow> string option \<Rightarrow> string option \<Rightarrow> jobs \<Rightarrow> unit result \<times> jobs" where
  "markJobSubmissionRejectedOn env i sub hash js =
     (case update_where (rejected_guard env i hash) (rejected_patch env sub) js of
        (n, js') \<Rightarrow>
          if n = 1 then (Inr (), js')
          else (Inl (js_Error (''Lease lost (or hash already moved) before markJobSubmissionRejectedOn('' @ i @ '')'')), js'))"

definition markJobSubmitted :: "job_env \<Rightarrow> faults \<Rightarrow> string \<Rightarrow> string option \<Rightarrow> string option \<Rightarrow> jobs \<Rightarrow> unit result \<times> jobs" where
  "markJobSubmitted env faults i sub hash js =
     (case withLockContentionRetry (db_write faults (update_where (submitted_guard env i) (submitted_patch env sub hash))) js of
        (Inl e, js') \<Rightarrow> (Inl e, js')
      | (Inr n, js') \<Rightarrow> if n \<noteq> 1 then (Inl (js_Error (''Lease lost before markJobSubmitted('' @ i @ '')'')), js') else (Inr (), js'))"

definition SUPERSEDED_MESSAGE :: string where
  "SUPERSEDED_MESSAGE = ''Superseded by a newer job of the same kind for this session; the successor job carries the live status.''"

text \<open>Inside a request the sweep runs once under a savepoint, else through the retry wrapper.\<close>

definition supersedeQueuedJobs :: "job_env \<Rightarrow> bool \<Rightarrow> faults \<Rightarrow> string \<Rightarrow> string \<Rightarrow> string option \<Rightarrow> jobs \<Rightarrow> nat result \<times> jobs" where
  "supersedeQueuedJobs env inRequest faults k sid excl js =
     (let stmt = update_where (supersede_guard k sid excl) (end_patch env ''SUPERSEDED'' SUPERSEDED_MESSAGE)
      in if inRequest then db_write faults stmt 0 js
         else withLockContentionRetry (db_write faults stmt) js)"

definition SESSION_CLOSED_MESSAGE :: string where
  "SESSION_CLOSED_MESSAGE = ''Dropped on restart: the wallet session this job signs with was closed by the restart cleanup, so a replay could no longer decrypt its signing material. Reconnect and submit the action again if it is still wanted.''"

text \<open>
  The chunks of one attempt. Each chunk is a statement of its own that commits by itself, so a
  driver error in a later chunk leaves the earlier ones done.
\<close>

fun drop_chunks :: "job_env \<Rightarrow> faults \<Rightarrow> nat \<Rightarrow> string list list \<Rightarrow> nat \<Rightarrow> jobs \<Rightarrow> nat result \<times> jobs" where
  "drop_chunks env faults c [] dropped js = (Inr dropped, js)"
| "drop_chunks env faults c (sids # rest) dropped js =
     (case db_write faults (update_where (drop_guard sids) (end_patch env ''PROCESS_RESTART_SESSION_CLOSED'' SESSION_CLOSED_MESSAGE)) c js of
        (Inl e, js') \<Rightarrow> (Inl e, js')
      | (Inr n, js') \<Rightarrow> drop_chunks env faults (Suc c) rest (dropped + n) js')"

definition dropPendingJobsForClosedSessions :: "job_env \<Rightarrow> (nat \<Rightarrow> faults) \<Rightarrow> string list \<Rightarrow> jobs \<Rightarrow> nat result \<times> jobs" where
  "dropPendingJobsForClosedSessions env faults sids js =
     (if sids = [] then (Inr 0, js)
      else withLockContentionRetry (\<lambda>n. drop_chunks env (faults n) 0 (chunks_of 200 sids) 0) js)"

section \<open>The life cycle and the invariant\<close>

text \<open>
  The abstract specification of a job: the status changes that may happen; \<open>w\<close> says whether the
  job runs as a workflow parent. \<open>Succeeded\<close> is final. A job returns to \<open>Pending\<close> only from
  \<open>Running\<close> (nothing was sent) or, as a workflow parent whose steps are all done, from
  \<open>ReconciliationRequired\<close>. A failure is reopened only for reconciliation, after a rollback of the
  block that carried it.
\<close>

fun lifecycle :: "bool \<Rightarrow> job_status \<Rightarrow> job_status \<Rightarrow> bool" where
  "lifecycle w Pending s = (s \<in> {Pending, Running, Failed})"
| "lifecycle w Running s = True"
| "lifecycle w ExternalExecution s = (s \<notin> {Pending, Running})"
| "lifecycle w Submitted s = (s \<notin> {Pending, Running})"
| "lifecycle w ReconciliationRequired s = (s \<in> {ReconciliationRequired, Succeeded, Failed} \<or> w \<and> s = Pending)"
| "lifecycle w Succeeded s = (s = Succeeded)"
| "lifecycle w Failed s = (s \<in> {Failed, ReconciliationRequired})"

lemma lifecycle_refl [simp]: "lifecycle w s s"
  by (cases s) auto

text \<open>
  What is left of the life cycle over any number of changes: success stays, a job that left
  \<open>Pending\<close> and \<open>Running\<close> never becomes startable again unless it is a workflow parent, and a
  settled job never goes back in flight.
\<close>

definition startable :: "job_status \<Rightarrow> bool" where
  "startable s \<longleftrightarrow> s = Pending \<or> s = Running"

definition settled_status :: "job_status \<Rightarrow> bool" where
  "settled_status s \<longleftrightarrow> s = ReconciliationRequired \<or> s = Succeeded \<or> s = Failed"

definition progress :: "bool \<Rightarrow> job_status \<Rightarrow> job_status \<Rightarrow> bool" where
  "progress w s s' \<longleftrightarrow>
     (s = Succeeded \<longrightarrow> s' = Succeeded)
     \<and> (\<not> w \<and> \<not> startable s \<longrightarrow> \<not> startable s')
     \<and> (\<not> w \<and> settled_status s \<longrightarrow> settled_status s')"

lemma progress_refl [simp]: "progress w s s"
  by (simp add: progress_def)

lemma progress_trans: "progress w s s' \<Longrightarrow> progress w s' s'' \<Longrightarrow> progress w s s''"
  by (auto simp: progress_def)

lemma lifecycle_progress: "lifecycle w s s' \<Longrightarrow> progress w s s'"
  by (cases s) (auto simp: progress_def startable_def settled_status_def)

text \<open>A failure that no rollback reopens.\<close>

definition closed_failure :: "job \<Rightarrow> bool" where
  "closed_failure j \<longleftrightarrow> status j = Failed \<and> errorCode j \<noteq> Some ''CHAIN_EXECUTION_FAILED''"

text \<open>
  The row invariant, relative to the kinds that run as workflow parents: a job in flight has a lease
  owner, and a job that may run again carries no transaction hash.
\<close>

definition job_ok :: "(string \<Rightarrow> bool) \<Rightarrow> job \<Rightarrow> bool" where
  "job_ok parent j \<longleftrightarrow>
     (in_flight (status j) \<longrightarrow> leaseOwner j \<noteq> None)
     \<and> (status j \<in> {Pending, Running} \<and> \<not> parent (kind j) \<longrightarrow> txHash j = None)"

text \<open>What no status change may touch.\<close>

definition job_identity :: "job \<Rightarrow> string \<times> string \<times> string option \<times> string option \<times> string option
    \<times> int option \<times> stored_command option \<times> string option \<times> string option \<times> string option \<times> json_text option" where
  "job_identity j = (ID j, kind j, sessionId j, idempotencyKey j, payloadFingerprint j, commandVersion j, command j,
     requestedBy j, grantId j, parentJobId j, request j)"

definition idem_key :: "job \<Rightarrow> string option \<times> string \<times> string option" where
  "idem_key j = (sessionId j, kind j, idempotencyKey j)"

definition keyed :: "job \<Rightarrow> bool" where
  "keyed j \<longleftrightarrow> idempotencyKey j \<noteq> None"

text \<open>
  The table invariant: row identifiers are unique, the constraint
  \<^verbatim>\<open>@assert.unique.idempotency\<close> holds for keys that are set, and every row is in order.
\<close>

definition jobs_ok :: "(string \<Rightarrow> bool) \<Rightarrow> jobs \<Rightarrow> bool" where
  "jobs_ok parent js \<longleftrightarrow>
     distinct (map ID js)
     \<and> distinct (map idem_key (filter keyed js))
     \<and> list_all (job_ok parent) js"

text \<open>A step of the table as its rows see it: the same rows, each moved along the life cycle.\<close>

definition row_step :: "(string \<Rightarrow> bool) \<Rightarrow> job \<Rightarrow> job \<Rightarrow> bool" where
  "row_step parent j j' \<longleftrightarrow>
     job_identity j' = job_identity j
     \<and> lifecycle (parent (kind j)) (status j) (status j')
     \<and> (closed_failure j \<longrightarrow> closed_failure j')
     \<and> (job_ok parent j \<longrightarrow> job_ok parent j')"

definition table_step :: "(string \<Rightarrow> bool) \<Rightarrow> jobs \<Rightarrow> jobs \<Rightarrow> bool" where
  "table_step parent js js' \<longleftrightarrow> list_all2 (row_step parent) js js'"

lemma row_step_refl [simp]: "row_step parent j j"
  by (simp add: row_step_def)

lemma table_step_refl [simp]: "table_step parent js js"
  by (simp add: table_step_def list_all2_refl)

lemma identity_parts:
  "job_identity j' = job_identity j \<Longrightarrow>
     ID j' = ID j \<and> idem_key j' = idem_key j \<and> keyed j' = keyed j \<and> kind j' = kind j"
  by (simp add: job_identity_def idem_key_def keyed_def)

lemma table_step_ids: "table_step parent js js' \<Longrightarrow> map ID js' = map ID js"
  unfolding table_step_def
  by (induction rule: list_all2_induct) (auto simp: row_step_def dest: identity_parts)

lemma table_step_keys:
  "table_step parent js js' \<Longrightarrow>
     map idem_key (filter keyed js') = map idem_key (filter keyed js)"
  unfolding table_step_def
proof (induction rule: list_all2_induct)
  case (Cons j js j' js')
  then have "idem_key j' = idem_key j" and "keyed j' = keyed j"
    using identity_parts [of j' j] by (simp_all add: row_step_def)
  with Cons.IH show ?case by simp
qed simp

lemma table_step_rows_ok: "table_step parent js js' \<Longrightarrow> list_all (job_ok parent) js \<Longrightarrow> list_all (job_ok parent) js'"
  unfolding table_step_def
  by (induction rule: list_all2_induct) (auto simp: row_step_def)

lemma table_step_ok: "table_step parent js js' \<Longrightarrow> jobs_ok parent js \<Longrightarrow> jobs_ok parent js'"
  by (simp add: jobs_ok_def table_step_ids table_step_keys table_step_rows_ok)

lemma table_step_row:
  assumes "table_step parent js js'" and "distinct (map ID js)" and "j \<in> set js" and "j' \<in> set js'" and "ID j' = ID j"
  shows "row_step parent j j'"
proof -
  from assms(1,4) obtain k where k: "k < length js'" "js' ! k = j'" "row_step parent (js ! k) j'"
    by (auto simp: table_step_def in_set_conv_nth list_all2_conv_all_nth)
  have "ID j' = ID (js ! k)" using k(3) identity_parts [of j' "js ! k"] by (simp add: row_step_def)
  then have "ID (js ! k) = ID j" using assms(5) by simp
  moreover have "js ! k \<in> set js" using k(1) assms(1) list_all2_lengthD [of "row_step parent" js js'] by (simp add: table_step_def)
  ultimately have "js ! k = j" using assms(2,3) distinct_map_eqD by metis
  with k show ?thesis by simp
qed

text \<open>
  The table after any number of steps, seen from an earlier one: the earlier rows are all
  still there, in place, with their identity, moved along; new rows stand behind them.
\<close>

definition row_progress :: "(string \<Rightarrow> bool) \<Rightarrow> job \<Rightarrow> job \<Rightarrow> bool" where
  "row_progress parent j j' \<longleftrightarrow>
     job_identity j' = job_identity j
     \<and> progress (parent (kind j)) (status j) (status j')
     \<and> (closed_failure j \<longrightarrow> closed_failure j')"

definition evolved :: "(string \<Rightarrow> bool) \<Rightarrow> jobs \<Rightarrow> jobs \<Rightarrow> bool" where
  "evolved parent js0 js \<longleftrightarrow>
     jobs_ok parent js \<and> (\<exists>old new. js = old @ new \<and> list_all2 (row_progress parent) js0 old)"

lemma row_progress_refl [simp]: "row_progress parent j j"
  by (simp add: row_progress_def)

lemma row_progress_step: "row_progress parent j j' \<Longrightarrow> row_step parent j' j'' \<Longrightarrow> row_progress parent j j''"
  using identity_parts [of j' j]
  by (auto simp: row_progress_def row_step_def intro: progress_trans lifecycle_progress)

lemma evolved_start: "jobs_ok parent js \<Longrightarrow> evolved parent js js"
  unfolding evolved_def by (intro conjI exI [of _ js] exI [of _ "[]"]) (simp_all add: list_all2_refl)

lemma evolved_empty [simp]: "evolved parent [] js \<longleftrightarrow> jobs_ok parent js"
  by (simp add: evolved_def)

lemma evolved_ok: "evolved parent js0 js \<Longrightarrow> jobs_ok parent js"
  by (simp add: evolved_def)

lemma evolved_step:
  assumes "table_step parent js js'" and "evolved parent js0 js"
  shows "evolved parent js0 js'"
proof -
  obtain old new where js: "js = old @ new" and p: "list_all2 (row_progress parent) js0 old"
    using assms(2) by (auto simp: evolved_def)
  then obtain old' new' where js': "js' = old' @ new'" and s: "list_all2 (row_step parent) old old'"
    using assms(1) by (auto simp: table_step_def list_all2_append1)
  have "list_all2 (row_progress parent) js0 old'"
    by (rule list_all2_trans [OF _ p s]) (rule row_progress_step)
  then show ?thesis using assms js' table_step_ok by (auto simp: evolved_def)
qed

lemma evolved_row:
  assumes "evolved parent js0 js" and "j \<in> set js0"
  shows "\<exists>j' \<in> set js. row_progress parent j j'"
proof -
  obtain old new where "js = old @ new" "list_all2 (row_progress parent) js0 old"
    using assms(1) by (auto simp: evolved_def)
  moreover obtain k where "k < length js0" "js0 ! k = j" using assms(2) by (auto simp: in_set_conv_nth)
  ultimately have "old ! k \<in> set js \<and> row_progress parent j (old ! k)"
    by (auto simp: list_all2_conv_all_nth)
  then show ?thesis by blast
qed

section \<open>The contract of a guarded update\<close>

locale job_update =
  fixes parent :: "string \<Rightarrow> bool" and guard :: "job \<Rightarrow> bool" and patch :: "job \<Rightarrow> job"
  assumes frame: "job_identity (patch j) = job_identity j"
    and life: "guard j \<Longrightarrow> lifecycle (parent (kind j)) (status j) (status (patch j))"
    and closed: "guard j \<Longrightarrow> closed_failure j \<Longrightarrow> closed_failure (patch j)"
    and safe: "guard j \<Longrightarrow> job_ok parent j \<Longrightarrow> job_ok parent (patch j)"
begin

lemma update_step: "table_step parent js (snd (update_where guard patch js))"
  by (auto simp: table_step_def update_where_def list_all2_conv_all_nth row_step_def frame life closed safe)

lemma leased_step: "table_step parent js (snd (leased_update what guard patch js))"
  using update_step by (auto simp: leased_update_def split: prod.splits) (metis snd_conv)+

lemma retried_step: "table_step parent js (snd (withLockContentionRetry (db_write faults (update_where guard patch)) js))"
  using retried_stmt_cases [of faults "update_where guard patch" js] update_step
  by (metis prod.collapse table_step_refl)

lemma retried_leased_step:
  "table_step parent js (snd (withLockContentionRetry (db_tx faults (leased_update what guard patch)) js))"
  using retried_tx_cases [of faults "leased_update what guard patch" js] leased_step
  by (metis prod.collapse snd_conv table_step_refl)

lemma single_step: "table_step parent js (snd (db_write faults (update_where guard patch) n js))"
  using update_step by (auto simp: db_write_def split: option.splits prod.splits) (metis snd_conv)

end

lemmas job_patch_defs = running_patch_def succeeded_patch_def failed_patch_def reconciliation_patch_def
  external_patch_def broadcast_patch_def rejected_patch_def submitted_patch_def end_patch_def beat_def clear_lease_def

lemmas job_guard_defs = running_guard_def finish_guard_def external_guard_def broadcast_guard_def rejected_guard_def
  submitted_guard_def supersede_guard_def drop_guard_def owned_def in_flight_def past_boundary_def

interpretation running: job_update parent "running_guard i" "running_patch env" for parent i env
  by unfold_locales (auto simp: job_patch_defs job_guard_defs job_identity_def job_ok_def closed_failure_def)

interpretation succeeded: job_update parent "finish_guard env i" "succeeded_patch env res" for parent env i res
  by unfold_locales (auto simp: job_patch_defs job_guard_defs job_identity_def job_ok_def closed_failure_def)

interpretation failed: job_update parent "finish_guard env i" "failed_patch env c m" for parent env i c m
  by unfold_locales (auto simp: job_patch_defs job_guard_defs job_identity_def job_ok_def closed_failure_def)

interpretation reconciliation: job_update parent "finish_guard env i" "reconciliation_patch c m" for parent env i c m
  by unfold_locales (auto simp: job_patch_defs job_guard_defs job_identity_def job_ok_def closed_failure_def)

interpretation external: job_update parent "external_guard env i" "external_patch env sub" for parent env i sub
  by unfold_locales (auto simp: job_patch_defs job_guard_defs job_identity_def job_ok_def closed_failure_def)

interpretation broadcast: job_update parent "broadcast_guard env i first" "broadcast_patch env sub hash first" for parent env i first sub hash
  by unfold_locales (auto simp: job_patch_defs job_guard_defs job_identity_def job_ok_def closed_failure_def split: if_splits)

interpretation rejected: job_update parent "rejected_guard env i hash" "rejected_patch env sub" for parent env i hash sub
  by unfold_locales (auto simp: job_patch_defs job_guard_defs job_identity_def job_ok_def closed_failure_def)

interpretation submitted: job_update parent "submitted_guard env i" "submitted_patch env sub hash" for parent env i sub hash
  by unfold_locales (auto simp: job_patch_defs job_guard_defs job_identity_def job_ok_def closed_failure_def)

interpretation heartbeat: job_update parent "finish_guard env i" "beat env" for parent env i
  by unfold_locales (auto simp: job_patch_defs job_guard_defs job_identity_def job_ok_def closed_failure_def)

interpretation supersede: job_update parent "supersede_guard k sid excl" "end_patch env c m" for parent k sid excl env c m
  by unfold_locales (auto simp: job_patch_defs job_guard_defs job_identity_def job_ok_def closed_failure_def)

interpretation dropping: job_update parent "drop_guard sids" "end_patch env c m" for parent sids env c m
  by unfold_locales (auto simp: job_patch_defs job_guard_defs job_identity_def job_ok_def closed_failure_def)

end
