(* ===== verification/Grant_Row.thy ===== *)
theory Grant_Row
  imports Prelude
begin

text \<open>
  The \<^verbatim>\<open>AgentGrants\<close> table (\<^verbatim>\<open>db/schema.cds\<close>) and the refund of reserved deploys
  (\<^verbatim>\<open>srv/sessions/deploy-refund.ts\<close>), shared by the grant component and the job reconciler. A
  nullable column is an option; a comparison with an absent value does not match, as in SQL,
  and arithmetic on an absent value stays absent. Field names carry the prefix \<open>ag_\<close>.
\<close>

record agent_grant =
  ag_ID :: string
  ag_userId :: string
  ag_agentLabel :: "string option"
  ag_sessionId :: string
  ag_tokenHash :: string
  ag_allowedActions :: "json_text option"
  ag_maxJobsPerDay :: "int option"
  ag_jobsUsedToday :: "int option"
  ag_budgetWindow :: "string option"
  ag_maxJobsPerHour :: "int option"
  ag_jobsUsedThisHour :: "int option"
  ag_hourWindow :: "string option"
  ag_sponsorSessionId :: "string option"
  ag_allowedContracts :: "json_text option"
  ag_allowedCircuits :: "json_text option"
  ag_allowDeploy :: "bool option"
  ag_maxDeploys :: "int option"
  ag_deploysUsed :: "int option"
  ag_deployedContracts :: "json_text option"
  ag_allowedTokenTypes :: "json_text option"
  ag_mintedTokenTypes :: "json_text option"
  ag_allowUnshieldedOffers :: "bool option"
  ag_allowedUnshieldedTokenTypes :: "json_text option"
  ag_maxValuePerDay :: "json_text option"
  ag_valueUsedToday :: "json_text option"
  ag_valueWindow :: "string option"
  ag_validUntil :: "int option"
  ag_isActive :: "bool option"
  ag_revokedAt :: "int option"

type_synonym grants = "agent_grant list"

definition sql_le :: "int option \<Rightarrow> int \<Rightarrow> bool" where
  "sql_le v n = (case v of Some x \<Rightarrow> x \<le> n | None \<Rightarrow> False)"

definition sql_lt :: "int option \<Rightarrow> int \<Rightarrow> bool" where
  "sql_lt v n = (case v of Some x \<Rightarrow> x < n | None \<Rightarrow> False)"

definition sql_ge :: "int option \<Rightarrow> int \<Rightarrow> bool" where
  "sql_ge v n = (case v of Some x \<Rightarrow> n \<le> x | None \<Rightarrow> False)"

definition sql_add :: "int option \<Rightarrow> int \<Rightarrow> int option" where
  "sql_add v n = map_option (\<lambda>x. x + n) v"

definition deployRefund :: "string \<Rightarrow> int \<Rightarrow> grants \<Rightarrow> nat \<times> grants" where
  "deployRefund gid count =
     update_where (\<lambda>g. ag_ID g = gid \<and> sql_ge (ag_deploysUsed g) count)
                  (\<lambda>g. g\<lparr>ag_deploysUsed := sql_add (ag_deploysUsed g) (- count)\<rparr>)"

lemmas sql_defs = sql_le_def sql_lt_def sql_ge_def sql_add_def

lemma deployRefund_ids: "map ag_ID (snd (deployRefund gid n gs)) = map ag_ID gs"
  by (simp add: deployRefund_def update_where_keeps)

text \<open>The refunded counter never drops below zero.\<close>

lemma deployRefund_nonneg:
  assumes "list_all (\<lambda>g. \<forall>n. ag_deploysUsed g = Some n \<longrightarrow> 0 \<le> n) gs"
  shows "list_all (\<lambda>g. \<forall>n. ag_deploysUsed g = Some n \<longrightarrow> 0 \<le> n) (snd (deployRefund gid count gs))"
  using assms
  by (auto simp: deployRefund_def update_where_def list_all_iff sql_defs split: option.splits)

end
