(* ===== verification/Chain_Outcome.thy ===== *)
theory Chain_Outcome
  imports Prelude
begin

text \<open>
  The indexer's view of a submitted transaction (\<^verbatim>\<open>srv/submission/chain-outcome-confirmer.ts\<close>) and
  the facts recorded before a send (\<^verbatim>\<open>srv/submission/submit-intent.ts\<close>).

  The indexer is a service outside the repository. What one query answers is a parameter: an
  error, or the decoded JSON body. \<open>timestampMs\<close> stands for \<^verbatim>\<open>indexerTimestampMs\<close> on the tip's
  timestamp, which is read from that body.
\<close>

section \<open>Outcomes\<close>

datatype outcome_status = OutSuccess | OutFailure

datatype raw_result = RawSuccess | RawPartialSuccess | RawFailure

record chain_outcome =
  out_status :: outcome_status
  out_blockHeight :: int
  out_blockHash :: "string option"
  out_indexerTxHash :: "string option"
  out_result :: "raw_result option"
  out_failedSegments :: "int list"

text \<open>A lookup: a confirmed result, an absence as of a tip time, or nothing to conclude.\<close>

datatype chain_lookup = Outcome chain_outcome | Absent "int option" | NoConclusion

definition isChainOutcome :: "chain_lookup \<Rightarrow> bool" where
  "isChainOutcome l = (case l of Outcome _ \<Rightarrow> True | _ \<Rightarrow> False)"

definition isChainAbsent :: "chain_lookup \<Rightarrow> bool" where
  "isChainAbsent l = (case l of Absent _ \<Rightarrow> True | _ \<Rightarrow> False)"

definition mapIndexerStatus :: "string \<Rightarrow> outcome_status option" where
  "mapIndexerStatus s =
     (if s = ''SUCCESS'' then Some OutSuccess
      else if s = ''FAILURE'' \<or> s = ''PARTIAL_SUCCESS'' then Some OutFailure
      else None)"

definition raw_of :: "string \<Rightarrow> raw_result option" where
  "raw_of s = (if s = ''SUCCESS'' then Some RawSuccess else if s = ''PARTIAL_SUCCESS'' then Some RawPartialSuccess
               else if s = ''FAILURE'' then Some RawFailure else None)"

definition nonNegativeInteger :: "json option \<Rightarrow> int option" where
  "nonNegativeInteger raw =
     (case raw of
        Some (JNum n) \<Rightarrow> if 0 \<le> n then Some n else None
      | Some (JStr s) \<Rightarrow>
          (let t = trim s in
           if t \<noteq> [] \<and> list_all is_digit t
           then (let n = digits_val t 0 in if n \<le> MAX_SAFE_INTEGER then Some n else None)
           else None)
      | _ \<Rightarrow> None)"

section \<open>The confirmer\<close>

text \<open>
  The two keys a transaction is asked for, and what one query yields: the body, an error that says
  the key has the wrong form, or another error, which is thrown.
\<close>

datatype tx_offset = ByIdentifier string | ByHash string

datatype indexer_answer = Body json | KeyInvalid | QueryError js_error

record indexed_slice =
  sl_status :: string
  sl_hash :: "string option"
  sl_blockHash :: "string option"
  sl_blockHeight :: int
  sl_failedSegments :: "int list"

datatype tx_lookup = NotPresent "int option" bool | Present "indexed_slice option"

definition opt_bind_field :: "string \<Rightarrow> json option \<Rightarrow> json option" where
  "opt_bind_field k v = (case v of Some x \<Rightarrow> json_field k x | None \<Rightarrow> None)"

definition str_or_none :: "json option \<Rightarrow> string option" where
  "str_or_none v = (case v of Some (JStr s) \<Rightarrow> Some s | _ \<Rightarrow> None)"

text \<open>\<^verbatim>\<open>Number(v)\<close> where it is an integer; of the strings, the decimal ones.\<close>

definition js_Number :: "json option \<Rightarrow> int option" where
  "js_Number v =
     (case v of
        Some (JNum n) \<Rightarrow> Some n
      | Some JNull \<Rightarrow> Some 0
      | Some (JBool b) \<Rightarrow> Some (if b then 1 else 0)
      | Some (JStr s) \<Rightarrow> (let t = trim s in if list_all is_digit t then Some (digits_val t 0) else None)
      | _ \<Rightarrow> None)"

definition failed_segment_ids :: "json option \<Rightarrow> int list" where
  "failed_segment_ids v =
     (case v of
        Some (JArr ss) \<Rightarrow>
          concat (map (\<lambda>s. if json_field ''success'' s = Some (JBool False)
                            then (case js_Number (json_field ''id'' s) of Some n \<Rightarrow> [n] | None \<Rightarrow> []) else []) ss)
      | _ \<Rightarrow> [])"

definition first_transaction :: "json \<Rightarrow> json option" where
  "first_transaction data =
     (case json_field ''transactions'' data of
        Some (JArr (JObj kvs # _)) \<Rightarrow> Some (JObj kvs)
      | Some (JArr (JArr vs # _)) \<Rightarrow> Some (JArr vs)
      | _ \<Rightarrow> None)"

definition tx_lookup_of :: "(json option \<Rightarrow> int option) \<Rightarrow> indexer_answer \<Rightarrow> tx_lookup result" where
  "tx_lookup_of timestampMs answer =
     (case answer of
        QueryError e \<Rightarrow> Inl e
      | KeyInvalid \<Rightarrow> Inr (NotPresent None True)
      | Body data \<Rightarrow>
          (case first_transaction data of
             None \<Rightarrow> Inr (NotPresent (timestampMs (opt_bind_field ''timestamp'' (json_field ''block'' data))) False)
           | Some tx \<Rightarrow>
               (let res = json_field ''transactionResult'' tx; blk = json_field ''block'' tx in
                case opt_bind_field ''status'' res of
                  Some (JStr st) \<Rightarrow>
                    (case nonNegativeInteger (opt_bind_field ''height'' blk) of
                       None \<Rightarrow> Inr (Present None)
                     | Some h \<Rightarrow>
                         Inr (Present (Some \<lparr>sl_status = st, sl_hash = str_or_none (json_field ''hash'' tx),
                            sl_blockHash = str_or_none (opt_bind_field ''hash'' blk), sl_blockHeight = h,
                            sl_failedSegments = failed_segment_ids (opt_bind_field ''segments'' res)\<rparr>)))
                | _ \<Rightarrow> Inr (Present None))))"

definition outcomeOf :: "indexed_slice option \<Rightarrow> chain_lookup" where
  "outcomeOf sl =
     (case sl of
        None \<Rightarrow> NoConclusion
      | Some s \<Rightarrow>
          (case mapIndexerStatus (sl_status s) of
             None \<Rightarrow> NoConclusion
           | Some m \<Rightarrow> Outcome \<lparr>out_status = m, out_blockHeight = sl_blockHeight s, out_blockHash = sl_blockHash s,
                out_indexerTxHash = sl_hash s, out_result = raw_of (sl_status s), out_failedSegments = sl_failedSegments s\<rparr>))"

text \<open>The absence of both keys is as old as the older of the two answers that count.\<close>

definition absent_tip :: "(int option \<times> bool) \<Rightarrow> (int option \<times> bool) \<Rightarrow> int option" where
  "absent_tip a b =
     (let tips = map fst (filter (\<lambda>l. \<not> snd l) [a, b])
      in if tips = [] \<or> None \<in> set tips then None else Some (Min (set (map the tips))))"

definition confirmTx :: "(json option \<Rightarrow> int option) \<Rightarrow> (tx_offset \<Rightarrow> indexer_answer) \<Rightarrow> string \<Rightarrow> chain_lookup result" where
  "confirmTx timestampMs indexer h =
     (case tx_lookup_of timestampMs (indexer (ByIdentifier h)) of
        Inl e \<Rightarrow> Inl e
      | Inr (Present sl) \<Rightarrow> Inr (outcomeOf sl)
      | Inr (NotPresent t1 k1) \<Rightarrow>
          (case tx_lookup_of timestampMs (indexer (ByHash h)) of
             Inl e \<Rightarrow> Inl e
           | Inr (Present sl) \<Rightarrow> Inr (outcomeOf sl)
           | Inr (NotPresent t2 k2) \<Rightarrow> Inr (Absent (absent_tip (t1, k1) (t2, k2)))))"

section \<open>The submit intent\<close>

definition parseSubmitIntent :: "json_text option \<Rightarrow> json" where
  "parseSubmitIntent data =
     (case data of None \<Rightarrow> JObj []
      | Some t \<Rightarrow> (case json_parse t of Some (JObj kvs) \<Rightarrow> JObj kvs | _ \<Rightarrow> JObj []))"

section \<open>Facts\<close>

text \<open>A result is confirmed only with a known status and a block height.\<close>

lemma outcomeOf_Outcome:
  "outcomeOf sl = Outcome oc \<Longrightarrow>
     \<exists>s. sl = Some s \<and> mapIndexerStatus (sl_status s) = Some (out_status oc) \<and> out_blockHeight oc = sl_blockHeight s
         \<and> raw_of (sl_status s) = out_result oc"
  by (auto simp: outcomeOf_def split: option.splits)

lemma outcomeOf_not_absent: "outcomeOf sl \<noteq> Absent t"
  by (auto simp: outcomeOf_def split: option.splits)

lemma tx_lookup_height:
  "tx_lookup_of tms ans = Inr (Present (Some s)) \<Longrightarrow> 0 \<le> sl_blockHeight s"
  by (auto simp: tx_lookup_of_def Let_def nonNegativeInteger_def digits_val_nonneg
      split: indexer_answer.splits option.splits json.splits if_splits)

lemma absent_tip_Some:
  assumes "absent_tip a b = Some t"
  shows "(\<not> snd a \<longrightarrow> (\<exists>x. fst a = Some x \<and> t \<le> x)) \<and> (\<not> snd b \<longrightarrow> (\<exists>x. fst b = Some x \<and> t \<le> x)) \<and> (\<not> snd a \<or> \<not> snd b)"
  using assms
  by (cases "fst a"; cases "fst b"; cases "snd a"; cases "snd b") (auto simp: absent_tip_def split: if_splits)

end
