(* ===== verification/Job_Reconciliation.thy ===== *)
theory Job_Reconciliation
  imports Job_Store Grant_Row Chain_Outcome "HOL-Library.List_Lexorder" "HOL-Library.Char_ord"
begin

text \<open>
  Settling jobs with an open outcome (\<^verbatim>\<open>srv/submission/job-reconciliation.ts\<close>): recovery after a
  restart, the settling of rejected sponsoring attempts, the re-queue of parked workflow parents,
  and the confirmation of sent transactions against the indexer, guarded by the rollback counter
  of \<^verbatim>\<open>srv/submission/reorg-generation.ts\<close>.

  The state is the part of the database these passes touch. The confirmer is the function
  registered by \<^verbatim>\<open>registerChainOutcomeConfirmer\<close>; finalizers are the functions in the registry.
  Driver faults are given per job. The pass over succeeded jobs, which runs up to eight lookups
  at once, is modelled in list order: each item commits in one transaction of its own.
\<close>

section \<open>State\<close>

datatype submission_status = SubPending | SubIncluded | SubFinalized | SubFailed

record submission =
  ps_ID :: string
  ps_txHash :: "string option"
  ps_contractAddress :: "string option"
  ps_circuitName :: "string option"
  ps_submittedAt :: "int option"
  ps_status :: submission_status
  ps_finalizedAt :: "int option"
  ps_finalizedTxData :: "string option"
  ps_chainBlockHeight :: "int option"
  ps_chainBlockHash :: "string option"
  ps_indexerTxHash :: "string option"
  ps_submitIntentData :: "json_text option"
  ps_errorCode :: "string option"
  ps_errorMessage :: "string option"

text \<open>\<open>db_generation\<close> is the counter of the \<^verbatim>\<open>SyncState\<close> row; \<^const>\<open>None\<close> when the row does not exist.\<close>

record jdb =
  db_jobs :: jobs
  db_subs :: "submission list"
  db_grants :: grants
  db_generation :: "int option"

definition readReorgGeneration :: "jdb \<Rightarrow> int" where
  "readReorgGeneration db = (case db_generation db of Some n \<Rightarrow> n | None \<Rightarrow> 0)"

definition lockReorgGeneration :: "jdb \<Rightarrow> int \<times> jdb" where
  "lockReorgGeneration db = (readReorgGeneration db, db)"

definition bumpReorgGeneration :: "jdb \<Rightarrow> int \<times> jdb" where
  "bumpReorgGeneration db =
     (let db' = db\<lparr>db_generation := map_option (\<lambda>n. n + 1) (db_generation db)\<rparr> in (readReorgGeneration db', db'))"

record evidence =
  ev_submissionId :: "string option"
  ev_txHash :: "string option"
  ev_contractAddress :: "string option"
  ev_finalizedAt :: "int option"
  ev_blockHeight :: int

type_synonym finalizer_fn = "json \<Rightarrow> job \<Rightarrow> evidence \<Rightarrow> jdb \<Rightarrow> json option result \<times> jdb"

type_synonym registry = "(json \<Rightarrow> job \<Rightarrow> json result, finalizer_fn) job_registry"

text \<open>
  What the passes read besides the database: the runtime of the store, \<^verbatim>\<open>Date.parse\<close> (\<^const>\<open>None\<close> for
  \<^verbatim>\<open>NaN\<close>), the expiry margin, the registry, and the decryption of a stored command, bound to the
  job's id.
\<close>

record rec_env =
  base :: job_env
  dateParse :: "string \<Rightarrow> int option"
  expiryMargin :: int
  reg :: registry
  decrypt :: "string \<Rightarrow> string \<Rightarrow> json result"

abbreviation rnow :: "rec_env \<Rightarrow> int" where "rnow env \<equiv> now (base env)"

section \<open>Recovery after a restart\<close>

definition sessionbound_guard :: "string list \<Rightarrow> job \<Rightarrow> bool" where
  "sessionbound_guard kinds j \<longleftrightarrow> (status j = Pending \<or> status j = Running) \<and> kind j \<in> set kinds"

definition requeue_running_guard :: "job \<Rightarrow> bool" where
  "requeue_running_guard j \<longleftrightarrow> status j = Running \<and> commandVersion j \<noteq> None"

definition requeue_patch :: "job \<Rightarrow> job" where
  "requeue_patch j = clear_lease (j\<lparr>status := Pending, errorCode := None, errorMessage := None, startedAt := None\<rparr>)"

definition unreplayable_guard :: "job \<Rightarrow> bool" where
  "unreplayable_guard j \<longleftrightarrow> (status j = Pending \<or> status j = Running) \<and> commandVersion j = None"

definition unreplayable_patch :: "job_env \<Rightarrow> job \<Rightarrow> job" where
  "unreplayable_patch env j =
     j\<lparr>status := Failed, errorCode := Some ''PROCESS_RESTART_BEFORE_EXECUTION'',
       errorMessage := Some ''The process restarted before the job crossed the external-effect boundary. A new idempotency key may be used for an intentional retry.'',
       finishedAt := Some (now env)\<rparr>"

definition unsent_guard :: "job \<Rightarrow> bool" where
  "unsent_guard j \<longleftrightarrow> status j = ExternalExecution \<and> txHash j = None"

definition interrupted_guard :: "job \<Rightarrow> bool" where
  "interrupted_guard j \<longleftrightarrow> past_boundary (status j)"

definition interrupted_patch :: "job \<Rightarrow> job" where
  "interrupted_patch j =
     clear_lease (j\<lparr>status := ReconciliationRequired, errorCode := Some ''PROCESS_RESTART_RECONCILE'',
       errorMessage := Some ''Execution was interrupted after an external effect may have occurred. Verify submission/chain state before retrying.''\<rparr>)"

definition SESSION_JOB_DROPPED_MESSAGE :: string where
  "SESSION_JOB_DROPPED_MESSAGE = ''Dropped on restart: this job only warms in-process session state, and the caller that requested it did not survive the restart. Call the action again if a warm session is still wanted.''"

definition BEFORE_BROADCAST_MESSAGE :: string where
  "BEFORE_BROADCAST_MESSAGE = ''The process restarted before this job announced a transaction for broadcast (or after its last attempt was rejected); nothing of it is on chain. A new idempotency key may be used for an intentional retry.''"

definition recovery_stmts :: "job_env \<Rightarrow> string list \<Rightarrow> (jobs \<Rightarrow> nat \<times> jobs) list" where
  "recovery_stmts env sessionKinds =
     [update_where (sessionbound_guard sessionKinds) (end_patch env ''PROCESS_RESTART_SESSION_JOB_DROPPED'' SESSION_JOB_DROPPED_MESSAGE),
      update_where requeue_running_guard requeue_patch,
      update_where unreplayable_guard (unreplayable_patch env),
      update_where unsent_guard (end_patch env ''PROCESS_RESTART_BEFORE_BROADCAST'' BEFORE_BROADCAST_MESSAGE),
      update_where interrupted_guard interrupted_patch]"

text \<open>The statements of one attempt, each committed on its own; \<open>faults c\<close> is the fault of statement \<open>c\<close>.\<close>

fun run_stmts :: "faults \<Rightarrow> nat \<Rightarrow> (jobs \<Rightarrow> nat \<times> jobs) list \<Rightarrow> jobs \<Rightarrow> unit result \<times> jobs" where
  "run_stmts faults c [] js = (Inr (), js)"
| "run_stmts faults c (st # rest) js =
     (case db_write faults st c js of
        (Inl e, js') \<Rightarrow> (Inl e, js')
      | (Inr _, js') \<Rightarrow> run_stmts faults (Suc c) rest js')"

definition open_status :: "job_status \<Rightarrow> bool" where
  "open_status s \<longleftrightarrow> s = Pending \<or> in_flight s"

definition recoverInterruptedJobs :: "rec_env \<Rightarrow> (nat \<Rightarrow> faults) \<Rightarrow> jobs \<Rightarrow> nat result \<times> jobs" where
  "recoverInterruptedJobs env faults js =
     (let count = length (filter (\<lambda>j. open_status (status j)) js)
      in if count = 0 then (Inr 0, js)
         else (case withLockContentionRetry
                      (\<lambda>n. run_stmts (faults n) 0 (recovery_stmts (base env) (kindsWithTrait sessionBound (reg env)))) js of
                 (Inl e, js') \<Rightarrow> (Inl e, js')
               | (Inr _, js') \<Rightarrow> (Inr count, js')))"

section \<open>What the chain says of a job\<close>

definition chainEvidencePatch :: "chain_outcome \<Rightarrow> job \<Rightarrow> job" where
  "chainEvidencePatch oc j =
     j\<lparr>chainBlockHeight := Some (out_blockHeight oc), chainBlockHash := out_blockHash oc, indexerTxHash := out_indexerTxHash oc\<rparr>"

definition segment_applied :: "chain_outcome \<Rightarrow> int \<Rightarrow> bool" where
  "segment_applied oc seg =
     (if out_result oc = Some RawSuccess \<or> (out_result oc = None \<and> out_status oc = OutSuccess) then True
      else if out_result oc = Some RawPartialSuccess then seg \<notin> set (out_failedSegments oc) else False)"

definition segment_view :: "chain_outcome \<Rightarrow> json \<Rightarrow> json list" where
  "segment_view oc s =
     (case (json_field ''segment'' s, json_field ''calls'' s) of
        (Some (JNum n), Some (JArr calls)) \<Rightarrow>
          [JObj [(''segment'', JNum n), (''calls'', JArr (map (JStr \<circ> js_String) calls)), (''applied'', JBool (segment_applied oc n))]]
      | _ \<Rightarrow> [])"

definition chainSegmentsOf :: "json_text option \<Rightarrow> chain_outcome \<Rightarrow> json_text option" where
  "chainSegmentsOf intent oc =
     (case json_field ''segments'' (parseSubmitIntent intent) of
        Some (JArr (s # ss)) \<Rightarrow> Some (JText (JArr (concat (map (segment_view oc) (s # ss)))))
      | _ \<Rightarrow> None)"

definition attemptRowOf :: "job \<Rightarrow> submission \<Rightarrow> bool" where
  "attemptRowOf j s =
     (case submissionId j of
        Some i \<Rightarrow> if i \<noteq> [] then ps_ID s = i else ps_txHash s = txHash j
      | None \<Rightarrow> ps_txHash s = txHash j)"

definition attempt_of :: "job \<Rightarrow> jdb \<Rightarrow> submission option" where
  "attempt_of j db = select_one (attemptRowOf j) (db_subs db)"

definition intent_of :: "submission option \<Rightarrow> json" where
  "intent_of s = parseSubmitIntent (case s of Some x \<Rightarrow> ps_submitIntentData x | None \<Rightarrow> None)"

text \<open>The reserved deploys a refund may return: a grant id and a positive count.\<close>

definition reservation_of :: "json \<Rightarrow> (string \<times> int) option" where
  "reservation_of coords =
     (case json_field ''deployReservation'' coords of
        Some r \<Rightarrow>
          (case (json_field ''grantId'' r, json_field ''count'' r) of
             (Some (JStr g), Some (JNum n)) \<Rightarrow> if g \<noteq> [] \<and> 0 < n then Some (g, n) else None
           | _ \<Rightarrow> None)
      | None \<Rightarrow> None)"

definition refund_if :: "bool \<Rightarrow> (string \<times> int) option \<Rightarrow> grants \<Rightarrow> grants" where
  "refund_if closed r gs = (if closed then (case r of Some (g, n) \<Rightarrow> snd (deployRefund g n gs) | None \<Rightarrow> gs) else gs)"

section \<open>A broadcast that was never included\<close>

definition BROADCAST_UNCONFIRMED :: string where "BROADCAST_UNCONFIRMED = ''BROADCAST_UNCONFIRMED''"
definition BROADCAST_NOT_INCLUDED :: string where "BROADCAST_NOT_INCLUDED = ''BROADCAST_NOT_INCLUDED''"
definition REJECTED_ATTEMPT_BOOKKEEPING_PENDING :: string where
  "REJECTED_ATTEMPT_BOOKKEEPING_PENDING = ''REJECTED_ATTEMPT_BOOKKEEPING_PENDING''"
definition LEGACY_BROADCAST_TTL_MS :: int where "LEGACY_BROADCAST_TTL_MS = 60 * 60 * 1000"

definition parked_guard :: "string \<Rightarrow> job \<Rightarrow> bool" where
  "parked_guard i j \<longleftrightarrow> ID j = i \<and> status j = ReconciliationRequired"

definition recorded_ttl :: "rec_env \<Rightarrow> json \<Rightarrow> int option" where
  "recorded_ttl env coords = (case json_field ''ttl'' coords of Some (JStr s) \<Rightarrow> dateParse env s | _ \<Rightarrow> None)"

definition first_some :: "'a option \<Rightarrow> 'a option \<Rightarrow> 'a option" where
  "first_some a b = (case a of Some x \<Rightarrow> Some x | None \<Rightarrow> b)"

definition broadcast_ttl :: "rec_env \<Rightarrow> job \<Rightarrow> submission option \<Rightarrow> int option" where
  "broadcast_ttl env j s =
     first_some (recorded_ttl env (intent_of s))
       (map_option (\<lambda>t. t + LEGACY_BROADCAST_TTL_MS)
          (first_some (case s of Some x \<Rightarrow> ps_submittedAt x | None \<Rightarrow> None) (submittedAt j)))"

definition lost_message :: "rec_env \<Rightarrow> job \<Rightarrow> submission option \<Rightarrow> int \<Rightarrow> int \<Rightarrow> string" where
  "lost_message env j s tip ttl =
     take 4000
      (''Transaction '' @ (case txHash j of Some h \<Rightarrow> h | None \<Rightarrow> ''null'') @ '' was broadcast but never included: the indexer tip (''
       @ toISOString tip @ '') is past its validity window (ttl '' @ toISOString ttl
       @ (if recorded_ttl env (intent_of s) = None then '', assumed from the submit time'' else [])
       @ '') and the indexer does not know it. Nothing of it is on chain; a new attempt needs a new idempotencyKey.''
       @ (case errorCode j of None \<Rightarrow> []
          | Some c \<Rightarrow> if c = [] then [] else '' Earlier: '' @ c
             @ (case errorMessage j of None \<Rightarrow> [] | Some m \<Rightarrow> if m = [] then [] else '': '' @ take 1000 m)))"

definition lost_patch :: "int \<Rightarrow> string \<Rightarrow> job \<Rightarrow> job" where
  "lost_patch t m j =
     j\<lparr>status := Failed, chainStatus := Some ChainDropped, finishedAt := Some t,
       errorCode := Some BROADCAST_NOT_INCLUDED, errorMessage := Some m\<rparr>"

definition close_attempt :: "bool \<Rightarrow> submission option \<Rightarrow> (submission \<Rightarrow> submission) \<Rightarrow> submission list \<Rightarrow> nat \<times> submission list" where
  "close_attempt go s p ss =
     (case s of
        Some x \<Rightarrow> if go \<and> ps_ID x \<noteq> [] then update_where (\<lambda>r. ps_ID r = ps_ID x \<and> ps_status r = SubPending) p ss else (0, ss)
      | None \<Rightarrow> (0, ss))"

text \<open>The transaction of \<^verbatim>\<open>finalizeLostBroadcast\<close>.\<close>

definition lost_tx :: "rec_env \<Rightarrow> job \<Rightarrow> submission option \<Rightarrow> int \<Rightarrow> int \<Rightarrow> int \<Rightarrow> jdb \<Rightarrow> nat result \<times> jdb" where
  "lost_tx env j s tip ttl generation db =
     (if fst (lockReorgGeneration db) \<noteq> generation then (Inr 0, db)
      else
        (case update_where (parked_guard (ID j)) (lost_patch (rnow env) (lost_message env j s tip ttl)) (db_jobs db) of
           (affected, js') \<Rightarrow>
             (case close_attempt (affected = 1) s
                     (\<lambda>r. r\<lparr>ps_status := SubFailed, ps_finalizedAt := Some (rnow env), ps_errorCode := Some BROADCAST_NOT_INCLUDED,
                            ps_errorMessage := Some (''not included before ttl '' @ toISOString ttl)\<rparr>) (db_subs db) of
                (closed, ss') \<Rightarrow>
                  (Inr affected, db\<lparr>db_jobs := js', db_subs := ss',
                     db_grants := refund_if (closed = 1) (reservation_of (intent_of s)) (db_grants db)\<rparr>))))"

definition finalizeLostBroadcast :: "rec_env \<Rightarrow> faults \<Rightarrow> job \<Rightarrow> int option \<Rightarrow> int \<Rightarrow> jdb \<Rightarrow> nat result \<times> jdb" where
  "finalizeLostBroadcast env faults j tipMs generation db =
     (case tipMs of
        None \<Rightarrow> (Inr 0, db)
      | Some tip \<Rightarrow>
          if errorCode j = Some REJECTED_ATTEMPT_BOOKKEEPING_PENDING \<or> workflowParent (jobKindTraits (reg env) (kind j))
          then (Inr 0, db)
          else
            (let s = attempt_of j db in
             case broadcast_ttl env j s of
               None \<Rightarrow> (Inr 0, db)
             | Some ttl \<Rightarrow>
                 if tip \<le> ttl + expiryMargin env then (Inr 0, db)
                 else withLockContentionRetry (db_tx faults (lost_tx env j s tip ttl generation)) db))"

section \<open>A confirmed outcome\<close>

definition js_truthy :: "json option \<Rightarrow> bool" where
  "js_truthy v = (case v of None \<Rightarrow> False | Some JNull \<Rightarrow> False | Some (JBool b) \<Rightarrow> b | Some (JNum n) \<Rightarrow> n \<noteq> 0
                  | Some (JStr s) \<Rightarrow> s \<noteq> [] | Some (JArr _) \<Rightarrow> True | Some (JObj _) \<Rightarrow> True)"

definition js_str_opt :: "string option \<Rightarrow> json" where
  "js_str_opt v = (case v of Some s \<Rightarrow> JStr s | None \<Rightarrow> JNull)"

definition nullish :: "json option \<Rightarrow> bool" where
  "nullish v \<longleftrightarrow> v = None \<or> v = Some JNull"

definition canonical_result :: "job \<Rightarrow> submission option \<Rightarrow> json" where
  "canonical_result j s =
     (let coords = intent_of s;
          circuit = (case s of Some x \<Rightarrow> ps_circuitName x | None \<Rightarrow> None);
          address = (case s of Some x \<Rightarrow> ps_contractAddress x | None \<Rightarrow> None)
      in JObj
       ([(''txHash'', js_str_opt (txHash j)),
         (''circuits'', case json_field ''circuits'' coords of
            Some (JArr (c # cs)) \<Rightarrow> JArr (c # cs)
          | _ \<Rightarrow> (case circuit of Some n \<Rightarrow> if n \<noteq> [] then JArr [JStr n] else JArr [] | None \<Rightarrow> JArr [])),
         (''contractAddress'', if \<not> nullish (json_field ''contractAddress'' coords) then the (json_field ''contractAddress'' coords)
            else (case address of Some a \<Rightarrow> JStr a | None \<Rightarrow> JStr []))]
        @ (if js_truthy (json_field ''note'' coords) then [(''note'', the (json_field ''note'' coords))] else [])
        @ [(''feeSponsor'', if \<not> nullish (json_field ''feeSponsor'' coords) then the (json_field ''feeSponsor'' coords)
              else js_str_opt (sessionId j)),
           (''reconciled'', JBool True)]))"

text \<open>Object spread: the second object's fields win.\<close>

fun json_merge :: "json \<Rightarrow> json \<Rightarrow> json" where
  "json_merge (JObj a) (JObj b) = JObj (foldl (\<lambda>acc (k, v). AList.update k v acc) a b)"
| "json_merge a _ = a"

definition storedCommand :: "rec_env \<Rightarrow> job \<Rightarrow> json result" where
  "storedCommand env j =
     (if commandEncoding j = Some ''aes-gcm-v1''
      then (case command j of Some (SealedCommand e) \<Rightarrow> decrypt env e (ID j)
            | _ \<Rightarrow> Inl (js_Error ''not an encrypted envelope''))
      else (case command j of Some (PlainCommand v) \<Rightarrow> Inr v | None \<Rightarrow> Inr JNull
            | Some (SealedCommand _) \<Rightarrow> Inl (js_Error ''Unexpected token in JSON'')))"

definition runReconciliationFinalizer :: "rec_env \<Rightarrow> job \<Rightarrow> evidence \<Rightarrow> jdb \<Rightarrow> json option result \<times> jdb" where
  "runReconciliationFinalizer env j ev db =
     (case commandVersion j of
        None \<Rightarrow> (Inr None, db)
      | Some v \<Rightarrow>
          if v = 0 then (Inr None, db)
          else (case map_of (reconciliationFinalizers (reg env)) (processorKey (kind j) v) of
                  None \<Rightarrow> (Inr None, db)
                | Some f \<Rightarrow> (case storedCommand env j of Inl e \<Rightarrow> (Inl e, db) | Inr cmd \<Rightarrow> f cmd j ev db)))"

datatype from_status = FromReconciliation | FromInFlight | FromSucceeded "chain_status option"

definition chain_of_outcome :: "outcome_status \<Rightarrow> chain_status" where
  "chain_of_outcome o' = (case o' of OutSuccess \<Rightarrow> ChainSuccess | OutFailure \<Rightarrow> ChainFailure)"

definition not_applied_message :: "job \<Rightarrow> string" where
  "not_applied_message j =
     ''Transaction '' @ (case txHash j of Some h \<Rightarrow> h | None \<Rightarrow> ''null'') @ '' is on-chain but its contract call did not apply (ledger result failure)''"

definition confirm_patch :: "rec_env \<Rightarrow> from_status \<Rightarrow> job \<Rightarrow> chain_outcome \<Rightarrow> json_text option \<Rightarrow> json \<Rightarrow> job \<Rightarrow> job" where
  "confirm_patch env src j0 oc segs res j =
     (let settled = (case src of
            FromSucceeded _ \<Rightarrow> j\<lparr>chainStatus := Some (chain_of_outcome (out_status oc)), chainFinalizedAt := Some (rnow env)\<rparr>
          | _ \<Rightarrow> (case out_status oc of
                OutSuccess \<Rightarrow> j\<lparr>status := Succeeded, chainStatus := Some ChainSuccess, chainFinalizedAt := Some (rnow env),
                   errorCode := None, errorMessage := None, finishedAt := Some (rnow env), job_result := Some (JText res)\<rparr>
              | OutFailure \<Rightarrow> j\<lparr>status := Failed, chainStatus := Some ChainFailure, chainFinalizedAt := Some (rnow env),
                   finishedAt := Some (rnow env), errorCode := Some ''CHAIN_EXECUTION_FAILED'',
                   errorMessage := Some (not_applied_message j0)\<rparr>));
          seen = chainEvidencePatch oc settled;
          segd = (case segs of Some t \<Rightarrow> seen\<lparr>chainSegments := Some t\<rparr> | None \<Rightarrow> seen)
      in if src = FromInFlight then clear_lease segd else segd)"

definition confirm_guard :: "rec_env \<Rightarrow> from_status \<Rightarrow> string \<Rightarrow> job \<Rightarrow> bool" where
  "confirm_guard env src i j =
     (case src of
        FromReconciliation \<Rightarrow> parked_guard i j
      | FromInFlight \<Rightarrow> finish_guard (base env) i j
      | FromSucceeded was \<Rightarrow> ID j = i \<and> status j = Succeeded \<and> chainStatus j = was)"

definition attempt_patch :: "rec_env \<Rightarrow> chain_outcome \<Rightarrow> submission \<Rightarrow> submission" where
  "attempt_patch env oc s =
     (let s' = s\<lparr>ps_status := (if out_status oc = OutSuccess then SubFinalized else SubFailed), ps_finalizedAt := Some (rnow env),
                 ps_chainBlockHeight := Some (out_blockHeight oc), ps_chainBlockHash := out_blockHash oc, ps_indexerTxHash := out_indexerTxHash oc\<rparr>
      in if out_status oc = OutFailure
         then s'\<lparr>ps_errorCode := Some ''CHAIN_EXECUTION_FAILED'', ps_errorMessage := Some ''contract call did not apply (ledger result failure)''\<rparr>
         else s')"

text \<open>
  The transaction of \<^verbatim>\<open>finalizeIdentifierKeyedJob\<close>: the generation check, the finalizer of a
  reconciled success, the job row, and with it the attempt row.
\<close>

definition confirm_tx :: "rec_env \<Rightarrow> job \<Rightarrow> submission option \<Rightarrow> chain_outcome \<Rightarrow> from_status \<Rightarrow> int \<Rightarrow> jdb \<Rightarrow> nat result \<times> jdb" where
  "confirm_tx env j s oc src generation db =
     (if fst (lockReorgGeneration db) \<noteq> generation then (Inr 0, db)
      else
        (let canonical = canonical_result j s;
             ev = \<lparr>ev_submissionId = first_some (map_option ps_ID s) (submissionId j), ev_txHash = txHash j,
                   ev_contractAddress = (case s of Some x \<Rightarrow> ps_contractAddress x | None \<Rightarrow> None),
                   ev_finalizedAt = (case s of Some x \<Rightarrow> ps_finalizedAt x | None \<Rightarrow> None), ev_blockHeight = out_blockHeight oc\<rparr>
         in case (if src = FromReconciliation \<and> out_status oc = OutSuccess then runReconciliationFinalizer env j ev db else (Inr None, db)) of
              (Inl e, db1) \<Rightarrow> (Inl e, db1)
            | (Inr fin, db1) \<Rightarrow>
                (let res = (case fin of Some f \<Rightarrow> json_merge canonical f | None \<Rightarrow> canonical);
                     segs = chainSegmentsOf (case s of Some x \<Rightarrow> ps_submitIntentData x | None \<Rightarrow> None) oc
                 in case update_where (confirm_guard env src (ID j)) (confirm_patch env src j oc segs res) (db_jobs db1) of
                      (changed, js') \<Rightarrow>
                        (Inr changed,
                         db1\<lparr>db_jobs := js',
                             db_subs := (case s of
                                Some x \<Rightarrow> if changed = 1 \<and> ps_ID x \<noteq> []
                                          then snd (update_where (\<lambda>r. ps_ID r = ps_ID x) (attempt_patch env oc) (db_subs db1)) else db_subs db1
                              | None \<Rightarrow> db_subs db1)\<rparr>))))"

definition finalizeIdentifierKeyedJob :: "rec_env \<Rightarrow> faults \<Rightarrow> job \<Rightarrow> chain_outcome \<Rightarrow> from_status \<Rightarrow> int \<Rightarrow> jdb \<Rightarrow> nat result \<times> jdb" where
  "finalizeIdentifierKeyedJob env faults j oc src generation db =
     withLockContentionRetry (db_tx faults (confirm_tx env j (attempt_of j db) oc src generation)) db"

section \<open>Pages of the table\<close>

definition SCAN_PAGE_SIZE :: nat where "SCAN_PAGE_SIZE = 100"

definition select_page :: "(job \<Rightarrow> bool) \<Rightarrow> string option \<Rightarrow> jobs \<Rightarrow> jobs" where
  "select_page wh after js =
     take SCAN_PAGE_SIZE (sort_key ID (filter (\<lambda>j. wh j \<and> (case after of Some a \<Rightarrow> a < ID j | None \<Rightarrow> True)) js))"

definition scanBackgroundJobPage :: "(job \<Rightarrow> bool) \<Rightarrow> string option \<Rightarrow> jobs \<Rightarrow> jobs \<times> string option" where
  "scanBackgroundJobPage wh cursor js =
     (let rows0 = select_page wh cursor js;
          rows = (if rows0 = [] \<and> cursor \<noteq> None then select_page wh None js else rows0)
      in (rows, if rows \<noteq> [] then Some (ID (last rows)) else None))"

section \<open>The passes\<close>

text \<open>\<open>flt i\<close> is the fault schedule of the write for job \<open>i\<close>.\<close>

type_synonym job_faults = "string \<Rightarrow> faults"

definition rejected_pending :: "job \<Rightarrow> bool" where
  "rejected_pending j \<longleftrightarrow> status j = ReconciliationRequired \<and> errorCode j = Some REJECTED_ATTEMPT_BOOKKEEPING_PENDING"

definition settle_guard :: "string \<Rightarrow> job \<Rightarrow> bool" where
  "settle_guard i j \<longleftrightarrow> ID j = i \<and> rejected_pending j"

definition settle_patch :: "rec_env \<Rightarrow> job \<Rightarrow> job \<Rightarrow> job" where
  "settle_patch env j0 j =
     j\<lparr>status := Failed, txHash := None, chainStatus := None, finishedAt := Some (rnow env),
       errorCode := Some ''SPONSOR_ATTEMPT_REJECTED'',
       errorMessage := Some (''The sponsoring attempt was rejected before inclusion (nothing is on chain) and its bookkeeping was settled by the reconciler. ''
          @ take 1500 (case errorMessage j0 of Some m \<Rightarrow> m | None \<Rightarrow> []))\<rparr>"

definition rejected_attempt_of :: "job \<Rightarrow> jdb \<Rightarrow> submission option" where
  "rejected_attempt_of j db =
     (case submissionId j of
        Some i \<Rightarrow> if i \<noteq> [] then select_one (\<lambda>s. ps_ID s = i) (db_subs db)
                  else (case txHash j of Some h \<Rightarrow> if h \<noteq> [] then select_one (\<lambda>s. ps_txHash s = Some h \<and> ps_status s = SubPending) (db_subs db) else None
                        | None \<Rightarrow> None)
      | None \<Rightarrow> (case txHash j of Some h \<Rightarrow> if h \<noteq> [] then select_one (\<lambda>s. ps_txHash s = Some h \<and> ps_status s = SubPending) (db_subs db) else None
                  | None \<Rightarrow> None))"

definition settle_tx :: "rec_env \<Rightarrow> job \<Rightarrow> submission option \<Rightarrow> jdb \<Rightarrow> nat result \<times> jdb" where
  "settle_tx env j s db =
     (case close_attempt True s
             (\<lambda>r. r\<lparr>ps_status := SubFailed, ps_errorCode := Some ''REJECTED'',
                    ps_errorMessage := Some ''rejected before inclusion; bookkeeping settled by the reconciler''\<rparr>) (db_subs db) of
        (closed, ss') \<Rightarrow>
          (case update_where (settle_guard (ID j)) (settle_patch env j) (db_jobs db) of
             (n, js') \<Rightarrow>
               (Inr n, db\<lparr>db_jobs := js', db_subs := ss',
                          db_grants := refund_if (closed = 1) (reservation_of (intent_of s)) (db_grants db)\<rparr>)))"

fun settle_rows :: "rec_env \<Rightarrow> job_faults \<Rightarrow> jobs \<Rightarrow> nat \<Rightarrow> jdb \<Rightarrow> nat \<times> jdb" where
  "settle_rows env flt [] settled db = (settled, db)"
| "settle_rows env flt (j # rows) settled db =
     (case withLockContentionRetry (db_tx (flt (ID j)) (settle_tx env j (rejected_attempt_of j db))) db of
        (Inr n, db') \<Rightarrow> settle_rows env flt rows (if n = 1 then Suc settled else settled) db'
      | (Inl _, db') \<Rightarrow> settle_rows env flt rows settled db')"

definition settleRejectedSponsorAttempts :: "rec_env \<Rightarrow> job_faults \<Rightarrow> string option \<Rightarrow> jdb \<Rightarrow> nat \<times> string option \<times> jdb" where
  "settleRejectedSponsorAttempts env flt cursor db =
     (case scanBackgroundJobPage rejected_pending cursor (db_jobs db) of
        (rows, cursor') \<Rightarrow> (case settle_rows env flt rows 0 db of (n, db') \<Rightarrow> (n, cursor', db')))"

definition children_of :: "string \<Rightarrow> jobs \<Rightarrow> jobs" where
  "children_of i js = filter (\<lambda>c. parentJobId c = Some i) js"

definition child_failed_patch :: "rec_env \<Rightarrow> string \<Rightarrow> job \<Rightarrow> job" where
  "child_failed_patch env m j =
     j\<lparr>status := Failed, errorCode := Some ''CHILD_FAILED'', finishedAt := Some (rnow env), errorMessage := Some m\<rparr>"

text \<open>A driver error of the re-queue or the failure write ends the pass, as the thrown error does.\<close>

fun reconcile_rows :: "rec_env \<Rightarrow> job_faults \<Rightarrow> jobs \<Rightarrow> nat \<Rightarrow> jobs \<Rightarrow> nat result \<times> jobs" where
  "reconcile_rows env flt [] resolved js = (Inr resolved, js)"
| "reconcile_rows env flt (j # rows) resolved js =
     (let children = children_of (ID j) js in
      if children \<noteq> [] \<and> list_all (\<lambda>c. status c = Succeeded) children then
        (case withLockContentionRetry (db_write (flt (ID j)) (update_where (parked_guard (ID j)) requeue_patch)) js of
           (Inl e, js') \<Rightarrow> (Inl e, js')
         | (Inr n, js') \<Rightarrow> reconcile_rows env flt rows (resolved + n) js')
      else
        (case find (\<lambda>c. status c = Failed) children of
           None \<Rightarrow> reconcile_rows env flt rows resolved js
         | Some c \<Rightarrow>
             (case withLockContentionRetry (db_write (flt (ID j))
                     (update_where (parked_guard (ID j)) (child_failed_patch env (childFailedMessage c children)))) js of
                (Inl e, js') \<Rightarrow> (Inl e, js')
              | (Inr n, js') \<Rightarrow> reconcile_rows env flt rows (resolved + n) js')))"

definition parent_kind :: "registry \<Rightarrow> string \<Rightarrow> bool" where
  "parent_kind r k \<longleftrightarrow> workflowParent (jobKindTraits r k)"

definition parked_parent :: "registry \<Rightarrow> job \<Rightarrow> bool" where
  "parked_parent r j \<longleftrightarrow> status j = ReconciliationRequired \<and> kind j \<in> set (kindsWithTrait workflowParent r)"

definition reconcileBackgroundJobs :: "rec_env \<Rightarrow> job_faults \<Rightarrow> string option \<Rightarrow> jobs \<Rightarrow> nat result \<times> string option \<times> jobs" where
  "reconcileBackgroundJobs env flt cursor js =
     (case scanBackgroundJobPage (parked_parent (reg env)) cursor js of
        (rows, cursor') \<Rightarrow> (case reconcile_rows env flt rows 0 js of (n, js') \<Rightarrow> (n, cursor', js')))"

definition aggregate_status :: "jobs \<Rightarrow> chain_status" where
  "aggregate_status children =
     (if list_ex (\<lambda>c. chainStatus c = Some ChainFailure) children then ChainFailure
      else if list_all (\<lambda>c. chainStatus c = Some ChainSuccess) children then ChainSuccess else ChainPending)"

definition succeeded_guard :: "string \<Rightarrow> job \<Rightarrow> bool" where
  "succeeded_guard i j \<longleftrightarrow> ID j = i \<and> status j = Succeeded"

definition aggregate_patch :: "rec_env \<Rightarrow> chain_status \<Rightarrow> job \<Rightarrow> job" where
  "aggregate_patch env a j =
     j\<lparr>chainStatus := Some a, chainFinalizedAt := (if a = ChainPending then None else Some (rnow env))\<rparr>"

fun refresh_rows :: "rec_env \<Rightarrow> job_faults \<Rightarrow> jobs \<Rightarrow> nat \<Rightarrow> jobs \<Rightarrow> nat result \<times> jobs" where
  "refresh_rows env flt [] updated js = (Inr updated, js)"
| "refresh_rows env flt (p # rows) updated js =
     (let children = children_of (ID p) js; a = aggregate_status children in
      if children = [] \<or> chainStatus p = Some a then refresh_rows env flt rows updated js
      else
        (case withLockContentionRetry (db_write (flt (ID p)) (update_where (succeeded_guard (ID p)) (aggregate_patch env a))) js of
           (Inl e, js') \<Rightarrow> (Inl e, js')
         | (Inr n, js') \<Rightarrow> refresh_rows env flt rows (updated + n) js'))"

definition succeeded_parent :: "registry \<Rightarrow> chain_status option \<Rightarrow> job \<Rightarrow> bool" where
  "succeeded_parent r cs j \<longleftrightarrow> status j = Succeeded \<and> kind j \<in> set (kindsWithTrait workflowParent r) \<and> chainStatus j = cs"

definition refreshSucceededChainOutcomes ::
    "rec_env \<Rightarrow> job_faults \<Rightarrow> string option \<times> string option \<Rightarrow> jobs \<Rightarrow> nat result \<times> (string option \<times> string option) \<times> jobs" where
  "refreshSucceededChainOutcomes env flt cursors js =
     (case scanBackgroundJobPage (succeeded_parent (reg env) (Some ChainPending)) (fst cursors) js of
        (rows1, c1) \<Rightarrow>
          (case scanBackgroundJobPage (succeeded_parent (reg env) None) (snd cursors) js of
             (rows2, c2) \<Rightarrow> (case refresh_rows env flt (rows1 @ rows2) 0 js of (n, js') \<Rightarrow> (n, (c1, c2), js'))))"

type_synonym confirmer = "string \<Rightarrow> chain_lookup result"

definition lookup_job :: "confirmer \<Rightarrow> job \<Rightarrow> chain_lookup result" where
  "lookup_job confirmer j = confirmer (case txHash j of Some h \<Rightarrow> h | None \<Rightarrow> ''null'')"

definition add_updated :: "nat \<Rightarrow> nat result \<Rightarrow> nat" where
  "add_updated u r = (case r of Inr n \<Rightarrow> u + n | Inl _ \<Rightarrow> u)"

text \<open>Parked jobs with a hash: a found outcome settles, a clear absence may end as never included.\<close>

fun confirm_parked :: "rec_env \<Rightarrow> job_faults \<Rightarrow> confirmer \<Rightarrow> int \<Rightarrow> jobs \<Rightarrow> nat \<Rightarrow> jdb \<Rightarrow> nat \<times> jdb" where
  "confirm_parked env flt confirmer generation [] updated db = (updated, db)"
| "confirm_parked env flt confirmer generation (j # rows) updated db =
     (case lookup_job confirmer j of
        Inl _ \<Rightarrow> confirm_parked env flt confirmer generation rows updated db
      | Inr (Outcome oc) \<Rightarrow>
          (case finalizeIdentifierKeyedJob env (flt (ID j)) j oc FromReconciliation generation db of
             (r, db') \<Rightarrow> confirm_parked env flt confirmer generation rows (add_updated updated r) db')
      | Inr (Absent tip) \<Rightarrow>
          (case finalizeLostBroadcast env (flt (ID j)) j tip generation db of
             (r, db') \<Rightarrow> confirm_parked env flt confirmer generation rows (add_updated updated r) db')
      | Inr NoConclusion \<Rightarrow> confirm_parked env flt confirmer generation rows updated db)"

text \<open>The transaction that confirms a succeeded job whose kind is not keyed by identifier.\<close>

definition plain_confirm_tx :: "rec_env \<Rightarrow> job \<Rightarrow> chain_outcome \<Rightarrow> json_text option \<Rightarrow> int \<Rightarrow> jdb \<Rightarrow> nat result \<times> jdb" where
  "plain_confirm_tx env j oc segs generation db =
     (if fst (lockReorgGeneration db) \<noteq> generation then (Inr 0, db)
      else
        (case update_where (confirm_guard env (FromSucceeded (chainStatus j)) (ID j))
                (confirm_patch env (FromSucceeded (chainStatus j)) j oc segs JNull) (db_jobs db) of
           (n, js') \<Rightarrow>
             (Inr n, db\<lparr>db_jobs := js',
                db_subs := (if n = 1
                  then snd (update_where (\<lambda>r. attemptRowOf j r \<and> (ps_status r = SubPending \<or> ps_status r = SubIncluded)) (attempt_patch env oc) (db_subs db))
                  else db_subs db)\<rparr>)))"

fun confirm_succeeded :: "rec_env \<Rightarrow> job_faults \<Rightarrow> confirmer \<Rightarrow> int \<Rightarrow> jobs \<Rightarrow> nat \<Rightarrow> jdb \<Rightarrow> nat \<times> jdb" where
  "confirm_succeeded env flt confirmer generation [] updated db = (updated, db)"
| "confirm_succeeded env flt confirmer generation (j # rows) updated db =
     (case lookup_job confirmer j of
        Inr (Outcome oc) \<Rightarrow>
          (let (r, db') =
             (if identifierKeyed (jobKindTraits (reg env) (kind j))
              then finalizeIdentifierKeyedJob env (flt (ID j)) j oc (FromSucceeded (chainStatus j)) generation db
              else withLockContentionRetry
                (db_tx (flt (ID j)) (plain_confirm_tx env j oc
                   (chainSegmentsOf (case attempt_of j db of Some x \<Rightarrow> ps_submitIntentData x | None \<Rightarrow> None) oc) generation)) db)
           in confirm_succeeded env flt confirmer generation rows (add_updated updated r) db')
      | _ \<Rightarrow> confirm_succeeded env flt confirmer generation rows updated db)"

record confirm_cursors =
  confirmerPendingCursor :: "string option"
  confirmerLegacyCursor :: "string option"
  confirmerReconcileCursor :: "string option"

definition confirmChainOutcomesViaIndexer ::
    "rec_env \<Rightarrow> job_faults \<Rightarrow> confirmer option \<Rightarrow> confirm_cursors \<Rightarrow> jdb \<Rightarrow> nat \<times> confirm_cursors \<times> jdb" where
  "confirmChainOutcomesViaIndexer env flt confirmer cs db =
     (case confirmer of
        None \<Rightarrow> (0, cs, db)
      | Some cf \<Rightarrow>
          (case scanBackgroundJobPage (\<lambda>j. status j = Succeeded \<and> txHash j \<noteq> None \<and> chainStatus j = Some ChainPending) (confirmerPendingCursor cs) (db_jobs db) of
             (pend, c1) \<Rightarrow>
          (case scanBackgroundJobPage (\<lambda>j. status j = Succeeded \<and> txHash j \<noteq> None \<and> chainStatus j = None) (confirmerLegacyCursor cs) (db_jobs db) of
             (legacy, c2) \<Rightarrow>
          (case scanBackgroundJobPage (\<lambda>j. status j = ReconciliationRequired \<and> txHash j \<noteq> None) (confirmerReconcileCursor cs) (db_jobs db) of
             (parked, c3) \<Rightarrow>
          (case confirm_parked env flt cf (readReorgGeneration db) parked 0 db of
             (u1, db1) \<Rightarrow>
          (case confirm_succeeded env flt cf (readReorgGeneration db1)
                  (filter (\<lambda>j. \<not> parent_kind (reg env) (kind j)) (pend @ legacy)) u1 db1 of
             (u2, db2) \<Rightarrow> (u2, \<lparr>confirmerPendingCursor = c1, confirmerLegacyCursor = c2, confirmerReconcileCursor = c3\<rparr>, db2)))))))"

definition park_unconfirmed :: "rec_env \<Rightarrow> faults \<Rightarrow> string \<Rightarrow> string \<Rightarrow> jdb \<Rightarrow> jdb" where
  "park_unconfirmed env faults i m db =
     db\<lparr>db_jobs := markReconciliationRequired (base env) faults i ''CHAIN_EXECUTION_FAILED_UNCONFIRMED'' m (db_jobs db)\<rparr>"

text \<open>\<open>carried\<close> is the block height the worker's error carried, if it was an integer.\<close>

definition markChainFailureAfterBroadcast ::
    "rec_env \<Rightarrow> faults \<Rightarrow> faults \<Rightarrow> confirmer option \<Rightarrow> string \<Rightarrow> job \<Rightarrow> int option \<Rightarrow> jdb \<Rightarrow> jdb" where
  "markChainFailureAfterBroadcast env faults faults' confirmer i cur carried db =
     (let generation = readReorgGeneration db;
          hash = (case txHash cur of Some h \<Rightarrow> h | None \<Rightarrow> ''null'');
          found = (case confirmer of None \<Rightarrow> NoConclusion
                   | Some cf \<Rightarrow> (case lookup_job cf cur of Inr l \<Rightarrow> l | Inl _ \<Rightarrow> NoConclusion))
      in case found of
           Outcome oc \<Rightarrow>
             (case finalizeIdentifierKeyedJob env faults cur oc FromInFlight generation db of
                (Inr n, db') \<Rightarrow>
                  if n \<noteq> 1
                  then park_unconfirmed env faults' i (''Transaction '' @ hash @ '': terminal chain-failure write refused (lease or reorg generation changed); the reconciliation pass finalizes it'') db'
                  else db'
              | (Inl _, db') \<Rightarrow> db')
         | _ \<Rightarrow>
             park_unconfirmed env faults' i
               (''Transaction '' @ hash @ '' is on-chain and its contract call did not apply''
                @ (case carried of Some b \<Rightarrow> '' (worker saw block '' @ int_str b @ '')'' | None \<Rightarrow> [])
                @ ''; the indexer confirmer finalizes it with generation-checked coordinates'') db)"

section \<open>The contract of the updates\<close>

lemmas rec_patch_defs = requeue_patch_def unreplayable_patch_def interrupted_patch_def lost_patch_def confirm_patch_def
  settle_patch_def child_failed_patch_def aggregate_patch_def chainEvidencePatch_def

lemmas rec_guard_defs = sessionbound_guard_def requeue_running_guard_def unreplayable_guard_def unsent_guard_def
  interrupted_guard_def parked_guard_def confirm_guard_def settle_guard_def rejected_pending_def succeeded_guard_def

interpretation sessionbound: job_update parent "sessionbound_guard kinds" "end_patch env c m" for parent kinds env c m
  by unfold_locales (auto simp: job_patch_defs job_guard_defs rec_guard_defs job_identity_def job_ok_def closed_failure_def)

interpretation requeue_running: job_update parent requeue_running_guard requeue_patch for parent
  by unfold_locales (auto simp: job_patch_defs rec_patch_defs job_guard_defs rec_guard_defs job_identity_def job_ok_def closed_failure_def)

interpretation unreplayable: job_update parent unreplayable_guard "unreplayable_patch env" for parent env
  by unfold_locales (auto simp: job_patch_defs rec_patch_defs job_guard_defs rec_guard_defs job_identity_def job_ok_def closed_failure_def)

interpretation unsent: job_update parent unsent_guard "end_patch env c m" for parent env c m
  by unfold_locales (auto simp: job_patch_defs job_guard_defs rec_guard_defs job_identity_def job_ok_def closed_failure_def)

interpretation interrupted: job_update parent interrupted_guard interrupted_patch for parent
  by unfold_locales (auto simp: job_patch_defs rec_patch_defs job_guard_defs rec_guard_defs job_identity_def job_ok_def closed_failure_def)

interpretation lost: job_update parent "parked_guard i" "lost_patch t m" for parent i t m
  by unfold_locales (auto simp: job_patch_defs rec_patch_defs job_guard_defs rec_guard_defs job_identity_def job_ok_def closed_failure_def)

interpretation settled: job_update parent "settle_guard i" "settle_patch env j0" for parent i env j0
  by unfold_locales (auto simp: job_patch_defs rec_patch_defs job_guard_defs rec_guard_defs job_identity_def job_ok_def closed_failure_def)

interpretation child_failed: job_update parent "parked_guard i" "child_failed_patch env m" for parent i env m
  by unfold_locales (auto simp: job_patch_defs rec_patch_defs job_guard_defs rec_guard_defs job_identity_def job_ok_def closed_failure_def)

interpretation aggregate: job_update parent "succeeded_guard i" "aggregate_patch env a" for parent i env a
  by unfold_locales (auto simp: job_patch_defs rec_patch_defs job_guard_defs rec_guard_defs job_identity_def job_ok_def closed_failure_def)

lemma confirm_patch_identity: "job_identity (confirm_patch env src j0 oc segs res j) = job_identity j"
  by (cases src; cases "out_status oc"; cases segs)
     (simp_all add: confirm_patch_def chainEvidencePatch_def clear_lease_def job_identity_def Let_def)

lemma confirm_patch_status:
  "status (confirm_patch env src j0 oc segs res j) =
     (case src of FromSucceeded _ \<Rightarrow> status j | _ \<Rightarrow> (case out_status oc of OutSuccess \<Rightarrow> Succeeded | OutFailure \<Rightarrow> Failed))"
  by (cases src; cases "out_status oc"; cases segs)
     (simp_all add: confirm_patch_def chainEvidencePatch_def clear_lease_def Let_def)

interpretation confirm: job_update parent "confirm_guard env src i" "confirm_patch env src j0 oc segs res" for parent env src i j0 oc segs res
proof unfold_locales
  fix j
  show "job_identity (confirm_patch env src j0 oc segs res j) = job_identity j"
    by (rule confirm_patch_identity)
  show "confirm_guard env src i j \<Longrightarrow> lifecycle (parent (kind j)) (status j) (status (confirm_patch env src j0 oc segs res j))"
    by (cases src; cases "out_status oc") (auto simp: confirm_patch_status rec_guard_defs job_guard_defs)
  show "confirm_guard env src i j \<Longrightarrow> closed_failure j \<Longrightarrow> closed_failure (confirm_patch env src j0 oc segs res j)"
    by (cases src) (auto simp: closed_failure_def rec_guard_defs job_guard_defs)
  show "confirm_guard env src i j \<Longrightarrow> job_ok parent j \<Longrightarrow> job_ok parent (confirm_patch env src j0 oc segs res j)"
    by (cases src; cases "out_status oc")
       (auto simp: job_ok_def confirm_patch_status rec_guard_defs in_flight_def)
qed

text \<open>
  The re-queue of a parked parent is legal because the row read is of a parent kind, which no
  update changes, and identifiers are unique.
\<close>

lemma requeue_parent_step:
  assumes "parent (kind j)" and "distinct (map ID js)" and "\<exists>j' \<in> set js. ID j' = ID j \<and> kind j' = kind j"
  shows "table_step parent js (snd (update_where (parked_guard (ID j)) requeue_patch js))"
proof -
  have k: "parent (kind r)" if "r \<in> set js" "parked_guard (ID j) r" for r
  proof -
    obtain j' where j': "j' \<in> set js" "ID j' = ID j" "kind j' = kind j" using assms(3) by blast
    have "ID r = ID j'" using that(2) j'(2) by (simp add: parked_guard_def)
    then have "r = j'" using distinct_map_eqD [OF assms(2) that(1) j'(1)] by simp
    then show ?thesis using assms(1) j'(3) by simp
  qed
  have "row_step parent r (requeue_patch r)" if "r \<in> set js" "parked_guard (ID j) r" for r
    using k [OF that] that(2)
    by (auto simp: row_step_def job_identity_def requeue_patch_def clear_lease_def parked_guard_def job_ok_def in_flight_def closed_failure_def)
  then show ?thesis
    by (auto simp: table_step_def update_where_def list_all2_conv_all_nth)
qed

section \<open>The passes keep the table in order\<close>

lemma evolved_trans:
  assumes "evolved parent js0 js" and "table_step parent js js'" shows "evolved parent js0 js'"
  using evolved_step assms by blast

text \<open>What holds of every statement of a list holds of the whole attempt, wherever it stops.\<close>

lemma db_write_snd: "snd (db_write faults st n s) = s \<or> snd (db_write faults st n s) = snd (st s)"
  by (simp add: db_write_def split: option.splits prod.splits)

lemma run_stmts_ok:
  assumes "\<And>st js. st \<in> set sts \<Longrightarrow> table_step parent js (snd (st js))" and "evolved parent js0 js"
  shows "evolved parent js0 (snd (run_stmts faults c sts js))"
  using assms
proof (induction sts arbitrary: c js)
  case (Cons st sts)
  obtain r js1 where w: "db_write faults st c js = (r, js1)" by (cases "db_write faults st c js")
  have "js1 = js \<or> js1 = snd (st js)" using db_write_snd [of faults st c js] w by simp
  moreover have "evolved parent js0 (snd (st js))"
    by (rule evolved_trans [OF Cons.prems(2)]) (rule Cons.prems(1), simp)
  ultimately have ok: "evolved parent js0 js1" using Cons.prems(2) by blast
  have IH: "evolved parent js0 (snd (run_stmts faults (Suc c) sts js1))"
    by (rule Cons.IH [OF _ ok]) (rule Cons.prems(1), simp)
  show ?case using ok IH w by (cases r) simp_all
qed simp

lemma recovery_stmts_step: "st \<in> set (recovery_stmts env kinds) \<Longrightarrow> table_step parent js (snd (st js))"
  by (auto simp: recovery_stmts_def intro: sessionbound.update_step requeue_running.update_step unreplayable.update_step
      unsent.update_step interrupted.update_step)

lemma recover_attempt_ok:
  "evolved parent js0 js \<Longrightarrow> evolved parent js0 (snd (run_stmts faults c (recovery_stmts env kinds) js))"
  by (rule run_stmts_ok) (rule recovery_stmts_step)

lemma recoverInterruptedJobs_snd:
  "snd (recoverInterruptedJobs env faults js) = js
   \<or> snd (recoverInterruptedJobs env faults js)
      = snd (withLockContentionRetry (\<lambda>n. run_stmts (faults n) 0 (recovery_stmts (base env) (kindsWithTrait sessionBound (reg env)))) js)"
  by (simp add: recoverInterruptedJobs_def Let_def split: prod.splits sum.splits)

lemma recover_ok:
  assumes "evolved parent js0 js" shows "evolved parent js0 (snd (recoverInterruptedJobs env faults js))"
proof -
  let ?w = "\<lambda>n. run_stmts (faults n) 0 (recovery_stmts (base env) (kindsWithTrait sessionBound (reg env)))"
  have "evolved parent js0 (snd (withLockContentionRetry ?w js))"
    using assms recover_attempt_ok by (rule retry_keeps [where P = "evolved parent js0", rotated])
  with assms recoverInterruptedJobs_snd [of env faults js] show ?thesis by auto
qed

text \<open>A complete attempt applies all statements in order, row by row.\<close>

lemma run_stmts_done: "run_stmts faults c sts js = (Inr (), js') \<Longrightarrow> js' = foldl (\<lambda>js st. snd (st js)) js sts"
proof (induction sts arbitrary: c js)
  case (Cons st sts)
  obtain r js1 where w: "db_write faults st c js = (r, js1)" by (cases "db_write faults st c js")
  from Cons.prems w obtain n where r: "r = Inr n" by (cases r) auto
  then have "js1 = snd (st js)" using w by (auto simp: db_write_def split: option.splits prod.splits)
  with Cons w r show ?case by simp
qed simp

definition patch_if :: "('r \<Rightarrow> bool) \<Rightarrow> ('r \<Rightarrow> 'r) \<Rightarrow> 'r \<Rightarrow> 'r" where
  "patch_if g p r = (if g r then p r else r)"

definition recover_row :: "job_env \<Rightarrow> string list \<Rightarrow> job \<Rightarrow> job" where
  "recover_row env kinds j =
     patch_if interrupted_guard interrupted_patch
      (patch_if unsent_guard (end_patch env ''PROCESS_RESTART_BEFORE_BROADCAST'' BEFORE_BROADCAST_MESSAGE)
       (patch_if unreplayable_guard (unreplayable_patch env)
        (patch_if requeue_running_guard requeue_patch
         (patch_if (sessionbound_guard kinds) (end_patch env ''PROCESS_RESTART_SESSION_JOB_DROPPED'' SESSION_JOB_DROPPED_MESSAGE) j))))"

lemma update_where_patch_if: "snd (update_where g p rs) = map (patch_if g p) rs"
  by (simp add: update_where_def patch_if_def)

lemma recovery_rows: "foldl (\<lambda>js st. snd (st js)) js (recovery_stmts env kinds) = map (recover_row env kinds) js"
  by (simp add: recovery_stmts_def update_where_patch_if recover_row_def comp_def)

text \<open>Each statement seen through the fields the recovery decides by.\<close>

definition recovery_view :: "job \<Rightarrow> string option \<times> (string \<times> string \<times> string option \<times> string option \<times> string option
    \<times> int option \<times> stored_command option \<times> string option \<times> string option \<times> string option \<times> json_text option)" where
  "recovery_view j = (txHash j, job_identity j)"

lemma recovery_view_patch:
  "recovery_view (patch_if g (end_patch env c m) j) = recovery_view j"
  "recovery_view (patch_if g requeue_patch j) = recovery_view j"
  "recovery_view (patch_if g (unreplayable_patch env) j) = recovery_view j"
  "recovery_view (patch_if g interrupted_patch j) = recovery_view j"
  by (simp_all add: patch_if_def recovery_view_def rec_patch_defs job_patch_defs job_identity_def)

lemma recovery_view_parts:
  "recovery_view a = recovery_view b \<Longrightarrow> kind a = kind b \<and> commandVersion a = commandVersion b \<and> txHash a = txHash b \<and> ID a = ID b"
  by (simp add: recovery_view_def job_identity_def)

lemma recovery_stage_status:
  "status (patch_if (sessionbound_guard kinds) (end_patch env c m) j) =
     (if (status j = Pending \<or> status j = Running) \<and> kind j \<in> set kinds then Failed else status j)"
  "status (patch_if requeue_running_guard requeue_patch j) =
     (if status j = Running \<and> commandVersion j \<noteq> None then Pending else status j)"
  "status (patch_if unreplayable_guard (unreplayable_patch env) j) =
     (if (status j = Pending \<or> status j = Running) \<and> commandVersion j = None then Failed else status j)"
  "status (patch_if unsent_guard (end_patch env c m) j) =
     (if status j = ExternalExecution \<and> txHash j = None then Failed else status j)"
  "status (patch_if interrupted_guard interrupted_patch j) =
     (if status j = ExternalExecution \<or> status j = Submitted then ReconciliationRequired else status j)"
  by (simp_all add: patch_if_def rec_guard_defs rec_patch_defs job_patch_defs past_boundary_def)

lemma recover_row_view: "recovery_view (recover_row env kinds j) = recovery_view j"
  by (simp add: recover_row_def recovery_view_patch)

lemma recovery_fields:
  "kind (patch_if g (end_patch env c m) j) = kind j" "commandVersion (patch_if g (end_patch env c m) j) = commandVersion j" "txHash (patch_if g (end_patch env c m) j) = txHash j" "ID (patch_if g (end_patch env c m) j) = ID j"
  "kind (patch_if g requeue_patch j) = kind j" "commandVersion (patch_if g requeue_patch j) = commandVersion j" "txHash (patch_if g requeue_patch j) = txHash j" "ID (patch_if g requeue_patch j) = ID j"
  "kind (patch_if g (unreplayable_patch env) j) = kind j" "commandVersion (patch_if g (unreplayable_patch env) j) = commandVersion j" "txHash (patch_if g (unreplayable_patch env) j) = txHash j" "ID (patch_if g (unreplayable_patch env) j) = ID j"
  "kind (patch_if g interrupted_patch j) = kind j" "commandVersion (patch_if g interrupted_patch j) = commandVersion j" "txHash (patch_if g interrupted_patch j) = txHash j" "ID (patch_if g interrupted_patch j) = ID j"
  by (simp_all add: patch_if_def rec_patch_defs job_patch_defs)

text \<open>The specification of the recovery: where a job stands after a restart.\<close>

definition recovered_status :: "string list \<Rightarrow> job \<Rightarrow> job_status" where
  "recovered_status kinds j =
     (case status j of
        Pending \<Rightarrow> if kind j \<in> set kinds \<or> commandVersion j = None then Failed else Pending
      | Running \<Rightarrow> if kind j \<in> set kinds \<or> commandVersion j = None then Failed else Pending
      | ExternalExecution \<Rightarrow> if txHash j = None then Failed else ReconciliationRequired
      | Submitted \<Rightarrow> ReconciliationRequired
      | s \<Rightarrow> s)"

lemma recover_row_status: "status (recover_row env kinds j) = recovered_status kinds j"
  by (cases "status j") (simp_all add: recovered_status_def recover_row_def recovery_stage_status recovery_fields)

text \<open>
  Every statement before the last moves a row only towards where the recovery takes it, so an
  attempt that stopped half way does not change what the next one arrives at.
\<close>

definition recovery_goal :: "string list \<Rightarrow> job \<Rightarrow> job_status \<times> string option \<times> string" where
  "recovery_goal kinds j = (recovered_status kinds j, txHash j, ID j)"

lemma recovery_goal_stage:
  "recovery_goal kinds (patch_if (sessionbound_guard kinds) (end_patch env c m) j) = recovery_goal kinds j"
  "recovery_goal kinds (patch_if requeue_running_guard requeue_patch j) = recovery_goal kinds j"
  "recovery_goal kinds (patch_if unreplayable_guard (unreplayable_patch env) j) = recovery_goal kinds j"
  "recovery_goal kinds (patch_if unsent_guard (end_patch env c m) j) = recovery_goal kinds j"
  unfolding recovery_goal_def recovered_status_def recovery_stage_status recovery_fields
  by (auto split: job_status.splits)

lemma recovery_stmts_goal:
  "st \<in> set (butlast (recovery_stmts env kinds)) \<Longrightarrow> map (recovery_goal kinds) (snd (st js)) = map (recovery_goal kinds) js"
  by (auto simp: recovery_stmts_def update_where_patch_if recovery_goal_stage comp_def)

lemma run_stmts_stopped:
  assumes "run_stmts faults c sts js = (Inl e, js')"
    and "\<And>st js. st \<in> set (butlast sts) \<Longrightarrow> map f (snd (st js)) = map f js"
  shows "map f js' = map f js"
  using assms
proof (induction sts arbitrary: c js)
  case (Cons st sts)
  obtain r js1 where w: "db_write faults st c js = (r, js1)" by (cases "db_write faults st c js")
  show ?case
  proof (cases r)
    case (Inl e')
    then show ?thesis using Cons.prems(1) w by (simp add: db_write_def split: option.splits prod.splits)
  next
    case (Inr n)
    then have run: "run_stmts faults (Suc c) sts js1 = (Inl e, js')" and js1: "js1 = snd (st js)"
      using Cons.prems(1) w by (auto simp: db_write_def split: option.splits prod.splits)
    have ne: "sts \<noteq> []" using run by (cases sts) auto
    have "map f js1 = map f js" unfolding js1 by (rule Cons.prems(2)) (simp add: ne)
    moreover have "map f js' = map f js1" by (rule Cons.IH [OF run]) (rule Cons.prems(2), simp add: ne)
    ultimately show ?thesis by simp
  qed
qed simp

lemma recover_retry_goal:
  assumes "withLockContentionRetry (\<lambda>n. run_stmts (faults n) 0 (recovery_stmts env kinds)) js = (Inr a, js')"
  shows "map (\<lambda>j. (status j, txHash j, ID j)) js' = map (recovery_goal kinds) js"
proof (rule retry_returned [where I = "\<lambda>x. map (recovery_goal kinds) x = map (recovery_goal kinds) js", OF assms])
  fix n x e x'
  assume "map (recovery_goal kinds) x = map (recovery_goal kinds) js"
    and "run_stmts (faults n) 0 (recovery_stmts env kinds) x = (Inl e, x')"
  then show "map (recovery_goal kinds) x' = map (recovery_goal kinds) js"
    using run_stmts_stopped recovery_stmts_goal by metis
next
  fix n x x'
  assume I: "map (recovery_goal kinds) x = map (recovery_goal kinds) js"
    and r: "run_stmts (faults n) 0 (recovery_stmts env kinds) x = (Inr a, x')"
  have x': "x' = map (recover_row env kinds) x"
    using run_stmts_done [of "faults n" 0 "recovery_stmts env kinds" x x'] r recovery_rows by simp
  have "(status (recover_row env kinds j), txHash (recover_row env kinds j), ID (recover_row env kinds j)) = recovery_goal kinds j" for j
    using recover_row_view [of env kinds j]
    by (simp add: recovery_goal_def recover_row_status recovery_view_def job_identity_def)
  then have "map (\<lambda>j. (status j, txHash j, ID j)) x' = map (recovery_goal kinds) x"
    by (simp add: x' comp_def)
  with I show "map (\<lambda>j. (status j, txHash j, ID j)) x' = map (recovery_goal kinds) js" by simp
qed simp

lemma recovered_status_closed: "\<not> open_status (status j) \<Longrightarrow> recovered_status kinds j = status j"
  by (cases "status j") (simp_all add: recovered_status_def open_status_def in_flight_def)

text \<open>The recovery meets its specification, whatever the driver's faults, whenever it returns.\<close>

lemma recoverInterruptedJobs_spec:
  assumes "recoverInterruptedJobs env faults js = (Inr n, js')"
  shows "map (\<lambda>j. (status j, txHash j, ID j)) js' = map (recovery_goal (kindsWithTrait sessionBound (reg env))) js"
proof (cases "filter (\<lambda>j. open_status (status j)) js = []")
  case True
  then have "js' = js" using assms by (simp add: recoverInterruptedJobs_def)
  moreover have "\<not> open_status (status j)" if "j \<in> set js" for j
    using True that by (auto simp: filter_empty_conv)
  ultimately show ?thesis by (auto simp: recovery_goal_def recovered_status_closed)
next
  case False
  then show ?thesis using assms
    by (auto simp: recoverInterruptedJobs_def Let_def intro: recover_retry_goal split: prod.splits sum.splits)
qed

section \<open>The settling passes keep the table in order\<close>

lemma db_tx_keeps:
  assumes "\<And>s. P s \<Longrightarrow> P (snd (body s))" and "P s"
  shows "P (snd (db_tx faults body n s))"
  using assms(1) [OF assms(2)] assms(2) by (auto simp: db_tx_def split: option.splits prod.splits sum.splits)

lemma retried_tx_keeps:
  assumes "\<And>s. P s \<Longrightarrow> P (snd (body s))" and "P s"
  shows "P (snd (withLockContentionRetry (db_tx faults body) s))"
  by (rule retry_keeps [where P = P]) (use assms db_tx_keeps [where P = P] in blast)+

abbreviation jdb_ok :: "(string \<Rightarrow> bool) \<Rightarrow> jobs \<Rightarrow> jdb \<Rightarrow> bool" where
  "jdb_ok parent js0 db \<equiv> evolved parent js0 (db_jobs db)"

lemma lost_tx_ok: "jdb_ok parent js0 db \<Longrightarrow> jdb_ok parent js0 (snd (lost_tx env j s tip ttl generation db))"
  using evolved_step [OF lost.update_step [of parent "db_jobs db" "ID j" "rnow env" "lost_message env j s tip ttl"]]
  by (auto simp: lost_tx_def split: prod.splits)

lemma finalizeLostBroadcast_ok: "jdb_ok parent js0 db \<Longrightarrow> jdb_ok parent js0 (snd (finalizeLostBroadcast env faults j tip generation db))"
  by (auto simp: finalizeLostBroadcast_def Let_def intro!: retried_tx_keeps lost_tx_ok split: option.splits)

lemma settle_tx_ok: "jdb_ok parent js0 db \<Longrightarrow> jdb_ok parent js0 (snd (settle_tx env j s db))"
  using evolved_step [OF settled.update_step [of parent "db_jobs db" "ID j" env j]]
  by (auto simp: settle_tx_def split: prod.splits)

lemma settle_rows_ok: "jdb_ok parent js0 db \<Longrightarrow> jdb_ok parent js0 (snd (settle_rows env flt rows n db))"
proof (induction rows arbitrary: n db)
  case (Cons j rows)
  let ?r = "withLockContentionRetry (db_tx (flt (ID j)) (settle_tx env j (rejected_attempt_of j db))) db"
  have ok: "jdb_ok parent js0 (snd ?r)"
    by (rule retried_tx_keeps [where P = "jdb_ok parent js0"]) (use Cons.prems settle_tx_ok in blast)+
  then show ?case using Cons.IH by (cases ?r; cases "fst ?r") simp_all
qed simp

definition finalizers_keep_jobs :: "rec_env \<Rightarrow> bool" where
  "finalizers_keep_jobs env \<longleftrightarrow>
     (\<forall>(k, f) \<in> set (reconciliationFinalizers (reg env)). \<forall>cmd j ev db. db_jobs (snd (f cmd j ev db)) = db_jobs db)"

lemma runReconciliationFinalizer_jobs:
  assumes "finalizers_keep_jobs env" shows "db_jobs (snd (runReconciliationFinalizer env j ev db)) = db_jobs db"
  using assms unfolding finalizers_keep_jobs_def
  by (auto simp: runReconciliationFinalizer_def dest!: map_of_SomeD split: option.splits sum.splits)

lemma confirm_tx_ok:
  assumes "finalizers_keep_jobs env" and "jdb_ok parent js0 db"
  shows "jdb_ok parent js0 (snd (confirm_tx env j s oc src generation db))"
proof (cases "fst (lockReorgGeneration db) = generation")
  case False
  then show ?thesis using assms(2) by (simp add: confirm_tx_def)
next
  case True
  have step: "evolved parent js0 (snd (update_where (confirm_guard env src (ID j)) (confirm_patch env src j oc segs res) (db_jobs db)))" for segs res
    using evolved_step [OF confirm.update_step assms(2)] .
  have fin: "db_jobs db1 = db_jobs db" if "runReconciliationFinalizer env j ev db = (r, db1)" for ev r db1
    using runReconciliationFinalizer_jobs [OF assms(1), of j ev db] that by simp
  show ?thesis
    using True assms(2) step fin
    by (auto simp: confirm_tx_def Let_def split: prod.splits sum.splits if_splits) (metis snd_conv)+
qed

lemma finalizeIdentifierKeyedJob_ok:
  assumes "finalizers_keep_jobs env" and "jdb_ok parent js0 db"
  shows "jdb_ok parent js0 (snd (finalizeIdentifierKeyedJob env faults j oc src generation db))"
  unfolding finalizeIdentifierKeyedJob_def
  by (rule retried_tx_keeps [where P = "jdb_ok parent js0"]) (use assms confirm_tx_ok in blast)+

lemma plain_confirm_tx_ok: "jdb_ok parent js0 db \<Longrightarrow> jdb_ok parent js0 (snd (plain_confirm_tx env j oc segs generation db))"
  using evolved_step [OF confirm.update_step [of parent "db_jobs db" env "FromSucceeded (chainStatus j)" "ID j" j oc segs JNull]]
  by (auto simp: plain_confirm_tx_def split: prod.splits)

lemma confirm_parked_ok:
  assumes "finalizers_keep_jobs env"
  shows "jdb_ok parent js0 db \<Longrightarrow> jdb_ok parent js0 (snd (confirm_parked env flt cf generation rows u db))"
proof (induction rows arbitrary: u db)
  case (Cons j rows)
  show ?case
    using Cons.prems Cons.IH finalizeIdentifierKeyedJob_ok [OF assms Cons.prems] finalizeLostBroadcast_ok [OF Cons.prems]
    by (auto split: sum.splits chain_lookup.splits prod.splits) (metis snd_conv)+
qed simp

lemma confirm_succeeded_ok:
  assumes "finalizers_keep_jobs env"
  shows "jdb_ok parent js0 db \<Longrightarrow> jdb_ok parent js0 (snd (confirm_succeeded env flt cf generation rows u db))"
proof (induction rows arbitrary: u db)
  case (Cons j rows)
  have plain: "jdb_ok parent js0 (snd (withLockContentionRetry (db_tx faults (plain_confirm_tx env j oc segs generation)) db))" for faults oc segs
    by (rule retried_tx_keeps [where P = "jdb_ok parent js0"]) (use Cons.prems plain_confirm_tx_ok in blast)+
  show ?case
    using Cons.prems Cons.IH finalizeIdentifierKeyedJob_ok [OF assms Cons.prems] plain
    by (auto split: sum.splits chain_lookup.splits prod.splits if_splits) (metis snd_conv)+
qed simp

lemma retried_update_ok:
  assumes "table_step parent js (snd (update_where g p js))" and "evolved parent js0 js"
  shows "evolved parent js0 (snd (withLockContentionRetry (db_write faults (update_where g p)) js))"
  using retried_stmt_cases [of faults "update_where g p" js] evolved_step [OF assms] assms(2)
  by (metis prod.collapse)

lemma refresh_rows_ok: "evolved parent js0 js \<Longrightarrow> evolved parent js0 (snd (refresh_rows env flt rows u js))"
proof (induction rows arbitrary: u js)
  case (Cons p rows)
  have ok: "evolved parent js0 (snd (withLockContentionRetry (db_write (flt (ID p)) (update_where (succeeded_guard (ID p)) (aggregate_patch env a))) js))" for a
    by (rule retried_update_ok [OF aggregate.update_step Cons.prems])
  show ?case
    using Cons.prems Cons.IH ok [of "aggregate_status (children_of (ID p) js)"]
    by (auto simp: Let_def split: sum.splits prod.splits)
qed simp

lemma table_step_kinds: "table_step parent js js' \<Longrightarrow> map (\<lambda>j. (ID j, kind j)) js' = map (\<lambda>j. (ID j, kind j)) js"
  unfolding table_step_def
  by (induction rule: list_all2_induct) (auto simp: row_step_def dest: identity_parts)

text \<open>The rows of a parent page, against a table that may have moved on since they were read.\<close>

definition parent_page :: "(string \<Rightarrow> bool) \<Rightarrow> jobs \<Rightarrow> jobs \<Rightarrow> bool" where
  "parent_page parent rows js \<longleftrightarrow>
     (\<forall>j \<in> set rows. parent (kind j) \<and> (ID j, kind j) \<in> set (map (\<lambda>j. (ID j, kind j)) js))"

lemma parent_page_step: "table_step parent js js' \<Longrightarrow> parent_page parent rows js \<Longrightarrow> parent_page parent rows js'"
  by (simp only: parent_page_def table_step_kinds)

lemma reconcile_write:
  assumes "evolved parent js0 js" and "parent_page parent (j # rows) js"
    and "g = requeue_patch \<or> g = child_failed_patch env m"
    and "withLockContentionRetry (db_write faults (update_where (parked_guard (ID j)) g)) js = (r, js')"
  shows "evolved parent js0 js' \<and> parent_page parent rows js'"
proof -
  have "table_step parent js (snd (update_where (parked_guard (ID j)) g js))"
  proof (cases "g = requeue_patch")
    case True
    have "\<exists>j' \<in> set js. ID j' = ID j \<and> kind j' = kind j" using assms(2) by (auto simp: parent_page_def)
    then show ?thesis
      using requeue_parent_step [of parent j js] evolved_ok [OF assms(1)] assms(2) True
      by (simp add: jobs_ok_def parent_page_def)
  next
    case False
    then show ?thesis using assms(3) child_failed.update_step by blast
  qed
  moreover have "js' = js \<or> js' = snd (update_where (parked_guard (ID j)) g js)"
    using retried_stmt_cases [OF assms(4)] by auto
  ultimately have "table_step parent js js'" by auto
  then show ?thesis using assms(1,2) evolved_step parent_page_step [of parent js js' rows] by (auto simp: parent_page_def)
qed

lemma reconcile_rows_ok:
  "evolved parent js0 js \<Longrightarrow> parent_page parent rows js \<Longrightarrow> evolved parent js0 (snd (reconcile_rows env flt rows n js))"
proof (induction rows arbitrary: n js)
  case (Cons j rows)
  have page: "parent_page parent rows js" using Cons.prems(2) by (simp add: parent_page_def)
  have ind: "evolved parent js0 (snd (reconcile_rows env flt rows k js'))" if "evolved parent js0 js' \<and> parent_page parent rows js'" for k js'
    using Cons.IH that by blast
  note w1 = reconcile_write [OF Cons.prems, where g = requeue_patch, simplified]
  have w2: "withLockContentionRetry (db_write faults (update_where (parked_guard (ID j)) (child_failed_patch env m))) js = (r, js')
      \<Longrightarrow> evolved parent js0 js' \<and> parent_page parent rows js'" for faults m r js'
    by (rule reconcile_write [OF Cons.prems, of "child_failed_patch env m" env m]) simp_all
  show ?case
    using ind page Cons.prems(1)
    by (auto simp: Let_def dest!: w1 w2 split: sum.splits prod.splits option.splits)
qed simp

lemma kindsWithTrait_iff:
  assumes "distinct (map fst (kindTraits r))"
  shows "k \<in> set (kindsWithTrait workflowParent r) \<longleftrightarrow> parent_kind r k"
proof -
  have "(k, t) \<in> set (kindTraits r) \<longleftrightarrow> map_of (kindTraits r) k = Some t" for t
    using assms by (simp add: map_of_eq_Some_iff)
  then show ?thesis
    by (force simp: kindsWithTrait_def parent_kind_def jobKindTraits_def LIGHT_KIND_def split: option.splits)
qed

lemma scan_page_subset: "set (fst (scanBackgroundJobPage wh cursor js)) \<subseteq> {j \<in> set js. wh j}"
  by (auto simp: scanBackgroundJobPage_def select_page_def Let_def dest: in_set_takeD split: if_splits)

lemma reconcileBackgroundJobs_ok:
  assumes "evolved (parent_kind (reg env)) js0 js" and "distinct (map fst (kindTraits (reg env)))"
  shows "evolved (parent_kind (reg env)) js0 (snd (snd (reconcileBackgroundJobs env flt cursor js)))"
proof -
  have "parent_page (parent_kind (reg env)) (fst (scanBackgroundJobPage (parked_parent (reg env)) cursor js)) js"
    using scan_page_subset [of "parked_parent (reg env)" cursor js] kindsWithTrait_iff [OF assms(2)]
    by (auto simp: parent_page_def parked_parent_def)
  then show ?thesis
    using reconcile_rows_ok [OF assms(1)]
    by (auto simp: reconcileBackgroundJobs_def split: prod.splits) (metis snd_conv)
qed

text \<open>The remaining passes.\<close>

lemma settleRejectedSponsorAttempts_ok:
  "jdb_ok parent js0 db \<Longrightarrow> jdb_ok parent js0 (snd (snd (settleRejectedSponsorAttempts env flt cursor db)))"
  using settle_rows_ok [of parent js0 db env flt]
  by (auto simp: settleRejectedSponsorAttempts_def split: prod.splits) (metis snd_conv)

lemma refreshSucceededChainOutcomes_ok:
  "evolved parent js0 js \<Longrightarrow> evolved parent js0 (snd (snd (refreshSucceededChainOutcomes env flt cursors js)))"
  using refresh_rows_ok [of parent js0 js env flt]
  by (auto simp: refreshSucceededChainOutcomes_def split: prod.splits) (metis snd_conv)

lemma confirmChainOutcomesViaIndexer_ok:
  assumes "finalizers_keep_jobs env" and "jdb_ok parent js0 db"
  shows "jdb_ok parent js0 (snd (snd (confirmChainOutcomesViaIndexer env flt confirmer cs db)))"
proof -
  have a: "jdb_ok parent js0 db'" if "confirm_parked env flt cf g rows u db = (n, db')" for cf g rows u n db'
    using confirm_parked_ok [OF assms, of flt cf g rows u] that by simp
  have b: "jdb_ok parent js0 db''" if "confirm_succeeded env flt cf g rows u db' = (n, db'')" "jdb_ok parent js0 db'" for cf g rows u n db' db''
    using confirm_succeeded_ok [OF assms(1) that(2), of flt cf g rows u] that(1) by simp
  show ?thesis
    using assms(2) a b
    by (auto simp: confirmChainOutcomesViaIndexer_def split: option.splits prod.splits)
qed

lemma markReconciliationRequired_ok:
  "evolved parent js0 js \<Longrightarrow> evolved parent js0 (markReconciliationRequired env faults i c m js)"
  unfolding markReconciliationRequired_def by (rule evolved_step [OF reconciliation.retried_leased_step])

lemma park_unconfirmed_ok: "jdb_ok parent js0 db \<Longrightarrow> jdb_ok parent js0 (park_unconfirmed env faults i m db)"
  by (simp add: park_unconfirmed_def markReconciliationRequired_ok)

lemma markChainFailureAfterBroadcast_ok:
  assumes "finalizers_keep_jobs env" and "jdb_ok parent js0 db"
  shows "jdb_ok parent js0 (markChainFailureAfterBroadcast env faults faults' confirmer i cur carried db)"
proof -
  have a: "jdb_ok parent js0 db'" if "finalizeIdentifierKeyedJob env faults cur oc src g db = (r, db')" for oc src g r db'
    using finalizeIdentifierKeyedJob_ok [OF assms, of faults cur oc src g] that by simp
  show ?thesis
    using assms(2) a
    by (auto simp: markChainFailureAfterBroadcast_def Let_def intro: park_unconfirmed_ok
        split: option.splits sum.splits chain_lookup.splits prod.splits)
qed

end
