(* ===== verification/Background_Jobs.thy ===== *)
theory Background_Jobs
  imports Job_Reconciliation
begin

text \<open>
  Admission of jobs and the workflow steps run as child jobs
  (\<^verbatim>\<open>srv/submission/background-jobs.ts\<close>).

  Admission reads the table twice: a quick look for the idempotency key, and the insert, which
  the unique constraint guards. Another request may commit between the two, so the model takes the
  table the quick look saw and the table the insert meets as separate arguments. The savepoint
  loop inside a request and the retry wrapper outside it make the same attempts with the same
  errors, so both are the wrapper of \<^verbatim>\<open>Db_Retry\<close>; a failed insert commits nothing in either.
\<close>

section \<open>Arguments and results\<close>

record start_args =
  sa_kind :: string
  sa_sessionId :: string
  sa_idempotencyKey :: "string option"
  sa_request :: json
  sa_idempotencyPayload :: "json option"
  sa_requestedBy :: "string option"
  sa_grantId :: "string option"
  sa_command :: "json option"
  sa_commandVersion :: "int option"
  sa_encryptCommand :: bool
  sa_parentJobId :: "string option"
  sa_workflowStep :: "string option"
  sa_hasWork :: bool

record start_result =
  sr_jobId :: string
  sr_status :: job_status
  sr_result :: "json option"
  sr_deduplicated :: bool
  sr_originalRequest :: "json option"

text \<open>
  The surroundings of an admission: the clock, a fresh UUID, the registry, the digest and the
  encryption the platform provides, and the build digest of a registered artifact.
\<close>

record start_env =
  se_now :: int
  se_uuid :: string
  se_reg :: registry
  se_sha256 :: "string \<Rightarrow> string"
  se_encrypt :: "string \<Rightarrow> string \<Rightarrow> string"
  se_artifactDigest :: "string \<Rightarrow> json result"

definition IDEMPOTENCY_KEY_MAX_LENGTH :: nat where "IDEMPOTENCY_KEY_MAX_LENGTH = 128"

definition IdempotencyKeyInvalidError :: js_error where
  "IdempotencyKeyInvalidError = \<lparr>err_code = ''IDEMPOTENCY_KEY_INVALID'', err_message = ''idempotencyKey must be at most 128 characters''\<rparr>"

definition IdempotencyConflictError :: "string \<Rightarrow> js_error" where
  "IdempotencyConflictError k = \<lparr>err_code = ''IDEMPOTENCY_KEY_CONFLICT'',
     err_message = ''Idempotency key '' @ quoted k @ '' was already used with a different request payload.''\<rparr>"

definition JobAdmissionBusyError :: "string \<Rightarrow> js_error" where
  "JobAdmissionBusyError k = \<lparr>err_code = ''JOB_ADMISSION_BUSY'',
     err_message = ''the server is busy writing another job and could not admit this '' @ k @ '' request; nothing was submitted, retry in a moment''\<rparr>"

definition UniqueConstraintError :: js_error where
  "UniqueConstraintError = \<lparr>err_code = ''UNIQUE_CONSTRAINT_VIOLATION'', err_message = ''UNIQUE constraint failed''\<rparr>"

section \<open>The idempotency key\<close>

definition truthy_str :: "string option \<Rightarrow> bool" where
  "truthy_str v = (case v of Some s \<Rightarrow> s \<noteq> [] | None \<Rightarrow> False)"

definition json_of_text :: "json_text option \<Rightarrow> json option" where
  "json_of_text t = (case t of Some x \<Rightarrow> json_parse x | None \<Rightarrow> None)"

definition dedupExisting :: "string \<Rightarrow> string \<Rightarrow> string \<Rightarrow> string \<Rightarrow> jobs \<Rightarrow> start_result option result" where
  "dedupExisting sid k key fp js =
     (case select_one (\<lambda>j. sessionId j = Some sid \<and> kind j = k \<and> idempotencyKey j = Some key) (rev js) of
        None \<Rightarrow> Inr None
      | Some ex \<Rightarrow>
          if truthy_str (payloadFingerprint ex) \<and> payloadFingerprint ex \<noteq> Some fp then Inl (IdempotencyConflictError key)
          else Inr (Some \<lparr>sr_jobId = ID ex, sr_status = status ex,
                 sr_result = (if status ex = Succeeded then json_of_text (job_result ex) else None),
                 sr_deduplicated = True, sr_originalRequest = json_of_text (request ex)\<rparr>))"

definition payload_of :: "start_args \<Rightarrow> json" where
  "payload_of a = (case sa_idempotencyPayload a of Some p \<Rightarrow> if p = JNull then sa_request a else p | None \<Rightarrow> sa_request a)"

definition fingerprint_of :: "start_env \<Rightarrow> start_args \<Rightarrow> string" where
  "fingerprint_of env a =
     se_sha256 env (sa_kind a @ [CHR 0x00] @ sa_sessionId a @ [CHR 0x00] @ json_stringify (payload_of a))"

section \<open>Admission\<close>

definition replayable :: "start_args \<Rightarrow> bool" where
  "replayable a \<longleftrightarrow> sa_command a \<noteq> None"

definition version_num :: "start_args \<Rightarrow> int" where
  "version_num a = (case sa_commandVersion a of Some v \<Rightarrow> v | None \<Rightarrow> 0)"

text \<open>The checks of the arguments, in the code's order.\<close>

definition start_checks :: "start_env \<Rightarrow> start_args \<Rightarrow> unit result" where
  "start_checks env a =
     (if sa_kind a = [] then Inl (js_Error ''startJob: kind is required'')
      else if sa_sessionId a = [] then Inl (js_Error ''startJob: sessionId is required'')
      else if \<not> replayable a \<and> \<not> sa_hasWork a then Inl (js_Error ''startJob: work or command is required'')
      else if replayable a \<and> (sa_commandVersion a = None \<or> version_num a < 1)
        then Inl (js_Error ''startJob: commandVersion must be a positive integer for replayable commands'')
      else if replayable a \<and> \<not> truthy_str (sa_requestedBy a) then Inl (js_Error ''startJob: requestedBy is required for replayable commands'')
      else if replayable a \<and> processorKey (sa_kind a) (version_num a) \<notin> set (map fst (processors (se_reg env)))
        then Inl (js_Error (''startJob: no command processor registered for '' @ quoted (sa_kind a) @ '' v'' @ int_str (version_num a)))
      else Inr ())"

text \<open>A command that names an artifact is stored with the digest of the build it names now.\<close>

definition effective_command :: "start_env \<Rightarrow> start_args \<Rightarrow> json option result" where
  "effective_command env a =
     (case sa_command a of
        Some (JObj kvs) \<Rightarrow>
          (case (map_of kvs ''compiledArtifactRef'', map_of kvs ''artifactDigest'') of
             (Some (JStr r), None) \<Rightarrow>
               (case se_artifactDigest env r of Inl e \<Rightarrow> Inl e | Inr d \<Rightarrow> Inr (Some (JObj (kvs @ [(''artifactDigest'', d)]))))
           | _ \<Rightarrow> Inr (Some (JObj kvs)))
      | c \<Rightarrow> Inr c)"

definition new_job_row :: "start_env \<Rightarrow> start_args \<Rightarrow> json option \<Rightarrow> job" where
  "new_job_row env a cmd =
     \<lparr>ID = se_uuid env, kind = sa_kind a, sessionId = Some (sa_sessionId a), status = Pending,
      idempotencyKey = (if truthy_str (sa_idempotencyKey a) then sa_idempotencyKey a else None),
      request = Some (JText (sa_request a)), payloadFingerprint = Some (fingerprint_of env a),
      commandVersion = (if replayable a then sa_commandVersion a else None),
      command = (case cmd of None \<Rightarrow> None
         | Some c \<Rightarrow> if sa_encryptCommand a then Some (SealedCommand (se_encrypt env (json_stringify c) (se_uuid env))) else Some (PlainCommand c)),
      commandEncoding = (if replayable a then Some (if sa_encryptCommand a then ''aes-gcm-v1'' else ''json-v1'') else None),
      requestedBy = sa_requestedBy a, grantId = sa_grantId a, parentJobId = sa_parentJobId a, workflowStep = sa_workflowStep a,
      job_result = None, errorCode = None, errorMessage = None, startedAt = None, queuedAt = Some (se_now env),
      externalExecutionAt = None, submittedAt = None, finishedAt = None, attempt_no = 1, maxAttempts = 1,
      leaseOwner = None, leaseExpiresAt = None, heartbeatAt = None, submissionId = None, txHash = None,
      chainStatus = None, chainFinalizedAt = None, chainBlockHeight = None, chainBlockHash = None, indexerTxHash = None, chainSegments = None\<rparr>"

text \<open>The insert: the primary key and the unique constraint refuse a duplicate.\<close>

definition insert_job :: "job \<Rightarrow> jobs \<Rightarrow> unit result \<times> jobs" where
  "insert_job row js =
     (if ID row \<in> set (map ID js) \<or> (keyed row \<and> idem_key row \<in> set (map idem_key js))
      then (Inl UniqueConstraintError, js) else (Inr (), js @ [row]))"

definition startJob :: "start_env \<Rightarrow> faults \<Rightarrow> start_args \<Rightarrow> jobs \<Rightarrow> jobs \<Rightarrow> start_result result \<times> jobs" where
  "startJob env faults a seen js =
     (case start_checks env a of
        Inl e \<Rightarrow> (Inl e, js)
      | Inr _ \<Rightarrow>
          (let key = (case sa_idempotencyKey a of Some k \<Rightarrow> k | None \<Rightarrow> []);
               fp = fingerprint_of env a
           in if length key > IDEMPOTENCY_KEY_MAX_LENGTH then (Inl IdempotencyKeyInvalidError, js)
              else
                (case (if key \<noteq> [] then dedupExisting (sa_sessionId a) (sa_kind a) key fp seen else Inr None) of
                   Inl e \<Rightarrow> (Inl e, js)
                 | Inr (Some dup) \<Rightarrow> (Inr dup, js)
                 | Inr None \<Rightarrow>
                     (case effective_command env a of
                        Inl e \<Rightarrow> (Inl e, js)
                      | Inr cmd \<Rightarrow>
                          (case withLockContentionRetry (db_tx faults (insert_job (new_job_row env a cmd))) js of
                             (Inr _, js') \<Rightarrow>
                               (Inr \<lparr>sr_jobId = se_uuid env, sr_status = Pending, sr_result = None, sr_deduplicated = False, sr_originalRequest = None\<rparr>, js')
                           | (Inl e, js') \<Rightarrow>
                               if isLockContention e then (Inl (JobAdmissionBusyError (sa_kind a)), js')
                               else if key \<noteq> [] \<and> isUniqueViolation e
                               then (case dedupExisting (sa_sessionId a) (sa_kind a) key fp js' of
                                       Inl e' \<Rightarrow> (Inl e', js')
                                     | Inr (Some dup) \<Rightarrow> (Inr dup, js')
                                     | Inr None \<Rightarrow> (Inl e, js'))
                               else (Inl e, js'))))))"

section \<open>Workflow steps\<close>

text \<open>What a step may end with: a request for reconciliation, or a thrown error.\<close>

datatype job_exc = WorkflowReconciliationRequired string | Thrown js_error

text \<open>\<open>None\<close>: the children could not be read. When unsure, a step is assumed to have run.\<close>

definition hasCompletedChild :: "string \<Rightarrow> jobs option \<Rightarrow> bool" where
  "hasCompletedChild i js =
     (case js of None \<Rightarrow> True
      | Some rows \<Rightarrow>
          list_ex (\<lambda>c. status c = Succeeded \<or> status c = ReconciliationRequired \<or> truthy_str (txHash c)) (children_of i rows))"

definition child_args :: "job \<Rightarrow> string \<Rightarrow> string \<Rightarrow> int \<Rightarrow> json \<Rightarrow> json \<Rightarrow> bool \<Rightarrow> start_args" where
  "child_args parent k step v cmd req enc =
     \<lparr>sa_kind = k, sa_sessionId = (case sessionId parent of Some s \<Rightarrow> s | None \<Rightarrow> []),
      sa_idempotencyKey = Some (''workflow:'' @ ID parent @ '':'' @ step), sa_request = req,
      sa_idempotencyPayload = Some (JObj [(''parentJobId'', JStr (ID parent)), (''step'', JStr step), (''commandVersion'', JNum v), (''command'', cmd)]),
      sa_requestedBy = requestedBy parent, sa_grantId = grantId parent, sa_command = Some cmd, sa_commandVersion = Some v,
      sa_encryptCommand = enc, sa_parentJobId = Some (ID parent), sa_workflowStep = Some step, sa_hasWork = False\<rparr>"

text \<open>The start of a step. \<open>childrenSeen\<close> is what the check for completed steps reads, if it can.\<close>

definition start_child :: "start_env \<Rightarrow> faults \<Rightarrow> job \<Rightarrow> string \<Rightarrow> string \<Rightarrow> int \<Rightarrow> json \<Rightarrow> json \<Rightarrow> bool
    \<Rightarrow> jobs option \<Rightarrow> jobs \<Rightarrow> (job_exc + start_result) \<times> jobs" where
  "start_child env faults parent k step v cmd req enc childrenSeen js =
     (if \<not> truthy_str (sessionId parent) \<or> \<not> truthy_str (requestedBy parent)
      then (Inl (Thrown (js_Error (''Parent job '' @ ID parent @ '' lacks execution identity''))), js)
      else (case startJob env faults (child_args parent k step v cmd req enc) js js of
              (Inr r, js') \<Rightarrow> (Inr r, js')
            | (Inl e, js') \<Rightarrow>
                if err_code e = ''JOB_ADMISSION_BUSY'' \<and> hasCompletedChild (ID parent) childrenSeen
                then (Inl (WorkflowReconciliationRequired
                  (''Could not admit workflow step '' @ quoted step @ '' ('' @ err_message e @ ''), and an earlier step of job '' @ ID parent
                   @ '' already completed; verify chain state before retrying'')), js')
                else (Inl (Thrown e), js')))"

text \<open>
  One look at the child: \<open>Some\<close> ends the wait. The table and the clock at look \<open>i\<close> are what the
  outside shows.
\<close>

definition status_text :: "job_status \<Rightarrow> string" where
  "status_text s = (case s of Pending \<Rightarrow> ''pending'' | Running \<Rightarrow> ''running'' | ExternalExecution \<Rightarrow> ''external_execution''
     | Submitted \<Rightarrow> ''submitted'' | Succeeded \<Rightarrow> ''succeeded'' | Failed \<Rightarrow> ''failed'' | ReconciliationRequired \<Rightarrow> ''reconciliation_required'')"

definition child_look :: "string \<Rightarrow> string \<Rightarrow> string \<Rightarrow> int \<Rightarrow> int \<Rightarrow> jobs \<Rightarrow> (job_exc + json option) option" where
  "child_look parentId childId step deadline t js =
     (case getJobById childId js of
        None \<Rightarrow> Some (Inl (Thrown (js_Error (''Child job '' @ childId @ '' disappeared''))))
      | Some row \<Rightarrow>
          if status row = Succeeded then Some (Inr (json_of_text (job_result row)))
          else if status row = ReconciliationRequired
          then Some (Inl (WorkflowReconciliationRequired
            (''Child job '' @ ID row @ '' for workflow step '' @ quoted step @ '' requires reconciliation'')))
          else if status row = Failed
          then Some (Inl (Thrown \<lparr>err_code = ''CHILD_FAILED'', err_message = childFailedMessage row (children_of parentId js)\<rparr>))
          else if deadline \<le> t
          then Some (Inl (WorkflowReconciliationRequired
            (''Timed out waiting for child job '' @ ID row @ '' at workflow step '' @ quoted step @ '' while it remained '' @ status_text (status row)
             @ ''; the child may still cross the external-effect boundary'')))
          else None)"

fun await_child :: "nat \<Rightarrow> nat \<Rightarrow> string \<Rightarrow> string \<Rightarrow> string \<Rightarrow> int \<Rightarrow> (nat \<Rightarrow> int) \<Rightarrow> (nat \<Rightarrow> jobs) \<Rightarrow> (job_exc + json option) option" where
  "await_child 0 i pid cid step deadline clock tab = None"
| "await_child (Suc fuel) i pid cid step deadline clock tab =
     (case child_look pid cid step deadline (clock i) (tab i) of
        Some r \<Rightarrow> Some r
      | None \<Rightarrow> await_child fuel (Suc i) pid cid step deadline clock tab)"

definition childWaitTimeoutMs :: "int option \<Rightarrow> int \<Rightarrow> int" where
  "childWaitTimeoutMs explicit rpcTimeout = (case explicit of Some t \<Rightarrow> t | None \<Rightarrow> rpcTimeout + 5 * 60000)"

text \<open>\<^verbatim>\<open>runChildCommand\<close>: the start of the step, then the wait.\<close>

definition runChildCommand :: "start_env \<Rightarrow> faults \<Rightarrow> job \<Rightarrow> string \<Rightarrow> string \<Rightarrow> int \<Rightarrow> json \<Rightarrow> json \<Rightarrow> bool \<Rightarrow> jobs option
    \<Rightarrow> int \<Rightarrow> nat \<Rightarrow> (nat \<Rightarrow> int) \<Rightarrow> (nat \<Rightarrow> jobs) \<Rightarrow> jobs \<Rightarrow> (job_exc + json option) option \<times> jobs" where
  "runChildCommand env faults parent k step v cmd req enc childrenSeen timeout fuel clock tab js =
     (case start_child env faults parent k step v cmd req enc childrenSeen js of
        (Inl e, js') \<Rightarrow> (Some (Inl e), js')
      | (Inr r, js') \<Rightarrow>
          if sr_status r = Succeeded \<and> sr_result r \<noteq> None then (Some (Inr (sr_result r)), js')
          else (await_child fuel 0 (ID parent) (sr_jobId r) step (se_now env + timeout) clock tab, js'))"

section \<open>Facts\<close>

definition has_key :: "string \<Rightarrow> string \<Rightarrow> string \<Rightarrow> job \<Rightarrow> bool" where
  "has_key sid k key j \<longleftrightarrow> sessionId j = Some sid \<and> kind j = k \<and> idempotencyKey j = Some key"

lemma has_key_iff: "has_key sid k key j \<longleftrightarrow> keyed j \<and> idem_key j = (Some sid, k, Some key)"
  by (auto simp: has_key_def keyed_def idem_key_def)

lemma dedup_select: "dedupExisting sid k key fp js =
     (case select_one (has_key sid k key) (rev js) of
        None \<Rightarrow> Inr None
      | Some ex \<Rightarrow>
          if truthy_str (payloadFingerprint ex) \<and> payloadFingerprint ex \<noteq> Some fp then Inl (IdempotencyConflictError key)
          else Inr (Some \<lparr>sr_jobId = ID ex, sr_status = status ex,
                 sr_result = (if status ex = Succeeded then json_of_text (job_result ex) else None),
                 sr_deduplicated = True, sr_originalRequest = json_of_text (request ex)\<rparr>))"
  unfolding dedupExisting_def has_key_def ..

text \<open>Under the unique constraint the key names one row.\<close>

lemma key_row_unique:
  assumes "jobs_ok parent js" and "j \<in> set js" and "has_key sid k key j"
  shows "select_one (has_key sid k key) (rev js) = Some j"
proof -
  have "select_one (has_key sid k key) (rev js) \<noteq> None" using assms(2,3) by (auto simp: select_one_None)
  then obtain j' where sel: "select_one (has_key sid k key) (rev js) = Some j'" by auto
  then have j': "j' \<in> set js" "has_key sid k key j'" by (auto dest: select_one_Some)
  have "distinct (map idem_key (filter keyed js))" using assms(1) by (simp add: jobs_ok_def)
  moreover have "j \<in> set (filter keyed js)" "j' \<in> set (filter keyed js)" "idem_key j' = idem_key j"
    using assms(2,3) j' by (auto simp: has_key_iff)
  ultimately have "j' = j" using distinct_map_eqD by metis
  with sel show ?thesis by simp
qed

lemma new_row_ok: "job_ok parent (new_job_row env a cmd)"
  by (simp add: job_ok_def new_job_row_def in_flight_def)

lemma insert_job_ok:
  assumes "evolved parent js0 js" and "job_ok parent row"
  shows "evolved parent js0 (snd (insert_job row js))"
proof -
  have "jobs_ok parent (snd (insert_job row js))"
    using assms by (auto simp: insert_job_def jobs_ok_def evolved_def)
  with assms(1) show ?thesis
    by (auto simp: insert_job_def evolved_def split: if_splits)
qed

lemma insert_job_cases:
  assumes "withLockContentionRetry (db_tx faults (insert_job row)) js = (r, js')"
  shows "(r = Inr () \<and> js' = js @ [row] \<and> ID row \<notin> set (map ID js) \<and> (keyed row \<longrightarrow> idem_key row \<notin> set (map idem_key js)))
         \<or> (\<exists>e. r = Inl e \<and> js' = js)"
  using retried_tx_cases [OF assms] by (auto simp: insert_job_def split: if_splits)

text \<open>The cases of an admission: it throws, it answers with the job that has the key, or it adds one row.\<close>

lemma startJob_table:
  assumes "startJob env faults a seen js = (r, js')"
  shows "js' = js \<or> (\<exists>cmd. js' = js @ [new_job_row env a cmd] \<and> js' = snd (insert_job (new_job_row env a cmd) js)
            \<and> r = Inr \<lparr>sr_jobId = se_uuid env, sr_status = Pending, sr_result = None, sr_deduplicated = False, sr_originalRequest = None\<rparr>)"
  using assms
  by (auto simp: startJob_def Let_def insert_job_def split: sum.splits option.splits prod.splits if_splits
      dest!: insert_job_cases)

lemma startJob_ok: "evolved parent js0 js \<Longrightarrow> evolved parent js0 (snd (startJob env faults a seen js))"
  using startJob_table [of env faults a seen js] insert_job_ok [OF _ new_row_ok, of parent js0 js]
  by (metis prod.collapse)

lemma new_row_has_key:
  "sa_idempotencyKey a = Some key \<Longrightarrow> key \<noteq> [] \<Longrightarrow> has_key (sa_sessionId a) (sa_kind a) key (new_job_row env a cmd)"
  by (simp add: has_key_def new_job_row_def truthy_str_def)

text \<open>With the key taken, the insert of another row under it is refused, whatever the driver does.\<close>

lemma insert_taken_key:
  assumes "j \<in> set js" and "has_key (sa_sessionId a) (sa_kind a) key j" and "sa_idempotencyKey a = Some key" and "key \<noteq> []"
    and "withLockContentionRetry (db_tx faults (insert_job (new_job_row env a cmd))) js = (r, js')"
  shows "\<exists>e. r = Inl e \<and> js' = js"
  using insert_job_cases [OF assms(5)] new_row_has_key [OF assms(3,4), of env cmd] assms(1,2)
  by (force simp: has_key_iff)

lemma dedup_none: "(\<And>j. j \<in> set js \<Longrightarrow> \<not> has_key sid k key j) \<Longrightarrow> dedupExisting sid k key fp js = Inr None"
  using select_one_None [of "has_key sid k key" "rev js"] by (simp add: dedup_select)

text \<open>
  A repeated admission under a taken key, with the payload the row was admitted with: the table
  stays as it is, and an answer names that row. The quick look may have seen any earlier table.
\<close>

lemma startJob_repeat:
  assumes ok: "jobs_ok parent js" and j: "j \<in> set js" "has_key (sa_sessionId a) (sa_kind a) key j"
    and key: "sa_idempotencyKey a = Some key" "key \<noteq> []"
    and seen: "\<And>x. x \<in> set seen \<Longrightarrow> has_key (sa_sessionId a) (sa_kind a) key x \<Longrightarrow> ID x = ID j"
    and run: "startJob env faults a seen js = (r, js')"
  shows "js' = js \<and> (\<forall>x. r = Inr x \<longrightarrow> sr_jobId x = ID j \<and> sr_deduplicated x)"
proof -
  have seen_dup: "sr_jobId x = ID j \<and> sr_deduplicated x"
    if "dedupExisting (sa_sessionId a) (sa_kind a) key fp seen = Inr (Some x)" for fp x
    using that seen by (auto simp: dedup_select split: option.splits if_splits dest!: select_one_Some)
  have now_dup: "sr_jobId x = ID j \<and> sr_deduplicated x"
    if "dedupExisting (sa_sessionId a) (sa_kind a) key fp js = Inr (Some x)" for fp x
    using that key_row_unique [OF ok j] by (auto simp: dedup_select split: if_splits)
  note ins = insert_taken_key [OF j key]
  show ?thesis
    using run key
    by (auto simp: startJob_def Let_def split: sum.splits option.splits prod.splits if_splits
        dest: seen_dup now_dup ins)
qed

lemma startJob_conflict:
  assumes ok: "jobs_ok parent js" and j: "j \<in> set js" "has_key (sa_sessionId a) (sa_kind a) key j"
    and key: "sa_idempotencyKey a = Some key" "key \<noteq> []" "length key \<le> IDEMPOTENCY_KEY_MAX_LENGTH"
    and fp: "payloadFingerprint j = Some f" "f \<noteq> []" "f \<noteq> fingerprint_of env a"
    and checks: "start_checks env a = Inr ()"
  shows "startJob env faults a js js = (Inl (IdempotencyConflictError key), js)"
  using key checks fp key_row_unique [OF ok j]
  by (simp add: startJob_def Let_def dedup_select truthy_str_def)

text \<open>The wait for a child ends by the deadline at the latest.\<close>

lemma child_look_deadline: "deadline \<le> t \<Longrightarrow> child_look pid cid step deadline t js \<noteq> None"
  by (auto simp: child_look_def split: option.splits)

lemma await_child_ends:
  "n < fuel \<Longrightarrow> deadline \<le> clock (i + n) \<Longrightarrow> await_child fuel i pid cid step deadline clock tab \<noteq> None"
proof (induction fuel arbitrary: i n)
  case (Suc fuel)
  show ?case
  proof (cases n)
    case 0
    then show ?thesis using Suc.prems child_look_deadline [of deadline "clock i" pid cid step "tab i"] by (auto split: option.splits)
  next
    case (Suc n')
    then show ?thesis using Suc.prems Suc.IH [of n' "Suc i"] by (auto split: option.splits)
  qed
qed simp

lemma await_child_succeeded:
  "await_child fuel i pid cid step deadline clock tab = Some (Inr v) \<Longrightarrow>
     \<exists>n row. getJobById cid (tab n) = Some row \<and> status row = Succeeded \<and> v = json_of_text (job_result row)"
proof (induction fuel arbitrary: i)
  case (Suc fuel)
  then show ?case by (auto simp: child_look_def split: option.splits if_splits)
qed simp

end
