(* ===== verification/Semaphore.thy ===== *)
theory Semaphore
  imports Prelude
begin

text \<open>
  The counting semaphore of \<^verbatim>\<open>srv/submission/job-scheduler.ts\<close>, with its queue of waiting promises.
  A waiter is named by the job that waits. \<open>acquire\<close> answers whether the slot was granted at once;
  \<open>release\<close> names the waiter whose promise it resolves, to whom the slot passes without being
  returned to the pool.
\<close>

record 'w semaphore =
  sem_max :: int
  inFlight :: int
  waiters :: "'w list"

definition new_semaphore :: "int \<Rightarrow> 'w semaphore" where
  "new_semaphore m = \<lparr>sem_max = m, inFlight = 0, waiters = []\<rparr>"

definition acquire :: "'w \<Rightarrow> 'w semaphore \<Rightarrow> bool \<times> 'w semaphore" where
  "acquire w s =
     (if inFlight s < sem_max s then (True, s\<lparr>inFlight := inFlight s + 1\<rparr>)
      else (False, s\<lparr>waiters := waiters s @ [w]\<rparr>))"

definition release :: "'w semaphore \<Rightarrow> 'w option \<times> 'w semaphore" where
  "release s =
     (case waiters s of
        w # ws \<Rightarrow> (Some w, s\<lparr>waiters := ws\<rparr>)
      | [] \<Rightarrow> (None, s\<lparr>inFlight := max 0 (inFlight s - 1)\<rparr>))"

definition available :: "'w semaphore \<Rightarrow> int" where
  "available s = max 0 (sem_max s - inFlight s - int (length (waiters s)))"

section \<open>Runs of a semaphore\<close>

text \<open>
  The jobs that hold a slot are the environment's view. A job that was granted a slot, at once or
  by hand-over, holds it until it releases it once (the \<^verbatim>\<open>finally\<close> of \<^verbatim>\<open>dispatchJob\<close>).
\<close>

inductive sem_step :: "'w semaphore \<times> 'w list \<Rightarrow> 'w semaphore \<times> 'w list \<Rightarrow> bool" where
  granted: "acquire w s = (True, s') \<Longrightarrow> sem_step (s, hs) (s', w # hs)"
| queued: "acquire w s = (False, s') \<Longrightarrow> sem_step (s, hs) (s', hs)"
| handed: "h \<in> set hs \<Longrightarrow> release s = (Some w, s') \<Longrightarrow> sem_step (s, hs) (s', w # remove1 h hs)"
| freed: "h \<in> set hs \<Longrightarrow> release s = (None, s') \<Longrightarrow> sem_step (s, hs) (s', remove1 h hs)"

inductive sem_reach :: "int \<Rightarrow> 'w semaphore \<times> 'w list \<Rightarrow> bool" for m where
  start: "sem_reach m (new_semaphore m, [])"
| step: "sem_reach m st \<Longrightarrow> sem_step st st' \<Longrightarrow> sem_reach m st'"

definition sem_inv :: "int \<Rightarrow> 'w semaphore \<times> 'w list \<Rightarrow> bool" where
  "sem_inv m st \<longleftrightarrow>
     sem_max (fst st) = m \<and> inFlight (fst st) = int (length (snd st)) \<and> inFlight (fst st) \<le> max 0 m
     \<and> (waiters (fst st) \<noteq> [] \<longrightarrow> m \<le> inFlight (fst st))"

lemma sem_inv_start: "sem_inv m (new_semaphore m, [])"
  by (simp add: sem_inv_def new_semaphore_def)

lemma sem_inv_step: "sem_step st st' \<Longrightarrow> sem_inv m st \<Longrightarrow> sem_inv m st'"
proof (induction rule: sem_step.induct)
  case (granted w s s' hs)
  then show ?case by (auto simp: sem_inv_def acquire_def split: if_splits)
next
  case (queued w s s' hs)
  then show ?case by (auto simp: sem_inv_def acquire_def split: if_splits)
next
  case (handed h hs s w s')
  then have "length hs \<noteq> 0" by auto
  with handed show ?case
    by (auto simp: sem_inv_def release_def length_remove1 split: list.splits)
next
  case (freed h hs s s')
  then have "0 < length hs" by (auto simp: length_pos_if_in_set)
  then have "int (length (remove1 h hs)) = int (length hs) - 1"
    using freed(1) by (simp add: length_remove1 of_nat_diff Suc_le_eq)
  with freed \<open>0 < length hs\<close> show ?case
    by (auto simp: sem_inv_def release_def split: list.splits)
qed

lemma sem_reach_inv: "sem_reach m st \<Longrightarrow> sem_inv m st"
  by (induction rule: sem_reach.induct) (auto intro: sem_inv_start sem_inv_step)

end
