(* ===== verification/Job_Scheduler.thy ===== *)
theory Job_Scheduler
  imports Background_Jobs Semaphore
begin

text \<open>
  Starting jobs, settling what an execution ended with, reclaiming expired leases and polling
  (\<^verbatim>\<open>srv/submission/job-scheduler.ts\<close>).

  \<^verbatim>\<open>dispatchJob\<close> is one asynchronous function; its database steps interleave with everything else.
  Its claim is \<^const>\<open>markRunning\<close>; what it does with a result and what it does with an error
  are the definitions \<open>settle_result\<close> and \<open>settle_error\<close>. Logging is left out.
\<close>

section \<open>After the work\<close>

definition superseded :: "job option \<Rightarrow> bool" where
  "superseded cur = (case cur of Some c \<Rightarrow> status c = Failed \<and> errorCode c = Some ''SUPERSEDED'' | None \<Rightarrow> False)"

definition RESULT_PERSIST_FAILED_MESSAGE :: string where
  "RESULT_PERSIST_FAILED_MESSAGE = ''The job work completed but its result could not be persisted (database lock contention or a lost worker lease). On-chain effects may exist; verify chain state before retrying.''"

text \<open>The work returned: record the result; if that fails, fail the job unless it was superseded.\<close>

definition settle_result :: "job_env \<Rightarrow> faults \<Rightarrow> faults \<Rightarrow> string \<Rightarrow> json \<Rightarrow> jobs \<Rightarrow> jobs" where
  "settle_result env faults faults' i res js =
     (case markSucceeded env faults i res js of
        (Inr _, js') \<Rightarrow> js'
      | (Inl _, js') \<Rightarrow>
          if superseded (getJobById i js') then js'
          else markFailed env faults' i ''RESULT_PERSIST_FAILED'' RESULT_PERSIST_FAILED_MESSAGE js')"

text \<open>
  The work threw. What the code asks of the error: whether it requests reconciliation, its
  classification (\<^verbatim>\<open>classifySubmissionError\<close>), whether the transaction landed without its call
  applied (\<^verbatim>\<open>isCallNotAppliedFailure\<close>) and the block height it carried, and whether it is the
  bookkeeping error of a rejected attempt.
\<close>

record work_error =
  we_code :: string
  we_message :: string
  we_notApplied :: bool
  we_carriedHeight :: "int option"
  we_bookkeeping :: "string option"

datatype work_exc = NeedsReconciliation string | WorkError work_error

definition hash_of :: "job \<Rightarrow> string" where
  "hash_of j = (case txHash j of Some h \<Rightarrow> h | None \<Rightarrow> [])"

definition unconfirmed_message :: "job \<Rightarrow> work_error \<Rightarrow> string" where
  "unconfirmed_message cur e =
     ''Broadcast of '' @ hash_of cur @ '' is unconfirmed: '' @ we_message e
     @ ''. The job ends succeeded or failed once the indexer shows the transaction, or failed/'' @ BROADCAST_NOT_INCLUDED
     @ '' once the indexer tip is past its validity window; a new attempt needs a new idempotencyKey either way.''"

definition settle_error :: "rec_env \<Rightarrow> faults \<Rightarrow> faults \<Rightarrow> confirmer option \<Rightarrow> string \<Rightarrow> work_exc \<Rightarrow> jdb \<Rightarrow> jdb" where
  "settle_error env faults faults' confirmer i exc db =
     (case exc of
        NeedsReconciliation m \<Rightarrow>
          db\<lparr>db_jobs := markReconciliationRequired (base env) faults i ''CHILD_RECONCILIATION_REQUIRED'' m (db_jobs db)\<rparr>
      | WorkError e \<Rightarrow>
          (let cur = getJobById i (db_jobs db);
               announced = (case cur of Some c \<Rightarrow> truthy_str (txHash c) | None \<Rightarrow> False)
           in if superseded cur then db
              else if announced \<and> identifierKeyed (jobKindTraits (reg env) (kind (the cur))) \<and> we_notApplied e
              then markChainFailureAfterBroadcast env faults faults' confirmer i (the cur) (we_carriedHeight e) db
              else if we_bookkeeping e \<noteq> None \<and> announced
              then db\<lparr>db_jobs := markReconciliationRequired (base env) faults i REJECTED_ATTEMPT_BOOKKEEPING_PENDING (the (we_bookkeeping e)) (db_jobs db)\<rparr>
              else if announced \<and> we_code e = ''SubmitAmbiguous''
              then db\<lparr>db_jobs := markReconciliationRequired (base env) faults i BROADCAST_UNCONFIRMED (unconfirmed_message (the cur) e) (db_jobs db)\<rparr>
              else if announced
              then db\<lparr>db_jobs := markReconciliationRequired (base env) faults i ''EXTERNAL_EXECUTION_FAILED''
                       (''Execution failed after broadcasting '' @ hash_of (the cur) @ ''; verify chain state before retrying. '' @ we_message e) (db_jobs db)\<rparr>
              else db\<lparr>db_jobs := markFailed (base env) faults i (we_code e) (we_message e) (db_jobs db)\<rparr>))"

section \<open>Expired leases\<close>

definition MAX_LEASE_RECLAIMS :: int where "MAX_LEASE_RECLAIMS = 3"

definition opt_lt :: "int option \<Rightarrow> int \<Rightarrow> bool" where
  "opt_lt v n = (case v of Some x \<Rightarrow> x < n | None \<Rightarrow> False)"

definition silent :: "int \<Rightarrow> job \<Rightarrow> bool" where
  "silent cutoff j \<longleftrightarrow> status j = Running \<and> opt_lt (heartbeatAt j) cutoff"

definition neverBeat :: "int \<Rightarrow> job \<Rightarrow> bool" where
  "neverBeat cutoff j \<longleftrightarrow> status j = Running \<and> heartbeatAt j = None \<and> opt_lt (startedAt j) cutoff"

text \<open>The guard that a heartbeat in between defeats: owner and heartbeat are as they were read.\<close>

definition reclaim_guard :: "job \<Rightarrow> job \<Rightarrow> bool" where
  "reclaim_guard row j \<longleftrightarrow> ID j = ID row \<and> status j = Running \<and> leaseOwner j = leaseOwner row \<and> heartbeatAt j = heartbeatAt row"

definition reclaim_reason :: "job \<Rightarrow> string option" where
  "reclaim_reason row =
     (if commandVersion row = None \<or> commandVersion row = Some 0 then Some ''its work was an in-process closure that died with the lease owner''
      else if attempt_no row + 1 > MAX_LEASE_RECLAIMS + 1 then Some (''its lease expired '' @ int_str (attempt_no row) @ '' times'')
      else None)"

definition reclaim_patch :: "job_env \<Rightarrow> job \<Rightarrow> job \<Rightarrow> job" where
  "reclaim_patch env row j =
     (case reclaim_reason row of
        Some why \<Rightarrow>
          end_patch env ''LEASE_EXPIRED''
            (take 4000 (''no heartbeat from '' @ (case leaseOwner row of Some w \<Rightarrow> w | None \<Rightarrow> ''unknown owner'') @ '' for more than ''
               @ int_str (leaseTtl env) @ '' ms; '' @ why)) j
      | None \<Rightarrow> clear_lease (j\<lparr>status := Pending, attempt_no := attempt_no row + 1, startedAt := None\<rparr>))"

fun reclaim_rows :: "job_env \<Rightarrow> job_faults \<Rightarrow> jobs \<Rightarrow> nat \<Rightarrow> jobs \<Rightarrow> nat result \<times> jobs" where
  "reclaim_rows env flt [] n js = (Inr n, js)"
| "reclaim_rows env flt (row # rows) n js =
     (case withLockContentionRetry (db_write (flt (ID row)) (update_where (reclaim_guard row) (reclaim_patch env row))) js of
        (Inl e, js') \<Rightarrow> (Inl e, js')
      | (Inr k, js') \<Rightarrow> reclaim_rows env flt rows (if k = 1 then Suc n else n) js')"

definition reclaimExpiredLeases :: "job_env \<Rightarrow> job_faults \<Rightarrow> jobs \<Rightarrow> nat result \<times> jobs" where
  "reclaimExpiredLeases env flt js =
     (let cutoff = now env - leaseTtl env in
      reclaim_rows env flt (take SCAN_PAGE_SIZE (filter (silent cutoff) js) @ take SCAN_PAGE_SIZE (filter (neverBeat cutoff) js)) 0 js)"

section \<open>The poll\<close>

text \<open>
  The jobs one poll dispatches, oldest first: pending with a stored command, not being
  started already, with a registered processor, and within the free slots of their class.
\<close>

fun poll_pick :: "registry \<Rightarrow> string set \<Rightarrow> (string \<Rightarrow> int) \<Rightarrow> (string \<rightharpoonup> int) \<Rightarrow> jobs \<Rightarrow> string list" where
  "poll_pick r dispatching avail budget [] = []"
| "poll_pick r dispatching avail budget (j # rows) =
     (if ID j \<in> dispatching then poll_pick r dispatching avail budget rows
      else if processorKey (kind j) (case commandVersion j of Some v \<Rightarrow> v | None \<Rightarrow> 0) \<notin> set (map fst (processors r))
      then poll_pick r dispatching avail budget rows
      else
        (let key = fst (concurrencyClass r (kind j));
             free = (case budget key of Some n \<Rightarrow> n | None \<Rightarrow> avail key)
         in if free \<le> 0 then poll_pick r dispatching avail budget rows
            else ID j # poll_pick r dispatching avail (budget(key \<mapsto> free - 1)) rows))"

definition poll_candidates :: "jobs \<Rightarrow> jobs" where
  "poll_candidates js = take 100 (filter (\<lambda>j. status j = Pending \<and> commandVersion j \<noteq> None) js)"

definition poll_dispatch :: "registry \<Rightarrow> string set \<Rightarrow> (string \<Rightarrow> int) \<Rightarrow> jobs \<Rightarrow> string list" where
  "poll_dispatch r dispatching avail js = poll_pick r dispatching avail Map.empty (poll_candidates js)"

section \<open>Facts\<close>

lemma truthy_hash: "truthy_str (txHash c) \<Longrightarrow> txHash c \<noteq> None"
  by (auto simp: truthy_str_def split: option.splits)

interpretation reclaim: job_update parent "reclaim_guard row" "reclaim_patch env row" for parent row env
  by unfold_locales
     (auto simp: reclaim_patch_def reclaim_guard_def job_patch_defs job_identity_def job_ok_def in_flight_def closed_failure_def split: option.splits)

lemma reclaim_rows_ok: "evolved parent js0 js \<Longrightarrow> evolved parent js0 (snd (reclaim_rows env flt rows n js))"
proof (induction rows arbitrary: n js)
  case (Cons row rows)
  have ok: "evolved parent js0 (snd (withLockContentionRetry (db_write (flt (ID row)) (update_where (reclaim_guard row) (reclaim_patch env row))) js))"
    by (rule retried_update_ok [OF reclaim.update_step Cons.prems])
  then show ?case using Cons.IH by (auto split: sum.splits prod.splits)
qed simp

lemma reclaimExpiredLeases_ok: "evolved parent js0 js \<Longrightarrow> evolved parent js0 (snd (reclaimExpiredLeases env flt js))"
  by (simp add: reclaimExpiredLeases_def Let_def reclaim_rows_ok)

lemma mark_ok:
  assumes "evolved parent js0 js"
  shows "evolved parent js0 (snd (markRunning env faults i js))"
    and "evolved parent js0 (snd (markSucceeded env faults i res js))"
    and "evolved parent js0 (markFailed env faults i c m js)"
    and "evolved parent js0 (markReconciliationRequired env faults i c m js)"
    and "evolved parent js0 (lease_heartbeat env fault i js)"
    and "evolved parent js0 (snd (markJobExternalExecution env faults i sub js))"
    and "evolved parent js0 (snd (markJobBroadcastOn env i sub hash first js))"
    and "evolved parent js0 (snd (markJobSubmissionRejectedOn env i sub hash js))"
    and "evolved parent js0 (snd (markJobSubmitted env faults i sub hash js))"
    and "evolved parent js0 (snd (supersedeQueuedJobs env inReq faults k sid excl js))"
proof -
  show "evolved parent js0 (snd (markRunning env faults i js))"
    using evolved_step [OF running.retried_step assms, of faults i env]
    by (auto simp: markRunning_def split: prod.splits sum.splits)
  show "evolved parent js0 (snd (markSucceeded env faults i res js))"
    using evolved_step [OF succeeded.retried_leased_step assms] by (simp add: markSucceeded_def)
  show "evolved parent js0 (markFailed env faults i c m js)"
    using evolved_step [OF failed.retried_leased_step assms] by (simp add: markFailed_def)
  show "evolved parent js0 (markReconciliationRequired env faults i c m js)"
    using assms by (rule markReconciliationRequired_ok)
  show "evolved parent js0 (lease_heartbeat env fault i js)"
    using evolved_step [OF heartbeat.single_step assms] by (simp add: lease_heartbeat_def)
  show "evolved parent js0 (snd (markJobExternalExecution env faults i sub js))"
    using evolved_step [OF external.retried_step assms, of faults env i sub]
    by (auto simp: markJobExternalExecution_def split: prod.splits sum.splits option.splits)
  show "evolved parent js0 (snd (markJobBroadcastOn env i sub hash first js))"
    using evolved_step [OF broadcast.update_step assms, of env i first sub hash]
    by (auto simp: markJobBroadcastOn_def split: prod.splits)
  show "evolved parent js0 (snd (markJobSubmissionRejectedOn env i sub hash js))"
    using evolved_step [OF rejected.update_step assms, of env i hash sub]
    by (auto simp: markJobSubmissionRejectedOn_def split: prod.splits)
  show "evolved parent js0 (snd (markJobSubmitted env faults i sub hash js))"
    using evolved_step [OF submitted.retried_step assms, of faults env i sub hash]
    by (auto simp: markJobSubmitted_def split: prod.splits sum.splits)
  show "evolved parent js0 (snd (supersedeQueuedJobs env inReq faults k sid excl js))"
    using evolved_step [OF supersede.retried_step assms, of faults k sid excl env]
      evolved_step [OF supersede.single_step assms, of faults k sid excl env]
    by (simp add: supersedeQueuedJobs_def Let_def)
qed

lemma drop_chunks_ok: "evolved parent js0 js \<Longrightarrow> evolved parent js0 (snd (drop_chunks env faults c sids n js))"
proof (induction sids arbitrary: c n js)
  case (Cons s sids)
  have "evolved parent js0 (snd (db_write faults (update_where (drop_guard s) (end_patch env code m)) c js))" for code m
    by (rule evolved_step [OF dropping.single_step Cons.prems])
  then show ?case using Cons.IH by (auto split: sum.splits prod.splits) (metis snd_conv)+
qed simp

lemma dropPendingJobs_ok:
  assumes "evolved parent js0 js" shows "evolved parent js0 (snd (dropPendingJobsForClosedSessions env faults sids js))"
proof -
  have "evolved parent js0 (snd (withLockContentionRetry (\<lambda>n. drop_chunks env (faults n) 0 (chunks_of 200 sids) 0) js))"
    by (rule retry_keeps [where P = "evolved parent js0"]) (use assms drop_chunks_ok in blast)+
  with assms show ?thesis by (simp add: dropPendingJobsForClosedSessions_def)
qed

lemma settle_result_ok: "evolved parent js0 js \<Longrightarrow> evolved parent js0 (settle_result env faults faults' i res js)"
  using mark_ok(2) [of parent js0 js env faults i res] mark_ok(3)
  by (auto simp: settle_result_def split: prod.splits sum.splits)

lemma settle_error_ok:
  "finalizers_keep_jobs env \<Longrightarrow> jdb_ok parent js0 db \<Longrightarrow> jdb_ok parent js0 (settle_error env faults faults' confirmer i exc db)"
  by (auto simp: settle_error_def Let_def intro: mark_ok(3,4) markChainFailureAfterBroadcast_ok split: work_exc.splits)

end
