(* ===== verification/Scale.thy ===== *)
theory Scale
  imports Prelude
begin

text \<open>
  SCALE decoding of compact integers and extrinsics (\<^verbatim>\<open>srv/utils/scale.ts\<close>), with the reader of
  \<^verbatim>\<open>System.LastRuntimeUpgrade\<close> of \<^verbatim>\<open>srv/crawler/BlockProcessor.ts\<close>. A \<^verbatim>\<open>Buffer\<close> is a list of
  bytes, each an \<^typ>\<open>8 word\<close>; offsets and lengths are naturals. The specification is the
  SCALE encoding, and the main facts are that the decoders invert it and never read past the end.
\<close>

unbundle bit_operations_syntax

type_synonym bytes = "8 word list"

definition MAX_SAFE_NAT :: nat where "MAX_SAFE_NAT = 2 ^ 53 - 1"

section \<open>Buffers\<close>

definition hex_val :: "char \<Rightarrow> nat option" where
  "hex_val c =
     (let n = of_char c :: nat in
      if 48 \<le> n \<and> n \<le> 57 then Some (n - 48)
      else if 97 \<le> n \<and> n \<le> 102 then Some (n - 87)
      else if 65 \<le> n \<and> n \<le> 70 then Some (n - 55) else None)"

text \<open>\<^verbatim>\<open>Buffer.from(s, 'hex')\<close>: whole bytes up to the first pair that is not hexadecimal.\<close>

fun from_hex :: "string \<Rightarrow> bytes" where
  "from_hex (a # b # cs) =
     (case (hex_val a, hex_val b) of
        (Some x, Some y) \<Rightarrow> word_of_nat (16 * x + y) # from_hex cs
      | _ \<Rightarrow> [])"
| "from_hex cs = []"

text \<open>\<^verbatim>\<open>buf.toString('hex')\<close>.\<close>

definition to_hex :: "bytes \<Rightarrow> string" where
  "to_hex bs = concat (map (\<lambda>b. [hex_digit (unat b div 16), hex_digit (unat b mod 16)]) bs)"

text \<open>\<^verbatim>\<open>readUInt16LE\<close>, \<^verbatim>\<open>readUInt32LE\<close> and the loop of the big-integer mode: a little-endian number.\<close>

fun le_val :: "bytes \<Rightarrow> nat" where
  "le_val [] = 0"
| "le_val (b # bs) = unat b + 256 * le_val bs"

definition slice :: "bytes \<Rightarrow> nat \<Rightarrow> nat \<Rightarrow> bytes" where
  "slice buf a n = take n (drop a buf)"

section \<open>Compact integers\<close>

definition decodeCompactBigInt :: "bytes \<Rightarrow> nat \<Rightarrow> (nat \<times> nat) option" where
  "decodeCompactBigInt buf offset =
     (if length buf \<le> offset then None
      else
        (let b = buf ! offset; mode = b AND 3 in
         if mode = 0 then Some (unat (drop_bit 2 b), 1)
         else if mode = 1 then
           (if length buf \<le> offset + 1 then None else Some (drop_bit 2 (le_val (slice buf offset 2)), 2))
         else if mode = 2 then
           (if length buf \<le> offset + 3 then None else Some (drop_bit 2 (le_val (slice buf offset 4)), 4))
         else
           (let byteLength = unat (drop_bit 2 b) + 4 in
            if length buf < offset + 1 + byteLength then None
            else Some (le_val (slice buf (offset + 1) byteLength), 1 + byteLength))))"

definition decodeCompact :: "bytes \<Rightarrow> nat \<Rightarrow> (nat \<times> nat) option" where
  "decodeCompact buf offset =
     (case decodeCompactBigInt buf offset of
        None \<Rightarrow> None
      | Some (v, consumed) \<Rightarrow> if MAX_SAFE_NAT < v then Some (0, consumed) else Some (v, consumed))"

text \<open>\<^verbatim>\<open>BlockProcessor.decodeLastRuntimeUpgrade\<close>: the same integer without the big-integer mode.\<close>

definition decodeLastRuntimeUpgrade :: "string \<Rightarrow> nat option" where
  "decodeLastRuntimeUpgrade hex =
     (let bs = from_hex (bareHex hex) in
      if length bs = 0 then None
      else if bs ! 0 AND 3 = 0 then Some (unat (drop_bit 2 (bs ! 0)))
      else if bs ! 0 AND 3 = 1 then (if 2 \<le> length bs then Some (drop_bit 2 (le_val (slice bs 0 2))) else None)
      else if bs ! 0 AND 3 = 2 then (if 4 \<le> length bs then Some (drop_bit 2 (le_val (slice bs 0 4))) else None)
      else None)"

section \<open>Extrinsics\<close>

definition parseAddress :: "bytes \<Rightarrow> nat \<Rightarrow> (string \<times> nat) option" where
  "parseAddress buf offset =
     (if length buf \<le> offset then None
      else
        (let type = buf ! offset; cursor = offset + 1 in
         if type = 0x00 \<or> type = 0xff \<or> type = 0x03 then
           (if length buf < cursor + 32 then None else Some (''0x'' @ to_hex (slice buf cursor 32), cursor + 32))
         else if type = 0x04 then
           (if length buf < cursor + 20 then None else Some (''0x'' @ to_hex (slice buf cursor 20), cursor + 20))
         else if type = 0x01 then
           (case decodeCompactBigInt buf cursor of
              None \<Rightarrow> None
            | Some (i, n) \<Rightarrow> Some (''index:'' @ nat_str i, cursor + n))
         else if type = 0x02 then
           (case decodeCompactBigInt buf cursor of
              None \<Rightarrow> None
            | Some (byteLength, n) \<Rightarrow>
                if MAX_SAFE_NAT < byteLength then None
                else if length buf < cursor + n + byteLength then None
                else Some (''0x'' @ to_hex (slice buf (cursor + n) byteLength), cursor + n + byteLength))
         else None))"

text \<open>What follows the version byte of a signed extrinsic: signer, signature, era, nonce and tip.\<close>

definition skip_signature :: "bytes \<Rightarrow> nat \<Rightarrow> nat option" where
  "skip_signature buf offset =
     (if length buf \<le> offset then None
      else
        (let sigType = buf ! offset; sigLength = (if sigType = 0x02 then 65 else 64) in
         if sigType \<noteq> 0x00 \<and> sigType \<noteq> 0x01 \<and> sigType \<noteq> 0x02 then None
         else if length buf < offset + 1 + sigLength then None
         else Some (offset + 1 + sigLength)))"

definition skip_era :: "bytes \<Rightarrow> nat \<Rightarrow> nat option" where
  "skip_era buf offset =
     (if length buf \<le> offset then None
      else if buf ! offset = 0x00 then Some (offset + 1)
      else if length buf \<le> offset + 1 then None
      else Some (offset + 2))"

definition skip_compact :: "bytes \<Rightarrow> nat \<Rightarrow> nat option" where
  "skip_compact buf offset = map_option (\<lambda>(_, n). offset + n) (decodeCompact buf offset)"

definition signed_part :: "bytes \<Rightarrow> nat \<Rightarrow> (string \<times> nat) option" where
  "signed_part buf offset =
     (case parseAddress buf offset of
        None \<Rightarrow> None
      | Some (signer, next) \<Rightarrow>
          map_option (Pair signer)
            (Option.bind (Option.bind (Option.bind (skip_signature buf next) (skip_era buf)) (skip_compact buf)) (skip_compact buf)))"

record extrinsic_core =
  ec_buf :: bytes
  ec_isSigned :: bool
  ec_palletIndex :: nat
  ec_callIndex :: nat
  ec_argsOffset :: nat
  ec_senderAddress :: "string option"

definition call_at :: "bytes \<Rightarrow> bool \<Rightarrow> string option \<Rightarrow> nat \<Rightarrow> extrinsic_core option" where
  "call_at buf isSigned sender offset =
     (if length buf \<le> offset + 1 then None
      else Some \<lparr>ec_buf = buf, ec_isSigned = isSigned, ec_palletIndex = unat (buf ! offset), ec_callIndex = unat (buf ! (offset + 1)),
                 ec_argsOffset = offset + 2, ec_senderAddress = sender\<rparr>)"

definition parseExtrinsicCore :: "string \<Rightarrow> extrinsic_core option" where
  "parseExtrinsicCore hex =
     (if length hex < 8 \<or> length (bareHex hex) < 8 then None
      else
        (let buf = from_hex (bareHex hex) in
         if length buf < 4 then None
         else
           (case decodeCompact buf 0 of
              None \<Rightarrow> None
            | Some (_, offset) \<Rightarrow>
                if length buf \<le> offset then None
                else if (buf ! offset) AND 0x80 \<noteq> 0
                then (case signed_part buf (offset + 1) of
                        None \<Rightarrow> None
                      | Some (sender, next) \<Rightarrow> call_at buf True (Some sender) next)
                else call_at buf False None (offset + 1))))"

definition parseExtrinsicCall :: "string \<Rightarrow> (bytes \<times> nat \<times> nat \<times> nat) option" where
  "parseExtrinsicCall hex =
     map_option (\<lambda>c. (ec_buf c, ec_palletIndex c, ec_callIndex c, ec_argsOffset c)) (parseExtrinsicCore hex)"

definition parseExtrinsicCallIndices :: "string \<Rightarrow> (nat \<times> nat) option" where
  "parseExtrinsicCallIndices hex = map_option (\<lambda>c. (ec_palletIndex c, ec_callIndex c)) (parseExtrinsicCore hex)"

section \<open>The encoding the decoders invert\<close>

fun le_bytes :: "nat \<Rightarrow> nat \<Rightarrow> bytes" where
  "le_bytes 0 v = []"
| "le_bytes (Suc n) v = word_of_nat (v mod 256) # le_bytes n (v div 256)"

text \<open>The number of bytes of the big-integer mode: at least four, and enough.\<close>

fun byte_len :: "nat \<Rightarrow> nat" where
  "byte_len v = (if v < 256 then 1 else Suc (byte_len (v div 256)))"

declare byte_len.simps [simp del]

definition encodeCompact :: "nat \<Rightarrow> bytes" where
  "encodeCompact v =
     (if v < 2 ^ 6 then [word_of_nat (4 * v)]
      else if v < 2 ^ 14 then le_bytes 2 (4 * v + 1)
      else if v < 2 ^ 30 then le_bytes 4 (4 * v + 2)
      else word_of_nat (4 * (byte_len v - 4) + 3) # le_bytes (byte_len v) v)"

datatype address = Id bytes | Index nat | Raw bytes | Address32 bytes | Address20 bytes

fun encodeAddress :: "address \<Rightarrow> bytes" where
  "encodeAddress (Id bs) = 0x00 # bs"
| "encodeAddress (Index i) = 0x01 # encodeCompact i"
| "encodeAddress (Raw bs) = 0x02 # encodeCompact (length bs) @ bs"
| "encodeAddress (Address32 bs) = 0x03 # bs"
| "encodeAddress (Address20 bs) = 0x04 # bs"

fun address_ok :: "address \<Rightarrow> bool" where
  "address_ok (Id bs) = (length bs = 32)"
| "address_ok (Index i) = (i < 256 ^ 67)"
| "address_ok (Raw bs) = (length bs \<le> MAX_SAFE_NAT)"
| "address_ok (Address32 bs) = (length bs = 32)"
| "address_ok (Address20 bs) = (length bs = 20)"

fun address_text :: "address \<Rightarrow> string" where
  "address_text (Id bs) = ''0x'' @ to_hex bs"
| "address_text (Index i) = ''index:'' @ nat_str i"
| "address_text (Raw bs) = ''0x'' @ to_hex bs"
| "address_text (Address32 bs) = ''0x'' @ to_hex bs"
| "address_text (Address20 bs) = ''0x'' @ to_hex bs"

text \<open>An era is one zero byte or two bytes that do not start with zero; a signature has its type first.\<close>

definition era_ok :: "bytes \<Rightarrow> bool" where
  "era_ok era \<longleftrightarrow> era = [0] \<or> (\<exists>a b. a \<noteq> 0 \<and> era = [a, b])"

definition signature_ok :: "bytes \<Rightarrow> bool" where
  "signature_ok sig = (case sig of [] \<Rightarrow> False | t # s \<Rightarrow> (t = 0 \<or> t = 1) \<and> length s = 64 \<or> t = 2 \<and> length s = 65)"

record signed_ext =
  sx_signer :: address
  sx_signature :: bytes
  sx_era :: bytes
  sx_nonce :: nat
  sx_tip :: nat

definition signed_ext_ok :: "signed_ext \<Rightarrow> bool" where
  "signed_ext_ok x \<longleftrightarrow> address_ok (sx_signer x) \<and> signature_ok (sx_signature x) \<and> era_ok (sx_era x)
     \<and> sx_nonce x < 256 ^ 67 \<and> sx_tip x < 256 ^ 67"

definition encodeSigned :: "signed_ext \<Rightarrow> bytes" where
  "encodeSigned x = encodeAddress (sx_signer x) @ sx_signature x @ sx_era x @ encodeCompact (sx_nonce x) @ encodeCompact (sx_tip x)"

section \<open>Facts\<close>

lemma le_val_bytes: "v < 256 ^ n \<Longrightarrow> le_val (le_bytes n v) = v"
proof (induction n arbitrary: v)
  case (Suc n)
  have "v div 256 < 256 ^ n" using Suc.prems by (simp add: less_mult_imp_div_less mult.commute)
  moreover have "unat (word_of_nat (v mod 256) :: 8 word) = v mod 256"
    by (simp add: unat_of_nat)
  ultimately show ?case using Suc.IH [of "v div 256"] by simp
qed simp

lemma le_bytes_length [simp]: "length (le_bytes n v) = n"
  by (induction n arbitrary: v) simp_all

lemma le_val_bound: "le_val bs < 256 ^ length bs"
proof (induction bs)
  case (Cons b bs)
  have "unat b < 2 ^ LENGTH(8)" by (rule unsigned_less)
  then have "unat b < 256" by simp
  with Cons show ?case by simp
qed simp

lemma byte_len_bound: "v < 256 ^ byte_len v"
proof (induction v rule: byte_len.induct)
  case (1 v)
  show ?case
  proof (cases "v < 256")
    case True then show ?thesis by (subst byte_len.simps) simp
  next
    case False
    then have "v div 256 < 256 ^ byte_len (v div 256)" using 1 by blast
    then have "v < 256 * 256 ^ byte_len (v div 256)" by (simp add: div_less_iff_less_mult mult.commute)
    with False show ?thesis by (subst byte_len.simps) simp
  qed
qed

lemma byte_len_least: "0 < n \<Longrightarrow> v < 256 ^ n \<Longrightarrow> byte_len v \<le> n"
proof (induction n arbitrary: v)
  case (Suc n)
  show ?case
  proof (cases "v < 256")
    case True then show ?thesis by (subst byte_len.simps) simp
  next
    case False
    then have "0 < n" using Suc.prems by (cases n) auto
    moreover have "v div 256 < 256 ^ n" using Suc.prems by (simp add: less_mult_imp_div_less mult.commute)
    ultimately have "byte_len (v div 256) \<le> n" using Suc.IH by blast
    with False show ?thesis by (subst byte_len.simps) simp
  qed
qed simp

lemma byte_len_at_least: "256 ^ n \<le> v \<Longrightarrow> n < byte_len v"
proof (rule ccontr)
  assume v: "256 ^ n \<le> v" and "\<not> n < byte_len v"
  then have "(256 :: nat) ^ byte_len v \<le> 256 ^ n" by (intro power_increasing) simp_all
  with v byte_len_bound [of v] show False by linarith
qed

lemma mode_bits: "unat (b AND 3 :: 8 word) = unat b mod 4"
proof -
  have "b AND 3 = take_bit 2 b" by (simp add: take_bit_eq_mask mask_eq_exp_minus_1)
  then show ?thesis by (simp add: take_bit_eq_mod unat_mod)
qed

lemma mode_iff: "(b AND 3 :: 8 word) = 0 \<longleftrightarrow> unat b mod 4 = 0" "(b AND 3 :: 8 word) = 1 \<longleftrightarrow> unat b mod 4 = 1"
    "(b AND 3 :: 8 word) = 2 \<longleftrightarrow> unat b mod 4 = 2"
  using mode_bits [of b] by (auto simp: word_eq_iff_unsigned unat_eq_nat_uint [symmetric] word_unat_eq_iff)

lemma drop2: "unat (drop_bit 2 (b :: 8 word)) = unat b div 4"
  by (simp add: drop_bit_eq_div unat_div)

lemma drop_Cons_nth: "drop off buf = b # rest \<Longrightarrow> off < length buf \<and> buf ! off = b \<and> drop (Suc off) buf = rest"
  by (metis drop_eq_Nil2 hd_drop_conv_nth leI list.distinct(1) list.sel(1) list.sel(3) tl_drop drop_Suc)

lemma drop_append_add: "drop off buf = xs @ ys \<Longrightarrow> drop (off + length xs) buf = ys"
  by (metis add.commute append_eq_conv_conj drop_drop)

lemma drop_append_le: "drop off buf = xs @ ys \<Longrightarrow> xs \<noteq> [] \<Longrightarrow> off + length xs + length ys = length buf"
  by (metis add.assoc append_is_Nil_conv drop_eq_Nil2 le_add_diff_inverse length_append length_drop nle_le)

lemma slice_at: "drop off buf = xs @ ys \<Longrightarrow> n = length xs \<Longrightarrow> slice buf off n = xs"
  by (simp add: slice_def)

lemma unat_word_of_nat8: "n < 256 \<Longrightarrow> unat (word_of_nat n :: 8 word) = n"
  by (simp add: unat_of_nat)

lemma encodeCompact_not_Nil [simp]: "encodeCompact v \<noteq> []"
proof -
  have "0 < length (encodeCompact v)" by (simp add: encodeCompact_def del: length_greater_0_conv)
  then show ?thesis by (metis length_greater_0_conv)
qed

text \<open>The decoder in arithmetic.\<close>

lemma decode_arith:
  "decodeCompactBigInt buf off =
     (if length buf \<le> off then None
      else if unat (buf ! off) mod 4 = 0 then Some (unat (buf ! off) div 4, 1)
      else if unat (buf ! off) mod 4 = 1 then
        (if length buf \<le> off + 1 then None else Some (le_val (slice buf off 2) div 4, 2))
      else if unat (buf ! off) mod 4 = 2 then
        (if length buf \<le> off + 3 then None else Some (le_val (slice buf off 4) div 4, 4))
      else if length buf < off + 1 + (unat (buf ! off) div 4 + 4) then None
      else Some (le_val (slice buf (off + 1) (unat (buf ! off) div 4 + 4)), 1 + (unat (buf ! off) div 4 + 4)))"
  unfolding decodeCompactBigInt_def Let_def mode_iff drop2 by (simp only: drop_bit_eq_div) simp

lemma le_bytes_pos: "0 < n \<Longrightarrow> le_bytes n v = word_of_nat (v mod 256) # le_bytes (n - 1) (v div 256)"
  by (cases n) simp_all

lemma decode_word_mode:
  assumes d: "drop off buf = le_bytes n (4 * v + m) @ post" and m: "m = 1 \<and> n = 2 \<or> m = 2 \<and> n = 4"
    and v: "4 * v + m < 256 ^ n"
  shows "decodeCompactBigInt buf off = Some (v, n)"
proof -
  have n: "0 < n" using m by auto
  have b: "off < length buf" "buf ! off = word_of_nat ((4 * v + m) mod 256)"
    using d drop_Cons_nth [of off buf] by (auto simp: le_bytes_pos [OF n])
  have mode: "unat (buf ! off) mod 4 = m"
    unfolding b(2) using m by (subst unat_word_of_nat8) (auto simp: mod_mod_cancel)
  have len: "off + n \<le> length buf"
    using drop_append_le [OF d] n by (cases n) auto
  have val: "le_val (slice buf off n) = 4 * v + m"
    using slice_at [OF d] le_val_bytes [OF v] by simp
  show ?thesis
    using m
  proof
    assume "m = 1 \<and> n = 2"
    then show ?thesis using b(1) mode len val unfolding decode_arith by auto
  next
    assume "m = 2 \<and> n = 4"
    then show ?thesis using b(1) mode len val unfolding decode_arith by auto
  qed
qed

lemma decode_big_mode:
  assumes d: "drop off buf = word_of_nat (4 * (k - 4) + 3) # le_bytes k v @ post" and k: "4 \<le> k" "k \<le> 67"
    and v: "v < 256 ^ k"
  shows "decodeCompactBigInt buf off = Some (v, Suc k)"
proof -
  have b: "off < length buf" "buf ! off = word_of_nat (4 * (k - 4) + 3)" "drop (Suc off) buf = le_bytes k v @ post"
    using d drop_Cons_nth [of off buf] by auto
  have u: "unat (buf ! off) = 4 * (k - 4) + 3"
    unfolding b(2) by (rule unat_word_of_nat8) (use k in linarith)
  have len: "off + 1 + k \<le> length buf"
    using drop_append_le [OF b(3)] k by (cases k) simp_all
  have val: "le_val (slice buf (off + 1) k) = v" using slice_at [OF b(3)] le_val_bytes [OF v] by simp
  obtain j where j: "k = j + 4" using k(1) by (metis add.commute le_Suc_ex)
  have m: "unat (buf ! off) mod 4 = 3" and q: "unat (buf ! off) div 4 + 4 = k" using u by (simp_all add: j)
  have "\<not> length buf \<le> off" "\<not> length buf < off + 1 + k" using b(1) len by simp_all
  then show ?thesis unfolding decode_arith q m val by simp
qed

lemma decode_at:
  assumes d: "drop off buf = encodeCompact v @ post" and v: "v < 256 ^ 67"
  shows "decodeCompactBigInt buf off = Some (v, length (encodeCompact v))"
proof -
  consider "v < 2 ^ 6" | "2 ^ 6 \<le> v" "v < 2 ^ 14" | "2 ^ 14 \<le> v" "v < 2 ^ 30" | "2 ^ 30 \<le> v" by linarith
  then show ?thesis
  proof cases
    case 1
    then have e: "encodeCompact v = [word_of_nat (4 * v)]" by (simp add: encodeCompact_def)
    with d have "off < length buf" "buf ! off = word_of_nat (4 * v)" using drop_Cons_nth [of off buf] by auto
    moreover from 1 have "unat (word_of_nat (4 * v) :: 8 word) = 4 * v" by (intro unat_word_of_nat8) simp
    ultimately show ?thesis by (simp add: decodeCompactBigInt_def Let_def mode_iff drop2 e)
  next
    case 2
    then have e: "encodeCompact v = le_bytes 2 (4 * v + 1)" by (simp add: encodeCompact_def)
    with d 2 show ?thesis using decode_word_mode [of off buf 2 v 1 post] by simp
  next
    case 3
    then have e: "encodeCompact v = le_bytes 4 (4 * v + 2)" by (simp add: encodeCompact_def)
    with d 3 show ?thesis using decode_word_mode [of off buf 4 v 2 post] by simp
  next
    case 4
    then have e: "encodeCompact v = word_of_nat (4 * (byte_len v - 4) + 3) # le_bytes (byte_len v) v"
      by (simp add: encodeCompact_def)
    have "4 \<le> byte_len v" using byte_len_at_least [of 3 v] 4 by simp
    moreover have "byte_len v \<le> 67" using byte_len_least [of 67 v] v by simp
    ultimately show ?thesis using decode_big_mode [of off buf "byte_len v" v post] d e byte_len_bound by simp
  qed
qed

text \<open>A decoded integer lies within the buffer and below the bound its length gives.\<close>

lemma decode_bounds:
  assumes "decodeCompactBigInt buf off = Some (v, n)"
  shows "0 < n \<and> off + n \<le> length buf \<and> n \<le> 68 \<and> v < 256 ^ n"
proof -
  have sl: "le_val (slice buf a k) < 256 ^ k" for a k
    by (rule less_le_trans [OF le_val_bound power_increasing]) (simp_all add: slice_def)
  have dv: "le_val (slice buf a k) div 4 < 256 ^ k" for a k
    using sl [of a k] by (meson div_le_dividend le_less_trans)
  have "unat (buf ! off) < 2 ^ LENGTH(8)" by (rule unsigned_less)
  then have bb: "unat (buf ! off) div 4 < 64" by simp
  have big: "le_val (slice buf (off + 1) k) < 256 ^ (1 + k)" for k
    using sl [of "off + 1" k] by (simp add: less_le_trans)
  show ?thesis
    using assms dv [of off 2] dv [of off 4] bb big [of "unat (buf ! off) div 4 + 4"]
    unfolding decode_arith by (auto split: if_splits)
qed

text \<open>Hexadecimal text round trips.\<close>

lemma hex_digit_props:
  "n < 16 \<Longrightarrow> hex_val (hex_digit n) = Some n \<and> \<not> is_space (hex_digit n) \<and> lower_char (hex_digit n) = hex_digit n"
  by (simp add: hex_val_def hex_digit_def is_space_def lower_char_def Let_def)

lemma byte_nibbles: "unat (b :: 8 word) div 16 < 16 \<and> unat b mod 16 < 16"
proof -
  have "unat b < 2 ^ LENGTH(8)" by (rule unsigned_less)
  then show ?thesis by simp
qed

lemma to_hex_Cons: "to_hex (b # bs) = hex_digit (unat b div 16) # hex_digit (unat b mod 16) # to_hex bs"
  by (simp add: to_hex_def)

lemma to_hex_length: "length (to_hex bs) = 2 * length bs"
  by (induction bs) (simp_all add: to_hex_def)

lemma from_to_hex: "from_hex (to_hex bs) = bs"
proof (induction bs)
  case (Cons b bs)
  have "(word_of_nat (16 * (unat b div 16) + unat b mod 16) :: 8 word) = b" by simp
  then show ?case
    using Cons hex_digit_props byte_nibbles [of b] by (simp add: to_hex_Cons)
qed (simp add: to_hex_def)

lemma to_hex_plain: "list_all (\<lambda>c. \<not> is_space c \<and> lower_char c = c) (to_hex bs)"
  using hex_digit_props byte_nibbles by (induction bs) (simp_all add: to_hex_Cons, simp add: to_hex_def)

lemma dropWhile_none: "list_all (\<lambda>c. \<not> P c) s \<Longrightarrow> dropWhile P s = s"
  by (cases s) simp_all

lemma trim_plain: "list_all (\<lambda>c. \<not> is_space c) s \<Longrightarrow> trim s = s"
  by (simp add: trim_def dropWhile_none)

lemma bareHex_to_hex: "bareHex (''0x'' @ to_hex bs) = to_hex bs"
proof -
  have "list_all (\<lambda>c. \<not> is_space c) (''0x'' @ to_hex bs)"
    using to_hex_plain [of bs] by (auto simp: list_all_iff is_space_def)
  moreover have "map lower_char (to_hex bs) = to_hex bs"
    using to_hex_plain [of bs] by (simp add: list_all_iff map_idI)
  moreover have "lower_char (CHR ''x'') = CHR ''x''" by code_simp
  ultimately show ?thesis by (simp add: bareHex_def trim_plain toLowerCase_def)
qed

text \<open>The parts of an extrinsic, read at their offset.\<close>

lemma parseAddress_at:
  assumes d: "drop off buf = encodeAddress a @ post" and ok: "address_ok a"
  shows "parseAddress buf off = Some (address_text a, off + length (encodeAddress a))"
proof -
  obtain t rest where e: "encodeAddress a = t # rest" by (cases a) auto
  have b: "off < length buf" "buf ! off = t" "drop (Suc off) buf = rest @ post"
    using d e drop_Cons_nth [of off buf] by auto
  have len: "off + 1 + length rest \<le> length buf"
    using drop_append_le [OF d] e by simp
  show ?thesis
  proof (cases a)
    case (Index i)
    then show ?thesis using b e ok decode_at [of "Suc off" buf i post] by (auto simp: parseAddress_def)
  next
    case (Raw bs)
    have r: "rest = encodeCompact (length bs) @ bs" "t = 2" using Raw e by auto
    have small: "length bs < 256 ^ 67" using ok Raw by (simp add: MAX_SAFE_NAT_def)
    have dec: "decodeCompactBigInt buf (Suc off) = Some (length bs, length (encodeCompact (length bs)))"
      using decode_at [OF _ small, of "Suc off" buf "bs @ post"] b(3) r by simp
    have "drop (Suc off + length (encodeCompact (length bs))) buf = bs @ post"
      using drop_append_add [of "Suc off" buf "encodeCompact (length bs)" "bs @ post"] b(3) r by simp
    then have "slice buf (Suc off + length (encodeCompact (length bs))) (length bs) = bs" by (rule slice_at) simp
    then show ?thesis using Raw b(1,2) r dec ok len by (simp add: parseAddress_def)
  qed (use b e ok len slice_at [OF b(3)] in \<open>auto simp: parseAddress_def\<close>)
qed

lemma skip_signature_at:
  assumes d: "drop off buf = sig @ post" and ok: "signature_ok sig"
  shows "skip_signature buf off = Some (off + length sig)"
proof -
  obtain t s where e: "sig = t # s" using ok by (cases sig) (auto simp: signature_ok_def)
  have b: "off < length buf" "buf ! off = t" using d e drop_Cons_nth [of off buf] by auto
  have len: "off + length sig \<le> length buf" using drop_append_le [OF d] e by simp
  show ?thesis using b len ok e by (auto simp: skip_signature_def signature_ok_def)
qed

lemma skip_era_at:
  assumes d: "drop off buf = era @ post" and ok: "era_ok era"
  shows "skip_era buf off = Some (off + length era)"
proof -
  have ne: "era \<noteq> []" using ok by (auto simp: era_ok_def)
  then have b: "off < length buf" "buf ! off = hd era"
    using d drop_Cons_nth [of off buf "hd era" "tl era @ post"] by simp_all
  have len: "off + length era \<le> length buf" using drop_append_le [OF d] ne by simp
  show ?thesis using b len ok by (auto simp: skip_era_def era_ok_def)
qed

lemma skip_compact_at:
  "drop off buf = encodeCompact v @ post \<Longrightarrow> v < 256 ^ 67 \<Longrightarrow> skip_compact buf off = Some (off + length (encodeCompact v))"
  using decode_at [of off buf v post] by (simp add: skip_compact_def decodeCompact_def)

lemma signed_part_at:
  assumes d: "drop off buf = encodeSigned x @ post" and ok: "signed_ext_ok x"
  shows "signed_part buf off = Some (address_text (sx_signer x), off + length (encodeSigned x))"
proof -
  let ?a = "encodeAddress (sx_signer x)" and ?n = "encodeCompact (sx_nonce x)" and ?t = "encodeCompact (sx_tip x)"
  let ?o1 = "off + length ?a" let ?o2 = "?o1 + length (sx_signature x)" let ?o3 = "?o2 + length (sx_era x)" let ?o4 = "?o3 + length ?n"
  have d0: "drop off buf = ?a @ sx_signature x @ sx_era x @ ?n @ ?t @ post" using d by (simp add: encodeSigned_def)
  have d1: "drop ?o1 buf = sx_signature x @ sx_era x @ ?n @ ?t @ post" using drop_append_add [OF d0] .
  have d2: "drop ?o2 buf = sx_era x @ ?n @ ?t @ post" using drop_append_add [OF d1] .
  have d3: "drop ?o3 buf = ?n @ ?t @ post" using drop_append_add [OF d2] .
  have d4: "drop ?o4 buf = ?t @ post" using drop_append_add [OF d3] .
  show ?thesis
    using ok parseAddress_at [OF d0] skip_signature_at [OF d1] skip_era_at [OF d2] skip_compact_at [OF d3] skip_compact_at [OF d4]
    by (simp add: signed_part_def signed_ext_ok_def encodeSigned_def add.assoc)
qed

lemma call_at_bytes:
  assumes "drop off buf = p # c # args"
  shows "call_at buf sg who off =
    Some \<lparr>ec_buf = buf, ec_isSigned = sg, ec_palletIndex = unat p, ec_callIndex = unat c, ec_argsOffset = off + 2, ec_senderAddress = who\<rparr>"
proof -
  have b: "buf ! off = p" "drop (Suc off) buf = c # args" using drop_Cons_nth [OF assms] by auto
  then have "buf ! (Suc off) = c" "Suc off < length buf" using drop_Cons_nth [OF b(2)] by auto
  with b(1) show ?thesis by (simp add: call_at_def)
qed

lemma length_encodeCompact_le: "length (encodeCompact v) \<noteq> 0"
  by simp

section \<open>Properties\<close>

text \<open>
  Decoding a compact integer inverts the SCALE encoding, at any place in
  a buffer, for every integer the encoding can carry, and consumes exactly the encoded bytes.
\<close>

theorem compact_roundtrip:
  assumes "v < 2 ^ 536"
  shows "decodeCompactBigInt (pre @ encodeCompact v @ post) (length pre) = Some (v, length (encodeCompact v))"
proof -
  have "(2 :: nat) ^ 536 = 256 ^ 67" by simp
  with assms show ?thesis using decode_at [of "length pre" "pre @ encodeCompact v @ post" v post] by simp
qed

theorem compact_roundtrip_witness:
  "decodeCompactBigInt ([7] @ encodeCompact (2 ^ 40) @ [9, 9]) (length [7 :: 8 word]) = Some (2 ^ 40, length (encodeCompact (2 ^ 40)))"
  by (rule compact_roundtrip) simp

text \<open>
  The decoders never read outside the buffer: a decoded integer ends within it,
  a parsed extrinsic has its two index bytes within it, and the number a caller gets from
  \<^const>\<open>decodeCompact\<close> is exactly representable.
\<close>

theorem decode_in_bounds:
  "(case decodeCompactBigInt buf off of Some (v, n) \<Rightarrow> 0 < n \<and> off + n \<le> length buf \<and> v < 256 ^ n | None \<Rightarrow> True)
   \<and> (case decodeCompact buf off of Some (v, n) \<Rightarrow> v \<le> MAX_SAFE_NAT \<and> off + n \<le> length buf | None \<Rightarrow> True)
   \<and> (case parseExtrinsicCore hex of
        Some c \<Rightarrow> 2 \<le> ec_argsOffset c \<and> ec_argsOffset c \<le> length (ec_buf c)
           \<and> ec_palletIndex c = unat (ec_buf c ! (ec_argsOffset c - 2)) \<and> ec_callIndex c = unat (ec_buf c ! (ec_argsOffset c - 1))
      | None \<Rightarrow> True)"
proof (intro conjI)
  show "case decodeCompactBigInt buf off of Some (v, n) \<Rightarrow> 0 < n \<and> off + n \<le> length buf \<and> v < 256 ^ n | None \<Rightarrow> True"
    using decode_bounds by (auto split: option.splits)
  show "case decodeCompact buf off of Some (v, n) \<Rightarrow> v \<le> MAX_SAFE_NAT \<and> off + n \<le> length buf | None \<Rightarrow> True"
    using decode_bounds by (auto simp: decodeCompact_def split: option.splits prod.splits if_splits)
  show "case parseExtrinsicCore hex of
        Some c \<Rightarrow> 2 \<le> ec_argsOffset c \<and> ec_argsOffset c \<le> length (ec_buf c)
           \<and> ec_palletIndex c = unat (ec_buf c ! (ec_argsOffset c - 2)) \<and> ec_callIndex c = unat (ec_buf c ! (ec_argsOffset c - 1))
      | None \<Rightarrow> True"
    by (auto simp: parseExtrinsicCore_def Let_def call_at_def split: if_splits option.splits prod.splits)
qed

text \<open>
  The hand-written reader of the last runtime upgrade agrees with the general
  decoder on every version that fits the three short modes, and gives nothing for any other.
\<close>

theorem runtime_upgrade_decode:
  "decodeLastRuntimeUpgrade hex =
     (case decodeCompactBigInt (from_hex (bareHex hex)) 0 of
        Some (v, n) \<Rightarrow> if n \<le> 4 then Some v else None
      | None \<Rightarrow> None)"
  by (auto simp: decodeLastRuntimeUpgrade_def decodeCompactBigInt_def Let_def)

text \<open>
  A signed extrinsic with any signer, signature, era, nonce and tip is parsed to its pallet and
  call index, the offset of the arguments and the text of the signer.
\<close>

theorem signed_extrinsic_roundtrip:
  assumes "signed_ext_ok x" and "version AND 0x80 \<noteq> 0" and "len < 256 ^ 67"
    and "buf = encodeCompact len @ [version] @ encodeSigned x @ [pallet, call] @ args"
  shows "parseExtrinsicCore (''0x'' @ to_hex buf) =
     Some \<lparr>ec_buf = buf, ec_isSigned = True, ec_palletIndex = unat pallet, ec_callIndex = unat call,
           ec_argsOffset = length buf - length args, ec_senderAddress = Some (address_text (sx_signer x))\<rparr>"
proof -
  let ?l = "encodeCompact len"
  let ?o = "Suc (length ?l)"
  have d0: "drop 0 buf = ?l @ (version # encodeSigned x @ pallet # call # args)" using assms(4) by simp
  have d1: "drop (length ?l) buf = version # encodeSigned x @ pallet # call # args" using assms(4) by simp
  have d2: "drop ?o buf = encodeSigned x @ pallet # call # args" using drop_Cons_nth [OF d1] by simp
  have d3: "drop (?o + length (encodeSigned x)) buf = pallet # call # args" using drop_append_add [OF d2] .
  have dec: "\<exists>n. decodeCompact buf 0 = Some (n, length ?l)"
    using decode_at [OF d0 assms(3)] by (simp add: decodeCompact_def)
  have long: "4 \<le> length buf" "length ?l < length buf"
    using assms(4) length_encodeCompact_le [of len] by (auto simp: Suc_le_eq numeral_eq_Suc)
  have hex: "8 \<le> length (to_hex buf)" using long by (simp add: to_hex_length)
  have off: "length buf - length args = ?o + length (encodeSigned x) + 2" using assms(4) by simp
  have v: "buf ! length ?l = version" using drop_Cons_nth [OF d1] by simp
  obtain n where n: "decodeCompact buf 0 = Some (n, length ?l)" using dec by blast
  show ?thesis
    unfolding parseExtrinsicCore_def bareHex_to_hex from_to_hex Let_def n off
    using long hex assms(2) v signed_part_at [OF d2 assms(1)] call_at_bytes [OF d3] by simp
qed

definition sample_signed :: signed_ext where
  "sample_signed = \<lparr>sx_signer = Id (replicate 32 1), sx_signature = 1 # replicate 64 0, sx_era = [0], sx_nonce = 3, sx_tip = 0\<rparr>"

theorem signed_extrinsic_roundtrip_witness:
  "parseExtrinsicCore (''0x'' @ to_hex (encodeCompact 5 @ [0x84] @ encodeSigned sample_signed @ [5, 0] @ [1, 2])) =
     Some \<lparr>ec_buf = encodeCompact 5 @ [0x84] @ encodeSigned sample_signed @ [5, 0] @ [1, 2], ec_isSigned = True,
           ec_palletIndex = 5, ec_callIndex = 0,
           ec_argsOffset = length (encodeCompact 5 @ [0x84] @ encodeSigned sample_signed @ [5, 0] @ [1, 2]) - length [1, 2 :: 8 word],
           ec_senderAddress = Some (address_text (Id (replicate 32 1)))\<rparr>"
  using signed_extrinsic_roundtrip [where x = sample_signed and version = "0x84" and len = 5 and pallet = 5 and call = 0 and args = "[1, 2]", OF _ _ _ refl]
  by (simp add: sample_signed_def signed_ext_ok_def signature_ok_def era_ok_def)

end
