(* ===== verification/Block_Events.thy ===== *)
theory Block_Events
  imports Scale "HOL-Library.AList"
begin

text \<open>
  The events of a block, per extrinsic (\<^verbatim>\<open>srv/crawler/block-events.ts\<close>). An event record is
  given as the runtime's type registry decodes it: the extrinsic it belongs to (if any), its
  section and method, and its first argument as a JSON value (\<^const>\<open>None\<close> when it is missing or
  cannot be shown).
\<close>

section \<open>Data\<close>

datatype action_type = DEPLOY | CALL | UPDATE

record utxo_event =
  ue_address :: string
  ue_tokenType :: string
  ue_intentHash :: string
  ue_value :: int
  ue_outputNo :: int

record contract_event =
  ce_actionType :: action_type
  ce_address :: string

datatype event_outcome = EvSuccess | EvFailure

record extrinsic_events =
  xe_outcome :: "event_outcome option"
  xe_ledgerTxHash :: "string option"
  xe_applied :: bool
  xe_partialSuccess :: bool
  xe_created :: "utxo_event list"
  xe_spent :: "utxo_event list"
  xe_contracts :: "contract_event list"

record event_record =
  er_extrinsic :: "nat option"
  er_section :: string
  er_method :: string
  er_payload :: "json option"

definition emptyEvents :: extrinsic_events where
  "emptyEvents = \<lparr>xe_outcome = None, xe_ledgerTxHash = None, xe_applied = False, xe_partialSuccess = False,
                  xe_created = [], xe_spent = [], xe_contracts = []\<rparr>"

definition CONTRACT_ACTION_BY_METHOD :: "string \<Rightarrow> action_type option" where
  "CONTRACT_ACTION_BY_METHOD m =
     (if m = ''ContractDeploy'' then Some DEPLOY else if m = ''ContractCall'' then Some CALL
      else if m = ''ContractMaintain'' then Some UPDATE else None)"

definition NIGHT_RAW_TOKEN_TYPE :: string where
  "NIGHT_RAW_TOKEN_TYPE = replicate 64 (CHR ''0'')"

section \<open>Reading\<close>

definition printable :: "8 word \<Rightarrow> bool" where
  "printable b \<longleftrightarrow> 0x20 \<le> b \<and> b \<le> 0x7e"

definition stripContractAddressPrefix :: "json option \<Rightarrow> string" where
  "stripContractAddressPrefix raw =
     (let clean = bareHex_of raw in
      if length clean \<le> 64 \<or> length clean mod 2 \<noteq> 0 then clean
      else
        (let prefix = from_hex (take (length clean - 64) clean) in
         if 2 \<le> length prefix \<and> list_all printable prefix \<and> last prefix = 0x3a
         then drop (length clean - 64) clean else clean))"

definition readUtxo :: "json \<Rightarrow> utxo_event list" where
  "readUtxo e =
     (case e of
        JObj kvs \<Rightarrow>
          (let intentHash = bareHex_of (json_field ''intentHash'' e); address = bareHex_of (json_field ''address'' e) in
           if intentHash = [] \<or> address = [] then []
           else [\<lparr>ue_address = address, ue_tokenType = bareHex_of (json_field ''tokenType'' e), ue_intentHash = intentHash,
                  ue_value = toBigInt (json_field ''value'' e), ue_outputNo = toInt (json_field ''outputNo'' e)\<rparr>])
      | _ \<Rightarrow> [])"

definition readUtxoList :: "json option \<Rightarrow> utxo_event list" where
  "readUtxoList v = (case v of Some (JArr es) \<Rightarrow> concat (map readUtxo es) | _ \<Rightarrow> [])"

text \<open>The entry of an extrinsic, made on first use; entries keep the order they were made in.\<close>

type_synonym events_map = "(nat \<times> extrinsic_events) list"

definition at_index :: "nat \<Rightarrow> (extrinsic_events \<Rightarrow> extrinsic_events) \<Rightarrow> events_map \<Rightarrow> events_map" where
  "at_index i f m = AList.update i (f (case map_of m i of Some e \<Rightarrow> e | None \<Rightarrow> emptyEvents)) m"

definition system_event :: "nat \<Rightarrow> string \<Rightarrow> events_map \<Rightarrow> events_map" where
  "system_event i method m =
     (if method = ''ExtrinsicFailed'' then at_index i (\<lambda>e. e\<lparr>xe_outcome := Some EvFailure\<rparr>) m
      else if method = ''ExtrinsicSuccess''
      then at_index i (\<lambda>e. if xe_outcome e \<noteq> Some EvFailure then e\<lparr>xe_outcome := Some EvSuccess\<rparr> else e) m
      else m)"

definition midnight_event :: "nat \<Rightarrow> string \<Rightarrow> json \<Rightarrow> events_map \<Rightarrow> events_map" where
  "midnight_event i method payload m0 =
     (let txHash = bareHex_of (json_field ''txHash'' payload);
          m = (if txHash \<noteq> [] then at_index i (\<lambda>e. e\<lparr>xe_ledgerTxHash := Some txHash\<rparr>) m0 else m0)
      in if method = ''UnshieldedTokens''
         then at_index i (\<lambda>e. e\<lparr>xe_created := xe_created e @ readUtxoList (json_field ''created'' payload),
                               xe_spent := xe_spent e @ readUtxoList (json_field ''spent'' payload)\<rparr>) m
         else
           (case CONTRACT_ACTION_BY_METHOD method of
              Some a \<Rightarrow>
                (let address = stripContractAddressPrefix (json_field ''contractAddress'' payload) in
                 if address \<noteq> []
                 then at_index i (\<lambda>e. e\<lparr>xe_contracts := xe_contracts e @ [\<lparr>ce_actionType = a, ce_address = address\<rparr>]\<rparr>) m
                 else m)
            | None \<Rightarrow>
                if method = ''TxApplied'' then at_index i (\<lambda>e. e\<lparr>xe_applied := True\<rparr>) m
                else if method = ''TxPartialSuccess''
                then at_index i (\<lambda>e. e\<lparr>xe_applied := True, xe_partialSuccess := True\<rparr>) m
                else m))"

definition read_event :: "event_record \<Rightarrow> events_map \<Rightarrow> events_map" where
  "read_event r m =
     (case er_extrinsic r of
        None \<Rightarrow> m
      | Some i \<Rightarrow>
          if toLowerCase (er_section r) = ''system'' then system_event i (er_method r) m
          else if toLowerCase (er_section r) \<noteq> ''midnight'' then m
          else
            (case er_payload r of
               None \<Rightarrow> m
             | Some payload \<Rightarrow> if payload = JNull then m else midnight_event i (er_method r) payload m))"

definition readBlockEvents :: "event_record list \<Rightarrow> events_map" where
  "readBlockEvents records = fold read_event records []"

section \<open>Conclusions\<close>

definition txTypeFromEvents :: "extrinsic_events option \<Rightarrow> string option" where
  "txTypeFromEvents events =
     (case events of
        None \<Rightarrow> None
      | Some e \<Rightarrow>
          if list_ex (\<lambda>c. ce_actionType c = DEPLOY) (xe_contracts e) then Some ''contract_deploy''
          else if list_ex (\<lambda>c. ce_actionType c = UPDATE) (xe_contracts e) then Some ''contract_update''
          else if xe_contracts e \<noteq> [] then Some ''contract_call''
          else if xe_created e \<noteq> [] \<or> xe_spent e \<noteq> [] then Some ''night_transfer''
          else None)"

record transfer =
  tp_senderAddress :: "string option"
  tp_receiverAddress :: "string option"
  tp_nightAmount :: "int option"

definition no_transfer :: transfer where
  "no_transfer = \<lparr>tp_senderAddress = None, tp_receiverAddress = None, tp_nightAmount = None\<rparr>"

definition projectTransfer :: "extrinsic_events option \<Rightarrow> transfer" where
  "projectTransfer events =
     (case events of
        None \<Rightarrow> no_transfer
      | Some e \<Rightarrow>
          (case js_set (map ue_address (xe_spent e)) of
             [sender] \<Rightarrow>
               (case js_set (map ue_address (filter (\<lambda>u. ue_address u \<noteq> sender) (xe_created e))) of
                  [] \<Rightarrow> \<lparr>tp_senderAddress = Some sender, tp_receiverAddress = None, tp_nightAmount = None\<rparr>
                | [receiver] \<Rightarrow>
                    \<lparr>tp_senderAddress = Some sender, tp_receiverAddress = Some receiver,
                     tp_nightAmount = Some (sum_list (map ue_value
                        (filter (\<lambda>u. ue_address u = receiver \<and> ue_tokenType u = NIGHT_RAW_TOKEN_TYPE) (xe_created e))))\<rparr>
                | _ \<Rightarrow> no_transfer)
           | _ \<Rightarrow> no_transfer))"

section \<open>Facts\<close>

lemma map_of_at_index:
  "map_of (at_index i f m) k = (if k = i then Some (f (case map_of m i of Some e \<Rightarrow> e | None \<Rightarrow> emptyEvents)) else map_of m k)"
  by (simp add: at_index_def update_conv')

definition outcome_at :: "events_map \<Rightarrow> nat \<Rightarrow> event_outcome option" where
  "outcome_at m i = (case map_of m i of Some e \<Rightarrow> xe_outcome e | None \<Rightarrow> None)"

definition fails :: "nat \<Rightarrow> event_record \<Rightarrow> bool" where
  "fails i r \<longleftrightarrow> er_extrinsic r = Some i \<and> toLowerCase (er_section r) = ''system'' \<and> er_method r = ''ExtrinsicFailed''"

definition succeeds :: "nat \<Rightarrow> event_record \<Rightarrow> bool" where
  "succeeds i r \<longleftrightarrow> er_extrinsic r = Some i \<and> toLowerCase (er_section r) = ''system'' \<and> er_method r = ''ExtrinsicSuccess''"

lemma outcome_at_index:
  "(\<And>e. xe_outcome (f e) = g (xe_outcome e)) \<Longrightarrow> outcome_at (at_index i f m) k = (if k = i then g (outcome_at m i) else outcome_at m k)"
  by (simp add: outcome_at_def map_of_at_index emptyEvents_def split: option.splits)

lemma outcome_at_index_keep:
  "(\<And>e. xe_outcome (f e) = xe_outcome e) \<Longrightarrow> outcome_at (at_index i f m) k = outcome_at m k"
  using outcome_at_index [of f "\<lambda>x. x"] by simp

lemma midnight_event_outcome: "outcome_at (midnight_event i method payload m) k = outcome_at m k"
  by (simp add: midnight_event_def Let_def outcome_at_index_keep split: option.splits)

lemma system_event_outcome:
  "outcome_at (system_event i method m) k =
     (if k = i \<and> method = ''ExtrinsicFailed'' then Some EvFailure
      else if k = i \<and> method = ''ExtrinsicSuccess'' \<and> outcome_at m i \<noteq> Some EvFailure then Some EvSuccess
      else outcome_at m k)"
proof -
  have a: "outcome_at (at_index i (\<lambda>e. e\<lparr>xe_outcome := Some EvFailure\<rparr>) m) k = (if k = i then Some EvFailure else outcome_at m k)" for k
    by (rule outcome_at_index [of _ "\<lambda>_. Some EvFailure"]) simp
  have b: "outcome_at (at_index i (\<lambda>e. if xe_outcome e \<noteq> Some EvFailure then e\<lparr>xe_outcome := Some EvSuccess\<rparr> else e) m) k =
      (if k = i then (if outcome_at m i \<noteq> Some EvFailure then Some EvSuccess else Some EvFailure) else outcome_at m k)" for k
    by (rule outcome_at_index [of _ "\<lambda>x. if x \<noteq> Some EvFailure then Some EvSuccess else Some EvFailure"]) auto
  show ?thesis by (auto simp: system_event_def a b)
qed

lemma read_event_outcome:
  "outcome_at (read_event r m) k =
     (if fails k r then Some EvFailure
      else if succeeds k r \<and> outcome_at m k \<noteq> Some EvFailure then Some EvSuccess
      else outcome_at m k)"
  by (auto simp: read_event_def fails_def succeeds_def system_event_outcome midnight_event_outcome split: option.splits)

lemma fold_outcome:
  "outcome_at (fold read_event rs m) k =
     (if outcome_at m k = Some EvFailure \<or> list_ex (fails k) rs then Some EvFailure
      else if list_ex (succeeds k) rs then Some EvSuccess else outcome_at m k)"
proof (induction rs arbitrary: m)
  case (Cons r rs)
  then show ?case by (auto simp: read_event_outcome)
qed simp

section \<open>Properties\<close>

text \<open>
  The outcome recorded for an extrinsic does not depend on the order of the events: it is a
  failure exactly when a failure event names it, else a success when a success event does.
\<close>

theorem event_outcome:
  "outcome_at (readBlockEvents records) i =
     (if list_ex (fails i) records then Some EvFailure
      else if list_ex (succeeds i) records then Some EvSuccess else None)"
  by (simp add: readBlockEvents_def fold_outcome) (simp add: outcome_at_def)

text \<open>
  A projected transfer names a receiver only if every spent output belongs to one sender, every
  other created output to that one receiver, and the amount is exactly the NIGHT created for it.
\<close>

theorem transfer_projection:
  assumes "tp_receiverAddress (projectTransfer (Some e)) = Some r"
  shows "\<exists>s. tp_senderAddress (projectTransfer (Some e)) = Some s \<and> s \<noteq> r
     \<and> (\<forall>u \<in> set (xe_spent e). ue_address u = s)
     \<and> (\<forall>u \<in> set (xe_created e). ue_address u = s \<or> ue_address u = r)
     \<and> tp_nightAmount (projectTransfer (Some e)) =
         Some (\<Sum>u \<leftarrow> xe_created e. if ue_address u = r \<and> ue_tokenType u = NIGHT_RAW_TOKEN_TYPE then ue_value u else 0)"
proof -
  obtain s where s: "js_set (map ue_address (xe_spent e)) = [s]"
    using assms by (auto simp: projectTransfer_def no_transfer_def split: list.splits)
  have rr: "js_set (map ue_address (filter (\<lambda>u. ue_address u \<noteq> s) (xe_created e))) = [r]"
    using assms s by (auto simp: projectTransfer_def no_transfer_def split: list.splits)
  have spent: "ue_address ` set (xe_spent e) = {s}"
    using arg_cong [OF s, of set] by simp
  have created: "ue_address ` {u \<in> set (xe_created e). ue_address u \<noteq> s} = {r}"
    using arg_cong [OF rr, of set] by simp
  have sum: "sum_list (map ue_value (filter P us)) = (\<Sum>u \<leftarrow> us. if P u then ue_value u else 0)" for P us
    by (induction us) simp_all
  have p: "projectTransfer (Some e) = \<lparr>tp_senderAddress = Some s, tp_receiverAddress = Some r,
       tp_nightAmount = Some (sum_list (map ue_value
         (filter (\<lambda>u. ue_address u = r \<and> ue_tokenType u = NIGHT_RAW_TOKEN_TYPE) (xe_created e))))\<rparr>"
    using s rr by (simp add: projectTransfer_def)
  have "r \<in> ue_address ` {u \<in> set (xe_created e). ue_address u \<noteq> s}" using created by simp
  then have ne: "s \<noteq> r" by auto
  have "ue_address u = s \<or> ue_address u = r" if "u \<in> set (xe_created e)" for u
    using that created by blast
  then show ?thesis
    using spent ne by (intro exI [of _ s]) (auto simp: p sum)
qed

theorem transfer_projection_witness:
  "let u = \<lparr>ue_address = ''aa'', ue_tokenType = NIGHT_RAW_TOKEN_TYPE, ue_intentHash = ''01'', ue_value = 5, ue_outputNo = 0\<rparr>;
       v = \<lparr>ue_address = ''bb'', ue_tokenType = NIGHT_RAW_TOKEN_TYPE, ue_intentHash = ''02'', ue_value = 3, ue_outputNo = 0\<rparr>;
       e = emptyEvents\<lparr>xe_spent := [u], xe_created := [v, u]\<rparr>
   in \<exists>s. tp_senderAddress (projectTransfer (Some e)) = Some s \<and> s \<noteq> ''bb''"
proof -
  let ?u = "\<lparr>ue_address = ''aa'', ue_tokenType = NIGHT_RAW_TOKEN_TYPE, ue_intentHash = ''01'', ue_value = 5, ue_outputNo = 0\<rparr>"
  let ?v = "\<lparr>ue_address = ''bb'', ue_tokenType = NIGHT_RAW_TOKEN_TYPE, ue_intentHash = ''02'', ue_value = 3, ue_outputNo = 0\<rparr>"
  have "tp_receiverAddress (projectTransfer (Some (emptyEvents\<lparr>xe_spent := [?u], xe_created := [?v, ?u]\<rparr>))) = Some ''bb''"
    by (simp add: projectTransfer_def js_set_def)
  from transfer_projection [OF this] show ?thesis unfolding Let_def by blast
qed

end
