(* ===== verification/Index_Store.thy ===== *)
theory Index_Store
  imports Block_Events Job_Reconciliation
begin

text \<open>
  The tables of the block index (\<^verbatim>\<open>db/schema.cds\<close>) and the NIGHT balance of an address as it
  follows from the indexed rows (\<^verbatim>\<open>computeNightBalance\<close>, \<^verbatim>\<open>recomputeNightBalance\<close> of
  \<^verbatim>\<open>srv/crawler/rollback.ts\<close>).
\<close>

section \<open>Rows\<close>

record block_row =
  bl_ID :: string
  bl_hash :: string
  bl_height :: int
  bl_protocolVersion :: int
  bl_timestamp :: int
  bl_author :: "string option"
  bl_slot :: "int option"
  bl_stateRoot :: string
  bl_parent :: "string option"

record tx_row =
  tx_ID :: string
  tx_transactionId :: nat
  tx_hash :: string
  tx_ledgerTxHash :: "string option"
  tx_protocolVersion :: int
  tx_raw :: "bytes option"
  tx_transactionType :: string
  tx_txType :: string
  tx_isShielded :: "bool option"
  tx_senderAddress :: "string option"
  tx_receiverAddress :: "string option"
  tx_nightAmount :: "int option"
  tx_hasProof :: "bool option"
  tx_contractAddress :: "string option"
  tx_circuitName :: "string option"
  tx_size :: nat
  tx_block :: string

record utxo_row =
  ux_ID :: string
  ux_owner :: string
  ux_tokenType :: string
  ux_value :: int
  ux_intentHash :: string
  ux_outputIndex :: int
  ux_initialNonce :: string
  ux_ctime :: int
  ux_created :: string
  ux_spent :: "string option"

record action_row =
  ca_ID :: string
  ca_actionIndex :: nat
  ca_address :: "string option"
  ca_actionType :: action_type
  ca_entryPoint :: "string option"
  ca_tx :: string

datatype tx_outcome = TxSuccess | TxPartialSuccess | TxFailure

record result_row =
  rs_ID :: string
  rs_status :: tx_outcome
  rs_tx :: string

text \<open>Rows of which only the reference to a parent row matters: fees, ledger events, identifiers, balances, segments.\<close>

record child_row =
  cr_ID :: string
  cr_ref :: string

record state_row =
  cs_address :: string
  cs_height :: int

record balance_row =
  nb_address :: string
  nb_balance :: int
  nb_utxoCount :: int
  nb_totalReceived :: int
  nb_txReceivedCount :: int
  nb_totalSent :: int
  nb_txSentCount :: int
  nb_firstSeenHeight :: "int option"
  nb_firstSeenAt :: "int option"
  nb_lastActivityHeight :: "int option"
  nb_lastActivityAt :: "int option"
  nb_lastUpdatedHeight :: "int option"
  nb_lastUpdatedAt :: "int option"
  nb_dustAddress :: "string option"
  nb_isDustRegistered :: bool

record sync_state =
  ss_lastIndexedHeight :: int
  ss_lastIndexedHash :: "string option"
  ss_lastIndexedAt :: "int option"
  ss_lastDecodedHeight :: "int option"
  ss_lastSupplementedHeight :: "int option"
  ss_syncStatus :: string

record index_db =
  ix_blocks :: "block_row list"
  ix_txs :: "tx_row list"
  ix_results :: "result_row list"
  ix_segments :: "child_row list"
  ix_fees :: "child_row list"
  ix_identifiers :: "child_row list"
  ix_actions :: "action_row list"
  ix_contractBalances :: "child_row list"
  ix_utxos :: "utxo_row list"
  ix_zswap :: "child_row list"
  ix_dust :: "child_row list"
  ix_contractStates :: "state_row list"
  ix_balances :: "balance_row list"
  ix_sync :: sync_state
  ix_jdb :: jdb

definition truthy_opt :: "string option \<Rightarrow> bool" where
  "truthy_opt v = (case v of Some s \<Rightarrow> s \<noteq> [] | None \<Rightarrow> False)"

section \<open>Statements over long identifier lists\<close>

definition IN_CHUNK :: nat where "IN_CHUNK = 5000"

text \<open>\<^verbatim>\<open>chunked\<close>: a query per piece, the results one after the other; a statement per piece, in order.\<close>

definition chunked_select :: "('k list \<Rightarrow> 'r list) \<Rightarrow> 'k list \<Rightarrow> 'r list" where
  "chunked_select q ids = concat (map q (chunks_of IN_CHUNK ids))"

definition chunked_run :: "('k list \<Rightarrow> 'db \<Rightarrow> 'db) \<Rightarrow> 'k list \<Rightarrow> 'db \<Rightarrow> 'db" where
  "chunked_run q ids db = fold q (chunks_of IN_CHUNK ids) db"

section \<open>The balance of an address\<close>

record night_figures =
  nf_balance :: int
  nf_utxoCount :: int
  nf_txSentCount :: int
  nf_txReceivedCount :: int
  nf_totalSent :: int
  nf_totalReceived :: int
  nf_firstSeenHeight :: "int option"
  nf_lastActivityHeight :: "int option"

definition night_utxos :: "string \<Rightarrow> utxo_row list \<Rightarrow> utxo_row list" where
  "night_utxos a us = filter (\<lambda>u. ux_owner u = a \<and> ux_tokenType u = NIGHT_RAW_TOKEN_TYPE) us"

definition amount_of :: "tx_row \<Rightarrow> int" where
  "amount_of t = (case tx_nightAmount t of Some n \<Rightarrow> n | None \<Rightarrow> 0)"

definition sent_txs :: "string \<Rightarrow> tx_row list \<Rightarrow> tx_row list" where
  "sent_txs a ts =
     filter (\<lambda>t. truthy_opt (tx_receiverAddress t) \<and> tx_receiverAddress t \<noteq> Some a \<and> 0 < amount_of t)
       (filter (\<lambda>t. tx_senderAddress t = Some a) ts)"

definition unspent :: "utxo_row \<Rightarrow> bool" where
  "unspent u \<longleftrightarrow> \<not> truthy_opt (ux_spent u)"

definition fold_min :: "int list \<Rightarrow> int option" where
  "fold_min hs = (case hs of [] \<Rightarrow> None | h # rest \<Rightarrow> Some (fold min rest h))"

definition fold_max :: "int list \<Rightarrow> int option" where
  "fold_max hs = (case hs of [] \<Rightarrow> None | h # rest \<Rightarrow> Some (fold max rest h))"

definition activity_heights :: "index_db \<Rightarrow> utxo_row list \<Rightarrow> tx_row list \<Rightarrow> int list" where
  "activity_heights db utxos sent =
     (let txIds = js_set (filter (\<lambda>i. i \<noteq> []) (map ux_created utxos @ concat (map (\<lambda>u. case ux_spent u of Some s \<Rightarrow> [s] | None \<Rightarrow> []) utxos)));
          txs = chunked_select (\<lambda>ids. filter (\<lambda>t. tx_ID t \<in> set ids) (ix_txs db)) txIds;
          blockIds = js_set (filter (\<lambda>i. i \<noteq> []) (map tx_block txs @ map tx_block sent));
          blocks = chunked_select (\<lambda>ids. filter (\<lambda>b. bl_ID b \<in> set ids) (ix_blocks db)) blockIds
      in map bl_height blocks)"

definition computeNightBalance :: "index_db \<Rightarrow> string \<Rightarrow> night_figures option" where
  "computeNightBalance db a =
     (let utxos = night_utxos a (ix_utxos db); sent = sent_txs a (ix_txs db) in
      if utxos = [] \<and> sent = [] then None
      else
        (let heights = activity_heights db utxos sent; left = filter unspent utxos in
         Some \<lparr>nf_balance = sum_list (map ux_value left), nf_utxoCount = int (length left), nf_txSentCount = int (length sent),
               nf_txReceivedCount = int (length utxos), nf_totalSent = sum_list (map amount_of sent),
               nf_totalReceived = sum_list (map ux_value utxos),
               nf_firstSeenHeight = fold_min heights, nf_lastActivityHeight = fold_max heights\<rparr>))"

definition reset_balance :: "int \<Rightarrow> balance_row \<Rightarrow> balance_row" where
  "reset_balance t b =
     b\<lparr>nb_balance := 0, nb_utxoCount := 0, nb_txSentCount := 0, nb_txReceivedCount := 0, nb_totalSent := 0, nb_totalReceived := 0,
       nb_firstSeenHeight := None, nb_lastActivityHeight := None, nb_lastUpdatedAt := Some t\<rparr>"

definition set_figures :: "int \<Rightarrow> night_figures \<Rightarrow> balance_row \<Rightarrow> balance_row" where
  "set_figures t f b =
     b\<lparr>nb_balance := nf_balance f, nb_utxoCount := nf_utxoCount f, nb_txSentCount := nf_txSentCount f,
       nb_txReceivedCount := nf_txReceivedCount f, nb_totalSent := nf_totalSent f, nb_totalReceived := nf_totalReceived f,
       nb_firstSeenHeight := nf_firstSeenHeight f, nb_lastActivityHeight := nf_lastActivityHeight f, nb_lastActivityAt := Some t,
       nb_lastUpdatedHeight := nf_lastActivityHeight f, nb_lastUpdatedAt := Some t\<rparr>"

text \<open>A new row, with the column defaults of the schema.\<close>

definition new_balance_row :: "string \<Rightarrow> int \<Rightarrow> balance_row" where
  "new_balance_row a t =
     \<lparr>nb_address = a, nb_balance = 0, nb_utxoCount = 0, nb_totalReceived = 0, nb_txReceivedCount = 0, nb_totalSent = 0, nb_txSentCount = 0,
      nb_firstSeenHeight = None, nb_firstSeenAt = Some t, nb_lastActivityHeight = None, nb_lastActivityAt = None,
      nb_lastUpdatedHeight = None, nb_lastUpdatedAt = None, nb_dustAddress = None, nb_isDustRegistered = False\<rparr>"

definition recomputeNightBalance :: "int \<Rightarrow> string \<Rightarrow> index_db \<Rightarrow> index_db" where
  "recomputeNightBalance t a db =
     (let existing = select_one (\<lambda>b. nb_address b = a) (ix_balances db) in
      case computeNightBalance db a of
        None \<Rightarrow>
          (case existing of
             None \<Rightarrow> db
           | Some b \<Rightarrow>
               if truthy_opt (nb_dustAddress b) \<or> nb_isDustRegistered b
               then db\<lparr>ix_balances := snd (update_where (\<lambda>b. nb_address b = a) (reset_balance t) (ix_balances db))\<rparr>
               else db\<lparr>ix_balances := filter (\<lambda>b. nb_address b \<noteq> a) (ix_balances db)\<rparr>)
      | Some f \<Rightarrow>
          (case existing of
             Some _ \<Rightarrow> db\<lparr>ix_balances := snd (update_where (\<lambda>b. nb_address b = a) (set_figures t f) (ix_balances db))\<rparr>
           | None \<Rightarrow> db\<lparr>ix_balances := ix_balances db @ [set_figures t f (new_balance_row a t)]\<rparr>))"

section \<open>Totals\<close>

text \<open>
  The six totals of an address: from the rows, and as a balance row stores them. Two routines
  maintain them, one block by block and one from scratch; both have to arrive at these.
\<close>

record totals =
  tt_balance :: int
  tt_utxoCount :: int
  tt_totalReceived :: int
  tt_txReceivedCount :: int
  tt_totalSent :: int
  tt_txSentCount :: int

definition zero_totals :: totals where
  "zero_totals = \<lparr>tt_balance = 0, tt_utxoCount = 0, tt_totalReceived = 0, tt_txReceivedCount = 0, tt_totalSent = 0, tt_txSentCount = 0\<rparr>"

definition totals_of_rows :: "utxo_row list \<Rightarrow> tx_row list \<Rightarrow> string \<Rightarrow> totals" where
  "totals_of_rows us ts a =
     (let utxos = night_utxos a us; sent = sent_txs a ts; left = filter unspent utxos in
      \<lparr>tt_balance = sum_list (map ux_value left), tt_utxoCount = int (length left),
       tt_totalReceived = sum_list (map ux_value utxos), tt_txReceivedCount = int (length utxos),
       tt_totalSent = sum_list (map amount_of sent), tt_txSentCount = int (length sent)\<rparr>)"

definition totals_of_row :: "balance_row \<Rightarrow> totals" where
  "totals_of_row b = \<lparr>tt_balance = nb_balance b, tt_utxoCount = nb_utxoCount b, tt_totalReceived = nb_totalReceived b,
     tt_txReceivedCount = nb_txReceivedCount b, tt_totalSent = nb_totalSent b, tt_txSentCount = nb_txSentCount b\<rparr>"

definition stored_totals :: "balance_row list \<Rightarrow> string \<Rightarrow> totals" where
  "stored_totals bs a = (case select_one (\<lambda>b. nb_address b = a) bs of Some b \<Rightarrow> totals_of_row b | None \<Rightarrow> zero_totals)"

text \<open>What the balance table promises: every address shows the totals of its rows.\<close>

definition balances_exact :: "index_db \<Rightarrow> bool" where
  "balances_exact db \<longleftrightarrow>
     (\<forall>a. a \<noteq> [] \<longrightarrow> stored_totals (ix_balances db) a = totals_of_rows (ix_utxos db) (ix_txs db) a)"

lemma compute_totals:
  "totals_of_rows (ix_utxos db) (ix_txs db) a =
     (case computeNightBalance db a of
        None \<Rightarrow> zero_totals
      | Some f \<Rightarrow> \<lparr>tt_balance = nf_balance f, tt_utxoCount = nf_utxoCount f, tt_totalReceived = nf_totalReceived f,
                   tt_txReceivedCount = nf_txReceivedCount f, tt_totalSent = nf_totalSent f, tt_txSentCount = nf_txSentCount f\<rparr>)"
  by (simp add: totals_of_rows_def computeNightBalance_def zero_totals_def Let_def)

lemma select_update_other:
  assumes "\<And>b. nb_address (p b) = nb_address b" and "a \<noteq> c"
  shows "select_one (\<lambda>b. nb_address b = a) (snd (update_where (\<lambda>b. nb_address b = c) p bs)) = select_one (\<lambda>b. nb_address b = a) bs"
  using assms by (induction bs) (auto simp: select_one_def update_where_def)

lemma select_update_same:
  assumes "\<And>b. nb_address (p b) = nb_address b"
  shows "select_one (\<lambda>b. nb_address b = a) (snd (update_where (\<lambda>b. nb_address b = a) p bs)) = map_option p (select_one (\<lambda>b. nb_address b = a) bs)"
  using assms by (induction bs) (auto simp: select_one_def update_where_def)

lemma select_filter_address:
  "select_one (\<lambda>b. nb_address b = a) (filter (\<lambda>b. nb_address b \<noteq> c) bs) = (if a = c then None else select_one (\<lambda>b. nb_address b = a) bs)"
  by (induction bs) (auto simp: select_one_def)

lemma select_append_row:
  "select_one g (bs @ [b]) = (case select_one g bs of Some x \<Rightarrow> Some x | None \<Rightarrow> if g b then Some b else None)"
  by (induction bs) (auto simp: select_one_def)

lemma balance_patch_address [simp]:
  "nb_address (reset_balance t b) = nb_address b" "nb_address (set_figures t f b) = nb_address b"
  by (simp_all add: reset_balance_def set_figures_def)

lemma recompute_others:
  "stored_totals (ix_balances (recomputeNightBalance t c db)) a =
     (if a = c then totals_of_rows (ix_utxos db) (ix_txs db) a else stored_totals (ix_balances db) a)"
proof (cases "a = c")
  case True
  have "totals_of_row (set_figures t f b) = \<lparr>tt_balance = nf_balance f, tt_utxoCount = nf_utxoCount f, tt_totalReceived = nf_totalReceived f,
      tt_txReceivedCount = nf_txReceivedCount f, tt_totalSent = nf_totalSent f, tt_txSentCount = nf_txSentCount f\<rparr>" for f b
    by (simp add: totals_of_row_def set_figures_def)
  moreover have "totals_of_row (reset_balance t b) = zero_totals" for b
    by (simp add: totals_of_row_def reset_balance_def zero_totals_def)
  ultimately show ?thesis using True
    by (auto simp: recomputeNightBalance_def stored_totals_def compute_totals select_update_same select_filter_address
        select_append_row new_balance_row_def Let_def split: option.splits dest: select_one_Some)
next
  case False
  have "nb_address (set_figures t f (new_balance_row c t)) \<noteq> a" for f
    using False by (simp add: new_balance_row_def)
  with False show ?thesis
    by (auto simp: recomputeNightBalance_def stored_totals_def select_update_other select_filter_address
        select_append_row Let_def split: option.splits)
qed

lemma recompute_frame:
  "recomputeNightBalance t a db = db\<lparr>ix_balances := ix_balances (recomputeNightBalance t a db)\<rparr>"
  by (simp add: recomputeNightBalance_def Let_def split: option.splits)

end
