(* ===== verification/Block_Processor.thy ===== *)
theory Block_Processor
  imports Index_Store
begin

text \<open>
  Storing a fetched block (\<^verbatim>\<open>srv/crawler/BlockProcessor.ts\<close>): the pallet map, the classification of
  extrinsics, the projection of events to outputs and transfers, and the transaction that writes
  the block with its balance changes. The node, the runtime metadata, the address encoding and the
  hash function are arguments. A new identifier is \<open>uuid p\<close>, where the path \<open>p\<close> names the
  call that asks for it.
\<close>

section \<open>Pallet map\<close>

record pallet_mapping =
  pm_name :: string
  pm_txType :: string
  pm_isShielded :: bool
  pm_isSystem :: bool

type_synonym pallet_map = "(nat \<times> pallet_mapping) list"

definition VALID_TX_TYPES :: "string list" where
  "VALID_TX_TYPES = [''night_transfer'', ''shielded_transfer'', ''contract_deploy'', ''contract_call'', ''contract_update'',
     ''dust_registration'', ''dust_generation'', ''governance'', ''system'', ''unknown'']"

definition sys_pallet :: "string \<Rightarrow> pallet_mapping" where
  "sys_pallet n = \<lparr>pm_name = n, pm_txType = ''system'', pm_isShielded = False, pm_isSystem = True\<rparr>"

definition user_pallet :: "string \<Rightarrow> string \<Rightarrow> pallet_mapping" where
  "user_pallet n t = \<lparr>pm_name = n, pm_txType = t, pm_isShielded = False, pm_isSystem = False\<rparr>"

definition DEFAULT_PALLET_MAP :: pallet_map where
  "DEFAULT_PALLET_MAP =
     [(0, sys_pallet ''System''), (1, sys_pallet ''Timestamp''), (2, sys_pallet ''Aura''), (3, sys_pallet ''Grandpa''),
      (4, sys_pallet ''Sidechain''), (5, user_pallet ''Midnight'' ''contract_call''), (6, sys_pallet ''MidnightSystem''),
      (8, sys_pallet ''SessionCommitteeManagement''), (11, sys_pallet ''NodeVersion''), (13, sys_pallet ''CNightObservation''),
      (15, sys_pallet ''Preimage''), (16, sys_pallet ''MultiBlockMigrations''), (17, sys_pallet ''PalletSession''),
      (18, sys_pallet ''Scheduler''), (19, sys_pallet ''TxPause''), (21, sys_pallet ''Beefy''), (22, sys_pallet ''Mmr''),
      (23, sys_pallet ''BeefyMmrLeaf''), (30, sys_pallet ''Session''), (32, user_pallet ''Bridge'' ''night_transfer''),
      (40, user_pallet ''Council'' ''governance''), (41, user_pallet ''CouncilMembership'' ''governance''),
      (42, user_pallet ''TechnicalCommittee'' ''governance''), (43, user_pallet ''TechnicalCommitteeMembership'' ''governance''),
      (44, user_pallet ''FederatedAuthority'' ''governance''), (45, sys_pallet ''FederatedAuthorityObservation''),
      (50, sys_pallet ''SystemParameters''), (51, sys_pallet ''Throttle'')]"

text \<open>The configured entries; an invalid type is stored as \<^verbatim>\<open>unknown\<close>.\<close>

definition configPalletOverrides :: "pallet_map \<Rightarrow> pallet_map" where
  "configPalletOverrides conf =
     map (\<lambda>(i, m). (i, if pm_txType m \<in> set VALID_TX_TYPES then m else m\<lparr>pm_txType := ''unknown''\<rparr>)) conf"

definition map_set_all :: "pallet_map \<Rightarrow> pallet_map \<Rightarrow> pallet_map" where
  "map_set_all entries m = fold (\<lambda>(i, e) acc. AList.update i e acc) entries m"

definition buildPalletMap :: "pallet_map \<Rightarrow> pallet_map" where
  "buildPalletMap conf = map_set_all (configPalletOverrides conf) DEFAULT_PALLET_MAP"

text \<open>A pallet as the metadata lists it; the index is \<^const>\<open>None\<close> when it is not an integer.\<close>

definition pallet_label :: "string \<Rightarrow> nat \<Rightarrow> string" where
  "pallet_label n i = n @ ''@'' @ nat_str i"

fun resolve_pallets :: "(string \<times> nat option) list \<Rightarrow> pallet_map \<Rightarrow> string list \<Rightarrow> string list \<Rightarrow> pallet_map \<times> string list \<times> string list" where
  "resolve_pallets [] m moved unmapped = (m, moved, unmapped)"
| "resolve_pallets ((n, None) # ps) m moved unmapped = resolve_pallets ps m moved unmapped"
| "resolve_pallets ((n, Some i) # ps) m moved unmapped =
     (case map_of (rev (map (\<lambda>e. (pm_name (snd e), snd e)) DEFAULT_PALLET_MAP)) n of
        None \<Rightarrow> resolve_pallets ps m moved (unmapped @ [pallet_label n i])
      | Some e \<Rightarrow>
          resolve_pallets ps (AList.update i e m)
            (if map_option pm_name (map_of DEFAULT_PALLET_MAP i) \<noteq> Some n then moved @ [pallet_label n i] else moved) unmapped)"

definition resolvePalletMapFromMetadata :: "(string \<times> nat option) list \<Rightarrow> pallet_map \<Rightarrow> pallet_map \<times> string list \<times> string list" where
  "resolvePalletMapFromMetadata pallets overrides =
     (case resolve_pallets pallets [] [] [] of (m, moved, unmapped) \<Rightarrow> (map_set_all overrides m, moved, unmapped))"

section \<open>Classification\<close>

record classification =
  cl_txType :: string
  cl_isShielded :: bool
  cl_isSystem :: bool
  cl_indices :: "(nat \<times> nat) option"

definition mapPalletCall :: "nat \<Rightarrow> nat \<Rightarrow> pallet_map \<Rightarrow> classification" where
  "mapPalletCall pallet call m =
     (case map_of m pallet of
        None \<Rightarrow> \<lparr>cl_txType = ''unknown'', cl_isShielded = False, cl_isSystem = False, cl_indices = None\<rparr>
      | Some e \<Rightarrow>
          \<lparr>cl_txType =
             (if pm_name e = ''Contracts''
              then (if call = 0 then ''contract_call'' else if call = 1 then ''contract_deploy''
                    else if call = 2 then ''contract_update'' else pm_txType e)
              else pm_txType e),
           cl_isShielded = pm_isShielded e, cl_isSystem = pm_isSystem e, cl_indices = None\<rparr>)"

definition classifyExtrinsic :: "string \<Rightarrow> pallet_map \<Rightarrow> classification" where
  "classifyExtrinsic hex m =
     (if length hex < 10 then \<lparr>cl_txType = ''system'', cl_isShielded = False, cl_isSystem = True, cl_indices = None\<rparr>
      else
        (case parseExtrinsicCallIndices hex of
           Some (p, c) \<Rightarrow> (mapPalletCall p c m)\<lparr>cl_indices := Some (p, c)\<rparr>
         | None \<Rightarrow>
             if length hex < 100 then \<lparr>cl_txType = ''system'', cl_isShielded = False, cl_isSystem = True, cl_indices = None\<rparr>
             else \<lparr>cl_txType = ''unknown'', cl_isShielded = False, cl_isSystem = False, cl_indices = None\<rparr>))"

definition extrinsicSize :: "string \<Rightarrow> nat" where
  "extrinsicSize hex = (length (bareHex hex) + 1) div 2"

definition toContractActionType :: "string \<Rightarrow> action_type option" where
  "toContractActionType t =
     (if t = ''contract_deploy'' then Some DEPLOY else if t = ''contract_call'' then Some CALL
      else if t = ''contract_update'' then Some UPDATE else None)"

definition buildCircuitName :: "classification \<Rightarrow> string option" where
  "buildCircuitName c = map_option (\<lambda>(p, k). nat_str p @ '':'' @ nat_str k) (cl_indices c)"

definition hexToBase64 :: "string \<Rightarrow> bytes option" where
  "hexToBase64 v = (let clean = bareHex v in if clean = [] \<or> length clean mod 2 \<noteq> 0 then None else Some (from_hex clean))"

definition outcomeFor :: "extrinsic_events option \<Rightarrow> tx_outcome option" where
  "outcomeFor events =
     (case events of
        None \<Rightarrow> None
      | Some e \<Rightarrow>
          (case xe_outcome e of
             None \<Rightarrow> None
           | Some EvFailure \<Rightarrow> Some TxFailure
           | Some EvSuccess \<Rightarrow> Some (if xe_partialSuccess e then TxPartialSuccess else TxSuccess)))"

definition contractActionsFor :: "extrinsic_events option \<Rightarrow> classification \<Rightarrow> (action_type \<times> string option) list" where
  "contractActionsFor events c =
     (if (case events of Some e \<Rightarrow> xe_contracts e \<noteq> [] | None \<Rightarrow> False)
      then map (\<lambda>x. (ce_actionType x, Some (ce_address x))) (xe_contracts (the events))
      else if (case events of Some e \<Rightarrow> xe_applied e | None \<Rightarrow> False) then []
      else (case toContractActionType (cl_txType c) of Some a \<Rightarrow> [(a, None)] | None \<Rightarrow> []))"

section \<open>Timestamp and runtime version\<close>

definition parseTimestampHex :: "string option \<Rightarrow> nat option" where
  "parseTimestampHex hex =
     (case hex of
        None \<Rightarrow> None
      | Some h \<Rightarrow>
          if h = [] then None
          else (let bs = from_hex (bareHex h) in if length bs < 8 then None else Some (le_val (take 8 bs) div 1000)))"

definition decodeTimestampInherent :: "string list \<Rightarrow> pallet_map \<Rightarrow> nat option" where
  "decodeTimestampInherent extrinsics m =
     (case extrinsics of
        [] \<Rightarrow> None
      | first # _ \<Rightarrow>
          (case parseExtrinsicCall first of
             None \<Rightarrow> None
           | Some (buf, pallet, call, args) \<Rightarrow>
               if map_option pm_name (map_of m pallet) \<noteq> Some ''Timestamp'' \<or> call \<noteq> 0 then None
               else map_option (\<lambda>(v, _). v div 1000) (decodeCompactBigInt buf args)))"

definition resolveTimestamp :: "string option \<Rightarrow> string list \<Rightarrow> string \<Rightarrow> pallet_map \<Rightarrow> nat result" where
  "resolveTimestamp storage extrinsics loc m =
     (case parseTimestampHex storage of
        Some t \<Rightarrow> Inr t
      | None \<Rightarrow>
          (case decodeTimestampInherent extrinsics m of
             Some t \<Rightarrow> Inr t
           | None \<Rightarrow> Inl (js_Error (''No timestamp for '' @ loc @ '': Timestamp storage empty and no Timestamp.set inherent (pruned or racing node)''))))"

text \<open>The runtime version in the node's answer: an integer, or a string of digits.\<close>

definition specVersionFromBatch :: "json option \<Rightarrow> string \<Rightarrow> int result" where
  "specVersionFromBatch rv loc =
     (let bad = Inl (js_Error (''No runtime version for '' @ loc @ '' (pruned or racing node)'')) in
      case rv of
        Some (JNum v) \<Rightarrow> if 0 \<le> v then Inr v else bad
      | Some (JStr s) \<Rightarrow> if s \<noteq> [] \<and> list_all is_digit s then Inr (digits_val s 0) else bad
      | _ \<Rightarrow> bad)"

text \<open>\<open>decoded\<close> is what the registry makes of the raw events, if there is a registry.\<close>

definition decodeBlockEvents :: "string option \<Rightarrow> (string \<Rightarrow> event_record list result) option \<Rightarrow> string \<Rightarrow> nat \<Rightarrow> events_map option result" where
  "decodeBlockEvents raw registry loc n =
     (case (if (case raw of Some r \<Rightarrow> r \<noteq> [] | None \<Rightarrow> False) then registry else None) of
        None \<Rightarrow>
          if n = 0 then Inr None
          else if (case raw of Some r \<Rightarrow> r = [] | None \<Rightarrow> True)
          then Inl (js_Error (''No System.Events for '' @ loc @ '' with '' @ nat_str n @ '' extrinsic(s) (pruned or racing node)''))
          else Inl (js_Error (''No runtime metadata registry to decode System.Events for '' @ loc))
      | Some decode \<Rightarrow>
          (case decode (the raw) of
             Inr records \<Rightarrow> Inr (Some (readBlockEvents records))
           | Inl e \<Rightarrow> Inl (js_Error (''System.Events of '' @ loc @ '' do not decode: '' @ err_message e))))"

section \<open>Projection\<close>

record prepared_utxo =
  pu_owner :: string
  pu_tokenType :: string
  pu_value :: int
  pu_intentHash :: string
  pu_outputIndex :: int
  pu_initialNonce :: string
  pu_ctime :: int

record event_projection =
  ep_created :: "prepared_utxo list"
  ep_spent :: "(string \<times> int) list"
  ep_senderAddress :: "string option"
  ep_receiverAddress :: "string option"
  ep_nightAmount :: "int option"

text \<open>The ledger packages: the Bech32m form of an owner and the initial nonce of an output; both may throw.\<close>

record ledger_pkg =
  encodeUnshieldedOwner :: "string \<Rightarrow> string result"
  computeInitialNonce :: "int \<Rightarrow> string \<Rightarrow> string result"

definition prepare_utxo :: "ledger_pkg \<Rightarrow> int \<Rightarrow> utxo_event \<Rightarrow> prepared_utxo list" where
  "prepare_utxo L t u =
     (case encodeUnshieldedOwner L (ue_address u) of
        Inl _ \<Rightarrow> []
      | Inr owner \<Rightarrow>
          (case computeInitialNonce L (ue_outputNo u) (ue_intentHash u) of
             Inl _ \<Rightarrow> []
           | Inr nonce \<Rightarrow> [\<lparr>pu_owner = owner, pu_tokenType = ue_tokenType u, pu_value = ue_value u, pu_intentHash = ue_intentHash u,
                            pu_outputIndex = ue_outputNo u, pu_initialNonce = nonce, pu_ctime = t\<rparr>]))"

definition encode_party :: "ledger_pkg \<Rightarrow> string option \<Rightarrow> string option result" where
  "encode_party L a =
     (case a of
        None \<Rightarrow> Inr None
      | Some x \<Rightarrow> if x = [] then Inr None else (case encodeUnshieldedOwner L x of Inr s \<Rightarrow> Inr (Some s) | Inl e \<Rightarrow> Inl e))"

definition project_one :: "ledger_pkg \<Rightarrow> int \<Rightarrow> extrinsic_events \<Rightarrow> event_projection" where
  "project_one L t e =
     (let tr = projectTransfer (Some e);
          parties = (case (encode_party L (tp_senderAddress tr), encode_party L (tp_receiverAddress tr)) of
                       (Inr s, Inr r) \<Rightarrow> (s, r) | _ \<Rightarrow> (None, None))
      in \<lparr>ep_created = concat (map (prepare_utxo L t) (xe_created e)),
          ep_spent = map (\<lambda>u. (ue_intentHash u, ue_outputNo u)) (xe_spent e),
          ep_senderAddress = fst parties, ep_receiverAddress = snd parties,
          ep_nightAmount = (if truthy_opt (snd parties) then tp_nightAmount tr else None)\<rparr>)"

definition projectEvents :: "ledger_pkg \<Rightarrow> int \<Rightarrow> events_map option \<Rightarrow> (nat \<times> event_projection) list" where
  "projectEvents L t events =
     (case events of
        None \<Rightarrow> []
      | Some m \<Rightarrow> map (\<lambda>(i, e). (i, project_one L t e)) (filter (\<lambda>(i, e). xe_created e \<noteq> [] \<or> xe_spent e \<noteq> []) m))"

section \<open>Balance changes\<close>

definition add_totals :: "totals \<Rightarrow> totals \<Rightarrow> totals" where
  "add_totals x y = \<lparr>tt_balance = tt_balance x + tt_balance y, tt_utxoCount = tt_utxoCount x + tt_utxoCount y,
     tt_totalReceived = tt_totalReceived x + tt_totalReceived y, tt_txReceivedCount = tt_txReceivedCount x + tt_txReceivedCount y,
     tt_totalSent = tt_totalSent x + tt_totalSent y, tt_txSentCount = tt_txSentCount x + tt_txSentCount y\<rparr>"

definition emptyBalanceDelta :: totals where
  "emptyBalanceDelta = zero_totals"

type_synonym deltas = "(string \<times> totals) list"

text \<open>\<^verbatim>\<open>deltaFor\<close> and the change of the entry it returns.\<close>

definition deltaFor :: "string \<Rightarrow> (totals \<Rightarrow> totals) \<Rightarrow> deltas \<Rightarrow> deltas" where
  "deltaFor a f ds = AList.update a (f (case map_of ds a of Some d \<Rightarrow> d | None \<Rightarrow> emptyBalanceDelta)) ds"

definition received :: "int \<Rightarrow> totals \<Rightarrow> totals" where
  "received v d = d\<lparr>tt_balance := tt_balance d + v, tt_utxoCount := tt_utxoCount d + 1,
                    tt_totalReceived := tt_totalReceived d + v, tt_txReceivedCount := tt_txReceivedCount d + 1\<rparr>"

definition spent_out :: "int \<Rightarrow> totals \<Rightarrow> totals" where
  "spent_out v d = d\<lparr>tt_balance := tt_balance d - v, tt_utxoCount := tt_utxoCount d - 1\<rparr>"

definition sent_out :: "int \<Rightarrow> totals \<Rightarrow> totals" where
  "sent_out v d = d\<lparr>tt_totalSent := tt_totalSent d + v, tt_txSentCount := tt_txSentCount d + 1\<rparr>"

definition created_deltas :: "prepared_utxo list \<Rightarrow> deltas \<Rightarrow> deltas" where
  "created_deltas us ds =
     fold (\<lambda>u ds. if pu_tokenType u \<noteq> NIGHT_RAW_TOKEN_TYPE then ds else deltaFor (pu_owner u) (received (pu_value u)) ds) us ds"

definition sent_deltas :: "event_projection option \<Rightarrow> deltas \<Rightarrow> deltas" where
  "sent_deltas p ds =
     (case p of
        None \<Rightarrow> ds
      | Some e \<Rightarrow>
          (case (ep_senderAddress e, ep_receiverAddress e) of
             (Some s, Some r) \<Rightarrow>
               (let amount = (case ep_nightAmount e of Some n \<Rightarrow> n | None \<Rightarrow> 0) in
                if s \<noteq> [] \<and> r \<noteq> [] \<and> r \<noteq> s \<and> 0 < amount then deltaFor s (sent_out amount) ds else ds)
           | _ \<Rightarrow> ds))"

section \<open>Spends\<close>

definition SPEND_LOOKUP_CHUNK :: nat where "SPEND_LOOKUP_CHUNK = 500"

type_synonym spend = "(string \<times> int) \<times> string"

definition utxo_key :: "utxo_row \<Rightarrow> string \<times> int" where
  "utxo_key u = (ux_intentHash u, ux_outputIndex u)"

definition spend_rows :: "spend list \<Rightarrow> utxo_row list \<Rightarrow> utxo_row list" where
  "spend_rows spends us =
     concat (map (\<lambda>hs. filter (\<lambda>u. ux_intentHash u \<in> set hs) us) (chunks_of SPEND_LOOKUP_CHUNK (js_set (map (fst \<circ> fst) spends))))"

definition byKey_of :: "spend list \<Rightarrow> utxo_row list \<Rightarrow> (string \<times> int) \<rightharpoonup> utxo_row" where
  "byKey_of spends us = fold (\<lambda>r m. m(utxo_key r \<mapsto> r)) (spend_rows spends us) Map.empty"

text \<open>
  The loop over the spends: a row that is found and not spent is marked, in the loaded rows and in the
  list of updates, and leaves its owner's balance.
\<close>

fun spend_loop :: "spend list \<Rightarrow> ((string \<times> int) \<rightharpoonup> utxo_row) \<Rightarrow> (string \<times> string) list \<Rightarrow> deltas \<Rightarrow> (string \<times> string) list \<times> deltas" where
  "spend_loop [] byKey marks ds = (marks, ds)"
| "spend_loop ((k, txId) # rest) byKey marks ds =
     (case byKey k of
        None \<Rightarrow> spend_loop rest byKey marks ds
      | Some row \<Rightarrow>
          if truthy_opt (ux_spent row) then spend_loop rest byKey marks ds
          else spend_loop rest (byKey(k \<mapsto> row\<lparr>ux_spent := Some txId\<rparr>)) (marks @ [(ux_ID row, txId)])
                 (if ux_tokenType row \<noteq> NIGHT_RAW_TOKEN_TYPE then ds else deltaFor (ux_owner row) (spent_out (ux_value row)) ds))"

text \<open>The updates, one per spending transaction, in the order the transactions first appear.\<close>

definition mark_group :: "(string \<times> string) list \<Rightarrow> string \<Rightarrow> utxo_row list \<Rightarrow> utxo_row list" where
  "mark_group marks txId us =
     map (\<lambda>u. if ux_ID u \<in> set (map fst (filter (\<lambda>m. snd m = txId) marks)) then u\<lparr>ux_spent := Some txId\<rparr> else u) us"

definition apply_marks :: "(string \<times> string) list \<Rightarrow> utxo_row list \<Rightarrow> utxo_row list" where
  "apply_marks marks us = fold (mark_group marks) (js_set (map snd marks)) us"

definition applySpends :: "spend list \<Rightarrow> utxo_row list \<Rightarrow> deltas \<Rightarrow> utxo_row list \<times> deltas" where
  "applySpends spends us ds =
     (if spends = [] then (us, ds)
      else (case spend_loop spends (byKey_of spends us) [] ds of (marks, ds') \<Rightarrow> (apply_marks marks us, ds')))"

section \<open>The balance table\<close>

text \<open>\<^verbatim>\<open>Number(existing.firstSeenHeight)\<close>: \<^verbatim>\<open>null\<close> becomes 0.\<close>

definition js_Number_height :: "int option \<Rightarrow> int" where
  "js_Number_height h = (case h of Some n \<Rightarrow> n | None \<Rightarrow> 0)"

definition apply_delta_row :: "int \<Rightarrow> int \<Rightarrow> totals \<Rightarrow> balance_row \<Rightarrow> balance_row" where
  "apply_delta_row t height d b =
     b\<lparr>nb_balance := nb_balance b + tt_balance d, nb_utxoCount := nb_utxoCount b + tt_utxoCount d,
       nb_totalReceived := nb_totalReceived b + tt_totalReceived d, nb_txReceivedCount := nb_txReceivedCount b + tt_txReceivedCount d,
       nb_totalSent := nb_totalSent b + tt_totalSent d, nb_txSentCount := nb_txSentCount b + tt_txSentCount d,
       nb_firstSeenHeight := Some (min (js_Number_height (nb_firstSeenHeight b)) height),
       nb_lastActivityHeight := Some height, nb_lastActivityAt := Some t,
       nb_lastUpdatedHeight := Some height, nb_lastUpdatedAt := Some t\<rparr>"

definition first_delta_row :: "string \<Rightarrow> int \<Rightarrow> int \<Rightarrow> totals \<Rightarrow> balance_row" where
  "first_delta_row a t height d =
     (new_balance_row a t)\<lparr>nb_balance := tt_balance d, nb_utxoCount := tt_utxoCount d, nb_totalReceived := tt_totalReceived d,
       nb_txReceivedCount := tt_txReceivedCount d, nb_totalSent := tt_totalSent d, nb_txSentCount := tt_txSentCount d,
       nb_firstSeenHeight := Some height, nb_lastActivityHeight := Some height, nb_lastActivityAt := Some t,
       nb_lastUpdatedHeight := Some height, nb_lastUpdatedAt := Some t\<rparr>"

definition applyBalanceDelta :: "int \<Rightarrow> int \<Rightarrow> string \<times> totals \<Rightarrow> balance_row list \<Rightarrow> balance_row list" where
  "applyBalanceDelta t height ad bs =
     (case select_one (\<lambda>b. nb_address b = fst ad) bs of
        None \<Rightarrow> bs @ [first_delta_row (fst ad) t height (snd ad)]
      | Some _ \<Rightarrow> snd (update_where (\<lambda>b. nb_address b = fst ad) (apply_delta_row t height (snd ad)) bs))"

section \<open>The transaction\<close>

record prepared_block =
  pb_blockHash :: string
  pb_height :: int
  pb_parentHash :: string
  pb_stateRoot :: string
  pb_extrinsics :: "string list"
  pb_protocolVersion :: int
  pb_palletMap :: pallet_map
  pb_timestamp :: int
  pb_events :: "events_map option"
  pb_author :: "string option"
  pb_slot :: "int option"

record block_env =
  be_now :: int
  be_uuid :: "nat list \<Rightarrow> string"
  be_blake2b :: "bytes \<Rightarrow> bytes"
  be_ledger :: ledger_pkg

definition projection_at :: "block_env \<Rightarrow> prepared_block \<Rightarrow> nat \<Rightarrow> event_projection option" where
  "projection_at env p i = map_of (projectEvents (be_ledger env) (pb_timestamp p) (pb_events p)) i"

definition events_at :: "prepared_block \<Rightarrow> nat \<Rightarrow> extrinsic_events option" where
  "events_at p i = (case pb_events p of Some m \<Rightarrow> map_of m i | None \<Rightarrow> None)"

definition txId_of :: "block_env \<Rightarrow> nat \<Rightarrow> string" where
  "txId_of env i = be_uuid env [1, i]"

definition hashExtrinsic :: "block_env \<Rightarrow> string \<Rightarrow> string" where
  "hashExtrinsic env hex = ''0x'' @ to_hex (be_blake2b env (from_hex (bareHex hex)))"

definition tx_row_of :: "block_env \<Rightarrow> prepared_block \<Rightarrow> nat \<Rightarrow> string \<Rightarrow> tx_row" where
  "tx_row_of env p i hex =
     (let c = classifyExtrinsic hex (pb_palletMap p); ev = events_at p i; pr = projection_at env p i;
          shielded = (if cl_isSystem c then Some False else if cl_isShielded c then Some True else None)
      in \<lparr>tx_ID = txId_of env i, tx_transactionId = i, tx_hash = hashExtrinsic env hex,
          tx_ledgerTxHash = Option.bind ev xe_ledgerTxHash, tx_protocolVersion = pb_protocolVersion p, tx_raw = hexToBase64 hex,
          tx_transactionType = (if cl_isSystem c then ''SYSTEM'' else ''REGULAR''),
          tx_txType = (case txTypeFromEvents ev of Some t \<Rightarrow> t | None \<Rightarrow> cl_txType c), tx_isShielded = shielded,
          tx_senderAddress = Option.bind pr ep_senderAddress, tx_receiverAddress = Option.bind pr ep_receiverAddress,
          tx_nightAmount = Option.bind pr ep_nightAmount, tx_hasProof = shielded,
          tx_contractAddress = Option.bind ev (\<lambda>e. case xe_contracts e of c # _ \<Rightarrow> Some (ce_address c) | [] \<Rightarrow> None),
          tx_circuitName = buildCircuitName c, tx_size = extrinsicSize hex, tx_block = be_uuid env [0]\<rparr>)"

definition result_rows_of :: "block_env \<Rightarrow> prepared_block \<Rightarrow> nat \<Rightarrow> result_row list" where
  "result_rows_of env p i =
     (case outcomeFor (events_at p i) of
        Some oc \<Rightarrow> [\<lparr>rs_ID = be_uuid env [2, i], rs_status = oc, rs_tx = txId_of env i\<rparr>] | None \<Rightarrow> [])"

definition action_rows_of :: "block_env \<Rightarrow> prepared_block \<Rightarrow> nat \<Rightarrow> string \<Rightarrow> action_row list" where
  "action_rows_of env p i hex =
     (let c = classifyExtrinsic hex (pb_palletMap p) in
      map (\<lambda>(k, a). \<lparr>ca_ID = be_uuid env [4, i, k], ca_actionIndex = k, ca_address = snd a, ca_actionType = fst a,
                     ca_entryPoint = buildCircuitName c, ca_tx = txId_of env i\<rparr>)
        (enumerate 0 (contractActionsFor (events_at p i) c)))"

definition created_of :: "block_env \<Rightarrow> prepared_block \<Rightarrow> nat \<Rightarrow> prepared_utxo list" where
  "created_of env p i = (case projection_at env p i of Some e \<Rightarrow> ep_created e | None \<Rightarrow> [])"

definition utxo_row_of :: "block_env \<Rightarrow> nat \<Rightarrow> nat \<Rightarrow> prepared_utxo \<Rightarrow> utxo_row" where
  "utxo_row_of env i k u =
     \<lparr>ux_ID = be_uuid env [5, i, k], ux_owner = pu_owner u, ux_tokenType = pu_tokenType u, ux_value = pu_value u,
      ux_intentHash = pu_intentHash u, ux_outputIndex = pu_outputIndex u, ux_initialNonce = pu_initialNonce u, ux_ctime = pu_ctime u,
      ux_created = txId_of env i, ux_spent = None\<rparr>"

definition utxo_rows_of :: "block_env \<Rightarrow> prepared_block \<Rightarrow> nat \<Rightarrow> utxo_row list" where
  "utxo_rows_of env p i = map (\<lambda>(k, u). utxo_row_of env i k u) (enumerate 0 (created_of env p i))"

definition spends_of :: "block_env \<Rightarrow> prepared_block \<Rightarrow> nat \<Rightarrow> spend list" where
  "spends_of env p i = (case projection_at env p i of Some e \<Rightarrow> map (\<lambda>k. (k, txId_of env i)) (ep_spent e) | None \<Rightarrow> [])"

definition loop_deltas :: "block_env \<Rightarrow> prepared_block \<Rightarrow> nat list \<Rightarrow> deltas" where
  "loop_deltas env p is = fold (\<lambda>i ds. sent_deltas (projection_at env p i) (created_deltas (created_of env p i) ds)) is []"

definition persist_rows :: "block_env \<Rightarrow> prepared_block \<Rightarrow> string option \<Rightarrow> index_db \<Rightarrow> index_db" where
  "persist_rows env p parentId db =
     (let is = [0..<length (pb_extrinsics p)]; xs = enumerate 0 (pb_extrinsics p);
          utxos = ix_utxos db @ concat (map (utxo_rows_of env p) is)
      in case applySpends (concat (map (spends_of env p) is)) utxos (loop_deltas env p is) of
           (utxos', ds) \<Rightarrow>
             db\<lparr>ix_blocks := ix_blocks db @
                  [\<lparr>bl_ID = be_uuid env [0], bl_hash = pb_blockHash p, bl_height = pb_height p, bl_protocolVersion = pb_protocolVersion p,
                    bl_timestamp = pb_timestamp p, bl_author = pb_author p, bl_slot = pb_slot p, bl_stateRoot = pb_stateRoot p, bl_parent = parentId\<rparr>],
                ix_txs := ix_txs db @ map (\<lambda>(i, hex). tx_row_of env p i hex) xs,
                ix_results := ix_results db @ concat (map (result_rows_of env p) is),
                ix_fees := ix_fees db @ map (\<lambda>i. \<lparr>cr_ID = be_uuid env [3, i], cr_ref = txId_of env i\<rparr>) is,
                ix_actions := ix_actions db @ concat (map (\<lambda>(i, hex). action_rows_of env p i hex) xs),
                ix_utxos := utxos',
                ix_balances := fold (applyBalanceDelta (be_now env) (pb_height p)) ds (ix_balances db),
                ix_sync := (ix_sync db)\<lparr>ss_lastIndexedHeight := pb_height p, ss_lastIndexedHash := Some (pb_blockHash p),
                                        ss_lastIndexedAt := Some (be_now env), ss_syncStatus := ''syncing''\<rparr>\<rparr>)"

definition blockExists :: "string \<Rightarrow> index_db \<Rightarrow> bool" where
  "blockExists hash db \<longleftrightarrow> list_ex (\<lambda>b. bl_hash b = hash) (ix_blocks db)"

text \<open>
  The body of the transaction: the parent check, the unique constraints on the block hash and on created outputs,
  the rows. It counts the transactions and contract actions it wrote.
\<close>

definition persist_tx :: "block_env \<Rightarrow> prepared_block \<Rightarrow> bool \<Rightarrow> index_db \<Rightarrow> (nat \<times> nat) result \<times> index_db" where
  "persist_tx env p requireParent db =
     (let parent = select_one (\<lambda>b. bl_hash b = pb_parentHash p) (ix_blocks db);
          db' = persist_rows env p (map_option bl_ID parent) db
      in if requireParent \<and> 0 < pb_height p \<and> parent = None
         then (Inl (js_Error (''Parent block '' @ pb_parentHash p @ '' of block '' @ int_str (pb_height p)
                @ '' is not indexed; refusing to persist an orphan (index gap)'')), db)
         else if blockExists (pb_blockHash p) db \<or> \<not> distinct (map utxo_key (ix_utxos db'))
         then (Inl \<lparr>err_code = ''UNIQUE_CONSTRAINT'', err_message = ''UNIQUE constraint failed''\<rparr>, db)
         else (Inr (length (pb_extrinsics p), length (ix_actions db') - length (ix_actions db)), db'))"

text \<open>
  \<^verbatim>\<open>persistFromNode\<close>; \<open>fault\<close> is an error of the driver. A unique violation of a block that exists is a block
  another writer stored: nothing is lost.
\<close>

definition persistFromNode :: "block_env \<Rightarrow> js_error option \<Rightarrow> prepared_block \<Rightarrow> bool \<Rightarrow> index_db \<Rightarrow> (nat \<times> nat) result \<times> index_db" where
  "persistFromNode env fault p requireParent db =
     (case db_tx (\<lambda>_. fault) (persist_tx env p requireParent) 0 db of
        (Inr c, db') \<Rightarrow> (Inr c, db')
      | (Inl e, db') \<Rightarrow> if isUniqueViolation e \<and> blockExists (pb_blockHash p) db' then (Inr (0, 0), db') else (Inl e, db'))"

text \<open>\<^verbatim>\<open>persistPreparedBlock\<close>: \<^const>\<open>None\<close> is a block that was already indexed when it was fetched.\<close>

definition persistPreparedBlock :: "block_env \<Rightarrow> js_error option \<Rightarrow> prepared_block option \<Rightarrow> index_db \<Rightarrow> (nat \<times> nat) result \<times> index_db" where
  "persistPreparedBlock env fault prep db =
     (case prep of None \<Rightarrow> (Inr (0, 0), db) | Some p \<Rightarrow> persistFromNode env fault p True db)"

section \<open>Facts\<close>

text \<open>Totals add up over the rows.\<close>

lemma add_totals_simps [simp]:
  "add_totals x zero_totals = x" "add_totals zero_totals x = x"
  by (simp_all add: add_totals_def zero_totals_def)

lemma add_totals_assoc: "add_totals (add_totals x y) z = add_totals x (add_totals y z)"
  by (simp add: add_totals_def algebra_simps)

lemma totals_append:
  "totals_of_rows (us @ vs) (ts @ ts') a = add_totals (totals_of_rows us ts a) (totals_of_rows vs ts' a)"
  by (simp add: totals_of_rows_def add_totals_def night_utxos_def sent_txs_def Let_def)

lemma totals_split: "totals_of_rows us ts a = add_totals (totals_of_rows us [] a) (totals_of_rows [] ts a)"
  using totals_append [of us "[]" "[]" ts a] by simp

lemma totals_Nil [simp]: "totals_of_rows [] [] a = zero_totals"
  by (simp add: totals_of_rows_def zero_totals_def night_utxos_def sent_txs_def)

lemma totals_utxo:
  "totals_of_rows [u] [] a =
     (if ux_owner u = a \<and> ux_tokenType u = NIGHT_RAW_TOKEN_TYPE
      then (if unspent u then received (ux_value u) zero_totals
            else spent_out (ux_value u) (received (ux_value u) zero_totals))
      else zero_totals)"
  by (simp add: totals_of_rows_def night_utxos_def sent_txs_def received_def spent_out_def zero_totals_def)

lemma delta_adds:
  "received v (add_totals x y) = add_totals x (received v y)"
  "spent_out v (add_totals x y) = add_totals x (spent_out v y)"
  "sent_out v (add_totals x y) = add_totals x (sent_out v y)"
  by (simp_all add: received_def spent_out_def sent_out_def add_totals_def)

text \<open>The change recorded for an address.\<close>

definition delta_of :: "deltas \<Rightarrow> string \<Rightarrow> totals" where
  "delta_of ds a = (case map_of ds a of Some d \<Rightarrow> d | None \<Rightarrow> zero_totals)"

lemma delta_of_deltaFor: "delta_of (deltaFor a f ds) c = (if c = a then f (delta_of ds a) else delta_of ds c)"
  by (cases "map_of ds a") (simp_all add: delta_of_def deltaFor_def emptyBalanceDelta_def update_conv')

lemma deltaFor_distinct: "distinct (map fst ds) \<Longrightarrow> distinct (map fst (deltaFor a f ds))"
  by (simp add: deltaFor_def distinct_update)

lemma stored_applyBalanceDelta:
  "stored_totals (applyBalanceDelta t h (c, d) bs) a =
     (if a = c then add_totals (stored_totals bs a) d else stored_totals bs a)"
proof -
  have addr: "nb_address (apply_delta_row t h d b) = nb_address b" "nb_address (first_delta_row c t h d) = c" for b
    by (simp_all add: apply_delta_row_def first_delta_row_def new_balance_row_def)
  have tot: "totals_of_row (apply_delta_row t h d b) = add_totals (totals_of_row b) d" "totals_of_row (first_delta_row c t h d) = d" for b
    by (simp_all add: totals_of_row_def apply_delta_row_def first_delta_row_def add_totals_def)
  show ?thesis
    by (auto simp: applyBalanceDelta_def stored_totals_def select_update_other select_update_same select_append_row addr tot
        split: option.splits)
qed

lemma stored_fold:
  "distinct (map fst ds) \<Longrightarrow> stored_totals (fold (applyBalanceDelta t h) ds bs) a = add_totals (stored_totals bs a) (delta_of ds a)"
proof (induction ds arbitrary: bs)
  case (Cons cd ds)
  obtain c d where cd: "cd = (c, d)" by (cases cd)
  have "map_of ds c = None" using Cons.prems by (simp add: cd map_of_eq_None_iff)
  then have "delta_of ds c = zero_totals" by (simp add: delta_of_def)
  then show ?case
    using Cons by (auto simp: cd stored_applyBalanceDelta delta_of_def)
qed (simp add: delta_of_def)

text \<open>Created outputs and sent amounts.\<close>

lemma created_deltas_distinct: "distinct (map fst ds) \<Longrightarrow> distinct (map fst (created_deltas us ds))"
  unfolding created_deltas_def by (induction us arbitrary: ds) (simp_all add: deltaFor_distinct)

lemma sent_deltas_distinct: "distinct (map fst ds) \<Longrightarrow> distinct (map fst (sent_deltas p ds))"
  by (simp add: sent_deltas_def deltaFor_distinct Let_def split: option.splits)

lemma utxo_rows_totals:
  "delta_of (created_deltas us ds) a =
     add_totals (delta_of ds a) (totals_of_rows (map (\<lambda>(k, u). utxo_row_of env i k u) (enumerate n us)) [] a)"
proof (induction us arbitrary: ds n)
  case (Cons u us)
  have row: "totals_of_rows [utxo_row_of env i n u] [] a =
      (if pu_owner u = a \<and> pu_tokenType u = NIGHT_RAW_TOKEN_TYPE then received (pu_value u) zero_totals else zero_totals)"
    by (simp add: totals_utxo utxo_row_of_def unspent_def truthy_opt_def)
  have one: "delta_of (created_deltas [u] ds) a = add_totals (delta_of ds a) (totals_of_rows [utxo_row_of env i n u] [] a)"
    by (auto simp: created_deltas_def delta_of_deltaFor row delta_adds [symmetric])
  have "created_deltas (u # us) ds = created_deltas us (created_deltas [u] ds)" by (simp add: created_deltas_def)
  then show ?case
    using Cons.IH [of "created_deltas [u] ds" "Suc n"] one
      totals_append [of "[utxo_row_of env i n u]" "map (\<lambda>(k, u). utxo_row_of env i k u) (enumerate (Suc n) us)" "[]" "[]" a]
    by (simp add: add_totals_assoc)
qed (simp add: created_deltas_def)

lemma sent_deltas_totals:
  assumes "a \<noteq> []"
    and "tx_senderAddress t = Option.bind p ep_senderAddress" "tx_receiverAddress t = Option.bind p ep_receiverAddress"
      "tx_nightAmount t = Option.bind p ep_nightAmount"
  shows "delta_of (sent_deltas p ds) a = add_totals (delta_of ds a) (totals_of_rows [] [t] a)"
proof -
  have row: "totals_of_rows [] [t] a =
      (if tx_senderAddress t = Some a \<and> truthy_opt (tx_receiverAddress t) \<and> tx_receiverAddress t \<noteq> Some a \<and> 0 < amount_of t
       then sent_out (amount_of t) zero_totals else zero_totals)"
    by (simp add: totals_of_rows_def night_utxos_def sent_txs_def sent_out_def zero_totals_def)
  show ?thesis
    using assms
    by (auto simp: sent_deltas_def row delta_of_deltaFor amount_of_def truthy_opt_def Let_def delta_adds [symmetric]
        split: option.splits)
qed

text \<open>The rows of the extrinsics \<open>is\<close>, as they add up.\<close>

definition tx_rows_of :: "block_env \<Rightarrow> prepared_block \<Rightarrow> nat list \<Rightarrow> tx_row list" where
  "tx_rows_of env p is = map (\<lambda>i. tx_row_of env p i (pb_extrinsics p ! i)) is"

lemma tx_rows_enumerate:
  "map (\<lambda>(i, hex). tx_row_of env p i hex) (enumerate 0 (pb_extrinsics p)) = tx_rows_of env p [0..<length (pb_extrinsics p)]"
  by (rule nth_equalityI) (simp_all add: tx_rows_of_def nth_enumerate_eq)

lemma loop_deltas_totals:
  assumes "a \<noteq> []"
  shows "delta_of (fold (\<lambda>i ds. sent_deltas (projection_at env p i) (created_deltas (created_of env p i) ds)) is ds) a =
     add_totals (delta_of ds a) (totals_of_rows (concat (map (utxo_rows_of env p) is)) (tx_rows_of env p is) a)"
proof (induction "is" arbitrary: ds)
  case (Cons i "is")
  let ?t = "tx_row_of env p i (pb_extrinsics p ! i)"
  let ?ds = "sent_deltas (projection_at env p i) (created_deltas (created_of env p i) ds)"
  have "delta_of ?ds a = add_totals (delta_of (created_deltas (created_of env p i) ds) a) (totals_of_rows [] [?t] a)"
    by (rule sent_deltas_totals [OF assms]) (simp_all add: tx_row_of_def Let_def)
  also have "\<dots> = add_totals (delta_of ds a) (totals_of_rows (utxo_rows_of env p i) [?t] a)"
    using utxo_rows_totals [of "created_of env p i" ds a env i 0] totals_split [of "utxo_rows_of env p i" "[?t]" a]
    by (simp add: utxo_rows_of_def add_totals_assoc)
  finally have one: "delta_of ?ds a = add_totals (delta_of ds a) (totals_of_rows (utxo_rows_of env p i) [?t] a)" .
  show ?case
    using Cons.IH [of ?ds] one
      totals_append [of "utxo_rows_of env p i" "concat (map (utxo_rows_of env p) is)" "[?t]" "tx_rows_of env p is" a]
    by (simp add: tx_rows_of_def add_totals_assoc)
qed (simp add: tx_rows_of_def)

lemma loop_deltas_distinct:
  "distinct (map fst ds) \<Longrightarrow>
   distinct (map fst (fold (\<lambda>i ds. sent_deltas (projection_at env p i) (created_deltas (created_of env p i) ds)) is ds))"
  by (induction "is" arbitrary: ds) (simp_all add: created_deltas_distinct sent_deltas_distinct)

text \<open>The marks of the spends: grouped by transaction they do what they do one by one.\<close>

definition marked :: "(string \<times> string) list \<Rightarrow> utxo_row list \<Rightarrow> utxo_row list" where
  "marked marks us = map (\<lambda>u. case map_of marks (ux_ID u) of Some t \<Rightarrow> u\<lparr>ux_spent := Some t\<rparr> | None \<Rightarrow> u) us"

lemma mark_group_iff:
  "distinct (map fst marks) \<Longrightarrow> i \<in> set (map fst (filter (\<lambda>m. snd m = t) marks)) \<longleftrightarrow> map_of marks i = Some t"
  by (force simp: map_of_eq_Some_iff)

lemma mark_group_rows:
  "distinct (map fst marks) \<Longrightarrow>
   mark_group marks t us = map (\<lambda>u. if map_of marks (ux_ID u) = Some t then u\<lparr>ux_spent := Some t\<rparr> else u) us"
  by (simp only: mark_group_def mark_group_iff)

lemma fold_mark_group:
  assumes d: "distinct (map fst marks)"
  shows "fold (mark_group marks) T us =
     map (\<lambda>u. case map_of marks (ux_ID u) of Some t \<Rightarrow> if t \<in> set T then u\<lparr>ux_spent := Some t\<rparr> else u | None \<Rightarrow> u) us"
proof (induction T arbitrary: us)
  case Nil
  show ?case by (simp add: map_idI split: option.splits)
next
  case (Cons t T)
  show ?case
    unfolding fold_Cons comp_def Cons.IH
    by (auto simp: mark_group_rows [OF d] split: option.splits)
qed

lemma apply_marks_marked: "distinct (map fst marks) \<Longrightarrow> apply_marks marks us = marked marks us"
  by (force simp: apply_marks_def marked_def fold_mark_group dest: map_of_SomeD split: option.splits)

lemma marked_append: "marked marks (us @ vs) = marked marks us @ marked marks vs"
  by (simp add: marked_def)

lemma marked_snoc_other:
  "i \<notin> ux_ID ` set us \<Longrightarrow> marked (marks @ [(i, t)]) us = marked marks us"
  by (auto simp: marked_def map_add_def split: option.splits)

text \<open>One more mark on an unspent row takes the row's value from its owner's balance.\<close>

lemma marked_snoc:
  assumes d: "distinct (map ux_ID us)" and u: "u \<in> set us" "unspent u" and i: "ux_ID u \<notin> fst ` set marks" and t: "t \<noteq> []"
  shows "totals_of_rows (marked (marks @ [(ux_ID u, t)]) us) ts a =
     (if ux_owner u = a \<and> ux_tokenType u = NIGHT_RAW_TOKEN_TYPE then spent_out (ux_value u) (totals_of_rows (marked marks us) ts a)
      else totals_of_rows (marked marks us) ts a)"
proof -
  obtain pre post where us: "us = pre @ u # post" using u(1) by (auto simp: in_set_conv_decomp)
  have n: "map_of marks (ux_ID u) = None" using i by (simp add: map_of_eq_None_iff)
  have n': "map_of (marks @ [(ux_ID u, t)]) (ux_ID u) = Some t" using n by (simp add: map_add_def)
  have others: "ux_ID u \<notin> ux_ID ` set pre" "ux_ID u \<notin> ux_ID ` set post" using d us by auto
  have m0: "marked marks us = marked marks pre @ [u] @ marked marks post"
    by (simp add: us marked_append) (simp add: marked_def n)
  have m1: "marked (marks @ [(ux_ID u, t)]) us = marked marks pre @ [u\<lparr>ux_spent := Some t\<rparr>] @ marked marks post"
    using marked_snoc_other [OF others(1)] marked_snoc_other [OF others(2)] marked_append [of _ "[u]" post]
    by (simp add: us marked_append) (simp add: marked_def n' del: map_of_append)
  have "\<not> unspent (u\<lparr>ux_spent := Some t\<rparr>)" using t by (simp add: unspent_def truthy_opt_def)
  then have one: "totals_of_rows [u\<lparr>ux_spent := Some t\<rparr>] [] a =
      (if ux_owner u = a \<and> ux_tokenType u = NIGHT_RAW_TOKEN_TYPE then spent_out (ux_value u) (totals_of_rows [u] [] a) else totals_of_rows [u] [] a)"
    using u(2) by (simp add: totals_utxo)
  have cut: "totals_of_rows (A @ [x] @ B) ts a = add_totals (totals_of_rows A [] a) (add_totals (totals_of_rows B ts a) (totals_of_rows [x] [] a))" for A B x
    using totals_append [of A "[x] @ B" "[]" ts a] totals_append [of "[x]" B "[]" ts a] by (simp add: add_totals_def algebra_simps)
  show ?thesis unfolding m0 m1 cut one by (simp add: delta_adds)
qed

text \<open>The loaded rows mirror the table and the marks made so far.\<close>

definition mirrors :: "utxo_row list \<Rightarrow> (string \<times> string) list \<Rightarrow> utxo_row \<Rightarrow> utxo_row \<Rightarrow> bool" where
  "mirrors us marks row u \<longleftrightarrow>
     u \<in> set us \<and> utxo_key u = utxo_key row \<and> ux_ID u = ux_ID row \<and> ux_owner u = ux_owner row \<and> ux_tokenType u = ux_tokenType row
     \<and> ux_value u = ux_value row
     \<and> (truthy_opt (ux_spent row) \<longleftrightarrow> truthy_opt (ux_spent u) \<or> ux_ID u \<in> fst ` set marks)"

definition loaded :: "utxo_row list \<Rightarrow> (string \<times> string) list \<Rightarrow> ((string \<times> int) \<rightharpoonup> utxo_row) \<Rightarrow> bool" where
  "loaded us marks byKey \<longleftrightarrow> (\<forall>k row. byKey k = Some row \<longrightarrow> utxo_key row = k \<and> (\<exists>u. mirrors us marks row u))"

lemma fold_byKey:
  "fold (\<lambda>r m. m(utxo_key r \<mapsto> r)) rs m k = Some row \<Longrightarrow> (row \<in> set rs \<and> utxo_key row = k) \<or> m k = Some row"
proof (induction rs arbitrary: m)
  case (Cons r rs)
  have "row \<in> set rs \<and> utxo_key row = k \<or> (m(utxo_key r \<mapsto> r)) k = Some row"
    by (rule Cons.IH) (use Cons.prems in \<open>simp only: fold_Cons comp_def\<close>)
  then show ?case by (cases "k = utxo_key r") auto
qed simp

lemma loadedD: "loaded us marks byKey \<Longrightarrow> byKey k = Some row \<Longrightarrow> utxo_key row = k \<and> (\<exists>u. mirrors us marks row u)"
  unfolding loaded_def by blast

lemma byKey_loaded: "loaded us [] (byKey_of spends us)"
proof -
  have sub: "set (spend_rows spends us) \<subseteq> set us" by (auto simp: spend_rows_def)
  have "utxo_key row = k \<and> mirrors us [] row row" if "byKey_of spends us k = Some row" for k row
    using fold_byKey [OF that [unfolded byKey_of_def]] sub by (auto simp: mirrors_def)
  then show ?thesis unfolding loaded_def by blast
qed

lemma loaded_mark:
  assumes l: "loaded us marks byKey" and d: "distinct (map ux_ID us)" and k: "byKey k = Some row" and t: "t \<noteq> []"
  shows "loaded us (marks @ [(ux_ID row, t)]) (byKey(k \<mapsto> row\<lparr>ux_spent := Some t\<rparr>))"
  unfolding loaded_def
proof (intro allI impI)
  fix k' row' assume k': "(byKey(k \<mapsto> row\<lparr>ux_spent := Some t\<rparr>)) k' = Some row'"
  obtain u where u: "mirrors us marks row u" "utxo_key row = k" using loadedD [OF l k] by blast
  show "utxo_key row' = k' \<and> (\<exists>u. mirrors us (marks @ [(ux_ID row, t)]) row' u)"
  proof (cases "k' = k")
    case True
    then have row': "row' = row\<lparr>ux_spent := Some t\<rparr>" using k' by simp
    have "truthy_opt (Some t)" using t by (simp add: truthy_opt_def)
    then have "mirrors us (marks @ [(ux_ID row, t)]) row' u" using u by (auto simp: mirrors_def row' utxo_key_def)
    then show ?thesis using u(2) True row' by (auto simp: utxo_key_def)
  next
    case False
    then have b: "byKey k' = Some row'" using k' by simp
    then obtain u' where u': "mirrors us marks row' u'" "utxo_key row' = k'" using loadedD [OF l b] by blast
    have "u' \<noteq> u" using False u u' by (auto simp: mirrors_def)
    then have "ux_ID u' \<noteq> ux_ID row" using u u' distinct_map_eqD [OF d, of u' u] by (auto simp: mirrors_def)
    then show ?thesis using u' by (intro conjI exI [of _ u']) (auto simp: mirrors_def)
  qed
qed

lemma spend_loop_totals:
  assumes d: "distinct (map ux_ID us)"
  shows "loaded us marks byKey \<Longrightarrow> distinct (map fst marks) \<Longrightarrow> distinct (map fst ds) \<Longrightarrow> list_all (\<lambda>s. snd s \<noteq> []) spends \<Longrightarrow>
    (\<And>a. a \<noteq> [] \<Longrightarrow> totals_of_rows (marked marks us) ts a = add_totals (was a) (delta_of ds a)) \<Longrightarrow>
    spend_loop spends byKey marks ds = (marks', ds') \<Longrightarrow>
    distinct (map fst marks') \<and> distinct (map fst ds')
    \<and> (\<forall>a. a \<noteq> [] \<longrightarrow> totals_of_rows (marked marks' us) ts a = add_totals (was a) (delta_of ds' a))"
proof (induction spends arbitrary: byKey marks ds)
  case (Cons sp spends)
  obtain k t where sp: "sp = (k, t)" by (cases sp)
  have t: "t \<noteq> []" and rest: "list_all (\<lambda>s. snd s \<noteq> []) spends" using Cons.prems(4) by (auto simp: sp)
  show ?case
  proof (cases "\<exists>row. byKey k = Some row \<and> \<not> truthy_opt (ux_spent row)")
    case False
    then have "spend_loop spends byKey marks ds = (marks', ds')"
      using Cons.prems(6) by (auto simp: sp split: option.splits if_splits)
    then show ?thesis using Cons.IH Cons.prems(1,2,3,5) rest by blast
  next
    case True
    then obtain row where row: "byKey k = Some row" "\<not> truthy_opt (ux_spent row)" by blast
    then obtain u where u: "mirrors us marks row u" using loadedD [OF Cons.prems(1)] by blast
    let ?marks = "marks @ [(ux_ID row, t)]"
    let ?ds = "if ux_tokenType row \<noteq> NIGHT_RAW_TOKEN_TYPE then ds else deltaFor (ux_owner row) (spent_out (ux_value row)) ds"
    have u': "u \<in> set us" "unspent u" "ux_ID u \<notin> fst ` set marks" "ux_ID u = ux_ID row"
      using u row(2) unfolding mirrors_def unspent_def by blast+
    have "totals_of_rows (marked ?marks us) ts a = add_totals (was a) (delta_of ?ds a)" if "a \<noteq> []" for a
      using marked_snoc [OF d u'(1,2,3) t, of ts a] Cons.prems(5) [OF that] u
      by (auto simp: u'(4) mirrors_def delta_of_deltaFor delta_adds)
    moreover have "distinct (map fst ?marks)" using Cons.prems(2) u'(3,4) by simp
    moreover have "distinct (map fst ?ds)" using Cons.prems(3) by (simp add: deltaFor_distinct)
    moreover have "spend_loop spends (byKey(k \<mapsto> row\<lparr>ux_spent := Some t\<rparr>)) ?marks ?ds = (marks', ds')"
      using Cons.prems(6) row by (simp add: sp)
    ultimately show ?thesis using Cons.IH loaded_mark [OF Cons.prems(1) d row(1) t] rest by blast
  qed
qed simp

lemma applySpends_totals:
  assumes d: "distinct (map ux_ID us)" and ds: "distinct (map fst ds)" and t: "list_all (\<lambda>s. snd s \<noteq> []) spends"
    and was: "\<And>a. a \<noteq> [] \<Longrightarrow> totals_of_rows us ts a = add_totals (was a) (delta_of ds a)"
    and run: "applySpends spends us ds = (us', ds')"
  shows "distinct (map fst ds') \<and> (\<forall>a. a \<noteq> [] \<longrightarrow> totals_of_rows us' ts a = add_totals (was a) (delta_of ds' a))"
proof (cases "spends = []")
  case True
  then show ?thesis using run ds was by (auto simp: applySpends_def)
next
  case False
  obtain marks where m: "spend_loop spends (byKey_of spends us) [] ds = (marks, ds')" and us': "us' = apply_marks marks us"
    using run False by (auto simp: applySpends_def split: prod.splits)
  have nil: "marked [] us = us" by (simp add: marked_def)
  have "distinct (map fst marks) \<and> distinct (map fst ds')
     \<and> (\<forall>a. a \<noteq> [] \<longrightarrow> totals_of_rows (marked marks us) ts a = add_totals (was a) (delta_of ds' a))"
    by (rule spend_loop_totals [OF d byKey_loaded _ ds t _ m]) (simp_all add: nil was)
  then show ?thesis by (simp add: us' apply_marks_marked)
qed

text \<open>New identifiers: not empty, and those of the new outputs differ from each other and from the stored ones.\<close>

definition fresh_ids :: "block_env \<Rightarrow> prepared_block \<Rightarrow> index_db \<Rightarrow> bool" where
  "fresh_ids env p db \<longleftrightarrow>
     be_uuid env [0] \<noteq> [] \<and> list_all (\<lambda>i. txId_of env i \<noteq> []) [0..<length (pb_extrinsics p)]
     \<and> distinct (map ux_ID (concat (map (utxo_rows_of env p) [0..<length (pb_extrinsics p)])))
     \<and> list_all (\<lambda>u. ux_ID u \<notin> ux_ID ` set (ix_utxos db)) (concat (map (utxo_rows_of env p) [0..<length (pb_extrinsics p)]))"

lemma distinct_map_append:
  "distinct (map f xs) \<Longrightarrow> distinct (map f ys) \<Longrightarrow> list_all (\<lambda>y. f y \<notin> f ` set xs) ys \<Longrightarrow> distinct (map f (xs @ ys))"
  by (induction ys) (auto simp: list_all_iff)

lemma persist_rows_exact:
  assumes fresh: "fresh_ids env p db" and old: "distinct (map ux_ID (ix_utxos db))" and exact: "balances_exact db"
  shows "balances_exact (persist_rows env p parentId db)"
proof -
  let ?is = "[0..<length (pb_extrinsics p)]"
  let ?us = "ix_utxos db @ concat (map (utxo_rows_of env p) ?is)" and ?ts = "ix_txs db @ tx_rows_of env p ?is"
  obtain us' ds' where run: "applySpends (concat (map (spends_of env p) ?is)) ?us (loop_deltas env p ?is) = (us', ds')" by fastforce
  have t: "list_all (\<lambda>s. snd s \<noteq> []) (concat (map (spends_of env p) ?is))"
    using fresh by (auto simp: fresh_ids_def list_all_iff spends_of_def split: option.splits)
  have base: "totals_of_rows ?us ?ts a = add_totals (stored_totals (ix_balances db) a) (delta_of (loop_deltas env p ?is) a)" if "a \<noteq> []" for a
    using loop_deltas_totals [OF that, of env p ?is "[]"] exact that
    by (simp add: totals_append loop_deltas_def balances_exact_def) (simp add: delta_of_def)
  have d: "distinct (map ux_ID ?us)"
    by (rule distinct_map_append) (use fresh old in \<open>simp_all add: fresh_ids_def\<close>)
  have "distinct (map fst ds') \<and> (\<forall>a. a \<noteq> [] \<longrightarrow> totals_of_rows us' ?ts a = add_totals (stored_totals (ix_balances db) a) (delta_of ds' a))"
    by (rule applySpends_totals [OF d _ t base run]) (simp add: loop_deltas_def loop_deltas_distinct)
  then show ?thesis
    using run by (simp add: balances_exact_def persist_rows_def Let_def tx_rows_enumerate stored_fold)
qed

end
