(* ===== verification/Rollback.thy ===== *)
theory Rollback
  imports Block_Processor
begin

text \<open>
  Removing indexed blocks after a reorganisation (\<^verbatim>\<open>srv/crawler/rollback.ts\<close>): all rows of
  the removed blocks, the inclusion data recorded on jobs and submissions, and the balances of every
  address the removed rows touched. The whole runs in one transaction.
\<close>

section \<open>Recorded inclusion data\<close>

definition at_or_above :: "int \<Rightarrow> int option \<Rightarrow> bool" where
  "at_or_above h v = (case v of Some x \<Rightarrow> h \<le> x | None \<Rightarrow> False)"

definition cleared_sub :: "submission \<Rightarrow> submission" where
  "cleared_sub s = s\<lparr>ps_status := SubPending, ps_finalizedAt := None, ps_finalizedTxData := None,
     ps_chainBlockHeight := None, ps_chainBlockHash := None, ps_indexerTxHash := None\<rparr>"

definition included_guard :: "int \<Rightarrow> submission \<Rightarrow> bool" where
  "included_guard h s \<longleftrightarrow> at_or_above h (ps_chainBlockHeight s) \<and> (ps_status s = SubIncluded \<or> ps_status s = SubFinalized)"

definition failed_attempt_guard :: "int \<Rightarrow> submission \<Rightarrow> bool" where
  "failed_attempt_guard h s \<longleftrightarrow>
     at_or_above h (ps_chainBlockHeight s) \<and> ps_status s = SubFailed \<and> ps_errorCode s = Some ''CHAIN_EXECUTION_FAILED''"

definition clear_chain :: "job \<Rightarrow> job" where
  "clear_chain j = j\<lparr>chainStatus := Some ChainPending, chainFinalizedAt := None, chainSegments := None,
     chainBlockHeight := None, chainBlockHash := None, indexerTxHash := None\<rparr>"

definition reopen_guard :: "int \<Rightarrow> job \<Rightarrow> bool" where
  "reopen_guard h j \<longleftrightarrow>
     at_or_above h (chainBlockHeight j) \<and> status j = Failed \<and> errorCode j = Some ''CHAIN_EXECUTION_FAILED''"

definition reopen_patch :: "job \<Rightarrow> job" where
  "reopen_patch j = clear_chain (j\<lparr>status := ReconciliationRequired, errorCode := None, errorMessage := None, finishedAt := None\<rparr>)"

definition outcome_guard :: "int \<Rightarrow> job \<Rightarrow> bool" where
  "outcome_guard h j \<longleftrightarrow>
     at_or_above h (chainBlockHeight j) \<and> (chainStatus j = Some ChainSuccess \<or> chainStatus j = Some ChainFailure)"

definition revertSubmissionEvidence :: "int \<Rightarrow> jdb \<Rightarrow> (nat \<times> nat) \<times> jdb" where
  "revertSubmissionEvidence h db =
     (case update_where (included_guard h) cleared_sub (db_subs db) of
        (n1, ss1) \<Rightarrow>
      (case update_where (failed_attempt_guard h) (\<lambda>s. (cleared_sub s)\<lparr>ps_errorCode := None, ps_errorMessage := None\<rparr>) ss1 of
        (n2, ss2) \<Rightarrow>
      (case update_where (reopen_guard h) reopen_patch (db_jobs db) of
        (n3, js3) \<Rightarrow>
      (case update_where (outcome_guard h) clear_chain js3 of
        (n4, js4) \<Rightarrow> ((n1 + n2, n3 + n4), db\<lparr>db_subs := ss2, db_jobs := js4\<rparr>)))))"

section \<open>The index\<close>

text \<open>Deletes by reference, one piece of the identifiers at a time.\<close>

definition delete_actions_parts :: "string list \<Rightarrow> index_db \<Rightarrow> index_db" where
  "delete_actions_parts ids db = db\<lparr>ix_contractBalances := filter (\<lambda>r. cr_ref r \<notin> set ids) (ix_contractBalances db)\<rparr>"

definition delete_segments :: "string list \<Rightarrow> index_db \<Rightarrow> index_db" where
  "delete_segments ids db = db\<lparr>ix_segments := filter (\<lambda>r. cr_ref r \<notin> set ids) (ix_segments db)\<rparr>"

definition delete_tx_rows :: "string list \<Rightarrow> index_db \<Rightarrow> index_db" where
  "delete_tx_rows ids db =
     db\<lparr>ix_actions := filter (\<lambda>r. ca_tx r \<notin> set ids) (ix_actions db),
        ix_utxos := filter (\<lambda>u. ux_created u \<notin> set ids) (ix_utxos db),
        ix_zswap := filter (\<lambda>r. cr_ref r \<notin> set ids) (ix_zswap db),
        ix_dust := filter (\<lambda>r. cr_ref r \<notin> set ids) (ix_dust db),
        ix_fees := filter (\<lambda>r. cr_ref r \<notin> set ids) (ix_fees db),
        ix_results := filter (\<lambda>r. rs_tx r \<notin> set ids) (ix_results db),
        ix_identifiers := filter (\<lambda>r. cr_ref r \<notin> set ids) (ix_identifiers db)\<rparr>"

definition in_ids :: "string list \<Rightarrow> string option \<Rightarrow> bool" where
  "in_ids ids v = (case v of Some s \<Rightarrow> s \<in> set ids | None \<Rightarrow> False)"

definition unspend :: "string list \<Rightarrow> index_db \<Rightarrow> index_db" where
  "unspend ids db =
     db\<lparr>ix_utxos := snd (update_where (\<lambda>u. in_ids ids (ux_spent u)) (\<lambda>u. u\<lparr>ux_spent := None\<rparr>) (ix_utxos db))\<rparr>"

definition delete_blocks :: "string list \<Rightarrow> index_db \<Rightarrow> index_db" where
  "delete_blocks ids db =
     db\<lparr>ix_txs := filter (\<lambda>t. tx_block t \<notin> set ids) (ix_txs db),
        ix_blocks := filter (\<lambda>b. bl_ID b \<notin> set ids) (ix_blocks db)\<rparr>"

definition addresses_of :: "tx_row \<Rightarrow> string list" where
  "addresses_of t =
     filter (\<lambda>a. a \<noteq> []) ((case tx_senderAddress t of Some a \<Rightarrow> [a] | None \<Rightarrow> []) @ (case tx_receiverAddress t of Some a \<Rightarrow> [a] | None \<Rightarrow> []))"

text \<open>The addresses the removed transactions touch: their parties and the owners of outputs they created or spent.\<close>

definition affected_addresses :: "tx_row list \<Rightarrow> string list \<Rightarrow> index_db \<Rightarrow> string list" where
  "affected_addresses txs txIds db =
     js_set (concat (map addresses_of txs)
       @ filter (\<lambda>a. a \<noteq> []) (chunked_select (\<lambda>ids. map ux_owner (filter (\<lambda>u. ux_created u \<in> set ids) (ix_utxos db))) txIds)
       @ filter (\<lambda>a. a \<noteq> []) (chunked_select (\<lambda>ids. map ux_owner (filter (\<lambda>u. in_ids ids (ux_spent u)) (ix_utxos db))) txIds))"

definition delete_transactions :: "string list \<Rightarrow> index_db \<Rightarrow> index_db" where
  "delete_transactions txIds db =
     (if txIds = [] then db
      else
        (let actionIds = chunked_select (\<lambda>ids. map ca_ID (filter (\<lambda>r. ca_tx r \<in> set ids) (ix_actions db))) txIds;
             db1 = chunked_run delete_actions_parts actionIds db;
             resultIds = chunked_select (\<lambda>ids. map rs_ID (filter (\<lambda>r. rs_tx r \<in> set ids) (ix_results db1))) txIds;
             db2 = chunked_run delete_segments resultIds db1;
             db3 = chunked_run delete_tx_rows txIds db2
         in chunked_run unspend txIds db3))"

definition selectForkBlock :: "int \<Rightarrow> block_row list \<Rightarrow> block_row option" where
  "selectForkBlock h bs =
     (case filter (\<lambda>b. bl_height b < h) bs of
        [] \<Rightarrow> None
      | x # xs \<Rightarrow> Some (fold (\<lambda>b best. if bl_height best < bl_height b then b else best) xs x))"

definition clampCursor :: "int \<Rightarrow> int option \<Rightarrow> int option" where
  "clampCursor forkHeight v = map_option (\<lambda>n. min n forkHeight) v"

record rollback_result =
  rr_reorgGeneration :: int
  rr_blocksRolledBack :: nat
  rr_transactionsRolledBack :: nat
  rr_forkBlock :: "block_row option"
  rr_affectedAddresses :: "string list"
  rr_submissionsReverted :: nat
  rr_jobsReverted :: nat

text \<open>The removal of the rows and the repair of the balances, between the counter and the inclusion data.\<close>

definition rollback_rows :: "int \<Rightarrow> int \<Rightarrow> string list \<Rightarrow> index_db \<Rightarrow> index_db \<times> string list \<times> nat" where
  "rollback_rows t h blockIds db =
     (let txs = chunked_select (\<lambda>ids. filter (\<lambda>r. tx_block r \<in> set ids) (ix_txs db)) blockIds;
          txIds = filter (\<lambda>i. i \<noteq> []) (map tx_ID txs);
          affected = (if txIds = [] then js_set (concat (map addresses_of txs)) else affected_addresses txs txIds db);
          db1 = chunked_run delete_blocks blockIds (delete_transactions txIds db);
          db2 = db1\<lparr>ix_contractStates := filter (\<lambda>c. cs_height c < h) (ix_contractStates db1)\<rparr>
      in (fold (recomputeNightBalance t) affected db2, affected, length txIds))"

definition rollbackIndexedDataFromHeight ::
    "int \<Rightarrow> int \<Rightarrow> string \<Rightarrow> (sync_state \<Rightarrow> sync_state) \<Rightarrow> index_db \<Rightarrow> rollback_result \<times> index_db" where
  "rollbackIndexedDataFromHeight t h syncStatus extra db0 =
     (case bumpReorgGeneration (ix_jdb db0) of
        (gen, jdb1) \<Rightarrow>
          (let db = db0\<lparr>ix_jdb := jdb1\<rparr>;
               blockIds = filter (\<lambda>i. i \<noteq> []) (map bl_ID (filter (\<lambda>b. h \<le> bl_height b) (ix_blocks db)))
           in if blockIds = [] then
                (case revertSubmissionEvidence h (ix_jdb db) of
                   ((s, j), jdb2) \<Rightarrow>
                     (\<lparr>rr_reorgGeneration = gen, rr_blocksRolledBack = 0, rr_transactionsRolledBack = 0,
                       rr_forkBlock = selectForkBlock h (ix_blocks db), rr_affectedAddresses = [], rr_submissionsReverted = s, rr_jobsReverted = j\<rparr>,
                      db\<lparr>ix_jdb := jdb2\<rparr>))
              else
                (case rollback_rows t h blockIds db of
                   (db1, affected, ntx) \<Rightarrow>
                     (case revertSubmissionEvidence h (ix_jdb db1) of
                        ((s, j), jdb2) \<Rightarrow>
                          (let fork = selectForkBlock h (ix_blocks db1); forkHeight = (case fork of Some b \<Rightarrow> bl_height b | None \<Rightarrow> 0) in
                           (\<lparr>rr_reorgGeneration = gen, rr_blocksRolledBack = length blockIds, rr_transactionsRolledBack = ntx,
                             rr_forkBlock = fork, rr_affectedAddresses = affected, rr_submissionsReverted = s, rr_jobsReverted = j\<rparr>,
                            db1\<lparr>ix_jdb := jdb2,
                                ix_sync := extra ((ix_sync db1)\<lparr>ss_lastIndexedHeight := forkHeight, ss_lastIndexedHash := map_option bl_hash fork,
                                   ss_lastIndexedAt := Some t, ss_lastDecodedHeight := clampCursor forkHeight (ss_lastDecodedHeight (ix_sync db1)),
                                   ss_lastSupplementedHeight := clampCursor forkHeight (ss_lastSupplementedHeight (ix_sync db1)),
                                   ss_syncStatus := syncStatus\<rparr>)\<rparr>))))))"

section \<open>Pieces make no difference\<close>

lemma chunked_select_set:
  assumes "\<And>ids. set (q ids) = (\<Union>i \<in> set ids. Q i)"
  shows "set (chunked_select q ids) = (\<Union>i \<in> set ids. Q i)"
proof -
  have "set (chunked_select q ids) = (\<Union>c \<in> set (chunks_of IN_CHUNK ids). \<Union>i \<in> set c. Q i)"
    by (simp add: chunked_select_def assms)
  also have "\<dots> = (\<Union>i \<in> set (concat (chunks_of IN_CHUNK ids)). Q i)" by auto
  finally show ?thesis by (simp add: chunks_of_concat IN_CHUNK_def)
qed

text \<open>A statement that acts by membership gives the same when it runs piece by piece.\<close>

lemma chunked_run_eq:
  assumes nil: "\<And>db. q [] db = db" and app: "\<And>xs ys db. q ys (q xs db) = q (xs @ ys) db"
  shows "chunked_run q ids db = q ids db"
proof -
  have "fold q cs db = q (concat cs) db" for cs
    by (induction cs arbitrary: db) (simp_all add: nil app)
  then show ?thesis by (simp add: chunked_run_def chunks_of_concat IN_CHUNK_def)
qed

lemma in_ids_simps [simp]: "in_ids [] v = False" "in_ids ids None = False" "in_ids (xs @ ys) v = (in_ids xs v \<or> in_ids ys v)"
  by (simp_all add: in_ids_def split: option.splits)

lemma chunked_deletes:
  "chunked_run delete_actions_parts ids db = delete_actions_parts ids db"
  "chunked_run delete_segments ids db = delete_segments ids db"
  "chunked_run delete_tx_rows ids db = delete_tx_rows ids db"
  "chunked_run delete_blocks ids db = delete_blocks ids db"
  "chunked_run unspend ids db = unspend ids db"
proof -
  show "chunked_run delete_actions_parts ids db = delete_actions_parts ids db"
    by (rule chunked_run_eq) (simp_all add: delete_actions_parts_def conj_commute)
  show "chunked_run delete_segments ids db = delete_segments ids db"
    by (rule chunked_run_eq) (simp_all add: delete_segments_def conj_commute)
  show "chunked_run delete_tx_rows ids db = delete_tx_rows ids db"
    by (rule chunked_run_eq) (simp_all add: delete_tx_rows_def conj_commute)
  show "chunked_run delete_blocks ids db = delete_blocks ids db"
    by (rule chunked_run_eq) (simp_all add: delete_blocks_def conj_commute)
  show "chunked_run unspend ids db = unspend ids db"
    by (rule chunked_run_eq) (auto simp: unspend_def update_where_def in_ids_def map_idI split: option.splits)
qed

section \<open>Balances after a rollback\<close>

lemma delete_transactions_utxos:
  "ix_utxos (delete_transactions txIds db) =
     map (\<lambda>u. if in_ids txIds (ux_spent u) then u\<lparr>ux_spent := None\<rparr> else u) (filter (\<lambda>u. ux_created u \<notin> set txIds) (ix_utxos db))"
proof (cases "txIds = []")
  case True
  then show ?thesis by (simp add: delete_transactions_def)
next
  case False
  then show ?thesis
    by (simp add: delete_transactions_def Let_def chunked_deletes unspend_def delete_tx_rows_def delete_segments_def
        delete_actions_parts_def update_where_def)
qed

lemma delete_transactions_frame:
  "ix_txs (delete_transactions txIds db) = ix_txs db" "ix_blocks (delete_transactions txIds db) = ix_blocks db"
  "ix_balances (delete_transactions txIds db) = ix_balances db" "ix_jdb (delete_transactions txIds db) = ix_jdb db"
  by (simp_all add: delete_transactions_def Let_def chunked_deletes unspend_def delete_tx_rows_def delete_segments_def delete_actions_parts_def)

lemma recompute_keeps:
  "ix_utxos (recomputeNightBalance t a db) = ix_utxos db" "ix_txs (recomputeNightBalance t a db) = ix_txs db"
  by (subst recompute_frame, simp)+

lemma fold_recompute:
  "ix_utxos (fold (recomputeNightBalance t) as db) = ix_utxos db \<and> ix_txs (fold (recomputeNightBalance t) as db) = ix_txs db
   \<and> stored_totals (ix_balances (fold (recomputeNightBalance t) as db)) a =
       (if a \<in> set as then totals_of_rows (ix_utxos db) (ix_txs db) a else stored_totals (ix_balances db) a)"
proof (induction "as" arbitrary: db)
  case (Cons c "as")
  then show ?case using Cons.IH [of "recomputeNightBalance t c db"] by (simp add: recompute_keeps recompute_others)
qed simp

text \<open>An address the removed rows do not touch keeps its totals.\<close>

lemma untouched_totals:
  assumes "\<And>u. u \<in> set us \<Longrightarrow> ux_owner u = a \<Longrightarrow> keep u \<and> fix u = u"
    and "\<And>u. u \<in> set us \<Longrightarrow> ux_owner (fix u) = ux_owner u \<and> ux_tokenType (fix u) = ux_tokenType u"
    and "\<And>t. t \<in> set ts \<Longrightarrow> tx_senderAddress t = Some a \<Longrightarrow> keep_tx t"
  shows "totals_of_rows (map fix (filter keep us)) (filter keep_tx ts) a = totals_of_rows us ts a"
proof -
  have "night_utxos a (map fix (filter keep us)) = night_utxos a us"
    using assms(1,2) by (induction us) (auto simp: night_utxos_def)
  moreover have "sent_txs a (filter keep_tx ts) = sent_txs a ts"
    using assms(3) by (induction ts) (auto simp: sent_txs_def)
  ultimately show ?thesis by (simp add: totals_of_rows_def)
qed

lemma affected_owner:
  assumes "u \<in> set (ix_utxos db)" and "ux_owner u \<noteq> []" and "ux_created u \<in> set txIds \<or> in_ids txIds (ux_spent u)"
  shows "ux_owner u \<in> set (affected_addresses txs txIds db)"
proof -
  have "set (chunked_select (\<lambda>ids. map ux_owner (filter (\<lambda>u. ux_created u \<in> set ids) (ix_utxos db))) txIds) =
      (\<Union>i \<in> set txIds. ux_owner ` {u \<in> set (ix_utxos db). ux_created u = i})"
    by (rule chunked_select_set) auto
  moreover have "set (chunked_select (\<lambda>ids. map ux_owner (filter (\<lambda>u. in_ids ids (ux_spent u)) (ix_utxos db))) txIds) =
      (\<Union>i \<in> set txIds. ux_owner ` {u \<in> set (ix_utxos db). ux_spent u = Some i})"
    by (rule chunked_select_set) (auto simp: in_ids_def split: option.splits)
  ultimately show ?thesis
    using assms by (auto simp: affected_addresses_def in_ids_def split: option.splits)
qed

lemma removed_txs_set:
  "set (chunked_select (\<lambda>ids. filter (\<lambda>r. tx_block r \<in> set ids) ts) blockIds) = {r \<in> set ts. tx_block r \<in> set blockIds}"
proof -
  have "set (chunked_select (\<lambda>ids. filter (\<lambda>r. tx_block r \<in> set ids) ts) blockIds) = (\<Union>i \<in> set blockIds. {r \<in> set ts. tx_block r = i})"
    by (rule chunked_select_set) auto
  then show ?thesis by auto
qed

lemma ids_touched: "x \<in> set ids \<or> in_ids ids v \<Longrightarrow> ids \<noteq> []"
  by (auto simp: in_ids_def split: option.splits)

lemma rollback_rows_exact:
  assumes exact: "balances_exact db" and run: "rollback_rows t h blockIds db = (db', affected, n)"
  shows "balances_exact db'"
proof -
  let ?txs = "chunked_select (\<lambda>ids. filter (\<lambda>r. tx_block r \<in> set ids) (ix_txs db)) blockIds"
  let ?txIds = "filter (\<lambda>i. i \<noteq> []) (map tx_ID ?txs)"
  let ?db1 = "delete_blocks blockIds (delete_transactions ?txIds db)"
  let ?db2 = "?db1\<lparr>ix_contractStates := filter (\<lambda>c. cs_height c < h) (ix_contractStates ?db1)\<rparr>"
  have db': "db' = fold (recomputeNightBalance t) affected ?db2"
    and aff: "affected = (if ?txIds = [] then js_set (concat (map addresses_of ?txs)) else affected_addresses ?txs ?txIds db)"
    using run by (auto simp: rollback_rows_def Let_def chunked_deletes)
  have us: "ix_utxos ?db2 = map (\<lambda>u. if in_ids ?txIds (ux_spent u) then u\<lparr>ux_spent := None\<rparr> else u)
      (filter (\<lambda>u. ux_created u \<notin> set ?txIds) (ix_utxos db))"
    by (simp add: delete_blocks_def delete_transactions_utxos)
  have ts: "ix_txs ?db2 = filter (\<lambda>t. tx_block t \<notin> set blockIds) (ix_txs db)"
    by (simp add: delete_blocks_def delete_transactions_frame)
  have bs: "ix_balances ?db2 = ix_balances db" by (simp add: delete_blocks_def delete_transactions_frame)
  have same: "totals_of_rows (ix_utxos ?db2) (ix_txs ?db2) a = totals_of_rows (ix_utxos db) (ix_txs db) a" if a: "a \<noteq> []" "a \<notin> set affected" for a
    unfolding us ts
  proof (rule untouched_totals)
    fix u assume u: "u \<in> set (ix_utxos db)" "ux_owner u = a"
    have "\<not> (ux_created u \<in> set ?txIds \<or> in_ids ?txIds (ux_spent u))"
    proof
      assume touched: "ux_created u \<in> set ?txIds \<or> in_ids ?txIds (ux_spent u)"
      then have "?txIds \<noteq> []" by (rule ids_touched)
      then show False using affected_owner [OF u(1) _ touched, of ?txs] u(2) a aff by simp
    qed
    then show "ux_created u \<notin> set ?txIds \<and> (if in_ids ?txIds (ux_spent u) then u\<lparr>ux_spent := None\<rparr> else u) = u" by auto
  next
    fix r assume r: "r \<in> set (ix_txs db)" "tx_senderAddress r = Some a"
    show "tx_block r \<notin> set blockIds"
    proof
      assume "tx_block r \<in> set blockIds"
      then have "r \<in> set ?txs" using r by (simp add: removed_txs_set)
      moreover have "a \<in> set (addresses_of r)" using r a by (simp add: addresses_of_def)
      ultimately have "a \<in> set affected" by (auto simp: aff affected_addresses_def)
      with a show False by simp
    qed
  qed auto
  show ?thesis
    unfolding balances_exact_def db'
    using fold_recompute [of t affected ?db2] same exact by (simp add: bs balances_exact_def)
qed

lemma rollback_exact:
  assumes "balances_exact db" and "rollbackIndexedDataFromHeight t h st extra db = (r, db')"
  shows "balances_exact db'"
proof -
  have keep: "balances_exact (d\<lparr>ix_jdb := x\<rparr>) = balances_exact d" "balances_exact (d\<lparr>ix_jdb := x, ix_sync := y\<rparr>) = balances_exact d" for d x y
    by (simp_all add: balances_exact_def)
  show ?thesis
    using assms rollback_rows_exact [of "db\<lparr>ix_jdb := x\<rparr>" for x]
    by (auto simp: rollbackIndexedDataFromHeight_def Let_def keep split: prod.splits if_splits)
qed

section \<open>Jobs after a rollback\<close>

interpretation reopen: job_update parent "reopen_guard h" reopen_patch for parent h
  by unfold_locales (auto simp: reopen_guard_def reopen_patch_def clear_chain_def job_identity_def job_ok_def closed_failure_def in_flight_def)

interpretation outcome_cleared: job_update parent "outcome_guard h" clear_chain for parent h
  by unfold_locales (auto simp: outcome_guard_def clear_chain_def job_identity_def job_ok_def closed_failure_def)

lemma revert_jobs:
  "db_jobs (snd (revertSubmissionEvidence h db)) =
     snd (update_where (outcome_guard h) clear_chain (snd (update_where (reopen_guard h) reopen_patch (db_jobs db))))"
  by (simp add: revertSubmissionEvidence_def split: prod.splits)

lemma revertSubmissionEvidence_ok: "jdb_ok parent js0 db \<Longrightarrow> jdb_ok parent js0 (snd (revertSubmissionEvidence h db))"
  unfolding revert_jobs by (rule evolved_step [OF outcome_cleared.update_step evolved_step [OF reopen.update_step]])

text \<open>The jobs part of a rollback.\<close>

definition rollback_jdb :: "int \<Rightarrow> jdb \<Rightarrow> jdb" where
  "rollback_jdb h db = snd (revertSubmissionEvidence h (snd (bumpReorgGeneration db)))"

lemma recompute_jdb: "ix_jdb (fold (recomputeNightBalance t) as db) = ix_jdb db"
  by (induction "as" arbitrary: db) (simp_all, subst recompute_frame, simp)

lemma rollback_rows_jdb: "rollback_rows t h blockIds db = (db', affected, n) \<Longrightarrow> ix_jdb db' = ix_jdb db"
  by (auto simp: rollback_rows_def Let_def chunked_deletes recompute_jdb delete_blocks_def delete_transactions_frame)

lemma rollback_ix_jdb: "ix_jdb (snd (rollbackIndexedDataFromHeight t h st extra db)) = rollback_jdb h (ix_jdb db)"
  by (auto simp: rollbackIndexedDataFromHeight_def rollback_jdb_def Let_def rollback_rows_jdb split: prod.splits dest: rollback_rows_jdb)

lemma rollback_jdb_ok: "jdb_ok parent js0 db \<Longrightarrow> jdb_ok parent js0 (rollback_jdb h db)"
  unfolding rollback_jdb_def
  by (rule revertSubmissionEvidence_ok) (simp add: bumpReorgGeneration_def Let_def)

lemma rollback_generation: "db_generation db = Some g \<Longrightarrow> readReorgGeneration (rollback_jdb h db) = g + 1"
  by (simp add: rollback_jdb_def revertSubmissionEvidence_def bumpReorgGeneration_def readReorgGeneration_def Let_def split: prod.splits)

section \<open>References\<close>

text \<open>
  The integrity of the index: every reference names a row that is there, and identifiers
  are not empty.
\<close>

definition tx_ids :: "index_db \<Rightarrow> string set" where
  "tx_ids db = tx_ID ` set (ix_txs db)"

definition refs_ok :: "index_db \<Rightarrow> bool" where
  "refs_ok db \<longleftrightarrow>
     [] \<notin> bl_ID ` set (ix_blocks db) \<and> [] \<notin> tx_ids db
     \<and> tx_block ` set (ix_txs db) \<subseteq> bl_ID ` set (ix_blocks db)
     \<and> ca_tx ` set (ix_actions db) \<subseteq> tx_ids db
     \<and> rs_tx ` set (ix_results db) \<subseteq> tx_ids db
     \<and> cr_ref ` set (ix_fees db) \<subseteq> tx_ids db
     \<and> cr_ref ` set (ix_identifiers db) \<subseteq> tx_ids db
     \<and> cr_ref ` set (ix_zswap db) \<subseteq> tx_ids db
     \<and> cr_ref ` set (ix_dust db) \<subseteq> tx_ids db
     \<and> cr_ref ` set (ix_contractBalances db) \<subseteq> ca_ID ` set (ix_actions db)
     \<and> cr_ref ` set (ix_segments db) \<subseteq> rs_ID ` set (ix_results db)
     \<and> ux_created ` set (ix_utxos db) \<subseteq> tx_ids db
     \<and> (\<forall>u \<in> set (ix_utxos db). \<forall>s. ux_spent u = Some s \<longrightarrow> s \<in> tx_ids db)"

lemma refs_ok_ids:
  assumes "refs_ok db"
  shows "t \<in> set (ix_txs db) \<Longrightarrow> tx_ID t \<noteq> []" and "b \<in> set (ix_blocks db) \<Longrightarrow> bl_ID b \<noteq> []"
proof -
  have "[] \<notin> tx_ID ` set (ix_txs db)" "[] \<notin> bl_ID ` set (ix_blocks db)" using assms by (simp_all add: refs_ok_def tx_ids_def)
  then show "t \<in> set (ix_txs db) \<Longrightarrow> tx_ID t \<noteq> []" "b \<in> set (ix_blocks db) \<Longrightarrow> bl_ID b \<noteq> []" by (metis image_eqI)+
qed

lemma delete_transactions_rows:
  assumes db': "db' = delete_transactions txIds db"
  shows "ix_actions db' = filter (\<lambda>r. ca_tx r \<notin> set txIds) (ix_actions db)"
    and "ix_results db' = filter (\<lambda>r. rs_tx r \<notin> set txIds) (ix_results db)"
    and "ix_fees db' = filter (\<lambda>r. cr_ref r \<notin> set txIds) (ix_fees db)"
    and "ix_identifiers db' = filter (\<lambda>r. cr_ref r \<notin> set txIds) (ix_identifiers db)"
    and "ix_zswap db' = filter (\<lambda>r. cr_ref r \<notin> set txIds) (ix_zswap db)"
    and "ix_dust db' = filter (\<lambda>r. cr_ref r \<notin> set txIds) (ix_dust db)"
    and "set (ix_contractBalances db') = {r \<in> set (ix_contractBalances db). cr_ref r \<notin> ca_ID ` {c \<in> set (ix_actions db). ca_tx c \<in> set txIds}}"
    and "set (ix_segments db') = {r \<in> set (ix_segments db). cr_ref r \<notin> rs_ID ` {c \<in> set (ix_results db). rs_tx c \<in> set txIds}}"
proof -
  have A: "set (chunked_select (\<lambda>ids. map ca_ID (filter (\<lambda>r. ca_tx r \<in> set ids) (ix_actions db))) txIds) = ca_ID ` {c \<in> set (ix_actions db). ca_tx c \<in> set txIds}"
    by (subst chunked_select_set [where Q = "\<lambda>i. ca_ID ` {c \<in> set (ix_actions db). ca_tx c = i}"]) auto
  have R: "set (chunked_select (\<lambda>ids. map rs_ID (filter (\<lambda>r. rs_tx r \<in> set ids) (ix_results db))) txIds) = rs_ID ` {c \<in> set (ix_results db). rs_tx c \<in> set txIds}"
    by (subst chunked_select_set [where Q = "\<lambda>i. rs_ID ` {c \<in> set (ix_results db). rs_tx c = i}"]) auto
  note defs = db' delete_transactions_def Let_def chunked_deletes unspend_def delete_tx_rows_def delete_segments_def delete_actions_parts_def
  show "ix_actions db' = filter (\<lambda>r. ca_tx r \<notin> set txIds) (ix_actions db)"
    "ix_results db' = filter (\<lambda>r. rs_tx r \<notin> set txIds) (ix_results db)"
    "ix_fees db' = filter (\<lambda>r. cr_ref r \<notin> set txIds) (ix_fees db)"
    "ix_identifiers db' = filter (\<lambda>r. cr_ref r \<notin> set txIds) (ix_identifiers db)"
    "ix_zswap db' = filter (\<lambda>r. cr_ref r \<notin> set txIds) (ix_zswap db)"
    "ix_dust db' = filter (\<lambda>r. cr_ref r \<notin> set txIds) (ix_dust db)"
    by (cases "txIds = []"; simp add: defs)+
  show "set (ix_contractBalances db') = {r \<in> set (ix_contractBalances db). cr_ref r \<notin> ca_ID ` {c \<in> set (ix_actions db). ca_tx c \<in> set txIds}}"
    using A by (cases "txIds = []") (simp_all add: defs)
  show "set (ix_segments db') = {r \<in> set (ix_segments db). cr_ref r \<notin> rs_ID ` {c \<in> set (ix_results db). rs_tx c \<in> set txIds}}"
    using R by (cases "txIds = []") (simp_all add: defs)
qed

lemma delete_rows_refs:
  assumes ok: "refs_ok db" and txIds: "set txIds = tx_ID ` {t \<in> set (ix_txs db). tx_block t \<in> set blockIds}"
    and db': "db' = delete_blocks blockIds (delete_transactions txIds db)"
  shows "refs_ok db'"
proof -
  let ?d = "delete_transactions txIds db"
  note rows = delete_transactions_rows [OF refl, of txIds db]
  have ids: "tx_ids db' = tx_ID ` {t \<in> set (ix_txs db). tx_block t \<notin> set blockIds}"
    by (auto simp: tx_ids_def db' delete_blocks_def delete_transactions_frame)
  have K: "x \<in> tx_ids db'" if "x \<in> tx_ids db" "x \<notin> set txIds" for x
    using that unfolding ids unfolding txIds tx_ids_def by blast
  have blocks: "bl_ID ` set (ix_blocks db') = bl_ID ` set (ix_blocks db) - set blockIds"
    by (auto simp: db' delete_blocks_def delete_transactions_frame)
  have utxos: "ux_created u \<notin> set txIds \<and> (\<forall>s. ux_spent u = Some s \<longrightarrow> s \<notin> set txIds) \<and> (\<exists>v \<in> set (ix_utxos db). ux_created v = ux_created u \<and> (\<forall>s. ux_spent u = Some s \<longrightarrow> ux_spent v = Some s))"
    if "u \<in> set (ix_utxos db')" for u
    using that by (auto simp: db' delete_blocks_def delete_transactions_utxos in_ids_def split: if_splits option.splits)
  have same: "ix_actions db' = ix_actions ?d" "ix_results db' = ix_results ?d" "ix_fees db' = ix_fees ?d" "ix_identifiers db' = ix_identifiers ?d"
    "ix_zswap db' = ix_zswap ?d" "ix_dust db' = ix_dust ?d" "ix_contractBalances db' = ix_contractBalances ?d" "ix_segments db' = ix_segments ?d"
    by (simp_all add: db' delete_blocks_def)
  show ?thesis
    unfolding refs_ok_def
  proof (intro conjI)
    show "[] \<notin> bl_ID ` set (ix_blocks db')" using ok by (simp add: blocks refs_ok_def)
    show "[] \<notin> tx_ids db'" unfolding ids using refs_ok_ids(1) [OF ok] by fastforce
    show "tx_block ` set (ix_txs db') \<subseteq> bl_ID ` set (ix_blocks db')"
      using ok by (auto simp: blocks refs_ok_def db' delete_blocks_def delete_transactions_frame)
    show "ca_tx ` set (ix_actions db') \<subseteq> tx_ids db'" using ok by (auto simp: same rows refs_ok_def intro!: K)
    show "rs_tx ` set (ix_results db') \<subseteq> tx_ids db'" using ok by (auto simp: same rows refs_ok_def intro!: K)
    show "cr_ref ` set (ix_fees db') \<subseteq> tx_ids db'" using ok by (auto simp: same rows refs_ok_def intro!: K)
    show "cr_ref ` set (ix_identifiers db') \<subseteq> tx_ids db'" using ok by (auto simp: same rows refs_ok_def intro!: K)
    show "cr_ref ` set (ix_zswap db') \<subseteq> tx_ids db'" using ok by (auto simp: same rows refs_ok_def intro!: K)
    show "cr_ref ` set (ix_dust db') \<subseteq> tx_ids db'" using ok by (auto simp: same rows refs_ok_def intro!: K)
    have "cr_ref ` set (ix_contractBalances db) \<subseteq> ca_ID ` set (ix_actions db)" using ok by (simp add: refs_ok_def)
    then show "cr_ref ` set (ix_contractBalances db') \<subseteq> ca_ID ` set (ix_actions db')" unfolding same rows by auto
    have "cr_ref ` set (ix_segments db) \<subseteq> rs_ID ` set (ix_results db)" using ok by (simp add: refs_ok_def)
    then show "cr_ref ` set (ix_segments db') \<subseteq> rs_ID ` set (ix_results db')" unfolding same rows by auto
    show "ux_created ` set (ix_utxos db') \<subseteq> tx_ids db'"
    proof
      fix x assume "x \<in> ux_created ` set (ix_utxos db')"
      then obtain u where u: "u \<in> set (ix_utxos db')" "x = ux_created u" by blast
      with utxos [OF u(1)] ok have "x \<in> tx_ids db" "x \<notin> set txIds" by (auto simp: refs_ok_def)
      then show "x \<in> tx_ids db'" by (rule K)
    qed
    show "\<forall>u \<in> set (ix_utxos db'). \<forall>s. ux_spent u = Some s \<longrightarrow> s \<in> tx_ids db'"
    proof (intro ballI allI impI)
      fix u s assume u: "u \<in> set (ix_utxos db')" "ux_spent u = Some s"
      with utxos [OF u(1)] ok have "s \<in> tx_ids db" "s \<notin> set txIds" by (auto simp: refs_ok_def)
      then show "s \<in> tx_ids db'" by (rule K)
    qed
  qed
qed

lemma refs_ok_cong:
  "refs_ok (db\<lparr>ix_contractStates := x\<rparr>) = refs_ok db" "refs_ok (db\<lparr>ix_balances := b\<rparr>) = refs_ok db"
  "refs_ok (db\<lparr>ix_jdb := y\<rparr>) = refs_ok db" "refs_ok (db\<lparr>ix_jdb := y, ix_sync := z\<rparr>) = refs_ok db"
  by (simp_all add: refs_ok_def tx_ids_def)

lemma recompute_refs: "refs_ok (fold (recomputeNightBalance t) as db) = refs_ok db \<and> ix_blocks (fold (recomputeNightBalance t) as db) = ix_blocks db
    \<and> ix_contractStates (fold (recomputeNightBalance t) as db) = ix_contractStates db"
proof (induction "as" arbitrary: db)
  case (Cons a "as")
  have "refs_ok (recomputeNightBalance t a db) = refs_ok db" "ix_blocks (recomputeNightBalance t a db) = ix_blocks db"
    "ix_contractStates (recomputeNightBalance t a db) = ix_contractStates db"
    by (subst recompute_frame, simp add: refs_ok_cong)+
  with Cons show ?case by simp
qed simp

lemma rollback_rows_refs:
  assumes ok: "refs_ok db" and run: "rollback_rows t h blockIds db = (db', affected, n)"
  shows "refs_ok db' \<and> (\<forall>b \<in> set (ix_blocks db'). b \<in> set (ix_blocks db) \<and> bl_ID b \<notin> set blockIds) \<and> (\<forall>c \<in> set (ix_contractStates db'). cs_height c < h)"
proof -
  let ?txs = "chunked_select (\<lambda>ids. filter (\<lambda>r. tx_block r \<in> set ids) (ix_txs db)) blockIds"
  let ?txIds = "filter (\<lambda>i. i \<noteq> []) (map tx_ID ?txs)"
  let ?db1 = "delete_blocks blockIds (delete_transactions ?txIds db)"
  have ids: "set ?txIds = tx_ID ` {t \<in> set (ix_txs db). tx_block t \<in> set blockIds}"
    using refs_ok_ids(1) [OF ok] removed_txs_set [of "ix_txs db" blockIds] by auto
  have "refs_ok ?db1" by (rule delete_rows_refs [OF ok ids refl])
  moreover have "ix_blocks ?db1 = filter (\<lambda>b. bl_ID b \<notin> set blockIds) (ix_blocks db)"
    by (simp add: delete_blocks_def delete_transactions_frame)
  ultimately show ?thesis
    using run by (auto simp: rollback_rows_def Let_def chunked_deletes recompute_refs refs_ok_cong)
qed

lemma rollback_clean:
  assumes ok: "refs_ok db" and run: "rollbackIndexedDataFromHeight t h st extra db = (r, db')"
  shows "refs_ok db' \<and> (\<forall>b \<in> set (ix_blocks db'). bl_height b < h)"
proof -
  let ?ids = "filter (\<lambda>i. i \<noteq> []) (map bl_ID (filter (\<lambda>b. h \<le> bl_height b) (ix_blocks db)))"
  have low: "bl_height b < h" if "b \<in> set (ix_blocks db)" "bl_ID b \<notin> set ?ids" for b
  proof (rule ccontr)
    assume "\<not> bl_height b < h"
    moreover have "bl_ID b \<noteq> []" using refs_ok_ids(2) [OF ok that(1)] .
    ultimately have "bl_ID b \<in> set ?ids" using that(1) by auto
    with that(2) show False by simp
  qed
  have rows: "refs_ok d \<and> (\<forall>b \<in> set (ix_blocks d). bl_height b < h)" if "rollback_rows t h ?ids (db\<lparr>ix_jdb := x\<rparr>) = (d, aff, n)" for x d aff n
    using rollback_rows_refs [OF _ that] ok low by (simp add: refs_ok_cong)
  have none: "\<forall>b \<in> set (ix_blocks db). bl_height b < h" if "?ids = []" using low that by auto
  show ?thesis
    using run rows none ok
    by (auto simp: rollbackIndexedDataFromHeight_def Let_def refs_ok_cong split: prod.splits if_splits)
qed

text \<open>Storing a block keeps the references.\<close>

lemma spend_loop_marks:
  "spend_loop spends byKey marks ds = (marks', ds') \<Longrightarrow> snd ` set marks' \<subseteq> snd ` set marks \<union> snd ` set spends"
proof (induction spends arbitrary: byKey marks ds)
  case (Cons sp spends)
  obtain k t where sp: "sp = (k, t)" by (cases sp)
  have step: "snd ` set marks' \<subseteq> snd ` set m \<union> snd ` set spends" if "spend_loop spends b m d = (marks', ds')" for b m d
    using Cons.IH [OF that] .
  show ?case
  proof (cases "\<exists>row. byKey k = Some row \<and> \<not> truthy_opt (ux_spent row)")
    case True
    then obtain row where "byKey k = Some row" "\<not> truthy_opt (ux_spent row)" by blast
    then have "snd ` set marks' \<subseteq> snd ` set (marks @ [(ux_ID row, t)]) \<union> snd ` set spends"
      using Cons.prems step by (simp only: sp spend_loop.simps option.simps if_False)
    then show ?thesis by (simp add: sp)
  next
    case False
    then have "snd ` set marks' \<subseteq> snd ` set marks \<union> snd ` set spends"
      using Cons.prems step by (auto simp: sp split: option.splits if_splits)
    then show ?thesis by auto
  qed
qed simp

lemma fold_marks_rows:
  "u' \<in> set (fold (mark_group marks) T us) \<Longrightarrow>
     \<exists>u \<in> set us. ux_created u' = ux_created u \<and> (ux_spent u' = ux_spent u \<or> ux_spent u' \<in> Some ` set T)"
proof (induction T arbitrary: us)
  case (Cons t T)
  from Cons.IH [of "mark_group marks t us"] Cons.prems obtain v where
    v: "v \<in> set (mark_group marks t us)" "ux_created u' = ux_created v" "ux_spent u' = ux_spent v \<or> ux_spent u' \<in> Some ` set T" by auto
  from v(1) obtain u where "u \<in> set us" "ux_created v = ux_created u" "ux_spent v = ux_spent u \<or> ux_spent v = Some t"
    by (auto simp: mark_group_def split: if_splits)
  with v show ?case by (intro bexI [of _ u]) auto
qed auto

lemma fold_marks_ids: "map ux_ID (fold (mark_group marks) T us) = map ux_ID us"
proof (induction T arbitrary: us)
  case (Cons t T)
  have "map ux_ID (mark_group marks t us) = map ux_ID us" by (simp add: mark_group_def)
  with Cons show ?case by simp
qed simp

lemma applySpends_rows:
  assumes "applySpends spends us ds = (us', ds')"
  shows "map ux_ID us' = map ux_ID us \<and> (\<forall>u' \<in> set us'. \<exists>u \<in> set us. ux_created u' = ux_created u
      \<and> (ux_spent u' = ux_spent u \<or> ux_spent u' \<in> Some ` snd ` set spends))"
proof (cases "spends = []")
  case True
  then show ?thesis using assms by (auto simp: applySpends_def)
next
  case False
  obtain marks where m: "spend_loop spends (byKey_of spends us) [] ds = (marks, ds')" and us': "us' = apply_marks marks us"
    using assms False by (auto simp: applySpends_def split: prod.splits)
  have "snd ` set marks \<subseteq> snd ` set spends" using spend_loop_marks [OF m] by simp
  then show ?thesis
    unfolding us' apply_marks_def using fold_marks_rows [of _ marks "js_set (map snd marks)" us]
    by (auto simp: fold_marks_ids) (metis image_mono set_js_set set_map subsetD)
qed

lemma persist_rows_refs:
  assumes ok: "refs_ok db" and fresh: "fresh_ids env p db"
  shows "refs_ok (persist_rows env p parentId db)"
proof -
  let ?is = "[0..<length (pb_extrinsics p)]"
  let ?db' = "persist_rows env p parentId db"
  let ?us = "ix_utxos db @ concat (map (utxo_rows_of env p) ?is)"
  obtain us' ds' where run: "applySpends (concat (map (spends_of env p) ?is)) ?us (loop_deltas env p ?is) = (us', ds')" by fastforce
  have fields: "ix_txs ?db' = ix_txs db @ tx_rows_of env p ?is" "ix_utxos ?db' = us'" "bl_ID ` set (ix_blocks ?db') = insert (be_uuid env [0]) (bl_ID ` set (ix_blocks db))"
    "ix_results ?db' = ix_results db @ concat (map (result_rows_of env p) ?is)"
    "ix_fees ?db' = ix_fees db @ map (\<lambda>i. \<lparr>cr_ID = be_uuid env [3, i], cr_ref = txId_of env i\<rparr>) ?is"
    "ix_actions ?db' = ix_actions db @ concat (map (\<lambda>(i, hex). action_rows_of env p i hex) (enumerate 0 (pb_extrinsics p)))"
    "ix_identifiers ?db' = ix_identifiers db" "ix_zswap ?db' = ix_zswap db" "ix_dust ?db' = ix_dust db"
    "ix_contractBalances ?db' = ix_contractBalances db" "ix_segments ?db' = ix_segments db"
    using run by (simp_all add: persist_rows_def Let_def tx_rows_enumerate)
  have ids: "tx_ids ?db' = tx_ids db \<union> txId_of env ` set ?is"
  proof -
    have "tx_ID (tx_row_of env p i hex) = txId_of env i" for i hex by (simp add: tx_row_of_def Let_def)
    then show ?thesis by (simp add: tx_ids_def fields(1) tx_rows_of_def image_Un image_image)
  qed
  have tx: "tx_block ` set (ix_txs ?db') \<subseteq> insert (be_uuid env [0]) (tx_block ` set (ix_txs db))"
    by (auto simp: fields(1) tx_rows_of_def tx_row_of_def Let_def)
  have act: "ca_tx ` set (ix_actions ?db') \<subseteq> ca_tx ` set (ix_actions db) \<union> txId_of env ` set ?is"
    by (auto simp: fields(6) action_rows_of_def Let_def in_set_enumerate_eq)
  have res: "rs_tx ` set (ix_results ?db') \<subseteq> rs_tx ` set (ix_results db) \<union> txId_of env ` set ?is"
    by (auto simp: fields(4) result_rows_of_def split: option.splits)
  have created: "ux_created ` set ?us \<subseteq> ux_created ` set (ix_utxos db) \<union> txId_of env ` set ?is"
    by (auto simp: utxo_rows_of_def utxo_row_of_def)
  have sp: "snd ` set (concat (map (spends_of env p) ?is)) \<subseteq> txId_of env ` set ?is"
    by (auto simp: spends_of_def split: option.splits)
  have old: "\<forall>u \<in> set ?us. ux_created u \<in> tx_ids ?db' \<and> (\<forall>s. ux_spent u = Some s \<longrightarrow> s \<in> tx_ids ?db')"
    using created ok by (auto simp: ids refs_ok_def utxo_rows_of_def utxo_row_of_def)
  have new: "ux_created u \<in> tx_ids ?db' \<and> (\<forall>s. ux_spent u = Some s \<longrightarrow> s \<in> tx_ids ?db')" if u: "u \<in> set us'" for u
  proof -
    from applySpends_rows [OF run] u obtain v where v: "v \<in> set ?us" "ux_created u = ux_created v"
      "ux_spent u = ux_spent v \<or> ux_spent u \<in> Some ` snd ` set (concat (map (spends_of env p) ?is))" by blast
    have "s \<in> tx_ids ?db'" if s: "ux_spent u = Some s" for s
    proof (cases "ux_spent u = ux_spent v")
      case True
      then show ?thesis using old v(1) s by simp
    next
      case False
      then have "s \<in> snd ` set (concat (map (spends_of env p) ?is))" using v(3) s by auto
      then show ?thesis using sp ids by blast
    qed
    then show ?thesis using old v by simp
  qed
  have old_refs: "ca_tx ` set (ix_actions db) \<subseteq> tx_ids db" "rs_tx ` set (ix_results db) \<subseteq> tx_ids db"
    using ok by (simp_all add: refs_ok_def)
  have ne: "be_uuid env [0] \<noteq> []" "[] \<notin> txId_of env ` set ?is" using fresh by (auto simp: fresh_ids_def list_all_iff)
  show ?thesis
    unfolding refs_ok_def
  proof (intro conjI)
    show "[] \<notin> bl_ID ` set (ix_blocks ?db')" "[] \<notin> tx_ids ?db'" using ok ne by (auto simp: fields(3) ids refs_ok_def)
    show "tx_block ` set (ix_txs ?db') \<subseteq> bl_ID ` set (ix_blocks ?db')" using ok tx by (auto simp: fields(3) refs_ok_def) blast
    show "ca_tx ` set (ix_actions ?db') \<subseteq> tx_ids ?db'" unfolding ids by (rule subset_trans [OF act Un_mono [OF old_refs(1) subset_refl]])
    show "rs_tx ` set (ix_results ?db') \<subseteq> tx_ids ?db'" unfolding ids by (rule subset_trans [OF res Un_mono [OF old_refs(2) subset_refl]])
    show "ux_created ` set (ix_utxos ?db') \<subseteq> tx_ids ?db'" using new by (auto simp: fields(2))
    show "\<forall>u \<in> set (ix_utxos ?db'). \<forall>s. ux_spent u = Some s \<longrightarrow> s \<in> tx_ids ?db'" using new by (auto simp: fields(2))
    show "cr_ref ` set (ix_contractBalances ?db') \<subseteq> ca_ID ` set (ix_actions ?db')" using ok by (auto simp: fields refs_ok_def)
    show "cr_ref ` set (ix_segments ?db') \<subseteq> rs_ID ` set (ix_results ?db')" using ok by (auto simp: fields refs_ok_def)
  qed (use ok in \<open>auto simp: fields ids refs_ok_def\<close>)
qed

section \<open>The index as it runs\<close>

text \<open>Output identifiers stay distinct.\<close>

definition index_ok :: "index_db \<Rightarrow> bool" where
  "index_ok db \<longleftrightarrow> refs_ok db \<and> distinct (map ux_ID (ix_utxos db)) \<and> balances_exact db"

lemma persist_rows_ok:
  assumes "index_ok db" and "fresh_ids env p db"
  shows "index_ok (persist_rows env p parentId db)"
proof -
  let ?is = "[0..<length (pb_extrinsics p)]"
  let ?us = "ix_utxos db @ concat (map (utxo_rows_of env p) ?is)"
  obtain us' ds' where run: "applySpends (concat (map (spends_of env p) ?is)) ?us (loop_deltas env p ?is) = (us', ds')" by fastforce
  have "distinct (map ux_ID ?us)"
    by (rule distinct_map_append) (use assms in \<open>simp_all add: fresh_ids_def index_ok_def\<close>)
  then have "distinct (map ux_ID us')" using applySpends_rows [OF run] by metis
  moreover have "ix_utxos (persist_rows env p parentId db) = us'" using run by (simp add: persist_rows_def Let_def)
  ultimately show ?thesis using assms persist_rows_refs persist_rows_exact by (simp add: index_ok_def)
qed

lemma persistFromNode_cases:
  assumes "persistFromNode env fault p req db = (r, db')"
  shows "db' = db \<or> (\<exists>parentId. db' = persist_rows env p parentId db)"
  using assms
  by (auto simp: persistFromNode_def db_tx_def persist_tx_def Let_def split: option.splits prod.splits sum.splits if_splits)

lemma rollback_rows_utxo_ids:
  assumes "rollback_rows t h blockIds db = (db', affected, n)" and "distinct (map ux_ID (ix_utxos db))"
  shows "distinct (map ux_ID (ix_utxos db'))"
proof -
  let ?txIds = "filter (\<lambda>i. i \<noteq> []) (map tx_ID (chunked_select (\<lambda>ids. filter (\<lambda>r. tx_block r \<in> set ids) (ix_txs db)) blockIds))"
  let ?db1 = "delete_blocks blockIds (delete_transactions ?txIds db)"
  let ?db2 = "?db1\<lparr>ix_contractStates := filter (\<lambda>c. cs_height c < h) (ix_contractStates ?db1)\<rparr>"
  have "db' = fold (recomputeNightBalance t) affected ?db2"
    using assms(1) by (auto simp: rollback_rows_def Let_def chunked_deletes)
  then have "ix_utxos db' = ix_utxos ?db2" using fold_recompute by metis
  also have "\<dots> = map (\<lambda>u. if in_ids ?txIds (ux_spent u) then u\<lparr>ux_spent := None\<rparr> else u) (filter (\<lambda>u. ux_created u \<notin> set ?txIds) (ix_utxos db))"
    by (simp add: delete_blocks_def delete_transactions_utxos)
  finally have us: "ix_utxos db' = map (\<lambda>u. if in_ids ?txIds (ux_spent u) then u\<lparr>ux_spent := None\<rparr> else u) (filter (\<lambda>u. ux_created u \<notin> set ?txIds) (ix_utxos db))" .
  have "map ux_ID (map (\<lambda>u. if in_ids ids (ux_spent u) then u\<lparr>ux_spent := None\<rparr> else u) us) = map ux_ID us" for ids us
    by simp
  then have "map ux_ID (ix_utxos db') = map ux_ID (filter (\<lambda>u. ux_created u \<notin> set ?txIds) (ix_utxos db))" unfolding us by blast
  then show ?thesis using assms(2) by (simp add: distinct_map_filter)
qed

lemma rollback_ok:
  assumes "index_ok db" and "rollbackIndexedDataFromHeight t h st extra db = (r, db')"
  shows "index_ok db'"
proof -
  have "distinct (map ux_ID (ix_utxos db'))"
    using assms rollback_rows_utxo_ids [of t h _ "db\<lparr>ix_jdb := x\<rparr>" for x]
    by (auto simp: rollbackIndexedDataFromHeight_def index_ok_def Let_def split: prod.splits if_splits)
  then show ?thesis using assms rollback_exact rollback_clean by (auto simp: index_ok_def)
qed

text \<open>
  The index over time: blocks stored by any writer, with new identifiers, in any order, and rollbacks
  from any height, from a database whose index is in order.
\<close>

inductive index_reach :: "index_db \<Rightarrow> index_db \<Rightarrow> bool" for db0 where
  start: "index_reach db0 db0"
| persist: "index_reach db0 db \<Longrightarrow> fresh_ids env p db \<Longrightarrow> persistFromNode env fault p req db = (r, db') \<Longrightarrow> index_reach db0 db'"
| rollback: "index_reach db0 db \<Longrightarrow> rollbackIndexedDataFromHeight t h st extra db = (r', db') \<Longrightarrow> index_reach db0 db'"

lemma index_reach_ok: "index_reach db0 db \<Longrightarrow> index_ok db0 \<Longrightarrow> index_ok db"
proof (induction rule: index_reach.induct)
  case (persist db env p fault req r db')
  then show ?case using persistFromNode_cases persist_rows_ok by blast
next
  case rollback
  then show ?case using rollback_ok by blast
qed

definition empty_jdb :: jdb where
  "empty_jdb = \<lparr>db_jobs = [], db_subs = [], db_grants = [], db_generation = Some 0\<rparr>"

definition empty_index :: index_db where
  "empty_index = \<lparr>ix_blocks = [], ix_txs = [], ix_results = [], ix_segments = [], ix_fees = [], ix_identifiers = [], ix_actions = [],
     ix_contractBalances = [], ix_utxos = [], ix_zswap = [], ix_dust = [], ix_contractStates = [], ix_balances = [],
     ix_sync = \<lparr>ss_lastIndexedHeight = 0, ss_lastIndexedHash = None, ss_lastIndexedAt = None, ss_lastDecodedHeight = None,
                ss_lastSupplementedHeight = None, ss_syncStatus = ''stopped''\<rparr>,
     ix_jdb = empty_jdb\<rparr>"

lemma empty_index_ok: "index_ok empty_index"
  by (simp add: index_ok_def refs_ok_def tx_ids_def balances_exact_def empty_index_def stored_totals_def select_one_def)

section \<open>Properties\<close>


text \<open>A block with one extrinsic that pays 7 NIGHT to one address.\<close>

definition sample_env :: block_env where
  "sample_env = \<lparr>be_now = 0, be_uuid = (\<lambda>path. CHR ''u'' # concat (map (\<lambda>n. CHR ''-'' # nat_str n) path)), be_blake2b = (\<lambda>_. []),
     be_ledger = \<lparr>encodeUnshieldedOwner = Inr, computeInitialNonce = (\<lambda>_ _. Inr ''00'')\<rparr>\<rparr>"

definition sample_block :: prepared_block where
  "sample_block = \<lparr>pb_blockHash = ''aa'', pb_height = 1, pb_parentHash = ''00'', pb_stateRoot = ''cc'', pb_extrinsics = [''0x04''],
     pb_protocolVersion = 1, pb_palletMap = DEFAULT_PALLET_MAP, pb_timestamp = 5,
     pb_events = Some [(0, emptyEvents\<lparr>xe_created := [\<lparr>ue_address = ''alice'', ue_tokenType = NIGHT_RAW_TOKEN_TYPE,
        ue_intentHash = ''01'', ue_value = 7, ue_outputNo = 0\<rparr>]\<rparr>)],
     pb_author = None, pb_slot = None\<rparr>"

lemma sample_fresh: "fresh_ids sample_env sample_block empty_index"
  by (simp add: fresh_ids_def sample_env_def sample_block_def empty_index_def txId_of_def utxo_rows_of_def created_of_def
      projection_at_def projectEvents_def project_one_def prepare_utxo_def utxo_row_of_def Let_def)




text \<open>
  After a rollback from a height no block at or above it is left, the recorded inclusion data of no job
  lies at or above it except on jobs whose outcome was open anyway, and the rollback counter has moved on.
\<close>

theorem rollback_height:
  assumes "refs_ok db" and "db_generation (ix_jdb db) = Some g"
    and "rollbackIndexedDataFromHeight t h st extra db = (r, db')"
  shows "(\<forall>b \<in> set (ix_blocks db'). bl_height b < h)
    \<and> readReorgGeneration (ix_jdb db') = g + 1
    \<and> (\<forall>j \<in> set (db_jobs (ix_jdb db')). chainStatus j = Some ChainSuccess \<or> chainStatus j = Some ChainFailure \<longrightarrow> \<not> at_or_above h (chainBlockHeight j))"
proof (intro conjI)
  show "\<forall>b \<in> set (ix_blocks db'). bl_height b < h" using rollback_clean [OF assms(1,3)] by blast
  have jdb: "ix_jdb db' = rollback_jdb h (ix_jdb db)"
    using rollback_ix_jdb [of t h st extra db] assms(3) by simp
  show "readReorgGeneration (ix_jdb db') = g + 1" using rollback_generation [OF assms(2)] by (simp add: jdb)
  show "\<forall>j \<in> set (db_jobs (ix_jdb db')). chainStatus j = Some ChainSuccess \<or> chainStatus j = Some ChainFailure \<longrightarrow> \<not> at_or_above h (chainBlockHeight j)"
    unfolding jdb rollback_jdb_def revert_jobs
    by (auto simp: snd_update_where outcome_guard_def clear_chain_def)
qed

theorem rollback_height_witness:
  "let db = snd (rollbackIndexedDataFromHeight 0 1 ''syncing'' id (snd (persistFromNode sample_env None sample_block False empty_index))) in
   list_all (\<lambda>b. bl_height b < 1) (ix_blocks db) \<and> readReorgGeneration (ix_jdb db) = 1"
proof -
  let ?db = "snd (persistFromNode sample_env None sample_block False empty_index)"
  have "index_reach empty_index ?db" by (rule index_reach.persist [OF index_reach.start sample_fresh prod.collapse [symmetric]])
  then have ok: "refs_ok ?db" using index_reach_ok [OF _ empty_index_ok] by (simp add: index_ok_def)
  have "ix_jdb (persist_rows sample_env sample_block p empty_index) = ix_jdb empty_index" for p
    by (simp add: persist_rows_def Let_def split: prod.split)
  then have "ix_jdb ?db = empty_jdb"
    using persistFromNode_cases [OF prod.collapse [symmetric], of sample_env None sample_block False empty_index]
    by (auto simp: empty_index_def)
  then have "db_generation (ix_jdb ?db) = Some 0" by (simp add: empty_jdb_def)
  from rollback_height [OF ok this prod.collapse [symmetric], of 0 1 "''syncing''" id]
  show ?thesis by (simp add: list_all_iff Let_def)
qed

text \<open>
  The block-by-block routine does not keep the first height of an address whose row was reset: a row with
  no first height gets height 0 with its next block, where the computation from scratch gives the height of that block.
\<close>

theorem first_seen_zero:
  assumes "select_one (\<lambda>b. nb_address b = a) bs = Some row" and "nb_firstSeenHeight row = None" and "0 \<le> height"
  shows "map_option nb_firstSeenHeight (select_one (\<lambda>b. nb_address b = a) (applyBalanceDelta t height (a, d) bs)) = Some (Some 0)"
  using assms
  by (simp add: applyBalanceDelta_def select_update_same apply_delta_row_def js_Number_height_def)

theorem first_seen_zero_witness:
  "map_option nb_firstSeenHeight (select_one (\<lambda>b. nb_address b = ''a'')
     (applyBalanceDelta 0 12 (''a'', zero_totals) [reset_balance 0 (new_balance_row ''a'' 0)])) = Some (Some 0)"
  by (rule first_seen_zero [where row = "reset_balance 0 (new_balance_row ''a'' 0)"]) (simp_all add: select_one_def new_balance_row_def reset_balance_def)

end
