(* ===== verification/Job_Machine.thy ===== *)
theory Job_Machine
  imports Job_Scheduler Rollback
begin

text \<open>
  The job table over time. A step is one operation of the store, the admission, the scheduler,
  the reconciliation passes or a rollback, by any worker at any time with any driver faults, or any
  other code that leaves the job table alone. Every operation reads and writes the table
  in statements that commit on their own, so the interleavings of workers are sequences of steps.
\<close>

section \<open>Steps\<close>

definition on_jobs :: "(jobs \<Rightarrow> jobs) \<Rightarrow> jdb \<Rightarrow> jdb" where
  "on_jobs f db = db\<lparr>db_jobs := f (db_jobs db)\<rparr>"

inductive job_step :: "registry \<Rightarrow> jdb \<Rightarrow> jdb \<Rightarrow> bool" for r where
  admit: "job_step r db (on_jobs (\<lambda>js. snd (startJob senv faults a seen js)) db)"
| claim: "job_step r db (on_jobs (\<lambda>js. snd (markRunning env faults i js)) db)"
| external: "job_step r db (on_jobs (\<lambda>js. snd (markJobExternalExecution env faults i sub js)) db)"
| broadcast: "job_step r db (on_jobs (\<lambda>js. snd (markJobBroadcastOn env i sub hash first js)) db)"
| rejected: "job_step r db (on_jobs (\<lambda>js. snd (markJobSubmissionRejectedOn env i sub hash js)) db)"
| submitted: "job_step r db (on_jobs (\<lambda>js. snd (markJobSubmitted env faults i sub hash js)) db)"
| heartbeat: "job_step r db (on_jobs (lease_heartbeat env fault i) db)"
| returned: "job_step r db (on_jobs (settle_result env faults faults' i res) db)"
| threw: "reg renv = r \<Longrightarrow> finalizers_keep_jobs renv \<Longrightarrow> job_step r db (settle_error renv faults faults' confirmer i exc db)"
| supersede: "job_step r db (on_jobs (\<lambda>js. snd (supersedeQueuedJobs env inReq faults k sid excl js)) db)"
| drop: "job_step r db (on_jobs (\<lambda>js. snd (dropPendingJobsForClosedSessions env dfaults sids js)) db)"
| recover: "reg renv = r \<Longrightarrow> job_step r db (on_jobs (\<lambda>js. snd (recoverInterruptedJobs renv dfaults js)) db)"
| reclaim: "job_step r db (on_jobs (\<lambda>js. snd (reclaimExpiredLeases env flt js)) db)"
| reconcile: "reg renv = r \<Longrightarrow> job_step r db (on_jobs (\<lambda>js. snd (snd (reconcileBackgroundJobs renv flt cursor js))) db)"
| refresh: "reg renv = r \<Longrightarrow> job_step r db (on_jobs (\<lambda>js. snd (snd (refreshSucceededChainOutcomes renv flt cursors js))) db)"
| settle: "reg renv = r \<Longrightarrow> job_step r db (snd (snd (settleRejectedSponsorAttempts renv flt cursor db)))"
| confirm: "reg renv = r \<Longrightarrow> finalizers_keep_jobs renv \<Longrightarrow> job_step r db (snd (snd (confirmChainOutcomesViaIndexer renv flt confirmer cs db)))"
| rollback: "job_step r db (rollback_jdb h db)"
| other: "db_jobs db' = db_jobs db \<Longrightarrow> job_step r db db'"

abbreviation job_reach :: "registry \<Rightarrow> jdb \<Rightarrow> jdb \<Rightarrow> bool" where
  "job_reach r \<equiv> (job_step r)\<^sup>*\<^sup>*"

lemma job_step_reach: "job_step r db db' \<Longrightarrow> job_reach r db db'"
  by (rule r_into_rtranclp)

section \<open>Invariant and history\<close>

definition registry_ok :: "registry \<Rightarrow> bool" where
  "registry_ok r \<longleftrightarrow> distinct (map fst (kindTraits r))"

lemma job_step_evolved:
  assumes "job_step r db db'" and "registry_ok r" and "jdb_ok (parent_kind r) js0 db"
  shows "jdb_ok (parent_kind r) js0 db'"
  using assms
proof (cases rule: job_step.cases)
  case (reconcile renv flt cursor)
  then show ?thesis
    using assms(2,3) reconcileBackgroundJobs_ok [of renv js0 "db_jobs db" flt cursor] by (simp add: on_jobs_def registry_ok_def)
next
  case (threw renv faults faults' confirmer i exc)
  then show ?thesis using assms(3) settle_error_ok by blast
next
  case (confirm renv flt confirmer cs)
  then show ?thesis using assms(3) confirmChainOutcomesViaIndexer_ok by blast
qed (auto simp: on_jobs_def intro: startJob_ok mark_ok settle_result_ok dropPendingJobs_ok recover_ok reclaimExpiredLeases_ok
    refreshSucceededChainOutcomes_ok settleRejectedSponsorAttempts_ok rollback_jdb_ok)

lemma job_reach_evolved:
  assumes "job_reach r db db'" and "registry_ok r" and "jdb_ok (parent_kind r) js0 db"
  shows "jdb_ok (parent_kind r) js0 db'"
  using assms(1,3) by (induction rule: rtranclp_induct) (auto intro: job_step_evolved [OF _ assms(2)])

lemma job_reach_row:
  assumes "job_reach r db db'" and "registry_ok r" and "jobs_ok (parent_kind r) (db_jobs db)" and "j \<in> set (db_jobs db)"
  shows "\<exists>j' \<in> set (db_jobs db'). row_progress (parent_kind r) j j'"
  using evolved_row [OF job_reach_evolved [OF assms(1,2) evolved_start [OF assms(3)]] assms(4)] .

lemma job_reach_ok:
  assumes "job_reach r db db'" and "registry_ok r" and "jobs_ok (parent_kind r) (db_jobs db)"
  shows "jobs_ok (parent_kind r) (db_jobs db')"
  using evolved_ok [OF job_reach_evolved [OF assms(1,2) evolved_start [OF assms(3)]]] .

text \<open>The row with an identifier is the row that evolved from it.\<close>

lemma job_reach_same_row:
  assumes "job_reach r db db'" and "registry_ok r" and "jobs_ok (parent_kind r) (db_jobs db)"
    and "j \<in> set (db_jobs db)" and "j' \<in> set (db_jobs db')" and "ID j' = ID j"
  shows "row_progress (parent_kind r) j j'"
proof -
  obtain x where x: "x \<in> set (db_jobs db')" "row_progress (parent_kind r) j x" using job_reach_row [OF assms(1-4)] by blast
  have "ID x = ID j" using x(2) identity_parts [of x j] by (simp add: row_progress_def)
  moreover have "distinct (map ID (db_jobs db'))" using job_reach_ok [OF assms(1-3)] by (simp add: jobs_ok_def)
  ultimately have "x = j'" using x(1) assms(5,6) distinct_map_eqD [of ID "db_jobs db'" x j'] by simp
  with x(2) show ?thesis by simp
qed

section \<open>What a mark needs\<close>

text \<open>A statement through the retry wrapper that answers has matched as many rows as it says.\<close>

lemma retried_count:
  assumes "withLockContentionRetry (db_write faults (update_where g p)) js = (Inr n, js')"
  shows "n = length (filter g js) \<and> js' = snd (update_where g p js)"
  using retried_stmt_cases [OF assms] by (auto simp: update_where_def)

lemma markRunning_True:
  assumes "markRunning env faults i js = (Inr True, js')"
  shows "\<exists>j \<in> set js. ID j = i \<and> status j = Pending"
proof -
  obtain n where w: "withLockContentionRetry (db_write faults (update_where (running_guard i) (running_patch env))) js = (Inr n, js')" and "n = 1"
    using assms by (auto simp: markRunning_def split: prod.splits sum.splits)
  then have "length (filter (running_guard i) js) = 1" using retried_count [OF w] by simp
  then have "filter (running_guard i) js \<noteq> []" by auto
  then show ?thesis by (auto simp: filter_empty_conv running_guard_def)
qed

lemma markExternal_Inr:
  assumes "markJobExternalExecution env faults i sub js = (Inr u, js')"
  shows "(\<exists>j \<in> set js. external_guard env i j) \<and> js' = snd (update_where (external_guard env i) (external_patch env sub) js)"
proof -
  obtain n where w: "withLockContentionRetry (db_write faults (update_where (external_guard env i) (external_patch env sub))) js = (Inr n, js')" and "n = 1"
    using assms by (auto simp: markJobExternalExecution_def split: prod.splits sum.splits option.splits if_splits)
  then have "length (filter (external_guard env i) js) = 1" and js': "js' = snd (update_where (external_guard env i) (external_patch env sub) js)"
    using retried_count [OF w] by auto
  then have "filter (external_guard env i) js \<noteq> []" by auto
  then show ?thesis using js' by (auto simp: filter_empty_conv)
qed

text \<open>A leased update that no row matches throws and changes nothing, whatever the driver does.\<close>

lemma leased_refused:
  assumes "\<And>j. j \<in> set js \<Longrightarrow> \<not> g j"
    and "withLockContentionRetry (db_tx faults (leased_update what g p)) js = (r, js')"
  shows "js' = js \<and> (\<exists>e. r = Inl e)"
  using retried_tx_cases [OF assms(2)] assms(1)
  by (auto simp: leased_update_def update_where_def filter_empty_conv split: if_splits)

section \<open>Properties\<close>

text \<open>
  C12. The table invariant holds in every reachable state: unique identifiers, one row per idempotency
  key, an owner for every job in flight, and no transaction hash on a job that may still be started.
\<close>

theorem job_table_invariant:
  assumes "registry_ok r" and "job_reach r db db'" and "db_jobs db = []"
  shows "jobs_ok (parent_kind r) (db_jobs db')"
  using job_reach_ok [OF assms(2,1)] assms(3) by (simp add: jobs_ok_def)

definition sample_registry :: registry where
  "sample_registry = \<lparr>kindTraits = [(''deploy'', LIGHT_KIND), (''issue'', WORKFLOW_PARENT_KIND)], processors = [], reconciliationFinalizers = []\<rparr>"

lemma sample_registry_ok: "registry_ok sample_registry"
  by (simp add: registry_ok_def sample_registry_def)

definition sample_job :: job where
  "sample_job = \<lparr>ID = ''j1'', kind = ''deploy'', sessionId = Some ''s'', status = Running, idempotencyKey = Some ''k'', request = None,
     payloadFingerprint = Some ''f'', commandVersion = Some 1, command = None, commandEncoding = None, requestedBy = None, grantId = None,
     parentJobId = None, workflowStep = None, job_result = None, errorCode = None, errorMessage = None, startedAt = Some 1, queuedAt = Some 0,
     externalExecutionAt = None, submittedAt = None, finishedAt = None, attempt_no = 1, maxAttempts = 3, leaseOwner = Some ''w1'',
     leaseExpiresAt = Some 100, heartbeatAt = Some 1, submissionId = None, txHash = None, chainStatus = None, chainFinalizedAt = None,
     chainBlockHeight = None, chainBlockHash = None, indexerTxHash = None, chainSegments = None\<rparr>"

definition sample_jdb :: "job \<Rightarrow> jdb" where
  "sample_jdb j = \<lparr>db_jobs = [j], db_subs = [], db_grants = [], db_generation = Some 0\<rparr>"

definition sample_job_env :: job_env where
  "sample_job_env = \<lparr>now = 2, workerId = ''w1'', leaseTtl = 60000\<rparr>"

theorem job_table_invariant_witness:
  "jobs_ok (parent_kind sample_registry) (db_jobs (rollback_jdb 3 ((sample_jdb sample_job)\<lparr>db_jobs := []\<rparr>)))"
  by (rule job_table_invariant [OF sample_registry_ok job_step_reach [OF job_step.rollback]])
     (simp add: sample_jdb_def)

text \<open>
  C3. A job outside the workflow-parent kinds that has left \<open>Pending\<close> and \<open>Running\<close> (its transaction may be
  out, or it has ended) is never started again: in every later state it still has its identity, it is neither
  pending nor running, and every attempt of any worker to claim it fails. Together with the boundary marks
  this is why a restart, an expired lease or a reconciliation pass cannot send a transaction twice.
\<close>

theorem no_second_start:
  assumes "registry_ok r" and "jobs_ok (parent_kind r) (db_jobs db)" and "j \<in> set (db_jobs db)"
    and "\<not> parent_kind r (kind j)" and "\<not> startable (status j)" and "job_reach r db db'"
  shows "(\<exists>j' \<in> set (db_jobs db'). job_identity j' = job_identity j \<and> \<not> startable (status j'))
    \<and> fst (markRunning env faults (ID j) (db_jobs db')) \<noteq> Inr True"
proof
  obtain j' where j': "j' \<in> set (db_jobs db')" "row_progress (parent_kind r) j j'"
    using job_reach_row [OF assms(6,1,2,3)] by blast
  then show "\<exists>j' \<in> set (db_jobs db'). job_identity j' = job_identity j \<and> \<not> startable (status j')"
    using assms(4,5) by (auto simp: row_progress_def progress_def)
  show "fst (markRunning env faults (ID j) (db_jobs db')) \<noteq> Inr True"
  proof
    assume "fst (markRunning env faults (ID j) (db_jobs db')) = Inr True"
    then obtain js' where "markRunning env faults (ID j) (db_jobs db') = (Inr True, js')" by (metis prod.collapse)
    then obtain x where x: "x \<in> set (db_jobs db')" "ID x = ID j" "status x = Pending" using markRunning_True by blast
    have "row_progress (parent_kind r) j x" by (rule job_reach_same_row [OF assms(6,1,2,3) x(1,2)])
    then show False using assms(4,5) x(3) by (auto simp: row_progress_def progress_def startable_def)
  qed
qed

theorem no_second_start_witness:
  "fst (markRunning sample_job_env (\<lambda>_. None) ''j1'' (db_jobs (rollback_jdb 3 (sample_jdb (sample_job\<lparr>status := Submitted, txHash := Some ''h''\<rparr>))))) \<noteq> Inr True"
proof -
  let ?j = "sample_job\<lparr>status := Submitted, txHash := Some ''h''\<rparr>"
  have np: "\<not> parent_kind sample_registry (kind ?j)"
    by (simp add: parent_kind_def jobKindTraits_def sample_registry_def sample_job_def LIGHT_KIND_def)
  have ok: "jobs_ok (parent_kind sample_registry) (db_jobs (sample_jdb ?j))"
    by (simp add: jobs_ok_def sample_jdb_def job_ok_def sample_job_def in_flight_def)
  have "ID ?j = ''j1''" "\<not> startable (status ?j)" by (simp_all add: sample_job_def startable_def)
  moreover have "?j \<in> set (db_jobs (sample_jdb ?j))" by (simp add: sample_jdb_def)
  ultimately show ?thesis
    using no_second_start [OF sample_registry_ok ok _ np _ job_step_reach [OF job_step.rollback]] by metis
qed



text \<open>
  C13. Success is final, and a failure is final unless it is an on-chain failure that a rollback reopens: no later
  step of any worker changes it, and the job keeps its identity and its command.
\<close>

theorem ended_jobs_stay:
  assumes "registry_ok r" and "jobs_ok (parent_kind r) (db_jobs db)" and "j \<in> set (db_jobs db)"
    and "status j = Succeeded \<or> closed_failure j" and "job_reach r db db'"
  shows "\<exists>j' \<in> set (db_jobs db'). job_identity j' = job_identity j \<and> status j' = status j \<and> (closed_failure j \<longrightarrow> closed_failure j')"
proof -
  obtain j' where "j' \<in> set (db_jobs db')" "row_progress (parent_kind r) j j'"
    using job_reach_row [OF assms(5,1,2,3)] by blast
  then show ?thesis using assms(4) by (intro bexI [of _ j']) (auto simp: row_progress_def progress_def closed_failure_def)
qed

theorem ended_jobs_stay_witness:
  "\<exists>j' \<in> set (db_jobs (rollback_jdb 3 (sample_jdb (sample_job\<lparr>status := Succeeded\<rparr>)))). status j' = Succeeded"
proof -
  let ?j = "sample_job\<lparr>status := Succeeded\<rparr>"
  have ok: "jobs_ok (parent_kind sample_registry) (db_jobs (sample_jdb ?j))"
    by (simp add: jobs_ok_def sample_jdb_def job_ok_def sample_job_def in_flight_def)
  have "?j \<in> set (db_jobs (sample_jdb ?j))" by (simp add: sample_jdb_def)
  from ended_jobs_stay [OF sample_registry_ok ok this _ job_step_reach [OF job_step.rollback]]
  show ?thesis by auto
qed





end
