(* ===== verification/Job_Properties.thy ===== *)
theory Job_Properties
  imports Job_Machine "HOL-Library.Sublist"
begin

text \<open>
  Properties of the single operations of the job components: restart recovery, admission,
  the wait for a workflow child, the semaphores, the pick of a poll, the lost broadcast and the
  reading of the indexer's answers.
\<close>

section \<open>Restart recovery\<close>

lemma recover_throws_goal:
  assumes "recoverInterruptedJobs env faults js = (Inl e, js')"
  shows "map (recovery_goal (kindsWithTrait sessionBound (reg env))) js' = map (recovery_goal (kindsWithTrait sessionBound (reg env))) js"
proof -
  let ?kinds = "kindsWithTrait sessionBound (reg env)"
  let ?wr = "\<lambda>n. run_stmts (faults n) 0 (recovery_stmts (base env) ?kinds)"
  have "retry_from 0 (js_Error ''undefined'') ?wr js = (Inl e, js')"
    using assms by (auto simp: recoverInterruptedJobs_def Let_def withLockContentionRetry_def split: if_splits prod.splits sum.splits)
  then show ?thesis
  proof (rule retry_from_failed [where I = "\<lambda>x. map (recovery_goal ?kinds) x = map (recovery_goal ?kinds) js"])
    fix n s e s'
    assume s: "map (recovery_goal ?kinds) s = map (recovery_goal ?kinds) js" and run: "?wr n s = (Inl e, s')"
    have "map (recovery_goal ?kinds) s' = map (recovery_goal ?kinds) s"
      by (rule run_stmts_stopped [OF run]) (rule recovery_stmts_goal)
    with s show "map (recovery_goal ?kinds) s' = map (recovery_goal ?kinds) js" by simp
  qed simp
qed

text \<open>
  C38. After a restart every job stands where the specification of the recovery puts it: work that never
  left the process is queued again or failed, a send that was not announced is failed, and everything that may
  be on chain is parked. When the database refuses the recovery half way, the next run still arrives there.
\<close>

theorem recovery_converges:
  "(case recoverInterruptedJobs env faults js of
      (Inr n, js') \<Rightarrow> map (\<lambda>j. (status j, txHash j, ID j)) js' = map (recovery_goal (kindsWithTrait sessionBound (reg env))) js
    | (Inl e, js') \<Rightarrow> map (recovery_goal (kindsWithTrait sessionBound (reg env))) js' = map (recovery_goal (kindsWithTrait sessionBound (reg env))) js)"
  using recoverInterruptedJobs_spec recover_throws_goal
  by (auto split: prod.splits sum.splits)

lemma run_stmts_clean: "(\<And>c. faults c = None) \<Longrightarrow> \<exists>js'. run_stmts faults c sts js = (Inr (), js')"
  by (induction sts arbitrary: c js) (auto simp: db_write_def split: prod.splits)

text \<open>
  A database that answers lets the recovery through: it returns, with the number of jobs it found open.
\<close>

theorem recovery_returns:
  assumes "\<And>c. faults 0 c = None"
  shows "fst (recoverInterruptedJobs env faults js) = Inr (length (filter (\<lambda>j. open_status (status j)) js))"
proof -
  obtain js' where "run_stmts (faults 0) 0 (recovery_stmts (base env) (kindsWithTrait sessionBound (reg env))) js = (Inr (), js')"
    using run_stmts_clean assms by blast
  then show ?thesis
    by (simp add: recoverInterruptedJobs_def Let_def withLockContentionRetry_def retry_from.simps [of 0] LOCK_CONTENTION_ATTEMPTS_def)
qed

definition sample_rec_env :: rec_env where
  "sample_rec_env = \<lparr>base = sample_job_env, dateParse = (\<lambda>_. None), expiryMargin = 1000, reg = sample_registry, decrypt = (\<lambda>_ _. Inr JNull)\<rparr>"

theorem recovery_returns_witness: "fst (recoverInterruptedJobs sample_rec_env (\<lambda>_ _. None) [sample_job]) = Inr 1"
  by (subst recovery_returns) (simp_all add: open_status_def in_flight_def sample_job_def)

section \<open>Admission\<close>

text \<open>
  A repeated request under an idempotency key that a job holds never makes a second job, whatever the
  database does and however old the table was that the quick check saw: the table stays, and an answer names the
  job that is there.
\<close>

theorem admission_repeats:
  assumes "jobs_ok parent js" and "j \<in> set js" and "has_key (sa_sessionId a) (sa_kind a) key j"
    and "sa_idempotencyKey a = Some key" and "key \<noteq> []"
    and "\<And>x. x \<in> set seen \<Longrightarrow> has_key (sa_sessionId a) (sa_kind a) key x \<Longrightarrow> ID x = ID j"
    and "startJob env faults a seen js = (r, js')"
  shows "js' = js \<and> (\<forall>x. r = Inr x \<longrightarrow> sr_jobId x = ID j \<and> sr_deduplicated x)"
  using startJob_repeat assms by blast

definition sample_args :: start_args where
  "sample_args = \<lparr>sa_kind = ''deploy'', sa_sessionId = ''s'', sa_idempotencyKey = Some ''k'', sa_request = JNull, sa_idempotencyPayload = None,
     sa_requestedBy = None, sa_grantId = None, sa_command = None, sa_commandVersion = None, sa_encryptCommand = False, sa_parentJobId = None,
     sa_workflowStep = None, sa_hasWork = True\<rparr>"

definition sample_start_env :: "string \<Rightarrow> start_env" where
  "sample_start_env digest = \<lparr>se_now = 3, se_uuid = ''j2'', se_reg = sample_registry, se_sha256 = (\<lambda>_. digest), se_encrypt = (\<lambda>s _. s), se_artifactDigest = (\<lambda>_. Inr JNull)\<rparr>"

lemma sample_jobs_ok: "jobs_ok (parent_kind sample_registry) [sample_job]"
  by (simp add: jobs_ok_def job_ok_def sample_job_def keyed_def idem_key_def in_flight_def past_boundary_def)

lemma sample_has_key: "has_key (sa_sessionId sample_args) (sa_kind sample_args) ''k'' sample_job"
  by (simp add: has_key_def sample_args_def sample_job_def)

theorem admission_repeats_witness:
  "snd (startJob (sample_start_env ''f'') (\<lambda>_. None) sample_args [] [sample_job]) = [sample_job]"
  using admission_repeats [OF sample_jobs_ok _ sample_has_key, where seen = "[]" and env = "sample_start_env ''f''" and faults = "\<lambda>_. None",
      OF _ _ _ _ prod.collapse [symmetric]]
  by (simp add: sample_args_def)

text \<open>
  The same key with another payload is refused with the conflict error and changes nothing.
\<close>

theorem admission_conflict:
  assumes "jobs_ok parent js" and "j \<in> set js" and "has_key (sa_sessionId a) (sa_kind a) key j"
    and "sa_idempotencyKey a = Some key" and "key \<noteq> []" and "length key \<le> IDEMPOTENCY_KEY_MAX_LENGTH"
    and "payloadFingerprint j = Some f" and "f \<noteq> []" and "f \<noteq> fingerprint_of env a" and "start_checks env a = Inr ()"
  shows "startJob env faults a js js = (Inl (IdempotencyConflictError key), js)"
  using startJob_conflict assms by blast

theorem admission_conflict_witness:
  "startJob (sample_start_env ''g'') (\<lambda>_. None) sample_args [sample_job] [sample_job] = (Inl (IdempotencyConflictError ''k''), [sample_job])"
  by (rule admission_conflict [OF sample_jobs_ok _ sample_has_key, where f = "''f''"])
    (simp_all add: sample_args_def sample_job_def IDEMPOTENCY_KEY_MAX_LENGTH_def fingerprint_of_def sample_start_env_def start_checks_def replayable_def)

section \<open>Workflow children\<close>

text \<open>
  C40. The wait of a workflow parent for its child ends: once the clock passes the deadline the loop returns,
  with the child's result, an error, or the demand to reconcile.
\<close>

theorem child_wait_ends:
  assumes "deadline \<le> clock (i + n)"
  shows "await_child (Suc n) i pid cid step deadline clock tab \<noteq> None"
  using await_child_ends [of n "Suc n" deadline clock i] assms by simp

theorem child_wait_ends_witness: "await_child 5 0 ''p'' ''j1'' ''step'' 2000 (\<lambda>i. 500 * int i) (\<lambda>_. [sample_job]) \<noteq> None"
  using child_wait_ends [of 2000 "\<lambda>i. 500 * int i" 0 4] by simp

section \<open>Semaphores and the poll\<close>

text \<open>
  A semaphore never lets more jobs run than its class allows, counts exactly the jobs that hold it, and
  keeps nobody waiting while a slot is free.
\<close>

theorem semaphore_safe:
  assumes "sem_reach m (s, holders)"
  shows "int (length holders) \<le> max 0 m \<and> inFlight s = int (length holders) \<and> (waiters s \<noteq> [] \<longrightarrow> m \<le> inFlight s)"
  using sem_reach_inv [OF assms] by (auto simp: sem_inv_def)

theorem semaphore_safe_witness:
  "inFlight (snd (acquire ''a'' (new_semaphore 1))) = 1"
proof -
  have "sem_reach 1 (snd (acquire ''a'' (new_semaphore 1)), [''a''])"
    by (rule sem_reach.step [OF sem_reach.start], rule sem_step.granted) (simp add: acquire_def new_semaphore_def)
  then show ?thesis using semaphore_safe by force
qed

lemma poll_pick_within:
  "\<exists>sel. poll_pick r dispatching avail budget rows = map ID sel \<and> subseq sel rows
     \<and> (\<forall>key. int (length (filter (\<lambda>j. fst (concurrencyClass r (kind j)) = key) sel))
              \<le> max 0 (case budget key of Some n \<Rightarrow> n | None \<Rightarrow> avail key))"
proof (induction rows arbitrary: budget)
  case Nil
  show ?case by simp
next
  case (Cons j rows)
  let ?key = "fst (concurrencyClass r (kind j))"
  let ?free = "case budget ?key of Some n \<Rightarrow> n | None \<Rightarrow> avail ?key"
  show ?case
  proof (cases "ID j \<in> dispatching \<or> processorKey (kind j) (case commandVersion j of Some v \<Rightarrow> v | None \<Rightarrow> 0) \<notin> set (map fst (processors r)) \<or> ?free \<le> 0")
    case True
    then have "poll_pick r dispatching avail budget (j # rows) = poll_pick r dispatching avail budget rows" by (auto simp: Let_def)
    moreover obtain sel where "poll_pick r dispatching avail budget rows = map ID sel" "subseq sel rows"
      "\<forall>key. int (length (filter (\<lambda>j. fst (concurrencyClass r (kind j)) = key) sel)) \<le> max 0 (case budget key of Some n \<Rightarrow> n | None \<Rightarrow> avail key)"
      using Cons [of budget] by blast
    ultimately show ?thesis by (intro exI [of _ sel]) auto
  next
    case False
    then have eq: "poll_pick r dispatching avail budget (j # rows) = ID j # poll_pick r dispatching avail (budget(?key \<mapsto> ?free - 1)) rows"
      by (auto simp: Let_def)
    obtain sel where sel: "poll_pick r dispatching avail (budget(?key \<mapsto> ?free - 1)) rows = map ID sel" "subseq sel rows"
      "\<And>key. int (length (filter (\<lambda>j. fst (concurrencyClass r (kind j)) = key) sel))
         \<le> max 0 (case (budget(?key \<mapsto> ?free - 1)) key of Some n \<Rightarrow> n | None \<Rightarrow> avail key)"
      using Cons [of "budget(?key \<mapsto> ?free - 1)"] by blast
    have "int (length (filter (\<lambda>j. fst (concurrencyClass r (kind j)) = key) (j # sel))) \<le> max 0 (case budget key of Some n \<Rightarrow> n | None \<Rightarrow> avail key)" for key
      using sel(3) [of key] False by (auto split: option.splits)
    then show ?thesis using eq sel(1,2) by (intro exI [of _ "j # sel"]) simp
  qed
qed

text \<open>
  One poll starts pending jobs with a stored command in the order they were made, and of no class
  more than it has free slots.
\<close>

theorem poll_within_slots:
  "\<exists>sel. poll_dispatch r dispatching avail js = map ID sel \<and> subseq sel js
     \<and> (\<forall>key. int (length (filter (\<lambda>j. fst (concurrencyClass r (kind j)) = key) sel)) \<le> max 0 (avail key))"
proof -
  obtain sel where "poll_dispatch r dispatching avail js = map ID sel" "subseq sel (poll_candidates js)"
    "\<And>key. int (length (filter (\<lambda>j. fst (concurrencyClass r (kind j)) = key) sel)) \<le> max 0 (avail key)"
    using poll_pick_within [of r dispatching avail Map.empty "poll_candidates js"] by (auto simp: poll_dispatch_def)
  moreover have "subseq (poll_candidates js) js" unfolding poll_candidates_def
    by (meson list_emb_trans subseq_filter_left take_is_prefix prefix_imp_subseq subseq_order.order_trans)
  ultimately show ?thesis by (meson subseq_order.order_trans)
qed

section \<open>Chain evidence\<close>

text \<open>
  A parked job is failed as never included only on evidence: the indexer that does not know the transaction
  is past its time to live plus the margin, and the job is no workflow parent. The job and its attempt change
  together, and the reserved deploy is given back at most once, only by the transaction that closes the attempt.
\<close>

theorem lost_broadcast:
  "(case finalizeLostBroadcast env faults j tipMs generation db of
      (r, db') \<Rightarrow>
        db' = db \<or> (\<exists>tip ttl. tipMs = Some tip \<and> broadcast_ttl env j (attempt_of j db) = Some ttl \<and> ttl + expiryMargin env < tip
          \<and> \<not> workflowParent (jobKindTraits (reg env) (kind j))
          \<and> lost_tx env j (attempt_of j db) tip ttl generation db = (r, db')))"
  by (auto simp: finalizeLostBroadcast_def Let_def split: option.splits prod.splits dest!: retried_tx_cases)

text \<open>
  What the lookup concludes from the indexer: a confirmed outcome has a block height that is not
  negative, so that a rollback can undo it, and an absence with a time is no younger than either answer that counted.
\<close>

theorem indexer_evidence:
  "(case confirmTx tms indexer h of
      Inl e \<Rightarrow> True
    | Inr (Outcome oc) \<Rightarrow> 0 \<le> out_blockHeight oc
    | Inr (Absent tip) \<Rightarrow>
        (\<exists>t1 k1 t2 k2. tx_lookup_of tms (indexer (ByIdentifier h)) = Inr (NotPresent t1 k1)
           \<and> tx_lookup_of tms (indexer (ByHash h)) = Inr (NotPresent t2 k2)
           \<and> (case tip of None \<Rightarrow> True | Some t \<Rightarrow> (k1 \<or> (\<exists>x. t1 = Some x \<and> t \<le> x)) \<and> (k2 \<or> (\<exists>x. t2 = Some x \<and> t \<le> x))))
    | Inr NoConclusion \<Rightarrow> True)"
proof -
  have tip: "(k1 \<or> (\<exists>x. t1 = Some x \<and> t \<le> x)) \<and> (k2 \<or> (\<exists>x. t2 = Some x \<and> t \<le> x))" if "absent_tip (t1, k1) (t2, k2) = Some t" for t1 k1 t2 k2 t
    using absent_tip_Some [OF that] by auto
  have "0 \<le> out_blockHeight oc" if "tx_lookup_of tms ans = Inr (Present sl)" "outcomeOf sl = Outcome oc" for ans sl oc
    using outcomeOf_Outcome [OF that(2)] tx_lookup_height that(1) by force
  then show ?thesis
    by (auto simp: confirmTx_def outcomeOf_not_absent dest: tip split: sum.splits tx_lookup.splits chain_lookup.splits option.splits)
qed

end
