(* ===== verification/Js_Value.thy ===== *)
theory Js_Value
  imports Prelude
begin

text \<open>
  Values of unknown shape. The sponsoring code inspects transactions that a foreign ledger library
  deserialised: it reads properties that may be missing, tests types, and iterates over what it
  finds. Such a value is a \<open>jv\<close>; reading, iterating and printing follow the language.

  A string is the sequence of its characters; bytes decoded as text stand for their UTF-8
  encoding. Numbers are integers or \<^verbatim>\<open>NaN\<close>. An object is its class name and its own
  properties; methods of foreign objects are arguments of the operations that call them.
\<close>

datatype jv =
    VUndef
  | VNull
  | VBool bool
  | VNum int
  | VNaN
  | VBig int
  | VStr string
  | VBytes "nat list"
  | VArr "jv list"
  | VMap "(jv \<times> jv) list"
  | VObj string "(string \<times> jv) list"

section \<open>Reading\<close>

definition v_nullish :: "jv \<Rightarrow> bool" where
  "v_nullish v \<longleftrightarrow> v = VUndef \<or> v = VNull"

fun v_truthy :: "jv \<Rightarrow> bool" where
  "v_truthy VUndef = False"
| "v_truthy VNull = False"
| "v_truthy (VBool b) = b"
| "v_truthy (VNum n) = (n \<noteq> 0)"
| "v_truthy VNaN = False"
| "v_truthy (VBig n) = (n \<noteq> 0)"
| "v_truthy (VStr s) = (s \<noteq> [])"
| "v_truthy _ = True"

fun v_typeof :: "jv \<Rightarrow> string" where
  "v_typeof VUndef = ''undefined''"
| "v_typeof (VBool _) = ''boolean''"
| "v_typeof (VNum _) = ''number''"
| "v_typeof VNaN = ''number''"
| "v_typeof (VBig _) = ''bigint''"
| "v_typeof (VStr _) = ''string''"
| "v_typeof _ = ''object''"

fun v_class :: "jv \<Rightarrow> string option" where
  "v_class VUndef = None"
| "v_class VNull = None"
| "v_class (VBool _) = Some ''Boolean''"
| "v_class (VNum _) = Some ''Number''"
| "v_class VNaN = Some ''Number''"
| "v_class (VBig _) = Some ''BigInt''"
| "v_class (VStr _) = Some ''String''"
| "v_class (VBytes _) = Some ''Uint8Array''"
| "v_class (VArr _) = Some ''Array''"
| "v_class (VMap _) = Some ''Map''"
| "v_class (VObj c _) = Some c"

text \<open>Properties every value has or inherits: its constructor and its size.\<close>

definition inherited :: "jv \<Rightarrow> string \<Rightarrow> jv" where
  "inherited v k =
     (if k = ''constructor'' then (case v_class v of None \<Rightarrow> VUndef | Some c \<Rightarrow> VObj ''Function'' [(''name'', VStr c)])
      else case v of
             VMap kvs \<Rightarrow> if k = ''size'' then VNum (int (length kvs)) else VUndef
           | VArr xs \<Rightarrow> if k = ''length'' then VNum (int (length xs)) else VUndef
           | VStr s \<Rightarrow> if k = ''length'' then VNum (int (length s)) else VUndef
           | VBytes bs \<Rightarrow> if k = ''length'' then VNum (int (length bs)) else VUndef
           | _ \<Rightarrow> VUndef)"

text \<open>\<^verbatim>\<open>v?.k\<close>: undefined for a missing property and for a missing value.\<close>

definition jprop :: "jv \<Rightarrow> string \<Rightarrow> jv" where
  "jprop v k = (case v of VObj c fs \<Rightarrow> (case map_of fs k of Some x \<Rightarrow> x | None \<Rightarrow> inherited v k) | _ \<Rightarrow> inherited v k)"

fun is_number :: "jv \<Rightarrow> bool" where
  "is_number (VNum _) = True"
| "is_number VNaN = True"
| "is_number _ = False"

fun positive :: "jv \<Rightarrow> bool" where
  "positive (VNum n) = (0 < n)"
| "positive _ = False"

fun array_of :: "jv \<Rightarrow> jv list option" where
  "array_of (VArr xs) = Some xs"
| "array_of _ = None"

definition indexed :: "'a list \<Rightarrow> (jv \<times> 'a) list" where
  "indexed xs = zip (map (\<lambda>i. VNum (int i)) [0 ..< length xs]) xs"

text \<open>\<^verbatim>\<open>entries()\<close>, \<^verbatim>\<open>values()\<close> and iteration, where the value has them.\<close>

fun v_entries :: "jv \<Rightarrow> (jv \<times> jv) list option" where
  "v_entries (VMap kvs) = Some kvs"
| "v_entries (VArr xs) = Some (indexed xs)"
| "v_entries (VBytes bs) = Some (indexed (map (\<lambda>b. VNum (int b)) bs))"
| "v_entries _ = None"

definition v_values :: "jv \<Rightarrow> jv list option" where
  "v_values v = map_option (map snd) (v_entries v)"

fun v_iter :: "jv \<Rightarrow> jv list option" where
  "v_iter (VArr xs) = Some xs"
| "v_iter (VMap kvs) = Some (map (\<lambda>(k, v). VArr [k, v]) kvs)"
| "v_iter (VBytes bs) = Some (map (\<lambda>b. VNum (int b)) bs)"
| "v_iter (VStr s) = Some (map (\<lambda>c. VStr [c]) s)"
| "v_iter _ = None"

text \<open>Element \<open>i\<close> of an array, undefined outside it.\<close>

definition elem_at :: "jv list \<Rightarrow> nat \<Rightarrow> jv" where
  "elem_at xs i = (if i < length xs then xs ! i else VUndef)"

section \<open>Text\<close>

fun v_String :: "jv \<Rightarrow> string" where
  "v_String VUndef = ''undefined''"
| "v_String VNull = ''null''"
| "v_String (VBool b) = (if b then ''true'' else ''false'')"
| "v_String (VNum n) = int_str n"
| "v_String VNaN = ''NaN''"
| "v_String (VBig n) = int_str n"
| "v_String (VStr s) = s"
| "v_String (VBytes bs) = join '','' (map nat_str bs)"
| "v_String (VArr xs) = join '','' (map (\<lambda>v. if v = VUndef \<or> v = VNull then [] else v_String v) xs)"
| "v_String (VMap _) = ''[object Map]''"
| "v_String (VObj _ _) = ''[object Object]''"

text \<open>\<^verbatim>\<open>String(v ?? '')\<close> and \<^verbatim>\<open>bareHex(v)\<close>.\<close>

definition text_or_empty :: "jv \<Rightarrow> string" where
  "text_or_empty v = (if v_nullish v then [] else v_String v)"

definition bareHex_v :: "jv \<Rightarrow> string" where
  "bareHex_v v = bareHex (text_or_empty v)"

lemma bareHex_v_VStr [simp]: "bareHex_v (VStr s) = bareHex s"
  by (simp add: bareHex_v_def text_or_empty_def v_nullish_def)

text \<open>
  \<^verbatim>\<open>new TextDecoder().decode\<close>: well-formed sequences are kept, an ill-formed one becomes the
  replacement character, and a leading byte order mark is dropped. The state is the number of
  continuation bytes still expected, the range of the next one, and the bytes read so far.
\<close>

type_synonym utf8_state = "nat \<times> nat \<times> nat \<times> nat list"

definition REPLACEMENT :: "nat list" where "REPLACEMENT = [239, 191, 189]"

definition utf8_start :: "nat \<Rightarrow> nat list \<times> utf8_state" where
  "utf8_start b =
     (if b < 128 then ([b], 0, 0, 0, [])
      else if 194 \<le> b \<and> b \<le> 223 then ([], 1, 128, 191, [b])
      else if 224 \<le> b \<and> b \<le> 239 then ([], 2, if b = 224 then 160 else 128, if b = 237 then 159 else 191, [b])
      else if 240 \<le> b \<and> b \<le> 244 then ([], 3, if b = 240 then 144 else 128, if b = 244 then 143 else 191, [b])
      else (REPLACEMENT, 0, 0, 0, []))"

definition utf8_byte :: "utf8_state \<Rightarrow> nat \<Rightarrow> nat list \<times> utf8_state" where
  "utf8_byte st b =
     (case st of (need, lo, hi, seen) \<Rightarrow>
        if need = 0 then utf8_start b
        else if b < lo \<or> hi < b then (let (out, st') = utf8_start b in (REPLACEMENT @ out, st'))
        else if need = 1 then (seen @ [b], 0, 0, 0, [])
        else ([], need - 1, 128, 191, seen @ [b]))"

fun utf8_decode :: "utf8_state \<Rightarrow> nat list \<Rightarrow> nat list" where
  "utf8_decode st [] = (if fst st = 0 then [] else REPLACEMENT)"
| "utf8_decode st (b # bs) = (case utf8_byte st b of (out, st') \<Rightarrow> out @ utf8_decode st' bs)"

definition text_decode :: "nat list \<Rightarrow> string" where
  "text_decode bs =
     (let out = utf8_decode (0, 0, 0, []) bs
      in map char_of (if take 3 out = [239, 187, 191] \<and> take 3 bs = [239, 187, 191] then drop 3 out else out))"

lemma text_decode_ascii: "list_all (\<lambda>b. b < 128) bs \<Longrightarrow> text_decode bs = map char_of bs"
proof -
  assume "list_all (\<lambda>b. b < 128) bs"
  then have d: "utf8_decode (0, 0, 0, []) bs = bs" and t: "take 3 bs \<noteq> [239, 187, 191]"
    by (induction bs) (auto simp: utf8_byte_def utf8_start_def take_Cons')
  then show ?thesis by (simp add: text_decode_def)
qed

section \<open>Maps with insertion order\<close>

text \<open>A JavaScript \<^verbatim>\<open>Map\<close> from strings: \<^verbatim>\<open>set\<close> keeps the place of a key it already has.\<close>

fun map_put :: "'k \<Rightarrow> 'v \<Rightarrow> ('k \<times> 'v) list \<Rightarrow> ('k \<times> 'v) list" where
  "map_put k v [] = [(k, v)]"
| "map_put k v ((k', v') # kvs) = (if k = k' then (k, v) # kvs else (k', v') # map_put k v kvs)"

definition amount_of :: "('k \<times> int) list \<Rightarrow> 'k \<Rightarrow> int" where
  "amount_of m k = (case map_of m k of Some v \<Rightarrow> v | None \<Rightarrow> 0)"

lemma map_of_map_put [simp]: "map_of (map_put k v m) = (map_of m)(k \<mapsto> v)"
  by (induction k v m rule: map_put.induct) auto

lemma amount_of_put [simp]: "amount_of (map_put k v m) k' = (if k' = k then v else amount_of m k')"
  by (simp add: amount_of_def)

lemma amount_of_Nil [simp]: "amount_of [] k = 0"
  by (simp add: amount_of_def)

lemma map_put_keys: "fst ` set (map_put k v m) = insert k (fst ` set m)"
  by (induction k v m rule: map_put.induct) auto

lemma distinct_map_put: "distinct (map fst m) \<Longrightarrow> distinct (map fst (map_put k v m))"
  by (induction k v m rule: map_put.induct) (auto simp: map_put_keys)

section \<open>Amounts as text\<close>

text \<open>An amount printed with \<^verbatim>\<open>toString\<close> reads back as itself.\<close>

lemma digit_kept: "is_digit c \<Longrightarrow> c \<noteq> CHR '','' \<and> c \<noteq> CHR ''_'' \<and> \<not> is_space c \<and> c \<noteq> CHR ''-''"
  by (auto simp: is_digit_def is_space_def Let_def)

lemma digits_kept: "list_all is_digit s \<Longrightarrow> filter (\<lambda>c. c \<noteq> CHR '','' \<and> c \<noteq> CHR ''_'' \<and> \<not> is_space c) s = s"
  by (induction s) (auto dest: digit_kept)

lemma text_int_digits: "s \<noteq> [] \<Longrightarrow> list_all is_digit s \<Longrightarrow> text_int s = digits_val s 0 \<and> text_int (CHR ''-'' # s) = - digits_val s 0"
proof -
  assume s: "s \<noteq> []" "list_all is_digit s"
  obtain c cs where c: "s = c # cs" using s(1) by (cases s) auto
  have "c \<noteq> CHR ''-''" using s(2) digit_kept by (simp add: c)
  moreover have "\<not> is_space (CHR ''-'')" by (simp add: is_space_def)
  ultimately show ?thesis using digits_kept [OF s(2)] s by (simp add: text_int_def c)
qed

lemma text_int_int_str [simp]: "text_int (int_str i) = i"
proof (cases "i < 0")
  case True
  then show ?thesis using nat_str_digits [of "nat (- i)"] by (simp add: int_str_def text_int_digits)
next
  case False
  then show ?thesis using nat_str_digits [of "nat i"] by (simp add: int_str_def text_int_digits)
qed

end
