(* ===== verification/Rate_Limiter.thy ===== *)
theory Rate_Limiter
  imports Prelude
begin

text \<open>
  The sliding-window rate limiter (\<^verbatim>\<open>srv/utils/rate-limiter.ts\<close>). The table of hits is a
  \<^verbatim>\<open>Map\<close>: an association list in insertion order, with the least recently used key first,
  because a check removes its key and puts it back at the end. The limit in force is an
  argument of a check, since the code reads it at every check. The second half shows that the
  table answers as the plain log of granted requests would.
\<close>

section \<open>Keys\<close>

definition groupOf :: "string \<Rightarrow> string" where
  "groupOf key = takeWhile (\<lambda>c. c \<noteq> CHR '':'') key"

definition MARKER_PRINCIPALS :: "string list" where
  "MARKER_PRINCIPALS = [''agent-token-transport'', ''public-verify-transport'', ''anonymous'']"

text \<open>What the key is built from: the grant, the user and the client address of a request.\<close>

record rate_req =
  rq_grant :: "string option"
  rq_user :: "string option"
  rq_ip :: "string option"

definition present :: "string option \<Rightarrow> bool" where
  "present s \<longleftrightarrow> s \<noteq> None \<and> s \<noteq> Some []"

definition principal_of :: "rate_req \<Rightarrow> string" where
  "principal_of r =
     (let user = (case rq_user r of Some u \<Rightarrow> if u \<in> set MARKER_PRINCIPALS then None else Some u | None \<Rightarrow> None)
      in if present (rq_grant r) then ''grant='' @ the (rq_grant r)
         else if present user then ''user='' @ the user
         else if present (rq_ip r) then ''ip='' @ map (\<lambda>c. if c = CHR '':'' then CHR ''.'' else c) (the (rq_ip r))
         else ''anonymous'')"

definition principalRateKey :: "rate_req \<Rightarrow> string \<Rightarrow> string" where
  "principalRateKey r scope = principal_of r @ '':'' @ scope"

definition grantRateKey :: "string \<Rightarrow> string \<Rightarrow> string" where
  "grantRateKey grantId scope = ''grant='' @ grantId @ '':'' @ scope"

section \<open>The limiter\<close>

record rate_limiter =
  rl_windowMs :: int
  rl_maxKeys :: nat
  rl_maxKeysPerGroup :: nat
  rl_groupCounts :: "string \<Rightarrow> nat"
  rl_hits :: "(string \<times> int list) list"

record rate_check =
  rc_allowed :: bool
  rc_retryAfterMs :: int
  rc_limit :: int
  rc_remaining :: int
  rc_resetMs :: int

text \<open>An option of 0 means the default. A group without an entry counts 0.\<close>

definition new_limiter :: "int \<Rightarrow> nat \<Rightarrow> nat \<Rightarrow> rate_limiter" where
  "new_limiter windowMs maxKeys maxKeysPerGroup =
     \<lparr>rl_windowMs = windowMs, rl_maxKeys = (if maxKeys = 0 then 10000 else maxKeys),
      rl_maxKeysPerGroup = (if maxKeysPerGroup = 0 then 64 else maxKeysPerGroup), rl_groupCounts = (\<lambda>_. 0), rl_hits = []\<rparr>"

definition hits_of :: "rate_limiter \<Rightarrow> string \<Rightarrow> int list" where
  "hits_of s key = (case map_of (rl_hits s) key of Some ts \<Rightarrow> ts | None \<Rightarrow> [])"

definition min_of :: "int \<Rightarrow> int list \<Rightarrow> int" where
  "min_of d ts = (case ts of [] \<Rightarrow> d | t # us \<Rightarrow> fold min us t)"

definition peek :: "int \<Rightarrow> int \<Rightarrow> string \<Rightarrow> rate_limiter \<Rightarrow> rate_check" where
  "peek lim nw key s =
     (let inWindow = filter (\<lambda>t. nw - rl_windowMs s < t) (hits_of s key);
          resetMs = (if inWindow = [] then 0 else max (min_of 0 inWindow + rl_windowMs s - nw) 0)
      in if int (length inWindow) < lim
         then \<lparr>rc_allowed = True, rc_retryAfterMs = 0, rc_limit = lim, rc_remaining = lim - int (length inWindow), rc_resetMs = resetMs\<rparr>
         else \<lparr>rc_allowed = False, rc_retryAfterMs = resetMs, rc_limit = lim, rc_remaining = 0, rc_resetMs = resetMs\<rparr>)"

definition reset :: "rate_limiter \<Rightarrow> rate_limiter" where
  "reset s = s\<lparr>rl_hits := [], rl_groupCounts := (\<lambda>_. 0)\<rparr>"

definition without :: "string \<Rightarrow> (string \<times> 'a) list \<Rightarrow> (string \<times> 'a) list" where
  "without key = filter (\<lambda>kv. fst kv \<noteq> key)"

definition dropKey :: "string \<Rightarrow> rate_limiter \<Rightarrow> rate_limiter" where
  "dropKey key s =
     (if key \<notin> fst ` set (rl_hits s) then s
      else s\<lparr>rl_hits := without key (rl_hits s),
             rl_groupCounts := (rl_groupCounts s)(groupOf key := rl_groupCounts s (groupOf key) - 1)\<rparr>)"

text \<open>The least recently used key makes room when a new key meets a full table.\<close>

definition evicted :: "string \<Rightarrow> rate_limiter \<Rightarrow> string option" where
  "evicted key s =
     (if key \<in> fst ` set (rl_hits s) \<or> length (rl_hits s) < rl_maxKeys s then None
      else (case rl_hits s of [] \<Rightarrow> None | kv # _ \<Rightarrow> Some (fst kv)))"

definition group_full :: "string \<Rightarrow> rate_limiter \<Rightarrow> bool" where
  "group_full key s \<longleftrightarrow> key \<notin> fst ` set (rl_hits s) \<and> rl_maxKeysPerGroup s \<le> rl_groupCounts s (groupOf key)"

definition admit_key :: "string \<Rightarrow> rate_limiter \<Rightarrow> rate_limiter" where
  "admit_key key s =
     (if key \<in> fst ` set (rl_hits s) then s
      else
        (let s1 = (case evicted key s of Some old \<Rightarrow> dropKey old s | None \<Rightarrow> s)
         in s1\<lparr>rl_groupCounts := (rl_groupCounts s1)(groupOf key := rl_groupCounts s1 (groupOf key) + 1)\<rparr>))"

definition put_back :: "string \<Rightarrow> int list \<Rightarrow> rate_limiter \<Rightarrow> rate_limiter" where
  "put_back key ts s = s\<lparr>rl_hits := without key (rl_hits s) @ [(key, ts)]\<rparr>"

definition checkMany :: "int \<Rightarrow> int \<Rightarrow> string \<Rightarrow> nat \<Rightarrow> rate_limiter \<Rightarrow> rate_check \<times> rate_limiter" where
  "checkMany lim nw key count s =
     (if count = 0
      then (\<lparr>rc_allowed = True, rc_retryAfterMs = 0, rc_limit = lim, rc_remaining = lim, rc_resetMs = 0\<rparr>, s)
      else if group_full key s
      then (\<lparr>rc_allowed = False, rc_retryAfterMs = rl_windowMs s, rc_limit = lim, rc_remaining = 0, rc_resetMs = rl_windowMs s\<rparr>, s)
      else
        (let s1 = admit_key key s;
             ts = filter (\<lambda>t. nw - rl_windowMs s < t) (hits_of s1 key)
         in if lim < int (length ts) + int count
            then
              (let sorted_ts = sort ts;
                   retry = (case sorted_ts of [] \<Rightarrow> rl_windowMs s | t # _ \<Rightarrow> max (t + rl_windowMs s - nw) 0)
               in (\<lparr>rc_allowed = False, rc_retryAfterMs = retry, rc_limit = lim, rc_remaining = max (lim - int (length ts)) 0, rc_resetMs = retry\<rparr>,
                   put_back key sorted_ts s1))
            else
              (let ts' = ts @ replicate count nw
               in (\<lparr>rc_allowed = True, rc_retryAfterMs = 0, rc_limit = lim, rc_remaining = lim - int (length ts'),
                    rc_resetMs = max (min_of nw ts + rl_windowMs s - nw) 0\<rparr>,
                   put_back key ts' s1))))"

definition check :: "int \<Rightarrow> int \<Rightarrow> string \<Rightarrow> rate_limiter \<Rightarrow> rate_check \<times> rate_limiter" where
  "check lim nw key s = checkMany lim nw key 1 s"

definition drop_idle :: "int \<Rightarrow> int \<Rightarrow> string \<times> int list \<Rightarrow> rate_limiter \<Rightarrow> rate_limiter" where
  "drop_idle w nw kv s = (if filter (\<lambda>t. nw - w < t) (snd kv) = [] then dropKey (fst kv) s else s)"

definition sweep :: "int \<Rightarrow> rate_limiter \<Rightarrow> rate_limiter" where
  "sweep nw s = fold (drop_idle (rl_windowMs s) nw) (rl_hits s) s"

section \<open>The table\<close>

definition rl_ok :: "rate_limiter \<Rightarrow> bool" where
  "rl_ok s \<longleftrightarrow>
     distinct (map fst (rl_hits s)) \<and> 0 < rl_maxKeys s \<and> length (rl_hits s) \<le> rl_maxKeys s
     \<and> (\<forall>g. rl_groupCounts s g = length (filter (\<lambda>kv. groupOf (fst kv) = g) (rl_hits s)) \<and> rl_groupCounts s g \<le> rl_maxKeysPerGroup s)"

lemma map_of_without: "map_of (without k xs) k' = (if k' = k then None else map_of xs k')"
  by (induction xs) (auto simp: without_def)

lemma without_keys: "fst ` set (without k xs) = fst ` set xs - {k}"
  by (auto simp: without_def)

lemma without_distinct: "distinct (map fst xs) \<Longrightarrow> distinct (map fst (without k xs))"
  by (simp add: without_def distinct_map_filter)

lemma without_absent: "k \<notin> fst ` set xs \<Longrightarrow> without k xs = xs"
  by (force simp: without_def filter_id_conv)

lemma without_group:
  assumes "distinct (map fst xs)" and "k \<in> fst ` set xs"
  shows "length (filter (\<lambda>kv. groupOf (fst kv) = g) xs)
     = length (filter (\<lambda>kv. groupOf (fst kv) = g) (without k xs)) + (if groupOf k = g then 1 else 0)"
  using assms
proof (induction xs)
  case (Cons x xs)
  show ?case
  proof (cases "fst x = k")
    case True
    then have "k \<notin> fst ` set xs" using Cons.prems(1) by auto
    then have "without k (x # xs) = xs" using True without_absent [of k xs] by (simp add: without_def)
    then show ?thesis using True by simp
  next
    case False
    then have "k \<in> fst ` set xs" using Cons.prems(2) by auto
    then show ?thesis using Cons False by (simp add: without_def)
  qed
qed simp

lemma without_length:
  assumes "distinct (map fst xs)" and "k \<in> fst ` set xs"
  shows "Suc (length (without k xs)) = length xs"
  using assms
proof (induction xs)
  case (Cons x xs)
  show ?case
  proof (cases "fst x = k")
    case True
    then have "k \<notin> fst ` set xs" using Cons.prems(1) by auto
    then show ?thesis using True without_absent [of k xs] by (simp add: without_def)
  qed (use Cons in \<open>auto simp: without_def\<close>)
qed simp

lemma dropKey_static [simp]:
  "rl_windowMs (dropKey k s) = rl_windowMs s" "rl_maxKeys (dropKey k s) = rl_maxKeys s"
  "rl_maxKeysPerGroup (dropKey k s) = rl_maxKeysPerGroup s"
  by (simp_all add: dropKey_def)

lemma dropKey_hits: "rl_hits (dropKey k s) = without k (rl_hits s)"
  by (simp add: dropKey_def without_absent)

lemma dropKey_ok: "rl_ok s \<Longrightarrow> rl_ok (dropKey k s)"
proof (cases "k \<in> fst ` set (rl_hits s)")
  case True
  assume ok: "rl_ok s"
  then have d: "distinct (map fst (rl_hits s))" by (simp add: rl_ok_def)
  have l: "Suc (length (without k (rl_hits s))) = length (rl_hits s)" by (rule without_length [OF d True])
  have g: "rl_groupCounts (dropKey k s) g = length (filter (\<lambda>kv. groupOf (fst kv) = g) (without k (rl_hits s)))" for g
    using ok without_group [OF d True, of g] True by (auto simp: dropKey_def rl_ok_def)
  have "rl_groupCounts (dropKey k s) g \<le> rl_groupCounts s g" for g using True by (simp add: dropKey_def)
  then have "rl_groupCounts (dropKey k s) g \<le> rl_maxKeysPerGroup s" for g using ok by (metis le_trans rl_ok_def)
  then show ?thesis using ok d g l by (auto simp: rl_ok_def dropKey_hits without_distinct)
qed (simp add: dropKey_def)

lemma sweep_fold:
  "(rl_ok s \<longrightarrow> rl_ok (fold (drop_idle w nw) kvs s)) \<and> rl_windowMs (fold (drop_idle w nw) kvs s) = rl_windowMs s"
  by (induction kvs arbitrary: s) (auto simp: dropKey_ok drop_idle_def)

text \<open>After the key is admitted, the table is in order but for the entry still to be put back.\<close>

lemma admit_static [simp]:
  "rl_windowMs (admit_key k s) = rl_windowMs s" "rl_maxKeys (admit_key k s) = rl_maxKeys s"
  "rl_maxKeysPerGroup (admit_key k s) = rl_maxKeysPerGroup s"
  by (simp_all add: admit_key_def Let_def split: option.split)

lemma evicted_Some: "evicted key s = Some old \<Longrightarrow> old \<in> fst ` set (rl_hits s) \<and> old \<noteq> key \<and> key \<notin> fst ` set (rl_hits s)"
  by (cases "rl_hits s") (auto simp: evicted_def split: if_splits)

lemma put_back_ok:
  assumes ok: "rl_ok s" and free: "\<not> group_full key s"
  shows "rl_ok (put_back key ts (admit_key key s))"
proof (cases "key \<in> fst ` set (rl_hits s)")
  case True
  have d: "distinct (map fst (rl_hits s))" using ok by (simp add: rl_ok_def)
  have "rl_groupCounts s g = length (filter (\<lambda>kv. groupOf (fst kv) = g) (without key (rl_hits s) @ [(key, ts)]))" for g
    using ok without_group [OF d True, of g] by (auto simp: rl_ok_def)
  moreover have "distinct (map fst (without key (rl_hits s) @ [(key, ts)]))"
    using d without_keys [of key "rl_hits s"] by (auto simp: without_distinct)
  moreover have "length (without key (rl_hits s) @ [(key, ts)]) = length (rl_hits s)" using without_length [OF d True] by simp
  moreover have "rl_groupCounts s g \<le> rl_maxKeysPerGroup s" for g using ok unfolding rl_ok_def by blast
  moreover have "0 < rl_maxKeys s \<and> length (rl_hits s) \<le> rl_maxKeys s" using ok by (simp add: rl_ok_def)
  ultimately show ?thesis using True by (simp add: rl_ok_def put_back_def admit_key_def)
next
  case False
  define s1 where "s1 = (case evicted key s of Some old \<Rightarrow> dropKey old s | None \<Rightarrow> s)"
  have ok1: "rl_ok s1" using ok dropKey_ok by (simp add: s1_def split: option.split)
  have d: "distinct (map fst (rl_hits s))" using ok by (simp add: rl_ok_def)
  have new: "key \<notin> fst ` set (rl_hits s1)" using False by (auto simp: s1_def dropKey_hits without_keys split: option.splits)
  have room: "length (rl_hits s1) < rl_maxKeys s"
  proof (cases "evicted key s")
    case None
    then show ?thesis using False ok by (cases "rl_hits s") (auto simp: s1_def evicted_def rl_ok_def split: if_splits)
  next
    case (Some old)
    then have "Suc (length (rl_hits s1)) = length (rl_hits s)"
      using without_length [OF d] evicted_Some [OF Some] by (simp add: s1_def dropKey_hits)
    then show ?thesis using ok by (simp add: rl_ok_def)
  qed
  have "rl_groupCounts s1 (groupOf key) \<le> rl_groupCounts s (groupOf key)"
    by (auto simp: s1_def dropKey_def split: option.splits)
  then have cap: "rl_groupCounts s1 (groupOf key) < rl_maxKeysPerGroup s" using free False by (simp add: group_full_def)
  have [simp]: "rl_maxKeys s1 = rl_maxKeys s" "rl_maxKeysPerGroup s1 = rl_maxKeysPerGroup s"
    by (auto simp: s1_def split: option.splits)
  have adm: "admit_key key s = s1\<lparr>rl_groupCounts := (rl_groupCounts s1)(groupOf key := rl_groupCounts s1 (groupOf key) + 1)\<rparr>"
    using False by (simp add: admit_key_def s1_def Let_def)
  show ?thesis
    using ok1 new room cap by (auto simp: rl_ok_def adm put_back_def without_absent) metis
qed

lemma checkMany_ok: "rl_ok s \<Longrightarrow> rl_ok (snd (checkMany lim nw key count s))"
  using put_back_ok by (simp add: checkMany_def Let_def)

section \<open>The log of granted requests\<close>

text \<open>
  The reference: the list of granted requests with their times. A key that a full table pushes out
  loses its past; everything else is kept for ever. The clock does not go back.
\<close>

type_synonym rate_log = "(string \<times> int) list"

definition times_of :: "string \<Rightarrow> rate_log \<Rightarrow> int list" where
  "times_of key lg = map snd (filter (\<lambda>e. fst e = key) lg)"

definition in_window :: "int \<Rightarrow> int \<Rightarrow> int list \<Rightarrow> nat" where
  "in_window w nw ts = length (filter (\<lambda>t. nw - w < t) ts)"

definition forget :: "string \<Rightarrow> nat \<Rightarrow> rate_limiter \<Rightarrow> rate_log \<Rightarrow> rate_log" where
  "forget key count s lg =
     (if count = 0 \<or> group_full key s then lg else (case evicted key s of Some old \<Rightarrow> without old lg | None \<Rightarrow> lg))"

inductive rl_reach :: "int \<Rightarrow> nat \<Rightarrow> nat \<Rightarrow> int \<Rightarrow> rate_limiter \<Rightarrow> rate_log \<Rightarrow> int \<Rightarrow> bool" for w mk mg L where
  start: "rl_reach w mk mg L (new_limiter w mk mg) [] t"
| checked: "rl_reach w mk mg L s lg t \<Longrightarrow> t \<le> nw \<Longrightarrow> lim \<le> L \<Longrightarrow> checkMany lim nw key count s = (r, s')
    \<Longrightarrow> rl_reach w mk mg L s' (forget key count s lg @ (if rc_allowed r then replicate count (key, nw) else [])) nw"
| swept: "rl_reach w mk mg L s lg t \<Longrightarrow> t \<le> nw \<Longrightarrow> rl_reach w mk mg L (sweep nw s) lg nw"
| cleared: "rl_reach w mk mg L s lg t \<Longrightarrow> rl_reach w mk mg L (reset s) [] t"

definition rl_log :: "int \<Rightarrow> rate_limiter \<Rightarrow> rate_log \<Rightarrow> int \<Rightarrow> bool" where
  "rl_log w s lg t \<longleftrightarrow> rl_windowMs s = w \<and> (\<forall>e \<in> set lg. snd e \<le> t)
     \<and> (\<forall>key nw. t \<le> nw \<longrightarrow> in_window w nw (hits_of s key) = in_window w nw (times_of key lg))"

lemma log_Nil [simp]: "times_of key [] = []" "in_window w nw [] = 0"
  by (simp_all add: times_of_def in_window_def)

lemma times_of_append: "times_of key (xs @ ys) = times_of key xs @ times_of key ys"
  by (simp add: times_of_def)

lemma times_of_replicate: "times_of key (replicate n (k, t)) = (if k = key then replicate n t else [])"
  by (induction n) (auto simp: times_of_def)

lemma times_of_without: "times_of key (without old lg) = (if key = old then [] else times_of key lg)"
  by (induction lg) (auto simp: times_of_def without_def)

lemma in_window_append: "in_window w nw (xs @ ys) = in_window w nw xs + in_window w nw ys"
  by (simp add: in_window_def)

lemma in_window_sort: "in_window w nw (sort xs) = in_window w nw xs"
  by (simp add: in_window_def filter_sort)

lemma in_window_later: "nw \<le> nw' \<Longrightarrow> in_window w nw' (filter (\<lambda>t. nw - w < t) ts) = in_window w nw' ts"
proof -
  assume "nw \<le> nw'"
  then have "filter (\<lambda>t. nw' - w < t) (filter (\<lambda>t. nw - w < t) ts) = filter (\<lambda>t. nw' - w < t) ts"
    by (induction ts) auto
  then show ?thesis by (simp add: in_window_def)
qed

lemma hits_of_put_back: "hits_of (put_back key ts s) k = (if k = key then ts else hits_of s k)"
  by (auto simp: hits_of_def put_back_def map_of_append map_of_without map_add_def split: option.splits)

lemma hits_of_dropKey: "hits_of (dropKey old s) k = (if k = old then [] else hits_of s k)"
  by (simp add: hits_of_def dropKey_hits map_of_without)

lemma hits_of_counts: "hits_of (s\<lparr>rl_groupCounts := c\<rparr>) k = hits_of s k"
  by (simp add: hits_of_def)

lemma hits_of_admit: "hits_of (admit_key key s) k = (if evicted key s = Some k then [] else hits_of s k)"
proof (cases "key \<in> fst ` set (rl_hits s)")
  case True
  then show ?thesis by (simp add: admit_key_def evicted_def)
next
  case False
  then show ?thesis by (auto simp: admit_key_def Let_def hits_of_counts hits_of_dropKey split: option.splits)
qed

lemma hits_of_fold_idle:
  "hits_of (fold (drop_idle w nw) kvs s) k
     = (if list_ex (\<lambda>kv. fst kv = k \<and> filter (\<lambda>t. nw - w < t) (snd kv) = []) kvs then [] else hits_of s k)"
  by (induction kvs arbitrary: s) (auto simp: drop_idle_def hits_of_dropKey)

lemma in_window_sweep:
  assumes "rl_ok s" and "nw \<le> nw'"
  shows "in_window (rl_windowMs s) nw' (hits_of (sweep nw s) k) = in_window (rl_windowMs s) nw' (hits_of s k)"
proof (cases "list_ex (\<lambda>kv. fst kv = k \<and> filter (\<lambda>t. nw - rl_windowMs s < t) (snd kv) = []) (rl_hits s)")
  case True
  then obtain ts where ts: "(k, ts) \<in> set (rl_hits s)" "filter (\<lambda>t. nw - rl_windowMs s < t) ts = []" by (auto simp: list_ex_iff)
  then have "hits_of s k = ts" using assms(1) by (simp add: hits_of_def rl_ok_def)
  then have "in_window (rl_windowMs s) nw' (hits_of s k) = 0" using ts(2) assms(2) by (auto simp: in_window_def filter_empty_conv)
  then show ?thesis using True by (simp add: sweep_def hits_of_fold_idle in_window_def)
qed (auto simp: sweep_def hits_of_fold_idle)

lemma checkMany_log:
  assumes "rl_log w s lg t" and "t \<le> nw" and run: "checkMany lim nw key count s = (r, s')"
  shows "rl_log w s' (forget key count s lg @ (if rc_allowed r then replicate count (key, nw) else [])) nw"
proof -
  have w: "rl_windowMs s = w" using assms(1) by (simp add: rl_log_def)
  have old: "in_window w nw' (hits_of s k) = in_window w nw' (times_of k lg)" if "nw \<le> nw'" for k nw'
    using assms(1,2) that by (simp add: rl_log_def)
  have past: "\<forall>e \<in> set (forget key count s lg). snd e \<le> nw"
    using assms(1,2) by (fastforce simp: rl_log_def forget_def without_def split: option.splits if_splits)
  have adm: "in_window w nw' (hits_of (admit_key key s) k) = in_window w nw' (times_of k (forget key count s lg))"
    if "nw \<le> nw'" "0 < count" "\<not> group_full key s" for k nw'
    using that old [of nw' k] by (auto simp: hits_of_admit forget_def times_of_without in_window_def split: option.splits)
  have keep: "in_window w nw' (hits_of s k) = in_window w nw' (times_of k (forget key count s lg))"
    if "nw \<le> nw'" "count = 0 \<or> group_full key s" for k nw'
    using that old [of nw' k] by (auto simp: forget_def)
  consider (none) "count = 0 \<or> group_full key s" | (some) "0 < count" "\<not> group_full key s" by blast
  then show ?thesis
  proof cases
    case none
    then have "s' = s" and "count = 0 \<or> \<not> rc_allowed r" using run by (auto simp: checkMany_def split: if_splits)
    then have "replicate count (key, nw) = [] \<or> \<not> rc_allowed r" by auto
    then show ?thesis using none \<open>s' = s\<close> past keep w by (auto simp: rl_log_def)
  next
    case some
    let ?ts = "filter (\<lambda>t. nw - w < t) (hits_of (admit_key key s) key)"
    have s': "s' = (if rc_allowed r then put_back key (?ts @ replicate count nw) (admit_key key s) else put_back key (sort ?ts) (admit_key key s))"
      using run some w by (auto simp: checkMany_def Let_def split: if_splits)
    have "in_window w nw' (hits_of s' k) = in_window w nw' (times_of k (forget key count s lg @ (if rc_allowed r then replicate count (key, nw) else [])))"
      if "nw \<le> nw'" for k nw'
      using adm [OF that some] that
      by (simp add: s' hits_of_put_back times_of_append times_of_replicate in_window_append in_window_sort in_window_later)
    moreover have "rl_windowMs s' = w" by (simp add: s' put_back_def w)
    ultimately show ?thesis using past by (auto simp: rl_log_def)
  qed
qed

lemma new_limiter_ok: "rl_ok (new_limiter w mk mg)" "rl_log w (new_limiter w mk mg) [] t"
  by (simp_all add: rl_ok_def rl_log_def new_limiter_def hits_of_def times_of_def)

lemma rl_reach_inv: "rl_reach w mk mg L s lg t \<Longrightarrow> rl_ok s \<and> rl_log w s lg t"
proof (induction rule: rl_reach.induct)
  case (checked s lg t nw lim key count r s')
  then have "rl_ok s'" using checkMany_ok [of s lim nw key count] by simp
  moreover have "rl_log w s' (forget key count s lg @ (if rc_allowed r then replicate count (key, nw) else [])) nw"
    using checkMany_log checked by blast
  ultimately show ?case by blast
next
  case (swept s lg t nw)
  then have w: "rl_windowMs s = w" by (simp add: rl_log_def)
  show ?case
    using swept sweep_fold [of s w nw "rl_hits s"] in_window_sweep [of s nw]
    by (auto simp: rl_log_def w sweep_def [of nw s, unfolded w, symmetric])
next
  case (cleared s lg t)
  then show ?case by (auto simp: rl_ok_def rl_log_def reset_def hits_of_def times_of_def)
qed (simp_all add: new_limiter_ok)

text \<open>No window of the log holds more than the largest limit in force.\<close>

lemma window_later: "\<forall>x \<in> set ts. x \<le> nw \<Longrightarrow> length (filter (\<lambda>x. T - w < x \<and> x \<le> T) ts) \<le> in_window w (min T nw) ts"
  unfolding in_window_def by (induction ts) auto

lemma times_of_past: "rl_log w s lg t \<Longrightarrow> \<forall>x \<in> set (times_of key lg). x \<le> t"
  by (fastforce simp: rl_log_def times_of_def)

lemma checkMany_granted:
  assumes "rl_log w s lg t" and "t \<le> nw" and "0 < count" and "\<not> group_full key s"
  shows "rc_allowed (fst (checkMany lim nw key count s)) \<longleftrightarrow> int (in_window w nw (times_of key lg)) + int count \<le> lim"
proof -
  have "rl_windowMs s = w" and "in_window w nw (hits_of s key) = in_window w nw (times_of key lg)"
    using assms(1,2) by (simp_all add: rl_log_def)
  moreover have "hits_of (admit_key key s) key = hits_of s key" using evicted_Some by (auto simp: hits_of_admit)
  ultimately show ?thesis using assms(3,4) by (auto simp: checkMany_def Let_def in_window_def)
qed

lemma checkMany_refused: "count = 0 \<or> group_full key s \<Longrightarrow> checkMany lim nw key count s = (r, s') \<Longrightarrow> rc_allowed r \<Longrightarrow> count = 0"
  by (auto simp: checkMany_def split: if_splits)

lemma rl_reach_window:
  "rl_reach w mk mg L s lg t \<Longrightarrow> int (length (filter (\<lambda>x. T - w < x \<and> x \<le> T) (times_of key lg))) \<le> max 0 L"
proof (induction rule: rl_reach.induct)
  case (checked s lg t nw lim k count r s')
  let ?P = "\<lambda>x. T - w < x \<and> x \<le> T"
  have le: "length (filter ?P (times_of key (forget k count s lg))) \<le> length (filter ?P (times_of key lg))"
    by (auto simp: forget_def times_of_without split: option.split)
  show ?case
  proof (cases "rc_allowed r \<and> k = key \<and> 0 < count \<and> T - w < nw \<and> nw \<le> T")
    case False
    then have "filter ?P (times_of key (if rc_allowed r then replicate count (k, nw) else [])) = []"
      by (auto simp: times_of_replicate)
    then show ?thesis using le checked.IH by (simp add: times_of_append)
  next
    case True
    have lg: "rl_log w s lg t" using rl_reach_inv checked.hyps(1) by blast
    have free: "\<not> group_full k s" using checkMany_refused [OF _ checked.hyps(4)] True by blast
    have "int (in_window w nw (times_of key lg)) + int count \<le> lim"
      using checkMany_granted [OF lg checked.hyps(2) _ free, of count lim] True checked.hyps(4) by simp
    moreover have "length (filter ?P (times_of key lg)) \<le> in_window w nw (times_of key lg)"
      using window_later [of "times_of key lg" nw T w] times_of_past [OF lg, of key] checked.hyps(2) True by (fastforce simp: min_absorb2)
    moreover have "length (filter ?P (replicate count nw)) \<le> count" by (metis length_filter_le length_replicate)
    ultimately show ?thesis using le checked.hyps(3) True by (simp add: times_of_append times_of_replicate)
  qed
qed simp_all

section \<open>Properties\<close>

text \<open>
  In no window does a caller get more requests through for one key than the largest limit that was in
  force, whatever checks, sweeps and resets happen, as long as the key was not pushed out of a full table.
\<close>

theorem rate_window:
  assumes "rl_reach w mk mg L s lg t"
  shows "int (length (filter (\<lambda>x. T - w < x \<and> x \<le> T) (times_of key lg))) \<le> max 0 L"
  using assms by (rule rl_reach_window)

theorem rate_window_witness:
  "int (length (filter (\<lambda>x. 5 - 60 < x \<and> x \<le> 5) (times_of ''a:read'' (replicate 2 (''a:read'', 5))))) \<le> max 0 3"
proof -
  have "rl_reach 60 10 4 3 (snd (checkMany 3 5 ''a:read'' 2 (new_limiter 60 10 4)))
     (forget ''a:read'' 2 (new_limiter 60 10 4) [] @ (if rc_allowed (fst (checkMany 3 5 ''a:read'' 2 (new_limiter 60 10 4))) then replicate 2 (''a:read'', 5) else [])) 5"
    by (rule rl_reach.checked [OF rl_reach.start [where t = 0] _ _ prod.collapse [symmetric]]) simp_all
  moreover have "rc_allowed (fst (checkMany 3 5 ''a:read'' 2 (new_limiter 60 10 4)))"
    by (simp add: checkMany_def new_limiter_def group_full_def admit_key_def evicted_def hits_of_def Let_def)
  moreover have "forget ''a:read'' 2 (new_limiter 60 10 4) [] = []" by (simp add: forget_def evicted_def new_limiter_def)
  ultimately show ?thesis using rate_window [of 60 10 4 3 _ "replicate 2 (''a:read'', 5)" 5 5 "''a:read''"] by simp
qed

text \<open>
  The limiter answers as the plain log of granted requests would: a check of a key whose caller has room
  for it is allowed exactly if the requests granted for the key within the window and the new ones together
  stay within the limit. In particular the check counts all of its requests or none.
\<close>

theorem rate_refines:
  assumes "rl_reach w mk mg L s lg t" and "t \<le> nw" and "0 < count" and "\<not> group_full key s"
  shows "rc_allowed (fst (checkMany lim nw key count s)) \<longleftrightarrow> int (in_window w nw (times_of key lg)) + int count \<le> lim"
  using checkMany_granted rl_reach_inv assms by blast

theorem rate_refines_witness:
  "rc_allowed (fst (checkMany 3 9 ''a:read'' 3 (new_limiter 60 10 4))) \<and> \<not> rc_allowed (fst (checkMany 3 9 ''a:read'' 4 (new_limiter 60 10 4)))"
proof -
  have free: "\<not> group_full ''a:read'' (new_limiter 60 10 4)" by (simp add: group_full_def new_limiter_def)
  have "rl_reach 60 10 4 3 (new_limiter 60 10 4) [] 0" by (rule rl_reach.start)
  from rate_refines [OF this _ _ free, of 9 3 3] rate_refines [OF this _ _ free, of 9 4 3]
  show ?thesis by simp
qed

text \<open>
  The table stays within its bounds: at most \<open>maxKeys\<close> keys, no key twice, and at most
  \<open>maxKeysPerGroup\<close> keys of one caller, so one caller cannot push the others out.
\<close>

theorem rate_table:
  assumes "rl_reach w mk mg L s lg t"
  shows "distinct (map fst (rl_hits s)) \<and> length (rl_hits s) \<le> rl_maxKeys s
    \<and> length (filter (\<lambda>kv. groupOf (fst kv) = g) (rl_hits s)) \<le> rl_maxKeysPerGroup s"
proof -
  have "rl_ok s" using rl_reach_inv [OF assms] by blast
  then show ?thesis unfolding rl_ok_def by metis
qed

theorem rate_table_witness:
  "length (rl_hits (snd (checkMany 3 5 ''b:x'' 1 (snd (checkMany 3 5 ''a:x'' 1 (new_limiter 60 1 4)))))) \<le> 1"
proof -
  let ?s0 = "new_limiter 60 1 4"
  let ?s1 = "snd (checkMany 3 5 ''a:x'' 1 ?s0)"
  let ?s2 = "snd (checkMany 3 5 ''b:x'' 1 ?s1)"
  have "\<exists>lg. rl_reach 60 1 4 3 ?s1 lg 5"
    using rl_reach.checked [OF rl_reach.start [where t = 5] _ _ prod.collapse [symmetric], of 5 3 3 60 1 4 "''a:x''" 1] by auto
  then obtain lg where "rl_reach 60 1 4 3 ?s1 lg 5" by blast
  then have "\<exists>lg. rl_reach 60 1 4 3 ?s2 lg 5"
    using rl_reach.checked [OF _ _ _ prod.collapse [symmetric], of 60 1 4 3 ?s1 lg 5 5 3 "''b:x''" 1] by auto
  moreover have "rl_maxKeys ?s2 = 1" by (simp add: checkMany_def put_back_def new_limiter_def Let_def)
  ultimately show ?thesis using rate_table by metis
qed

end
