(* ===== verification/Rate_Classes.thy ===== *)
theory Rate_Classes
  imports Rate_Limiter
begin

text \<open>
  The rate classes (\<^verbatim>\<open>srv/utils/rate-class-table.ts\<close>) and the one answer for every exceeded limit
  (\<^verbatim>\<open>srv/utils/rate-classes.ts\<close>). The configured counts and the overrides of the sponsor policy
  file are arguments. The response is its headers, when the request has one, and the list of
  rejections.
\<close>

section \<open>The table\<close>

datatype rate_class = Prove | Deploy | Sponsor | Compute | Read | Wallet | Signing | Admin | PublicVerify

definition RATE_CLASS_NAMES :: "(rate_class \<times> string) list" where
  "RATE_CLASS_NAMES =
     [(Prove, ''prove''), (Deploy, ''deploy''), (Sponsor, ''sponsor''), (Compute, ''compute''), (Read, ''read''),
      (Wallet, ''wallet''), (Signing, ''signing''), (Admin, ''admin''), (PublicVerify, ''public-verify'')]"

definition class_name :: "rate_class \<Rightarrow> string" where
  "class_name c = the (map_of RATE_CLASS_NAMES c)"

abbreviation MINUTE :: int where "MINUTE \<equiv> 60000"
abbreviation HOUR :: int where "HOUR \<equiv> 60 * MINUTE"

record rate_class_spec =
  cs_windowMs :: int
  cs_envKey :: string
  cs_maxKeys :: nat
  cs_grantVisible :: bool

fun RATE_CLASSES :: "rate_class \<Rightarrow> rate_class_spec" where
  "RATE_CLASSES Prove = \<lparr>cs_windowMs = HOUR, cs_envKey = ''NIGHTGATE_PROVE_RATE_LIMIT'', cs_maxKeys = 0, cs_grantVisible = True\<rparr>"
| "RATE_CLASSES Deploy = \<lparr>cs_windowMs = HOUR, cs_envKey = ''NIGHTGATE_DEPLOY_RATE_LIMIT'', cs_maxKeys = 0, cs_grantVisible = True\<rparr>"
| "RATE_CLASSES Sponsor = \<lparr>cs_windowMs = HOUR, cs_envKey = ''NIGHTGATE_SPONSOR_RATE_LIMIT'', cs_maxKeys = 0, cs_grantVisible = True\<rparr>"
| "RATE_CLASSES Compute = \<lparr>cs_windowMs = HOUR, cs_envKey = ''NIGHTGATE_COMPUTE_RATE_LIMIT'', cs_maxKeys = 0, cs_grantVisible = True\<rparr>"
| "RATE_CLASSES Read = \<lparr>cs_windowMs = MINUTE, cs_envKey = ''NIGHTGATE_READ_RATE_LIMIT'', cs_maxKeys = 0, cs_grantVisible = True\<rparr>"
| "RATE_CLASSES Wallet = \<lparr>cs_windowMs = MINUTE, cs_envKey = ''NIGHTGATE_WALLET_RATE_LIMIT'', cs_maxKeys = 0, cs_grantVisible = False\<rparr>"
| "RATE_CLASSES Signing = \<lparr>cs_windowMs = HOUR, cs_envKey = ''NIGHTGATE_SIGNING_KEY_RATE_LIMIT'', cs_maxKeys = 0, cs_grantVisible = False\<rparr>"
| "RATE_CLASSES Admin = \<lparr>cs_windowMs = HOUR, cs_envKey = ''NIGHTGATE_ADMIN_RATE_LIMIT'', cs_maxKeys = 0, cs_grantVisible = False\<rparr>"
| "RATE_CLASSES PublicVerify = \<lparr>cs_windowMs = MINUTE, cs_envKey = ''NIGHTGATE_PUBLIC_VERIFY_RATE_LIMIT'', cs_maxKeys = 20000, cs_grantVisible = False\<rparr>"

definition isRateClass :: "string \<Rightarrow> bool" where
  "isRateClass v \<longleftrightarrow> v \<in> set (map snd RATE_CLASS_NAMES)"

text \<open>\<^verbatim>\<open>Math.round\<close> and \<^verbatim>\<open>Math.ceil\<close> of a number of milliseconds over 1000.\<close>

definition round_s :: "int \<Rightarrow> int" where "round_s ms = (ms + 500) div 1000"
definition ceil_s :: "int \<Rightarrow> int" where "ceil_s ms = - ((- ms) div 1000)"

definition describeWindow :: "int \<Rightarrow> string" where
  "describeWindow ms =
     (if ms = HOUR then ''hour'' else if ms = MINUTE then ''minute'' else if ms = 24 * HOUR then ''day''
      else int_str (round_s ms) @ '' s'')"

section \<open>Requests and limits\<close>

record rate_limit_state =
  ls_name :: string
  ls_limit :: int
  ls_remaining :: int
  ls_windowSeconds :: int
  ls_resetSeconds :: int

record rate_refusal =
  rf_name :: string
  rf_limit :: int
  rf_windowSeconds :: int
  rf_retryAfterMs :: int
  rf_detail :: "string option"

record response =
  rs_headers :: "(string \<rightharpoonup> string) option"
  rs_rejected :: "(nat \<times> string) list"

record rate_state =
  rt_limiters :: "rate_class \<rightharpoonup> rate_limiter"
  rt_limitedCounts :: "string \<Rightarrow> nat"

definition rateClassLimit :: "(rate_class \<rightharpoonup> int) \<Rightarrow> (string \<Rightarrow> int) \<Rightarrow> rate_class \<Rightarrow> int" where
  "rateClassLimit overrides cfg c = (case overrides c of Some n \<Rightarrow> n | None \<Rightarrow> cfg (cs_envKey (RATE_CLASSES c)))"

definition rateClassLimiter :: "rate_class \<Rightarrow> rate_state \<Rightarrow> rate_limiter" where
  "rateClassLimiter c st =
     (case rt_limiters st c of
        Some l \<Rightarrow> l
      | None \<Rightarrow> new_limiter (cs_windowMs (RATE_CLASSES c)) (cs_maxKeys (RATE_CLASSES c)) 0)"

definition stateOf :: "string \<Rightarrow> int \<Rightarrow> rate_check \<Rightarrow> rate_limit_state" where
  "stateOf name windowMs r =
     \<lparr>ls_name = name, ls_limit = rc_limit r, ls_remaining = rc_remaining r, ls_windowSeconds = round_s windowMs,
      ls_resetSeconds = ceil_s (if rc_allowed r then rc_resetMs r else rc_retryAfterMs r)\<rparr>"

text \<open>The number after the first \<^verbatim>\<open>;r=\<close> that a digit follows.\<close>

fun shown_remaining :: "string \<Rightarrow> int option" where
  "shown_remaining [] = None"
| "shown_remaining (c # cs) =
     (let ds = takeWhile is_digit (drop 3 (c # cs)) in
      if startsWith (c # cs) '';r='' \<and> ds \<noteq> [] then Some (digits_val ds 0) else shown_remaining cs)"

definition policy_entry :: "rate_limit_state \<Rightarrow> string" where
  "policy_entry st = ''\"'' @ ls_name st @ ''\";q='' @ int_str (ls_limit st) @ '';w='' @ int_str (ls_windowSeconds st)"

definition limit_entry :: "rate_limit_state \<Rightarrow> string" where
  "limit_entry st = ''\"'' @ ls_name st @ ''\";r='' @ int_str (ls_remaining st) @ '';t='' @ int_str (ls_resetSeconds st)"

definition note_headers :: "rate_limit_state \<Rightarrow> (string \<rightharpoonup> string) \<Rightarrow> (string \<rightharpoonup> string)" where
  "note_headers st h =
     (let h1 = h(''RateLimit-Policy'' \<mapsto>
            (case h ''RateLimit-Policy'' of
               Some p \<Rightarrow> if p \<noteq> [] then p @ '', '' @ policy_entry st else policy_entry st
             | None \<Rightarrow> policy_entry st));
          shown = (case h1 ''RateLimit'' of Some cur \<Rightarrow> if cur \<noteq> [] then shown_remaining cur else None | None \<Rightarrow> None)
      in (case shown of
            Some n \<Rightarrow> if ls_remaining st < n then h1(''RateLimit'' \<mapsto> limit_entry st) else h1
          | None \<Rightarrow> h1(''RateLimit'' \<mapsto> limit_entry st)))"

definition noteRateLimitHeaders :: "rate_limit_state \<Rightarrow> response \<Rightarrow> response" where
  "noteRateLimitHeaders st r = r\<lparr>rs_headers := map_option (note_headers st) (rs_headers r)\<rparr>"

definition setHeader :: "string \<Rightarrow> string \<Rightarrow> response \<Rightarrow> response" where
  "setHeader name v r = r\<lparr>rs_headers := map_option (\<lambda>h. h(name \<mapsto> v)) (rs_headers r)\<rparr>"

definition rejectRateLimited :: "rate_refusal \<Rightarrow> response \<Rightarrow> rate_state \<Rightarrow> response \<times> rate_state" where
  "rejectRateLimited f r st =
     (let seconds = max 1 (ceil_s (rf_retryAfterMs f));
          r1 = setHeader ''Retry-After'' (int_str seconds) r;
          r2 = noteRateLimitHeaders
                 \<lparr>ls_name = rf_name f, ls_limit = rf_limit f, ls_remaining = 0, ls_windowSeconds = rf_windowSeconds f, ls_resetSeconds = seconds\<rparr> r1;
          window = describeWindow (rf_windowSeconds f * 1000);
          what = (case rf_detail f of Some d \<Rightarrow> d | None \<Rightarrow> rf_name f @ '': '' @ int_str (rf_limit f) @ '' per '' @ window)
      in (r2\<lparr>rs_rejected := rs_rejected r2 @ [(429, ''Rate limited ('' @ what @ ''). Retry after '' @ int_str seconds @ ''s'')]\<rparr>,
          st\<lparr>rt_limitedCounts := (rt_limitedCounts st)(rf_name f := rt_limitedCounts st (rf_name f) + 1)\<rparr>))"

definition checkRateClass ::
    "(rate_class \<rightharpoonup> int) \<Rightarrow> (string \<Rightarrow> int) \<Rightarrow> int \<Rightarrow> rate_class \<Rightarrow> string \<Rightarrow> rate_req \<Rightarrow> nat \<Rightarrow> response \<Rightarrow> rate_state \<Rightarrow> bool \<times> response \<times> rate_state" where
  "checkRateClass overrides cfg nw c scope req count r st =
     (case checkMany (rateClassLimit overrides cfg c) nw (principalRateKey req scope) count (rateClassLimiter c st) of
        (rc, l) \<Rightarrow>
          (let st1 = st\<lparr>rt_limiters := (rt_limiters st)(c \<mapsto> l)\<rparr>;
               state = stateOf (class_name c) (cs_windowMs (RATE_CLASSES c)) rc
           in if rc_allowed rc then (True, noteRateLimitHeaders state r, st1)
              else
                (case rejectRateLimited
                        \<lparr>rf_name = ls_name state, rf_limit = ls_limit state, rf_windowSeconds = ls_windowSeconds state,
                         rf_retryAfterMs = rc_retryAfterMs rc, rf_detail = None\<rparr> r st1 of
                   (r', st2) \<Rightarrow> (False, r', st2))))"

definition peekRateClassForGrant ::
    "(rate_class \<rightharpoonup> int) \<Rightarrow> (string \<Rightarrow> int) \<Rightarrow> int \<Rightarrow> rate_class \<Rightarrow> string \<Rightarrow> string \<Rightarrow> rate_state \<Rightarrow> rate_limit_state" where
  "peekRateClassForGrant overrides cfg nw c grantId scope st =
     stateOf (class_name c) (cs_windowMs (RATE_CLASSES c))
       (peek (rateClassLimit overrides cfg c) nw (grantRateKey grantId scope) (rateClassLimiter c st))"

section \<open>What the headers show\<close>

lemma takeWhile_stop: "list_all P xs \<Longrightarrow> \<not> P y \<Longrightarrow> takeWhile P (xs @ y # ys) = xs"
  by (induction xs) auto

lemma startsWith_append: "startsWith (p @ s) p"
  by (induction p) auto

lemma shown_skip: "CHR '';'' \<notin> set xs \<Longrightarrow> shown_remaining (xs @ ys) = shown_remaining ys"
  by (induction xs) (auto simp: Let_def)

lemma shown_entry:
  assumes "0 \<le> ls_remaining st" and "CHR '';'' \<notin> set (ls_name st)"
  shows "shown_remaining (limit_entry st) = Some (ls_remaining st)"
proof -
  let ?n = "nat_str (nat (ls_remaining st))"
  let ?rest = "'';t='' @ int_str (ls_resetSeconds st)"
  have num: "int_str (ls_remaining st) = ?n" using assms(1) by (simp add: int_str_def)
  have dig: "takeWhile is_digit (?n @ ?rest) = ?n"
    using nat_str_digits [of "nat (ls_remaining st)"] by (simp add: takeWhile_stop is_digit_def)
  have "shown_remaining (limit_entry st) = shown_remaining (('';r='' @ ?n) @ ?rest)"
    using shown_skip [of "CHR ''\"'' # ls_name st @ ''\"''" "('';r='' @ ?n) @ ?rest"] assms(2) by (simp add: limit_entry_def num)
  also have "\<dots> = Some (ls_remaining st)"
    using nat_str_digits [of "nat (ls_remaining st)"] dig assms(1) by (simp add: Let_def)
  finally show ?thesis .
qed

definition plain_state :: "rate_limit_state \<Rightarrow> bool" where
  "plain_state st \<longleftrightarrow> 0 \<le> ls_remaining st \<and> CHR '';'' \<notin> set (ls_name st)"

definition shown :: "(string \<rightharpoonup> string) \<Rightarrow> int option" where
  "shown h = (case h ''RateLimit'' of Some cur \<Rightarrow> if cur \<noteq> [] then shown_remaining cur else None | None \<Rightarrow> None)"

lemma shown_note:
  assumes "plain_state st"
  shows "shown (note_headers st h) = Some (case shown h of Some n \<Rightarrow> min n (ls_remaining st) | None \<Rightarrow> ls_remaining st)"
proof -
  have "limit_entry st \<noteq> []" by (simp add: limit_entry_def)
  then show ?thesis using assms shown_entry by (auto simp: note_headers_def shown_def Let_def plain_state_def split: option.splits if_splits)
qed

lemma shown_fold:
  "list_all plain_state sts \<Longrightarrow> shown h = Some n \<Longrightarrow> shown (fold note_headers sts h) = Some (fold min (map ls_remaining sts) n)"
  by (induction sts arbitrary: h n) (simp_all add: shown_note min.commute)

section \<open>Properties\<close>

text \<open>
  After the limits a request passed are noted one by one, the \<^verbatim>\<open>RateLimit\<close> header shows the
  tightest of them: the least number of requests left.
\<close>

theorem headers_show_tightest:
  assumes "list_all plain_state (st # sts)"
  shows "shown (fold note_headers (st # sts) Map.empty) = Some (Min (ls_remaining ` set (st # sts)))"
proof -
  have "shown (note_headers st Map.empty) = Some (ls_remaining st)" using assms by (simp add: shown_note) (simp add: shown_def)
  then have "shown (fold note_headers (st # sts) Map.empty) = Some (fold min (map ls_remaining sts) (ls_remaining st))"
    using shown_fold assms by simp
  also have "fold min (map ls_remaining sts) (ls_remaining st) = Min (ls_remaining ` set (st # sts))"
    using Min.set_eq_fold [of "ls_remaining st" "map ls_remaining sts"] by simp
  finally show ?thesis .
qed

definition sample_limit :: "string \<Rightarrow> int \<Rightarrow> rate_limit_state" where
  "sample_limit n r = \<lparr>ls_name = n, ls_limit = 100, ls_remaining = r, ls_windowSeconds = 60, ls_resetSeconds = 5\<rparr>"

theorem headers_show_tightest_witness:
  "shown (fold note_headers [sample_limit ''read'' 12, sample_limit ''grant-hour'' 3, sample_limit ''grant-day'' 40] Map.empty) = Some 3"
  using headers_show_tightest [of "sample_limit ''read'' 12" "[sample_limit ''grant-hour'' 3, sample_limit ''grant-day'' 40]"]
  by (simp add: plain_state_def sample_limit_def)

text \<open>
  A call of a rate-limited class is either let through with no rejection, or refused with exactly
  one 429 answer that is counted under the name of the class.
\<close>

theorem rate_class_answer:
  "(case checkRateClass overrides cfg nw c scope req count r st of
      (ok, r', st') \<Rightarrow>
        if ok then rs_rejected r' = rs_rejected r \<and> rt_limitedCounts st' = rt_limitedCounts st
        else (\<exists>m. rs_rejected r' = rs_rejected r @ [(429, m)])
           \<and> rt_limitedCounts st' = (rt_limitedCounts st)(class_name c := rt_limitedCounts st (class_name c) + 1))"
  by (auto simp: checkRateClass_def rejectRateLimited_def noteRateLimitHeaders_def setHeader_def stateOf_def Let_def split: prod.split if_splits)

text \<open>
  A user name may hold a colon, although the caller part of a key is said never to: a caller and another
  caller with a longer scope then share one key, and the longer name is counted in the group of its first part.
\<close>

theorem shared_rate_key:
  "principalRateKey \<lparr>rq_grant = None, rq_user = Some ''a:b'', rq_ip = None\<rparr> ''c''
     = principalRateKey \<lparr>rq_grant = None, rq_user = Some ''a'', rq_ip = None\<rparr> ''b:c''
   \<and> groupOf (principalRateKey \<lparr>rq_grant = None, rq_user = Some ''a:b'', rq_ip = None\<rparr> ''c'') = ''user=a''"
  by (simp add: principalRateKey_def principal_of_def present_def MARKER_PRINCIPALS_def groupOf_def)

end
