(* ===== verification/Sponsor_Policy.thy ===== *)
theory Sponsor_Policy
  imports Rate_Classes
begin

text \<open>
  The policy of what a fee sponsor pays for (\<^verbatim>\<open>srv/submission/sponsor-policy.ts\<close>): the validation of
  its lists, the platform policy from the environment or from a file with its cache, and the effective policy
  after an agent grant narrowed it. The configuration and the file system are arguments; a list that
  is absent is empty and a flag that is absent is false, as every reader of them treats it.
  Object keys keep the order they are written in.
\<close>

section \<open>Data\<close>

datatype circuit_rule = AnyCircuit | OnlyCircuits "string list"

type_synonym circuit_rules = "(string \<times> circuit_rule) list"

record sponsor_policy =
  sp_allowedContracts :: "string list"
  sp_allowedCircuits :: "string list"
  sp_contractCircuits :: "circuit_rules option"
  sp_allowDeploy :: bool
  sp_ownContracts :: "string list"
  sp_allowedTokenTypes :: "string list"
  sp_allowContractMints :: bool
  sp_allowSwaps :: bool
  sp_shareMintedTokenTypes :: bool
  sp_ownTokenTypes :: "string list"
  sp_sharedTokenTypes :: "string list"
  sp_allowTransfers :: bool
  sp_allowUnshieldedOffers :: bool
  sp_allowedUnshieldedTokenTypes :: "string list"
  sp_rateLimits :: "(string \<times> int) list option"

record grant_policy =
  gp_allowedContracts :: "string list"
  gp_allowedCircuits :: "string list"
  gp_allowDeploy :: bool
  gp_deployedContracts :: "string list"
  gp_allowedTokenTypes :: "string list"
  gp_mintedTokenTypes :: "string list"
  gp_allowSwaps :: bool
  gp_allowTransfers :: bool
  gp_allowUnshieldedOffers :: bool
  gp_allowedUnshieldedTokenTypes :: "string list"

definition MAX_POLICY_ENTRIES :: nat where "MAX_POLICY_ENTRIES = 256"
definition MAX_ENTRY_LENGTH :: nat where "MAX_ENTRY_LENGTH = 130"

text \<open>The horizontal ellipsis of the messages, in UTF-8.\<close>

definition ELLIPSIS :: string where "ELLIPSIS = [CHR 0xE2, CHR 0x80, CHR 0xA6]"

section \<open>Validation\<close>

definition is_word_char :: "char \<Rightarrow> bool" where
  "is_word_char c = (let n = of_char c :: nat in is_digit c \<or> (65 \<le> n \<and> n \<le> 90) \<or> (97 \<le> n \<and> n \<le> 122) \<or> n = 95)"

definition add_new :: "string \<Rightarrow> string list \<Rightarrow> string list" where
  "add_new v out = (if v \<in> set out then out else out @ [v])"

fun policy_entries :: "string \<Rightarrow> json list \<Rightarrow> string list \<Rightarrow> string list result" where
  "policy_entries name [] out = Inr out"
| "policy_entries name (JStr entry # rest) out =
     (let v = trim entry in
      if v = [] then Inl (js_Error (name @ '' contains an empty entry''))
      else if MAX_ENTRY_LENGTH < length v
        then Inl (js_Error (name @ '' entry '' @ quoted (take 16 v @ ELLIPSIS) @ '' is longer than '' @ nat_str MAX_ENTRY_LENGTH @ '' characters''))
      else if \<not> list_all is_word_char v
        then Inl (js_Error (name @ '' entry '' @ quoted (take 32 v) @ '' is not a contract address or circuit name''))
      else policy_entries name rest (add_new v out))"
| "policy_entries name (_ # rest) out = Inl (js_Error (name @ '' entries must be strings''))"

text \<open>The head all list checks share: absent reads as empty, anything but a short array is refused.\<close>

definition policy_array :: "string \<Rightarrow> json option \<Rightarrow> json list result" where
  "policy_array name raw =
     (case raw of
        None \<Rightarrow> Inr []
      | Some JNull \<Rightarrow> Inr []
      | Some (JArr es) \<Rightarrow>
          if MAX_POLICY_ENTRIES < length es
          then Inl (js_Error (name @ '' has '' @ nat_str (length es) @ '' entries; at most '' @ nat_str MAX_POLICY_ENTRIES @ '' are allowed''))
          else Inr es
      | Some _ \<Rightarrow> Inl (js_Error (name @ '' must be an array of strings'')))"

definition validatePolicyList :: "string \<Rightarrow> json option \<Rightarrow> string list result" where
  "validatePolicyList name raw = (case policy_array name raw of Inl e \<Rightarrow> Inl e | Inr es \<Rightarrow> policy_entries name es [])"

fun token_type_entries :: "string \<Rightarrow> json list \<Rightarrow> string list \<Rightarrow> string list result" where
  "token_type_entries name [] out = Inr out"
| "token_type_entries name (JStr entry # rest) out =
     (let v = bareHex entry in
      if \<not> HEX64_RE v
      then Inl (js_Error (name @ '' entry '' @ quoted (take 32 (trim entry)) @ '' is not a raw token type (64 hex; use deriveTokenType)''))
      else token_type_entries name rest (add_new v out))"
| "token_type_entries name (_ # rest) out = Inl (js_Error (name @ '' entries must be strings''))"

definition validateTokenTypeList :: "string \<Rightarrow> json option \<Rightarrow> string list result" where
  "validateTokenTypeList name raw = (case policy_array name raw of Inl e \<Rightarrow> Inl e | Inr es \<Rightarrow> token_type_entries name es [])"

fun circuit_rule_entries :: "string \<Rightarrow> (string \<times> json) list \<Rightarrow> circuit_rules \<Rightarrow> circuit_rules result" where
  "circuit_rule_entries name [] out = Inr out"
| "circuit_rule_entries name ((key, v) # rest) out =
     (let addr = toLowerCase (trim key); label = name @ ''.'' @ take 16 addr in
      if \<not> HEX64_RE addr then Inl (js_Error (name @ '' key '' @ quoted (take 32 (trim key)) @ '' is not a contract address (64 hex)''))
      else if addr \<in> set (map fst out) then Inl (js_Error (name @ '' lists contract '' @ take 16 addr @ '' twice''))
      else if v = JStr ''*'' then circuit_rule_entries name rest (out @ [(addr, AnyCircuit)])
      else if (case v of JArr es \<Rightarrow> JStr ''*'' \<in> set es | _ \<Rightarrow> False)
        then Inl (js_Error (label @ '': use \"*\" as the value, not inside the array''))
      else
        (case validatePolicyList label (Some v) of
           Inl e \<Rightarrow> Inl e
         | Inr [] \<Rightarrow> Inl (js_Error (label @ '' must be \"*\" or a non-empty array of circuit names''))
         | Inr cs \<Rightarrow> circuit_rule_entries name rest (out @ [(addr, OnlyCircuits cs)])))"

definition validateContractCircuits :: "string \<Rightarrow> json option \<Rightarrow> circuit_rules option result" where
  "validateContractCircuits name raw =
     (case raw of
        None \<Rightarrow> Inr None
      | Some JNull \<Rightarrow> Inr None
      | Some (JObj kvs) \<Rightarrow>
          if MAX_POLICY_ENTRIES < length kvs
          then Inl (js_Error (name @ '' has '' @ nat_str (length kvs) @ '' entries; at most '' @ nat_str MAX_POLICY_ENTRIES @ '' are allowed''))
          else (case circuit_rule_entries name kvs [] of Inl e \<Rightarrow> Inl e | Inr out \<Rightarrow> Inr (Some out))
      | Some _ \<Rightarrow> Inl (js_Error (name @ '' must be an object of contract address to \"*\" or circuit names'')))"

section \<open>The platform policy\<close>

record sponsor_config =
  cfg_list :: "string \<Rightarrow> string list"
  cfg_flag :: "string \<Rightarrow> bool"
  cfg_string :: "string \<Rightarrow> string option"
  cfg_isSet :: "string \<Rightarrow> bool"

definition SponsorPolicyUnavailableError :: "string \<Rightarrow> js_error" where
  "SponsorPolicyUnavailableError m = \<lparr>err_code = ''SPONSOR_POLICY_UNAVAILABLE'', err_message = m\<rparr>"

definition SponsorPolicyEmptyError :: "string \<Rightarrow> js_error" where
  "SponsorPolicyEmptyError m = \<lparr>err_code = ''SPONSOR_POLICY_EMPTY'', err_message = m\<rparr>"

definition strings_json :: "string list \<Rightarrow> json option" where
  "strings_json xs = Some (JArr (map JStr xs))"

definition envPolicy :: "sponsor_config \<Rightarrow> sponsor_policy result" where
  "envPolicy c =
     (case validateTokenTypeList ''NIGHTGATE_SPONSOR_ALLOWED_TOKEN_TYPES'' (strings_json (cfg_list c ''NIGHTGATE_SPONSOR_ALLOWED_TOKEN_TYPES'')) of
        Inl e \<Rightarrow> Inl (SponsorPolicyUnavailableError (err_message e @ ''; refusing to sponsor''))
      | Inr types \<Rightarrow>
          (case validateTokenTypeList ''NIGHTGATE_SPONSOR_ALLOWED_UNSHIELDED_TOKEN_TYPES''
                  (strings_json (cfg_list c ''NIGHTGATE_SPONSOR_ALLOWED_UNSHIELDED_TOKEN_TYPES'')) of
             Inl e \<Rightarrow> Inl (SponsorPolicyUnavailableError (err_message e @ ''; refusing to sponsor''))
           | Inr unshielded \<Rightarrow>
               Inr \<lparr>sp_allowedContracts = cfg_list c ''NIGHTGATE_SPONSOR_ALLOWED_CONTRACTS'',
                    sp_allowedCircuits = cfg_list c ''NIGHTGATE_SPONSOR_ALLOWED_CIRCUITS'', sp_contractCircuits = None,
                    sp_allowDeploy = cfg_flag c ''NIGHTGATE_SPONSOR_ALLOW_DEPLOY'', sp_ownContracts = [], sp_allowedTokenTypes = types,
                    sp_allowContractMints = cfg_flag c ''NIGHTGATE_SPONSOR_ALLOW_CONTRACT_MINTS'',
                    sp_allowSwaps = cfg_flag c ''NIGHTGATE_SPONSOR_ALLOW_SWAPS'',
                    sp_shareMintedTokenTypes = cfg_flag c ''NIGHTGATE_SPONSOR_SHARE_MINTED_TOKEN_TYPES'', sp_ownTokenTypes = [], sp_sharedTokenTypes = [],
                    sp_allowTransfers = cfg_flag c ''NIGHTGATE_SPONSOR_ALLOW_TRANSFERS'',
                    sp_allowUnshieldedOffers = cfg_flag c ''NIGHTGATE_SPONSOR_ALLOW_UNSHIELDED_OFFERS'',
                    sp_allowedUnshieldedTokenTypes = unshielded, sp_rateLimits = None\<rparr>))"

definition POLICY_FILE_KEYS :: "string list" where
  "POLICY_FILE_KEYS =
     [''allowedContracts'', ''allowedCircuits'', ''contractCircuits'', ''allowDeploy'', ''allowedTokenTypes'', ''allowContractMints'', ''allowSwaps'',
      ''allowTransfers'', ''shareMintedTokenTypes'', ''allowUnshieldedOffers'', ''allowedUnshieldedTokenTypes'', ''rateLimits'']"

definition POLICY_FLAGS :: "string list" where
  "POLICY_FLAGS = [''allowDeploy'', ''allowContractMints'', ''allowSwaps'', ''allowTransfers'', ''shareMintedTokenTypes'', ''allowUnshieldedOffers'']"

fun rate_limit_entries :: "(string \<times> json) list \<Rightarrow> (string \<times> int) list \<Rightarrow> (string \<times> int) list result" where
  "rate_limit_entries [] out = Inr out"
| "rate_limit_entries ((name, v) # rest) out =
     (if \<not> isRateClass name
      then Inl (js_Error (''rateLimits names unknown class '' @ quoted name @ ''; known: '' @ join '', '' (map snd RATE_CLASS_NAMES)))
      else (case v of
              JNum n \<Rightarrow> if n < 1 then Inl (js_Error (''rateLimits.'' @ name @ '' must be an integer of at least 1''))
                        else rate_limit_entries rest (out @ [(name, n)])
            | _ \<Rightarrow> Inl (js_Error (''rateLimits.'' @ name @ '' must be an integer of at least 1''))))"

definition readRateLimits :: "json option \<Rightarrow> (string \<times> int) list option result" where
  "readRateLimits raw =
     (case raw of
        None \<Rightarrow> Inr None
      | Some (JObj kvs) \<Rightarrow> (case rate_limit_entries kvs [] of Inl e \<Rightarrow> Inl e | Inr out \<Rightarrow> Inr (Some out))
      | Some _ \<Rightarrow> Inl (js_Error ''rateLimits must be an object of class name to count''))"

definition flag_problem :: "json \<Rightarrow> string option" where
  "flag_problem parsed = find (\<lambda>f. case json_field f parsed of None \<Rightarrow> False | Some (JBool _) \<Rightarrow> False | Some _ \<Rightarrow> True) POLICY_FLAGS"

definition is_true :: "json option \<Rightarrow> bool" where
  "is_true v \<longleftrightarrow> v = Some (JBool True)"

text \<open>The object the file holds, in the order the code checks it.\<close>

definition policy_of_object :: "(string \<times> json) list \<Rightarrow> sponsor_policy result" where
  "policy_of_object kvs =
     (let parsed = JObj kvs; unknownKeys = filter (\<lambda>k. k \<notin> set POLICY_FILE_KEYS) (map fst kvs) in
      if unknownKeys \<noteq> [] then Inl (js_Error (''policy file has unknown keys: '' @ join '', '' unknownKeys))
      else case flag_problem parsed of
        Some f \<Rightarrow> Inl (js_Error (f @ '' must be a boolean''))
      | None \<Rightarrow>
          (case readRateLimits (json_field ''rateLimits'' parsed) of Inl e \<Rightarrow> Inl e
           | Inr limits \<Rightarrow>
          (case validateContractCircuits ''contractCircuits'' (json_field ''contractCircuits'' parsed) of Inl e \<Rightarrow> Inl e
           | Inr rules \<Rightarrow>
          (case validatePolicyList ''allowedContracts'' (json_field ''allowedContracts'' parsed) of Inl e \<Rightarrow> Inl e
           | Inr contracts \<Rightarrow>
          (case validatePolicyList ''allowedCircuits'' (json_field ''allowedCircuits'' parsed) of Inl e \<Rightarrow> Inl e
           | Inr circuits \<Rightarrow>
          (case validateTokenTypeList ''allowedTokenTypes'' (json_field ''allowedTokenTypes'' parsed) of Inl e \<Rightarrow> Inl e
           | Inr types \<Rightarrow>
          (case validateTokenTypeList ''allowedUnshieldedTokenTypes'' (json_field ''allowedUnshieldedTokenTypes'' parsed) of Inl e \<Rightarrow> Inl e
           | Inr unshielded \<Rightarrow>
               (let ruled = filter (\<lambda>a. a \<notin> set contracts) (map fst (case rules of Some rs \<Rightarrow> rs | None \<Rightarrow> []))
                in Inr \<lparr>sp_allowedContracts = (if contracts = [] then contracts else contracts @ ruled), sp_allowedCircuits = circuits,
                        sp_contractCircuits = rules, sp_allowDeploy = is_true (json_field ''allowDeploy'' parsed), sp_ownContracts = [],
                        sp_allowedTokenTypes = types, sp_allowContractMints = is_true (json_field ''allowContractMints'' parsed),
                        sp_allowSwaps = is_true (json_field ''allowSwaps'' parsed),
                        sp_shareMintedTokenTypes = is_true (json_field ''shareMintedTokenTypes'' parsed), sp_ownTokenTypes = [], sp_sharedTokenTypes = [],
                        sp_allowTransfers = is_true (json_field ''allowTransfers'' parsed),
                        sp_allowUnshieldedOffers = is_true (json_field ''allowUnshieldedOffers'' parsed),
                        sp_allowedUnshieldedTokenTypes = unshielded, sp_rateLimits = limits\<rparr>))))))))"

definition readPolicyFile :: "json_text result \<Rightarrow> sponsor_policy result" where
  "readPolicyFile content =
     (case content of
        Inl e \<Rightarrow> Inl e
      | Inr t \<Rightarrow>
          (case json_parse t of
             None \<Rightarrow> Inl (js_Error ''SyntaxError'')
           | Some (JObj kvs) \<Rightarrow> policy_of_object kvs
           | Some _ \<Rightarrow> Inl (js_Error ''policy file must be a JSON object'')))"

section \<open>The cached file\<close>

record file_cache =
  fc_path :: string
  fc_mtimeMs :: int
  fc_size :: int
  fc_policy :: "sponsor_policy option"
  fc_lastGood :: "sponsor_policy option"
  fc_loadedAt :: "int option"

text \<open>What the file system shows at one moment: time and size, and what a read gives.\<close>

record policy_fs =
  fs_stat :: "(int \<times> int) option"
  fs_text :: "json_text result"

definition SHADOWED_ENV_KEYS :: "string list" where
  "SHADOWED_ENV_KEYS =
     [''NIGHTGATE_SPONSOR_ALLOWED_CONTRACTS'', ''NIGHTGATE_SPONSOR_ALLOWED_CIRCUITS'', ''NIGHTGATE_SPONSOR_ALLOWED_TOKEN_TYPES'',
      ''NIGHTGATE_SPONSOR_ALLOW_DEPLOY'', ''NIGHTGATE_SPONSOR_ALLOW_CONTRACT_MINTS'', ''NIGHTGATE_SPONSOR_ALLOW_SWAPS'',
      ''NIGHTGATE_SPONSOR_ALLOW_TRANSFERS'', ''NIGHTGATE_SPONSOR_SHARE_MINTED_TOKEN_TYPES'',
      ''NIGHTGATE_SPONSOR_ALLOW_UNSHIELDED_OFFERS'', ''NIGHTGATE_SPONSOR_ALLOWED_UNSHIELDED_TOKEN_TYPES'']"

definition policy_path :: "sponsor_config \<Rightarrow> string option" where
  "policy_path c = (case cfg_string c ''NIGHTGATE_SPONSOR_POLICY_FILE'' of Some p \<Rightarrow> if p = [] then None else Some p | None \<Rightarrow> None)"

definition shadowedSponsorEnvKeys :: "sponsor_config \<Rightarrow> string list" where
  "shadowedSponsorEnvKeys c = (if policy_path c = None then [] else filter (cfg_isSet c) SHADOWED_ENV_KEYS)"

definition last_good :: "string \<Rightarrow> file_cache option \<Rightarrow> sponsor_policy option" where
  "last_good path cache = (case cache of Some fc \<Rightarrow> if fc_path fc = path then fc_lastGood fc else None | None \<Rightarrow> None)"

definition loaded_at :: "file_cache option \<Rightarrow> int option" where
  "loaded_at cache = (case cache of Some fc \<Rightarrow> fc_loadedAt fc | None \<Rightarrow> None)"

definition cache_current :: "string \<Rightarrow> (int \<times> int) option \<Rightarrow> file_cache option \<Rightarrow> bool" where
  "cache_current path st cache =
     (case (cache, st) of (Some fc, Some (m, z)) \<Rightarrow> fc_path fc = path \<and> fc_mtimeMs fc = m \<and> fc_size fc = z | _ \<Rightarrow> False)"

definition keep_or_refuse :: "string \<Rightarrow> string \<Rightarrow> sponsor_policy option \<Rightarrow> sponsor_policy result" where
  "keep_or_refuse path why good =
     (case good of
        Some p \<Rightarrow> Inr p
      | None \<Rightarrow> Inl (SponsorPolicyUnavailableError
          (''sponsor policy file '' @ path @ why @ '' and no policy was loaded before; refusing to sponsor'')))"

definition file_policy :: "int \<Rightarrow> string \<Rightarrow> policy_fs \<Rightarrow> file_cache option \<Rightarrow> sponsor_policy result \<times> file_cache option" where
  "file_policy nw path fs cache =
     (let good = last_good path cache; kept = (if good = None then None else loaded_at cache) in
      if cache_current path (fs_stat fs) cache
      then (case cache of
              Some fc \<Rightarrow> ((case fc_policy fc of Some p \<Rightarrow> Inr p | None \<Rightarrow> keep_or_refuse path '' is unusable'' (fc_lastGood fc)), cache)
            | None \<Rightarrow> (Inl (js_Error []), cache))
      else
        (case fs_stat fs of
           None \<Rightarrow>
             (keep_or_refuse path '' cannot be read'' good,
              (case cache of
                 Some fc \<Rightarrow> if fc_path fc = path \<and> fc_mtimeMs fc = -1 then cache
                            else Some \<lparr>fc_path = path, fc_mtimeMs = -1, fc_size = -1, fc_policy = None, fc_lastGood = good, fc_loadedAt = kept\<rparr>
               | None \<Rightarrow> Some \<lparr>fc_path = path, fc_mtimeMs = -1, fc_size = -1, fc_policy = None, fc_lastGood = good, fc_loadedAt = kept\<rparr>))
         | Some (m, z) \<Rightarrow>
             (case readPolicyFile (fs_text fs) of
                Inr p \<Rightarrow> (Inr p, Some \<lparr>fc_path = path, fc_mtimeMs = m, fc_size = z, fc_policy = Some p, fc_lastGood = Some p, fc_loadedAt = Some nw\<rparr>)
              | Inl e \<Rightarrow>
                  (keep_or_refuse path '' is invalid'' good,
                   Some \<lparr>fc_path = path, fc_mtimeMs = m, fc_size = z, fc_policy = None, fc_lastGood = good, fc_loadedAt = kept\<rparr>))))"

definition getGlobalSponsorPolicy :: "sponsor_config \<Rightarrow> int \<Rightarrow> policy_fs \<Rightarrow> file_cache option \<Rightarrow> sponsor_policy result \<times> file_cache option" where
  "getGlobalSponsorPolicy c nw fs cache =
     (case policy_path c of None \<Rightarrow> (envPolicy c, cache) | Some path \<Rightarrow> file_policy nw path fs cache)"

definition policyFileRateLimits :: "sponsor_config \<Rightarrow> int \<Rightarrow> policy_fs \<Rightarrow> file_cache option \<Rightarrow> (string \<times> int) list \<times> file_cache option" where
  "policyFileRateLimits c nw fs cache =
     (if policy_path c = None then ([], cache)
      else (case getGlobalSponsorPolicy c nw fs cache of
              (Inr p, cache') \<Rightarrow> ((case sp_rateLimits p of Some l \<Rightarrow> l | None \<Rightarrow> []), cache')
            | (Inl _, cache') \<Rightarrow> ([], cache')))"

section \<open>The effective policy\<close>

definition emptyIntersection :: "string \<Rightarrow> string list \<Rightarrow> js_error" where
  "emptyIntersection what grant =
     SponsorPolicyEmptyError
       (''this grant'' @ [CHR 0x27] @ ''s '' @ what @ '' ('' @ join '', '' (map (take 16) grant) @ '') share nothing with the platform''
        @ [CHR 0x27] @ ''s sponsor allow-list; the grant cannot be sponsored here (revoke and re-issue it, or widen the platform policy)'')"

definition intersect :: "string list \<Rightarrow> string list \<Rightarrow> string \<Rightarrow> string list result" where
  "intersect flr grant what =
     (if grant = [] then Inr flr
      else if flr = [] then Inr grant
      else (let both = filter (\<lambda>g. g \<in> set flr) grant in if both = [] then Inl (emptyIntersection what grant) else Inr both))"

definition narrow_rule :: "string list \<Rightarrow> circuit_rule \<Rightarrow> string list" where
  "narrow_rule grantList r = (case r of AnyCircuit \<Rightarrow> grantList | OnlyCircuits cs \<Rightarrow> filter (\<lambda>c. c \<in> set grantList) cs)"

definition narrowCircuits ::
    "sponsor_policy \<Rightarrow> string list \<Rightarrow> string list \<Rightarrow> (string list \<times> string list \<times> circuit_rules option) result" where
  "narrowCircuits flr grantList contracts =
     (if grantList = [] then Inr (contracts, sp_allowedCircuits flr, sp_contractCircuits flr)
      else
        (let flat = (if sp_allowedCircuits flr = [] then grantList else filter (\<lambda>c. c \<in> set (sp_allowedCircuits flr)) grantList);
             narrowed = map (\<lambda>(a, r). (a, narrow_rule grantList r)) (case sp_contractCircuits flr of Some rs \<Rightarrow> rs | None \<Rightarrow> [])
         in if flat \<noteq> []
            then Inr (contracts, flat, map_option (\<lambda>_. map (\<lambda>(a, cs). (a, OnlyCircuits cs)) narrowed) (sp_contractCircuits flr))
            else
              (let usable = filter (\<lambda>(a, cs). cs \<noteq> [] \<and> (contracts = [] \<or> a \<in> set contracts)) narrowed
               in if usable = [] then Inl (emptyIntersection ''allowedCircuits'' grantList)
                  else Inr (map fst usable, grantList, Some (map (\<lambda>(a, cs). (a, OnlyCircuits cs)) usable)))))"

definition floorTokenTypes :: "sponsor_policy \<Rightarrow> string list \<Rightarrow> string list" where
  "floorTokenTypes flr sharedTypes =
     sp_allowedTokenTypes flr @ filter (\<lambda>t. t \<notin> set (sp_allowedTokenTypes flr)) sharedTypes"

definition narrowUnshieldedTypes :: "string list \<Rightarrow> string list \<Rightarrow> string list" where
  "narrowUnshieldedTypes flr grant =
     (let wanted = filter HEX64_RE grant in if wanted = [] then flr else filter (\<lambda>t. t \<in> set flr) wanted)"

definition no_grant :: grant_policy where
  "no_grant = \<lparr>gp_allowedContracts = [], gp_allowedCircuits = [], gp_allowDeploy = True, gp_deployedContracts = [], gp_allowedTokenTypes = [],
     gp_mintedTokenTypes = [], gp_allowSwaps = True, gp_allowTransfers = True, gp_allowUnshieldedOffers = True, gp_allowedUnshieldedTokenTypes = []\<rparr>"

definition effectiveSponsorPolicy :: "sponsor_policy \<Rightarrow> grant_policy option \<Rightarrow> string list \<Rightarrow> sponsor_policy result" where
  "effectiveSponsorPolicy flr grant shared =
     (let g = (case grant of Some x \<Rightarrow> x | None \<Rightarrow> no_grant) in
      case intersect (sp_allowedContracts flr) (gp_allowedContracts g) ''allowedContracts'' of
        Inl e \<Rightarrow> Inl e
      | Inr both \<Rightarrow>
          (case narrowCircuits flr (gp_allowedCircuits g) both of
             Inl e \<Rightarrow> Inl e
           | Inr (contracts, circuits, rules) \<Rightarrow>
               (let deployed = js_set (filter (\<lambda>a. a \<noteq> []) (gp_deployedContracts g));
                    withDeployed = (if contracts = [] \<or> deployed = [] then contracts else contracts @ filter (\<lambda>a. a \<notin> set contracts) deployed);
                    sharing = (sp_allowContractMints flr \<and> sp_shareMintedTokenTypes flr);
                    sharedTypes = (if sharing then js_set (filter HEX64_RE shared) else []);
                    floorTokens = floorTokenTypes flr sharedTypes;
                    grantTokens = filter (\<lambda>t. t \<noteq> []) (gp_allowedTokenTypes g);
                    listed = (if grantTokens = [] then floorTokens else filter (\<lambda>t. t \<in> set floorTokens) grantTokens);
                    minted = (if sp_allowContractMints flr then js_set (filter HEX64_RE (gp_mintedTokenTypes g)) else [])
                in Inr \<lparr>sp_allowedContracts = withDeployed, sp_allowedCircuits = circuits, sp_contractCircuits = rules,
                        sp_allowDeploy = (sp_allowDeploy flr \<and> gp_allowDeploy g), sp_ownContracts = deployed,
                        sp_allowedTokenTypes = listed @ filter (\<lambda>t. t \<notin> set listed) minted,
                        sp_allowContractMints = sp_allowContractMints flr, sp_allowSwaps = (sp_allowSwaps flr \<and> gp_allowSwaps g),
                        sp_shareMintedTokenTypes = sharing, sp_ownTokenTypes = minted, sp_sharedTokenTypes = sharedTypes,
                        sp_allowTransfers = (sp_allowTransfers flr \<and> gp_allowTransfers g),
                        sp_allowUnshieldedOffers = (sp_allowUnshieldedOffers flr \<and> gp_allowUnshieldedOffers g),
                        sp_allowedUnshieldedTokenTypes = narrowUnshieldedTypes (sp_allowedUnshieldedTokenTypes flr) (gp_allowedUnshieldedTokenTypes g),
                        sp_rateLimits = None\<rparr>)))"

definition are_not_in :: "string \<Rightarrow> string list \<Rightarrow> string \<Rightarrow> string \<Rightarrow> string" where
  "are_not_in field outside allow note =
     field @ '' '' @ join '', '' outside @ '' '' @ (if length outside = 1 then ''is'' else ''are'') @ '' not in the platform'' @ [CHR 0x27] @ ''s '' @ allow @ note
     @ ''; the platform policy has to list a type before a grant can''"

definition grantPolicyConflict :: "sponsor_policy \<Rightarrow> grant_policy \<Rightarrow> string list \<Rightarrow> string option" where
  "grantPolicyConflict flr g shared =
     (case effectiveSponsorPolicy flr (Some g) shared of
        Inl e \<Rightarrow> Some (err_message e)
      | Inr eff \<Rightarrow>
          (let outsideUnshielded = filter (\<lambda>t. t \<notin> set (sp_allowedUnshieldedTokenTypes flr)) (gp_allowedUnshieldedTokenTypes g);
               floorTokens = floorTokenTypes flr (sp_sharedTokenTypes eff);
               outside = filter (\<lambda>t. t \<notin> set floorTokens) (gp_allowedTokenTypes g)
           in if outsideUnshielded \<noteq> []
              then Some (are_not_in ''allowedUnshieldedTokenTypes'' outsideUnshielded ''unshielded token-type list''
                     (if sp_allowedUnshieldedTokenTypes flr = [] then '' (the platform lists none besides NIGHT)'' else []))
              else if outside = [] then None
              else Some (are_not_in ''allowedTokenTypes'' outside ''sponsor token-type allow-list''
                     (if floorTokens = [] then '' (the platform lists none)'' else []))))"

record policy_description =
  pd_file :: bool
  pd_path :: "string option"
  pd_loadedAt :: "int option"
  pd_ignoredEnv :: "string list"
  pd_floor :: "sponsor_policy option"
  pd_floorError :: "string option"

definition describeGlobalSponsorPolicy :: "sponsor_config \<Rightarrow> int \<Rightarrow> policy_fs \<Rightarrow> file_cache option \<Rightarrow> policy_description \<times> file_cache option" where
  "describeGlobalSponsorPolicy c nw fs cache =
     (case getGlobalSponsorPolicy c nw fs cache of
        (r, cache') \<Rightarrow>
          (\<lparr>pd_file = (policy_path c \<noteq> None), pd_path = policy_path c,
            pd_loadedAt = (case (policy_path c, cache') of (Some p, Some fc) \<Rightarrow> if fc_path fc = p then fc_loadedAt fc else None | _ \<Rightarrow> None),
            pd_ignoredEnv = shadowedSponsorEnvKeys c,
            pd_floor = (case r of Inr p \<Rightarrow> Some p | Inl _ \<Rightarrow> None),
            pd_floorError = (case r of Inl e \<Rightarrow> Some (err_message e) | Inr _ \<Rightarrow> None)\<rparr>, cache'))"

definition resolveSponsorPolicyForRequest ::
    "sponsor_config \<Rightarrow> int \<Rightarrow> policy_fs \<Rightarrow> string list \<Rightarrow> grant_policy option \<Rightarrow> file_cache option \<Rightarrow> sponsor_policy result \<times> file_cache option" where
  "resolveSponsorPolicyForRequest c nw fs shared grant cache =
     (case getGlobalSponsorPolicy c nw fs cache of
        (Inl e, cache') \<Rightarrow> (Inl e, cache')
      | (Inr flr, cache') \<Rightarrow> (effectiveSponsorPolicy flr grant shared, cache'))"

section \<open>What a policy permits\<close>

text \<open>
  The worker's check of one contract call against a policy
  (\<^verbatim>\<open>checkSponsorableShape\<close> in \<^verbatim>\<open>srv/midnight/worker/sponsor.ts\<close>).
\<close>

definition rule_permits :: "circuit_rule \<Rightarrow> string \<Rightarrow> bool" where
  "rule_permits r c = (case r of AnyCircuit \<Rightarrow> True | OnlyCircuits cs \<Rightarrow> c \<in> set cs)"

definition rule_of :: "sponsor_policy \<Rightarrow> string \<Rightarrow> circuit_rule option" where
  "rule_of p a = (case sp_contractCircuits p of Some rs \<Rightarrow> map_of rs a | None \<Rightarrow> None)"

definition circuit_permitted :: "sponsor_policy \<Rightarrow> string \<Rightarrow> string \<Rightarrow> bool" where
  "circuit_permitted p a c =
     (case rule_of p a of Some r \<Rightarrow> rule_permits r c | None \<Rightarrow> sp_allowedCircuits p = [] \<or> c \<in> set (sp_allowedCircuits p))"

definition contract_permitted :: "sponsor_policy \<Rightarrow> string \<Rightarrow> bool" where
  "contract_permitted p a \<longleftrightarrow> sp_allowedContracts p = [] \<or> a \<in> set (sp_allowedContracts p)"

definition permits :: "sponsor_policy \<Rightarrow> string \<Rightarrow> string \<Rightarrow> bool" where
  "permits p a c \<longleftrightarrow> contract_permitted p a \<and> (a \<in> set (sp_ownContracts p) \<or> circuit_permitted p a c)"

definition rules_ok :: "sponsor_policy \<Rightarrow> bool" where
  "rules_ok p \<longleftrightarrow> (case sp_contractCircuits p of Some rs \<Rightarrow> distinct (map fst rs) | None \<Rightarrow> True)"

lemma circuit_rule_entries_distinct:
  "circuit_rule_entries name kvs out = Inr rs \<Longrightarrow> distinct (map fst out) \<Longrightarrow> distinct (map fst rs)"
  by (induction name kvs out rule: circuit_rule_entries.induct)
    (auto simp: Let_def split: if_splits sum.splits list.splits)

lemma validateContractCircuits_distinct: "validateContractCircuits name raw = Inr (Some rs) \<Longrightarrow> distinct (map fst rs)"
  by (auto simp: validateContractCircuits_def split: if_splits sum.splits option.splits json.splits dest!: circuit_rule_entries_distinct)

lemma policy_of_object_circuits:
  "policy_of_object kvs = Inr p \<Longrightarrow> validateContractCircuits ''contractCircuits'' (json_field ''contractCircuits'' (JObj kvs)) = Inr (sp_contractCircuits p)"
  unfolding policy_of_object_def Let_def
  by (auto split: if_splits sum.splits option.splits simp del: json_field.simps)

lemma policy_of_object_rules: "policy_of_object kvs = Inr p \<Longrightarrow> rules_ok p"
  using policy_of_object_circuits [of kvs p] validateContractCircuits_distinct
  by (auto simp: rules_ok_def simp del: json_field.simps split: option.splits)

lemma readPolicyFile_rules: "readPolicyFile t = Inr p \<Longrightarrow> rules_ok p"
  by (auto simp: readPolicyFile_def dest: policy_of_object_rules split: sum.splits option.splits json.splits)

lemma map_of_rules: "map_of (map (\<lambda>(a, r). (a, f r)) rs) a = map_option f (map_of rs a)"
  by (induction rs) auto

lemma intersect_Inr:
  assumes "intersect flr grant what = Inr both"
  shows "(flr = [] \<or> set both \<subseteq> set flr) \<and> (grant = [] \<or> set both \<subseteq> set grant) \<and> (both = [] \<longrightarrow> flr = [] \<and> grant = [])"
  using assms by (auto simp: intersect_def Let_def split: if_splits)

lemma narrowed_rule:
  "rule_permits (OnlyCircuits (narrow_rule gl r)) c \<longleftrightarrow> c \<in> set gl \<and> rule_permits r c"
  by (auto simp: rule_permits_def narrow_rule_def split: circuit_rule.splits)

text \<open>The narrowed circuits allow on a listed contract only what both sides allow.\<close>

lemma narrowCircuits_permits:
  assumes "narrowCircuits flr gl contracts = Inr (cs', circs, rules)" and "rules_ok flr"
    and "cs' = [] \<or> a \<in> set cs'"
    and "case (case rules of Some rs \<Rightarrow> map_of rs a | None \<Rightarrow> None) of Some r \<Rightarrow> rule_permits r c | None \<Rightarrow> circs = [] \<or> c \<in> set circs"
  shows "(contracts = [] \<or> a \<in> set contracts) \<and> circuit_permitted flr a c \<and> (gl = [] \<or> c \<in> set gl)"
proof (cases "gl = []")
  case True
  then show ?thesis using assms by (auto simp: narrowCircuits_def circuit_permitted_def rule_of_def)
next
  case False
  let ?flat = "if sp_allowedCircuits flr = [] then gl else filter (\<lambda>c. c \<in> set (sp_allowedCircuits flr)) gl"
  define rs where "rs = (case sp_contractCircuits flr of Some rs \<Rightarrow> rs | None \<Rightarrow> [])"
  define nar where "nar = map (\<lambda>(a, r). (a, narrow_rule gl r)) rs"
  have rs: "map_of rs a = rule_of flr a" by (simp add: rule_of_def rs_def split: option.splits)
  show ?thesis
  proof (cases "?flat = []")
    case False
    then have eq: "cs' = contracts" "circs = ?flat" "rules = map_option (\<lambda>_. map (\<lambda>(a, cs). (a, OnlyCircuits cs)) nar) (sp_contractCircuits flr)"
      using assms(1) \<open>gl \<noteq> []\<close> by (simp_all add: narrowCircuits_def Let_def rs_def nar_def)
    have "(case rules of Some rs \<Rightarrow> map_of rs a | None \<Rightarrow> None) = map_option (\<lambda>r. OnlyCircuits (narrow_rule gl r)) (rule_of flr a)"
      by (cases "sp_contractCircuits flr") (simp_all add: eq(3) nar_def rs_def rule_of_def map_of_rules option.map_comp comp_def del: map_map)
    then have "c \<in> set gl \<and> circuit_permitted flr a c"
      using assms(4) False eq(2) by (cases "rule_of flr a") (auto simp: circuit_permitted_def narrowed_rule split: if_splits)
    then show ?thesis using assms(3) eq(1) by blast
  next
    case True
    define us where "us = filter (\<lambda>(a, cs). cs \<noteq> [] \<and> (contracts = [] \<or> a \<in> set contracts)) nar"
    have eq: "us \<noteq> []" "cs' = map fst us" "rules = Some (map (\<lambda>(a, cs). (a, OnlyCircuits cs)) us)"
      using assms(1) True \<open>gl \<noteq> []\<close> by (auto simp: narrowCircuits_def Let_def us_def nar_def rs_def split: if_splits)
    then have "a \<in> fst ` set us" using assms(3) by simp
    then obtain cs where mem: "(a, cs) \<in> set us" by force
    then obtain r where r: "(a, r) \<in> set rs" "cs = narrow_rule gl r" "contracts = [] \<or> a \<in> set contracts" by (auto simp: us_def nar_def)
    have d: "distinct (map fst rs)" using assms(2) by (simp add: rules_ok_def rs_def split: option.splits)
    then have ra: "rule_of flr a = Some r" using rs map_of_is_SomeI r(1) by metis
    have "distinct (map fst us)" using d unfolding us_def nar_def by (simp add: distinct_map_filter comp_def case_prod_unfold)
    then have "map_of (map (\<lambda>(a, cs). (a, OnlyCircuits cs)) us) a = Some (OnlyCircuits cs)"
      using mem by (simp add: map_of_rules)
    then have "rule_permits (OnlyCircuits cs) c" using assms(4) eq(3) by simp
    then show ?thesis using r ra by (simp add: narrowed_rule circuit_permitted_def)
  qed
qed

lemma effective_parts:
  assumes "effectiveSponsorPolicy flr (Some g) shared = Inr eff"
  obtains both cs' where "intersect (sp_allowedContracts flr) (gp_allowedContracts g) ''allowedContracts'' = Inr both"
    and "narrowCircuits flr (gp_allowedCircuits g) both = Inr (cs', sp_allowedCircuits eff, sp_contractCircuits eff)"
    and "sp_ownContracts eff = js_set (filter (\<lambda>a. a \<noteq> []) (gp_deployedContracts g))"
    and "set (sp_allowedContracts eff) \<subseteq> set cs' \<union> set (gp_deployedContracts g)"
    and "sp_allowedContracts eff = [] \<longleftrightarrow> cs' = []"
proof -
  obtain both where b: "intersect (sp_allowedContracts flr) (gp_allowedContracts g) ''allowedContracts'' = Inr both"
    using assms by (cases "intersect (sp_allowedContracts flr) (gp_allowedContracts g) ''allowedContracts''") (simp_all add: effectiveSponsorPolicy_def)
  obtain cs' circs rules where n: "narrowCircuits flr (gp_allowedCircuits g) both = Inr (cs', circs, rules)"
    using assms b by (cases "narrowCircuits flr (gp_allowedCircuits g) both") (auto simp: effectiveSponsorPolicy_def)
  let ?dep = "js_set (filter (\<lambda>a. a \<noteq> []) (gp_deployedContracts g))"
  let ?with = "if cs' = [] \<or> ?dep = [] then cs' else cs' @ filter (\<lambda>a. a \<notin> set cs') ?dep"
  have eff: "sp_allowedContracts eff = ?with" "sp_allowedCircuits eff = circs" "sp_contractCircuits eff = rules" "sp_ownContracts eff = ?dep"
    using assms unfolding effectiveSponsorPolicy_def b n Let_def option.case sum.case prod.case by (simp_all add: b n) (auto)
  show ?thesis by (rule that [of both cs']) (use b n eff in auto)
qed

lemma narrow_permits:
  assumes "effectiveSponsorPolicy flr (Some g) shared = Inr eff" and "rules_ok flr" and "permits eff a c"
    and "a \<notin> set (gp_deployedContracts g)"
  shows "contract_permitted flr a \<and> circuit_permitted flr a c
    \<and> (gp_allowedContracts g = [] \<or> a \<in> set (gp_allowedContracts g)) \<and> (gp_allowedCircuits g = [] \<or> c \<in> set (gp_allowedCircuits g))"
proof -
  obtain both cs' where p: "intersect (sp_allowedContracts flr) (gp_allowedContracts g) ''allowedContracts'' = Inr both"
    "narrowCircuits flr (gp_allowedCircuits g) both = Inr (cs', sp_allowedCircuits eff, sp_contractCircuits eff)"
    "sp_ownContracts eff = js_set (filter (\<lambda>a. a \<noteq> []) (gp_deployedContracts g))"
    "set (sp_allowedContracts eff) \<subseteq> set cs' \<union> set (gp_deployedContracts g)" "sp_allowedContracts eff = [] \<longleftrightarrow> cs' = []"
    using effective_parts [OF assms(1)] by blast
  have "cs' = [] \<or> a \<in> set cs'" using assms(3,4) p(4,5) by (auto simp: permits_def contract_permitted_def)
  moreover have "circuit_permitted eff a c" using assms(3,4) p(3) by (simp add: permits_def)
  ultimately have "(both = [] \<or> a \<in> set both) \<and> circuit_permitted flr a c \<and> (gp_allowedCircuits g = [] \<or> c \<in> set (gp_allowedCircuits g))"
    using narrowCircuits_permits [OF p(2) assms(2)] by (simp add: circuit_permitted_def rule_of_def)
  then show ?thesis using intersect_Inr [OF p(1)] by (auto simp: contract_permitted_def)
qed

section \<open>The file over time\<close>

text \<open>
  The policies read from one path, in the order they were loaded: a read happens when time or size of the
  file differ from the last look.
\<close>

definition loads :: "string \<Rightarrow> policy_fs \<Rightarrow> file_cache option \<Rightarrow> sponsor_policy list" where
  "loads path fs cache =
     (if cache_current path (fs_stat fs) cache \<or> fs_stat fs = None then []
      else (case readPolicyFile (fs_text fs) of Inr p \<Rightarrow> [p] | Inl _ \<Rightarrow> []))"

inductive policy_reach :: "string \<Rightarrow> file_cache option \<Rightarrow> sponsor_policy list \<Rightarrow> bool" for path where
  start: "policy_reach path None []"
| look: "policy_reach path cache seen \<Longrightarrow> file_policy nw path fs cache = (r, cache') \<Longrightarrow> policy_reach path cache' (seen @ loads path fs cache)"

definition cache_ok :: "string \<Rightarrow> file_cache option \<Rightarrow> sponsor_policy list \<Rightarrow> bool" where
  "cache_ok path cache seen =
     (case cache of
        None \<Rightarrow> seen = []
      | Some fc \<Rightarrow> fc_path fc = path \<and> fc_lastGood fc = (if seen = [] then None else Some (last seen))
                   \<and> (fc_policy fc = None \<or> fc_policy fc = fc_lastGood fc))"

lemma cache_ok_look:
  assumes "cache_ok path cache seen" and "file_policy nw path fs cache = (r, cache')"
  shows "cache_ok path cache' (seen @ loads path fs cache)
    \<and> (case r of Inr p \<Rightarrow> seen @ loads path fs cache \<noteq> [] \<and> p = last (seen @ loads path fs cache)
       | Inl e \<Rightarrow> seen @ loads path fs cache = [] \<and> err_code e = ''SPONSOR_POLICY_UNAVAILABLE'')"
proof (cases "cache_current path (fs_stat fs) cache")
  case True
  then obtain fc where fc: "cache = Some fc" by (auto simp: cache_current_def split: option.splits)
  show ?thesis using assms True fc
    by (auto simp: file_policy_def cache_ok_def loads_def keep_or_refuse_def SponsorPolicyUnavailableError_def split: option.splits if_splits)
next
  case False
  have good: "last_good path cache = (if seen = [] then None else Some (last seen))"
    using assms(1) by (auto simp: cache_ok_def last_good_def split: option.splits)
  show ?thesis
  proof (cases "fs_stat fs")
    case None
    then show ?thesis using assms False good
      by (auto simp: file_policy_def cache_ok_def loads_def keep_or_refuse_def SponsorPolicyUnavailableError_def Let_def split: option.splits if_splits)
  next
    case (Some mz)
    then show ?thesis using assms(2) False good
      by (auto simp: file_policy_def cache_ok_def loads_def keep_or_refuse_def SponsorPolicyUnavailableError_def Let_def
          split: option.splits if_splits sum.splits prod.splits)
  qed
qed

lemma policy_reach_ok: "policy_reach path cache seen \<Longrightarrow> cache_ok path cache seen"
proof (induction rule: policy_reach.induct)
  case start
  show ?case by (simp add: cache_ok_def)
next
  case (look cache seen nw fs r cache')
  then show ?case using cache_ok_look by blast
qed

section \<open>Properties\<close>

text \<open>
  An agent grant can only narrow what the platform sponsors: a call the effective policy permits is permitted
  by the platform policy and by the lists of the grant, unless it goes to a contract deployed under the grant. This
  holds with rules per contract, with empty lists that allow everything, and when only a rule names a circuit of the grant.
\<close>

theorem grant_narrows:
  assumes "effectiveSponsorPolicy flr (Some g) shared = Inr eff" and "rules_ok flr" and "permits eff a c"
  shows "a \<in> set (gp_deployedContracts g)
    \<or> (contract_permitted flr a \<and> circuit_permitted flr a c
       \<and> (gp_allowedContracts g = [] \<or> a \<in> set (gp_allowedContracts g)) \<and> (gp_allowedCircuits g = [] \<or> c \<in> set (gp_allowedCircuits g)))"
  using narrow_permits [OF assms] by blast

definition sample_floor :: sponsor_policy where
  "sample_floor = \<lparr>sp_allowedContracts = [''c1'', ''c2''], sp_allowedCircuits = [''attest''], sp_contractCircuits = Some [(''c2'', OnlyCircuits [''mint'', ''burn''])],
     sp_allowDeploy = True, sp_ownContracts = [], sp_allowedTokenTypes = [], sp_allowContractMints = False, sp_allowSwaps = False,
     sp_shareMintedTokenTypes = False, sp_ownTokenTypes = [], sp_sharedTokenTypes = [], sp_allowTransfers = False, sp_allowUnshieldedOffers = False,
     sp_allowedUnshieldedTokenTypes = [], sp_rateLimits = None\<rparr>"

definition sample_grant :: grant_policy where
  "sample_grant = no_grant\<lparr>gp_allowedCircuits := [''mint''], gp_deployedContracts := [''own'']\<rparr>"

text \<open>A grant for \<open>mint\<close> alone keeps only the contract whose rule names it.\<close>

lemma sample_effective:
  "\<exists>eff. effectiveSponsorPolicy sample_floor (Some sample_grant) [] = Inr eff \<and> permits eff ''c2'' ''mint''"
  by (simp add: effectiveSponsorPolicy_def sample_floor_def sample_grant_def no_grant_def intersect_def narrowCircuits_def narrow_rule_def
      js_set_def permits_def contract_permitted_def circuit_permitted_def rule_of_def rule_permits_def Let_def)

theorem grant_narrows_witness: "circuit_permitted sample_floor ''c2'' ''mint''"
proof -
  obtain eff where "effectiveSponsorPolicy sample_floor (Some sample_grant) [] = Inr eff" "permits eff ''c2'' ''mint''"
    using sample_effective by blast
  moreover have "rules_ok sample_floor" by (simp add: rules_ok_def sample_floor_def)
  moreover have "''c2'' \<notin> set (gp_deployedContracts sample_grant)" by (simp add: sample_grant_def)
  ultimately show ?thesis using grant_narrows by blast
qed

text \<open>
  The policy file fails closed and keeps what it had: after any history of looks at the file, readable or
  not, valid or not, the answer is the policy loaded last, and while none was ever loaded every request is refused
  as unavailable.
\<close>

theorem policy_file_kept:
  assumes "policy_reach path cache seen" and "file_policy nw path fs cache = (r, cache')"
  shows "case r of Inr p \<Rightarrow> seen @ loads path fs cache \<noteq> [] \<and> p = last (seen @ loads path fs cache)
         | Inl e \<Rightarrow> seen @ loads path fs cache = [] \<and> err_code e = ''SPONSOR_POLICY_UNAVAILABLE''"
  using cache_ok_look [OF policy_reach_ok [OF assms(1)] assms(2)] by blast

definition sample_fs :: "int \<Rightarrow> json_text \<Rightarrow> policy_fs" where
  "sample_fs m t = \<lparr>fs_stat = Some (m, 10), fs_text = Inr t\<rparr>"

text \<open>A valid file, then a broken one: the first policy stays.\<close>

theorem policy_file_kept_witness:
  "fst (file_policy 2 ''p'' (sample_fs 2 (JRaw ''{'')) (snd (file_policy 1 ''p'' (sample_fs 1 (JText (JObj []))) None)))
     = readPolicyFile (Inr (JText (JObj [])))"
proof -
  have valid: "isInr (readPolicyFile (Inr (JText (JObj []))))"
    by (simp add: readPolicyFile_def policy_of_object_def flag_problem_def POLICY_FLAGS_def readRateLimits_def validateContractCircuits_def
        validatePolicyList_def validateTokenTypeList_def policy_array_def)
  then obtain p where p: "readPolicyFile (Inr (JText (JObj []))) = Inr p" by (cases "readPolicyFile (Inr (JText (JObj [])))") auto
  let ?c1 = "snd (file_policy 1 ''p'' (sample_fs 1 (JText (JObj []))) None)"
  have l1: "loads ''p'' (sample_fs 1 (JText (JObj []))) None = [p]" by (simp add: loads_def cache_current_def sample_fs_def p)
  have c1: "?c1 = Some \<lparr>fc_path = ''p'', fc_mtimeMs = 1, fc_size = 10, fc_policy = Some p, fc_lastGood = Some p, fc_loadedAt = Some 1\<rparr>"
    by (simp add: file_policy_def cache_current_def sample_fs_def p)
  have l2: "loads ''p'' (sample_fs 2 (JRaw ''{'')) ?c1 = []"
    by (simp add: loads_def c1 cache_current_def sample_fs_def readPolicyFile_def)
  have "policy_reach ''p'' ?c1 ([] @ loads ''p'' (sample_fs 1 (JText (JObj []))) None)"
    by (rule policy_reach.look [OF policy_reach.start prod.collapse [symmetric]])
  then have "policy_reach ''p'' ?c1 [p]" by (simp only: l1 append_Nil)
  from policy_file_kept [OF this prod.collapse [symmetric], where nw = 2 and fs = "sample_fs 2 (JRaw ''{'')"]
  show ?thesis by (simp add: l2 p split: sum.splits)
qed

end
