(* ===== verification/Sponsor_Check.thy ===== *)
theory Sponsor_Check
  imports Js_Value Sponsor_Policy
begin

text \<open>
  The checks a sponsor runs on a transaction before it pays the fee
  (\<^verbatim>\<open>srv/midnight/worker/sponsor.ts\<close>): contract calls against the policy, shielded offers
  against token lists and same-transaction mints, unshielded offers against the ledger's balance and
  the payouts the called contracts claim, the two halves of a swap, and plain transfers.

  A transaction is the value the ledger library deserialised, with its method \<^verbatim>\<open>imbalances\<close> as a
  function when the value has one. Token derivation and address derivation are the ledger's; they are
  arguments and may throw.
\<close>

record sponsor_tx =
  tx_value :: jv
  tx_imbalances :: "(jv \<Rightarrow> jv result) option"

definition refused :: "string \<Rightarrow> js_error" where
  "refused m = \<lparr>err_code = ''SPONSOR_REFUSED'', err_message = m\<rparr>"

definition refusing :: "string \<Rightarrow> js_error" where
  "refusing m = refused (''refusing to sponsor: '' @ m)"

definition short_name :: "string \<Rightarrow> string" where
  "short_name s = take 16 s @ ELLIPSIS"

section \<open>Offers\<close>

definition OFFER_KEYS :: "string list" where
  "OFFER_KEYS = [''inputs'', ''outputs'', ''transient'', ''spends'', ''registrations'', ''deltas'']"

definition item_nonempty :: "jv \<Rightarrow> bool" where
  "item_nonempty v =
     (case array_of v of
        Some xs \<Rightarrow> xs \<noteq> []
      | None \<Rightarrow>
          if is_number (jprop v ''size'') then positive (jprop v ''size'')
          else if is_number (jprop v ''length'') then positive (jprop v ''length'')
          else True)"

fun offer_keys_loop :: "jv \<Rightarrow> string list \<Rightarrow> bool \<Rightarrow> bool" where
  "offer_keys_loop offer [] sawKnownKey = (\<not> sawKnownKey)"
| "offer_keys_loop offer (k # ks) sawKnownKey =
     (let v = jprop offer k in
      if v = VUndef then offer_keys_loop offer ks sawKnownKey
      else if v = VNull then offer_keys_loop offer ks True
      else item_nonempty v \<or> offer_keys_loop offer ks True)"

definition offerNonEmpty :: "jv \<Rightarrow> bool" where
  "offerNonEmpty offer \<longleftrightarrow> v_truthy offer \<and> offer_keys_loop offer OFFER_KEYS False"

definition sizeOf :: "jv \<Rightarrow> jv" where
  "sizeOf v =
     (case array_of v of
        Some xs \<Rightarrow> VNum (int (length xs))
      | None \<Rightarrow>
          if is_number (jprop v ''size'') then jprop v ''size''
          else if is_number (jprop v ''length'') then jprop v ''length''
          else VNull)"

definition contract_coin :: "jv \<Rightarrow> bool" where
  "contract_coin coin \<longleftrightarrow> \<not> v_nullish (jprop coin ''contractAddress'')"

section \<open>Mints of the calls\<close>

type_synonym mint_budget = "(string \<times> int) list"

type_synonym token_deriver = "string \<Rightarrow> string \<Rightarrow> string result"

fun mint_entries :: "token_deriver \<Rightarrow> string \<Rightarrow> (jv \<times> jv) list \<Rightarrow> mint_budget \<Rightarrow> mint_budget result" where
  "mint_entries derive address [] budget = Inr budget"
| "mint_entries derive address ((domainSeparator, amount) # es) budget =
     (case amount of
        VBig n \<Rightarrow>
          if n \<le> 0 then mint_entries derive address es budget
          else (case derive (bareHex_v domainSeparator) address of
                  Inl e \<Rightarrow> Inl e
                | Inr d \<Rightarrow>
                    (let t = bareHex d in
                     if \<not> HEX64_RE t then mint_entries derive address es budget
                     else mint_entries derive address es (map_put t (amount_of budget t + n) budget)))
      | _ \<Rightarrow> mint_entries derive address es budget)"

definition transcripts_of :: "jv \<Rightarrow> jv list" where
  "transcripts_of action = [jprop action ''guaranteedTranscript'', jprop action ''fallibleTranscript'']"

definition transcript_effect :: "string \<Rightarrow> jv \<Rightarrow> (jv \<times> jv) list" where
  "transcript_effect name transcript =
     (let v = jprop (jprop transcript ''effects'') name in if v_truthy v then (case v_entries v of Some es \<Rightarrow> es | None \<Rightarrow> []) else [])"

fun mint_transcripts :: "token_deriver \<Rightarrow> string \<Rightarrow> jv list \<Rightarrow> mint_budget \<Rightarrow> mint_budget result" where
  "mint_transcripts derive address [] budget = Inr budget"
| "mint_transcripts derive address (t # ts) budget =
     (case mint_entries derive address (transcript_effect ''shieldedMints'' t) budget of
        Inl e \<Rightarrow> Inl e
      | Inr budget' \<Rightarrow> mint_transcripts derive address ts budget')"

fun mint_actions :: "(string \<Rightarrow> bool) \<Rightarrow> token_deriver \<Rightarrow> jv list \<Rightarrow> mint_budget \<Rightarrow> mint_budget result" where
  "mint_actions sponsorable derive [] budget = Inr budget"
| "mint_actions sponsorable derive (action # actions) budget =
     (let address = text_or_empty (jprop action ''address'') in
      if address = [] \<or> \<not> sponsorable address then mint_actions sponsorable derive actions budget
      else (case mint_transcripts derive address (transcripts_of action) budget of
              Inl e \<Rightarrow> Inl e
            | Inr budget' \<Rightarrow> mint_actions sponsorable derive actions budget'))"

text \<open>The actions of an intent: a missing list is empty, a value that cannot be iterated throws.\<close>

definition actions_of :: "jv \<Rightarrow> jv list result" where
  "actions_of intent =
     (let a = jprop intent ''actions'' in
      if v_nullish a then Inr [] else case v_iter a of Some xs \<Rightarrow> Inr xs | None \<Rightarrow> Inl (js_Error ''actions is not iterable''))"

fun mint_intents :: "(string \<Rightarrow> bool) \<Rightarrow> token_deriver \<Rightarrow> jv list \<Rightarrow> mint_budget \<Rightarrow> mint_budget result" where
  "mint_intents sponsorable derive [] budget = Inr budget"
| "mint_intents sponsorable derive (intent # intents) budget =
     (case actions_of intent of
        Inl e \<Rightarrow> Inl e
      | Inr actions \<Rightarrow>
          (case mint_actions sponsorable derive actions budget of
             Inl e \<Rightarrow> Inl e
           | Inr budget' \<Rightarrow> mint_intents sponsorable derive intents budget'))"

definition declaredMints :: "jv \<Rightarrow> (string \<Rightarrow> bool) \<Rightarrow> token_deriver \<Rightarrow> mint_budget result" where
  "declaredMints tx sponsorable derive =
     (let intents = jprop tx ''intents'' in
      if \<not> v_truthy intents then Inr []
      else case v_values intents of None \<Rightarrow> Inr [] | Some vs \<Rightarrow> mint_intents sponsorable derive vs [])"

definition mintedTypesOf :: "jv \<Rightarrow> bool \<Rightarrow> token_deriver \<Rightarrow> string list result" where
  "mintedTypesOf tx allowContractMints derive =
     (if \<not> allowContractMints then Inr []
      else case declaredMints tx (\<lambda>_. True) derive of Inl e \<Rightarrow> Inl e | Inr b \<Rightarrow> Inr (map fst b))"

section \<open>Shielded offers\<close>

definition COIN_LISTS :: "string list" where
  "COIN_LISTS = [''inputs'', ''outputs'', ''transients'', ''transient'']"

definition coins_of :: "jv \<Rightarrow> string \<Rightarrow> jv list" where
  "coins_of offer coll = (case array_of (jprop offer coll) of Some xs \<Rightarrow> xs | None \<Rightarrow> [])"

definition delta_entry :: "string \<Rightarrow> string list \<Rightarrow> string option \<Rightarrow> jv \<times> jv \<Rightarrow> mint_budget \<Rightarrow> mint_budget result" where
  "delta_entry key tokenTypes nightType e mints =
     (let t = bareHex_v (fst e) in
      if nightType \<noteq> None \<and> nightType \<noteq> Some [] \<and> nightType = Some t then Inl (refusing (key @ '' moves NIGHT''))
      else if t \<in> set tokenTypes then Inr mints
      else case map_of mints t of
             None \<Rightarrow> Inl (refusing (key @ '' moves token type '' @ short_name t @ '', not in allowedTokenTypes''))
           | Some minted \<Rightarrow>
               (case snd e of
                  VBig d \<Rightarrow>
                    if - d \<le> 0 then Inl (refusing (key @ '' pays in token type '' @ short_name t
                      @ '', not in allowedTokenTypes (a mint in the same transaction covers only what it creates)''))
                    else if minted < - d then Inl (refusing (key @ '' creates '' @ int_str (- d) @ '' of token type '' @ short_name t
                      @ '', the transaction'' @ [CHR 0x27] @ ''s calls mint '' @ int_str minted))
                    else Inr (map_put t (minted + d) mints)
                | _ \<Rightarrow> Inl (refusing (key @ '' pays in token type '' @ short_name t
                      @ '', not in allowedTokenTypes (a mint in the same transaction covers only what it creates)''))))"

fun delta_entries :: "string \<Rightarrow> string list \<Rightarrow> string option \<Rightarrow> (jv \<times> jv) list \<Rightarrow> mint_budget \<Rightarrow> mint_budget result" where
  "delta_entries key tokenTypes nightType [] mints = Inr mints"
| "delta_entries key tokenTypes nightType (e # es) mints =
     (case delta_entry key tokenTypes nightType e mints of Inl err \<Rightarrow> Inl err | Inr mints' \<Rightarrow> delta_entries key tokenTypes nightType es mints')"

fun owned_coins :: "string \<Rightarrow> (string \<Rightarrow> bool) \<Rightarrow> jv list \<Rightarrow> unit result" where
  "owned_coins key sponsorable [] = Inr ()"
| "owned_coins key sponsorable (coin # coins) =
     (if \<not> contract_coin coin then owned_coins key sponsorable coins
      else let address = v_String (jprop coin ''contractAddress'') in
           if address = [] \<or> \<not> sponsorable address
           then Inl (refusing (key @ '' carries a coin owned by contract '' @ short_name address @ '', which is not sponsorable here''))
           else owned_coins key sponsorable coins)"

definition checkOfferTokens ::
    "jv \<Rightarrow> string \<Rightarrow> string list \<Rightarrow> string option \<Rightarrow> (string \<Rightarrow> bool) \<Rightarrow> mint_budget \<Rightarrow> mint_budget result" where
  "checkOfferTokens offer key tokenTypes nightType sponsorable mints =
     (case v_entries (jprop offer ''deltas'') of
        None \<Rightarrow> Inl (refusing (key @ '' exposes no deltas (token types not inspectable)''))
      | Some es \<Rightarrow>
          if es = [] \<and> \<not> list_ex (\<lambda>coll. list_ex contract_coin (coins_of offer coll)) COIN_LISTS
          then Inl (refusing (key @ '' nets to zero and carries no contract-owned coin (a shielded transfer alongside the call, not value the call moves)''))
          else (case delta_entries key tokenTypes nightType es mints of
                  Inl e \<Rightarrow> Inl e
                | Inr mints' \<Rightarrow>
                    (case owned_coins key sponsorable (concat (map (coins_of offer) COIN_LISTS)) of
                       Inl e \<Rightarrow> Inl e
                     | Inr _ \<Rightarrow> Inr mints')))"

section \<open>Swaps and transfers\<close>

definition SWAP_ENTRY_POINT :: string where "SWAP_ENTRY_POINT = ''<swap>''"
definition DEPLOY_ENTRY_POINT :: string where "DEPLOY_ENTRY_POINT = ''<deploy>''"
definition TRANSFER_ENTRY_POINT :: string where "TRANSFER_ENTRY_POINT = ''<transfer>''"

definition carries :: "jv \<Rightarrow> bool" where
  "carries v \<longleftrightarrow> \<not> v_nullish v \<and> sizeOf v \<noteq> VNum 0"

text \<open>\<open>refuse\<close> builds the error from the reason. The offer is answered with its inputs and outputs.\<close>

definition plainShieldedOffer :: "jv \<Rightarrow> int \<Rightarrow> (string \<Rightarrow> js_error) \<Rightarrow> string \<Rightarrow> (jv \<times> jv list \<times> jv list) result" where
  "plainShieldedOffer tx maxInputs refuse outputsWhy =
     (if carries (jprop tx ''intents'') then Inl (refuse ''carries an intent (a contract call, unshielded value or dust actions)'')
      else if carries (jprop tx ''fallibleOffer'') then Inl (refuse ''carries a fallible offer'')
      else let offer = jprop tx ''guaranteedOffer'' in
        if \<not> v_truthy offer then Inl (refuse ''carries no readable guaranteed offer'')
        else case (array_of (jprop offer ''inputs''), array_of (jprop offer ''outputs'')) of
          (Some inputs, Some outputs) \<Rightarrow>
            if carries (jprop offer ''transients'') then Inl (refuse ''carries a transient coin'')
            else if list_ex contract_coin (inputs @ outputs) then Inl (refuse ''carries a contract-owned coin'')
            else if length inputs < 1 \<or> maxInputs < int (length inputs)
            then Inl (refuse (''carries '' @ nat_str (length inputs) @ '' inputs; 1 to '' @ int_str maxInputs @ '' are sponsored (NIGHTGATE_SPONSOR_SWAP_MAX_INPUTS)''))
            else if length outputs < 1 \<or> 2 < length outputs
            then Inl (refuse (''carries '' @ nat_str (length outputs) @ '' outputs; '' @ outputsWhy))
            else Inr (offer, inputs, outputs)
        | _ \<Rightarrow> Inl (refuse ''carries no readable guaranteed offer''))"

text \<open>The deltas as amounts, when every one is a non-zero \<^verbatim>\<open>bigint\<close>.\<close>

fun typed_amounts :: "(jv \<times> jv) list \<Rightarrow> (string \<times> int) list option" where
  "typed_amounts [] = Some []"
| "typed_amounts ((t, v) # es) =
     (case v of
        VBig n \<Rightarrow> if n = 0 then None else map_option (\<lambda>r. (bareHex_v t, n) # r) (typed_amounts es)
      | _ \<Rightarrow> None)"

fun half_type_problem :: "string list option \<Rightarrow> string option \<Rightarrow> string list \<Rightarrow> string option" where
  "half_type_problem tokenTypes nightType [] = None"
| "half_type_problem tokenTypes nightType (t # ts) =
     (if nightType \<noteq> Some [] \<and> nightType = Some t then Some ''moves NIGHT''
      else case tokenTypes of
             Some allowed \<Rightarrow>
               if t \<notin> set allowed then Some (''moves token type '' @ short_name t @ '', not in allowedTokenTypes'')
               else half_type_problem tokenTypes nightType ts
           | None \<Rightarrow> half_type_problem tokenTypes nightType ts)"

record half_terms =
  ht_give :: "string \<times> int"
  ht_want :: "string \<times> int"

definition swapHalfTerms :: "jv \<Rightarrow> string \<Rightarrow> string list option \<Rightarrow> string option \<Rightarrow> int \<Rightarrow> string \<Rightarrow> half_terms result" where
  "swapHalfTerms half lbl tokenTypes nightType maxInputs prefix =
     (let refuse = (\<lambda>why. refused (prefix @ '': the '' @ lbl @ '' '' @ why)) in
      case plainShieldedOffer half maxInputs refuse ''a half has the coin it wants and at most its change'' of
        Inl e \<Rightarrow> Inl e
      | Inr (offer, inputs, outputs) \<Rightarrow>
          (case v_entries (jprop offer ''deltas'') of
             None \<Rightarrow> Inl (refuse ''exposes no deltas (terms not readable)'')
           | Some es \<Rightarrow>
               (case typed_amounts es of
                  None \<Rightarrow> Inl (refuse ''exposes a delta that is not a non-zero amount'')
                | Some typed \<Rightarrow>
                    (case (filter (\<lambda>(t, n). 0 < n) typed, filter (\<lambda>(t, n). n < 0) typed) of
                       ([give], [(wt, wn)]) \<Rightarrow>
                         if fst give = wt then Inl (refuse ''gives and wants the same token type'')
                         else (case half_type_problem tokenTypes nightType [fst give, wt] of
                                 Some why \<Rightarrow> Inl (refuse why)
                               | None \<Rightarrow> Inr \<lparr>ht_give = give, ht_want = (wt, - wn)\<rparr>)
                     | (gives, wants) \<Rightarrow>
                         Inl (refuse (''gives '' @ nat_str (length gives) @ '' token type(s) and wants '' @ nat_str (length wants)
                           @ ''; a half gives one and wants one''))))))"

definition swapHalfNullifiers :: "jv \<Rightarrow> string list" where
  "swapHalfNullifiers half =
     js_set (filter HEX64_RE (map (\<lambda>i. bareHex_v (jprop i ''nullifier'')) (coins_of (jprop half ''guaranteedOffer'') ''inputs'')))"

record swap_terms =
  sw_gives :: "string \<times> string"
  sw_wants :: "string \<times> string"

definition no_empty :: "string option \<Rightarrow> string option" where
  "no_empty s = (if s = None \<or> s = Some [] then None else map_option bareHex s)"

definition max_half_inputs :: "int option \<Rightarrow> int" where
  "max_half_inputs m = (case m of Some n \<Rightarrow> if 1 \<le> n then n else 4 | None \<Rightarrow> 4)"

definition mirrored :: "half_terms \<Rightarrow> half_terms \<Rightarrow> bool" where
  "mirrored m t \<longleftrightarrow> ht_give m = ht_want t \<and> ht_want m = ht_give t"

definition offer_text :: "half_terms \<Rightarrow> string" where
  "offer_text h = ''gives '' @ int_str (snd (ht_give h)) @ '' of '' @ short_name (fst (ht_give h)) @ '' for '' @ int_str (snd (ht_want h)) @ '' of ''
     @ short_name (fst (ht_want h))"

definition checkSwapHalves :: "jv \<Rightarrow> jv \<Rightarrow> string list \<Rightarrow> string option \<Rightarrow> int option \<Rightarrow> swap_terms result" where
  "checkSwapHalves maker taker allowedTokenTypes nightTokenType maxIn =
     (let tokenTypes = map bareHex allowedTokenTypes; nightType = no_empty nightTokenType; maxInputs = max_half_inputs maxIn in
      if tokenTypes = [] then Inl (refusing ''a swap needs its token types in allowedTokenTypes, and none is listed'')
      else case swapHalfTerms maker ''maker half'' (Some tokenTypes) nightType maxInputs ''refusing to sponsor'' of
             Inl e \<Rightarrow> Inl e
           | Inr m \<Rightarrow>
               (case swapHalfTerms taker ''taker half'' (Some tokenTypes) nightType maxInputs ''refusing to sponsor'' of
                  Inl e \<Rightarrow> Inl e
                | Inr t \<Rightarrow>
                    if \<not> mirrored m t
                    then Inl (refusing (''the halves do not mirror each other (maker '' @ offer_text m @ '', taker '' @ offer_text t @ '')''))
                    else Inr \<lparr>sw_gives = (fst (ht_give m), int_str (snd (ht_give m))), sw_wants = (fst (ht_want m), int_str (snd (ht_want m)))\<rparr>))"

text \<open>\<^verbatim>\<open>Array.from(tx.imbalances(0).entries())\<close>.\<close>

definition read_imbalances :: "sponsor_tx \<Rightarrow> (jv \<times> jv) list result" where
  "read_imbalances tx =
     (case tx_imbalances tx of
        None \<Rightarrow> Inl (js_Error ''imbalances is not a function'')
      | Some f \<Rightarrow>
          (case f (VNum 0) of
             Inl e \<Rightarrow> Inl e
           | Inr m \<Rightarrow> (case v_entries m of None \<Rightarrow> Inl (js_Error ''entries is not a function'') | Some es \<Rightarrow> Inr es)))"

definition assertSwapBalanced :: "int \<Rightarrow> sponsor_tx \<Rightarrow> int \<Rightarrow> unit result" where
  "assertSwapBalanced maxBytes merged byteLength =
     (if maxBytes < byteLength
      then Inl (refusing (''the merged swap is '' @ int_str byteLength @ ''B, over the '' @ int_str maxBytes @ ''B budget (NIGHTGATE_SPONSOR_MAX_TX_BYTES)''))
      else if carries (jprop (tx_value merged) ''intents'') then Inl (refusing ''the merged swap carries an intent'')
      else if sizeOf (jprop (jprop (tx_value merged) ''guaranteedOffer'') ''deltas'') \<noteq> VNum 0
      then Inl (refusing ''the merged swap does not net to zero'')
      else case read_imbalances merged of
             Inl e \<Rightarrow> Inl (refusing (''the merged swap'' @ [CHR 0x27] @ ''s balance is not readable ('' @ take 80 (err_message e) @ '')''))
           | Inr es \<Rightarrow> if list_ex (\<lambda>(_, v). v \<noteq> VBig 0) es then Inl (refusing ''the merged swap does not balance'') else Inr ())"

record transfer_shape =
  ts_inputs :: nat
  ts_outputs :: nat
  ts_nullifiers :: "string list"

definition checkTransferShape :: "sponsor_tx \<Rightarrow> int \<Rightarrow> string \<Rightarrow> transfer_shape result" where
  "checkTransferShape tx maxInputs prefix =
     (let refuse = (\<lambda>why. refused (prefix @ '': the transfer '' @ why)) in
      case plainShieldedOffer (tx_value tx) maxInputs refuse (''a transfer has the recipient'' @ [CHR 0x27] @ ''s coin and at most its change'') of
        Inl e \<Rightarrow> Inl e
      | Inr (offer, inputs, outputs) \<Rightarrow>
          if sizeOf (jprop offer ''deltas'') \<noteq> VNum 0
          then Inl (refuse ''does not net to zero (a net change in a type makes it a swap half, not a transfer)'')
          else case read_imbalances tx of
                 Inl e \<Rightarrow> Inl (refuse (''has a balance that is not readable ('' @ take 80 (err_message e) @ '')''))
               | Inr es \<Rightarrow>
                   if list_ex (\<lambda>(_, v). v \<noteq> VBig 0) es then Inl (refuse ''does not balance'')
                   else Inr \<lparr>ts_inputs = length inputs, ts_outputs = length outputs, ts_nullifiers = swapHalfNullifiers (tx_value tx)\<rparr>)"

section \<open>Unshielded offers\<close>

definition utxoValue :: "jv \<Rightarrow> string \<Rightarrow> int result" where
  "utxoValue v what =
     (case v of
        VBig n \<Rightarrow> Inr n
      | VNum n \<Rightarrow> Inr n
      | VStr s \<Rightarrow> if s \<noteq> [] \<and> list_all is_digit s then Inr (digits_val s 0) else Inl (refusing (what @ '' carries a value that is not readable''))
      | _ \<Rightarrow> Inl (refusing (what @ '' carries a value that is not readable'')))"

fun imbalance_entries :: "string \<Rightarrow> (jv \<times> jv) list \<Rightarrow> int option result" where
  "imbalance_entries t [] = Inr None"
| "imbalance_entries t ((tokenType, val) # es) =
     (if jprop tokenType ''tag'' = VStr ''unshielded'' \<and> bareHex_v (jprop tokenType ''raw'') = t
      then (case utxoValue val (''the ledger balance of '' @ short_name t) of Inl e \<Rightarrow> Inl e | Inr n \<Rightarrow> Inr (Some n))
      else imbalance_entries t es)"

definition ledgerImbalance :: "jv \<Rightarrow> string \<Rightarrow> int option result" where
  "ledgerImbalance balance t =
     (case v_entries balance of None \<Rightarrow> Inl (js_Error ''balance.entries is not a function'') | Some es \<Rightarrow> imbalance_entries t es)"

type_synonym claimed_payouts = "(string \<times> int) list"

definition payout_key :: "string \<Rightarrow> string \<Rightarrow> string" where
  "payout_key t to = t @ '':'' @ to"

fun payout_entries :: "(jv \<times> jv) list \<Rightarrow> claimed_payouts \<Rightarrow> claimed_payouts" where
  "payout_entries [] budget = budget"
| "payout_entries ((k, amount) # es) budget =
     (let parts = (case array_of k of Some xs \<Rightarrow> xs | None \<Rightarrow> []); tokenType = elem_at parts 0; recipient = elem_at parts 1 in
      case amount of
        VBig n \<Rightarrow>
          if jprop tokenType ''tag'' \<noteq> VStr ''unshielded'' \<or> n \<le> 0 then payout_entries es budget
          else (let key = payout_key (bareHex_v (jprop tokenType ''raw'')) (bareHex_v (jprop recipient ''address''))
                in payout_entries es (map_put key (amount_of budget key + n) budget))
      | _ \<Rightarrow> payout_entries es budget)"

fun payout_actions :: "string list \<Rightarrow> jv list \<Rightarrow> claimed_payouts \<Rightarrow> claimed_payouts" where
  "payout_actions contracts [] budget = budget"
| "payout_actions contracts (action # actions) budget =
     (if text_or_empty (jprop action ''address'') \<notin> set contracts then payout_actions contracts actions budget
      else payout_actions contracts actions
        (fold (\<lambda>t b. payout_entries (transcript_effect ''claimedUnshieldedSpends'' t) b) (transcripts_of action) budget))"

definition claimedPayouts :: "jv \<Rightarrow> string list \<Rightarrow> claimed_payouts" where
  "claimedPayouts actions contracts = payout_actions contracts (case array_of actions of Some xs \<Rightarrow> xs | None \<Rightarrow> []) []"

record unshielded_move =
  um_type :: string
  um_amount :: string
  um_to :: string

record unshielded_ctx =
  uc_nightType :: "string option"
  uc_tokenTypes :: "string list"
  uc_listedContract :: "string \<Rightarrow> bool"
  uc_calledContracts :: "string list"
  uc_ledgerBalance :: jv
  uc_addressFromKey :: "(string \<Rightarrow> string result) option"
  uc_sponsorInputKeys :: "string list"

definition allowedType :: "unshielded_ctx \<Rightarrow> string \<Rightarrow> bool" where
  "allowedType ctx t \<longleftrightarrow> uc_nightType ctx = Some t \<or> t \<in> set (uc_tokenTypes ctx)"

definition neither_night :: "string \<Rightarrow> string" where
  "neither_night t = short_name t @ '', which is neither NIGHT nor in allowedUnshieldedTokenTypes''"

fun input_loop :: "unshielded_ctx \<Rightarrow> string \<Rightarrow> jv list \<Rightarrow> (string \<times> int) list \<Rightarrow> string list \<Rightarrow> ((string \<times> int) list \<times> string list) result" where
  "input_loop ctx key [] sums owners = Inr (sums, owners)"
| "input_loop ctx key (inp # inputs) sums owners =
     (let t = bareHex_v (jprop inp ''type''); owner = bareHex_v (jprop inp ''owner'') in
      if \<not> allowedType ctx t then Inl (refusing (key @ '' spends token type '' @ neither_night t))
      else if \<not> HEX64_RE owner then Inl (refusing (key @ '' has an input without a readable owner key''))
      else if owner \<in> set (uc_sponsorInputKeys ctx) then Inl (refusing (key @ '' spends a UTXO of the sponsor itself''))
      else case (case uc_addressFromKey ctx of None \<Rightarrow> Inr owners
                 | Some f \<Rightarrow> (case f owner of Inl e \<Rightarrow> Inl e | Inr a \<Rightarrow> Inr (add_new (bareHex a) owners))) of
             Inl e \<Rightarrow> Inl e
           | Inr owners' \<Rightarrow>
               (case utxoValue (jprop inp ''value'') (key @ '' input'') of
                  Inl e \<Rightarrow> Inl e
                | Inr v \<Rightarrow> input_loop ctx key inputs (map_put t (amount_of sums t + v) sums) owners'))"

record offer_state =
  os_sums :: "(string \<times> int) list"
  os_claimed :: claimed_payouts
  os_moves :: "unshielded_move list"
  os_payouts :: nat

definition output_step :: "unshielded_ctx \<Rightarrow> string \<Rightarrow> string list \<Rightarrow> jv \<Rightarrow> offer_state \<Rightarrow> offer_state result" where
  "output_step ctx key owners out st =
     (let t = bareHex_v (jprop out ''type''); to = bareHex_v (jprop out ''owner'') in
      if \<not> allowedType ctx t then Inl (refusing (key @ '' creates token type '' @ neither_night t))
      else if \<not> HEX64_RE to then Inl (refusing (key @ '' has an output without a readable owner''))
      else case utxoValue (jprop out ''value'') (key @ '' output'') of
        Inl e \<Rightarrow> Inl e
      | Inr v \<Rightarrow>
          (let left = amount_of (os_claimed st) (payout_key t to) in
           if v \<le> left
           then Inr (st\<lparr>os_claimed := map_put (payout_key t to) (left - v) (os_claimed st),
                        os_sums := (case map_of (os_sums st) t of Some _ \<Rightarrow> os_sums st | None \<Rightarrow> map_put t 0 (os_sums st)),
                        os_payouts := Suc (os_payouts st)\<rparr>)
           else
             (let st' = st\<lparr>os_sums := map_put t (amount_of (os_sums st) t - v) (os_sums st)\<rparr> in
              if to \<in> set (uc_calledContracts ctx) \<or> uc_listedContract ctx to
              then Inr (st'\<lparr>os_moves := os_moves st @ [\<lparr>um_type = t, um_amount = int_str v, um_to = to\<rparr>]\<rparr>)
              else if to \<in> set owners then Inr st'
              else Inl (refusing (key @ '' pays '' @ short_name to
                     @ '', which is neither a sponsorable contract nor an owner of its inputs, and no called contract claims that payout'')))))"

fun output_loop :: "unshielded_ctx \<Rightarrow> string \<Rightarrow> string list \<Rightarrow> jv list \<Rightarrow> offer_state \<Rightarrow> offer_state result" where
  "output_loop ctx key owners [] st = Inr st"
| "output_loop ctx key owners (out # outputs) st =
     (case output_step ctx key owners out st of Inl e \<Rightarrow> Inl e | Inr st' \<Rightarrow> output_loop ctx key owners outputs st')"

fun net_loop :: "unshielded_ctx \<Rightarrow> string \<Rightarrow> (string \<times> int) list \<Rightarrow> unshielded_move list \<Rightarrow> unshielded_move list result" where
  "net_loop ctx key [] moves = Inr moves"
| "net_loop ctx key ((t, net) # rest) moves =
     (if net < 0 then Inl (refusing (key @ '' creates more of token type '' @ short_name t @ '' than it spends, beyond what the called contracts claim''))
      else case ledgerImbalance (uc_ledgerBalance ctx) t of
        Inl e \<Rightarrow> Inl e
      | Inr None \<Rightarrow> Inl (refusing (''the ledger reports no balance of token type '' @ short_name t @ '' for '' @ key))
      | Inr (Some imbalance) \<Rightarrow>
          if imbalance \<noteq> 0
          then Inl (refusing (key @ '' does not balance in token type '' @ short_name t @ '': the offer and the calls'' @ [CHR 0x27] @ '' intake leave a ''
                 @ (if 0 < imbalance then ''surplus'' else ''deficit'') @ '' of '' @ int_str \<bar>imbalance\<bar>))
          else if net = 0 then net_loop ctx key rest moves
          else case uc_calledContracts ctx of
                 [c] \<Rightarrow> net_loop ctx key rest (moves @ [\<lparr>um_type = t, um_amount = int_str net, um_to = c\<rparr>])
               | cs \<Rightarrow> Inl (refusing (key @ '' pays '' @ int_str net @ '' of token type '' @ short_name t @ '' into '' @ nat_str (length cs)
                        @ '' called contracts; one contract per intent takes value'')))"

definition checkUnshieldedOffer ::
    "jv \<Rightarrow> string \<Rightarrow> unshielded_ctx \<Rightarrow> claimed_payouts \<Rightarrow> (unshielded_move list \<times> claimed_payouts) result" where
  "checkUnshieldedOffer offer key ctx claimed =
     (case (array_of (jprop offer ''inputs''), array_of (jprop offer ''outputs'')) of
        (Some inputs, Some outputs) \<Rightarrow>
          (case input_loop ctx key inputs [] [] of
             Inl e \<Rightarrow> Inl e
           | Inr (sums, owners) \<Rightarrow>
               (case output_loop ctx key owners outputs \<lparr>os_sums = sums, os_claimed = claimed, os_moves = [], os_payouts = 0\<rparr> of
                  Inl e \<Rightarrow> Inl e
                | Inr st \<Rightarrow>
                    if inputs = [] \<and> os_payouts st = 0
                    then Inl (refusing (key @ '' spends nothing and pays out nothing a called contract claims''))
                    else (case net_loop ctx key (os_sums st) (os_moves st) of
                            Inl e \<Rightarrow> Inl e
                          | Inr moves \<Rightarrow> Inr (moves, os_claimed st))))
      | _ \<Rightarrow> Inl (refusing (key @ '' is not inspectable (no inputs/outputs)'')))"

definition ledgerBalance :: "sponsor_tx \<Rightarrow> jv \<Rightarrow> jv result" where
  "ledgerBalance tx segment =
     (case tx_imbalances tx of
        None \<Rightarrow> Inl (refusing ''transaction structure is not inspectable (no imbalances)'')
      | Some f \<Rightarrow>
          (case f segment of
             Inl e \<Rightarrow> Inl (refusing (''the balance of segment '' @ v_String segment @ '' is not readable ('' @ take 80 (err_message e) @ '')''))
           | Inr m \<Rightarrow> Inr m))"

section \<open>The shape of a sponsored transaction\<close>

text \<open>
  The policy lists and flags are those of the effective policy; the rest of \<^verbatim>\<open>options\<close> and the two
  size limits of the configuration follow.
\<close>

record shape_options =
  so_policy :: sponsor_policy
  so_maxDeploys :: "int option"
  so_nightTokenType :: "string option"
  so_deriveTokenType :: "token_deriver option"
  so_addressFromKey :: "(string \<Rightarrow> string result) option"
  so_sponsorInputKeys :: "string list"
  so_maxTxBytes :: int
  so_maxDeployBytes :: int

record sponsored_call =
  sc_address :: string
  sc_entryPoint :: string

definition contractSponsorable :: "sponsor_policy \<Rightarrow> string \<Rightarrow> bool" where
  "contractSponsorable p a \<longleftrightarrow> sp_allowedContracts p = [] \<or> a \<in> set (sp_allowedContracts p) \<or> a \<in> set (sp_ownContracts p)"

definition listedContract :: "sponsor_policy \<Rightarrow> string \<Rightarrow> bool" where
  "listedContract p a \<longleftrightarrow> a \<in> set (sp_allowedContracts p) \<or> a \<in> set (sp_ownContracts p)"

definition max_deploys :: "shape_options \<Rightarrow> int" where
  "max_deploys o' = (case so_maxDeploys o' of Some n \<Rightarrow> if 0 \<le> n then n else 1 | None \<Rightarrow> 1)"

text \<open>The parts of an offer property: the values of a map, or the offer itself.\<close>

definition offer_parts :: "jv \<Rightarrow> jv list" where
  "offer_parts offer = (case v_entries offer of Some es \<Rightarrow> map snd es | None \<Rightarrow> [offer])"

fun check_parts :: "string \<Rightarrow> string list \<Rightarrow> string option \<Rightarrow> (string \<Rightarrow> bool) \<Rightarrow> jv list \<Rightarrow> mint_budget \<Rightarrow> mint_budget result" where
  "check_parts key tokenTypes nightType sponsorable [] mints = Inr mints"
| "check_parts key tokenTypes nightType sponsorable (part # parts) mints =
     (if \<not> offerNonEmpty part then check_parts key tokenTypes nightType sponsorable parts mints
      else if tokenTypes = [] \<and> mints = [] then Inl (refusing (''transaction carries a '' @ key @ '' (shielded value transfer)''))
      else case checkOfferTokens part key tokenTypes nightType sponsorable mints of
             Inl e \<Rightarrow> Inl e
           | Inr mints' \<Rightarrow> check_parts key tokenTypes nightType sponsorable parts mints')"

definition SHIELDED_KEYS :: "string list" where
  "SHIELDED_KEYS = [''guaranteedOffer'', ''fallibleOffer'', ''guaranteedCoins'', ''fallibleCoins'']"

fun check_offers :: "jv \<Rightarrow> string list \<Rightarrow> string option \<Rightarrow> (string \<Rightarrow> bool) \<Rightarrow> string list \<Rightarrow> mint_budget \<Rightarrow> mint_budget result" where
  "check_offers tx tokenTypes nightType sponsorable [] mints = Inr mints"
| "check_offers tx tokenTypes nightType sponsorable (key # keys) mints =
     (if v_nullish (jprop tx key) then check_offers tx tokenTypes nightType sponsorable keys mints
      else case check_parts key tokenTypes nightType sponsorable (offer_parts (jprop tx key)) mints of
             Inl e \<Rightarrow> Inl e
           | Inr mints' \<Rightarrow> check_offers tx tokenTypes nightType sponsorable keys mints')"

definition entry_name :: "jv \<Rightarrow> string" where
  "entry_name action = (case jprop action ''entryPoint'' of VStr s \<Rightarrow> s | VBytes bs \<Rightarrow> text_decode bs | _ \<Rightarrow> [])"

definition action_kind :: "jv \<Rightarrow> jv" where
  "action_kind action =
     (let k = jprop (jprop action ''constructor'') ''name'' in if v_truthy k then k else VStr (v_typeof action))"

definition is_maintenance :: "jv \<Rightarrow> bool" where
  "is_maintenance action \<longleftrightarrow> action_kind action = VStr ''MaintenanceUpdate'' \<or> jprop action ''updates'' \<noteq> VUndef"

definition is_deploy :: "jv \<Rightarrow> bool" where
  "is_deploy action \<longleftrightarrow> action_kind action = VStr ''ContractDeploy''
     \<or> (jprop action ''initialState'' \<noteq> VUndef \<and> jprop action ''address'' \<noteq> VUndef)"

text \<open>
  The rules per contract are a plain object, so reading one finds the inherited properties too: a function,
  on which \<^verbatim>\<open>includes\<close> throws.
\<close>

definition rule_throws :: "sponsor_policy \<Rightarrow> string \<Rightarrow> bool" where
  "rule_throws p a \<longleftrightarrow> sp_contractCircuits p \<noteq> None \<and> rule_of p a = None \<and> a \<in> set OBJECT_PROPERTIES"

record intent_state =
  is_deployCount :: int
  is_calls :: "sponsored_call list"
  is_called :: "string list"

definition check_deploy :: "shape_options \<Rightarrow> int \<Rightarrow> jv \<Rightarrow> intent_state \<Rightarrow> intent_state result" where
  "check_deploy o' byteLength action st =
     (let address = text_or_empty (jprop action ''address''); n = is_deployCount st + 1 in
      if address = [] then Inl (refusing ''deploy action carries no contract address'')
      else if max_deploys o' < n
      then Inl (refusing (''transaction carries '' @ int_str n @ ''+ contract deploys; at most '' @ int_str (max_deploys o') @ '' per sponsored transaction''))
      else if so_maxDeployBytes o' < byteLength
      then Inl (refusing (''deploy transaction is '' @ int_str byteLength @ ''B, over the '' @ int_str (so_maxDeployBytes o')
             @ ''B deploy budget (NIGHTGATE_SPONSOR_MAX_DEPLOY_BYTES)''))
      else Inr (st\<lparr>is_deployCount := n, is_calls := is_calls st @ [\<lparr>sc_address = address, sc_entryPoint = DEPLOY_ENTRY_POINT\<rparr>]\<rparr>))"

definition check_call :: "shape_options \<Rightarrow> string \<Rightarrow> jv \<Rightarrow> intent_state \<Rightarrow> intent_state result" where
  "check_call o' name action st =
     (let p = so_policy o'; address = text_or_empty (jprop action ''address'') in
      if \<not> contract_permitted p address then Inl (refusing (''contract '' @ take 16 address @ '' is not in the allow-list''))
      else if rule_throws p address then Inl (js_Error ''rule.includes is not a function'')
      else if address \<notin> set (sp_ownContracts p) \<and> \<not> circuit_permitted p address name
      then Inl (refusing (''circuit '' @ quoted name @ '' is not sponsorable on contract '' @ take 16 address))
      else Inr (st\<lparr>is_calls := is_calls st @ [\<lparr>sc_address = address, sc_entryPoint = name\<rparr>], is_called := add_new address (is_called st)\<rparr>))"

definition check_action :: "shape_options \<Rightarrow> int \<Rightarrow> jv \<Rightarrow> intent_state \<Rightarrow> intent_state result" where
  "check_action o' byteLength action st =
     (let name = entry_name action in
      if name \<noteq> [] then check_call o' name action st
      else if is_maintenance action then Inl (refusing ''transaction carries a contract maintenance update (never sponsorable)'')
      else if is_deploy action \<and> sp_allowDeploy (so_policy o') then check_deploy o' byteLength action st
      else Inl (refusing (''transaction carries a non-call action ('' @ v_String (action_kind action) @ '')''
             @ (if is_deploy action then ''; deploys need allowDeploy on the grant and NIGHTGATE_SPONSOR_ALLOW_DEPLOY on the server'' else []))))"

fun check_actions :: "shape_options \<Rightarrow> int \<Rightarrow> jv list \<Rightarrow> intent_state \<Rightarrow> intent_state result" where
  "check_actions o' byteLength [] st = Inr st"
| "check_actions o' byteLength (action # actions) st =
     (case check_action o' byteLength action st of Inl e \<Rightarrow> Inl e | Inr st' \<Rightarrow> check_actions o' byteLength actions st')"

text \<open>\<^verbatim>\<open>Number(key)\<close>; the keys of the intents are numbers.\<close>

definition v_Number :: "jv \<Rightarrow> jv" where
  "v_Number v =
     (case v of
        VNum n \<Rightarrow> VNum n
      | VBig n \<Rightarrow> VNum n
      | VNull \<Rightarrow> VNum 0
      | VBool b \<Rightarrow> VNum (if b then 1 else 0)
      | VStr s \<Rightarrow> (let t = trim s in if list_all is_digit t then VNum (digits_val t 0) else VNaN)
      | _ \<Rightarrow> VNaN)"

definition unshielded_context :: "shape_options \<Rightarrow> string list \<Rightarrow> jv \<Rightarrow> unshielded_ctx" where
  "unshielded_context o' called balance =
     \<lparr>uc_nightType = no_empty (so_nightTokenType o'), uc_tokenTypes = map bareHex (sp_allowedUnshieldedTokenTypes (so_policy o')),
      uc_listedContract = listedContract (so_policy o'), uc_calledContracts = called, uc_ledgerBalance = balance,
      uc_addressFromKey = so_addressFromKey o', uc_sponsorInputKeys = so_sponsorInputKeys o'\<rparr>"

fun check_unshielded ::
    "shape_options \<Rightarrow> sponsor_tx \<Rightarrow> jv \<Rightarrow> jv \<Rightarrow> string list \<Rightarrow> string list \<Rightarrow> claimed_payouts \<Rightarrow> unshielded_move list \<Rightarrow> unshielded_move list result" where
  "check_unshielded o' tx segmentId intent called [] claimed moves = Inr moves"
| "check_unshielded o' tx segmentId intent called (key # keys) claimed moves =
     (case ledgerBalance tx (if key = ''guaranteedUnshieldedOffer'' then VNum 0 else v_Number segmentId) of
        Inl e \<Rightarrow> Inl e
      | Inr balance \<Rightarrow>
          (case checkUnshieldedOffer (jprop intent key) key (unshielded_context o' called balance) claimed of
             Inl e \<Rightarrow> Inl e
           | Inr (ms, claimed') \<Rightarrow> check_unshielded o' tx segmentId intent called keys claimed' (moves @ ms)))"

definition UNSHIELDED_KEYS :: "string list" where
  "UNSHIELDED_KEYS = [''guaranteedUnshieldedOffer'', ''fallibleUnshieldedOffer'']"

record shape_state =
  ss_deployCount :: int
  ss_calls :: "sponsored_call list"
  ss_moves :: "unshielded_move list"

definition check_intent :: "shape_options \<Rightarrow> sponsor_tx \<Rightarrow> int \<Rightarrow> jv \<Rightarrow> jv \<Rightarrow> shape_state \<Rightarrow> shape_state result" where
  "check_intent o' tx byteLength segmentId intent st =
     (if offerNonEmpty (jprop intent ''dustActions'') then Inl (refusing ''transaction carries dustActions alongside its contract calls'')
      else let unshieldedKeys = filter (\<lambda>key. offerNonEmpty (jprop intent key)) UNSHIELDED_KEYS in
        if unshieldedKeys \<noteq> [] \<and> \<not> sp_allowUnshieldedOffers (so_policy o')
        then Inl (refusing (''transaction carries '' @ hd unshieldedKeys @ '' alongside its contract calls; moving unshielded tokens needs allowUnshieldedOffers ''
               @ ''on the grant and NIGHTGATE_SPONSOR_ALLOW_UNSHIELDED_OFFERS on the server''))
        else case actions_of intent of
          Inl e \<Rightarrow> Inl e
        | Inr actions \<Rightarrow>
            (case check_actions o' byteLength actions \<lparr>is_deployCount = ss_deployCount st, is_calls = ss_calls st, is_called = []\<rparr> of
               Inl e \<Rightarrow> Inl e
             | Inr ist \<Rightarrow>
                 if unshieldedKeys \<noteq> [] \<and> is_called ist = []
                 then Inl (refusing (hd unshieldedKeys @ '' sits in an intent without a contract call''))
                 else (case check_unshielded o' tx segmentId intent (is_called ist) unshieldedKeys
                              (claimedPayouts (jprop intent ''actions'') (is_called ist)) (ss_moves st) of
                         Inl e \<Rightarrow> Inl e
                       | Inr moves \<Rightarrow> Inr \<lparr>ss_deployCount = is_deployCount ist, ss_calls = is_calls ist, ss_moves = moves\<rparr>)))"

fun check_intents :: "shape_options \<Rightarrow> sponsor_tx \<Rightarrow> int \<Rightarrow> (jv \<times> jv) list \<Rightarrow> shape_state \<Rightarrow> shape_state result" where
  "check_intents o' tx byteLength [] st = Inr st"
| "check_intents o' tx byteLength ((segmentId, intent) # rest) st =
     (case check_intent o' tx byteLength segmentId intent st of Inl e \<Rightarrow> Inl e | Inr st' \<Rightarrow> check_intents o' tx byteLength rest st')"

text \<open>The answer carries the calls and, as \<^verbatim>\<open>collectUnshielded\<close>, the moves into contracts.\<close>

definition tx_mints :: "shape_options \<Rightarrow> jv \<Rightarrow> mint_budget result" where
  "tx_mints o' tx =
     (case so_deriveTokenType o' of
        Some derive \<Rightarrow> if sp_allowContractMints (so_policy o') then declaredMints tx (contractSponsorable (so_policy o')) derive else Inr []
      | None \<Rightarrow> Inr [])"

definition checkSponsorableShape :: "sponsor_tx \<Rightarrow> int \<Rightarrow> shape_options \<Rightarrow> (sponsored_call list \<times> unshielded_move list) result" where
  "checkSponsorableShape tx byteLength o' =
     (let p = so_policy o'; v = tx_value tx; intents = jprop v ''intents'' in
      if so_maxTxBytes o' < byteLength
      then Inl (refusing (''transaction is '' @ int_str byteLength @ ''B, over the '' @ int_str (so_maxTxBytes o') @ ''B budget (NIGHTGATE_SPONSOR_MAX_TX_BYTES)''))
      else if \<not> v_truthy intents then Inl (refusing ''transaction structure is not inspectable (no intents)'')
      else case v_entries intents of
        None \<Rightarrow> Inl (refusing ''transaction structure is not inspectable (no intents)'')
      | Some entries \<Rightarrow>
          (case tx_mints o' v of
             Inl e \<Rightarrow> Inl e
           | Inr mints \<Rightarrow>
               (case check_offers v (map bareHex (sp_allowedTokenTypes p)) (no_empty (so_nightTokenType o')) (contractSponsorable p) SHIELDED_KEYS mints of
                  Inl e \<Rightarrow> Inl e
                | Inr _ \<Rightarrow>
                    (case check_intents o' tx byteLength entries \<lparr>ss_deployCount = 0, ss_calls = [], ss_moves = []\<rparr> of
                       Inl e \<Rightarrow> Inl e
                     | Inr st \<Rightarrow>
                         if ss_calls st = [] then Inl (refusing ''the transaction carries no contract call'')
                         else Inr (ss_calls st, ss_moves st)))))"

section \<open>Segment of the dust spend\<close>

fun free_from :: "nat \<Rightarrow> jv list \<Rightarrow> int \<Rightarrow> int option" where
  "free_from 0 used i = None"
| "free_from (Suc n) used i = (if VNum i \<notin> set used then Some i else free_from n used (i + 1))"

definition MAX_SEGMENT :: nat where "MAX_SEGMENT = 65535"

definition used_segments :: "jv \<Rightarrow> jv list" where
  "used_segments tx =
     (let intents = jprop tx ''intents'' in
      if v_truthy intents then (case v_entries intents of Some es \<Rightarrow> map (v_Number \<circ> fst) es | None \<Rightarrow> []) else [])"

definition freeSegmentId :: "jv \<Rightarrow> int result" where
  "freeSegmentId tx =
     (case free_from MAX_SEGMENT (used_segments tx) 1 of
        Some i \<Rightarrow> Inr i
      | None \<Rightarrow> Inl (refusing ''the transaction uses every segment id, none is left for the dust spend''))"

end
