(* ===== verification/Sponsor_Safety.thy ===== *)
theory Sponsor_Safety
  imports Sponsor_Check "HOL-Library.Multiset"
begin

text \<open>
  What a successful check of a sponsored transaction guarantees: every action is a permitted call or an
  allowed deploy; shielded tokens outside the allow-list are created only as far as the calls
  mint them; unshielded value goes to contracts, back to its owners, or where a called contract
  claims it; the halves of a swap cancel out.
\<close>

lemmas result_splits = sum.splits option.splits if_splits prod.splits

section \<open>Actions\<close>

definition action_address :: "jv \<Rightarrow> string" where
  "action_address action = text_or_empty (jprop action ''address'')"

definition is_call :: "jv \<Rightarrow> bool" where
  "is_call action \<longleftrightarrow> entry_name action \<noteq> []"

definition call_of :: "jv \<Rightarrow> sponsored_call" where
  "call_of action = \<lparr>sc_address = action_address action, sc_entryPoint = (if is_call action then entry_name action else DEPLOY_ENTRY_POINT)\<rparr>"

definition action_allowed :: "sponsor_policy \<Rightarrow> jv \<Rightarrow> bool" where
  "action_allowed p action \<longleftrightarrow>
     (if is_call action then permits p (action_address action) (entry_name action)
      else sp_allowDeploy p \<and> is_deploy action \<and> \<not> is_maintenance action \<and> action_address action \<noteq> [])"

definition deploys :: "jv list \<Rightarrow> int" where
  "deploys actions = int (length (filter (\<lambda>a. \<not> is_call a) actions))"

lemma deploys_simps [simp]: "deploys [] = 0" "deploys (a # as) = (if is_call a then 0 else 1) + deploys as" "deploys (as @ bs) = deploys as + deploys bs"
  by (simp_all add: deploys_def)

lemma deploys_nonneg [simp]: "0 \<le> deploys as"
  by (simp add: deploys_def)

lemma check_action_Inr:
  assumes "check_action o' n a st = Inr st'"
  shows "action_allowed (so_policy o') a" and "is_calls st' = is_calls st @ [call_of a]"
    and "is_deployCount st' = is_deployCount st + deploys [a]"
    and "is_deployCount st \<le> max_deploys o' \<longrightarrow> is_deployCount st' \<le> max_deploys o'"
    and "set (is_called st') = set (is_called st) \<union> (if is_call a then {action_address a} else {})"
    and "is_call a \<or> n \<le> so_maxDeployBytes o'"
  using assms
  by (auto simp: check_action_def check_call_def check_deploy_def Let_def action_allowed_def is_call_def action_address_def call_of_def
      permits_def add_new_def split: if_splits)

lemma check_actions_Inr:
  assumes "check_actions o' n as st = Inr st'"
  shows "list_all (action_allowed (so_policy o')) as" and "is_calls st' = is_calls st @ map call_of as"
    and "is_deployCount st' = is_deployCount st + deploys as"
    and "is_deployCount st \<le> max_deploys o' \<longrightarrow> is_deployCount st' \<le> max_deploys o'"
  using assms
proof (induction as arbitrary: st)
  case (Cons a as)
  {
    case 1 then show ?case using Cons.IH(1) check_action_Inr by (force split: sum.splits)
  next
    case 2 then show ?case using Cons.IH(2) check_action_Inr by (force split: sum.splits)
  next
    case 3 then show ?case using Cons.IH(3) check_action_Inr(3) by (fastforce split: sum.splits)
  next
    case 4 then show ?case using Cons.IH(4) check_action_Inr(4) by (fastforce split: sum.splits)
  }
qed auto

lemma check_intent_no_dust: "check_intent o' tx n seg intent st = Inr st' \<Longrightarrow> \<not> offerNonEmpty (jprop intent ''dustActions'')"
  by (simp add: check_intent_def split: if_splits)

lemma check_intent_Inr:
  assumes "check_intent o' tx n seg intent st = Inr st'"
  obtains as ist moves where "actions_of intent = Inr as"
    and "check_actions o' n as \<lparr>is_deployCount = ss_deployCount st, is_calls = ss_calls st, is_called = []\<rparr> = Inr ist"
    and "st' = \<lparr>ss_deployCount = is_deployCount ist, ss_calls = is_calls ist, ss_moves = moves\<rparr>"
  using assms by (auto simp: check_intent_def Let_def split: if_splits sum.splits)

definition intent_actions :: "jv \<Rightarrow> jv list" where
  "intent_actions intent = (case actions_of intent of Inr as \<Rightarrow> as | Inl _ \<Rightarrow> [])"

lemma check_intent_step:
  assumes "check_intent o' tx n seg intent st = Inr st'"
  shows "list_all (action_allowed (so_policy o')) (intent_actions intent)"
    and "ss_calls st' = ss_calls st @ map call_of (intent_actions intent)"
    and "ss_deployCount st' = ss_deployCount st + deploys (intent_actions intent)"
    and "ss_deployCount st \<le> max_deploys o' \<longrightarrow> ss_deployCount st' \<le> max_deploys o'"
proof -
  obtain as ist moves where a: "actions_of intent = Inr as"
    and c: "check_actions o' n as \<lparr>is_deployCount = ss_deployCount st, is_calls = ss_calls st, is_called = []\<rparr> = Inr ist"
    and st': "st' = \<lparr>ss_deployCount = is_deployCount ist, ss_calls = is_calls ist, ss_moves = moves\<rparr>"
    by (rule check_intent_Inr [OF assms])
  have ia: "intent_actions intent = as" by (simp add: intent_actions_def a)
  note r = check_actions_Inr [OF c]
  show "list_all (action_allowed (so_policy o')) (intent_actions intent)" unfolding ia by (rule r(1))
  show "ss_calls st' = ss_calls st @ map call_of (intent_actions intent)" unfolding ia st' using r(2) by simp
  show "ss_deployCount st' = ss_deployCount st + deploys (intent_actions intent)" unfolding ia st' using r(3) by simp
  show "ss_deployCount st \<le> max_deploys o' \<longrightarrow> ss_deployCount st' \<le> max_deploys o'" unfolding st' using r(4) by simp
qed

definition tx_intents :: "jv \<Rightarrow> jv list" where
  "tx_intents v = (case v_entries (jprop v ''intents'') of Some es \<Rightarrow> map snd es | None \<Rightarrow> [])"

definition tx_actions :: "jv \<Rightarrow> jv list" where
  "tx_actions v = concat (map intent_actions (tx_intents v))"

lemma check_intents_Inr:
  assumes "check_intents o' tx n es st = Inr st'"
  shows "list_all (action_allowed (so_policy o')) (concat (map (intent_actions \<circ> snd) es))"
    and "ss_calls st' = ss_calls st @ map call_of (concat (map (intent_actions \<circ> snd) es))"
    and "ss_deployCount st' = ss_deployCount st + deploys (concat (map (intent_actions \<circ> snd) es))"
    and "ss_deployCount st \<le> max_deploys o' \<longrightarrow> ss_deployCount st' \<le> max_deploys o'"
    and "list_all (\<lambda>e. \<not> offerNonEmpty (jprop (snd e) ''dustActions'')) es"
  using assms
proof (induction es arbitrary: st)
  case (Cons e es)
  obtain seg intent where e: "e = (seg, intent)" by (cases e)
  have step: "\<exists>st1. check_intent o' tx n seg intent st = Inr st1 \<and> check_intents o' tx n es st1 = Inr st'"
    if "check_intents o' tx n (e # es) st = Inr st'" for st using that by (auto simp: e split: sum.splits)
  {
    case 1
    then obtain st1 where "check_intent o' tx n seg intent st = Inr st1" "check_intents o' tx n es st1 = Inr st'" using step by blast
    then show ?case using Cons.IH(1) check_intent_step(1) by (simp add: e)
  next
    case 2
    then obtain st1 where "check_intent o' tx n seg intent st = Inr st1" "check_intents o' tx n es st1 = Inr st'" using step by blast
    then show ?case using Cons.IH(2) check_intent_step(2) by (simp add: e)
  next
    case 3
    then obtain st1 where "check_intent o' tx n seg intent st = Inr st1" "check_intents o' tx n es st1 = Inr st'" using step by blast
    then show ?case using Cons.IH(3) check_intent_step(3) by (simp add: e)
  next
    case 4
    then obtain st1 where "check_intent o' tx n seg intent st = Inr st1" "check_intents o' tx n es st1 = Inr st'" using step by blast
    then show ?case using Cons.IH(4) check_intent_step(4) by blast
  next
    case 5
    then obtain st1 where "check_intent o' tx n seg intent st = Inr st1" "check_intents o' tx n es st1 = Inr st'" using step by blast
    then show ?case using Cons.IH(5) check_intent_no_dust by (simp add: e)
  }
qed auto

lemma shape_Inr:
  assumes "checkSponsorableShape tx n o' = Inr (calls, moves)"
  obtains es mints left st where "v_entries (jprop (tx_value tx) ''intents'') = Some es" and "tx_mints o' (tx_value tx) = Inr mints"
    and "check_offers (tx_value tx) (map bareHex (sp_allowedTokenTypes (so_policy o'))) (no_empty (so_nightTokenType o'))
           (contractSponsorable (so_policy o')) SHIELDED_KEYS mints = Inr left"
    and "check_intents o' tx n es \<lparr>ss_deployCount = 0, ss_calls = [], ss_moves = []\<rparr> = Inr st"
    and "calls = ss_calls st" and "moves = ss_moves st" and "calls \<noteq> []" and "n \<le> so_maxTxBytes o'"
  using assms by (auto simp: checkSponsorableShape_def Let_def split: if_splits option.splits sum.splits)

lemma max_deploys_nonneg [simp]: "0 \<le> max_deploys o'"
  by (auto simp: max_deploys_def split: option.splits)

lemma shape_actions:
  assumes "checkSponsorableShape tx n o' = Inr (calls, moves)"
  shows "list_all (action_allowed (so_policy o')) (tx_actions (tx_value tx)) \<and> calls = map call_of (tx_actions (tx_value tx)) \<and> calls \<noteq> []
    \<and> deploys (tx_actions (tx_value tx)) \<le> max_deploys o'
    \<and> list_all (\<lambda>i. \<not> offerNonEmpty (jprop i ''dustActions'')) (tx_intents (tx_value tx))"
proof -
  obtain es mints left st where e: "v_entries (jprop (tx_value tx) ''intents'') = Some es"
    and i: "check_intents o' tx n es \<lparr>ss_deployCount = 0, ss_calls = [], ss_moves = []\<rparr> = Inr st"
    and c: "calls = ss_calls st" "calls \<noteq> []"
    using shape_Inr [OF assms] by metis
  have t: "tx_actions (tx_value tx) = concat (map (intent_actions \<circ> snd) es)" "tx_intents (tx_value tx) = map snd es"
    by (simp_all add: tx_actions_def tx_intents_def e)
  show ?thesis using check_intents_Inr [OF i] c by (simp add: t list_all_iff)
qed

section \<open>Mints and shielded offers\<close>

text \<open>What one entry of a call's declared mints adds to a token type, and the declared total of a transaction.\<close>

definition entry_mint :: "token_deriver \<Rightarrow> string \<Rightarrow> string \<Rightarrow> jv \<times> jv \<Rightarrow> int" where
  "entry_mint derive address t e =
     (case snd e of
        VBig n \<Rightarrow> (case derive (bareHex_v (fst e)) address of Inr d \<Rightarrow> if 0 < n \<and> bareHex d = t \<and> HEX64_RE t then n else 0 | Inl _ \<Rightarrow> 0)
      | _ \<Rightarrow> 0)"

definition action_mint :: "(string \<Rightarrow> bool) \<Rightarrow> token_deriver \<Rightarrow> string \<Rightarrow> jv \<Rightarrow> int" where
  "action_mint sponsorable derive t action =
     (if action_address action = [] \<or> \<not> sponsorable (action_address action) then 0
      else sum_list (map (entry_mint derive (action_address action) t)
             (concat (map (transcript_effect ''shieldedMints'') (transcripts_of action)))))"

definition total_mint :: "(string \<Rightarrow> bool) \<Rightarrow> token_deriver \<Rightarrow> string \<Rightarrow> jv \<Rightarrow> int" where
  "total_mint sponsorable derive t tx = sum_list (map (action_mint sponsorable derive t) (tx_actions tx))"

lemma mint_entries_Inr:
  "mint_entries derive address es budget = Inr b' \<Longrightarrow> amount_of b' t = amount_of budget t + sum_list (map (entry_mint derive address t) es)"
  by (induction derive address es budget rule: mint_entries.induct)
    (auto simp: entry_mint_def Let_def split: jv.splits if_splits sum.splits)

lemma mint_transcripts_Inr:
  "mint_transcripts derive address ts budget = Inr b'
   \<Longrightarrow> amount_of b' t = amount_of budget t + sum_list (map (entry_mint derive address t) (concat (map (transcript_effect ''shieldedMints'') ts)))"
  by (induction derive address ts budget rule: mint_transcripts.induct) (auto simp: mint_entries_Inr split: sum.splits)

lemma mint_actions_Inr:
  "mint_actions sponsorable derive as budget = Inr b' \<Longrightarrow> amount_of b' t = amount_of budget t + sum_list (map (action_mint sponsorable derive t) as)"
  by (induction sponsorable derive as budget rule: mint_actions.induct)
    (auto simp: action_mint_def action_address_def Let_def mint_transcripts_Inr split: sum.splits if_splits)

lemma mint_intents_Inr:
  "mint_intents sponsorable derive is budget = Inr b'
   \<Longrightarrow> amount_of b' t = amount_of budget t + sum_list (map (action_mint sponsorable derive t) (concat (map intent_actions is)))"
  by (induction sponsorable derive "is" budget rule: mint_intents.induct) (auto simp: intent_actions_def mint_actions_Inr split: sum.splits)

lemma indexed_snd [simp]: "map snd (indexed xs) = xs"
  by (simp add: indexed_def)

lemma declaredMints_total:
  assumes "declaredMints tx sponsorable derive = Inr b" and "v_truthy (jprop tx ''intents'')" and "v_entries (jprop tx ''intents'') = Some es"
  shows "amount_of b t = total_mint sponsorable derive t tx"
  using assms mint_intents_Inr [of sponsorable derive "map snd es" "[]" b t]
  by (simp add: declaredMints_def v_values_def total_mint_def tx_actions_def tx_intents_def)

text \<open>What an offer creates of a token type: the negative of its deltas, for the entries that name it.\<close>

definition created :: "string \<Rightarrow> jv \<times> jv \<Rightarrow> int" where
  "created t e = (case snd e of VBig d \<Rightarrow> if bareHex_v (fst e) = t then - d else 0 | _ \<Rightarrow> 0)"

definition offer_deltas :: "jv \<Rightarrow> (jv \<times> jv) list" where
  "offer_deltas offer = (case v_entries (jprop offer ''deltas'') of Some es \<Rightarrow> es | None \<Rightarrow> [])"

definition shielded_parts :: "jv \<Rightarrow> string list \<Rightarrow> jv list" where
  "shielded_parts tx keys = filter offerNonEmpty (concat (map (\<lambda>k. if v_nullish (jprop tx k) then [] else offer_parts (jprop tx k)) keys))"

definition mints_nonneg :: "mint_budget \<Rightarrow> bool" where
  "mints_nonneg b \<longleftrightarrow> (\<forall>t. 0 \<le> amount_of b t)"

definition night_free :: "string option \<Rightarrow> (jv \<times> jv) list \<Rightarrow> bool" where
  "night_free nightType es \<longleftrightarrow> nightType = None \<or> nightType = Some [] \<or> list_all (\<lambda>e. Some (bareHex_v (fst e)) \<noteq> nightType) es"

lemma delta_entry_Inr:
  assumes "delta_entry key tokenTypes nightType e mints = Inr mints'"
  shows "t \<notin> set tokenTypes \<Longrightarrow> amount_of mints' t = amount_of mints t - created t e"
    and "mints_nonneg mints \<Longrightarrow> mints_nonneg mints'" and "night_free nightType [e]"
  using assms
  by (auto simp: delta_entry_def created_def Let_def amount_of_def mints_nonneg_def night_free_def split: if_splits option.splits jv.splits)

lemma delta_entries_Inr:
  assumes "delta_entries key tokenTypes nightType es mints = Inr mints'"
  shows "t \<notin> set tokenTypes \<Longrightarrow> amount_of mints' t = amount_of mints t - sum_list (map (created t) es)"
    and "mints_nonneg mints \<Longrightarrow> mints_nonneg mints'" and "night_free nightType es"
  using assms
  by (induction key tokenTypes nightType es mints rule: delta_entries.induct)
    (auto simp: delta_entry_Inr night_free_def dest: delta_entry_Inr(3) split: sum.splits)

lemma checkOfferTokens_Inr:
  assumes "checkOfferTokens offer key tokenTypes nightType sponsorable mints = Inr mints'"
  shows "delta_entries key tokenTypes nightType (offer_deltas offer) mints = Inr mints'"
  using assms by (auto simp: checkOfferTokens_def offer_deltas_def split: option.splits if_splits sum.splits)

definition parts_deltas :: "jv list \<Rightarrow> (jv \<times> jv) list" where
  "parts_deltas parts = concat (map offer_deltas (filter offerNonEmpty parts))"

lemma delta_entries_append:
  "delta_entries key tokenTypes nightType (xs @ ys) mints
   = (case delta_entries key tokenTypes nightType xs mints of Inl e \<Rightarrow> Inl e | Inr m \<Rightarrow> delta_entries key tokenTypes nightType ys m)"
  by (induction key tokenTypes nightType xs mints rule: delta_entries.induct)
    (auto split: sum.splits)

lemma check_parts_Inr:
  "check_parts key tokenTypes nightType sponsorable parts mints = Inr mints'
   \<Longrightarrow> delta_entries key tokenTypes nightType (parts_deltas parts) mints = Inr mints'"
  by (induction key tokenTypes nightType sponsorable parts mints rule: check_parts.induct)
    (auto simp: parts_deltas_def delta_entries_append dest!: checkOfferTokens_Inr split: if_splits sum.splits)

lemma check_offers_Inr:
  assumes "check_offers tx tokenTypes nightType sponsorable keys mints = Inr mints'"
  shows "t \<notin> set tokenTypes \<Longrightarrow> amount_of mints' t = amount_of mints t - sum_list (map (created t) (concat (map offer_deltas (shielded_parts tx keys))))"
    and "mints_nonneg mints \<Longrightarrow> mints_nonneg mints'"
    and "night_free nightType (concat (map offer_deltas (shielded_parts tx keys)))"
proof -
  have "(t \<notin> set tokenTypes \<longrightarrow> amount_of mints' t = amount_of mints t - sum_list (map (created t) (concat (map offer_deltas (shielded_parts tx keys)))))
    \<and> (mints_nonneg mints \<longrightarrow> mints_nonneg mints') \<and> night_free nightType (concat (map offer_deltas (shielded_parts tx keys)))"
    using assms
  proof (induction tx tokenTypes nightType sponsorable keys mints rule: check_offers.induct)
    case (2 tx tokenTypes nightType sponsorable key keys mints)
    show ?case
    proof (cases "v_nullish (jprop tx key)")
      case True
      then show ?thesis using 2 by (simp add: shielded_parts_def)
    next
      case False
      then obtain m1 where c: "check_parts key tokenTypes nightType sponsorable (offer_parts (jprop tx key)) mints = Inr m1"
        and r: "check_offers tx tokenTypes nightType sponsorable keys m1 = Inr mints'"
        using "2.prems" by (auto split: sum.splits)
      have parts: "concat (map offer_deltas (shielded_parts tx (key # keys)))
          = parts_deltas (offer_parts (jprop tx key)) @ concat (map offer_deltas (shielded_parts tx keys))"
        using False by (simp add: shielded_parts_def parts_deltas_def)
      show ?thesis
        using "2.IH"(2) [OF False c r] delta_entries_Inr [OF check_parts_Inr [OF c]]
        unfolding parts by (auto simp: night_free_def)
    qed
  qed (simp add: shielded_parts_def night_free_def)
  then show "t \<notin> set tokenTypes \<Longrightarrow> amount_of mints' t = amount_of mints t - sum_list (map (created t) (concat (map offer_deltas (shielded_parts tx keys))))"
    and "mints_nonneg mints \<Longrightarrow> mints_nonneg mints'" and "night_free nightType (concat (map offer_deltas (shielded_parts tx keys)))" by blast+
qed

lemma entry_mint_nonneg: "0 \<le> entry_mint derive address t e"
  by (auto simp: entry_mint_def split: jv.splits sum.splits)

lemma total_mint_nonneg: "0 \<le> total_mint sponsorable derive t tx"
proof -
  have "0 \<le> action_mint sponsorable derive t a" for a
    unfolding action_mint_def using entry_mint_nonneg by (auto intro!: sum_list_nonneg simp: list_all_iff)
  then show ?thesis unfolding total_mint_def by (auto intro!: sum_list_nonneg)
qed

section \<open>Swaps\<close>

text \<open>What a half creates of a token type, from the deltas of its offer.\<close>

definition half_creates :: "jv \<Rightarrow> string \<Rightarrow> int" where
  "half_creates half t = sum_list (map (created t) (offer_deltas (jprop half ''guaranteedOffer'')))"

definition amounts_for :: "string \<Rightarrow> (string \<times> int) list \<Rightarrow> int" where
  "amounts_for t xs = sum_list (map (\<lambda>(t', n). if t' = t then n else 0) xs)"

lemma amounts_for_simps [simp]: "amounts_for t [] = 0" "amounts_for t ((t', n) # xs) = (if t' = t then n else 0) + amounts_for t xs"
  by (simp_all add: amounts_for_def)

lemma typed_amounts_created:
  "typed_amounts es = Some typed \<Longrightarrow> sum_list (map (created t) es) = - amounts_for t typed \<and> list_all (\<lambda>(_, n). n \<noteq> 0) typed"
  by (induction es arbitrary: typed rule: typed_amounts.induct) (auto simp: created_def split: jv.splits if_splits)

lemma amounts_signs:
  "list_all (\<lambda>(_, n). n \<noteq> 0) typed
   \<Longrightarrow> amounts_for t typed = amounts_for t (filter (\<lambda>(t, n). 0 < n) typed) + amounts_for t (filter (\<lambda>(t, n). n < 0) typed)"
  by (induction typed) auto

lemma plainShieldedOffer_Inr:
  "plainShieldedOffer tx m refuse why = Inr (offer, ins, outs) \<Longrightarrow> offer = jprop tx ''guaranteedOffer''"
  by (auto simp: plainShieldedOffer_def Let_def split: if_splits option.splits)

lemma half_types_ok:
  "half_type_problem tokenTypes nightType ts = None
   \<Longrightarrow> list_all (\<lambda>t. (nightType = Some [] \<or> nightType \<noteq> Some t) \<and> (case tokenTypes of Some allowed \<Rightarrow> t \<in> set allowed | None \<Rightarrow> True)) ts"
  by (induction tokenTypes nightType ts rule: half_type_problem.induct) (auto split: if_splits option.splits)

definition terms_creates :: "half_terms \<Rightarrow> string \<Rightarrow> int" where
  "terms_creates h t = (if fst (ht_want h) = t then snd (ht_want h) else 0) - (if fst (ht_give h) = t then snd (ht_give h) else 0)"

lemma swapHalfTerms_Inr:
  assumes "swapHalfTerms half lbl (Some allowed) nightType m prefix = Inr h"
  shows "half_creates half t = terms_creates h t" and "fst (ht_give h) \<in> set allowed \<and> fst (ht_want h) \<in> set allowed"
    and "0 < snd (ht_give h) \<and> 0 < snd (ht_want h) \<and> fst (ht_give h) \<noteq> fst (ht_want h)"
proof -
  obtain offer ins outs es typed give wt wn where p: "plainShieldedOffer half m (\<lambda>why. refused (prefix @ '': the '' @ lbl @ '' '' @ why))
        ''a half has the coin it wants and at most its change'' = Inr (offer, ins, outs)"
    and e: "v_entries (jprop offer ''deltas'') = Some es" and ty: "typed_amounts es = Some typed"
    and f: "filter (\<lambda>(t, n). 0 < n) typed = [give]" "filter (\<lambda>(t, n). n < 0) typed = [(wt, wn)]"
    and ne: "fst give \<noteq> wt" and pr: "half_type_problem (Some allowed) nightType [fst give, wt] = None"
    and h: "h = \<lparr>ht_give = give, ht_want = (wt, - wn)\<rparr>"
    using assms by (auto simp: swapHalfTerms_def Let_def simp del: half_type_problem.simps split: sum.splits option.splits list.splits if_splits prod.splits)
  have "half_creates half t = - amounts_for t typed"
    using typed_amounts_created [OF ty, of t] by (simp add: half_creates_def offer_deltas_def e flip: plainShieldedOffer_Inr [OF p])
  also have "\<dots> = terms_creates h t"
    using amounts_signs [of typed t] typed_amounts_created [OF ty] ne by (cases give) (auto simp: f terms_creates_def h)
  finally show "half_creates half t = terms_creates h t" .
  show "fst (ht_give h) \<in> set allowed \<and> fst (ht_want h) \<in> set allowed" using half_types_ok [OF pr] by (simp add: h)
  have "give \<in> set (filter (\<lambda>(t, n). 0 < n) typed)" "(wt, wn) \<in> set (filter (\<lambda>(t, n). n < 0) typed)" by (simp_all add: f)
  then show "0 < snd (ht_give h) \<and> 0 < snd (ht_want h) \<and> fst (ht_give h) \<noteq> fst (ht_want h)" using ne by (auto simp: h)
qed

lemma checkSwapHalves_Inr:
  assumes "checkSwapHalves maker taker allowed night maxIn = Inr terms"
  shows "half_creates maker t + half_creates taker t = 0"
    and "half_creates maker t = (if fst (sw_wants terms) = t then text_int (snd (sw_wants terms)) else 0)
           - (if fst (sw_gives terms) = t then text_int (snd (sw_gives terms)) else 0)"
    and "half_creates maker t = 0 \<or> t \<in> set (map bareHex allowed)"
proof -
  obtain m k where m: "swapHalfTerms maker ''maker half'' (Some (map bareHex allowed)) (no_empty night) (max_half_inputs maxIn) ''refusing to sponsor'' = Inr m"
    and k: "swapHalfTerms taker ''taker half'' (Some (map bareHex allowed)) (no_empty night) (max_half_inputs maxIn) ''refusing to sponsor'' = Inr k"
    and mir: "mirrored m k"
    and terms: "terms = \<lparr>sw_gives = (fst (ht_give m), int_str (snd (ht_give m))), sw_wants = (fst (ht_want m), int_str (snd (ht_want m)))\<rparr>"
    using assms unfolding checkSwapHalves_def Let_def by (auto split: if_splits sum.splits)
  note mi = swapHalfTerms_Inr [OF m] and ki = swapHalfTerms_Inr [OF k]
  show "half_creates maker t + half_creates taker t = 0"
    using mir by (simp add: mi(1) ki(1) terms_creates_def mirrored_def)
  show "half_creates maker t = (if fst (sw_wants terms) = t then text_int (snd (sw_wants terms)) else 0)
           - (if fst (sw_gives terms) = t then text_int (snd (sw_gives terms)) else 0)"
    by (simp add: mi(1) terms_creates_def terms)
  show "half_creates maker t = 0 \<or> t \<in> set (map bareHex allowed)"
    using mi(2) by (auto simp: mi(1) terms_creates_def)
qed

section \<open>Unshielded offers\<close>

definition coin_type :: "jv \<Rightarrow> string" where "coin_type x = bareHex_v (jprop x ''type'')"
definition coin_owner :: "jv \<Rightarrow> string" where "coin_owner x = bareHex_v (jprop x ''owner'')"

definition coin_value :: "jv \<Rightarrow> int" where
  "coin_value x = (case utxoValue (jprop x ''value'') [] of Inr n \<Rightarrow> n | Inl _ \<Rightarrow> 0)"

lemma utxoValue_value: "utxoValue (jprop x ''value'') what = Inr n \<Longrightarrow> coin_value x = n"
  by (auto simp: coin_value_def utxoValue_def split: jv.splits if_splits)

definition coins_sum :: "(jv \<Rightarrow> bool) \<Rightarrow> jv list \<Rightarrow> int" where
  "coins_sum P xs = sum_list (map coin_value (filter P xs))"

lemma coins_sum_simps [simp]: "coins_sum P [] = 0" "coins_sum P (x # xs) = (if P x then coin_value x else 0) + coins_sum P xs"
  by (simp_all add: coins_sum_def)

definition of_type :: "string \<Rightarrow> jv \<Rightarrow> bool" where "of_type t x \<longleftrightarrow> coin_type x = t"

definition pays_key :: "string \<Rightarrow> jv \<Rightarrow> bool" where "pays_key k x \<longleftrightarrow> payout_key (coin_type x) (coin_owner x) = k"

definition moves_sum :: "string \<Rightarrow> unshielded_move list \<Rightarrow> int" where
  "moves_sum t ms = sum_list (map (\<lambda>m. if um_type m = t then text_int (um_amount m) else 0) ms)"

lemma moves_sum_simps [simp]: "moves_sum t [] = 0" "moves_sum t (xs @ ys) = moves_sum t xs + moves_sum t ys"
  "moves_sum t [m] = (if um_type m = t then text_int (um_amount m) else 0)"
  by (simp_all add: moves_sum_def)

text \<open>The addresses that belong to the owners of the inputs.\<close>

definition owner_addresses :: "unshielded_ctx \<Rightarrow> jv list \<Rightarrow> string set" where
  "owner_addresses ctx inputs =
     (case uc_addressFromKey ctx of None \<Rightarrow> {}
      | Some f \<Rightarrow> {bareHex a | a x. x \<in> set inputs \<and> f (coin_owner x) = Inr a})"

lemma set_add_new [simp]: "set (add_new x xs) = insert x (set xs)"
  by (auto simp: add_new_def)

lemma input_loop_Cons:
  assumes "input_loop ctx key (x # xs) sums owners = Inr (sums', owners')"
  obtains owners1 v where "coin_owner x \<notin> set (uc_sponsorInputKeys ctx)" and "utxoValue (jprop x ''value'') (key @ '' input'') = Inr v"
    and "set owners1 \<subseteq> set owners \<union> owner_addresses ctx [x]"
    and "input_loop ctx key xs (map_put (coin_type x) (amount_of sums (coin_type x) + v) sums) owners1 = Inr (sums', owners')"
proof -
  let ?owners = "case uc_addressFromKey ctx of None \<Rightarrow> Inr owners
    | Some f \<Rightarrow> (case f (coin_owner x) of Inl e \<Rightarrow> Inl e | Inr a \<Rightarrow> Inr (add_new (bareHex a) owners))"
  obtain owners1 v where o1: "?owners = Inr owners1" and r: "coin_owner x \<notin> set (uc_sponsorInputKeys ctx)"
      "utxoValue (jprop x ''value'') (key @ '' input'') = Inr v"
      "input_loop ctx key xs (map_put (coin_type x) (amount_of sums (coin_type x) + v) sums) owners1 = Inr (sums', owners')"
    using assms unfolding input_loop.simps Let_def coin_owner_def [symmetric] coin_type_def [symmetric]
    by (simp split: if_splits sum.splits)
  have "set owners1 \<subseteq> set owners \<union> owner_addresses ctx [x]"
    using o1 by (auto simp: owner_addresses_def split: option.splits sum.splits)
  then show thesis using that r by blast
qed

lemma input_loop_Inr:
  assumes "input_loop ctx key inputs sums owners = Inr (sums', owners')"
  shows "amount_of sums' t = amount_of sums t + coins_sum (of_type t) inputs"
    and "list_all (\<lambda>x. coin_owner x \<notin> set (uc_sponsorInputKeys ctx)) inputs"
    and "set owners' \<subseteq> set owners \<union> owner_addresses ctx inputs"
    and "distinct (map fst sums) \<Longrightarrow> distinct (map fst sums')"
  using assms
proof (induction inputs arbitrary: sums owners)
  case (Cons x xs)
  {
    case 1
    then show ?case by (rule input_loop_Cons) (auto simp: Cons.IH(1) of_type_def dest: utxoValue_value)
  next
    case 2
    then show ?case by (rule input_loop_Cons) (simp add: Cons.IH(2))
  next
    case 3
    then show ?case
    proof (rule input_loop_Cons)
      fix owners1 v
      assume "set owners1 \<subseteq> set owners \<union> owner_addresses ctx [x]"
        and "input_loop ctx key xs (map_put (coin_type x) (amount_of sums (coin_type x) + v) sums) owners1 = Inr (sums', owners')"
      moreover have "owner_addresses ctx (x # xs) = owner_addresses ctx [x] \<union> owner_addresses ctx xs"
        by (auto simp: owner_addresses_def split: option.splits)
      ultimately show ?thesis using Cons.IH(3) by blast
    qed
  next
    case 4
    then show ?case by (blast elim: input_loop_Cons intro: Cons.IH(4) distinct_map_put)
  }
qed auto

text \<open>
  How the outputs were dealt with: claimed payouts, value for contracts, change. The three lists partition
  the outputs.
\<close>

record output_split =
  paid :: "jv list"
  deposited :: "jv list"
  changed :: "jv list"

definition split_ok :: "unshielded_ctx \<Rightarrow> string list \<Rightarrow> jv list \<Rightarrow> offer_state \<Rightarrow> offer_state \<Rightarrow> output_split \<Rightarrow> bool" where
  "split_ok ctx owners outputs st st' p \<longleftrightarrow>
     mset outputs = mset (paid p) + mset (deposited p) + mset (changed p)
     \<and> (\<forall>t. amount_of (os_sums st') t = amount_of (os_sums st) t - coins_sum (of_type t) (deposited p) - coins_sum (of_type t) (changed p))
     \<and> (\<forall>t. moves_sum t (os_moves st') = moves_sum t (os_moves st) + coins_sum (of_type t) (deposited p))
     \<and> (\<forall>k. coins_sum (pays_key k) (paid p) = amount_of (os_claimed st) k - amount_of (os_claimed st') k)
     \<and> (\<forall>k. coins_sum (pays_key k) (paid p) \<le> max 0 (amount_of (os_claimed st) k))
     \<and> list_all (\<lambda>x. coin_owner x \<in> set (uc_calledContracts ctx) \<or> uc_listedContract ctx (coin_owner x)) (deposited p)
     \<and> list_all (\<lambda>x. coin_owner x \<in> set owners) (changed p)
     \<and> (distinct (map fst (os_sums st)) \<longrightarrow> distinct (map fst (os_sums st')))"

lemma split_ok_Nil: "split_ok ctx owners [] st st \<lparr>paid = [], deposited = [], changed = []\<rparr>"
  by (simp add: split_ok_def)

lemma map_put_absent: "map_of m t = None \<Longrightarrow> amount_of (map_put t 0 m) t' = amount_of m t'"
  by (simp add: amount_of_def)

lemma output_step_split:
  assumes "output_step ctx key owners x st = Inr st1" and "split_ok ctx owners xs st1 st' p"
  shows "\<exists>q. split_ok ctx owners (x # xs) st st' q"
proof -
  let ?t = "coin_type x" and ?to = "coin_owner x"
  let ?left = "amount_of (os_claimed st) (payout_key ?t ?to)"
  obtain v where v: "utxoValue (jprop x ''value'') (key @ '' output'') = Inr v" using assms(1) by (auto simp: output_step_def Let_def split: if_splits sum.splits)
  have cv: "coin_value x = v" using v by (rule utxoValue_value)
  have readable: "allowedType ctx ?t" "HEX64_RE ?to"
    using assms(1) by (auto simp: output_step_def Let_def coin_type_def coin_owner_def split: if_splits)
  let ?claim = "st\<lparr>os_claimed := map_put (payout_key ?t ?to) (?left - v) (os_claimed st),
                os_sums := (case map_of (os_sums st) ?t of Some _ \<Rightarrow> os_sums st | None \<Rightarrow> map_put ?t 0 (os_sums st)),
                os_payouts := Suc (os_payouts st)\<rparr>"
  let ?owe = "st\<lparr>os_sums := map_put ?t (amount_of (os_sums st) ?t - v) (os_sums st)\<rparr>"
  have r: "(if v \<le> ?left then Inr ?claim
      else if ?to \<in> set (uc_calledContracts ctx) \<or> uc_listedContract ctx ?to
      then Inr (?owe\<lparr>os_moves := os_moves st @ [\<lparr>um_type = ?t, um_amount = int_str v, um_to = ?to\<rparr>]\<rparr>)
      else if ?to \<in> set owners then Inr ?owe else Inl (refusing (key @ '' pays '' @ short_name ?to
        @ '', which is neither a sponsorable contract nor an owner of its inputs, and no called contract claims that payout''))) = Inr st1"
    using assms(1) unfolding output_step_def Let_def coin_type_def [symmetric] coin_owner_def [symmetric] v
    by (simp only: readable sum.case not_True_eq_False if_False)
  consider (pay) "v \<le> ?left" "st1 = ?claim"
  | (deposit) "?to \<in> set (uc_calledContracts ctx) \<or> uc_listedContract ctx ?to"
      "st1 = ?owe\<lparr>os_moves := os_moves st @ [\<lparr>um_type = ?t, um_amount = int_str v, um_to = ?to\<rparr>]\<rparr>"
  | (change) "?to \<in> set owners" "st1 = ?owe"
    using r by (metis Inl_Inr_False sum.inject(2))
  then show ?thesis
  proof cases
    case pay
    have sums: "amount_of (os_sums st1) t = amount_of (os_sums st) t" for t
      by (auto simp: pay(2) map_put_absent amount_of_def split: option.splits)
    have cl: "amount_of (os_claimed st1) k = amount_of (os_claimed st) k - (if pays_key k x then v else 0)" for k
      by (simp add: pay(2) pays_key_def)
    have mv: "os_moves st1 = os_moves st" by (simp add: pay(2))
    have ds: "distinct (map fst (os_sums st)) \<longrightarrow> distinct (map fst (os_sums st1))"
      by (simp add: pay(2) distinct_map_put split: option.splits)
    have "split_ok ctx owners (x # xs) st st' (p\<lparr>paid := x # paid p\<rparr>)"
      unfolding split_ok_def
    proof (intro conjI allI)
      fix k
      have "coins_sum (pays_key k) (paid p) \<le> max 0 (amount_of (os_claimed st1) k)" using assms(2) unfolding split_ok_def by fast
      then show "coins_sum (pays_key k) (paid (p\<lparr>paid := x # paid p\<rparr>)) \<le> max 0 (amount_of (os_claimed st) k)"
        using pay(1) cl [of k] by (auto simp: cv pays_key_def max_def split: if_splits)
    qed (use assms(2) in \<open>simp_all add: split_ok_def cv sums cl mv ds\<close>)
    then show ?thesis ..
  next
    case deposit
    have "split_ok ctx owners (x # xs) st st' (p\<lparr>deposited := x # deposited p\<rparr>)"
      using assms(2) deposit unfolding split_ok_def by (auto simp: cv of_type_def distinct_map_put)
    then show ?thesis ..
  next
    case change
    have "split_ok ctx owners (x # xs) st st' (p\<lparr>changed := x # changed p\<rparr>)"
      using assms(2) change unfolding split_ok_def by (auto simp: cv of_type_def distinct_map_put)
    then show ?thesis ..
  qed
qed

lemma output_loop_split: "output_loop ctx key owners outputs st = Inr st' \<Longrightarrow> \<exists>p. split_ok ctx owners outputs st st' p"
proof (induction outputs arbitrary: st)
  case Nil
  then show ?case using split_ok_Nil by (metis output_loop.simps(1) sum.inject(2))
next
  case (Cons x xs)
  then obtain st1 where s: "output_step ctx key owners x st = Inr st1" and r: "output_loop ctx key owners xs st1 = Inr st'"
    by (auto split: sum.splits)
  show ?case using Cons.IH [OF r] output_step_split [OF s] by blast
qed

lemma net_loop_Cons:
  assumes "net_loop ctx key ((t, net) # rest) moves = Inr moves'"
  obtains moves1 where "0 \<le> net" and "ledgerImbalance (uc_ledgerBalance ctx) t = Inr (Some 0)"
    and "net \<noteq> 0 \<Longrightarrow> length (uc_calledContracts ctx) = 1" and "\<And>u. moves_sum u moves1 = moves_sum u moves + (if u = t then net else 0)"
    and "net_loop ctx key rest moves1 = Inr moves'"
proof -
  have i: "0 \<le> net" "ledgerImbalance (uc_ledgerBalance ctx) t = Inr (Some 0)"
    using assms by (auto split: if_splits sum.splits option.splits)
  show thesis
  proof (cases "net = 0")
    case True
    then have "net_loop ctx key rest moves = Inr moves'" using assms i by simp
    then show thesis using that i True by auto
  next
    case False
    then obtain c where c: "uc_calledContracts ctx = [c]"
        "net_loop ctx key rest (moves @ [\<lparr>um_type = t, um_amount = int_str net, um_to = c\<rparr>]) = Inr moves'"
      using assms i by (auto split: list.splits)
    show thesis by (rule that [OF i _ _ c(2)]) (simp_all add: c(1))
  qed
qed

lemma amount_of_Cons: "amount_of ((k', v) # m) k = (if k = k' then v else amount_of m k)"
  by (simp add: amount_of_def)

lemma net_loop_Inr:
  assumes "net_loop ctx key sums moves = Inr moves'" and "distinct (map fst sums)"
  shows "0 \<le> amount_of sums t" and "moves_sum t moves' = moves_sum t moves + amount_of sums t"
    and "t \<in> fst ` set sums \<Longrightarrow> ledgerImbalance (uc_ledgerBalance ctx) t = Inr (Some 0)"
    and "amount_of sums t \<noteq> 0 \<Longrightarrow> length (uc_calledContracts ctx) = 1"
  using assms
proof (induction sums arbitrary: moves)
  case (Cons s rest)
  obtain t0 net where s: "s = (t0, net)" by (cases s)
  have away: "amount_of rest t0 = 0" if "distinct (map fst ((t0, net) # rest))" for rest :: "(string \<times> int) list"
  proof -
    have "map_of rest t0 = None" using that by (simp add: map_of_eq_None_iff)
    then show ?thesis by (simp add: amount_of_def)
  qed
  {
    case 1
    from 1(1) [unfolded s] obtain moves1 where m: "0 \<le> net" "ledgerImbalance (uc_ledgerBalance ctx) t0 = Inr (Some 0)"
      "net \<noteq> 0 \<Longrightarrow> length (uc_calledContracts ctx) = 1" "\<And>u. moves_sum u moves1 = moves_sum u moves + (if u = t0 then net else 0)"
      "net_loop ctx key rest moves1 = Inr moves'" by (rule net_loop_Cons) blast
    show ?case using Cons.IH(1) [OF m(5)] 1(2) m(1) by (simp add: s amount_of_Cons)
  next
    case 2
    from 2(1) [unfolded s] obtain moves1 where m: "0 \<le> net" "ledgerImbalance (uc_ledgerBalance ctx) t0 = Inr (Some 0)"
      "net \<noteq> 0 \<Longrightarrow> length (uc_calledContracts ctx) = 1" "\<And>u. moves_sum u moves1 = moves_sum u moves + (if u = t0 then net else 0)"
      "net_loop ctx key rest moves1 = Inr moves'" by (rule net_loop_Cons) blast
    show ?case using Cons.IH(2) [OF m(5)] 2(2) m(4) [of t] away [of rest] by (auto simp: s amount_of_Cons)
  next
    case 3
    from 3(2) [unfolded s] obtain moves1 where m: "0 \<le> net" "ledgerImbalance (uc_ledgerBalance ctx) t0 = Inr (Some 0)"
      "net \<noteq> 0 \<Longrightarrow> length (uc_calledContracts ctx) = 1" "\<And>u. moves_sum u moves1 = moves_sum u moves + (if u = t0 then net else 0)"
      "net_loop ctx key rest moves1 = Inr moves'" by (rule net_loop_Cons) blast
    show ?case using Cons.IH(3) [OF _ m(5)] 3(1,3) m(2) by (auto simp: s)
  next
    case 4
    from 4(2) [unfolded s] obtain moves1 where m: "0 \<le> net" "ledgerImbalance (uc_ledgerBalance ctx) t0 = Inr (Some 0)"
      "net \<noteq> 0 \<Longrightarrow> length (uc_calledContracts ctx) = 1" "\<And>u. moves_sum u moves1 = moves_sum u moves + (if u = t0 then net else 0)"
      "net_loop ctx key rest moves1 = Inr moves'" by (rule net_loop_Cons) blast
    show ?case using Cons.IH(4) [OF _ m(5)] 4(1,3) m(3) by (auto simp: s amount_of_Cons split: if_splits)
  }
qed auto

section \<open>Acceptance\<close>

text \<open>A transaction of allowed actions without offers and dust actions passes.\<close>

definition plain_intent :: "jv \<Rightarrow> bool" where
  "plain_intent intent \<longleftrightarrow> isInr (actions_of intent) \<and> \<not> offerNonEmpty (jprop intent ''dustActions'')
     \<and> list_all (\<lambda>k. \<not> offerNonEmpty (jprop intent k)) UNSHIELDED_KEYS"

definition call_readable :: "sponsor_policy \<Rightarrow> jv \<Rightarrow> bool" where
  "call_readable p action \<longleftrightarrow> \<not> is_call action \<or> \<not> rule_throws p (action_address action)"

definition deploys_fit :: "shape_options \<Rightarrow> int \<Rightarrow> int \<Rightarrow> bool" where
  "deploys_fit o' n d \<longleftrightarrow> d \<le> max_deploys o' \<and> (d = 0 \<or> n \<le> so_maxDeployBytes o')"

lemma deploys_fit_mono: "deploys_fit o' n d \<Longrightarrow> 0 \<le> c \<Longrightarrow> c \<le> d \<Longrightarrow> deploys_fit o' n c"
  by (auto simp: deploys_fit_def)

lemma check_action_accepts:
  assumes "action_allowed (so_policy o') a" and "call_readable (so_policy o') a" and "deploys_fit o' n (is_deployCount st + deploys [a])"
    and "0 \<le> is_deployCount st"
  shows "\<exists>called. check_action o' n a st
    = Inr \<lparr>is_deployCount = is_deployCount st + deploys [a], is_calls = is_calls st @ [call_of a], is_called = called\<rparr>"
proof (cases "is_call a")
  case True
  then show ?thesis
    using assms by (cases st) (auto simp: check_action_def check_call_def Let_def action_allowed_def is_call_def action_address_def call_of_def permits_def call_readable_def)
next
  case False
  then show ?thesis
    using assms by (cases st) (auto simp: check_action_def check_deploy_def Let_def action_allowed_def is_call_def action_address_def call_of_def deploys_fit_def)
qed

lemma check_actions_accepts:
  assumes "list_all (action_allowed (so_policy o')) as" and "list_all (call_readable (so_policy o')) as"
    and "deploys_fit o' n (is_deployCount st + deploys as)" and "0 \<le> is_deployCount st"
  shows "\<exists>called. check_actions o' n as st
    = Inr \<lparr>is_deployCount = is_deployCount st + deploys as, is_calls = is_calls st @ map call_of as, is_called = called\<rparr>"
  using assms
proof (induction as arbitrary: st)
  case Nil
  then show ?case by (cases st) simp
next
  case (Cons a as)
  have fit: "deploys_fit o' n (is_deployCount st + deploys [a])"
    by (rule deploys_fit_mono [OF Cons.prems(3)]) (use Cons.prems(4) in \<open>simp_all add: add_nonneg_nonneg\<close>)
  obtain called where a: "check_action o' n a st
    = Inr \<lparr>is_deployCount = is_deployCount st + deploys [a], is_calls = is_calls st @ [call_of a], is_called = called\<rparr>"
    using check_action_accepts [OF _ _ fit Cons.prems(4)] Cons.prems(1,2) by auto
  let ?st = "\<lparr>is_deployCount = is_deployCount st + deploys [a], is_calls = is_calls st @ [call_of a], is_called = called\<rparr>"
  have "\<exists>called. check_actions o' n as ?st
    = Inr \<lparr>is_deployCount = is_deployCount ?st + deploys as, is_calls = is_calls ?st @ map call_of as, is_called = called\<rparr>"
    by (rule Cons.IH) (use Cons.prems in \<open>simp_all add: algebra_simps\<close>)
  then show ?case by (simp add: a algebra_simps)
qed

lemma check_intents_accepts:
  assumes "list_all (plain_intent \<circ> snd) es" and "list_all (action_allowed (so_policy o')) (concat (map (intent_actions \<circ> snd) es))"
    and "list_all (call_readable (so_policy o')) (concat (map (intent_actions \<circ> snd) es))"
    and "deploys_fit o' n (ss_deployCount st + deploys (concat (map (intent_actions \<circ> snd) es)))" and "0 \<le> ss_deployCount st"
  shows "\<exists>d. check_intents o' tx n es st
    = Inr \<lparr>ss_deployCount = d, ss_calls = ss_calls st @ map call_of (concat (map (intent_actions \<circ> snd) es)), ss_moves = ss_moves st\<rparr>"
  using assms
proof (induction es arbitrary: st)
  case Nil
  then show ?case by (cases st) simp
next
  case (Cons e es)
  obtain seg intent where e: "e = (seg, intent)" by (cases e)
  obtain as where as: "actions_of intent = Inr as" using Cons.prems(1) by (cases "actions_of intent") (auto simp: e plain_intent_def)
  have ia: "intent_actions intent = as" by (simp add: intent_actions_def as)
  let ?ist = "\<lparr>is_deployCount = ss_deployCount st, is_calls = ss_calls st, is_called = []\<rparr>"
  have "deploys_fit o' n (is_deployCount ?ist + deploys as)"
    by (intro deploys_fit_mono [OF Cons.prems(4)]) (use Cons.prems(5) in \<open>simp_all add: e ia add_nonneg_nonneg\<close>)
  then obtain called where c: "check_actions o' n as ?ist
    = Inr \<lparr>is_deployCount = ss_deployCount st + deploys as, is_calls = ss_calls st @ map call_of as, is_called = called\<rparr>"
    using check_actions_accepts [of o' as n ?ist] Cons.prems by (auto simp: e ia)
  let ?st = "\<lparr>ss_deployCount = ss_deployCount st + deploys as, ss_calls = ss_calls st @ map call_of as, ss_moves = ss_moves st\<rparr>"
  have nk: "filter (\<lambda>key. offerNonEmpty (jprop intent key)) UNSHIELDED_KEYS = []" "\<not> offerNonEmpty (jprop intent ''dustActions'')"
    using Cons.prems(1) by (auto simp: e plain_intent_def list_all_iff filter_empty_conv)
  have step: "check_intent o' tx n seg intent st = Inr ?st" unfolding check_intent_def nk(1) Let_def by (simp add: nk(2) as c)
  have "\<exists>d. check_intents o' tx n es ?st
    = Inr \<lparr>ss_deployCount = d, ss_calls = ss_calls ?st @ map call_of (concat (map (intent_actions \<circ> snd) es)), ss_moves = ss_moves ?st\<rparr>"
    by (rule Cons.IH) (use Cons.prems in \<open>simp_all add: e ia algebra_simps\<close>)
  then show ?case by (simp add: e step ia comp_def)
qed

lemma check_offers_none:
  "shielded_parts tx keys = [] \<Longrightarrow> check_offers tx tokenTypes nightType sponsorable keys mints = Inr mints"
proof (induction keys)
  case (Cons k ks)
  have "list_all (\<lambda>p. \<not> offerNonEmpty p) parts \<Longrightarrow> check_parts k tokenTypes nightType sponsorable parts mints = Inr mints" for parts
    by (induction parts) auto
  moreover have "\<not> v_nullish (jprop tx k) \<Longrightarrow> list_all (\<lambda>p. \<not> offerNonEmpty p) (offer_parts (jprop tx k))"
    using Cons.prems by (simp add: shielded_parts_def list_all_iff filter_empty_conv)
  ultimately show ?case using Cons by (simp add: shielded_parts_def split: if_splits)
qed simp

section \<open>Properties\<close>

text \<open>What the platform and the grant together allow of one action.\<close>

definition within_grant :: "sponsor_policy \<Rightarrow> grant_policy \<Rightarrow> jv \<Rightarrow> bool" where
  "within_grant flr g a \<longleftrightarrow>
     (if is_call a
      then action_address a \<in> set (gp_deployedContracts g)
        \<or> (contract_permitted flr (action_address a) \<and> circuit_permitted flr (action_address a) (entry_name a)
           \<and> (gp_allowedContracts g = [] \<or> action_address a \<in> set (gp_allowedContracts g))
           \<and> (gp_allowedCircuits g = [] \<or> entry_name a \<in> set (gp_allowedCircuits g)))
      else is_deploy a \<and> \<not> is_maintenance a \<and> sp_allowDeploy flr \<and> gp_allowDeploy g)"

lemma effective_deploy: "effectiveSponsorPolicy flr (Some g) shared = Inr eff \<Longrightarrow> sp_allowDeploy eff \<longleftrightarrow> sp_allowDeploy flr \<and> gp_allowDeploy g"
  by (auto simp: effectiveSponsorPolicy_def Let_def split: sum.splits)

lemma allowed_within_grant:
  assumes "effectiveSponsorPolicy flr (Some g) shared = Inr eff" and "rules_ok flr" and "action_allowed eff a"
  shows "within_grant flr g a"
  using assms(3) narrow_permits [OF assms(1,2)] effective_deploy [OF assms(1)] by (auto simp: within_grant_def action_allowed_def split: if_splits)

definition sample_call :: "string \<Rightarrow> string \<Rightarrow> jv" where
  "sample_call a c = VObj ''ContractCall'' [(''address'', VStr a), (''entryPoint'', VStr c)]"

definition sample_tx :: sponsor_tx where
  "sample_tx = \<lparr>tx_value = VObj ''Transaction'' [(''intents'', VMap [(VNum 1, VObj ''Intent'' [(''actions'', VArr [sample_call ''c2'' ''mint''])])])],
     tx_imbalances = None\<rparr>"

definition sample_options :: "sponsor_policy \<Rightarrow> shape_options" where
  "sample_options p = \<lparr>so_policy = p, so_maxDeploys = None, so_nightTokenType = None, so_deriveTokenType = None, so_addressFromKey = None,
     so_sponsorInputKeys = [], so_maxTxBytes = 1000, so_maxDeployBytes = 1000\<rparr>"

lemma sample_tx_intents:
  "v_entries (jprop (tx_value sample_tx) ''intents'') = Some [(VNum 1, VObj ''Intent'' [(''actions'', VArr [sample_call ''c2'' ''mint''])])]"
  "v_truthy (jprop (tx_value sample_tx) ''intents'')"
  by (simp_all add: sample_tx_def jprop_def)

lemma sample_tx_actions: "tx_actions (tx_value sample_tx) = [sample_call ''c2'' ''mint'']"
  unfolding tx_actions_def tx_intents_def sample_tx_intents by (simp add: intent_actions_def actions_of_def v_nullish_def jprop_def)

lemma shape_accepts:
  assumes "v_entries (jprop (tx_value tx) ''intents'') = Some es" and "v_truthy (jprop (tx_value tx) ''intents'')"
    and "tx_mints o' (tx_value tx) = Inr mints" and "shielded_parts (tx_value tx) SHIELDED_KEYS = []"
    and "list_all plain_intent (tx_intents (tx_value tx))"
    and "list_all (action_allowed (so_policy o')) (tx_actions (tx_value tx))" and "list_all (call_readable (so_policy o')) (tx_actions (tx_value tx))"
    and "deploys_fit o' n (deploys (tx_actions (tx_value tx)))" and "n \<le> so_maxTxBytes o'" and "tx_actions (tx_value tx) \<noteq> []"
  shows "checkSponsorableShape tx n o' = Inr (map call_of (tx_actions (tx_value tx)), [])"
proof -
  have t: "tx_actions (tx_value tx) = concat (map (intent_actions \<circ> snd) es)" "tx_intents (tx_value tx) = map snd es"
    by (simp_all add: tx_actions_def tx_intents_def assms(1))
  let ?st = "\<lparr>ss_deployCount = 0, ss_calls = [], ss_moves = []\<rparr>"
  have "\<exists>d. check_intents o' tx n es ?st
    = Inr \<lparr>ss_deployCount = d, ss_calls = ss_calls ?st @ map call_of (concat (map (intent_actions \<circ> snd) es)), ss_moves = ss_moves ?st\<rparr>"
    by (rule check_intents_accepts) (use assms in \<open>simp_all add: t list.pred_map\<close>)
  then obtain d where c: "check_intents o' tx n es ?st = Inr \<lparr>ss_deployCount = d, ss_calls = map call_of (tx_actions (tx_value tx)), ss_moves = []\<rparr>"
    by (auto simp: t)
  have "\<not> so_maxTxBytes o' < n" "map call_of (tx_actions (tx_value tx)) \<noteq> []" using assms(9,10) by auto
  then show ?thesis
    unfolding checkSponsorableShape_def Let_def assms(1,3) check_offers_none [OF assms(4)] using assms(2) by (simp add: c)
qed

lemma sample_call_facts:
  "is_call (sample_call a c) \<longleftrightarrow> c \<noteq> []" "action_address (sample_call a c) = a" "entry_name (sample_call a c) = c"
  by (simp_all add: is_call_def entry_name_def action_address_def sample_call_def jprop_def text_or_empty_def v_nullish_def)

lemma sample_premises:
  assumes "permits p ''c2'' ''mint''"
  shows "tx_mints (sample_options p) (tx_value sample_tx) = Inr []" and "shielded_parts (tx_value sample_tx) SHIELDED_KEYS = []"
    and "list_all plain_intent (tx_intents (tx_value sample_tx))"
    and "list_all (action_allowed (so_policy (sample_options p))) (tx_actions (tx_value sample_tx))"
    and "list_all (call_readable (so_policy (sample_options p))) (tx_actions (tx_value sample_tx))"
    and "deploys_fit (sample_options p) 10 (deploys (tx_actions (tx_value sample_tx)))" and "10 \<le> so_maxTxBytes (sample_options p)"
    and "tx_actions (tx_value sample_tx) \<noteq> []"
proof -
  show "tx_mints (sample_options p) (tx_value sample_tx) = Inr []" by (simp add: tx_mints_def sample_options_def)
  show "shielded_parts (tx_value sample_tx) SHIELDED_KEYS = []"
    by (simp add: shielded_parts_def SHIELDED_KEYS_def sample_tx_def jprop_def v_nullish_def inherited_def)
  show "list_all plain_intent (tx_intents (tx_value sample_tx))"
    unfolding tx_intents_def sample_tx_intents
    by (simp add: plain_intent_def actions_of_def v_nullish_def jprop_def inherited_def offerNonEmpty_def UNSHIELDED_KEYS_def)
  show "list_all (action_allowed (so_policy (sample_options p))) (tx_actions (tx_value sample_tx))"
    using assms by (simp add: sample_tx_actions action_allowed_def sample_call_facts sample_options_def)
  show "list_all (call_readable (so_policy (sample_options p))) (tx_actions (tx_value sample_tx))"
    by (simp add: sample_tx_actions call_readable_def sample_call_facts sample_options_def rule_throws_def OBJECT_PROPERTIES_def)
  show "deploys_fit (sample_options p) 10 (deploys (tx_actions (tx_value sample_tx)))"
    by (simp add: sample_tx_actions deploys_fit_def sample_call_facts)
  show "10 \<le> so_maxTxBytes (sample_options p)" by (simp add: sample_options_def)
  show "tx_actions (tx_value sample_tx) \<noteq> []" by (simp add: sample_tx_actions)
qed

lemma sample_floor_permits: "permits sample_floor ''c2'' ''mint''"
  by (simp add: permits_def contract_permitted_def circuit_permitted_def rule_of_def rule_permits_def sample_floor_def)

text \<open>
  The check refuses nothing it should sponsor: a transaction within the size limits whose actions the policy
  allows, with no offers and no dust actions, passes and reports its calls.
\<close>

theorem sponsored_shape_accepts:
  assumes "v_entries (jprop (tx_value tx) ''intents'') = Some es" and "v_truthy (jprop (tx_value tx) ''intents'')"
    and "tx_mints o' (tx_value tx) = Inr mints" and "shielded_parts (tx_value tx) SHIELDED_KEYS = []"
    and "list_all plain_intent (tx_intents (tx_value tx))"
    and "list_all (action_allowed (so_policy o')) (tx_actions (tx_value tx))" and "list_all (call_readable (so_policy o')) (tx_actions (tx_value tx))"
    and "deploys_fit o' n (deploys (tx_actions (tx_value tx)))" and "n \<le> so_maxTxBytes o'" and "tx_actions (tx_value tx) \<noteq> []"
  shows "checkSponsorableShape tx n o' = Inr (map call_of (tx_actions (tx_value tx)), [])"
  by (rule shape_accepts [OF assms])

theorem sponsored_shape_accepts_witness:
  "checkSponsorableShape sample_tx 10 (sample_options sample_floor) = Inr (map call_of [sample_call ''c2'' ''mint''], [])"
  using sponsored_shape_accepts [OF sample_tx_intents sample_premises [OF sample_floor_permits]] by (simp add: sample_tx_actions)

text \<open>
  C15. When a transaction passes the sponsor's check under the policy narrowed by a grant, every one of
  its actions is a call that both the platform and the grant allow (or on a contract the grant deployed), or a deploy that
  both allow; there is at least one action and at most the allowed number of deploys, no intent carries dust
  actions, and the reported calls are exactly the actions in order.
\<close>

theorem sponsored_under_grant:
  assumes "effectiveSponsorPolicy flr (Some g) shared = Inr (so_policy o')" and "rules_ok flr"
    and "checkSponsorableShape tx n o' = Inr (calls, moves)"
  shows "list_all (within_grant flr g) (tx_actions (tx_value tx)) \<and> calls = map call_of (tx_actions (tx_value tx)) \<and> calls \<noteq> []
    \<and> deploys (tx_actions (tx_value tx)) \<le> max_deploys o'
    \<and> list_all (\<lambda>i. \<not> offerNonEmpty (jprop i ''dustActions'')) (tx_intents (tx_value tx))"
  using shape_actions [OF assms(3)] allowed_within_grant [OF assms(1,2)] by (auto simp: list_all_iff)

theorem sponsored_under_grant_witness:
  "list_all (within_grant sample_floor sample_grant) [sample_call ''c2'' ''mint'']"
proof -
  obtain eff where e: "effectiveSponsorPolicy sample_floor (Some sample_grant) [] = Inr eff" "permits eff ''c2'' ''mint''"
    using sample_effective by blast
  have "effectiveSponsorPolicy sample_floor (Some sample_grant) [] = Inr (so_policy (sample_options eff))" "rules_ok sample_floor"
    using e(1) by (simp_all add: sample_options_def rules_ok_def sample_floor_def)
  from sponsored_under_grant [OF this shape_accepts [OF sample_tx_intents sample_premises [OF e(2)]]]
  show ?thesis by (simp add: sample_tx_actions)
qed

lemma total_mints:
  assumes "tx_mints o' v = Inr mints" and "v_truthy (jprop v ''intents'')" and "v_entries (jprop v ''intents'') = Some es"
  shows "amount_of mints t = (case so_deriveTokenType o' of
      Some derive \<Rightarrow> if sp_allowContractMints (so_policy o') then total_mint (contractSponsorable (so_policy o')) derive t v else 0 | None \<Rightarrow> 0)"
  using assms declaredMints_total [OF _ assms(2,3)] by (auto simp: tx_mints_def split: option.splits if_splits)

text \<open>What the calls of a transaction mint of a token type, as far as the policy lets mints be paid for.\<close>

definition paid_mint :: "shape_options \<Rightarrow> jv \<Rightarrow> string \<Rightarrow> int" where
  "paid_mint o' v t =
     (case so_deriveTokenType o' of
        Some derive \<Rightarrow> if sp_allowContractMints (so_policy o') then total_mint (contractSponsorable (so_policy o')) derive t v else 0
      | None \<Rightarrow> 0)"

definition shielded_deltas :: "jv \<Rightarrow> (jv \<times> jv) list" where
  "shielded_deltas v = concat (map offer_deltas (shielded_parts v SHIELDED_KEYS))"

text \<open>
  C16. Shielded value in a sponsored transaction: of a token type that is not on the allow-list, all offers
  together create at most what the calls on sponsorable contracts mint in the same transaction, and
  no offer moves NIGHT. Several offers draw on one budget.
\<close>

theorem mints_cover_offers:
  assumes "checkSponsorableShape tx n o' = Inr (calls, moves)" and "t \<notin> set (map bareHex (sp_allowedTokenTypes (so_policy o')))"
  shows "sum_list (map (created t) (shielded_deltas (tx_value tx))) \<le> paid_mint o' (tx_value tx) t
    \<and> night_free (no_empty (so_nightTokenType o')) (shielded_deltas (tx_value tx))"
proof -
  obtain es mints left where e: "v_entries (jprop (tx_value tx) ''intents'') = Some es" and m: "tx_mints o' (tx_value tx) = Inr mints"
    and o: "check_offers (tx_value tx) (map bareHex (sp_allowedTokenTypes (so_policy o'))) (no_empty (so_nightTokenType o'))
           (contractSponsorable (so_policy o')) SHIELDED_KEYS mints = Inr left"
    using shape_Inr [OF assms(1)] by metis
  have tr: "v_truthy (jprop (tx_value tx) ''intents'')" using assms(1) by (auto simp: checkSponsorableShape_def Let_def split: if_splits)
  have am: "amount_of mints t = paid_mint o' (tx_value tx) t" for t using total_mints [OF m tr e] by (simp add: paid_mint_def)
  have "mints_nonneg mints" by (auto simp: mints_nonneg_def am paid_mint_def total_mint_nonneg split: option.splits)
  then have "0 \<le> amount_of left t" using check_offers_Inr(2) [OF o] by (simp add: mints_nonneg_def)
  then show ?thesis using check_offers_Inr(1,3) [OF o] assms(2) by (simp add: am shielded_deltas_def)
qed

theorem mints_cover_offers_witness:
  "sum_list (map (created ''aa'') (shielded_deltas (tx_value sample_tx))) \<le> paid_mint (sample_options sample_floor) (tx_value sample_tx) ''aa''"
  using mints_cover_offers [OF shape_accepts [OF sample_tx_intents sample_premises [OF sample_floor_permits]], where t = "''aa''"]
  by (simp add: sample_options_def sample_floor_def)


text \<open>One input of 5, a deposit of 3 for the called contract and change of 2 to the owner.\<close>

definition sample_key :: string where "sample_key = replicate 64 (CHR ''a'')"
definition sample_contract :: string where "sample_contract = replicate 64 (CHR ''c'')"

definition sample_coin :: "string \<Rightarrow> int \<Rightarrow> jv" where
  "sample_coin owner v = VObj ''Utxo'' [(''type'', VStr ''00''), (''owner'', VStr owner), (''value'', VBig v)]"

definition sample_offer :: jv where
  "sample_offer = VObj ''UnshieldedOffer'' [(''inputs'', VArr [sample_coin sample_key 5]),
     (''outputs'', VArr [sample_coin sample_contract 3, sample_coin sample_key 2])]"

definition sample_ctx :: unshielded_ctx where
  "sample_ctx = \<lparr>uc_nightType = Some ''00'', uc_tokenTypes = [], uc_listedContract = (\<lambda>_. False), uc_calledContracts = [sample_contract],
     uc_ledgerBalance = VMap [(VObj ''TokenType'' [(''tag'', VStr ''unshielded''), (''raw'', VStr ''00'')], VBig 0)],
     uc_addressFromKey = Some Inr, uc_sponsorInputKeys = []\<rparr>"

lemma bare_replicate: "bareHex (replicate 64 (CHR ''a'')) = replicate 64 (CHR ''a'')" "bareHex (replicate 64 (CHR ''c'')) = replicate 64 (CHR ''c'')"
  by code_simp+

lemma sample_hex: "HEX64_RE sample_key" "HEX64_RE sample_contract" "bareHex sample_key = sample_key" "bareHex sample_contract = sample_contract"
  "sample_key \<noteq> sample_contract" "bareHex ''00'' = ''00''"
  by (simp_all add: sample_key_def sample_contract_def bare_replicate) code_simp+

lemma sample_coin_props:
  "jprop (sample_coin a v) ''type'' = VStr ''00''" "jprop (sample_coin a v) ''owner'' = VStr a" "jprop (sample_coin a v) ''value'' = VBig v"
  by (simp_all add: sample_coin_def jprop_def)

lemma sample_offer_passes:
  "checkUnshieldedOffer sample_offer ''o'' sample_ctx [] = Inr ([\<lparr>um_type = ''00'', um_amount = int_str 3, um_to = sample_contract\<rparr>], [])"
proof -
  have parts: "jprop sample_offer ''inputs'' = VArr [sample_coin sample_key 5]"
    "jprop sample_offer ''outputs'' = VArr [sample_coin sample_contract 3, sample_coin sample_key 2]"
    by (simp_all add: sample_offer_def jprop_def)
  have ctx: "uc_nightType sample_ctx = Some ''00''" "uc_calledContracts sample_ctx = [sample_contract]" "uc_listedContract sample_ctx = (\<lambda>_. False)"
    "uc_addressFromKey sample_ctx = Some Inr" "uc_sponsorInputKeys sample_ctx = []"
    by (simp_all add: sample_ctx_def)
  have bal: "ledgerImbalance (uc_ledgerBalance sample_ctx) ''00'' = Inr (Some 0)"
    by (simp add: ledgerImbalance_def sample_ctx_def jprop_def utxoValue_def sample_hex)
  show ?thesis
    using sample_hex bal
    by (simp add: checkUnshieldedOffer_def parts Let_def sample_coin_props allowedType_def utxoValue_def output_step_def ctx add_new_def amount_of_Cons)
qed


text \<open>
  The halves of a sponsored swap cancel out: for every token type what one half creates the other half takes in, so the
  sponsor adds no value; the terms reported are those of the maker, and only allowed types move.
\<close>

theorem swap_cancels:
  assumes "checkSwapHalves maker taker allowed night maxIn = Inr terms"
  shows "half_creates maker t + half_creates taker t = 0
    \<and> half_creates maker t = (if fst (sw_wants terms) = t then text_int (snd (sw_wants terms)) else 0)
         - (if fst (sw_gives terms) = t then text_int (snd (sw_gives terms)) else 0)
    \<and> (half_creates maker t = 0 \<or> t \<in> set (map bareHex allowed))"
  using checkSwapHalves_Inr [OF assms] by blast

definition sample_half :: "int \<Rightarrow> int \<Rightarrow> jv" where
  "sample_half a b = VObj ''Transaction'' [(''guaranteedOffer'', VObj ''Offer'' [(''inputs'', VArr [VObj ''Input'' []]), (''outputs'', VArr [VObj ''Output'' []]),
     (''deltas'', VMap [(VStr ''aa'', VBig a), (VStr ''bb'', VBig b)])])]"


lemma bare_short: "bareHex ''aa'' = ''aa''" "bareHex ''bb'' = ''bb''"
  by code_simp+

lemma sample_half_terms:
  assumes "a \<noteq> 0" and "b \<noteq> 0" and "(0 < a) \<noteq> (0 < b)"
  shows "swapHalfTerms (sample_half a b) lbl (Some [''aa'', ''bb'']) None 4 prefix
    = Inr (if 0 < a then \<lparr>ht_give = (''aa'', a), ht_want = (''bb'', - b)\<rparr> else \<lparr>ht_give = (''bb'', b), ht_want = (''aa'', - a)\<rparr>)"
  using assms
  by (auto simp: swapHalfTerms_def Let_def plainShieldedOffer_def sample_half_def jprop_def inherited_def carries_def v_nullish_def contract_coin_def bare_short)

theorem swap_cancels_witness: "half_creates (sample_half 7 (- 3)) ''aa'' + half_creates (sample_half (- 7) 3) ''aa'' = 0"
proof -
  have "\<exists>terms. checkSwapHalves (sample_half 7 (- 3)) (sample_half (- 7) 3) [''aa'', ''bb''] None None = Inr terms"
    by (simp add: checkSwapHalves_def Let_def no_empty_def max_half_inputs_def bare_short sample_half_terms mirrored_def)
  then obtain terms where "checkSwapHalves (sample_half 7 (- 3)) (sample_half (- 7) 3) [''aa'', ''bb''] None None = Inr terms" ..
  from swap_cancels [OF this, where t = "''aa''"] show ?thesis by blast
qed

end
