(* ===== verification/Calendar.thy ===== *)
theory Calendar
  imports Prelude
begin

text \<open>
  UTC days and hours as the code writes them: the first characters of \<^verbatim>\<open>toISOString\<close>. Two times of the
  years 0 to 9999 have the same day exactly when they lie in the same 24 hours, so a budget that is kept per
  day text is kept per day.
\<close>

section \<open>Days of the calendar\<close>

definition year_start :: "int \<Rightarrow> int" where
  "year_start y = 365 * y + y div 4 - y div 100"

definition shifted_day :: "int \<Rightarrow> int" where
  "shifted_day doe = doe - doe div 1460 + doe div 36524 - doe div 146096"

lemma shifted_day_mono: "a \<le> b \<Longrightarrow> shifted_day a \<le> shifted_day b"
proof -
  assume ab: "a \<le> b"
  have "b div 1460 - a div 1460 \<le> b - a" using ab by linarith
  moreover have "a div 36524 - a div 146096 \<le> b div 36524 - b div 146096"
  proof -
    have q: "x div 146096 = x div 36524 div 4" for x :: int by (simp add: zdiv_zmult2_eq [symmetric])
    have "a div 36524 \<le> b div 36524" using ab by (simp add: zdiv_mono1)
    then show ?thesis unfolding q [of a] q [of b] by linarith
  qed
  ultimately show ?thesis unfolding shifted_day_def by linarith
qed

lemma year_start_step: "year_start (y + 1) \<le> year_start y + 366"
proof -
  have sum: "365 * (y + 1) + p - r \<le> 365 * y + q - t + 366" if "p \<le> q + 1" "t \<le> r" for p q r t :: int
    using that by (simp add: algebra_simps)
  show ?thesis unfolding year_start_def by (rule sum) linarith+
qed

text \<open>The year formula at both ends of each year of an era.\<close>

definition year_ends :: "int \<Rightarrow> bool" where
  "year_ends y \<longleftrightarrow> shifted_day (year_start y) div 365 \<ge> y \<and> (y = 399 \<or> shifted_day (year_start (y + 1) - 1) div 365 \<le> y)"

lemma year_ends_all: "list_all year_ends [0 .. 399]"
  by code_simp

lemma year_of_day:
  assumes "0 \<le> doe" and "doe < 146097"
  defines "y \<equiv> shifted_day doe div 365"
  shows "0 \<le> y \<and> y \<le> 399" and "year_start y \<le> doe" and "doe \<le> year_start y + 365"
proof -
  have s0: "shifted_day 0 = 0" and s1: "shifted_day 146096 = 145999" by (simp_all add: shifted_day_def)
  show y: "0 \<le> y \<and> y \<le> 399"
    using shifted_day_mono [of 0 doe] shifted_day_mono [of doe 146096] assms(1,2) s0 s1 unfolding y_def by linarith
  have ends: "year_ends z" if "0 \<le> z" "z \<le> 399" for z using year_ends_all that by (simp add: list_all_iff)
  show "year_start y \<le> doe"
  proof (rule ccontr)
    assume "\<not> year_start y \<le> doe"
    then have lt: "doe \<le> year_start y - 1" by simp
    have "y \<noteq> 0" using lt assms(1) by (auto simp: year_start_def)
    then have "shifted_day (year_start y - 1) div 365 \<le> y - 1" using ends [of "y - 1"] y by (simp add: year_ends_def)
    moreover have "shifted_day doe div 365 \<le> shifted_day (year_start y - 1) div 365"
      by (rule zdiv_mono1 [OF shifted_day_mono [OF lt]]) simp
    ultimately show False unfolding y_def [symmetric] by simp
  qed
  show "doe \<le> year_start y + 365"
  proof (cases "y = 399")
    case True
    then show ?thesis using assms(2) by (simp add: year_start_def)
  next
    case False
    have "doe < year_start (y + 1)"
    proof (rule ccontr)
      assume "\<not> doe < year_start (y + 1)"
      then have "shifted_day (year_start (y + 1)) div 365 \<le> shifted_day doe div 365" by (intro zdiv_mono1 shifted_day_mono) simp_all
      moreover have "y + 1 \<le> shifted_day (year_start (y + 1)) div 365" using ends [of "y + 1"] y False by (simp add: year_ends_def)
      ultimately show False unfolding y_def [symmetric] by simp
    qed
    moreover have "year_start (y + 1) \<le> year_start y + 366"
      by (rule year_start_step)
    ultimately show ?thesis by linarith
  qed
qed

text \<open>The day of a date, the inverse of \<^const>\<open>civil_of_days\<close>.\<close>

definition days_of_civil :: "int \<times> int \<times> int \<Rightarrow> int" where
  "days_of_civil c =
     (case c of (y, m, d) \<Rightarrow>
        let y' = (if m \<le> 2 then y - 1 else y); mp = (if m \<le> 2 then m + 9 else m - 3)
        in y' div 400 * 146097 + year_start (y' mod 400) + (153 * mp + 2) div 5 + d - 1 - 719468)"

lemma civil_parts:
  "\<exists>era yoe doy. civil_of_days d
     = (let mp = (5 * doy + 2) div 153; mm = (if mp < 10 then mp + 3 else mp - 9); yy = yoe + era * 400
        in (if mm \<le> 2 then yy + 1 else yy, mm, doy - (153 * mp + 2) div 5 + 1))
   \<and> 0 \<le> yoe \<and> yoe \<le> 399 \<and> 0 \<le> doy \<and> doy \<le> 365 \<and> d = era * 146097 + year_start yoe + doy - 719468"
proof -
  define z where "z = d + 719468"
  define doe where "doe = z mod 146097"
  define yoe where "yoe = shifted_day doe div 365"
  define doy where "doy = doe - year_start yoe"
  have b: "0 \<le> doe" "doe < 146097" by (simp_all add: doe_def)
  note y = year_of_day [OF b, folded yoe_def]
  have "civil_of_days d
     = (let mp = (5 * doy + 2) div 153; mm = (if mp < 10 then mp + 3 else mp - 9); yy = yoe + z div 146097 * 400
        in (if mm \<le> 2 then yy + 1 else yy, mm, doy - (153 * mp + 2) div 5 + 1))"
    unfolding civil_of_days_def Let_def doy_def yoe_def doe_def z_def shifted_day_def year_start_def by (rule refl)
  moreover have "d = z div 146097 * 146097 + year_start yoe + doy - 719468"
  proof -
    have "z = z div 146097 * 146097 + doe" by (simp add: doe_def)
    then show ?thesis by (simp add: doy_def z_def)
  qed
  moreover have "0 \<le> doy" "doy \<le> 365" using y by (simp_all add: doy_def)
  ultimately show ?thesis using y(1) by blast
qed

lemma days_of_civil_inverse: "days_of_civil (civil_of_days d) = d"
proof -
  obtain era yoe doy where c: "civil_of_days d
     = (let mp = (5 * doy + 2) div 153; mm = (if mp < 10 then mp + 3 else mp - 9); yy = yoe + era * 400
        in (if mm \<le> 2 then yy + 1 else yy, mm, doy - (153 * mp + 2) div 5 + 1))"
    and b: "0 \<le> yoe" "yoe \<le> 399" "0 \<le> doy" "doy \<le> 365" and d: "d = era * 146097 + year_start yoe + doy - 719468"
    using civil_parts [of d] by blast
  have mp: "0 \<le> (5 * doy + 2) div 153" "(5 * doy + 2) div 153 \<le> 11" using b by linarith+
  have y: "(yoe + era * 400) div 400 = era" "(yoe + era * 400) mod 400 = yoe" "yoe mod 400 = yoe" using b by simp_all
  show ?thesis unfolding c using mp by (auto simp: Let_def days_of_civil_def y d algebra_simps)
qed

lemma civil_ranges: "case civil_of_days d of (y, m, dd) \<Rightarrow> 1 \<le> m \<and> m \<le> 12 \<and> 1 \<le> dd \<and> dd \<le> 31"
proof -
  obtain era yoe doy where c: "civil_of_days d
     = (let mp = (5 * doy + 2) div 153; mm = (if mp < 10 then mp + 3 else mp - 9); yy = yoe + era * 400
        in (if mm \<le> 2 then yy + 1 else yy, mm, doy - (153 * mp + 2) div 5 + 1))" and b: "0 \<le> doy" "doy \<le> 365"
    using civil_parts [of d] by blast
  define mp where "mp = (5 * doy + 2) div 153"
  have mp: "0 \<le> mp" "mp \<le> 11" using b unfolding mp_def by linarith+
  have r: "5 * doy + 2 = 153 * mp + (5 * doy + 2) mod 153" "0 \<le> (5 * doy + 2) mod 153" "(5 * doy + 2) mod 153 \<le> 152"
    unfolding mp_def by simp_all
  have "0 \<le> doy - (153 * mp + 2) div 5" "doy - (153 * mp + 2) div 5 \<le> 30" using r by linarith+
  then show ?thesis using mp unfolding c mp_def [symmetric] Let_def by simp
qed

section \<open>Texts of days and hours\<close>

lemma length_nat_str: "n < 10 ^ k \<Longrightarrow> 0 < k \<Longrightarrow> length (nat_str n) \<le> k"
proof (induction k arbitrary: n)
  case (Suc k)
  show ?case
  proof (cases "n < 10")
    case True
    then show ?thesis by (subst nat_str.simps) simp
  next
    case False
    then have "0 < k" using Suc.prems(1) by (cases k) auto
    moreover have "n div 10 < 10 ^ k" using Suc.prems(1) by (simp add: less_mult_imp_div_less mult.commute)
    ultimately have "length (nat_str (n div 10)) \<le> k" using Suc.IH by blast
    then show ?thesis using False by (subst nat_str.simps) simp
  qed
qed simp

lemma length_pad: "0 \<le> i \<Longrightarrow> i < 10 ^ k \<Longrightarrow> 0 < k \<Longrightarrow> length (pad k i) = k"
  using length_nat_str [of "nat i" k] by (simp add: pad_def int_str_def nat_less_iff Let_def)

lemma digits_val_zeros: "digits_val (replicate k (CHR ''0'')) 0 = 0"
  by (induction k) auto

lemma pad_val: "0 \<le> i \<Longrightarrow> digits_val (pad k i) 0 = i"
  using nat_str_digits [of "nat i"] by (simp add: pad_def Let_def int_str_def digits_val_append digits_val_zeros)

lemma pad_inject: "pad k i = pad k j \<Longrightarrow> 0 \<le> i \<Longrightarrow> 0 \<le> j \<Longrightarrow> i = j"
  by (metis pad_val)

definition iso_time :: "int \<Rightarrow> bool" where
  "iso_time ms \<longleftrightarrow> (case civil_of_days (ms div ms_per_day) of (y, _) \<Rightarrow> 0 \<le> y \<and> y \<le> 9999)"

text \<open>\<^verbatim>\<open>utcDay\<close> and \<^verbatim>\<open>utcHour\<close> of \<^verbatim>\<open>srv/sessions/agent-grants.ts\<close>.\<close>

definition utcDay :: "int \<Rightarrow> string" where "utcDay nw = take 10 (toISOString nw)"
definition utcHour :: "int \<Rightarrow> string" where "utcHour nw = take 13 (toISOString nw)"

lemma iso_parts:
  assumes "iso_time ms" and "civil_of_days (ms div ms_per_day) = (y, m, d)"
  shows "0 \<le> y" "y \<le> 9999" "0 \<le> m" "m < 100" "0 \<le> d" "d < 100"
    and "utcDay ms = pad 4 y @ ''-'' @ pad 2 m @ ''-'' @ pad 2 d"
    and "utcHour ms = pad 4 y @ ''-'' @ pad 2 m @ ''-'' @ pad 2 d @ ''T'' @ pad 2 (ms mod ms_per_day div ms_per_hour)"
proof -
  show y: "0 \<le> y" "y \<le> 9999" using assms by (auto simp: iso_time_def)
  show r: "0 \<le> m" "m < 100" "0 \<le> d" "d < 100" using civil_ranges [of "ms div ms_per_day"] assms(2) by auto
  have h: "0 \<le> ms mod ms_per_day div ms_per_hour" "ms mod ms_per_day div ms_per_hour < 100"
  proof -
    have "0 \<le> ms mod ms_per_day" "ms mod ms_per_day < ms_per_day" by simp_all
    then show "0 \<le> ms mod ms_per_day div ms_per_hour" "ms mod ms_per_day div ms_per_hour < 100" by linarith+
  qed
  have l: "length (pad 4 y) = 4" "length (pad 2 m) = 2" "length (pad 2 d) = 2" "length (pad 2 (ms mod ms_per_day div ms_per_hour)) = 2"
    using y r h by (auto intro!: length_pad)
  show "utcDay ms = pad 4 y @ ''-'' @ pad 2 m @ ''-'' @ pad 2 d"
    "utcHour ms = pad 4 y @ ''-'' @ pad 2 m @ ''-'' @ pad 2 d @ ''T'' @ pad 2 (ms mod ms_per_day div ms_per_hour)"
    using l by (simp_all add: utcDay_def utcHour_def toISOString_def assms(2) Let_def)
qed

lemma day_text_eq:
  assumes "length a = 4" "length a' = 4" "length b = 2" "length b' = 2"
  shows "a @ ''-'' @ b @ ''-'' @ c = a' @ ''-'' @ b' @ ''-'' @ c' \<longleftrightarrow> a = a' \<and> b = b' \<and> c = c'"
  using assms by (simp add: append_eq_append_conv)

lemma utcDay_eq:
  assumes "iso_time a" and "iso_time b"
  shows "utcDay a = utcDay b \<longleftrightarrow> a div ms_per_day = b div ms_per_day"
proof
  assume eq: "utcDay a = utcDay b"
  obtain y m d where ca: "civil_of_days (a div ms_per_day) = (y, m, d)" by (metis prod_cases3)
  obtain y' m' d' where cb: "civil_of_days (b div ms_per_day) = (y', m', d')" by (metis prod_cases3)
  note pa = iso_parts [OF assms(1) ca] and pb = iso_parts [OF assms(2) cb]
  have l: "length (pad 4 y) = 4" "length (pad 4 y') = 4" "length (pad 2 m) = 2" "length (pad 2 m') = 2"
    using pa(1-4) pb(1-4) by (auto intro!: length_pad)
  have "pad 4 y = pad 4 y'" "pad 2 m = pad 2 m'" "pad 2 d = pad 2 d'"
    using eq unfolding pa(7) pb(7) using day_text_eq [OF l] by blast+
  then have "civil_of_days (a div ms_per_day) = civil_of_days (b div ms_per_day)"
    using pa(1,3,5) pb(1,3,5) pad_inject unfolding ca cb by blast
  then show "a div ms_per_day = b div ms_per_day" by (metis days_of_civil_inverse)
next
  assume "a div ms_per_day = b div ms_per_day"
  then show "utcDay a = utcDay b"
    by (metis assms iso_parts(7) prod_cases3)
qed

lemma hour_split: "a div ms_per_hour = a div ms_per_day * 24 + a mod ms_per_day div ms_per_hour"
proof -
  have e: "a mod ms_per_day + (a div ms_per_day * 24) * ms_per_hour = a"
    using mod_mult_div_eq [of a ms_per_day] by simp
  have "(a mod ms_per_day + (a div ms_per_day * 24) * ms_per_hour) div ms_per_hour
      = a div ms_per_day * 24 + a mod ms_per_day div ms_per_hour"
    by (rule div_mult_self1) simp
  then show ?thesis unfolding e .
qed

lemma utcHour_eq:
  assumes "iso_time a" and "iso_time b"
  shows "utcHour a = utcHour b \<longleftrightarrow> a div ms_per_hour = b div ms_per_hour"
proof -
  obtain y m d where ca: "civil_of_days (a div ms_per_day) = (y, m, d)" by (metis prod_cases3)
  obtain y' m' d' where cb: "civil_of_days (b div ms_per_day) = (y', m', d')" by (metis prod_cases3)
  note pa = iso_parts [OF assms(1) ca] and pb = iso_parts [OF assms(2) cb]
  let ?ha = "a mod ms_per_day div ms_per_hour" and ?hb = "b mod ms_per_day div ms_per_hour"
  have h: "0 \<le> ?ha" "0 \<le> ?hb" by (simp_all add: pos_imp_zdiv_nonneg_iff)
  have ua: "utcHour a = utcDay a @ ''T'' @ pad 2 ?ha" and ub: "utcHour b = utcDay b @ ''T'' @ pad 2 ?hb"
    using pa(7,8) pb(7,8) by simp_all
  have "length (utcDay a) = length (utcDay b)" using pa pb by (simp add: length_pad)
  then have "utcHour a = utcHour b \<longleftrightarrow> utcDay a = utcDay b \<and> pad 2 ?ha = pad 2 ?hb" by (simp add: ua ub)
  also have "\<dots> \<longleftrightarrow> a div ms_per_day = b div ms_per_day \<and> ?ha = ?hb" using utcDay_eq [OF assms] pad_inject h by metis
  also have "\<dots> \<longleftrightarrow> a div ms_per_hour = b div ms_per_hour"
  proof
    assume eq: "a div ms_per_hour = b div ms_per_hour"
    have "x div ms_per_day = x div ms_per_hour div 24" for x :: int by (simp add: zdiv_zmult2_eq [symmetric])
    then have "a div ms_per_day = b div ms_per_day" using eq by metis
    then show "a div ms_per_day = b div ms_per_day \<and> ?ha = ?hb" using eq hour_split [of a] hour_split [of b] by simp
  qed (simp only: hour_split [of a] hour_split [of b])
  finally show ?thesis .
qed

end
