(* ===== verification/Grant_Budget.thy ===== *)
theory Grant_Budget
  imports Grant_Row Calendar Rate_Classes Sponsor_Policy Js_Value
begin

text \<open>
  The budgets of an agent grant (\<^verbatim>\<open>srv/sessions/agent-grants.ts\<close>): jobs per hour and per day, value
  per day, and deploys. Every database statement is one atomic step; a check that needs several runs
  them one after the other, and other requests may run in between.
\<close>

section \<open>Counted budgets\<close>

datatype grant_budget = HOUR_BUDGET | DAY_BUDGET

definition GRANT_BUDGETS :: "grant_budget list" where "GRANT_BUDGETS = [HOUR_BUDGET, DAY_BUDGET]"

fun limitName :: "grant_budget \<Rightarrow> string" where
  "limitName HOUR_BUDGET = ''grant-hour''"
| "limitName DAY_BUDGET = ''grant-day''"

fun budget_max :: "grant_budget \<Rightarrow> agent_grant \<Rightarrow> int option" where
  "budget_max HOUR_BUDGET = ag_maxJobsPerHour"
| "budget_max DAY_BUDGET = ag_maxJobsPerDay"

fun budget_used :: "grant_budget \<Rightarrow> agent_grant \<Rightarrow> int option" where
  "budget_used HOUR_BUDGET = ag_jobsUsedThisHour"
| "budget_used DAY_BUDGET = ag_jobsUsedToday"

fun budget_window :: "grant_budget \<Rightarrow> agent_grant \<Rightarrow> string option" where
  "budget_window HOUR_BUDGET = ag_hourWindow"
| "budget_window DAY_BUDGET = ag_budgetWindow"

fun set_used :: "grant_budget \<Rightarrow> int option \<Rightarrow> agent_grant \<Rightarrow> agent_grant" where
  "set_used HOUR_BUDGET u g = g\<lparr>ag_jobsUsedThisHour := u\<rparr>"
| "set_used DAY_BUDGET u g = g\<lparr>ag_jobsUsedToday := u\<rparr>"

fun set_window :: "grant_budget \<Rightarrow> string option \<Rightarrow> agent_grant \<Rightarrow> agent_grant" where
  "set_window HOUR_BUDGET w g = g\<lparr>ag_hourWindow := w\<rparr>"
| "set_window DAY_BUDGET w g = g\<lparr>ag_budgetWindow := w\<rparr>"

fun windowMs :: "grant_budget \<Rightarrow> int" where
  "windowMs HOUR_BUDGET = ms_per_hour"
| "windowMs DAY_BUDGET = ms_per_day"

fun current_window :: "grant_budget \<Rightarrow> int \<Rightarrow> string" where
  "current_window HOUR_BUDGET nw = utcHour nw"
| "current_window DAY_BUDGET nw = utcDay nw"

text \<open>The next full hour or midnight of UTC, which has no leap seconds.\<close>

definition resetsAt :: "grant_budget \<Rightarrow> int \<Rightarrow> int" where
  "resetsAt b nw = (nw div windowMs b + 1) * windowMs b"

definition usedInWindow :: "agent_grant \<Rightarrow> grant_budget \<Rightarrow> int \<Rightarrow> int" where
  "usedInWindow g b nw =
     (if budget_window b g = Some (current_window b nw) then (case budget_used b g of Some n \<Rightarrow> n | None \<Rightarrow> 0) else 0)"

record budget_view =
  bv_max :: "int option"
  bv_used :: int
  bv_resetsAt :: string

definition budgetView :: "agent_grant \<Rightarrow> grant_budget \<Rightarrow> int \<Rightarrow> budget_view" where
  "budgetView g b nw = \<lparr>bv_max = budget_max b g, bv_used = usedInWindow g b nw, bv_resetsAt = toISOString (resetsAt b nw)\<rparr>"

definition budgetHeaderState :: "agent_grant \<Rightarrow> grant_budget \<Rightarrow> int \<Rightarrow> int \<Rightarrow> rate_limit_state" where
  "budgetHeaderState g b m nw =
     \<lparr>ls_name = limitName b, ls_limit = m, ls_remaining = max (m - usedInWindow g b nw - 1) 0,
      ls_windowSeconds = windowMs b div 1000, ls_resetSeconds = ceil_s (resetsAt b nw - nw)\<rparr>"

text \<open>The two statements of a take, from the row \<open>g\<close> the request read, and the statement of a refund.\<close>

definition reset_stmt :: "grant_budget \<Rightarrow> string \<Rightarrow> string option \<Rightarrow> string \<Rightarrow> grants \<Rightarrow> nat \<times> grants" where
  "reset_stmt b gid read w =
     update_where (\<lambda>g. ag_ID g = gid \<and> budget_window b g = read) (\<lambda>g. set_used b (Some 1) (set_window b (Some w) g))"

definition incr_stmt :: "grant_budget \<Rightarrow> string \<Rightarrow> string \<Rightarrow> int \<Rightarrow> grants \<Rightarrow> nat \<times> grants" where
  "incr_stmt b gid w m =
     update_where (\<lambda>g. ag_ID g = gid \<and> budget_window b g = Some w \<and> sql_lt (budget_used b g) m)
                  (\<lambda>g. set_used b (sql_add (budget_used b g) 1) g)"

definition refund_stmt :: "grant_budget \<Rightarrow> string \<Rightarrow> string \<Rightarrow> grants \<Rightarrow> nat \<times> grants" where
  "refund_stmt b gid w =
     update_where (\<lambda>g. ag_ID g = gid \<and> budget_window b g = Some w \<and> sql_ge (budget_used b g) 1)
                  (\<lambda>g. set_used b (sql_add (budget_used b g) (- 1)) g)"

definition consumeBudget :: "agent_grant \<Rightarrow> grant_budget \<Rightarrow> int \<Rightarrow> int \<Rightarrow> grants \<Rightarrow> bool \<times> grants" where
  "consumeBudget g b m nw gs =
     (let w = current_window b nw;
          increment = (\<lambda>rows. case incr_stmt b (ag_ID g) w m rows of (n, rows') \<Rightarrow> (0 < n, rows'))
      in if budget_window b g \<noteq> Some w
         then (case reset_stmt b (ag_ID g) (budget_window b g) w gs of (n, gs') \<Rightarrow> if 0 < n then (True, gs') else increment gs')
         else increment gs)"

definition refundBudget :: "agent_grant \<Rightarrow> grant_budget \<Rightarrow> int \<Rightarrow> grants \<Rightarrow> grants" where
  "refundBudget g b nw gs = snd (refund_stmt b (ag_ID g) (current_window b nw) gs)"

section \<open>Deploys\<close>

text \<open>\<open>read\<close> is the row the reservation read; it may be older than the table the update runs on.\<close>

definition reserve_stmt :: "string \<Rightarrow> int \<Rightarrow> int \<Rightarrow> grants \<Rightarrow> nat \<times> grants" where
  "reserve_stmt gid count m =
     update_where (\<lambda>g. ag_ID g = gid \<and> ag_isActive g = Some True \<and> ag_allowDeploy g = Some True \<and> sql_le (ag_deploysUsed g) (m - count))
                  (\<lambda>g. g\<lparr>ag_deploysUsed := sql_add (ag_deploysUsed g) count\<rparr>)"

definition deploy_limit :: "agent_grant \<Rightarrow> int" where
  "deploy_limit g = (case ag_maxDeploys g of Some m \<Rightarrow> m | None \<Rightarrow> 1)"

definition reserveDeployBudget :: "string \<Rightarrow> int \<Rightarrow> agent_grant option \<Rightarrow> grants \<Rightarrow> bool \<times> grants" where
  "reserveDeployBudget gid count read gs =
     (if gid = [] \<or> count < 1 then (False, gs)
      else case read of
        None \<Rightarrow> (False, gs)
      | Some g \<Rightarrow>
          if ag_isActive g = Some False \<or> ag_allowDeploy g \<noteq> Some True then (False, gs)
          else (case reserve_stmt gid count (deploy_limit g) gs of (n, gs') \<Rightarrow> (0 < n, gs')))"

definition releaseDeployBudget :: "string \<Rightarrow> int \<Rightarrow> grants \<Rightarrow> grants" where
  "releaseDeployBudget gid count gs = (if gid = [] \<or> count < 1 then gs else snd (deployRefund gid count gs))"

section \<open>Value per day\<close>

text \<open>A stored map from token types to amounts, both as text.\<close>

type_synonym value_map = "(string \<times> string) list"

definition is_amount :: "string \<Rightarrow> bool" where
  "is_amount s \<longleftrightarrow> s \<noteq> [] \<and> list_all is_digit s"

fun value_entries :: "(string \<times> json) list \<Rightarrow> value_map \<Rightarrow> value_map" where
  "value_entries [] out = out"
| "value_entries ((t, v) # es) out =
     (case v of
        JStr amount \<Rightarrow> if HEX64_RE t \<and> is_amount amount then value_entries es (map_put t amount out) else value_entries es out
      | _ \<Rightarrow> value_entries es out)"

definition parseValueBudgetMap :: "json_text option \<Rightarrow> value_map" where
  "parseValueBudgetMap raw =
     (case raw of
        None \<Rightarrow> []
      | Some t \<Rightarrow> (case json_parse t of Some (JObj kvs) \<Rightarrow> value_entries kvs [] | _ \<Rightarrow> []))"

definition value_json :: "value_map \<Rightarrow> json_text" where
  "value_json m = JText (JObj (map (\<lambda>(t, a). (t, JStr a)) m))"

definition value_of_map :: "value_map \<Rightarrow> string \<Rightarrow> int" where
  "value_of_map m t = (case map_of m t of Some a \<Rightarrow> digits_val a 0 | None \<Rightarrow> 0)"

text \<open>What a grant may still do: the row when it exists, is active and has not expired.\<close>

definition grantExpired :: "agent_grant \<Rightarrow> int \<Rightarrow> bool" where
  "grantExpired g nw = (case ag_validUntil g of Some u \<Rightarrow> u < nw | None \<Rightarrow> False)"

definition currentGrantRow :: "string \<Rightarrow> int \<Rightarrow> grants \<Rightarrow> agent_grant option" where
  "currentGrantRow gid nw gs =
     (case select_one (\<lambda>g. ag_ID g = gid) gs of
        None \<Rightarrow> None
      | Some g \<Rightarrow> if ag_isActive g = Some False \<or> ag_revokedAt g \<noteq> None \<or> grantExpired g nw then None else Some g)"

definition usedValues :: "agent_grant \<Rightarrow> int \<Rightarrow> value_map" where
  "usedValues g nw = (if ag_valueWindow g = Some (utcDay nw) then parseValueBudgetMap (ag_valueUsedToday g) else [])"

datatype value_outcome = NotLimited | Taken | Exceeded string int

definition put_value :: "string \<Rightarrow> string \<Rightarrow> value_map \<Rightarrow> grants \<Rightarrow> grants" where
  "put_value gid w used gs =
     snd (update_where (\<lambda>g. ag_ID g = gid) (\<lambda>g. g\<lparr>ag_valueWindow := Some w, ag_valueUsedToday := Some (value_json used)\<rparr>) gs)"

text \<open>The part of \<^verbatim>\<open>consumeValueBudget\<close> under the lock of the grant.\<close>

definition take_value :: "string \<Rightarrow> string \<Rightarrow> int \<Rightarrow> int \<Rightarrow> grants \<Rightarrow> value_outcome \<times> grants" where
  "take_value gid t amount nw gs =
     (case currentGrantRow gid nw gs of
        None \<Rightarrow> (NotLimited, gs)
      | Some g \<Rightarrow>
          (case map_of (parseValueBudgetMap (ag_maxValuePerDay g)) t of
             None \<Rightarrow> (NotLimited, gs)
           | Some m \<Rightarrow>
               (let used = usedValues g nw; usedNow = value_of_map used t in
                if digits_val m 0 < usedNow + amount then (Exceeded m usedNow, gs)
                else (Taken, put_value gid (utcDay nw) (map_put t (int_str (usedNow + amount)) used) gs))))"

definition consumeValueBudget ::
    "string \<Rightarrow> string \<Rightarrow> int \<Rightarrow> int \<Rightarrow> response \<Rightarrow> rate_state \<Rightarrow> grants \<Rightarrow> (bool \<times> value_outcome) \<times> (response \<times> rate_state) \<times> grants" where
  "consumeValueBudget gid tokenType amount nw r st gs =
     (let t = toLowerCase tokenType in
      if amount \<le> 0 then ((True, NotLimited), (r, st), gs)
      else case take_value gid t amount nw gs of
        (Exceeded m used, gs') \<Rightarrow>
          ((False, Exceeded m used),
           rejectRateLimited \<lparr>rf_name = ''grant-value'', rf_limit = min (digits_val m 0) MAX_SAFE_INTEGER, rf_windowSeconds = windowMs DAY_BUDGET div 1000,
             rf_retryAfterMs = resetsAt DAY_BUDGET nw - nw,
             rf_detail = Some (''grant-value: token type '' @ take 16 t @ ELLIPSIS @ '' has '' @ int_str used @ '' of '' @ m
               @ '' atoms moved today, '' @ int_str amount @ '' asked'')\<rparr> r st, gs')
      | (outcome, gs') \<Rightarrow> ((True, outcome), (r, st), gs'))"

definition refundValueBudget :: "string \<Rightarrow> string \<Rightarrow> int \<Rightarrow> int \<Rightarrow> grants \<Rightarrow> grants" where
  "refundValueBudget gid t amount nw gs =
     (case currentGrantRow gid nw gs of
        None \<Rightarrow> gs
      | Some g \<Rightarrow>
          if ag_valueWindow g \<noteq> Some (utcDay nw) then gs
          else (let used = parseValueBudgetMap (ag_valueUsedToday g); left = value_of_map used t - amount
                in snd (update_where (\<lambda>g. ag_ID g = gid)
                          (\<lambda>g. g\<lparr>ag_valueUsedToday := Some (value_json (map_put t (int_str (max 0 left)) used))\<rparr>) gs)))"

record value_view =
  vv_tokenType :: string
  vv_max :: string
  vv_used :: string
  vv_resetsAt :: string

definition valueBudgetView :: "agent_grant \<Rightarrow> int \<Rightarrow> value_view list" where
  "valueBudgetView g nw =
     (let used = usedValues g nw in
      map (\<lambda>(t, a). \<lparr>vv_tokenType = t, vv_max = a, vv_used = (case map_of used t of Some u \<Rightarrow> u | None \<Rightarrow> ''0''),
                     vv_resetsAt = toISOString (resetsAt DAY_BUDGET nw)\<rparr>)
          (parseValueBudgetMap (ag_maxValuePerDay g)))"

text \<open>
  \<^verbatim>\<open>refundOnClientError\<close>: the units a request took are given back when it ends with a 4xx status, which started
  no job.
\<close>

definition refundable :: "int option \<Rightarrow> bool" where
  "refundable status = (case status of Some s \<Rightarrow> 400 \<le> s \<and> s < 500 | None \<Rightarrow> False)"

end
