(* ===== verification/Session_Expiry.thy ===== *)
theory Session_Expiry
  imports Prelude
begin

text \<open>
  When a wallet session has expired (\<^verbatim>\<open>srv/utils/session-expiry.ts\<close>). The sessions that pay for other
  users are listed in the environment or the plugin configuration and never expire. The list of the
  environment and the configuration value are arguments.
\<close>

datatype fee_sessions = FeeList "string list" | FeeText string

fun fee_text :: "fee_sessions \<Rightarrow> string" where
  "fee_text (FeeList ids) = join '','' ids"
| "fee_text (FeeText s) = s"

definition getConfiguredFeeSponsorSessions :: "string list \<Rightarrow> fee_sessions option \<Rightarrow> string list" where
  "getConfiguredFeeSponsorSessions fromEnv configured =
     (if fromEnv \<noteq> [] then fromEnv
      else case configured of
        None \<Rightarrow> []
      | Some v \<Rightarrow> (if fee_text v = [] then [] else filter (\<lambda>s. s \<noteq> []) (map trim (split_at_char (CHR '','') (fee_text v)))))"

definition isConfiguredPlatformSponsor :: "string list \<Rightarrow> string option \<Rightarrow> bool" where
  "isConfiguredPlatformSponsor pool sid = (case sid of Some s \<Rightarrow> s \<noteq> [] \<and> s \<in> set pool | None \<Rightarrow> False)"

definition isSessionExpired :: "string list \<Rightarrow> string option \<Rightarrow> int option \<Rightarrow> int \<Rightarrow> bool" where
  "isSessionExpired pool sid expiresAt nw =
     (case expiresAt of None \<Rightarrow> False | Some t \<Rightarrow> \<not> isConfiguredPlatformSponsor pool sid \<and> t < nw)"

lemma configured_sessions_nonempty: "list_all (\<lambda>s. s \<noteq> []) fromEnv \<Longrightarrow> s \<in> set (getConfiguredFeeSponsorSessions fromEnv v) \<Longrightarrow> s \<noteq> []"
  by (auto simp: getConfiguredFeeSponsorSessions_def list_all_iff split: if_splits option.splits)

lemma platform_sponsor_lasts: "isConfiguredPlatformSponsor pool sid \<Longrightarrow> \<not> isSessionExpired pool sid t nw"
  by (simp add: isSessionExpired_def split: option.splits)

end
