(* ===== verification/Grant_Scope.thy ===== *)
theory Grant_Scope
  imports Grant_Budget Session_Expiry
begin

text \<open>
  What a request or a queued job may do under an agent grant (\<^verbatim>\<open>srv/sessions/agent-grants.ts\<close>): the
  actions, entities and circuits, the check of a stored job against the grant as it is now, and the
  gate every request with an agent token goes through.
\<close>

section \<open>Actions and entities\<close>

definition AGENT_ALLOWLISTABLE_ACTIONS :: "string list" where
  "AGENT_ALLOWLISTABLE_ACTIONS =
     [''anchorDocument'', ''attestAgentOutput'', ''issueFieldPredicateAttestation'', ''issueFieldEqualityAttestation'',
      ''issueFieldMembershipAttestation'', ''issueFieldPredicateAttestationBatch'', ''issueDocumentIntegrityAttestation'',
      ''issueDocumentDiffAttestation'', ''grantDisclosure'', ''revokeDisclosure'', ''reindexDisclosures'',
      ''sponsorFinalizedTransaction'', ''sponsorUnboundTransaction'', ''sponsorSwap'', ''sponsorTransfer'', ''postSwapOffer'',
      ''retireSwapOffer'', ''grantDisclosureToHolders'', ''revokeHolderDisclosure'', ''mintFactoryToken'', ''burnFactoryToken'']"

definition POOL_NEUTRAL_ACTIONS :: "string list" where
  "POOL_NEUTRAL_ACTIONS = [''postSwapOffer'', ''retireSwapOffer'']"

definition POOL_PAID_SESSION_ACTIONS :: "string list" where
  "POOL_PAID_SESSION_ACTIONS = [''mintFactoryToken'']"

definition SPONSOR_TRANSACTION_ACTIONS :: "string list" where
  "SPONSOR_TRANSACTION_ACTIONS = [''sponsorFinalizedTransaction'', ''sponsorUnboundTransaction'']"

definition SPONSOR_SWAP_ACTION :: string where "SPONSOR_SWAP_ACTION = ''sponsorSwap''"
definition SPONSOR_TRANSFER_ACTION :: string where "SPONSOR_TRANSFER_ACTION = ''sponsorTransfer''"

definition SPONSOR_PHASE2_ACTIONS :: "string list" where
  "SPONSOR_PHASE2_ACTIONS = SPONSOR_TRANSACTION_ACTIONS @ [SPONSOR_SWAP_ACTION, SPONSOR_TRANSFER_ACTION]"

definition AGENT_READABLE_ENTITIES :: "string list" where
  "AGENT_READABLE_ENTITIES =
     [''Blocks'', ''Transactions'', ''TransactionResults'', ''TransactionSegments'', ''TransactionFees'', ''ContractActions'',
      ''ContractBalances'', ''ContractStates'', ''UnshieldedUtxos'', ''ZswapLedgerEvents'', ''DustLedgerEvents'', ''NightBalances'',
      ''PredicateAttestations'', ''DisclosureGrants'', ''WalletSessions'', ''PendingSubmissions'', ''AgentGrants'', ''Documents'']"

definition AGENT_ALWAYS_ALLOWED_EVENTS :: "string list" where
  "AGENT_ALWAYS_ALLOWED_EVENTS =
     [''READ'', ''verifyDocument'', ''verifyAttestationState'', ''verifyPredicateState'', ''verifyPredicateAttestation'',
      ''prepareDocumentProof'', ''prepareMembershipSet'', ''deriveTokenType'', ''listSwapOffers'', ''getSwapOffer'', ''claimDisclosure'',
      ''getJobStatus'', ''getGrantUsage'', ''latest'', ''byHeight'', ''range'', ''byHash'', ''byIdentifier'', ''byType'', ''byAddress'',
      ''history'', ''stateAt'', ''byOwner'', ''unspent'', ''getBalance'', ''getTopHolders'']"

text \<open>\<^verbatim>\<open>PLATFORM_POOL_SENTINEL\<close> of \<^verbatim>\<open>srv/submission/sponsor-pool.ts\<close>.\<close>

definition PLATFORM_POOL_SENTINEL :: string where
  "PLATFORM_POOL_SENTINEL = ''00000000-0000-0000-0000-706f6f6c0000''"

definition grantRowPolicy :: "agent_grant \<Rightarrow> grant_policy" where
  "grantRowPolicy row =
     (let actions = parseJsonStringList (ag_allowedActions row) in
      \<lparr>gp_allowedContracts = parseJsonStringList (ag_allowedContracts row),
       gp_allowedCircuits = parseJsonStringList (ag_allowedCircuits row),
       gp_allowDeploy = (ag_allowDeploy row = Some True),
       gp_deployedContracts = parseJsonStringList (ag_deployedContracts row),
       gp_allowedTokenTypes = parseJsonStringList (ag_allowedTokenTypes row),
       gp_mintedTokenTypes = parseJsonStringList (ag_mintedTokenTypes row),
       gp_allowSwaps = (SPONSOR_SWAP_ACTION \<in> set actions),
       gp_allowTransfers = (SPONSOR_TRANSFER_ACTION \<in> set actions),
       gp_allowUnshieldedOffers = (ag_allowUnshieldedOffers row = Some True),
       gp_allowedUnshieldedTokenTypes = parseJsonStringList (ag_allowedUnshieldedTokenTypes row)\<rparr>)"

definition currentGrantPolicy :: "string \<Rightarrow> int \<Rightarrow> grants \<Rightarrow> grant_policy option" where
  "currentGrantPolicy gid nw gs = map_option grantRowPolicy (currentGrantRow gid nw gs)"

section \<open>What a grant has produced\<close>

text \<open>
  The lists a grant collects, each written under a lock of the grant. The log lines are left out; an
  error of the database in \<^verbatim>\<open>recordDeployedContracts\<close> reaches the caller, one in
  \<^verbatim>\<open>recordMintedTokenTypes\<close> does not.
\<close>

definition recordDeployedContracts :: "string \<Rightarrow> string list \<Rightarrow> grants \<Rightarrow> grants" where
  "recordDeployedContracts gid addresses gs =
     (let fresh = filter (\<lambda>a. a \<noteq> []) (map trim addresses) in
      if gid = [] \<or> fresh = [] then gs
      else case select_one (\<lambda>g. ag_ID g = gid) gs of
        None \<Rightarrow> gs
      | Some g \<Rightarrow>
          (let current = parseJsonStringList (ag_deployedContracts g); merged = fold add_new fresh current in
           if length merged = length current then gs
           else snd (update_where (\<lambda>r. ag_ID r = gid) (\<lambda>r. r\<lparr>ag_deployedContracts := Some (json_of_strings merged)\<rparr>) gs)))"

definition recordMintedTokenTypes :: "string \<Rightarrow> string list \<Rightarrow> grants \<Rightarrow> grants" where
  "recordMintedTokenTypes gid types gs =
     (let fresh = js_set (filter HEX64_RE (map (\<lambda>t. toLowerCase (trim t)) types)) in
      if gid = [] \<or> fresh = [] then gs
      else case select_one (\<lambda>g. ag_ID g = gid) gs of
        None \<Rightarrow> gs
      | Some g \<Rightarrow>
          (let current = parseJsonStringList (ag_mintedTokenTypes g); added = filter (\<lambda>t. t \<notin> set current) fresh in
           if added = [] \<or> MAX_POLICY_ENTRIES < length current + length added then gs
           else snd (update_where (\<lambda>r. ag_ID r = gid) (\<lambda>r. r\<lparr>ag_mintedTokenTypes := Some (json_of_strings (current @ added))\<rparr>) gs)))"

section \<open>Circuits and contracts\<close>

text \<open>The list of calls as a request carries it: JSON text, or a value that is not a string.\<close>

datatype calls_value = CallsText json_text | CallsValue json

text \<open>The properties the scope check reads. \<^const>\<open>None\<close> is undefined.\<close>

record scope_data =
  sd_contractAddress :: "json option"
  sd_circuit :: "json option"
  sd_circuits :: "json option"
  sd_calls :: "calls_value option"

definition no_scope_data :: scope_data where
  "no_scope_data = \<lparr>sd_contractAddress = None, sd_circuit = None, sd_circuits = None, sd_calls = None\<rparr>"

definition ACTION_CIRCUITS :: "(string \<times> string list) list" where
  "ACTION_CIRCUITS =
     [(''issueFieldPredicateAttestation'', [''anchorContentRoot'', ''proveFieldPredicate'']),
      (''issueFieldEqualityAttestation'', [''anchorContentRoot'', ''proveFieldEquality'']),
      (''issueFieldMembershipAttestation'', [''anchorContentRoot'', ''proveFieldMembership'']),
      (''issueFieldPredicateAttestationBatch'',
         [''anchorContentRoot'', ''proveFieldPredicate'', ''proveFieldEquality'', ''proveFieldMembership'', ''proveDocumentComparison'']),
      (''issueDocumentIntegrityAttestation'', [''anchorContentRoot'', ''proveDocumentComparison'']),
      (''issueDocumentDiffAttestation'', [''anchorContentRoot'', ''proveDocumentComparison'']),
      (''grantDisclosure'', [''grantDisclosure'']),
      (''revokeDisclosure'', [''revokeDisclosure'']),
      (''reindexDisclosures'', []),
      (''mintFactoryToken'', [''mint'']),
      (''burnFactoryToken'', [''burn''])]"

definition OP_CIRCUITS :: "(string \<times> string list) list" where
  "OP_CIRCUITS =
     [(''fieldPredicateWorkflow'', [''anchorContentRoot'', ''proveFieldPredicate'']),
      (''fieldEqualityWorkflow'', [''anchorContentRoot'', ''proveFieldEquality'']),
      (''fieldMembershipWorkflow'', [''anchorContentRoot'', ''proveFieldMembership'']),
      (''fieldPredicateBatchWorkflow'',
         [''anchorContentRoot'', ''proveFieldPredicate'', ''proveFieldEquality'', ''proveFieldMembership'', ''proveDocumentComparison'']),
      (''documentIntegrityWorkflow'', [''anchorContentRoot'', ''proveDocumentComparison'']),
      (''documentDiffWorkflow'', [''anchorContentRoot'', ''proveDocumentComparison'']),
      (''anchorDocument'', [''attest'']),
      (''grantDisclosure'', [''grantDisclosure'']),
      (''revokeDisclosure'', [''revokeDisclosure'']),
      (''registerPassport'', [''registerDocument'']),
      (''retract'', [''retract''])]"

fun add_circuits :: "json list \<Rightarrow> string list \<Rightarrow> string list option" where
  "add_circuits [] out = Some out"
| "add_circuits (c # cs) out = (case c of JStr s \<Rightarrow> add_circuits cs (add_new s out) | _ \<Rightarrow> None)"

definition call_name :: "json \<Rightarrow> string option" where
  "call_name call =
     (let name = (case json_field ''circuit'' call of Some v \<Rightarrow> if v = JNull then json_field ''name'' call else Some v
                  | None \<Rightarrow> json_field ''name'' call)
      in case name of Some (JStr s) \<Rightarrow> if s = [] then None else Some s | _ \<Rightarrow> None)"

fun add_calls :: "json list \<Rightarrow> string list \<Rightarrow> string list option" where
  "add_calls [] out = Some out"
| "add_calls (c # cs) out = (case call_name c of Some n \<Rightarrow> add_calls cs (add_new n out) | None \<Rightarrow> None)"

fun calls_json :: "calls_value \<Rightarrow> json option" where
  "calls_json (CallsText t) = json_parse t"
| "calls_json (CallsValue v) = Some v"

definition known_circuits :: "string \<Rightarrow> bool \<times> string list" where
  "known_circuits event =
     (if event = ''anchorDocument'' \<or> event = ''attestAgentOutput'' then (True, [''attest''])
      else case map_of ACTION_CIRCUITS event of Some cs \<Rightarrow> (True, fold add_new cs []) | None \<Rightarrow> (False, []))"

definition with_circuit :: "json option \<Rightarrow> bool \<times> string list \<Rightarrow> bool \<times> string list" where
  "with_circuit v st = (case v of Some (JStr s) \<Rightarrow> (True, add_new s (snd st)) | _ \<Rightarrow> st)"

definition with_circuits :: "json option \<Rightarrow> bool \<times> string list \<Rightarrow> (bool \<times> string list) option" where
  "with_circuits v st = (case v of Some (JArr vs) \<Rightarrow> map_option (Pair True) (add_circuits vs (snd st)) | _ \<Rightarrow> Some st)"

definition with_calls :: "calls_value option \<Rightarrow> bool \<times> string list \<Rightarrow> (bool \<times> string list) option" where
  "with_calls v st =
     (if v = None \<or> v = Some (CallsValue JNull) then Some st
      else case calls_json (the v) of Some (JArr vs) \<Rightarrow> map_option (Pair True) (add_calls vs (snd st)) | _ \<Rightarrow> None)"

definition circuitsOfRequest :: "string \<Rightarrow> scope_data \<Rightarrow> string list option" where
  "circuitsOfRequest event d =
     (case with_circuits (sd_circuits d) (with_circuit (sd_circuit d) (known_circuits event)) of
        None \<Rightarrow> None
      | Some st \<Rightarrow>
          (case with_calls (sd_calls d) st of None \<Rightarrow> None | Some (known, out) \<Rightarrow> if known then Some out else None))"

fun first_outside :: "string list \<Rightarrow> string list \<Rightarrow> string option" where
  "first_outside allowed [] = None"
| "first_outside allowed (c # cs) = (if c \<in> set allowed then first_outside allowed cs else Some c)"

definition contract_violation :: "agent_grant \<Rightarrow> json option \<Rightarrow> string option" where
  "contract_violation g v =
     (let contracts = map toLowerCase (parseJsonStringList (ag_allowedContracts g)) in
      case v of
        Some (JStr a) \<Rightarrow>
          if contracts \<noteq> [] \<and> a \<noteq> [] \<and> toLowerCase a \<notin> set contracts
          then Some (''contract '' @ quoted (take 16 a) @ '' is not in this agent grant'' @ [CHR 0x27] @ ''s allowedContracts'') else None
      | _ \<Rightarrow> None)"

definition circuit_violation :: "agent_grant \<Rightarrow> scope_data \<Rightarrow> string \<Rightarrow> string option" where
  "circuit_violation g d event =
     (let circuits = parseJsonStringList (ag_allowedCircuits g) in
      if circuits = [] then None
      else case circuitsOfRequest event d of
        None \<Rightarrow> Some (''action '' @ quoted (take 64 event) @ '' cannot be matched against this agent grant'' @ [CHR 0x27] @ ''s allowedCircuits'')
      | Some required \<Rightarrow>
          map_option (\<lambda>c. ''circuit '' @ quoted (take 64 c) @ '' is not in this agent grant'' @ [CHR 0x27] @ ''s allowedCircuits'')
                     (first_outside circuits required))"

definition grantScopeViolation :: "agent_grant \<Rightarrow> scope_data \<Rightarrow> string \<Rightarrow> string option" where
  "grantScopeViolation g d event = (case contract_violation g (sd_contractAddress d) of Some m \<Rightarrow> Some m | None \<Rightarrow> circuit_violation g d event)"

section \<open>A queued job against the grant as it is now\<close>

record job_command =
  jc_mode :: "json option"
  jc_op :: "json option"
  jc_contractAddress :: "json option"
  jc_circuit :: "json option"
  jc_calls :: "json option"

definition actionsOfJob :: "string \<Rightarrow> json option \<Rightarrow> string list" where
  "actionsOfJob kind mode =
     (if kind = ''retract'' then (if mode = Some (JNum 1) then [''purgeExpired''] else [''retractAttestation''])
      else if kind = ''anchorDocument'' then [''anchorDocument'', ''attestAgentOutput''] else [kind])"

definition command_op :: "job_command \<Rightarrow> string" where
  "command_op c = (case jc_op c of None \<Rightarrow> [] | Some JNull \<Rightarrow> [] | Some v \<Rightarrow> js_String v)"

definition command_scope :: "job_command \<Rightarrow> scope_data" where
  "command_scope c =
     \<lparr>sd_contractAddress = jc_contractAddress c,
      sd_circuit = (case jc_circuit c of Some (JStr s) \<Rightarrow> Some (JStr s) | _ \<Rightarrow> None),
      sd_circuits = map_option (\<lambda>cs. JArr (map JStr cs)) (map_of OP_CIRCUITS (command_op c)),
      sd_calls = (case jc_calls c of Some (JArr vs) \<Rightarrow> Some (CallsValue (JArr vs)) | _ \<Rightarrow> None)\<rparr>"

text \<open>
  \<open>parent\<close> is the identifier of the parent job, empty or absent for a job of its own. An operation named
  like a property every object has finds that property in the table of circuits, which cannot be spread
  into a list: the check throws.
\<close>

definition grantJobScopeViolation :: "agent_grant \<Rightarrow> string \<Rightarrow> string option \<Rightarrow> string option \<Rightarrow> job_command \<Rightarrow> string option result" where
  "grantJobScopeViolation g kind parent parentKind command =
     (let isChild = (parent \<noteq> None \<and> parent \<noteq> Some []);
          admitted = (if isChild then (case parentKind of Some k \<Rightarrow> k | None \<Rightarrow> []) else kind);
          allowed = parseJsonStringList (ag_allowedActions g);
          actions = actionsOfJob admitted (if isChild then None else jc_mode command)
      in if admitted = [] then Inr (Some ''the action the parent job was admitted as is unknown'')
         else if \<not> (\<exists>a \<in> set actions. a \<in> set allowed)
         then Inr (Some (''action '' @ quoted (hd actions) @ '' is no longer allowed for this agent grant''))
         else if command_op command \<in> set OBJECT_PROPERTIES then Inl (js_Error ''OP_CIRCUITS[op] is not iterable'')
         else Inr (grantScopeViolation g (command_scope command) (command_op command)))"

end
