(* ===== verification/Fee_Sponsor.thy ===== *)
theory Fee_Sponsor
  imports Session_Expiry
begin

text \<open>
  Which wallet session may pay for another user (\<^verbatim>\<open>srv/submission/fee-sponsor.ts\<close>), and the sessions
  table it is read from (\<^verbatim>\<open>WalletSessions\<close> of \<^verbatim>\<open>db/schema.cds\<close>). Decryption and the derivation of an
  account from its viewing key are arguments; the key a value is decrypted with is bound to its column
  and its session (\<^verbatim>\<open>srv/utils/envelope-bindings.ts\<close>).
\<close>

record wallet_session =
  ws_sessionId :: string
  ws_userId :: "string option"
  ws_isActive :: "bool option"
  ws_expiresAt :: "int option"
  ws_encryptedViewingKey :: "string option"
  ws_encryptedSeedKey :: "string option"
  ws_accountIndex :: "int option"

record envelope_binding =
  eb_purpose :: string
  eb_subject :: string

definition walletSessionViewingKeyBinding :: "string \<Rightarrow> envelope_binding" where
  "walletSessionViewingKeyBinding sid = \<lparr>eb_purpose = ''wallet-session/viewing-key'', eb_subject = sid\<rparr>"

definition walletSessionSeedBinding :: "string \<Rightarrow> envelope_binding" where
  "walletSessionSeedBinding sid = \<lparr>eb_purpose = ''wallet-session/seed'', eb_subject = sid\<rparr>"

record wallet_crypto =
  wc_decrypt :: "string \<Rightarrow> envelope_binding \<Rightarrow> string option"
  wc_deriveAccountId :: "string \<Rightarrow> string"
  wc_deriveStoragePassword :: "string \<Rightarrow> string"

text \<open>A \<^verbatim>\<open>FeeSponsorError\<close> is its HTTP status and its message.\<close>

record fee_sponsor_error =
  fe_status :: nat
  fe_message :: string

definition FeeSponsorError :: "nat \<Rightarrow> string \<Rightarrow> fee_sponsor_error" where
  "FeeSponsorError status m = \<lparr>fe_status = status, fe_message = m\<rparr>"

record fee_sponsor =
  fs_sponsorSessionId :: string
  fs_accountId :: string
  fs_seedHex :: string
  fs_syncStatePassphrase :: string
  fs_accountIndex :: int

definition filled :: "string option \<Rightarrow> bool" where
  "filled v \<longleftrightarrow> v \<noteq> None \<and> v \<noteq> Some []"

text \<open>Only a listed sponsor may be used by someone else than its owner.\<close>

definition sponsor_row :: "string list \<Rightarrow> string \<Rightarrow> string option \<Rightarrow> wallet_session list \<Rightarrow> fee_sponsor_error + wallet_session" where
  "sponsor_row pool sid requester ws =
     (if sid \<notin> set pool \<and> \<not> filled requester then Inl (FeeSponsorError 403 ''sponsorSessionId requires an authenticated caller'')
      else case select_one (\<lambda>s. ws_sessionId s = sid \<and> ws_isActive s = Some True \<and> (sid \<in> set pool \<or> ws_userId s = requester)) ws of
        None \<Rightarrow> Inl (FeeSponsorError 404 (''Sponsor session not found, inactive, or not usable by this caller. ''
          @ ''Use one of your own sessions, or a session listed in NIGHTGATE_FEE_SPONSOR_SESSION.''))
      | Some s \<Rightarrow> Inr s)"

definition sponsor_keys :: "wallet_crypto \<Rightarrow> wallet_session \<Rightarrow> fee_sponsor_error + string \<times> string" where
  "sponsor_keys cr s =
     (case (wc_decrypt cr (the (ws_encryptedViewingKey s)) (walletSessionViewingKeyBinding (ws_sessionId s)),
            wc_decrypt cr (the (ws_encryptedSeedKey s)) (walletSessionSeedBinding (ws_sessionId s))) of
        (Some vk, Some seed) \<Rightarrow> Inr (vk, seed)
      | _ \<Rightarrow> Inl (FeeSponsorError 500 ''Failed to decrypt sponsor session keys (ENCRYPTION_KEY mismatch?)''))"

definition resolveFeeSponsor ::
    "wallet_crypto \<Rightarrow> string list \<Rightarrow> string \<Rightarrow> string option \<Rightarrow> int \<Rightarrow> wallet_session list \<Rightarrow> fee_sponsor_error + fee_sponsor" where
  "resolveFeeSponsor cr pool sid requester nw ws =
     check_then (sponsor_row pool sid requester ws) (\<lambda>s.
     check_then (require (\<not> isSessionExpired pool (Some sid) (ws_expiresAt s) nw) (FeeSponsorError 410 ''Sponsor session expired'')) (\<lambda>_.
     check_then (require (filled (ws_encryptedViewingKey s)) (FeeSponsorError 404 ''Sponsor session has no viewing key'')) (\<lambda>_.
     check_then (require (filled (ws_encryptedSeedKey s))
       (FeeSponsorError 412 ''Sponsor session has no signing key. Call connectWalletForSigning for the sponsor session first.'')) (\<lambda>_.
     check_then (sponsor_keys cr s) (\<lambda>(vk, seed).
       Inr \<lparr>fs_sponsorSessionId = sid, fs_accountId = wc_deriveAccountId cr vk, fs_seedHex = seed,
            fs_syncStatePassphrase = wc_deriveStoragePassword cr vk,
            fs_accountIndex = (case ws_accountIndex s of Some i \<Rightarrow> i | None \<Rightarrow> 0)\<rparr>)))))"

text \<open>A sponsor that resolves is active and alive, and it is listed by the platform or owned by the requester.\<close>

lemma resolved_sponsor:
  assumes "resolveFeeSponsor cr pool sid requester nw ws = Inr sp"
  obtains s where "s \<in> set ws" "ws_sessionId s = sid" "ws_isActive s = Some True" "\<not> isSessionExpired pool (Some sid) (ws_expiresAt s) nw"
    "sid \<in> set pool \<or> (filled requester \<and> ws_userId s = requester)"
    "wc_decrypt cr (the (ws_encryptedSeedKey s)) (walletSessionSeedBinding sid) = Some (fs_seedHex sp)" "fs_sponsorSessionId sp = sid"
proof -
  from assms obtain s vk seed where a: "sponsor_row pool sid requester ws = Inr s" "\<not> isSessionExpired pool (Some sid) (ws_expiresAt s) nw"
    "sponsor_keys cr s = Inr (vk, seed)" "fs_seedHex sp = seed" "fs_sponsorSessionId sp = sid"
    by (auto simp: resolveFeeSponsor_def)
  have s: "s \<in> set ws" "ws_sessionId s = sid" "ws_isActive s = Some True" "sid \<in> set pool \<or> (filled requester \<and> ws_userId s = requester)"
    using a(1) by (auto simp: sponsor_row_def split: if_splits option.splits dest!: select_one_Some)
  have "wc_decrypt cr (the (ws_encryptedSeedKey s)) (walletSessionSeedBinding sid) = Some seed"
    using a(3) s(2) by (auto simp: sponsor_keys_def split: option.splits)
  then show thesis using that s a by blast
qed

end
