(* ===== verification/Grant_Shape.thy ===== *)
theory Grant_Shape
  imports Grant_Scope Fee_Sponsor
begin

text \<open>
  What a grant may look like (\<^verbatim>\<open>validateGrantShape\<close> of \<^verbatim>\<open>srv/sessions/agent-grants.ts\<close>): the checks of the
  settings on creation and on an update. A parameter the request leaves out is \<^const>\<open>None\<close> at the outer level;
  an explicit null is \<^const>\<open>None\<close> at the inner one. The parameters have the types the service declares;
  lists stay JSON, because the code checks their elements itself.
\<close>

section \<open>Parameters\<close>

text \<open>A time as the request names it, or a text that is none.\<close>

datatype stamp = Stamp int | BadStamp

record grant_input =
  gi_sessionId :: "string option"
  gi_sponsorSessionId :: "string option"
  gi_allowedActions :: "json option"
  gi_maxJobsPerDay :: "int option option"
  gi_maxJobsPerHour :: "int option option"
  gi_validUntil :: "stamp option option"
  gi_agentLabel :: "string option option"
  gi_allowedContracts :: "json option"
  gi_allowedCircuits :: "json option"
  gi_allowDeploy :: "bool option option"
  gi_maxDeploys :: "int option option"
  gi_allowedTokenTypes :: "json option"
  gi_allowUnshieldedOffers :: "bool option option"
  gi_allowedUnshieldedTokenTypes :: "json option"
  gi_maxValuePerDay :: "json option"

text \<open>The validated settings. What an update leaves as it is has no value in the first five.\<close>

record grant_values =
  gv_allowedActions :: "string list option"
  gv_maxJobsPerDay :: "int option option"
  gv_maxJobsPerHour :: "int option option"
  gv_validUntil :: "int option option"
  gv_agentLabel :: "string option option"
  gv_allowedContracts :: "string list"
  gv_allowedCircuits :: "string list"
  gv_allowedTokenTypes :: "string list"
  gv_allowDeploy :: bool
  gv_maxDeploys :: "int option"
  gv_allowUnshieldedOffers :: bool
  gv_allowedUnshieldedTokenTypes :: "string list"
  gv_maxValuePerDay :: value_map

section \<open>Value limits\<close>

definition MAX_VALUE_BUDGET_ENTRIES :: nat where "MAX_VALUE_BUDGET_ENTRIES = 64"

definition field_text :: "string \<Rightarrow> json \<Rightarrow> string" where
  "field_text k entry = (case json_field k entry of None \<Rightarrow> [] | Some JNull \<Rightarrow> [] | Some v \<Rightarrow> js_String v)"

text \<open>\<^verbatim>\<open>replace(/^0x/, '')\<close>, on lower-case text.\<close>

definition without_0x :: "string \<Rightarrow> string" where
  "without_0x s = (if startsWith s ''0x'' then drop 2 s else s)"

definition is_positive_amount :: "string \<Rightarrow> bool" where
  "is_positive_amount s \<longleftrightarrow> (case s of [] \<Rightarrow> False | c # cs \<Rightarrow> is_digit c \<and> c \<noteq> CHR ''0'' \<and> list_all is_digit cs)"

fun value_budget_entries :: "json list \<Rightarrow> value_map \<Rightarrow> value_map result" where
  "value_budget_entries [] out = Inr out"
| "value_budget_entries (entry # rest) out =
     (let t = without_0x (toLowerCase (trim (field_text ''tokenType'' entry))); amount = trim (field_text ''amount'' entry) in
      if \<not> HEX64_RE t
      then Inl (js_Error (''maxValuePerDay: tokenType '' @ quoted (take 32 (field_text ''tokenType'' entry)) @ '' is not a raw token type (64 hex)''))
      else if \<not> is_positive_amount amount
      then Inl (js_Error (''maxValuePerDay: amount for '' @ take 16 t @ ELLIPSIS @ '' must be a positive integer in atoms''))
      else if t \<in> set (map fst out) then Inl (js_Error (''maxValuePerDay lists token type '' @ take 16 t @ ELLIPSIS @ '' twice''))
      else value_budget_entries rest (out @ [(t, amount)]))"

definition validateValueBudget :: "json option \<Rightarrow> value_map result" where
  "validateValueBudget raw =
     (case raw of
        None \<Rightarrow> Inr []
      | Some JNull \<Rightarrow> Inr []
      | Some (JArr es) \<Rightarrow>
          if MAX_VALUE_BUDGET_ENTRIES < length es
          then Inl (js_Error (''maxValuePerDay has '' @ nat_str (length es) @ '' entries; at most '' @ nat_str MAX_VALUE_BUDGET_ENTRIES @ '' are allowed''))
          else value_budget_entries es []
      | Some _ \<Rightarrow> Inl (js_Error ''maxValuePerDay must be an array of { tokenType, amount }''))"

definition valueBudgetList :: "value_map \<Rightarrow> json" where
  "valueBudgetList m = JArr (map (\<lambda>(t, a). JObj [(''tokenType'', JStr t), (''amount'', JStr a)]) m)"

section \<open>The settings, one by one\<close>

text \<open>\<^verbatim>\<open>futureTimeProblem\<close> of \<^verbatim>\<open>srv/utils/validation.ts\<close>; \<open>ahead\<close> is the largest distance and its text.\<close>

definition futureTimeProblem :: "stamp option \<Rightarrow> string \<Rightarrow> (int \<times> string) option \<Rightarrow> int \<Rightarrow> string option" where
  "futureTimeProblem raw name ahead nw =
     (case raw of
        None \<Rightarrow> None
      | Some BadStamp \<Rightarrow> Some (name @ '' must be an ISO-8601 timestamp'')
      | Some (Stamp ms) \<Rightarrow>
          if ms \<le> nw then Some (name @ '' must be in the future'')
          else (case ahead of
                  Some (limit, txt) \<Rightarrow> if limit < ms - nw then Some (name @ '': at most '' @ txt @ '' ahead'') else None
                | None \<Rightarrow> None))"

definition given_or_new :: "'a option \<Rightarrow> agent_grant option \<Rightarrow> bool" where
  "given_or_new v existing \<longleftrightarrow> v \<noteq> None \<or> existing = None"

fun element_text :: "json \<Rightarrow> string" where
  "element_text JNull = []"
| "element_text v = js_String v"

definition grantable :: "json \<Rightarrow> bool" where
  "grantable a \<longleftrightarrow> (case a of JStr s \<Rightarrow> s \<in> set AGENT_ALLOWLISTABLE_ACTIONS | _ \<Rightarrow> False)"

definition shape_actions :: "grant_input \<Rightarrow> agent_grant option \<Rightarrow> string + string list option" where
  "shape_actions inp existing =
     (if \<not> given_or_new (gi_allowedActions inp) existing then Inr None
      else case gi_allowedActions inp of
        Some (JArr (a # as)) \<Rightarrow>
          (let unknown = filter (\<lambda>x. \<not> grantable x) (a # as) in
           if unknown \<noteq> []
           then Inl (''allowedActions contains non-grantable entries: '' @ join '', '' (map element_text unknown) @ ''. Grantable: ''
                     @ join '', '' AGENT_ALLOWLISTABLE_ACTIONS)
           else Inr (Some (json_strings (a # as))))
      | _ \<Rightarrow> Inl ''allowedActions must be a non-empty array'')"

definition stored_list :: "(agent_grant \<Rightarrow> json_text option) \<Rightarrow> agent_grant option \<Rightarrow> string list" where
  "stored_list field existing = (case existing of Some e \<Rightarrow> parseJsonStringList (field e) | None \<Rightarrow> [])"

definition effective_actions :: "string list option \<Rightarrow> agent_grant option \<Rightarrow> string list" where
  "effective_actions actions existing = (case actions of Some as \<Rightarrow> as | None \<Rightarrow> stored_list ag_allowedActions existing)"

definition shape_flag :: "bool option option \<Rightarrow> (agent_grant \<Rightarrow> bool option) \<Rightarrow> agent_grant option \<Rightarrow> bool" where
  "shape_flag v field existing =
     (case existing of Some e \<Rightarrow> (case v of Some b \<Rightarrow> b = Some True | None \<Rightarrow> field e = Some True) | None \<Rightarrow> v = Some (Some True))"

definition sponsors :: "string list \<Rightarrow> bool" where
  "sponsors actions \<longleftrightarrow> (\<exists>a \<in> set actions. a \<in> set SPONSOR_TRANSACTION_ACTIONS)"

definition shape_deploys :: "grant_input \<Rightarrow> agent_grant option \<Rightarrow> bool \<Rightarrow> string + int option" where
  "shape_deploys inp existing allowDeploy =
     (if allowDeploy
      then (let raw = (case gi_maxDeploys inp of Some v \<Rightarrow> v | None \<Rightarrow> (case existing of Some e \<Rightarrow> ag_maxDeploys e | None \<Rightarrow> None));
                m = (case raw of Some n \<Rightarrow> n | None \<Rightarrow> 1);
                used = (case existing of Some e \<Rightarrow> (case ag_deploysUsed e of Some n \<Rightarrow> n | None \<Rightarrow> 0) | None \<Rightarrow> m)
            in if m < 1 \<or> 100 < m then Inl ''maxDeploys must be an integer between 1 and 100''
               else if m < used then Inl (''maxDeploys must not be below the '' @ int_str used @ '' deploys already used'')
               else Inr (Some m))
      else (case gi_maxDeploys inp of Some (Some _) \<Rightarrow> Inl ''maxDeploys needs allowDeploy: true'' | _ \<Rightarrow> Inr None))"

definition shape_list ::
    "(string \<Rightarrow> json option \<Rightarrow> string list result) \<Rightarrow> string \<Rightarrow> json option \<Rightarrow> (agent_grant \<Rightarrow> json_text option) \<Rightarrow> agent_grant option \<Rightarrow> string + string list" where
  "shape_list validate name v field existing =
     (if given_or_new v existing then (case validate name v of Inl e \<Rightarrow> Inl (err_message e) | Inr xs \<Rightarrow> Inr xs)
      else Inr (stored_list field existing))"

definition shape_value :: "json option \<Rightarrow> agent_grant option \<Rightarrow> string + value_map" where
  "shape_value v existing =
     (if given_or_new v existing then (case validateValueBudget v of Inl e \<Rightarrow> Inl (err_message e) | Inr m \<Rightarrow> Inr m)
      else Inr (case existing of Some e \<Rightarrow> parseValueBudgetMap (ag_maxValuePerDay e) | None \<Rightarrow> []))"

definition shape_budget :: "string \<Rightarrow> int option option \<Rightarrow> agent_grant option \<Rightarrow> string + int option option" where
  "shape_budget name v existing =
     (if \<not> given_or_new v existing then Inr None
      else (case v of
              Some (Some n) \<Rightarrow> if n < 1 then Inl (name @ '' must be a positive integer'') else Inr (Some (Some n))
            | _ \<Rightarrow> Inr (Some None)))"

definition shape_until :: "stamp option option \<Rightarrow> agent_grant option \<Rightarrow> int \<Rightarrow> string + int option option" where
  "shape_until v existing nw =
     (if \<not> given_or_new v existing then Inr None
      else (let raw = (case v of Some r \<Rightarrow> r | None \<Rightarrow> None) in
        case futureTimeProblem raw ''validUntil'' None nw of
          Some m \<Rightarrow> Inl m
        | None \<Rightarrow> Inr (Some (case raw of Some (Stamp ms) \<Rightarrow> Some ms | _ \<Rightarrow> None))))"

definition shape_label :: "string option option \<Rightarrow> agent_grant option \<Rightarrow> string + string option option" where
  "shape_label v existing =
     (if \<not> given_or_new v existing then Inr None
      else (let raw = (case v of Some r \<Rightarrow> r | None \<Rightarrow> None) in
        case raw of
          Some l \<Rightarrow> if 100 < length l then Inl ''agentLabel must be at most 100 characters'' else Inr (Some (Some l))
        | None \<Rightarrow> Inr (Some None)))"

section \<open>The whole shape\<close>

definition needs_sponsoring :: "string \<Rightarrow> string \<Rightarrow> string" where
  "needs_sponsoring what why =
     what @ '' needs '' @ quoted ''sponsorFinalizedTransaction'' @ '' or '' @ quoted ''sponsorUnboundTransaction'' @ '' in allowedActions: '' @ why"

definition validateGrantShape :: "int \<Rightarrow> grant_input \<Rightarrow> agent_grant option \<Rightarrow> string + grant_values" where
  "validateGrantShape nw inp existing =
     check_then (shape_actions inp existing) (\<lambda>actions.
     (let eff = effective_actions actions existing;
          deploy = shape_flag (gi_allowDeploy inp) ag_allowDeploy existing;
          unshielded = shape_flag (gi_allowUnshieldedOffers inp) ag_allowUnshieldedOffers existing in
     check_then (require (\<not> deploy \<or> sponsors eff)
       (needs_sponsoring ''allowDeploy'' ''a deploy is sponsored, never run by the server wallet'')) (\<lambda>_.
     check_then (shape_deploys inp existing deploy) (\<lambda>maxDeploys.
     check_then (require (\<not> unshielded \<or> sponsors eff)
       (needs_sponsoring ''allowUnshieldedOffers'' ''the offer rides in a sponsored call'')) (\<lambda>_.
     check_then (shape_list validatePolicyList ''allowedContracts'' (gi_allowedContracts inp) ag_allowedContracts existing) (\<lambda>contracts.
     check_then (shape_list validatePolicyList ''allowedCircuits'' (gi_allowedCircuits inp) ag_allowedCircuits existing) (\<lambda>circuits.
     check_then (shape_list validateTokenTypeList ''allowedTokenTypes'' (gi_allowedTokenTypes inp) ag_allowedTokenTypes existing) (\<lambda>types.
     check_then (shape_list validateTokenTypeList ''allowedUnshieldedTokenTypes'' (gi_allowedUnshieldedTokenTypes inp)
       ag_allowedUnshieldedTokenTypes existing) (\<lambda>unshieldedTypes.
     check_then (shape_value (gi_maxValuePerDay inp) existing) (\<lambda>value.
     check_then (require (unshieldedTypes = [] \<or> unshielded) ''allowedUnshieldedTokenTypes needs allowUnshieldedOffers: true'') (\<lambda>_.
     check_then (shape_budget ''maxJobsPerDay'' (gi_maxJobsPerDay inp) existing) (\<lambda>day.
     check_then (shape_budget ''maxJobsPerHour'' (gi_maxJobsPerHour inp) existing) (\<lambda>hour.
     check_then (shape_until (gi_validUntil inp) existing nw) (\<lambda>until.
     check_then (shape_label (gi_agentLabel inp) existing) (\<lambda>label.
       Inr \<lparr>gv_allowedActions = actions, gv_maxJobsPerDay = day, gv_maxJobsPerHour = hour, gv_validUntil = until, gv_agentLabel = label,
            gv_allowedContracts = contracts, gv_allowedCircuits = circuits, gv_allowedTokenTypes = types, gv_allowDeploy = deploy,
            gv_maxDeploys = maxDeploys, gv_allowUnshieldedOffers = unshielded, gv_allowedUnshieldedTokenTypes = unshieldedTypes,
            gv_maxValuePerDay = value\<rparr>)))))))))))))))"

end
