(* ===== verification/Grant_Gate.thy ===== *)
theory Grant_Gate
  imports Grant_Scope
begin

text \<open>
  The gate of the service (\<^verbatim>\<open>enforceAgentGrant\<close> of \<^verbatim>\<open>srv/sessions/agent-grants.ts\<close>): a request with an agent token
  is matched to its grant, held to the grant's actions, entities, contracts, circuits, session and
  sponsor, and charged to the grant's budgets; then it runs as the user who issued the grant. The
  hash of a token is an argument. The gate reads the grant once; the budget statements that follow
  run on the table of their own moment.
\<close>

definition TOKEN_PREFIX :: string where "TOKEN_PREFIX = ''ngat_''"

definition AGENT_TOKEN_TRANSPORT_USER :: string where "AGENT_TOKEN_TRANSPORT_USER = ''agent-token-transport''"
definition PUBLIC_VERIFY_TRANSPORT_USER :: string where "PUBLIC_VERIFY_TRANSPORT_USER = ''public-verify-transport''"

text \<open>The parameters of an action the gate reads or sets.\<close>

record request_data =
  rd_sessionId :: "json option"
  rd_sponsorSessionId :: "json option"
  rd_grantId :: "json option"
  rd_scope :: scope_data

text \<open>
  A request: the token header of the request and of its part in a batch, the user the
  authentication found, the event, the entity a read is aimed at, the parameters when there are any,
  and the conditions that were added to a read.
\<close>

record agent_request =
  ar_token :: "json option"
  ar_partToken :: "json option"
  ar_user :: "string option"
  ar_event :: string
  ar_target :: string
  ar_data :: "request_data option"
  ar_narrowed :: "(string \<times> string) list"

record request_grant =
  rg_ID :: string
  rg_sessionId :: string
  rg_userId :: string
  rg_sponsorSessionId :: "string option"
  rg_policy :: grant_policy

record gate_env =
  ge_now :: int
  ge_hash :: "string \<Rightarrow> string"
  ge_pool :: "string list"

datatype refusal = Refusal nat string | Crash string

section \<open>The token\<close>

definition nullish_or :: "json option \<Rightarrow> json option \<Rightarrow> json option" where
  "nullish_or a b = (if a = None \<or> a = Some JNull then b else a)"

text \<open>The token of a request: a non-empty string.\<close>

definition request_token :: "agent_request \<Rightarrow> string option" where
  "request_token req = (case nullish_or (ar_token req) (ar_partToken req) of Some (JStr t) \<Rightarrow> if t = [] then None else Some t | _ \<Rightarrow> None)"

definition placeholder_refusal :: "string option \<Rightarrow> refusal option" where
  "placeholder_refusal uid =
     (if uid = Some AGENT_TOKEN_TRANSPORT_USER then Some (Refusal 401 ''agent token required'')
      else if uid = Some PUBLIC_VERIFY_TRANSPORT_USER then Some (Refusal 401 ''authentication required'') else None)"

definition token_grant :: "gate_env \<Rightarrow> string \<Rightarrow> grants \<Rightarrow> refusal + agent_grant" where
  "token_grant env token gs =
     (if \<not> startsWith token TOKEN_PREFIX then Inl (Refusal 401 ''invalid agent token'')
      else case select_one (\<lambda>g. ag_tokenHash g = ge_hash env token \<and> ag_isActive g = Some True) gs of
        None \<Rightarrow> Inl (Refusal 401 ''invalid agent token'')
      | Some g \<Rightarrow> if grantExpired g (ge_now env) then Inl (Refusal 410 ''agent grant expired'') else Inr g)"

section \<open>The request\<close>

definition json_truthy :: "json option \<Rightarrow> bool" where
  "json_truthy v = (case v of None \<Rightarrow> False | Some JNull \<Rightarrow> False | Some (JBool b) \<Rightarrow> b | Some (JNum n) \<Rightarrow> n \<noteq> 0 | Some (JStr s) \<Rightarrow> s \<noteq> [] | _ \<Rightarrow> True)"

definition json_absent :: "json option \<Rightarrow> bool" where
  "json_absent v \<longleftrightarrow> v = None \<or> v = Some JNull"

definition own_usage :: "agent_grant \<Rightarrow> agent_request \<Rightarrow> refusal + agent_request" where
  "own_usage g req =
     (if ar_event req \<noteq> ''getGrantUsage'' then Inr req
      else case ar_data req of
        None \<Rightarrow> Inl (Crash ''Cannot set properties of undefined'')
      | Some d \<Rightarrow>
          if \<not> json_truthy (rd_grantId d) then Inr (req\<lparr>ar_data := Some (d\<lparr>rd_grantId := Some (JStr (ag_ID g))\<rparr>)\<rparr>)
          else if js_String (the (rd_grantId d)) \<noteq> ag_ID g then Inl (Refusal 404 ''Grant not found'')
          else Inr req)"

definition event_allowlisted :: "agent_grant \<Rightarrow> string \<Rightarrow> bool" where
  "event_allowlisted g event \<longleftrightarrow> event \<notin> set AGENT_ALWAYS_ALLOWED_EVENTS \<and> event \<in> set (parseJsonStringList (ag_allowedActions g))"

definition last_segment :: "string \<Rightarrow> string" where
  "last_segment s = rev (takeWhile (\<lambda>c. c \<noteq> CHR ''.'') (rev s))"

definition narrow_read :: "agent_grant \<Rightarrow> agent_request \<Rightarrow> refusal + agent_request" where
  "narrow_read g req =
     (if ar_event req \<noteq> ''READ'' then Inr req
      else (let entity = last_segment (ar_target req) in
        if entity \<notin> set AGENT_READABLE_ENTITIES then Inl (Refusal 403 (''entity '' @ quoted entity @ '' is not readable with an agent token''))
        else if entity \<in> {''WalletSessions'', ''PendingSubmissions'', ''Documents''}
        then Inr (req\<lparr>ar_narrowed := ar_narrowed req @ [(''sessionId'', ag_sessionId g)]\<rparr>)
        else if entity = ''AgentGrants'' then Inr (req\<lparr>ar_narrowed := ar_narrowed req @ [(''ID'', ag_ID g)]\<rparr>)
        else Inr req))"

definition scope_data_of :: "agent_request \<Rightarrow> scope_data" where
  "scope_data_of req = (case ar_data req of Some d \<Rightarrow> rd_scope d | None \<Rightarrow> no_scope_data)"

definition self_paid :: "agent_grant \<Rightarrow> string \<Rightarrow> bool" where
  "self_paid g event \<longleftrightarrow> event_allowlisted g event \<and> event \<notin> set SPONSOR_PHASE2_ACTIONS"

definition check_scope :: "agent_grant \<Rightarrow> agent_request \<Rightarrow> refusal + unit" where
  "check_scope g req =
     (if self_paid g (ar_event req)
      then (case grantScopeViolation g (scope_data_of req) (ar_event req) of Some m \<Rightarrow> Inl (Refusal 403 m) | None \<Rightarrow> Inr ())
      else Inr ())"

text \<open>\<open>sponsor_of\<close> is the sponsor the grant names; an empty text names none.\<close>

definition sponsor_of :: "agent_grant \<Rightarrow> string option" where
  "sponsor_of g = (case ag_sponsorSessionId g of Some s \<Rightarrow> if s = [] then None else Some s | None \<Rightarrow> None)"

definition json_text_or_empty :: "json option \<Rightarrow> string" where
  "json_text_or_empty v = (case v of None \<Rightarrow> [] | Some JNull \<Rightarrow> [] | Some w \<Rightarrow> js_String w)"

definition pinned_poll :: "agent_grant \<Rightarrow> string \<Rightarrow> json option \<Rightarrow> bool" where
  "pinned_poll g event sid \<longleftrightarrow> event = ''getJobStatus'' \<and> sid \<noteq> Some (JStr (ag_sessionId g))
     \<and> (case sponsor_of g of Some s \<Rightarrow> s \<noteq> PLATFORM_POOL_SENTINEL \<and> sid = Some (JStr s) | None \<Rightarrow> False)"

definition pool_poll :: "string list \<Rightarrow> agent_grant \<Rightarrow> string \<Rightarrow> json option \<Rightarrow> bool" where
  "pool_poll pool g event sid \<longleftrightarrow> event = ''getJobStatus'' \<and> sid \<noteq> Some (JStr (ag_sessionId g)) \<and> \<not> pinned_poll g event sid
     \<and> (sid = Some (JStr PLATFORM_POOL_SENTINEL) \<or> json_text_or_empty sid \<in> set pool)"

definition bind_session :: "string list \<Rightarrow> agent_grant \<Rightarrow> string \<Rightarrow> request_data \<Rightarrow> refusal + request_data" where
  "bind_session pool g event d =
     (let sid = rd_sessionId d in
      if pool_poll pool g event sid then Inr (d\<lparr>rd_sessionId := Some (JStr PLATFORM_POOL_SENTINEL)\<rparr>)
      else if pinned_poll g event sid then Inr d
      else if \<not> json_absent sid \<and> sid \<noteq> Some (JStr (ag_sessionId g)) then Inl (Refusal 403 ''sessionId does not match this agent grant'')
      else Inr (d\<lparr>rd_sessionId := Some (JStr (ag_sessionId g))\<rparr>))"

definition bind_sponsor :: "agent_grant \<Rightarrow> string \<Rightarrow> request_data \<Rightarrow> refusal + request_data" where
  "bind_sponsor g event d =
     (if \<not> self_paid g event then Inr d
      else case sponsor_of g of
        Some s \<Rightarrow>
          if \<not> json_absent (rd_sponsorSessionId d) \<and> rd_sponsorSessionId d \<noteq> Some (JStr s)
          then Inl (Refusal 403 ''sponsorSessionId does not match this agent grant'')
          else Inr (d\<lparr>rd_sponsorSessionId := Some (JStr s)\<rparr>)
      | None \<Rightarrow>
          if \<not> json_absent (rd_sponsorSessionId d) \<and> rd_sponsorSessionId d \<noteq> Some (JStr [])
          then Inl (Refusal 403 ''this agent grant has no sponsor binding; issue the grant with sponsorSessionId to sponsor its jobs'')
          else Inr d)"

definition bind_data :: "string list \<Rightarrow> agent_grant \<Rightarrow> agent_request \<Rightarrow> refusal + agent_request" where
  "bind_data pool g req =
     (case ar_data req of
        None \<Rightarrow> Inr req
      | Some d \<Rightarrow>
          if ar_event req = ''READ'' then Inr req
          else check_then (bind_session pool g (ar_event req) d) (\<lambda>d1.
               check_then (bind_sponsor g (ar_event req) d1) (\<lambda>d2. Inr (req\<lparr>ar_data := Some d2\<rparr>))))"

text \<open>Every check before the budgets, in the order of the code.\<close>

definition gate_checks :: "gate_env \<Rightarrow> agent_grant \<Rightarrow> agent_request \<Rightarrow> refusal + agent_request" where
  "gate_checks env g req =
     check_then (own_usage g req) (\<lambda>req1.
     check_then (require (ar_event req \<in> set AGENT_ALWAYS_ALLOWED_EVENTS \<or> event_allowlisted g (ar_event req))
                         (Refusal 403 (''action '' @ quoted (ar_event req) @ '' is not allowed for this agent grant''))) (\<lambda>_.
     check_then (narrow_read g req1) (\<lambda>req2.
     check_then (check_scope g req2) (\<lambda>_. bind_data (ge_pool env) g req2))))"

section \<open>The budgets\<close>

text \<open>
  The budgets in their order, each with a limit taken once. The first that is used up refuses the
  request and gives back what was taken before it.
\<close>

fun charge :: "agent_grant \<Rightarrow> int \<Rightarrow> grant_budget list \<Rightarrow> grant_budget list \<Rightarrow> grants \<Rightarrow> (grant_budget \<times> int + grant_budget list) \<times> grants" where
  "charge g nw [] taken gs = (Inr taken, gs)"
| "charge g nw (b # bs) taken gs =
     (case budget_max b g of
        None \<Rightarrow> charge g nw bs taken gs
      | Some m \<Rightarrow>
          (case consumeBudget g b m nw gs of
             (True, gs') \<Rightarrow> charge g nw bs (taken @ [b]) gs'
           | (False, gs') \<Rightarrow> (Inl (b, m), fold (\<lambda>t rows. refundBudget g t nw rows) taken gs')))"

text \<open>
  The outcome of the gate. \<open>NoToken\<close> is a request without a token that goes on under the user it came
  with; \<open>Admitted\<close> carries the request as it goes on, the grant it runs under, and the budgets it
  took, which a later 4xx gives back.
\<close>

datatype gate_outcome =
    Stopped refusal
  | OverBudget grant_budget
  | NoToken
  | Admitted agent_request request_grant "grant_budget list"

definition request_grant_of :: "agent_grant \<Rightarrow> request_grant" where
  "request_grant_of g =
     \<lparr>rg_ID = ag_ID g, rg_sessionId = ag_sessionId g, rg_userId = ag_userId g, rg_sponsorSessionId = ag_sponsorSessionId g,
      rg_policy = (grantRowPolicy g)\<lparr>gp_allowDeploy :=
        (ag_allowDeploy g = Some True \<and> (case ag_deploysUsed g of Some n \<Rightarrow> n | None \<Rightarrow> 0) < deploy_limit g)\<rparr>\<rparr>"

definition budget_headers :: "agent_grant \<Rightarrow> int \<Rightarrow> grant_budget list \<Rightarrow> response \<Rightarrow> response" where
  "budget_headers g nw taken r =
     fold (\<lambda>b r. case budget_max b g of Some m \<Rightarrow> noteRateLimitHeaders (budgetHeaderState g b m nw) r | None \<Rightarrow> r) taken r"

definition over_budget_refusal :: "grant_budget \<Rightarrow> int \<Rightarrow> int \<Rightarrow> rate_refusal" where
  "over_budget_refusal b m nw =
     \<lparr>rf_name = limitName b, rf_limit = m, rf_windowSeconds = windowMs b div 1000, rf_retryAfterMs = resetsAt b nw - nw, rf_detail = None\<rparr>"

definition enforceAgentGrant ::
    "gate_env \<Rightarrow> agent_request \<Rightarrow> response \<Rightarrow> rate_state \<Rightarrow> grants \<Rightarrow> gate_outcome \<times> (response \<times> rate_state) \<times> grants" where
  "enforceAgentGrant env req r st gs =
     (case request_token req of
        None \<Rightarrow> ((case placeholder_refusal (ar_user req) of Some e \<Rightarrow> Stopped e | None \<Rightarrow> NoToken), (r, st), gs)
      | Some token \<Rightarrow>
          (case token_grant env token gs of
             Inl e \<Rightarrow> (Stopped e, (r, st), gs)
           | Inr g \<Rightarrow>
               (case gate_checks env g req of
                  Inl e \<Rightarrow> (Stopped e, (r, st), gs)
                | Inr req' \<Rightarrow>
                    (case charge g (ge_now env) (if event_allowlisted g (ar_event req) then GRANT_BUDGETS else []) [] gs of
                       (Inl (b, m), gs') \<Rightarrow> (OverBudget b, rejectRateLimited (over_budget_refusal b m (ge_now env)) r st, gs')
                     | (Inr taken, gs') \<Rightarrow>
                         (Admitted (req'\<lparr>ar_user := Some (ag_userId g)\<rparr>) (request_grant_of g) taken,
                          (budget_headers g (ge_now env) taken r, st), gs')))))"

end
