(* ===== verification/Grant_Admin.thy ===== *)
theory Grant_Admin
  imports Grant_Shape Grant_Gate
begin

text \<open>
  How the owner of a wallet session creates, changes and revokes grants (the action handlers of
  \<^verbatim>\<open>srv/sessions/agent-grants.ts\<close>). New identifiers and random tokens are arguments, and so are the
  platform policy, the configured sponsors and the sessions table, which the handlers only read. An
  update reads the grant first and writes it in a later statement: \<open>read\<close> is the table at the read.
\<close>

section \<open>Answers\<close>

datatype admin_refusal = Rejected nat "string option" string

record admin_env =
  ad_now :: int
  ad_defaultPerDay :: "int option"
  ad_defaultPerHour :: "int option"
  ad_platform :: "sponsor_policy result"
  ad_sharedTypes :: "string list"
  ad_pool :: "string list"
  ad_crypto :: wallet_crypto
  ad_hash :: "string \<Rightarrow> string"
  ad_sessions :: "wallet_session list"

datatype admin_answer =
    Refused admin_refusal
  | Created "(string \<times> string \<times> string option) list" grant_values "string list"
  | Revoked
  | Updated string "string list"
  | Rotated string string

section \<open>Policy and sponsor of a new grant\<close>

definition policyReject :: "sponsor_policy result \<Rightarrow> string list \<Rightarrow> grant_values \<Rightarrow> string list \<Rightarrow> admin_refusal option" where
  "policyReject platform shared v deployed =
     (if gv_allowedContracts v = [] \<and> gv_allowedCircuits v = [] \<and> gv_allowedTokenTypes v = [] \<and> gv_allowedUnshieldedTokenTypes v = [] then None
      else case platform of
        Inl e \<Rightarrow> Some (Rejected 503 (Some (err_code e)) (err_message e))
      | Inr flr \<Rightarrow>
          map_option (Rejected 400 None)
            (grantPolicyConflict flr
               \<lparr>gp_allowedContracts = gv_allowedContracts v, gp_allowedCircuits = gv_allowedCircuits v, gp_allowDeploy = gv_allowDeploy v,
                gp_deployedContracts = deployed, gp_allowedTokenTypes = gv_allowedTokenTypes v, gp_mintedTokenTypes = [], gp_allowSwaps = True,
                gp_allowTransfers = True, gp_allowUnshieldedOffers = gv_allowUnshieldedOffers v,
                gp_allowedUnshieldedTokenTypes = gv_allowedUnshieldedTokenTypes v\<rparr> shared))"

definition applyBudgetDefaults :: "admin_env \<Rightarrow> grant_input \<Rightarrow> grant_input" where
  "applyBudgetDefaults env inp =
     inp\<lparr>gi_maxJobsPerDay := (case gi_maxJobsPerDay inp of Some v \<Rightarrow> Some v | None \<Rightarrow> map_option Some (ad_defaultPerDay env)),
         gi_maxJobsPerHour := (case gi_maxJobsPerHour inp of Some v \<Rightarrow> Some v | None \<Rightarrow> map_option Some (ad_defaultPerHour env))\<rparr>"

definition pool_incompatible :: "string list \<Rightarrow> string list" where
  "pool_incompatible actions =
     filter (\<lambda>a. a \<notin> set SPONSOR_PHASE2_ACTIONS \<and> a \<notin> set POOL_NEUTRAL_ACTIONS \<and> a \<notin> set POOL_PAID_SESSION_ACTIONS) actions"

definition check_new_sponsor :: "admin_env \<Rightarrow> string \<Rightarrow> string option \<Rightarrow> string list \<Rightarrow> admin_refusal + unit" where
  "check_new_sponsor env userId sponsor actions =
     (if sponsor = Some PLATFORM_POOL_SENTINEL
      then check_then (require (ad_pool env \<noteq> [])
             (Rejected 412 None (''sponsorSessionId: '' @ quoted PLATFORM_POOL_SENTINEL @ '' requires a configured NIGHTGATE_FEE_SPONSOR_SESSION pool''))) (\<lambda>_.
           require (pool_incompatible actions = [])
             (Rejected 400 None (''a platform-pool grant may only allow '' @ quoted ''sponsorFinalizedTransaction'' @ '' / '' @ quoted ''sponsorUnboundTransaction''
                @ '' / '' @ quoted ''sponsorSwap'' @ '' / '' @ quoted ''sponsorTransfer'' @ '' / '' @ quoted ''mintFactoryToken'' @ '' / '' @ quoted ''postSwapOffer''
                @ '' / '' @ quoted ''retireSwapOffer'' @ ''; these actions resolve the sponsor directly and cannot use the pool: ''
                @ join '', '' (pool_incompatible actions))))
      else if filled sponsor
      then (case resolveFeeSponsor (ad_crypto env) (ad_pool env) (the sponsor) (Some userId) (ad_now env) (ad_sessions env) of
              Inl e \<Rightarrow> Inl (Rejected (fe_status e) None (''sponsorSessionId: '' @ fe_message e))
            | Inr _ \<Rightarrow> Inr ())
      else Inr ())"

definition own_session :: "admin_env \<Rightarrow> string \<Rightarrow> string \<Rightarrow> admin_refusal + wallet_session" where
  "own_session env userId sid =
     (case select_one (\<lambda>s. ws_sessionId s = sid \<and> ws_isActive s = Some True \<and> ws_userId s = Some userId) (ad_sessions env) of
        None \<Rightarrow> Inl (Rejected 404 None ''Session not found or inactive'')
      | Some s \<Rightarrow> if isSessionExpired (ad_pool env) (Some sid) (ws_expiresAt s) (ad_now env) then Inl (Rejected 410 None ''Session expired'') else Inr s)"

definition prepareGrantCreation :: "admin_env \<Rightarrow> string \<Rightarrow> grant_input \<Rightarrow> admin_refusal + grant_values \<times> string list \<times> string" where
  "prepareGrantCreation env userId inp =
     check_then (require (filled (gi_sessionId inp)) (Rejected 400 None ''sessionId is required'')) (\<lambda>_.
     (let sid = the (gi_sessionId inp) in
     check_then (case validateGrantShape (ad_now env) (applyBudgetDefaults env inp) None of Inl m \<Rightarrow> Inl (Rejected 400 None m) | Inr v \<Rightarrow> Inr v) (\<lambda>values.
     (let actions = (case gv_allowedActions values of Some as \<Rightarrow> as | None \<Rightarrow> []) in
     check_then (case policyReject (ad_platform env) (ad_sharedTypes env) values [] of Some r \<Rightarrow> Inl r | None \<Rightarrow> Inr ()) (\<lambda>_.
     check_then (own_session env userId sid) (\<lambda>_.
     check_then (check_new_sponsor env userId (gi_sponsorSessionId inp) actions) (\<lambda>_. Inr (values, actions, sid))))))))"

section \<open>The row\<close>

definition list_column :: "string list \<Rightarrow> json_text option" where
  "list_column xs = (if xs = [] then None else Some (json_of_strings xs))"

definition value_column :: "value_map \<Rightarrow> json_text option" where
  "value_column m = (if m = [] then None else Some (value_json m))"

definition until_of :: "grant_input \<Rightarrow> int option" where
  "until_of inp = (case gi_validUntil inp of Some (Some (Stamp ms)) \<Rightarrow> Some ms | _ \<Rightarrow> None)"

text \<open>\<open>fresh\<close> is the new identifier and the random part of the token.\<close>

definition newGrantRow ::
    "admin_env \<Rightarrow> string \<Rightarrow> string \<Rightarrow> grant_input \<Rightarrow> grant_values \<Rightarrow> string list \<Rightarrow> string option \<Rightarrow> string \<times> string \<Rightarrow> agent_grant \<times> string" where
  "newGrantRow env userId sid inp v actions label fresh =
     (let token = TOKEN_PREFIX @ snd fresh in
      (\<lparr>ag_ID = fst fresh, ag_userId = userId, ag_agentLabel = label, ag_sessionId = sid, ag_tokenHash = ad_hash env token,
        ag_allowedActions = Some (json_of_strings actions),
        ag_maxJobsPerDay = (case gv_maxJobsPerDay v of Some n \<Rightarrow> n | None \<Rightarrow> None), ag_jobsUsedToday = Some 0, ag_budgetWindow = None,
        ag_maxJobsPerHour = (case gv_maxJobsPerHour v of Some n \<Rightarrow> n | None \<Rightarrow> None), ag_jobsUsedThisHour = Some 0, ag_hourWindow = None,
        ag_sponsorSessionId = gi_sponsorSessionId inp,
        ag_allowedContracts = list_column (gv_allowedContracts v), ag_allowedCircuits = list_column (gv_allowedCircuits v),
        ag_allowDeploy = Some (gv_allowDeploy v), ag_maxDeploys = gv_maxDeploys v, ag_deploysUsed = Some 0, ag_deployedContracts = None,
        ag_allowedTokenTypes = list_column (gv_allowedTokenTypes v), ag_mintedTokenTypes = None,
        ag_allowUnshieldedOffers = Some (gv_allowUnshieldedOffers v), ag_allowedUnshieldedTokenTypes = list_column (gv_allowedUnshieldedTokenTypes v),
        ag_maxValuePerDay = value_column (gv_maxValuePerDay v), ag_valueUsedToday = None, ag_valueWindow = None,
        ag_validUntil = until_of inp, ag_isActive = Some True, ag_revokedAt = None\<rparr>, token))"

section \<open>The actions\<close>

definition createAgentGrant :: "admin_env \<Rightarrow> string \<times> string \<Rightarrow> grant_input \<Rightarrow> string \<Rightarrow> grants \<Rightarrow> admin_answer \<times> grants" where
  "createAgentGrant env fresh inp userId gs =
     (case prepareGrantCreation env userId inp of
        Inl r \<Rightarrow> (Refused r, gs)
      | Inr (values, actions, sid) \<Rightarrow>
          (case newGrantRow env userId sid inp values actions (case gi_agentLabel inp of Some l \<Rightarrow> l | None \<Rightarrow> None) fresh of
             (row, token) \<Rightarrow> (Created [(ag_ID row, token, ag_agentLabel row)] values actions, gs @ [row])))"

definition MAX_GRANTS_PER_CALL :: int where "MAX_GRANTS_PER_CALL = 50"

definition label_text :: "json \<Rightarrow> string option" where
  "label_text l = (case l of JStr s \<Rightarrow> if trim s = [] then None else Some (trim s) | _ \<Rightarrow> None)"

definition grant_labels :: "int \<Rightarrow> json option \<Rightarrow> string option option \<Rightarrow> admin_refusal + string list" where
  "grant_labels count labels agentLabel =
     (if json_absent labels
      then (let given = trim (case agentLabel of Some (Some l) \<Rightarrow> l | _ \<Rightarrow> ''agent''); stem = (if given = [] then ''agent'' else given)
            in Inr (map (\<lambda>i. take 100 (stem @ ''-'' @ nat_str (i + 1))) [0 ..< nat count]))
      else case labels of
        Some (JArr ls) \<Rightarrow>
          if int (length ls) \<noteq> count \<or> (\<exists>l \<in> set ls. label_text l = None)
          then Inl (Rejected 400 None ''labels must be an array of count non-empty strings'')
          else if \<exists>l \<in> set ls. 100 < length (the (label_text l)) then Inl (Rejected 400 None ''labels: each at most 100 characters'')
          else Inr (map (\<lambda>l. the (label_text l)) ls)
      | _ \<Rightarrow> Inl (Rejected 400 None ''labels must be an array of count non-empty strings''))"

text \<open>\<open>fresh\<close> has one pair for each grant.\<close>

definition createAgentGrants ::
    "admin_env \<Rightarrow> (string \<times> string) list \<Rightarrow> int option \<Rightarrow> json option \<Rightarrow> grant_input \<Rightarrow> string \<Rightarrow> grants \<Rightarrow> admin_answer \<times> grants" where
  "createAgentGrants env fresh count labels inp userId gs =
     (case count of
        None \<Rightarrow> (Refused (Rejected 400 None (''count must be an integer from 1 to '' @ int_str MAX_GRANTS_PER_CALL)), gs)
      | Some n \<Rightarrow>
          if n < 1 \<or> MAX_GRANTS_PER_CALL < n
          then (Refused (Rejected 400 None (''count must be an integer from 1 to '' @ int_str MAX_GRANTS_PER_CALL)), gs)
          else case check_then (grant_labels n labels (gi_agentLabel inp)) (\<lambda>ls.
                    check_then (prepareGrantCreation env userId inp) (\<lambda>prep. Inr (ls, prep))) of
            Inl r \<Rightarrow> (Refused r, gs)
          | Inr (ls, values, actions, sid) \<Rightarrow>
              (let rows = map (\<lambda>(l, f). newGrantRow env userId sid inp values actions (Some l) f) (zip ls fresh)
               in (Created (map (\<lambda>(row, token). (ag_ID row, token, ag_agentLabel row)) rows) values actions, gs @ map fst rows)))"

definition revokeAgentGrant :: "admin_env \<Rightarrow> string option \<Rightarrow> string \<Rightarrow> grants \<Rightarrow> admin_answer \<times> grants" where
  "revokeAgentGrant env gid userId gs =
     (if \<not> filled gid then (Refused (Rejected 400 None ''grantId is required''), gs)
      else case update_where (\<lambda>g. ag_ID g = the gid \<and> ag_userId g = userId \<and> ag_isActive g = Some True)
                  (\<lambda>g. g\<lparr>ag_isActive := Some False, ag_revokedAt := Some (ad_now env)\<rparr>) gs of
        (n, gs') \<Rightarrow> if n = 0 then (Refused (Rejected 404 None ''Grant not found''), gs') else (Revoked, gs'))"

definition rotateAgentGrantToken :: "admin_env \<Rightarrow> string \<Rightarrow> string option \<Rightarrow> string \<Rightarrow> grants \<Rightarrow> admin_answer \<times> grants" where
  "rotateAgentGrantToken env random gid userId gs =
     (if \<not> filled gid then (Refused (Rejected 400 None ''grantId is required''), gs)
      else case update_where (\<lambda>g. ag_ID g = the gid \<and> ag_userId g = userId \<and> ag_isActive g = Some True)
                  (\<lambda>g. g\<lparr>ag_tokenHash := ad_hash env (TOKEN_PREFIX @ random)\<rparr>) gs of
        (n, gs') \<Rightarrow> if n = 0 then (Refused (Rejected 404 None ''Grant not found''), gs') else (Rotated (the gid) (TOKEN_PREFIX @ random), gs'))"

section \<open>Updates\<close>

definition GRANT_IMMUTABLE_FIELDS :: "string list" where
  "GRANT_IMMUTABLE_FIELDS = [''sessionId'', ''sponsorSessionId'', ''userId'', ''tokenHash'']"

definition patch_row :: "grant_values \<Rightarrow> agent_grant \<Rightarrow> agent_grant" where
  "patch_row v g =
     g\<lparr>ag_allowedContracts := list_column (gv_allowedContracts v), ag_allowedCircuits := list_column (gv_allowedCircuits v),
       ag_allowedTokenTypes := list_column (gv_allowedTokenTypes v), ag_allowDeploy := Some (gv_allowDeploy v), ag_maxDeploys := gv_maxDeploys v,
       ag_allowUnshieldedOffers := Some (gv_allowUnshieldedOffers v), ag_allowedUnshieldedTokenTypes := list_column (gv_allowedUnshieldedTokenTypes v),
       ag_maxValuePerDay := value_column (gv_maxValuePerDay v),
       ag_allowedActions := (case gv_allowedActions v of Some as \<Rightarrow> Some (json_of_strings as) | None \<Rightarrow> ag_allowedActions g),
       ag_maxJobsPerDay := (case gv_maxJobsPerDay v of Some n \<Rightarrow> n | None \<Rightarrow> ag_maxJobsPerDay g),
       ag_maxJobsPerHour := (case gv_maxJobsPerHour v of Some n \<Rightarrow> n | None \<Rightarrow> ag_maxJobsPerHour g),
       ag_validUntil := (case gv_validUntil v of Some t \<Rightarrow> t | None \<Rightarrow> ag_validUntil g),
       ag_agentLabel := (case gv_agentLabel v of Some l \<Rightarrow> l | None \<Rightarrow> ag_agentLabel g)\<rparr>"

definition loadOwnGrant :: "string \<Rightarrow> string \<Rightarrow> grants \<Rightarrow> agent_grant option" where
  "loadOwnGrant gid userId gs = select_one (\<lambda>g. ag_ID g = gid \<and> ag_userId g = userId) gs"

text \<open>\<open>keys\<close> are the names of the parameters the request gives, besides the identifier of the grant.\<close>

definition plan_update :: "admin_env \<Rightarrow> string option \<Rightarrow> string list \<Rightarrow> grant_input \<Rightarrow> string \<Rightarrow> grants \<Rightarrow> admin_refusal + grant_values" where
  "plan_update env gid keys inp userId read =
     check_then (require (filled gid) (Rejected 400 None ''grantId is required'')) (\<lambda>_.
     (let immutable = filter (\<lambda>f. f \<in> set keys) GRANT_IMMUTABLE_FIELDS in
     check_then (require (immutable = [])
       (Rejected 400 None (join '', '' immutable @ '' cannot be changed; issue a new grant for a different binding''))) (\<lambda>_.
     check_then (case loadOwnGrant (the gid) userId read of None \<Rightarrow> Inl (Rejected 404 None ''Grant not found'') | Some g \<Rightarrow> Inr g) (\<lambda>existing.
     check_then (require (ag_isActive existing = Some True) (Rejected 409 (Some ''GRANT_REVOKED'') ''Grant is revoked'')) (\<lambda>_.
     check_then (case validateGrantShape (ad_now env) inp (Some existing) of Inl m \<Rightarrow> Inl (Rejected 400 None m) | Inr v \<Rightarrow> Inr v) (\<lambda>v.
     (case policyReject (ad_platform env) (ad_sharedTypes env) v (parseJsonStringList (ag_deployedContracts existing)) of
        Some r \<Rightarrow> Inl r | None \<Rightarrow> Inr v)))))))"

definition updateAgentGrant ::
    "admin_env \<Rightarrow> string option \<Rightarrow> string list \<Rightarrow> grant_input \<Rightarrow> string \<Rightarrow> grants \<Rightarrow> grants \<Rightarrow> admin_answer \<times> grants" where
  "updateAgentGrant env gid keys inp userId read gs =
     (case plan_update env gid keys inp userId read of
        Inl r \<Rightarrow> (Refused r, gs)
      | Inr v \<Rightarrow>
          (case update_where (\<lambda>g. ag_ID g = the gid \<and> ag_userId g = userId \<and> ag_isActive g = Some True) (patch_row v) gs of
             (n, gs') \<Rightarrow> if n = 0 then (Refused (Rejected 409 (Some ''GRANT_REVOKED'') ''Grant is revoked''), gs') else (Updated (the gid) keys, gs')))"

section \<open>Every action\<close>

text \<open>The frame of an action: the rate class of administration, then the user, then the action itself.\<close>

definition owner_action ::
    "(rate_class \<rightharpoonup> int) \<Rightarrow> (string \<Rightarrow> int) \<Rightarrow> int \<Rightarrow> rate_req \<Rightarrow> (string \<Rightarrow> grants \<Rightarrow> admin_answer \<times> grants)
     \<Rightarrow> response \<Rightarrow> rate_state \<Rightarrow> grants \<Rightarrow> admin_answer option \<times> (response \<times> rate_state) \<times> grants" where
  "owner_action overrides cfg nw req act r st gs =
     (case checkRateClass overrides cfg nw Admin ''admin'' req 1 r st of
        (False, r', st') \<Rightarrow> (None, (r', st'), gs)
      | (True, r', st') \<Rightarrow>
          (case rq_user req of
             Some u \<Rightarrow> (if u = [] then (Some (Refused (Rejected 401 None ''authentication required'')), (r', st'), gs)
                        else (case act u gs of (answer, gs') \<Rightarrow> (Some answer, (r', st'), gs')))
           | None \<Rightarrow> (Some (Refused (Rejected 401 None ''authentication required'')), (r', st'), gs)))"

end
