(* ===== verification/Grant_Budget_Safety.thy ===== *)
theory Grant_Budget_Safety
  imports Grant_Budget
begin

text \<open>
  The counted budgets under interleaving. Requests read the grant, compute their window and run their statements
  one at a time, while the clock moves, other columns change and units are given back. A log
  records which takes and refunds went through. In every window the takes minus the refunds stay within the
  limit.
\<close>

section \<open>Windows\<close>

text \<open>A clock whose windows are cut into texts: same text, same window.\<close>

locale window_clock =
  fixes win :: "int \<Rightarrow> 'w" and size_ms :: int and ok :: "int \<Rightarrow> bool"
  assumes size_pos: "0 < size_ms"
    and same: "ok a \<Longrightarrow> ok b \<Longrightarrow> win a = win b \<longleftrightarrow> a div size_ms = b div size_ms"
begin

lemma later_differs: "ok a \<Longrightarrow> ok b \<Longrightarrow> a div size_ms < b div size_ms \<Longrightarrow> win a \<noteq> win b"
  using same by force

lemma earlier: "ok a \<Longrightarrow> ok b \<Longrightarrow> a \<le> b \<Longrightarrow> win a \<noteq> win b \<Longrightarrow> a div size_ms < b div size_ms"
  using same zdiv_mono1 [of a b size_ms] size_pos by force

end

interpretation budget_clock: window_clock "current_window b" "windowMs b" iso_time for b
  by unfold_locales (cases b; simp add: utcHour_eq utcDay_eq)+

section \<open>Interleaved requests\<close>

datatype take_request =
    Fresh "string option" int
  | AtReset "string option" string int
  | AtIncr string int

record budget_run =
  br_now :: int
  br_rows :: grants
  br_requests :: "take_request list"
  br_log :: "(bool \<times> string) list"

definition net :: "(bool \<times> string) list \<Rightarrow> string \<Rightarrow> int" where
  "net lg w = sum_list (map (\<lambda>(take, v). if v = w then if take then 1 else - 1 else 0) lg)"

lemma net_simps [simp]: "net [] w = 0" "net ((tk, v) # lg) w = (if v = w then if tk then 1 else - 1 else 0) + net lg w"
  by (simp_all add: net_def)

lemma net_absent: "w \<notin> snd ` set lg \<Longrightarrow> net lg w = 0"
  by (induction lg) auto

definition budget_cell :: "grant_budget \<Rightarrow> string \<Rightarrow> grants \<Rightarrow> (string option \<times> int option) list" where
  "budget_cell b gid rows = map (\<lambda>g. (budget_window b g, budget_used b g)) (filter (\<lambda>g. ag_ID g = gid) rows)"

inductive budget_step :: "grant_budget \<Rightarrow> string \<Rightarrow> int \<Rightarrow> budget_run \<Rightarrow> budget_run \<Rightarrow> bool" for b gid L where
  tick: "br_now s \<le> t \<Longrightarrow> iso_time t \<Longrightarrow> budget_step b gid L s (s\<lparr>br_now := t\<rparr>)"
| other: "budget_cell b gid rows = budget_cell b gid (br_rows s) \<Longrightarrow> budget_step b gid L s (s\<lparr>br_rows := rows\<rparr>)"
| read: "g \<in> set (br_rows s) \<Longrightarrow> ag_ID g = gid \<Longrightarrow> budget_max b g = Some m \<Longrightarrow> m \<le> L
    \<Longrightarrow> budget_step b gid L s (s\<lparr>br_requests := Fresh (budget_window b g) m # br_requests s\<rparr>)"
| start: "Fresh v m \<in> set (br_requests s) \<Longrightarrow> w = current_window b (br_now s)
    \<Longrightarrow> budget_step b gid L s (s\<lparr>br_requests := (if v \<noteq> Some w then AtReset v w m else AtIncr w m) # remove1 (Fresh v m) (br_requests s)\<rparr>)"
| reset: "AtReset v w m \<in> set (br_requests s) \<Longrightarrow> reset_stmt b gid v w (br_rows s) = (n, rows)
    \<Longrightarrow> budget_step b gid L s (s\<lparr>br_rows := rows,
          br_requests := (if 0 < n then remove1 (AtReset v w m) (br_requests s) else AtIncr w m # remove1 (AtReset v w m) (br_requests s)),
          br_log := (if 0 < n then (True, w) # br_log s else br_log s)\<rparr>)"
| incr: "AtIncr w m \<in> set (br_requests s) \<Longrightarrow> incr_stmt b gid w m (br_rows s) = (n, rows)
    \<Longrightarrow> budget_step b gid L s (s\<lparr>br_rows := rows, br_requests := remove1 (AtIncr w m) (br_requests s),
          br_log := (if 0 < n then (True, w) # br_log s else br_log s)\<rparr>)"
| refund: "w = current_window b (br_now s) \<Longrightarrow> refund_stmt b gid w (br_rows s) = (n, rows)
    \<Longrightarrow> budget_step b gid L s (s\<lparr>br_rows := rows, br_log := (if 0 < n then (False, w) # br_log s else br_log s)\<rparr>)"

text \<open>A run begins with a new grant, whose windows are empty.\<close>

definition budget_start :: "grant_budget \<Rightarrow> string \<Rightarrow> budget_run \<Rightarrow> bool" where
  "budget_start b gid s \<longleftrightarrow> (\<exists>u. budget_cell b gid (br_rows s) = [(None, u)]) \<and> br_requests s = [] \<and> br_log s = [] \<and> iso_time (br_now s)"

inductive budget_reach :: "grant_budget \<Rightarrow> string \<Rightarrow> int \<Rightarrow> budget_run \<Rightarrow> bool" for b gid L where
  init: "budget_start b gid s \<Longrightarrow> budget_reach b gid L s"
| step: "budget_reach b gid L s \<Longrightarrow> budget_step b gid L s s' \<Longrightarrow> budget_reach b gid L s'"

inductive_cases budget_stepE: "budget_step b gid L s s'"

section \<open>The statements on the counted cell\<close>

lemma budget_fields [simp]:
  "ag_ID (set_used b u g) = ag_ID g" "ag_ID (set_window b v g) = ag_ID g"
  "budget_window b (set_used b u g) = budget_window b g" "budget_used b (set_used b u g) = u"
  "budget_window b (set_window b v g) = v"
  by (cases b; simp)+

lemma cell_one:
  assumes "budget_cell b gid rows = [c]"
  shows "length (filter (\<lambda>g. ag_ID g = gid \<and> P (budget_window b g) (budget_used b g)) rows) = (if P (fst c) (snd c) then 1 else 0)"
proof -
  obtain g where g: "filter (\<lambda>g. ag_ID g = gid) rows = [g]" "c = (budget_window b g, budget_used b g)"
    using assms by (auto simp: budget_cell_def map_eq_Cons_conv)
  have "filter (\<lambda>g. ag_ID g = gid \<and> P (budget_window b g) (budget_used b g)) rows
      = filter (\<lambda>g. P (budget_window b g) (budget_used b g)) (filter (\<lambda>g. ag_ID g = gid) rows)"
    by (simp add: conj_commute)
  then show ?thesis by (simp add: g)
qed

lemma cell_update:
  assumes "\<And>g. ag_ID (f g) = ag_ID g" and "\<And>g. (budget_window b (f g), budget_used b (f g)) = h (budget_window b g, budget_used b g)"
  shows "budget_cell b gid (map (\<lambda>g. if ag_ID g = gid \<and> P (budget_window b g) (budget_used b g) then f g else g) rows)
    = map (\<lambda>c. if P (fst c) (snd c) then h c else c) (budget_cell b gid rows)"
proof -
  have "ag_ID (if ag_ID g = gid \<and> P (budget_window b g) (budget_used b g) then f g else g) = ag_ID g" for g
    using assms(1) by simp
  then have "filter (\<lambda>g. ag_ID g = gid) (map (\<lambda>g. if ag_ID g = gid \<and> P (budget_window b g) (budget_used b g) then f g else g) rows)
      = map (\<lambda>g. if ag_ID g = gid \<and> P (budget_window b g) (budget_used b g) then f g else g) (filter (\<lambda>g. ag_ID g = gid) rows)"
    by (simp add: filter_map comp_def)
  then show ?thesis unfolding budget_cell_def using assms(2) by (auto simp: comp_def)
qed

lemma reset_cell:
  assumes "reset_stmt b gid v w rows = (n, rows')" and "budget_cell b gid rows = [(W, U)]"
  shows "0 < n \<longleftrightarrow> W = v" and "budget_cell b gid rows' = [if W = v then (Some w, Some 1) else (W, U)]"
proof -
  have n: "n = length (filter (\<lambda>g. ag_ID g = gid \<and> budget_window b g = v) rows)"
    and r: "rows' = map (\<lambda>g. if ag_ID g = gid \<and> budget_window b g = v then set_used b (Some 1) (set_window b (Some w) g) else g) rows"
    using assms(1) by (auto simp: reset_stmt_def update_where_def)
  show "0 < n \<longleftrightarrow> W = v" using cell_one [OF assms(2), where P = "\<lambda>x y. x = v"] by (simp add: n)
  show "budget_cell b gid rows' = [if W = v then (Some w, Some 1) else (W, U)]"
    unfolding r by (subst cell_update [where P = "\<lambda>x y. x = v" and h = "\<lambda>_. (Some w, Some 1)"]) (simp_all add: assms(2))
qed

lemma incr_cell:
  assumes "incr_stmt b gid w m rows = (n, rows')" and "budget_cell b gid rows = [(W, U)]"
  shows "0 < n \<longleftrightarrow> W = Some w \<and> sql_lt U m"
    and "budget_cell b gid rows' = [if W = Some w \<and> sql_lt U m then (W, sql_add U 1) else (W, U)]"
proof -
  let ?P = "\<lambda>x y. x = Some w \<and> sql_lt y m"
  have n: "n = length (filter (\<lambda>g. ag_ID g = gid \<and> ?P (budget_window b g) (budget_used b g)) rows)"
    and r: "rows' = map (\<lambda>g. if ag_ID g = gid \<and> ?P (budget_window b g) (budget_used b g) then set_used b (sql_add (budget_used b g) 1) g else g) rows"
    using assms(1) by (auto simp: incr_stmt_def update_where_def)
  show "0 < n \<longleftrightarrow> W = Some w \<and> sql_lt U m" unfolding n using cell_one [OF assms(2), where P = ?P] by simp
  show "budget_cell b gid rows' = [if W = Some w \<and> sql_lt U m then (W, sql_add U 1) else (W, U)]"
    unfolding r by (subst cell_update [where P = ?P and h = "\<lambda>c. (fst c, sql_add (snd c) 1)"]) (simp_all add: assms(2))
qed

lemma refund_cell:
  assumes "refund_stmt b gid w rows = (n, rows')" and "budget_cell b gid rows = [(W, U)]"
  shows "0 < n \<longleftrightarrow> W = Some w \<and> sql_ge U 1"
    and "budget_cell b gid rows' = [if W = Some w \<and> sql_ge U 1 then (W, sql_add U (- 1)) else (W, U)]"
proof -
  let ?P = "\<lambda>x y. x = Some w \<and> sql_ge y 1"
  have n: "n = length (filter (\<lambda>g. ag_ID g = gid \<and> ?P (budget_window b g) (budget_used b g)) rows)"
    and r: "rows' = map (\<lambda>g. if ag_ID g = gid \<and> ?P (budget_window b g) (budget_used b g) then set_used b (sql_add (budget_used b g) (- 1)) g else g) rows"
    using assms(1) by (auto simp: refund_stmt_def update_where_def)
  show "0 < n \<longleftrightarrow> W = Some w \<and> sql_ge U 1" unfolding n using cell_one [OF assms(2), where P = ?P] by simp
  show "budget_cell b gid rows' = [if W = Some w \<and> sql_ge U 1 then (W, sql_add U (- 1)) else (W, U)]"
    unfolding r by (subst cell_update [where P = ?P and h = "\<lambda>c. (fst c, sql_add (snd c) (- 1))"]) (simp_all add: assms(2))
qed

section \<open>The invariant of a run\<close>

definition seen :: "grant_budget \<Rightarrow> int \<Rightarrow> string \<Rightarrow> bool" where
  "seen b nw w \<longleftrightarrow> (\<exists>t. iso_time t \<and> t \<le> nw \<and> w = current_window b t)"

lemma seen_mono: "seen b n w \<Longrightarrow> n \<le> n' \<Longrightarrow> seen b n' w"
  unfolding seen_def by (elim exE conjE, rule exI, intro conjI) (assumption | erule (1) order_trans)+

definition last_window :: "grant_budget \<Rightarrow> (bool \<times> string) list \<Rightarrow> int \<Rightarrow> bool" where
  "last_window b lg t \<longleftrightarrow> (\<forall>t'. iso_time t' \<longrightarrow> t div windowMs b < t' div windowMs b \<longrightarrow> current_window b t' \<notin> snd ` set lg)"

lemma last_windowD: "last_window b lg t \<Longrightarrow> iso_time t' \<Longrightarrow> t div windowMs b < t' div windowMs b \<Longrightarrow> current_window b t' \<notin> snd ` set lg"
  by (simp add: last_window_def)

lemma last_window_Cons:
  assumes "last_window b lg t" and "iso_time t"
  shows "last_window b ((tk, current_window b t) # lg) t"
proof -
  have "current_window b t' \<notin> snd ` set ((tk, current_window b t) # lg)" if "iso_time t'" "t div windowMs b < t' div windowMs b" for t'
    using budget_clock.later_differs [OF assms(2) that] last_windowD [OF assms(1) that] by auto
  then show ?thesis by (simp add: last_window_def)
qed

lemma last_window_later: "last_window b lg t \<Longrightarrow> t div windowMs b \<le> t' div windowMs b \<Longrightarrow> last_window b lg t'"
  by (simp add: last_window_def)

text \<open>The window \<open>w\<close> of the row is the last one with entries in the log, and the counter is their balance.\<close>

definition window_inv :: "grant_budget \<Rightarrow> int \<Rightarrow> (bool \<times> string) list \<Rightarrow> string \<Rightarrow> int option \<Rightarrow> bool" where
  "window_inv b nw lg w U \<longleftrightarrow>
     (\<exists>t. iso_time t \<and> t \<le> nw \<and> w = current_window b t \<and> last_window b lg t)
     \<and> U = Some (net lg w) \<and> 0 \<le> net lg w"

definition cell_inv :: "grant_budget \<Rightarrow> int \<Rightarrow> (bool \<times> string) list \<Rightarrow> string option \<times> int option \<Rightarrow> bool" where
  "cell_inv b nw lg c \<longleftrightarrow> (case fst c of None \<Rightarrow> lg = [] | Some w \<Rightarrow> window_inv b nw lg w (snd c))"

definition read_ok :: "grant_budget \<Rightarrow> int \<Rightarrow> string option \<Rightarrow> bool" where
  "read_ok b nw v \<longleftrightarrow> (case v of None \<Rightarrow> True | Some w \<Rightarrow> seen b nw w)"

fun request_ok :: "grant_budget \<Rightarrow> int \<Rightarrow> int \<Rightarrow> take_request \<Rightarrow> bool" where
  "request_ok b L nw (Fresh v m) = (m \<le> L \<and> read_ok b nw v)"
| "request_ok b L nw (AtReset v w m) = (m \<le> L \<and> v \<noteq> Some w \<and> (\<exists>t. iso_time t \<and> t \<le> nw \<and> w = current_window b t \<and> read_ok b t v))"
| "request_ok b L nw (AtIncr w m) = (m \<le> L)"

definition run_inv :: "grant_budget \<Rightarrow> string \<Rightarrow> int \<Rightarrow> budget_run \<Rightarrow> bool" where
  "run_inv b gid L s \<longleftrightarrow> iso_time (br_now s)
     \<and> (\<exists>c. budget_cell b gid (br_rows s) = [c] \<and> cell_inv b (br_now s) (br_log s) c)
     \<and> (\<forall>w. net (br_log s) w \<le> L) \<and> (\<forall>r \<in> set (br_requests s). request_ok b L (br_now s) r)"

lemma read_ok_mono: "read_ok b n v \<Longrightarrow> n \<le> n' \<Longrightarrow> read_ok b n' v"
  by (auto simp: read_ok_def intro: seen_mono split: option.splits)

lemma request_ok_mono: "request_ok b L n r \<Longrightarrow> n \<le> n' \<Longrightarrow> request_ok b L n' r"
proof (induction b L n r rule: request_ok.induct)
  case (2 b L n v w m)
  then obtain t where "iso_time t" "t \<le> n'" "w = current_window b t" "read_ok b t v" by (auto intro: order_trans)
  then show ?case using 2 by auto
qed (auto intro: read_ok_mono)

lemma cell_inv_mono: "cell_inv b n lg c \<Longrightarrow> n \<le> n' \<Longrightarrow> cell_inv b n' lg c"
  unfolding cell_inv_def window_inv_def by (auto split: option.splits intro: order_trans)

lemma remove1_ok: "\<forall>r \<in> set rs. P r \<Longrightarrow> \<forall>r \<in> set (remove1 x rs). P r"
  by (meson notin_set_remove1)

text \<open>The reset of a window: nothing was taken in the new window before.\<close>

lemma cell_inv_reset:
  assumes "cell_inv b nw lg (v, U)" and "request_ok b L nw (AtReset v w m)"
  shows "window_inv b nw ((True, w) # lg) w (Some 1)" and "w \<notin> snd ` set lg"
proof -
  obtain t where t: "iso_time t" "t \<le> nw" "w = current_window b t" "read_ok b t v" and ne: "v \<noteq> Some w"
    using assms(2) by auto
  have free: "last_window b lg t \<and> w \<notin> snd ` set lg"
  proof (cases v)
    case None
    then show ?thesis using assms(1) by (simp add: cell_inv_def last_window_def)
  next
    case (Some x)
    obtain t1 where t1: "iso_time t1" "x = current_window b t1" "last_window b lg t1"
      using assms(1) by (auto simp: cell_inv_def window_inv_def Some)
    obtain t0 where t0: "iso_time t0" "t0 \<le> t" "x = current_window b t0" using t(4) by (auto simp: read_ok_def seen_def Some)
    have "t0 div windowMs b < t div windowMs b"
      using budget_clock.earlier [OF t0(1) t(1) t0(2)] ne t(3) t0(3) Some by blast
    moreover have "t1 div windowMs b = t0 div windowMs b"
      using budget_clock.same [OF t1(1) t0(1), of b] t1(2) t0(3) by simp
    ultimately have lt: "t1 div windowMs b < t div windowMs b" by simp
    show ?thesis using last_window_later [OF t1(3)] last_windowD [OF t1(3) t(1) lt] lt t(3) by simp
  qed
  then show w: "w \<notin> snd ` set lg" by blast
  have "last_window b ((True, w) # lg) t" unfolding t(3) using free t(1) by (blast intro: last_window_Cons)
  moreover have "net ((True, w) # lg) w = 1" using net_absent [OF w] by simp
  ultimately show "window_inv b nw ((True, w) # lg) w (Some 1)" unfolding window_inv_def using t(1-3) by simp blast
qed

text \<open>A change of the counter in the row's own window.\<close>

lemma cell_inv_count:
  assumes "cell_inv b nw lg (Some w, U)" and "0 \<le> net ((tk, w) # lg) w"
  shows "window_inv b nw ((tk, w) # lg) w (sql_add U (if tk then 1 else - 1))"
proof -
  obtain t where t: "iso_time t" "t \<le> nw" "w = current_window b t" "last_window b lg t" and u: "U = Some (net lg w)"
    using assms(1) by (auto simp: cell_inv_def window_inv_def)
  have "last_window b ((tk, w) # lg) t" unfolding t(3) by (rule last_window_Cons [OF t(4,1)])
  then show ?thesis unfolding window_inv_def using t(1-3) assms(2) by (auto simp: u sql_defs)
qed

lemma run_inv_step:
  assumes "run_inv b gid L s" and "budget_step b gid L s s'" and "1 \<le> L"
  shows "run_inv b gid L s'"
proof -
  obtain W U where iso: "iso_time (br_now s)" and cell: "budget_cell b gid (br_rows s) = [(W, U)]"
    and ci: "cell_inv b (br_now s) (br_log s) (W, U)" and nl: "\<forall>w. net (br_log s) w \<le> L"
    and rq: "\<forall>r \<in> set (br_requests s). request_ok b L (br_now s) r"
    using assms(1) unfolding run_inv_def by (metis surj_pair)
  from assms(2) show ?thesis
  proof cases
    case (tick t)
    then show ?thesis using cell ci nl rq cell_inv_mono request_ok_mono unfolding run_inv_def by auto
  next
    case (other rows)
    then show ?thesis using iso cell ci nl rq unfolding run_inv_def by simp
  next
    case (read g m)
    have "(budget_window b g, budget_used b g) \<in> set (budget_cell b gid (br_rows s))"
      using read(2,3) by (force simp: budget_cell_def)
    then have "W = budget_window b g" by (simp add: cell)
    then have "read_ok b (br_now s) (budget_window b g)"
      using ci by (auto simp: cell_inv_def window_inv_def read_ok_def seen_def split: option.splits)
    then show ?thesis using iso cell ci nl rq read unfolding run_inv_def by simp
  next
    case (start v m w)
    have "request_ok b L (br_now s) (Fresh v m)" using rq start(2) by blast
    then have "request_ok b L (br_now s) (if v \<noteq> Some w then AtReset v w m else AtIncr w m)"
      using iso start(3) by auto
    then show ?thesis using iso cell ci nl remove1_ok [OF rq] start(1) unfolding run_inv_def by simp
  next
    case (reset v w m n rows)
    have ok: "request_ok b L (br_now s) (AtReset v w m)" using rq reset(2) by blast
    note rc = reset_cell [OF reset(3) cell]
    show ?thesis
    proof (cases "W = v")
      case True
      note cr = cell_inv_reset [OF ci [unfolded True] ok]
      have "net ((True, w) # br_log s) w' \<le> L" for w' using nl net_absent [OF cr(2)] assms(3) by auto
      then show ?thesis using iso rc True cr(1) remove1_ok [OF rq] reset(1) unfolding run_inv_def by (simp add: cell_inv_def)
    next
      case False
      then show ?thesis using iso rc ci nl ok remove1_ok [OF rq] reset(1) unfolding run_inv_def by simp
    qed
  next
    case (incr w m n rows)
    have m: "m \<le> L" using rq incr(2) by force
    note ic = incr_cell [OF incr(3) cell]
    show ?thesis
    proof (cases "W = Some w \<and> sql_lt U m")
      case True
      then have u: "U = Some (net (br_log s) w)" "0 \<le> net (br_log s) w" "net (br_log s) w < m"
        using ci by (auto simp: cell_inv_def window_inv_def sql_defs)
      have "net ((True, w) # br_log s) w' \<le> L" for w' using nl u(3) m by auto
      moreover have "window_inv b (br_now s) ((True, w) # br_log s) w (sql_add U 1)"
        using cell_inv_count [of b "br_now s" "br_log s" w U True] ci True u(2) by simp
      ultimately show ?thesis using iso ic True remove1_ok [OF rq] incr(1) unfolding run_inv_def by (simp add: cell_inv_def)
    next
      case False
      then have "\<not> 0 < n" using ic(1) by blast
      then show ?thesis using iso ic(2) False ci nl remove1_ok [OF rq] incr(1) unfolding run_inv_def by (simp only: if_False) simp
    qed
  next
    case (refund w n rows)
    note fc = refund_cell [OF refund(3) cell]
    show ?thesis
    proof (cases "W = Some w \<and> sql_ge U 1")
      case True
      then have u: "U = Some (net (br_log s) w)" "1 \<le> net (br_log s) w"
        using ci by (auto simp: cell_inv_def window_inv_def sql_defs)
      have "net ((False, w) # br_log s) w' \<le> L" for w' using nl [rule_format, of w'] by auto
      moreover have "window_inv b (br_now s) ((False, w) # br_log s) w (sql_add U (- 1))"
        using cell_inv_count [of b "br_now s" "br_log s" w U False] ci True u(2) by simp
      ultimately show ?thesis using iso fc True rq refund(1) unfolding run_inv_def by (simp add: cell_inv_def)
    next
      case False
      then have "\<not> 0 < n" using fc(1) by blast
      then show ?thesis using iso fc(2) False ci nl rq refund(1) unfolding run_inv_def by (simp only: if_False) simp
    qed
  qed
qed

lemma run_inv_reach:
  assumes "budget_reach b gid L s" and "1 \<le> L"
  shows "run_inv b gid L s"
  using assms
proof (induction rule: budget_reach.induct)
  case (init s)
  then show ?case by (auto simp: run_inv_def budget_start_def cell_inv_def)
next
  case (step s s')
  then show ?case using run_inv_step by blast
qed

lemma path3: "R x y \<Longrightarrow> R y z \<Longrightarrow> R z u \<Longrightarrow> R\<^sup>*\<^sup>* x u"
  by (blast intro: converse_rtranclp_into_rtranclp)

lemma path4: "R x y \<Longrightarrow> R y z \<Longrightarrow> R z u \<Longrightarrow> R u v \<Longrightarrow> R\<^sup>*\<^sup>* x v"
  by (blast intro: converse_rtranclp_into_rtranclp)

text \<open>\<^const>\<open>consumeBudget\<close> run without interruption is such a run.\<close>

lemma consume_is_run:
  assumes "g \<in> set (br_rows s)" and "budget_max b g = Some m" and "m \<le> L"
    and "consumeBudget g b m (br_now s) (br_rows s) = (granted, rows)"
  shows "(budget_step b (ag_ID g) L)\<^sup>*\<^sup>* s
    (s\<lparr>br_rows := rows, br_log := (if granted then (True, current_window b (br_now s)) # br_log s else br_log s)\<rparr>)"
proof -
  let ?w = "current_window b (br_now s)" and ?v = "budget_window b g"
  let ?step = "budget_step b (ag_ID g) L"
  let ?at = "\<lambda>r. s\<lparr>br_requests := r # br_requests s\<rparr>"
  let ?after = "\<lambda>rows k. s\<lparr>br_rows := rows, br_log := (if 0 < (k::nat) then (True, ?w) # br_log s else br_log s)\<rparr>"
  have r: "?step s (?at (Fresh ?v m))" by (rule budget_step.read) (use assms in simp_all)
  let ?next = "if ?v \<noteq> Some ?w then AtReset ?v ?w m else AtIncr ?w m"
  have e1: "?at (Fresh ?v m)\<lparr>br_requests := ?next # remove1 (Fresh ?v m) (br_requests (?at (Fresh ?v m)))\<rparr> = ?at ?next" by simp
  have st: "?step (?at (Fresh ?v m)) (?at ?next)"
    by (subst e1 [symmetric], rule budget_step.start) simp_all
  have inc: "?step (?at (AtIncr ?w m)\<lparr>br_rows := rows0\<rparr>) (?after rows1 k)" if i: "incr_stmt b (ag_ID g) ?w m rows0 = (k, rows1)" for rows0 rows1 k
  proof -
    let ?s = "?at (AtIncr ?w m)\<lparr>br_rows := rows0\<rparr>"
    have e2: "?s\<lparr>br_rows := rows1, br_requests := remove1 (AtIncr ?w m) (br_requests ?s),
        br_log := (if 0 < k then (True, ?w) # br_log ?s else br_log ?s)\<rparr> = ?after rows1 k" by simp
    show ?thesis by (subst e2 [symmetric], rule budget_step.incr) (simp_all add: i)
  qed
  show ?thesis
  proof (cases "?v = Some ?w")
    case True
    then obtain k where k: "incr_stmt b (ag_ID g) ?w m (br_rows s) = (k, rows)" "granted = (0 < k)"
      using assms(4) by (auto simp: consumeBudget_def Let_def split: prod.splits)
    have e3: "?at (AtIncr ?w m)\<lparr>br_rows := br_rows s\<rparr> = ?at ?next" using True by simp
    have fin: "?step (?at ?next) (?after rows k)" unfolding e3 [symmetric] by (rule inc [OF k(1)])
    show ?thesis unfolding k(2) by (rule path3 [where R = ?step, OF r st fin])
  next
    case False
    obtain n rows0 where n: "reset_stmt b (ag_ID g) ?v ?w (br_rows s) = (n, rows0)" by fastforce
    let ?s = "?at (AtReset ?v ?w m)"
    have e4: "?at ?next = ?s" using False by simp
    have rs: "?step ?s (?s\<lparr>br_rows := rows0,
          br_requests := (if 0 < n then remove1 (AtReset ?v ?w m) (br_requests ?s) else AtIncr ?w m # remove1 (AtReset ?v ?w m) (br_requests ?s)),
          br_log := (if 0 < n then (True, ?w) # br_log ?s else br_log ?s)\<rparr>)"
      by (rule budget_step.reset) (simp_all add: n)
    note st' = st [unfolded e4]
    show ?thesis
    proof (cases "0 < n")
      case True
      then have g: "granted" "rows = rows0" using assms(4) False n by (simp_all add: consumeBudget_def Let_def)
      have e5: "?s\<lparr>br_rows := rows0,
          br_requests := (if 0 < n then remove1 (AtReset ?v ?w m) (br_requests ?s) else AtIncr ?w m # remove1 (AtReset ?v ?w m) (br_requests ?s)),
          br_log := (if 0 < n then (True, ?w) # br_log ?s else br_log ?s)\<rparr>
        = s\<lparr>br_rows := rows, br_log := (if granted then (True, ?w) # br_log s else br_log s)\<rparr>" using True g by simp
      show ?thesis by (rule path3 [where R = ?step, OF r st' rs [unfolded e5]])
    next
      case zero: False
      then obtain k where k: "incr_stmt b (ag_ID g) ?w m rows0 = (k, rows)" "granted = (0 < k)"
        using assms(4) False n by (auto simp: consumeBudget_def Let_def split: prod.splits)
      have e6: "?s\<lparr>br_rows := rows0,
          br_requests := (if 0 < n then remove1 (AtReset ?v ?w m) (br_requests ?s) else AtIncr ?w m # remove1 (AtReset ?v ?w m) (br_requests ?s)),
          br_log := (if 0 < n then (True, ?w) # br_log ?s else br_log ?s)\<rparr> = ?at (AtIncr ?w m)\<lparr>br_rows := rows0\<rparr>" using zero by simp
      show ?thesis unfolding k(2)
        by (rule path4 [where R = ?step, OF r st' rs [unfolded e6] inc [OF k(1)]])
    qed
  qed
qed

section \<open>Deploys\<close>

record deploy_run =
  dr_rows :: grants
  dr_log :: "int list"

definition deploy_cell :: "string \<Rightarrow> grants \<Rightarrow> int option list" where
  "deploy_cell gid rows = map ag_deploysUsed (filter (\<lambda>g. ag_ID g = gid) rows)"

text \<open>
  Reservations with a row read at any earlier time, releases of what was reserved, and changes of other columns.
  The log lists what was reserved and, negative, what was given back.
\<close>

inductive deploy_step :: "string \<Rightarrow> int \<Rightarrow> deploy_run \<Rightarrow> deploy_run \<Rightarrow> bool" for gid L where
  reserve: "reserveDeployBudget gid count (Some g) (dr_rows s) = (granted, rows) \<Longrightarrow> deploy_limit g \<le> L
    \<Longrightarrow> deploy_step gid L s \<lparr>dr_rows = rows, dr_log = (if granted then count # dr_log s else dr_log s)\<rparr>"
| release: "deployRefund gid count (dr_rows s) = (n, rows) \<Longrightarrow> 1 \<le> count
    \<Longrightarrow> deploy_step gid L s \<lparr>dr_rows = rows, dr_log = (if 0 < n then - count # dr_log s else dr_log s)\<rparr>"
| other: "deploy_cell gid rows = deploy_cell gid (dr_rows s) \<Longrightarrow> deploy_step gid L s (s\<lparr>dr_rows := rows\<rparr>)"

inductive deploy_reach :: "string \<Rightarrow> int \<Rightarrow> deploy_run \<Rightarrow> bool" for gid L where
  init: "deploy_cell gid rows = [Some 0] \<Longrightarrow> deploy_reach gid L \<lparr>dr_rows = rows, dr_log = []\<rparr>"
| step: "deploy_reach gid L s \<Longrightarrow> deploy_step gid L s s' \<Longrightarrow> deploy_reach gid L s'"

lemma deploy_cell_update:
  assumes "\<And>g. ag_ID (f g) = ag_ID g" and "\<And>g. P g \<Longrightarrow> ag_ID g = gid" and "deploy_cell gid rows = [u]"
    and "\<And>g. ag_deploysUsed g = u \<Longrightarrow> ag_deploysUsed (f g) = u'"
  shows "case update_where P f rows of (n, rows') \<Rightarrow> deploy_cell gid rows' = [if 0 < n then u' else u]
    \<and> (n = 0 \<or> (\<exists>g \<in> set rows. P g \<and> ag_deploysUsed g = u))"
proof -
  obtain g where g: "filter (\<lambda>g. ag_ID g = gid) rows = [g]" "ag_deploysUsed g = u"
    using assms(3) by (auto simp: deploy_cell_def map_eq_Cons_conv)
  have "filter P rows = filter P (filter (\<lambda>g. ag_ID g = gid) rows)" using assms(2) by (auto intro: filter_cong)
  then have fp: "filter P rows = (if P g then [g] else [])" by (simp add: g)
  have "filter (\<lambda>g. ag_ID g = gid) (map (\<lambda>r. if P r then f r else r) rows) = map (\<lambda>r. if P r then f r else r) (filter (\<lambda>g. ag_ID g = gid) rows)"
    using assms(1) by (simp add: filter_map comp_def if_distrib cong: if_cong)
  then have "deploy_cell gid (map (\<lambda>r. if P r then f r else r) rows) = [if P g then u' else u]"
    using g assms(4) [OF g(2)] by (simp add: deploy_cell_def)
  moreover have "g \<in> set rows" using g(1) by (metis filter_eq_ConsD in_set_conv_decomp)
  ultimately show ?thesis using fp g(2) by (auto simp: update_where_def)
qed

definition deploy_inv :: "string \<Rightarrow> int \<Rightarrow> deploy_run \<Rightarrow> bool" where
  "deploy_inv gid L s \<longleftrightarrow> deploy_cell gid (dr_rows s) = [Some (sum_list (dr_log s))] \<and> 0 \<le> sum_list (dr_log s) \<and> sum_list (dr_log s) \<le> L"

lemma deploy_inv_step:
  assumes "deploy_inv gid L s" and "deploy_step gid L s s'"
  shows "deploy_inv gid L s'"
  using assms(2)
proof cases
  case (reserve count g granted rows)
  let ?S = "sum_list (dr_log s)"
  show ?thesis
  proof (cases "gid = [] \<or> count < 1 \<or> ag_isActive g = Some False \<or> ag_allowDeploy g \<noteq> Some True")
    case True
    then have "granted = False" "rows = dr_rows s" using reserve(2) by (auto simp: reserveDeployBudget_def split: if_splits)
    then show ?thesis using assms(1) reserve(1) by (simp add: deploy_inv_def)
  next
    case False
    then obtain n where u: "reserve_stmt gid count (deploy_limit g) (dr_rows s) = (n, rows)" "granted = (0 < n)"
      using reserve(2) by (auto simp: reserveDeployBudget_def split: prod.splits)
    have c: "deploy_cell gid (dr_rows s) = [Some ?S]" using assms(1) by (simp add: deploy_inv_def)
    have "deploy_cell gid rows = [if 0 < n then Some (?S + count) else Some ?S]
        \<and> (n = 0 \<or> (\<exists>r \<in> set (dr_rows s). (ag_ID r = gid \<and> ag_isActive r = Some True \<and> ag_allowDeploy r = Some True
             \<and> sql_le (ag_deploysUsed r) (deploy_limit g - count)) \<and> ag_deploysUsed r = Some ?S))"
      using deploy_cell_update [OF _ _ c, where u' = "Some (?S + count)" and f = "\<lambda>g. g\<lparr>ag_deploysUsed := sql_add (ag_deploysUsed g) count\<rparr>"
          and P = "\<lambda>r. ag_ID r = gid \<and> ag_isActive r = Some True \<and> ag_allowDeploy r = Some True \<and> sql_le (ag_deploysUsed r) (deploy_limit g - count)"] u(1)
      by (simp add: reserve_stmt_def sql_defs)
    then show ?thesis using assms(1) reserve(1,3) u(2) False by (auto simp: deploy_inv_def sql_defs)
  qed
next
  case (release count n rows)
  let ?S = "sum_list (dr_log s)"
  have c: "deploy_cell gid (dr_rows s) = [Some ?S]" using assms(1) by (simp add: deploy_inv_def)
  have "deploy_cell gid rows = [if 0 < n then Some (?S - count) else Some ?S]
      \<and> (n = 0 \<or> (\<exists>r \<in> set (dr_rows s). (ag_ID r = gid \<and> sql_ge (ag_deploysUsed r) count) \<and> ag_deploysUsed r = Some ?S))"
    using deploy_cell_update [OF _ _ c, where u' = "Some (?S - count)" and f = "\<lambda>g. g\<lparr>ag_deploysUsed := sql_add (ag_deploysUsed g) (- count)\<rparr>"
        and P = "\<lambda>r. ag_ID r = gid \<and> sql_ge (ag_deploysUsed r) count"] release(2)
    by (simp add: deployRefund_def sql_defs)
  then show ?thesis using assms(1) release(1,3) by (auto simp: deploy_inv_def sql_defs)
next
  case (other rows)
  then show ?thesis using assms(1) by (simp add: deploy_inv_def)
qed

lemma deploy_inv_reach: "deploy_reach gid L s \<Longrightarrow> 0 \<le> L \<Longrightarrow> deploy_inv gid L s"
proof (induction rule: deploy_reach.induct)
  case (init rows)
  then show ?case by (simp add: deploy_inv_def)
next
  case (step s s')
  then show ?case using deploy_inv_step by blast
qed

section \<open>Value per day\<close>

definition value_map_ok :: "value_map \<Rightarrow> bool" where
  "value_map_ok m \<longleftrightarrow> distinct (map fst m) \<and> list_all (\<lambda>(t, a). HEX64_RE t \<and> is_amount a) m"

lemma map_put_ok: "value_map_ok m \<Longrightarrow> HEX64_RE t \<Longrightarrow> is_amount a \<Longrightarrow> value_map_ok (map_put t a m)"
proof -
  have "list_all P m \<Longrightarrow> P (t, a) \<Longrightarrow> list_all P (map_put t a m)" for P
    by (induction t a m rule: map_put.induct) auto
  then show "value_map_ok m \<Longrightarrow> HEX64_RE t \<Longrightarrow> is_amount a \<Longrightarrow> value_map_ok (map_put t a m)"
    by (simp add: value_map_ok_def distinct_map_put)
qed

lemma value_entries_ok: "value_map_ok out \<Longrightarrow> value_map_ok (value_entries kvs out)"
  by (induction kvs out rule: value_entries.induct) (auto simp: map_put_ok split: json.splits)

lemma parse_ok: "value_map_ok (parseValueBudgetMap raw)"
  by (auto simp: parseValueBudgetMap_def value_map_ok_def [of "[]"] intro!: value_entries_ok split: option.splits json.splits)

lemma map_put_new: "t \<notin> fst ` set m \<Longrightarrow> map_put t a m = m @ [(t, a)]"
  by (induction t a m rule: map_put.induct) auto

lemma value_entries_json:
  "value_map_ok m \<Longrightarrow> fst ` set m \<inter> fst ` set out = {} \<Longrightarrow> value_entries (map (\<lambda>(t, a). (t, JStr a)) m) out = out @ m"
proof (induction m arbitrary: out)
  case (Cons e m)
  obtain t a where e: "e = (t, a)" by (cases e)
  have ta: "HEX64_RE t" "is_amount a" "t \<notin> fst ` set out" "t \<notin> fst ` set m" "value_map_ok m"
    using Cons.prems by (auto simp: e value_map_ok_def)
  have "value_entries (map (\<lambda>(t, a). (t, JStr a)) m) (out @ [(t, a)]) = (out @ [(t, a)]) @ m"
    by (rule Cons.IH [OF ta(5)]) (use Cons.prems(2) ta(4) in \<open>auto simp: e\<close>)
  then show ?case using ta by (simp add: e map_put_new)
qed simp

text \<open>What is stored is read back.\<close>

lemma parse_value_json: "value_map_ok m \<Longrightarrow> parseValueBudgetMap (Some (value_json m)) = m"
  using value_entries_json [of m "[]"] by (simp add: parseValueBudgetMap_def value_json_def)

lemma is_amount_int_str: "0 \<le> i \<Longrightarrow> is_amount (int_str i)"
  using nat_str_digits [of "nat i"] by (simp add: is_amount_def int_str_def)

lemma digits_int_str: "0 \<le> i \<Longrightarrow> digits_val (int_str i) 0 = i"
  using nat_str_digits [of "nat i"] by (simp add: int_str_def)

lemma value_of_nonneg: "value_map_ok m \<Longrightarrow> 0 \<le> value_of_map m t"
  by (auto simp: value_of_map_def value_map_ok_def is_amount_def list_all_iff split: option.splits
      dest!: map_of_SomeD intro!: digits_val_nonneg)

text \<open>The value a row counts for a day and a token type.\<close>

definition day_value :: "agent_grant \<Rightarrow> string \<Rightarrow> string \<Rightarrow> int" where
  "day_value g w t = (if ag_valueWindow g = Some w then value_of_map (parseValueBudgetMap (ag_valueUsedToday g)) t else 0)"

lemma usedValues_ok: "value_map_ok (usedValues g nw)"
  by (simp add: usedValues_def parse_ok value_map_ok_def [of "[]"])

lemma day_value_used: "day_value g (utcDay nw) t = value_of_map (usedValues g nw) t"
  by (simp add: day_value_def usedValues_def value_of_map_def)

lemma take_value_Taken:
  assumes "take_value gid t amount nw gs = (Taken, gs')" and "0 < amount"
  obtains g m where "currentGrantRow gid nw gs = Some g" and "map_of (parseValueBudgetMap (ag_maxValuePerDay g)) t = Some m"
    and "day_value g (utcDay nw) t + amount \<le> digits_val m 0"
    and "gs' = put_value gid (utcDay nw) (map_put t (int_str (day_value g (utcDay nw) t + amount)) (usedValues g nw)) gs"
  using assms by (auto simp: take_value_def Let_def day_value_used split: option.splits if_splits)

lemma put_value_row:
  assumes "g' \<in> set (put_value gid w used gs)" and "ag_ID g' = gid" and "value_map_ok used"
  shows "day_value g' w t = value_of_map used t"
proof -
  obtain g where "g \<in> set gs" "g' = (if ag_ID g = gid then g\<lparr>ag_valueWindow := Some w, ag_valueUsedToday := Some (value_json used)\<rparr> else g)"
    using assms(1) by (auto simp: put_value_def update_where_def)
  then show ?thesis using assms(2,3) by (auto simp: day_value_def parse_value_json split: if_splits)
qed

lemma value_of_put: "0 \<le> i \<Longrightarrow> value_of_map (map_put t (int_str i) m) t' = (if t' = t then i else value_of_map m t')"
  by (simp add: value_of_map_def digits_int_str)

lemma taken_rows:
  assumes "take_value gid t amount nw gs = (Taken, gs')" and "0 < amount" and "g' \<in> set gs'" and "ag_ID g' = gid"
  shows "\<exists>g m. currentGrantRow gid nw gs = Some g \<and> map_of (parseValueBudgetMap (ag_maxValuePerDay g)) t = Some m
    \<and> day_value g' (utcDay nw) t = day_value g (utcDay nw) t + amount \<and> day_value g' (utcDay nw) t \<le> digits_val m 0
    \<and> (\<forall>t'. t' = t \<or> day_value g' (utcDay nw) t' = day_value g (utcDay nw) t')"
proof -
  obtain g m where g: "currentGrantRow gid nw gs = Some g" "map_of (parseValueBudgetMap (ag_maxValuePerDay g)) t = Some m"
    "day_value g (utcDay nw) t + amount \<le> digits_val m 0"
    "gs' = put_value gid (utcDay nw) (map_put t (int_str (day_value g (utcDay nw) t + amount)) (usedValues g nw)) gs"
    using take_value_Taken [OF assms(1,2)] by metis
  let ?used = "map_put t (int_str (day_value g (utcDay nw) t + amount)) (usedValues g nw)"
  have n: "0 \<le> day_value g (utcDay nw) t + amount" using assms(2) value_of_nonneg [OF usedValues_ok] by (simp add: day_value_used add_nonneg_nonneg)
  have "HEX64_RE t" using parse_ok [of "ag_maxValuePerDay g"] map_of_SomeD [OF g(2)] by (auto simp: value_map_ok_def list_all_iff)
  then have ok: "value_map_ok ?used" by (rule map_put_ok [OF usedValues_ok]) (rule is_amount_int_str [OF n])
  have "day_value g' (utcDay nw) t' = value_of_map ?used t'" for t'
    by (rule put_value_row [OF _ assms(4) ok]) (use assms(3) g(4) in simp)
  then show ?thesis using g n by (auto simp: value_of_put day_value_used)
qed

section \<open>Properties\<close>

definition sample_row :: agent_grant where
  "sample_row = \<lparr>ag_ID = ''g'', ag_userId = ''u'', ag_agentLabel = None, ag_sessionId = ''s'', ag_tokenHash = ''h'', ag_allowedActions = None,
     ag_maxJobsPerDay = None, ag_jobsUsedToday = Some 0, ag_budgetWindow = None, ag_maxJobsPerHour = Some 1, ag_jobsUsedThisHour = Some 0,
     ag_hourWindow = None, ag_sponsorSessionId = None, ag_allowedContracts = None, ag_allowedCircuits = None, ag_allowDeploy = Some True,
     ag_maxDeploys = Some 2, ag_deploysUsed = Some 0, ag_deployedContracts = None, ag_allowedTokenTypes = None, ag_mintedTokenTypes = None,
     ag_allowUnshieldedOffers = None, ag_allowedUnshieldedTokenTypes = None, ag_maxValuePerDay = None, ag_valueUsedToday = None,
     ag_valueWindow = None, ag_validUntil = None, ag_isActive = Some True, ag_revokedAt = None\<rparr>"

text \<open>
  C11. In every hour and every day a grant has at most as many jobs admitted, less those given back, as the largest limit
  its requests read, however the statements of parallel requests, edits and refunds interleave and whenever the
  window changes between them.
\<close>

theorem budget_bound:
  assumes "budget_reach b gid L s" and "1 \<le> L"
  shows "net (br_log s) w \<le> L"
  using run_inv_reach [OF assms] by (simp add: run_inv_def)

lemma budget_reach_path: "(budget_step b gid L)\<^sup>*\<^sup>* s s' \<Longrightarrow> budget_reach b gid L s \<Longrightarrow> budget_reach b gid L s'"
  by (induction rule: rtranclp_induct) (blast intro: budget_reach.step)+

definition sample_run :: "(bool \<times> string) list \<Rightarrow> budget_run" where
  "sample_run lg = \<lparr>br_now = 0, br_rows = [sample_row], br_requests = [], br_log = lg\<rparr>"

lemma iso_time_zero: "iso_time 0"
  by code_simp

theorem budget_bound_witness: "net [(True, utcHour 0)] (utcHour 0) \<le> 1"
proof -
  have start: "budget_reach HOUR_BUDGET ''g'' 1 (sample_run [])"
    by (rule budget_reach.init) (simp add: budget_start_def sample_run_def sample_row_def budget_cell_def iso_time_zero)
  let ?s = "sample_run []"
  obtain rows where c: "consumeBudget sample_row HOUR_BUDGET 1 (br_now ?s) (br_rows ?s) = (True, rows)"
    by (simp add: consumeBudget_def Let_def reset_stmt_def update_where_def sample_run_def sample_row_def)
  have m: "sample_row \<in> set (br_rows ?s)" "budget_max HOUR_BUDGET sample_row = Some 1" by (simp_all add: sample_run_def sample_row_def)
  have path: "(budget_step HOUR_BUDGET ''g'' 1)\<^sup>*\<^sup>* ?s (?s\<lparr>br_rows := rows, br_log := [(True, utcHour 0)]\<rparr>)"
    using consume_is_run [OF m order_refl c] by (simp add: sample_row_def) (simp add: sample_run_def)
  have "budget_reach HOUR_BUDGET ''g'' 1 (?s\<lparr>br_rows := rows, br_log := [(True, utcHour 0)]\<rparr>)"
    using path start by (rule budget_reach_path)
  from budget_bound [OF this order_refl, where w = "utcHour 0"] show ?thesis by simp
qed

definition first_row :: "grants \<Rightarrow> agent_grant" where
  "first_row gs = (case gs of g # _ \<Rightarrow> g | [] \<Rightarrow> sample_row)"

lemma hours: "utcHour 0 = ''1970-01-01T00''" "utcHour 3600000 = ''1970-01-01T01''"
  by code_simp+

text \<open>
  A unit given back after the hour has changed is taken off the new hour's counter: a grant with one job per hour
  has a job admitted in the first hour and one in the second, is refused a third, and after the refund of the first
  hour's unit is admitted again in the second hour.
\<close>

theorem refund_crosses_window:
  "let (ok1, s1) = consumeBudget sample_row HOUR_BUDGET 1 0 [sample_row];
       (ok2, s2) = consumeBudget (first_row s1) HOUR_BUDGET 1 3600000 s1;
       (ok3, s3) = consumeBudget (first_row s2) HOUR_BUDGET 1 3600000 s2;
       s4 = refundBudget sample_row HOUR_BUDGET 3600000 s3;
       (ok5, s5) = consumeBudget (first_row s4) HOUR_BUDGET 1 3600000 s4
   in ok1 \<and> ok2 \<and> \<not> ok3 \<and> ok5"
  by (simp add: consumeBudget_def refundBudget_def reset_stmt_def incr_stmt_def refund_stmt_def update_where_def first_row_def sample_row_def hours
      sql_defs Let_def)

text \<open>
  The deploys reserved under a grant, less those given back, never exceed the largest limit a reservation read,
  and the stored counter is exactly that balance, in any order of reservations, releases and other changes.
\<close>

theorem deploy_bound:
  assumes "deploy_reach gid L s" and "0 \<le> L"
  shows "deploy_cell gid (dr_rows s) = [Some (sum_list (dr_log s))] \<and> 0 \<le> sum_list (dr_log s) \<and> sum_list (dr_log s) \<le> L"
  using deploy_inv_reach [OF assms] by (simp add: deploy_inv_def)

theorem deploy_bound_witness:
  "sum_list [2 :: int] \<le> 2 \<and> reserveDeployBudget ''g'' 2 (Some sample_row) [sample_row] = (True, [sample_row\<lparr>ag_deploysUsed := Some 2\<rparr>])"
proof -
  have r: "reserveDeployBudget ''g'' 2 (Some sample_row) [sample_row] = (True, [sample_row\<lparr>ag_deploysUsed := Some 2\<rparr>])"
    by (simp add: reserveDeployBudget_def reserve_stmt_def update_where_def sample_row_def sql_defs deploy_limit_def)
  have "deploy_reach ''g'' 2 \<lparr>dr_rows = [sample_row], dr_log = []\<rparr>"
    by (rule deploy_reach.init) (simp add: deploy_cell_def sample_row_def)
  moreover have "deploy_step ''g'' 2 \<lparr>dr_rows = [sample_row], dr_log = []\<rparr> \<lparr>dr_rows = [sample_row\<lparr>ag_deploysUsed := Some 2\<rparr>], dr_log = [2]\<rparr>"
    using deploy_step.reserve [where s = "\<lparr>dr_rows = [sample_row], dr_log = []\<rparr>" and gid = "''g''" and L = 2 and count = 2 and g = sample_row] r
    by (simp add: deploy_limit_def sample_row_def)
  ultimately have "deploy_reach ''g'' 2 \<lparr>dr_rows = [sample_row\<lparr>ag_deploysUsed := Some 2\<rparr>], dr_log = [2]\<rparr>"
    by (rule deploy_reach.step)
  from deploy_bound [OF this] show ?thesis using r by simp
qed

text \<open>
  C36. When an amount is taken from a day's value budget, the day's count of its token type in every row of the grant grows by
  the amount and stays within the limit of the grant, and the other token types keep theirs; the count survives being stored as text.
\<close>

theorem value_taken:
  assumes "take_value gid t amount nw gs = (Taken, gs')" and "0 < amount" and "g' \<in> set gs'" and "ag_ID g' = gid"
  shows "\<exists>g m. currentGrantRow gid nw gs = Some g \<and> map_of (parseValueBudgetMap (ag_maxValuePerDay g)) t = Some m
    \<and> day_value g' (utcDay nw) t = day_value g (utcDay nw) t + amount \<and> day_value g' (utcDay nw) t \<le> digits_val m 0
    \<and> (\<forall>t'. t' = t \<or> day_value g' (utcDay nw) t' = day_value g (utcDay nw) t')"
  using taken_rows [OF assms] .

definition value_type :: string where "value_type = replicate 64 (CHR ''a'')"

definition value_row :: agent_grant where
  "value_row = sample_row\<lparr>ag_maxValuePerDay := Some (value_json [(value_type, ''10'')])\<rparr>"

lemma value_row_max: "parseValueBudgetMap (ag_maxValuePerDay value_row) = [(value_type, ''10'')]"
  unfolding value_row_def by (simp only: agent_grant.simps agent_grant.update_convs agent_grant.select_convs sample_row_def) (rule parse_value_json, code_simp)

theorem value_taken_witness:
  "\<exists>g' \<in> set (snd (take_value ''g'' value_type 7 0 [value_row])). day_value g' (utcDay 0) value_type \<le> 10"
proof -
  let ?t = "value_type"
  have cur: "currentGrantRow ''g'' 0 [value_row] = Some value_row"
    by (simp add: currentGrantRow_def select_one_def value_row_def sample_row_def grantExpired_def)
  have u: "usedValues value_row 0 = []" by (simp add: usedValues_def value_row_def sample_row_def)
  have m: "map_of (parseValueBudgetMap (ag_maxValuePerDay value_row)) ?t = Some ''10''" unfolding value_row_max by simp
  have d: "digits_val ''10'' 0 = 10" by code_simp
  obtain gs' where t: "take_value ''g'' ?t 7 0 [value_row] = (Taken, gs')"
    using m by (simp add: take_value_def cur u Let_def value_of_map_def d)
  then have "gs' = put_value ''g'' (utcDay 0) (map_put ?t (int_str 7) []) [value_row]"
    using m by (simp add: take_value_def cur u Let_def value_of_map_def d)
  then obtain g' where g': "g' \<in> set gs'" "ag_ID g' = ''g''"
    by (auto simp: put_value_def update_where_def value_row_def sample_row_def)
  obtain g k where "currentGrantRow ''g'' 0 [value_row] = Some g" "map_of (parseValueBudgetMap (ag_maxValuePerDay g)) ?t = Some k"
    "day_value g' (utcDay 0) ?t \<le> digits_val k 0"
    using value_taken [OF t _ g'] by auto
  then show ?thesis using g'(1) t m d cur by auto
qed

end
