(* ===== verification/Grant_Gate_Safety.thy ===== *)
theory Grant_Gate_Safety
  imports Grant_Gate Grant_Budget_Safety Job_Kinds
begin

text \<open>
  What the gate guarantees: a request that passes with a token runs as the issuer of one active grant,
  in that grant's session and for its circuits; a request that is refused has used nothing up; and a
  queued job is held to the grant as it is when the job runs.
\<close>

section \<open>The checks, one by one\<close>

lemma token_grant_Inr:
  "token_grant env token gs = Inr g \<longleftrightarrow> startsWith token TOKEN_PREFIX
     \<and> select_one (\<lambda>g. ag_tokenHash g = ge_hash env token \<and> ag_isActive g = Some True) gs = Some g \<and> \<not> grantExpired g (ge_now env)"
  by (auto simp: token_grant_def split: option.splits)

lemma own_usage_kept:
  assumes "own_usage g req = Inr req'"
  shows "ar_event req' = ar_event req" "ar_target req' = ar_target req" "ar_narrowed req' = ar_narrowed req"
    "ar_data req' = None \<longleftrightarrow> ar_data req = None" "map_option rd_scope (ar_data req') = map_option rd_scope (ar_data req)"
    "map_option rd_sessionId (ar_data req') = map_option rd_sessionId (ar_data req)"
    "map_option rd_sponsorSessionId (ar_data req') = map_option rd_sponsorSessionId (ar_data req)"
  using assms by (auto simp: own_usage_def split: if_splits option.splits)

text \<open>A usage request names the grant of its own token.\<close>

lemma truthy_text: "json_truthy v \<Longrightarrow> json_text_or_empty v = js_String (the v)"
  by (auto simp: json_truthy_def json_text_or_empty_def split: option.splits json.splits)

lemma own_usage_grant:
  assumes "own_usage g req = Inr req'" and "ar_event req = ''getGrantUsage''"
  shows "\<exists>d. ar_data req' = Some d \<and> json_text_or_empty (rd_grantId d) = ag_ID g"
proof -
  obtain d where d: "ar_data req = Some d" using assms by (auto simp: own_usage_def split: option.splits)
  show ?thesis
  proof (cases "json_truthy (rd_grantId d)")
    case True
    then show ?thesis using assms d truthy_text by (auto simp: own_usage_def split: if_splits)
  next
    case False
    then show ?thesis using assms d by (auto simp: own_usage_def json_text_or_empty_def)
  qed
qed

lemma narrow_read_kept:
  assumes "narrow_read g req = Inr req'"
  shows "ar_event req' = ar_event req" "ar_target req' = ar_target req" "ar_data req' = ar_data req"
  using assms by (auto simp: narrow_read_def Let_def split: if_splits)

lemma narrow_read_readable:
  assumes "narrow_read g req = Inr req'" and "ar_event req = ''READ''"
  shows "last_segment (ar_target req) \<in> set AGENT_READABLE_ENTITIES"
    "last_segment (ar_target req) \<in> {''WalletSessions'', ''PendingSubmissions'', ''Documents''} \<Longrightarrow> (''sessionId'', ag_sessionId g) \<in> set (ar_narrowed req')"
    "last_segment (ar_target req) = ''AgentGrants'' \<Longrightarrow> (''ID'', ag_ID g) \<in> set (ar_narrowed req')"
  using assms by (auto simp: narrow_read_def Let_def split: if_splits)

lemma bind_session_result:
  assumes "bind_session pool g event d = Inr d'"
  shows "rd_sessionId d' = Some (JStr (ag_sessionId g))
     \<or> (event = ''getJobStatus'' \<and> (rd_sessionId d' = Some (JStr PLATFORM_POOL_SENTINEL) \<or> (\<exists>s. sponsor_of g = Some s \<and> rd_sessionId d' = Some (JStr s))))"
    and "rd_scope d' = rd_scope d" and "rd_sponsorSessionId d' = rd_sponsorSessionId d"
  using assms by (auto simp: bind_session_def Let_def pool_poll_def pinned_poll_def split: if_splits option.splits)

lemma bind_sponsor_result:
  assumes "bind_sponsor g event d = Inr d'" and "self_paid g event"
  shows "case sponsor_of g of Some s \<Rightarrow> rd_sponsorSessionId d' = Some (JStr s)
         | None \<Rightarrow> json_absent (rd_sponsorSessionId d') \<or> rd_sponsorSessionId d' = Some (JStr [])"
  using assms by (auto simp: bind_sponsor_def split: if_splits option.splits)

lemma bind_sponsor_kept:
  assumes "bind_sponsor g event d = Inr d'"
  shows "rd_sessionId d' = rd_sessionId d" "rd_scope d' = rd_scope d"
  using assms by (auto simp: bind_sponsor_def split: if_splits option.splits)

lemma bind_data_kept:
  assumes "bind_data pool g req = Inr req'"
  shows "ar_event req' = ar_event req" "ar_target req' = ar_target req" "ar_narrowed req' = ar_narrowed req"
    "map_option rd_scope (ar_data req') = map_option rd_scope (ar_data req)"
  using assms by (auto simp: bind_data_def bind_session_result(2) bind_sponsor_kept split: option.splits if_splits)

text \<open>The request after every check.\<close>

lemma gate_checksE:
  assumes "gate_checks env g req = Inr req'"
  obtains req1 req2 where "own_usage g req = Inr req1" "narrow_read g req1 = Inr req2" "check_scope g req2 = Inr ()"
    "bind_data (ge_pool env) g req2 = Inr req'"
    "ar_event req \<in> set AGENT_ALWAYS_ALLOWED_EVENTS \<or> event_allowlisted g (ar_event req)"
  using assms by (auto simp: gate_checks_def)

lemma gate_event:
  assumes "gate_checks env g req = Inr req'"
  shows "ar_event req' = ar_event req" "ar_target req' = ar_target req"
  using assms by (auto elim!: gate_checksE simp: own_usage_kept bind_data_kept narrow_read_kept)

lemma gate_reads:
  assumes "gate_checks env g req = Inr req'" and "ar_event req = ''READ''"
  shows "last_segment (ar_target req) \<in> set AGENT_READABLE_ENTITIES"
    "last_segment (ar_target req) \<in> {''WalletSessions'', ''PendingSubmissions'', ''Documents''} \<Longrightarrow> (''sessionId'', ag_sessionId g) \<in> set (ar_narrowed req')"
    "last_segment (ar_target req) = ''AgentGrants'' \<Longrightarrow> (''ID'', ag_ID g) \<in> set (ar_narrowed req')"
  using gate_checksE [OF assms(1)] narrow_read_readable assms(2) by (metis own_usage_kept(1,2) bind_data_kept(3))+

lemma gate_session:
  assumes "gate_checks env g req = Inr req'" and "ar_event req \<noteq> ''READ''" and "ar_data req' = Some d"
  shows "rd_sessionId d = Some (JStr (ag_sessionId g))
     \<or> (ar_event req = ''getJobStatus'' \<and> (rd_sessionId d = Some (JStr PLATFORM_POOL_SENTINEL) \<or> (\<exists>s. sponsor_of g = Some s \<and> rd_sessionId d = Some (JStr s))))"
    and "self_paid g (ar_event req) \<Longrightarrow> (case sponsor_of g of Some s \<Rightarrow> rd_sponsorSessionId d = Some (JStr s)
         | None \<Rightarrow> json_absent (rd_sponsorSessionId d) \<or> rd_sponsorSessionId d = Some (JStr []))"
proof -
  obtain req1 req2 where r: "own_usage g req = Inr req1" "narrow_read g req1 = Inr req2" "bind_data (ge_pool env) g req2 = Inr req'"
    using assms(1) by (rule gate_checksE)
  have ev: "ar_event req2 = ar_event req" using r by (simp add: own_usage_kept(1) narrow_read_kept(1))
  from r(3) assms(2,3) ev obtain d0 d1 where b: "bind_session (ge_pool env) g (ar_event req) d0 = Inr d1" "bind_sponsor g (ar_event req) d1 = Inr d"
    by (auto simp: bind_data_def split: option.splits)
  show "rd_sessionId d = Some (JStr (ag_sessionId g))
     \<or> (ar_event req = ''getJobStatus'' \<and> (rd_sessionId d = Some (JStr PLATFORM_POOL_SENTINEL) \<or> (\<exists>s. sponsor_of g = Some s \<and> rd_sessionId d = Some (JStr s))))"
    using bind_session_result(1) [OF b(1)] bind_sponsor_kept(1) [OF b(2)] by simp
  show "self_paid g (ar_event req) \<Longrightarrow> (case sponsor_of g of Some s \<Rightarrow> rd_sponsorSessionId d = Some (JStr s)
         | None \<Rightarrow> json_absent (rd_sponsorSessionId d) \<or> rd_sponsorSessionId d = Some (JStr []))"
    by (rule bind_sponsor_result [OF b(2)])
qed

lemma gate_scope:
  assumes "gate_checks env g req = Inr req'" and "self_paid g (ar_event req)" and "ar_data req' = Some d"
  shows "grantScopeViolation g (rd_scope d) (ar_event req) = None"
proof -
  obtain req1 req2 where r: "own_usage g req = Inr req1" "narrow_read g req1 = Inr req2" "check_scope g req2 = Inr ()"
    "bind_data (ge_pool env) g req2 = Inr req'"
    using assms(1) by (rule gate_checksE)
  have "ar_event req2 = ar_event req" using r by (simp add: own_usage_kept(1) narrow_read_kept(1))
  moreover have "map_option rd_scope (ar_data req2) = Some (rd_scope d)" using bind_data_kept(4) [OF r(4)] assms(3) by simp
  ultimately show ?thesis using r(3) assms(2) by (auto simp: check_scope_def scope_data_of_def split: option.splits if_splits)
qed

section \<open>Circuits\<close>

lemma add_new_set [simp]: "set (add_new x xs) = insert x (set xs)"
  by (auto simp: add_new_def)

lemma fold_add_new_set [simp]: "set (fold add_new cs out) = set cs \<union> set out"
  by (induction cs arbitrary: out) auto

lemma add_circuits_set: "add_circuits vs out = Some out' \<Longrightarrow> set out' = set out \<union> {s. JStr s \<in> set vs} \<and> (\<forall>v \<in> set vs. \<exists>s. v = JStr s)"
  by (induction vs arbitrary: out) (auto split: json.splits)

lemma add_calls_set: "add_calls vs out = Some out' \<Longrightarrow> set out' = set out \<union> {n. \<exists>v \<in> set vs. call_name v = Some n} \<and> (\<forall>v \<in> set vs. call_name v \<noteq> None)"
  by (induction vs arbitrary: out) (auto split: option.splits)

text \<open>The circuits a request names, whatever it names them with; \<open>None\<close> stands for a call without a name.\<close>

definition named_circuits :: "string \<Rightarrow> scope_data \<Rightarrow> string option set" where
  "named_circuits event d =
     Some ` set (snd (known_circuits event))
     \<union> (case sd_circuit d of Some (JStr s) \<Rightarrow> {Some s} | _ \<Rightarrow> {})
     \<union> (case sd_circuits d of Some (JArr vs) \<Rightarrow> (\<lambda>v. case v of JStr s \<Rightarrow> Some s | _ \<Rightarrow> None) ` set vs | _ \<Rightarrow> {})
     \<union> (if sd_calls d = None \<or> sd_calls d = Some (CallsValue JNull) then {}
        else case calls_json (the (sd_calls d)) of Some (JArr vs) \<Rightarrow> call_name ` set vs | _ \<Rightarrow> {None})"

lemma with_circuit_set: "set (snd (with_circuit v st)) = set (snd st) \<union> {s. v = Some (JStr s)}"
  by (auto simp: with_circuit_def split: option.splits json.splits)

lemma with_circuits_set:
  assumes "with_circuits v st = Some st'"
  shows "Some ` set (snd st') = Some ` set (snd st) \<union> (case v of Some (JArr vs) \<Rightarrow> (\<lambda>v. case v of JStr s \<Rightarrow> Some s | _ \<Rightarrow> None) ` set vs | _ \<Rightarrow> {})"
proof (cases "\<exists>vs. v = Some (JArr vs)")
  case True
  then obtain vs where v: "v = Some (JArr vs)" by blast
  with assms obtain out where a: "add_circuits vs (snd st) = Some out" "st' = (True, out)" by (auto simp: with_circuits_def)
  have s: "set out = set (snd st) \<union> {s. JStr s \<in> set vs}" "\<forall>v \<in> set vs. \<exists>s. v = JStr s" using add_circuits_set [OF a(1)] by auto
  have "(\<lambda>v. case v of JStr s \<Rightarrow> Some s | _ \<Rightarrow> None) ` set vs = Some ` {s. JStr s \<in> set vs}"
    using s(2) by (force simp: image_iff split: json.splits)
  then show ?thesis using s(1) a(2) v by auto
next
  case False
  then show ?thesis using assms by (auto simp: with_circuits_def split: option.splits json.splits)
qed

lemma with_calls_set:
  assumes "with_calls v st = Some st'"
  shows "Some ` set (snd st') = Some ` set (snd st) \<union> (if v = None \<or> v = Some (CallsValue JNull) then {}
     else case calls_json (the v) of Some (JArr vs) \<Rightarrow> call_name ` set vs | _ \<Rightarrow> {None})"
proof (cases "v = None \<or> v = Some (CallsValue JNull)")
  case True
  then show ?thesis using assms by (auto simp: with_calls_def)
next
  case False
  with assms obtain vs out where a: "calls_json (the v) = Some (JArr vs)" "add_calls vs (snd st) = Some out" "st' = (True, out)"
    by (auto simp: with_calls_def split: option.splits json.splits)
  have s: "set out = set (snd st) \<union> {n. \<exists>v \<in> set vs. call_name v = Some n}" "\<forall>v \<in> set vs. call_name v \<noteq> None" using add_calls_set [OF a(2)] by auto
  have "call_name ` set vs = Some ` {n. \<exists>v \<in> set vs. call_name v = Some n}" using s(2) by (force simp: image_iff)
  then show ?thesis using False s(1) a by auto
qed

lemma circuitsOfRequest_set:
  assumes "circuitsOfRequest event d = Some cs"
  shows "Some ` set cs = named_circuits event d"
proof -
  obtain st known where a: "with_circuits (sd_circuits d) (with_circuit (sd_circuit d) (known_circuits event)) = Some st"
    and b: "with_calls (sd_calls d) st = Some (known, cs)"
    using assms by (auto simp: circuitsOfRequest_def split: option.splits prod.splits if_splits)
  have c: "Some ` set (snd (with_circuit (sd_circuit d) (known_circuits event)))
     = Some ` set (snd (known_circuits event)) \<union> (case sd_circuit d of Some (JStr s) \<Rightarrow> {Some s} | _ \<Rightarrow> {})"
    by (auto simp: with_circuit_set split: option.splits json.splits)
  show ?thesis using with_calls_set [OF b] with_circuits_set [OF a] c by (simp add: named_circuits_def Un_assoc)
qed

lemma first_outside_None: "first_outside allowed cs = None \<longleftrightarrow> set cs \<subseteq> set allowed"
  by (induction cs) auto

text \<open>No scope violation: the contract is listed and every circuit is named and listed.\<close>

lemma scope_contract:
  assumes "grantScopeViolation g d event = None" and "sd_contractAddress d = Some (JStr a)" and "a \<noteq> []"
    and "parseJsonStringList (ag_allowedContracts g) \<noteq> []"
  shows "toLowerCase a \<in> toLowerCase ` set (parseJsonStringList (ag_allowedContracts g))"
  using assms by (auto simp: grantScopeViolation_def contract_violation_def Let_def split: option.splits if_splits)

lemma scope_circuits:
  assumes "grantScopeViolation g d event = None" and "parseJsonStringList (ag_allowedCircuits g) \<noteq> []"
  shows "named_circuits event d \<subseteq> Some ` set (parseJsonStringList (ag_allowedCircuits g))"
proof -
  have "circuit_violation g d event = None" using assms(1) by (simp add: grantScopeViolation_def split: option.splits)
  then obtain cs where c: "circuitsOfRequest event d = Some cs" "set cs \<subseteq> set (parseJsonStringList (ag_allowedCircuits g))"
    using assms(2) by (auto simp: circuit_violation_def Let_def first_outside_None split: option.splits)
  show ?thesis using circuitsOfRequest_set [OF c(1)] c(2) by blast
qed

section \<open>Refused requests use nothing up\<close>

text \<open>The budgets of every row, as the grant's owner sees them, and everything else in the row.\<close>

definition budgets_seen :: "int \<Rightarrow> agent_grant \<Rightarrow> int \<times> int \<times> agent_grant" where
  "budgets_seen nw g =
     (usedInWindow g HOUR_BUDGET nw, usedInWindow g DAY_BUDGET nw,
      set_used HOUR_BUDGET None (set_used DAY_BUDGET None (set_window HOUR_BUDGET None (set_window DAY_BUDGET None g))))"

definition counters_ok :: "agent_grant \<Rightarrow> bool" where
  "counters_ok g \<longleftrightarrow> (case ag_jobsUsedThisHour g of Some n \<Rightarrow> 0 \<le> n | None \<Rightarrow> True) \<and> (case ag_jobsUsedToday g of Some n \<Rightarrow> 0 \<le> n | None \<Rightarrow> True)"

text \<open>What one take does to the row of the grant, and what giving it back does.\<close>

definition take_row :: "grant_budget \<Rightarrow> string \<Rightarrow> agent_grant \<Rightarrow> agent_grant" where
  "take_row b w g = (if budget_window b g = Some w then set_used b (sql_add (budget_used b g) 1) g else set_used b (Some 1) (set_window b (Some w) g))"

lemma row_unique: "distinct (map ag_ID gs) \<Longrightarrow> g \<in> set gs \<Longrightarrow> r \<in> set gs \<Longrightarrow> ag_ID r = ag_ID g \<Longrightarrow> r = g"
  by (metis distinct_map_eqD)

lemma update_own:
  assumes "distinct (map ag_ID gs)" and "g \<in> set gs" and "P g"
  shows "update_where (\<lambda>r. ag_ID r = ag_ID g \<and> P r) f gs = (1, map (\<lambda>r. if ag_ID r = ag_ID g then f r else r) gs)"
proof -
  note e = row_unique [OF assms(1,2)]
  have "filter (\<lambda>r. ag_ID r = ag_ID g \<and> P r) gs = [g]"
    by (rule filter_key_single [where f = ag_ID]) (use assms in auto)
  moreover have "map (\<lambda>r. if ag_ID r = ag_ID g \<and> P r then f r else r) gs = map (\<lambda>r. if ag_ID r = ag_ID g then f r else r) gs"
    by (rule map_cong [OF refl]) (use e assms(3) in auto)
  ultimately show ?thesis by (simp add: update_where_def)
qed

lemma update_none:
  assumes "distinct (map ag_ID gs)" and "g \<in> set gs" and "\<not> P g"
  shows "update_where (\<lambda>r. ag_ID r = ag_ID g \<and> P r) f gs = (0, gs)"
proof -
  note e = row_unique [OF assms(1,2)]
  have n: "\<not> (ag_ID r = ag_ID g \<and> P r)" if "r \<in> set gs" for r using e [OF that] assms(3) by blast
  have "filter (\<lambda>r. ag_ID r = ag_ID g \<and> P r) gs = []" using n by (simp add: filter_empty_conv)
  moreover have "map (\<lambda>r. if ag_ID r = ag_ID g \<and> P r then f r else r) gs = gs" by (rule map_idI) (use n in auto)
  ultimately show ?thesis by (simp add: update_where_def)
qed

text \<open>\<open>g0\<close> is the row as it was read; the row of the table may differ in other columns.\<close>

lemma consume_own:
  assumes "distinct (map ag_ID gs)" and "g \<in> set gs" and w_def: "w = current_window b nw"
    and read: "ag_ID g0 = ag_ID g" "budget_window b g0 = budget_window b g"
  shows "consumeBudget g0 b m nw gs =
     (if budget_window b g \<noteq> Some w \<or> sql_lt (budget_used b g) m
      then (True, map (\<lambda>r. if ag_ID r = ag_ID g then take_row b w r else r) gs) else (False, gs))"
proof (cases "budget_window b g = Some w")
  case True
  note e = row_unique [OF assms(1,2)]
  show ?thesis
  proof (cases "sql_lt (budget_used b g) m")
    case t: True
    have "map (\<lambda>r. if ag_ID r = ag_ID g then set_used b (sql_add (budget_used b r) 1) r else r) gs
        = map (\<lambda>r. if ag_ID r = ag_ID g then take_row b w r else r) gs"
      by (rule map_cong [OF refl]) (use e True in \<open>auto simp: take_row_def\<close>)
    then show ?thesis using True t read
        update_own [OF assms(1,2), where P = "\<lambda>r. budget_window b r = Some w \<and> sql_lt (budget_used b r) m"]
      by (simp add: consumeBudget_def incr_stmt_def Let_def w_def [symmetric])
  next
    case f: False
    then show ?thesis using True read
        update_none [OF assms(1,2), where P = "\<lambda>r. budget_window b r = Some w \<and> sql_lt (budget_used b r) m"]
      by (simp add: consumeBudget_def incr_stmt_def Let_def w_def [symmetric])
  qed
next
  case False
  note e = row_unique [OF assms(1,2)]
  have "map (\<lambda>r. if ag_ID r = ag_ID g then set_used b (Some 1) (set_window b (Some w) r) else r) gs
      = map (\<lambda>r. if ag_ID r = ag_ID g then take_row b w r else r) gs"
    by (rule map_cong [OF refl]) (use e False in \<open>auto simp: take_row_def\<close>)
  then show ?thesis using False read
      update_own [OF assms(1,2), where P = "\<lambda>r. budget_window b r = budget_window b g"]
    by (simp add: consumeBudget_def reset_stmt_def Let_def w_def [symmetric])
qed

lemma take_row_ID [simp]: "ag_ID (take_row b w r) = ag_ID r"
  by (cases b) (auto simp: take_row_def)

definition give_row :: "grant_budget \<Rightarrow> agent_grant \<Rightarrow> agent_grant" where
  "give_row b g = set_used b (sql_add (budget_used b g) (- 1)) g"

lemma give_row_ID [simp]: "ag_ID (give_row b r) = ag_ID r"
  by (cases b) (auto simp: give_row_def)

lemma refund_own:
  assumes "distinct (map ag_ID gs)" and "g \<in> set gs" and "ag_ID g0 = ag_ID g"
    and "budget_window b g = Some (current_window b nw)" and "sql_ge (budget_used b g) 1"
  shows "refundBudget g0 b nw gs = map (\<lambda>r. if ag_ID r = ag_ID g then give_row b r else r) gs"
  using assms(3,4,5) update_own [OF assms(1,2), where P = "\<lambda>r. budget_window b r = Some (current_window b nw) \<and> sql_ge (budget_used b r) 1"]
  by (simp add: refundBudget_def refund_stmt_def give_row_def)

lemma take_hour_seen:
  assumes "counters_ok g" and "budget_window HOUR_BUDGET g \<noteq> Some (utcHour nw) \<or> sql_lt (budget_used HOUR_BUDGET g) m"
  defines "t \<equiv> take_row HOUR_BUDGET (utcHour nw) g"
  shows "budget_window HOUR_BUDGET t = Some (utcHour nw)" "sql_ge (budget_used HOUR_BUDGET t) 1"
    "budgets_seen nw (give_row HOUR_BUDGET t) = budgets_seen nw g"
  using assms(1,2)
  by (auto simp: t_def take_row_def give_row_def counters_ok_def budgets_seen_def usedInWindow_def sql_defs split: option.splits)

lemma charge_refused:
  assumes d: "distinct (map ag_ID gs)" and g: "g \<in> set gs" and ok: "counters_ok g"
    and "charge g nw GRANT_BUDGETS [] gs = (Inl x, gs')"
  shows "map (budgets_seen nw) gs' = map (budgets_seen nw) gs"
proof (cases "budget_max HOUR_BUDGET g")
  case None
  then have "gs' = gs" using assms(4) consume_own [OF d g refl refl refl, of DAY_BUDGET _ nw]
    by (auto simp: GRANT_BUDGETS_def split: option.splits if_splits)
  then show ?thesis by simp
next
  case (Some m)
  note hour = consume_own [OF d g refl refl refl, of HOUR_BUDGET m nw]
  show ?thesis
  proof (cases "budget_window HOUR_BUDGET g \<noteq> Some (utcHour nw) \<or> sql_lt (budget_used HOUR_BUDGET g) m")
    case False
    then have "gs' = gs" using assms(4) Some hour by (auto simp: GRANT_BUDGETS_def)
    then show ?thesis by simp
  next
    case True
    let ?take = "\<lambda>r. if ag_ID r = ag_ID g then take_row HOUR_BUDGET (utcHour nw) r else r"
    let ?give = "\<lambda>r. if ag_ID r = ag_ID g then give_row HOUR_BUDGET r else r"
    let ?g1 = "take_row HOUR_BUDGET (utcHour nw) g"
    have d1: "distinct (map ag_ID (map ?take gs))" using d by (simp add: comp_def if_distrib cong: if_cong)
    have g1: "?g1 \<in> set (map ?take gs)" using g by (force simp: image_iff)
    have w: "budget_window DAY_BUDGET g = budget_window DAY_BUDGET ?g1" by (simp add: take_row_def)
    have c: "consumeBudget g HOUR_BUDGET m nw gs = (True, map ?take gs)" using hour True by simp
    obtain m2 where "budget_max DAY_BUDGET g = Some m2" and "fst (consumeBudget g DAY_BUDGET m2 nw (map ?take gs)) = False"
      and "gs' = refundBudget g HOUR_BUDGET nw (snd (consumeBudget g DAY_BUDGET m2 nw (map ?take gs)))"
      using assms(4) Some c by (auto simp: GRANT_BUDGETS_def split: option.splits prod.splits bool.splits)
    moreover have "fst (consumeBudget g DAY_BUDGET k nw (map ?take gs)) = False \<Longrightarrow> snd (consumeBudget g DAY_BUDGET k nw (map ?take gs)) = map ?take gs" for k
      by (subst (asm) consume_own [OF d1 g1 refl _ w], simp) (subst consume_own [OF d1 g1 refl _ w], simp, simp split: if_splits)
    ultimately have "gs' = refundBudget g HOUR_BUDGET nw (map ?take gs)" by simp
    also have "\<dots> = map ?give (map ?take gs)"
      using refund_own [OF d1 g1, of g HOUR_BUDGET nw] take_hour_seen(1,2) [OF ok True] by simp
    finally have e: "gs' = map ?give (map ?take gs)" .
    have "budgets_seen nw (?give (?take r)) = budgets_seen nw r" if "r \<in> set gs" for r
      using take_hour_seen(3) [OF ok True] row_unique [OF d g that] by auto
    then show ?thesis by (simp add: e)
  qed
qed

section \<open>The gate\<close>

lemma admittedE:
  assumes "enforceAgentGrant env req r st gs = (Admitted req' rg taken, out, gs')"
  obtains g token req1 where "request_token req = Some token" "token_grant env token gs = Inr g" "gate_checks env g req = Inr req1"
    "req' = req1\<lparr>ar_user := Some (ag_userId g)\<rparr>" "rg = request_grant_of g"
    "ar_event req \<in> set AGENT_ALWAYS_ALLOWED_EVENTS \<or> event_allowlisted g (ar_event req)"
proof -
  have "\<exists>g token req1. request_token req = Some token \<and> token_grant env token gs = Inr g \<and> gate_checks env g req = Inr req1
     \<and> req' = req1\<lparr>ar_user := Some (ag_userId g)\<rparr> \<and> rg = request_grant_of g"
    using assms by (auto simp: enforceAgentGrant_def split: option.splits sum.splits prod.splits)
  then show thesis by (elim exE conjE) (rule that, auto elim!: gate_checksE)
qed

lemma no_token_user: "enforceAgentGrant env req r st gs = (NoToken, out, gs') \<Longrightarrow>
    request_token req = None \<and> ar_user req \<noteq> Some AGENT_TOKEN_TRANSPORT_USER \<and> ar_user req \<noteq> Some PUBLIC_VERIFY_TRANSPORT_USER"
  by (auto simp: enforceAgentGrant_def placeholder_refusal_def split: option.splits sum.splits prod.splits if_splits)

lemma stopped_keeps: "enforceAgentGrant env req r st gs = (Stopped e, out, gs') \<Longrightarrow> gs' = gs"
  by (auto simp: enforceAgentGrant_def split: option.splits sum.splits prod.splits)

text \<open>A concrete grant, a request for one of its actions, and a read.\<close>

definition gate_row :: "int \<Rightarrow> string option \<Rightarrow> agent_grant" where
  "gate_row used day = sample_row\<lparr>ag_ID := ''g'', ag_userId := ''alice'', ag_sessionId := ''s'', ag_tokenHash := ''hash of ngat_1'', ag_isActive := Some True,
     ag_allowedActions := Some (json_of_strings [''mintFactoryToken'']), ag_allowedCircuits := Some (json_of_strings [''mint'']),
     ag_allowedContracts := Some (json_of_strings [''AB'']), ag_validUntil := None, ag_maxJobsPerHour := Some 5, ag_maxJobsPerDay := Some 1,
     ag_sponsorSessionId := None,
     ag_jobsUsedToday := Some used, ag_budgetWindow := day\<rparr>"

definition sample_gate_env :: gate_env where
  "sample_gate_env = \<lparr>ge_now = 0, ge_hash = (\<lambda>t. ''hash of '' @ t), ge_pool = []\<rparr>"

definition mint_data :: request_data where
  "mint_data = \<lparr>rd_sessionId = None, rd_sponsorSessionId = None, rd_grantId = None,
     rd_scope = no_scope_data\<lparr>sd_contractAddress := Some (JStr ''ab''), sd_circuit := Some (JStr ''mint'')\<rparr>\<rparr>"

definition mint_request :: agent_request where
  "mint_request = \<lparr>ar_token = Some (JStr ''ngat_1''), ar_partToken = None, ar_user = Some AGENT_TOKEN_TRANSPORT_USER, ar_event = ''mintFactoryToken'',
     ar_target = [], ar_data = Some mint_data, ar_narrowed = []\<rparr>"

definition read_request :: agent_request where
  "read_request = mint_request\<lparr>ar_event := ''READ'', ar_target := ''NightgateService.WalletSessions'', ar_data := None\<rparr>"

definition mint_passed :: agent_request where
  "mint_passed = mint_request\<lparr>ar_user := Some ''alice'', ar_data := Some (mint_data\<lparr>rd_sessionId := Some (JStr ''s'')\<rparr>)\<rparr>"

definition read_passed :: agent_request where
  "read_passed = read_request\<lparr>ar_user := Some ''alice'', ar_narrowed := [(''sessionId'', ''s'')]\<rparr>"

lemma gate_row_token: "token_grant sample_gate_env ''ngat_1'' [gate_row u w] = Inr (gate_row u w)"
  by (simp add: token_grant_def sample_gate_env_def gate_row_def select_one_def grantExpired_def TOKEN_PREFIX_def)

lemma mint_listed: "event_allowlisted (gate_row u w) ''mintFactoryToken''" "''mintFactoryToken'' \<notin> set AGENT_ALWAYS_ALLOWED_EVENTS"
  "''mintFactoryToken'' \<notin> set SPONSOR_PHASE2_ACTIONS"
  by (simp_all add: event_allowlisted_def gate_row_def) code_simp+

lemma gate_row_lists:
  "ag_allowedCircuits (gate_row u w) = Some (json_of_strings [''mint''])" "ag_allowedContracts (gate_row u w) = Some (json_of_strings [''AB''])"
  by (simp_all add: gate_row_def)

lemma mint_scope: "grantScopeViolation (gate_row u w) (rd_scope mint_data) ''mintFactoryToken'' = None"
  unfolding grantScopeViolation_def contract_violation_def circuit_violation_def gate_row_lists parse_json_of_strings by code_simp

lemma mint_checks: "gate_checks sample_gate_env (gate_row u w) mint_request = Inr (mint_request\<lparr>ar_data := Some (mint_data\<lparr>rd_sessionId := Some (JStr ''s'')\<rparr>)\<rparr>)"
  using mint_listed mint_scope
  by (simp add: gate_checks_def check_then_def require_def own_usage_def narrow_read_def check_scope_def scope_data_of_def bind_data_def mint_request_def
      sample_gate_env_def bind_session_def bind_sponsor_def pool_poll_def pinned_poll_def self_paid_def json_absent_def)
     (simp add: mint_data_def gate_row_def sponsor_of_def json_absent_def)

lemma read_checks: "gate_checks sample_gate_env (gate_row u w) read_request = Inr (read_request\<lparr>ar_narrowed := [(''sessionId'', ''s'')]\<rparr>)"
  by (simp add: gate_checks_def check_then_def require_def own_usage_def narrow_read_def check_scope_def scope_data_of_def bind_data_def mint_request_def
      read_request_def self_paid_def event_allowlisted_def) code_simp

lemma mint_charge: "\<exists>gs'. charge (gate_row 0 None) 0 GRANT_BUDGETS [] [gate_row 0 None] = (Inr [HOUR_BUDGET, DAY_BUDGET], gs')"
  by (simp add: GRANT_BUDGETS_def consumeBudget_def reset_stmt_def update_where_def gate_row_def sample_row_def Let_def)

lemma full_charge: "\<exists>gs'. charge (gate_row 1 (Some (utcDay 0))) 0 GRANT_BUDGETS [] [gate_row 1 (Some (utcDay 0))] = (Inl (DAY_BUDGET, 1), gs')"
  by (simp add: GRANT_BUDGETS_def consumeBudget_def reset_stmt_def incr_stmt_def sql_defs update_where_def gate_row_def sample_row_def Let_def)

lemma mint_admitted: "\<exists>out gs'. enforceAgentGrant sample_gate_env mint_request r st [gate_row 0 None]
    = (Admitted mint_passed (request_grant_of (gate_row 0 None)) [HOUR_BUDGET, DAY_BUDGET], out, gs')"
proof -
  have "request_token mint_request = Some ''ngat_1''" by (simp add: request_token_def nullish_or_def mint_request_def)
  moreover have "ar_event mint_request = ''mintFactoryToken''" "ge_now sample_gate_env = 0" "ag_userId (gate_row 0 None) = ''alice''"
    by (simp_all add: mint_request_def sample_gate_env_def gate_row_def)
  ultimately show ?thesis using mint_charge gate_row_token mint_checks mint_listed(1)
    by (auto simp: enforceAgentGrant_def mint_passed_def)
qed

lemma read_admitted: "\<exists>out gs'. enforceAgentGrant sample_gate_env read_request r st [gate_row 0 None]
    = (Admitted read_passed (request_grant_of (gate_row 0 None)) [], out, gs')"
proof -
  have "request_token read_request = Some ''ngat_1''" by (simp add: request_token_def nullish_or_def mint_request_def read_request_def)
  moreover have "ar_event read_request = ''READ''" "ge_now sample_gate_env = 0" "ag_userId (gate_row 0 None) = ''alice''"
    by (simp_all add: read_request_def sample_gate_env_def gate_row_def)
  moreover have "\<not> event_allowlisted (gate_row 0 None) ''READ''" by (simp add: event_allowlisted_def AGENT_ALWAYS_ALLOWED_EVENTS_def)
  ultimately show ?thesis using gate_row_token read_checks by (auto simp: enforceAgentGrant_def read_passed_def)
qed

lemma mint_over_budget: "\<exists>out gs'. enforceAgentGrant sample_gate_env mint_request r st [gate_row 1 (Some (utcDay 0))] = (OverBudget DAY_BUDGET, out, gs')"
proof -
  have "request_token mint_request = Some ''ngat_1''" by (simp add: request_token_def nullish_or_def mint_request_def)
  moreover have "ar_event mint_request = ''mintFactoryToken''" "ge_now sample_gate_env = 0"
    by (simp_all add: mint_request_def sample_gate_env_def)
  ultimately show ?thesis using full_charge gate_row_token mint_checks mint_listed(1)
    by (auto simp: enforceAgentGrant_def)
qed

text \<open>
  C6. A request that passes the gate with a token runs as the issuer of a grant that holds the token's hash, is active
  and has not expired, and under that grant's limits; its action is one that every token may use or one the grant lists.
\<close>

theorem agent_confined:
  assumes "enforceAgentGrant env req r st gs = (Admitted req' rg taken, out, gs')"
  shows "\<exists>g token. g \<in> set gs \<and> request_token req = Some token \<and> ag_tokenHash g = ge_hash env token \<and> ag_isActive g = Some True
    \<and> \<not> grantExpired g (ge_now env) \<and> ar_user req' = Some (ag_userId g) \<and> rg = request_grant_of g \<and> ar_event req' = ar_event req
    \<and> (ar_event req \<in> set AGENT_ALWAYS_ALLOWED_EVENTS \<or> ar_event req \<in> set (parseJsonStringList (ag_allowedActions g)))"
proof -
  from assms obtain g token req1 where a: "request_token req = Some token" "token_grant env token gs = Inr g" "gate_checks env g req = Inr req1"
    "req' = req1\<lparr>ar_user := Some (ag_userId g)\<rparr>" "rg = request_grant_of g"
    "ar_event req \<in> set AGENT_ALWAYS_ALLOWED_EVENTS \<or> event_allowlisted g (ar_event req)"
    by (rule admittedE)
  have "g \<in> set gs \<and> ag_tokenHash g = ge_hash env token \<and> ag_isActive g = Some True \<and> \<not> grantExpired g (ge_now env)"
    using a(2) by (auto simp: token_grant_Inr dest!: select_one_Some)
  then show ?thesis using a gate_event(1) [OF a(3)] by (auto simp: event_allowlisted_def)
qed

theorem agent_confined_witness:
  "\<exists>g. g \<in> set [gate_row 0 None] \<and> ag_tokenHash g = ''hash of ngat_1'' \<and> ar_user mint_passed = Some (ag_userId g)"
proof -
  obtain out gs' where "enforceAgentGrant sample_gate_env mint_request undefined undefined [gate_row 0 None]
      = (Admitted mint_passed (request_grant_of (gate_row 0 None)) [HOUR_BUDGET, DAY_BUDGET], out, gs')"
    using mint_admitted by blast
  from agent_confined [OF this] show ?thesis
    by (auto simp: request_token_def nullish_or_def mint_request_def sample_gate_env_def)
qed

text \<open>
  C7. Every action that passes with a token names the grant's own session; only a look at a job may name the sponsor that
  pays for the grant's jobs. An action the grant pays for itself names the sponsor the grant is bound to, or none.
\<close>

theorem agent_session_bound:
  assumes "enforceAgentGrant env req r st gs = (Admitted req' rg taken, out, gs')" and "ar_event req \<noteq> ''READ''" and "ar_data req' = Some d"
  shows "(rd_sessionId d = Some (JStr (rg_sessionId rg))
      \<or> (ar_event req = ''getJobStatus'' \<and> (rd_sessionId d = Some (JStr PLATFORM_POOL_SENTINEL) \<or> (\<exists>s. rg_sponsorSessionId rg = Some s \<and> rd_sessionId d = Some (JStr s)))))
    \<and> (ar_event req \<in> set AGENT_ALWAYS_ALLOWED_EVENTS \<or> ar_event req \<in> set SPONSOR_PHASE2_ACTIONS
      \<or> rd_sponsorSessionId d = map_option JStr (rg_sponsorSessionId rg) \<or> json_absent (rd_sponsorSessionId d) \<or> rd_sponsorSessionId d = Some (JStr []))"
proof -
  from assms(1) obtain g token req1 where a: "gate_checks env g req = Inr req1" "req' = req1\<lparr>ar_user := Some (ag_userId g)\<rparr>" "rg = request_grant_of g"
    "ar_event req \<in> set AGENT_ALWAYS_ALLOWED_EVENTS \<or> event_allowlisted g (ar_event req)"
    by (rule admittedE)
  have d: "ar_data req1 = Some d" using assms(3) a(2) by simp
  have f: "rg_sessionId rg = ag_sessionId g" "rg_sponsorSessionId rg = ag_sponsorSessionId g" by (simp_all add: a(3) request_grant_of_def)
  have sp: "sponsor_of g = Some s \<Longrightarrow> ag_sponsorSessionId g = Some s" for s by (auto simp: sponsor_of_def split: option.splits if_splits)
  note s = gate_session [OF a(1) assms(2) d]
  have 2: "self_paid g (ar_event req) \<Longrightarrow> rd_sponsorSessionId d = map_option JStr (ag_sponsorSessionId g) \<or> json_absent (rd_sponsorSessionId d) \<or> rd_sponsorSessionId d = Some (JStr [])"
    using s(2) sp by (cases "sponsor_of g") auto
  show ?thesis using s(1) sp 2 a(4) unfolding f self_paid_def by blast
qed

theorem agent_session_bound_witness:
  "rd_sessionId (the (ar_data mint_passed)) = Some (JStr (rg_sessionId (request_grant_of (gate_row 0 None))))"
proof -
  obtain out gs' where e: "enforceAgentGrant sample_gate_env mint_request undefined undefined [gate_row 0 None]
      = (Admitted mint_passed (request_grant_of (gate_row 0 None)) [HOUR_BUDGET, DAY_BUDGET], out, gs')"
    using mint_admitted by blast
  have "ar_event mint_request \<noteq> ''READ''" "ar_event mint_request \<noteq> ''getJobStatus''" by (simp_all add: mint_request_def)
  moreover have "ar_data mint_passed = Some (the (ar_data mint_passed))" by (simp add: mint_passed_def)
  ultimately show ?thesis using agent_session_bound [OF e] by blast
qed

text \<open>
  A read that passes with a token is aimed at a readable entity; reads of sessions, submissions and documents carry the
  condition of the grant's session, and a read of grants the condition of the grant itself.
\<close>

theorem agent_reads_own:
  assumes "enforceAgentGrant env req r st gs = (Admitted req' rg taken, out, gs')" and "ar_event req = ''READ''"
  shows "(let entity = last_segment (ar_target req') in entity \<in> set AGENT_READABLE_ENTITIES
    \<and> (entity \<in> {''WalletSessions'', ''PendingSubmissions'', ''Documents''} \<longrightarrow> (''sessionId'', rg_sessionId rg) \<in> set (ar_narrowed req'))
    \<and> (entity = ''AgentGrants'' \<longrightarrow> (''ID'', rg_ID rg) \<in> set (ar_narrowed req')))"
proof -
  from assms(1) obtain g token req1 where a: "gate_checks env g req = Inr req1" "req' = req1\<lparr>ar_user := Some (ag_userId g)\<rparr>" "rg = request_grant_of g"
    by (rule admittedE)
  have "rg_sessionId rg = ag_sessionId g" "rg_ID rg = ag_ID g" by (simp_all add: a(3) request_grant_of_def)
  then show ?thesis using gate_reads [OF a(1) assms(2)] gate_event(2) [OF a(1)] a(2) unfolding Let_def by simp
qed

theorem agent_reads_own_witness:
  "(''sessionId'', rg_sessionId (request_grant_of (gate_row 0 None))) \<in> set (ar_narrowed read_passed)"
proof -
  obtain out gs' where e: "enforceAgentGrant sample_gate_env read_request undefined undefined [gate_row 0 None]
      = (Admitted read_passed (request_grant_of (gate_row 0 None)) [], out, gs')"
    using read_admitted by blast
  have "ar_event read_request = ''READ''" by (simp add: read_request_def)
  moreover have "last_segment (ar_target read_passed) = ''WalletSessions''" by (simp add: read_passed_def read_request_def) code_simp
  ultimately show ?thesis using agent_reads_own [OF e] by (simp add: Let_def)
qed



text \<open>
  A request the gate refuses leaves every grant as its owner sees it: the jobs used in the current hour and day and all
  other columns are as before, also when one budget had a unit and the next had none.
\<close>

theorem refused_uses_nothing:
  assumes "enforceAgentGrant env req r st gs = (outcome, out, gs')" and "outcome = Stopped e \<or> outcome = OverBudget b"
    and "distinct (map ag_ID gs)" and "list_all counters_ok gs"
  shows "map (budgets_seen (ge_now env)) gs' = map (budgets_seen (ge_now env)) gs"
  using assms(2)
proof
  assume "outcome = Stopped e"
  then show ?thesis using stopped_keeps assms(1) by blast
next
  assume "outcome = OverBudget b"
  with assms(1) obtain g token m where a: "token_grant env token gs = Inr g"
    "charge g (ge_now env) (if event_allowlisted g (ar_event req) then GRANT_BUDGETS else []) [] gs = (Inl (b, m), gs')"
    by (auto simp: enforceAgentGrant_def split: option.splits sum.splits prod.splits)
  have "charge g (ge_now env) GRANT_BUDGETS [] gs = (Inl (b, m), gs')" using a(2) by (simp split: if_splits)
  moreover have "g \<in> set gs" using a(1) by (auto simp: token_grant_Inr dest!: select_one_Some)
  ultimately show ?thesis using charge_refused [OF assms(3)] assms(4) by (auto simp: list_all_iff)
qed

theorem refused_uses_nothing_witness:
  "\<exists>out gs'. enforceAgentGrant sample_gate_env mint_request undefined undefined [gate_row 1 (Some (utcDay 0))] = (OverBudget DAY_BUDGET, out, gs')
    \<and> map (budgets_seen 0) gs' = map (budgets_seen 0) [gate_row 1 (Some (utcDay 0))]"
proof -
  obtain out gs' where e: "enforceAgentGrant sample_gate_env mint_request undefined undefined [gate_row 1 (Some (utcDay 0))] = (OverBudget DAY_BUDGET, out, gs')"
    using mint_over_budget by blast
  have "list_all counters_ok [gate_row 1 (Some (utcDay 0))]" by (simp add: counters_ok_def gate_row_def sample_row_def)
  moreover have "ge_now sample_gate_env = 0" by (simp add: sample_gate_env_def)
  ultimately show ?thesis using e refused_uses_nothing [OF e, where b = DAY_BUDGET] by auto
qed

section \<open>Queued jobs\<close>

text \<open>The actions under which the job, or the parent of a step, can have been admitted.\<close>

definition admitted_actions :: "string \<Rightarrow> string option \<Rightarrow> string option \<Rightarrow> job_command \<Rightarrow> string list" where
  "admitted_actions kind parent parentKind c =
     (if parent \<noteq> None \<and> parent \<noteq> Some [] then (case parentKind of Some k \<Rightarrow> actionsOfJob k None | None \<Rightarrow> [])
      else actionsOfJob kind (jc_mode c))"

text \<open>
  A queued job that passes the check against its grant was admitted as an action the grant lists now; the contract it
  calls is listed now and every circuit its stored command names is listed now, where the grant lists contracts and circuits.
\<close>

theorem queued_job_rechecked:
  assumes "grantJobScopeViolation g kind parent parentKind c = Inr None"
  shows "(\<exists>a \<in> set (admitted_actions kind parent parentKind c). a \<in> set (parseJsonStringList (ag_allowedActions g)))
    \<and> (gp_allowedCircuits (grantRowPolicy g) = [] \<or> named_circuits (command_op c) (command_scope c) \<subseteq> Some ` set (gp_allowedCircuits (grantRowPolicy g)))
    \<and> (gp_allowedContracts (grantRowPolicy g) = [] \<or> (\<forall>a. jc_contractAddress c = Some (JStr a) \<longrightarrow> a = []
        \<or> toLowerCase a \<in> toLowerCase ` set (gp_allowedContracts (grantRowPolicy g))))"
proof -
  have v: "grantScopeViolation g (command_scope c) (command_op c) = None"
    and a: "\<exists>a \<in> set (admitted_actions kind parent parentKind c). a \<in> set (parseJsonStringList (ag_allowedActions g))"
    using assms by (auto simp: grantJobScopeViolation_def admitted_actions_def Let_def split: if_splits option.splits)
  have f: "gp_allowedCircuits (grantRowPolicy g) = parseJsonStringList (ag_allowedCircuits g)"
    "gp_allowedContracts (grantRowPolicy g) = parseJsonStringList (ag_allowedContracts g)"
    "sd_contractAddress (command_scope c) = jc_contractAddress c"
    by (simp_all add: grantRowPolicy_def Let_def command_scope_def)
  show ?thesis using a scope_circuits [OF v] scope_contract [OF v] unfolding f by blast
qed

definition anchor_command :: job_command where
  "anchor_command = \<lparr>jc_mode = None, jc_op = Some (JStr ''call''), jc_contractAddress = Some (JStr ''ab''), jc_circuit = Some (JStr ''mint''), jc_calls = None\<rparr>"

theorem queued_job_rechecked_witness:
  "grantJobScopeViolation (gate_row 0 None) ''mintFactoryToken'' None None anchor_command = Inr None
    \<and> named_circuits (command_op anchor_command) (command_scope anchor_command) \<subseteq> Some ` set (gp_allowedCircuits (grantRowPolicy (gate_row 0 None)))"
proof -
  have e: "grantJobScopeViolation (gate_row 0 None) ''mintFactoryToken'' None None anchor_command = Inr None"
    unfolding gate_row_def sample_row_def by code_simp
  have "gp_allowedCircuits (grantRowPolicy (gate_row 0 None)) \<noteq> []" by (simp add: grantRowPolicy_def Let_def gate_row_lists)
  then show ?thesis using queued_job_rechecked [OF e] e by blast
qed

text \<open>The stored command of a workflow or a disclosure: the operation of the job's kind, no circuits of its own.\<close>

definition same_circuits :: "string \<Rightarrow> string \<Rightarrow> string list \<Rightarrow> bool" where
  "same_circuits action opn cs \<longleftrightarrow> fst (known_circuits action) \<and> add_circuits (map JStr cs) (snd (known_circuits opn)) = Some (snd (known_circuits action))"

lemma circuit_tables:
  "list_all (\<lambda>(action, _). case jobKindOp action of None \<Rightarrow> True
     | Some opn \<Rightarrow> (case map_of OP_CIRCUITS opn of None \<Rightarrow> True | Some cs \<Rightarrow> same_circuits action opn cs)) ACTION_CIRCUITS"
  by code_simp

lemma stored_circuits:
  assumes "jobKindOp action = Some opn" and "(action, cs) \<in> set ACTION_CIRCUITS" and "map_of OP_CIRCUITS opn = Some cs'"
    and "sd_circuit d = None" "sd_circuits d = None" "sd_calls d = None" and "sd_circuit d' = None" "sd_circuits d' = Some (JArr (map JStr cs'))" "sd_calls d' = None"
  shows "circuitsOfRequest action d = circuitsOfRequest opn d'"
proof -
  have "same_circuits action opn cs'" using circuit_tables assms(1-3) by (fastforce simp: list_all_iff)
  then show ?thesis using assms(4-)
    by (cases "known_circuits action") (auto simp: same_circuits_def circuitsOfRequest_def with_circuit_def with_circuits_def with_calls_def)
qed



end
