(* ===== verification/Grant_Admin_Safety.thy ===== *)
theory Grant_Admin_Safety
  imports Grant_Admin Grant_Gate_Safety
begin

text \<open>
  What holds of the grants table under everything that changes it: the owner's actions, the charges of
  the gate, and the records of deploys and minted token types. Grants keep their binding, a revoked
  grant stays revoked, and every row has the shape the checks promise, as long as an update is not
  overtaken between its read and its write.
\<close>

section \<open>How rows evolve\<close>

text \<open>Every old row is mapped to its successor, in place; new rows follow.\<close>

definition evolves :: "(agent_grant \<Rightarrow> agent_grant \<Rightarrow> bool) \<Rightarrow> (agent_grant \<Rightarrow> bool) \<Rightarrow> grants \<Rightarrow> grants \<Rightarrow> bool" where
  "evolves R N gs gs' \<longleftrightarrow> (\<exists>f new. gs' = map f gs @ new \<and> (\<forall>r \<in> set gs. R r (f r)) \<and> (\<forall>n \<in> set new. N n))"

lemma evolves_refl: "(\<And>r. R r r) \<Longrightarrow> evolves R N gs gs"
  by (auto simp: evolves_def intro!: exI [of _ "\<lambda>r. r"])

lemma evolves_update: "(\<And>r. r \<in> set gs \<Longrightarrow> P r \<Longrightarrow> R r (p r)) \<Longrightarrow> (\<And>r. R r r) \<Longrightarrow> evolves R N gs (snd (update_where P p gs))"
  unfolding evolves_def update_where_def by (rule exI [of _ "\<lambda>r. if P r then p r else r"], rule exI [of _ "[]"]) auto

lemma evolves_new: "(\<And>r. R r r) \<Longrightarrow> list_all N new \<Longrightarrow> evolves R N gs (gs @ new)"
  by (auto simp: evolves_def list_all_iff intro!: exI [of _ "\<lambda>r. r"])

lemma evolves_mono: "evolves R N gs gs' \<Longrightarrow> (\<And>r r'. R r r' \<Longrightarrow> R' r r') \<Longrightarrow> (\<And>n. N n \<Longrightarrow> N' n) \<Longrightarrow> evolves R' N' gs gs'"
  unfolding evolves_def by blast

lemma evolves_trans:
  assumes "evolves R N gs gs1" and "evolves R N gs1 gs2" and "\<And>a b c. R a b \<Longrightarrow> R b c \<Longrightarrow> R a c" and "\<And>n n'. N n \<Longrightarrow> R n n' \<Longrightarrow> N n'"
  shows "evolves R N gs gs2"
proof -
  obtain f new where f: "gs1 = map f gs @ new" "\<forall>r \<in> set gs. R r (f r)" "\<forall>n \<in> set new. N n" using assms(1) unfolding evolves_def by blast
  obtain h new2 where h: "gs2 = map h gs1 @ new2" "\<forall>r \<in> set gs1. R r (h r)" "\<forall>n \<in> set new2. N n" using assms(2) unfolding evolves_def by blast
  have "gs2 = map (\<lambda>r. h (f r)) gs @ (map h new @ new2)" by (simp add: h(1) f(1))
  moreover have "\<forall>r \<in> set gs. R r (h (f r))" using f h assms(3) by fastforce
  moreover have "\<forall>n \<in> set (map h new @ new2). N n" using f(1,3) h(2,3) assms(4) by auto
  ultimately show ?thesis unfolding evolves_def by blast
qed

text \<open>What the owner's checks decide about, and what binds a grant.\<close>

definition row_shape where
  "row_shape r = (ag_allowedActions r, ag_allowDeploy r, ag_maxDeploys r, ag_allowUnshieldedOffers r, ag_allowedUnshieldedTokenTypes r,
     ag_allowedTokenTypes r, ag_maxValuePerDay r, ag_maxJobsPerDay r, ag_maxJobsPerHour r)"

definition binding :: "agent_grant \<Rightarrow> string \<times> string \<times> string \<times> string option" where
  "binding r = (ag_ID r, ag_userId r, ag_sessionId r, ag_sponsorSessionId r)"

definition keeps_binding :: "agent_grant \<Rightarrow> agent_grant \<Rightarrow> bool" where
  "keeps_binding r r' \<longleftrightarrow> binding r' = binding r \<and> (ag_isActive r = Some True \<or> (ag_isActive r' = ag_isActive r \<and> ag_tokenHash r' = ag_tokenHash r))"

definition keeps_shape :: "agent_grant \<Rightarrow> agent_grant \<Rightarrow> bool" where
  "keeps_shape r r' \<longleftrightarrow> keeps_binding r r' \<and> row_shape r' = row_shape r"

lemma keeps_refl [simp]: "keeps_binding r r" "keeps_shape r r"
  by (simp_all add: keeps_binding_def keeps_shape_def)

lemmas keeps_simps = keeps_shape_def keeps_binding_def row_shape_def binding_def

lemma keeps_binding_trans: "keeps_binding a b \<Longrightarrow> keeps_binding b c \<Longrightarrow> keeps_binding a c"
  by (auto simp: keeps_binding_def)

text \<open>The statements that charge, give back and record.\<close>

lemma keeps_used: "keeps_shape r (set_used b u r)" "keeps_shape r (set_used b u (set_window b w r))"
  by (cases b; simp add: keeps_simps)+

lemma consume_evolves: "evolves keeps_shape N gs (snd (consumeBudget g b m nw gs))"
proof -
  have i: "evolves keeps_shape N rows (snd (incr_stmt b gid w m rows))" for gid w rows
    unfolding incr_stmt_def by (rule evolves_update) (simp_all add: keeps_used)
  have r: "evolves keeps_shape N gs (snd (reset_stmt b gid v w gs))" for gid v w
    unfolding reset_stmt_def by (rule evolves_update) (simp_all add: keeps_used)
  have n: "fst (reset_stmt b gid v w gs) = 0 \<Longrightarrow> snd (reset_stmt b gid v w gs) = gs" for gid v w
    unfolding reset_stmt_def by (rule update_where_none)
  show ?thesis
    using i [of gs "ag_ID g" "current_window b nw"] r [of "ag_ID g" "budget_window b g" "current_window b nw"] n [of "ag_ID g" "budget_window b g" "current_window b nw"]
    by (cases "reset_stmt b (ag_ID g) (budget_window b g) (current_window b nw) gs"; cases "incr_stmt b (ag_ID g) (current_window b nw) m gs")
       (auto simp: consumeBudget_def Let_def)
qed

lemma refund_evolves: "evolves keeps_shape N gs (refundBudget g b nw gs)"
  unfolding refundBudget_def refund_stmt_def by (rule evolves_update) (simp_all add: keeps_used)

lemma reserve_evolves: "evolves keeps_shape N gs (snd (reserveDeployBudget gid count read gs))"
proof -
  have "evolves keeps_shape N gs (snd (reserve_stmt gid count m gs))" for m
    unfolding reserve_stmt_def by (rule evolves_update) (simp_all add: keeps_simps)
  then show ?thesis by (auto simp: reserveDeployBudget_def split: option.splits prod.splits intro!: evolves_refl) (metis snd_conv)+
qed

lemma release_evolves: "evolves keeps_shape N gs (releaseDeployBudget gid count gs)"
proof -
  have "evolves keeps_shape N gs (snd (deployRefund gid count gs))"
    unfolding deployRefund_def by (rule evolves_update) (simp_all add: keeps_simps)
  then show ?thesis by (auto simp: releaseDeployBudget_def intro!: evolves_refl)
qed

lemma take_value_evolves: "evolves keeps_shape N gs (snd (take_value gid t amount nw gs))"
proof -
  have "evolves keeps_shape N gs (put_value gid w used gs)" for w used
    unfolding put_value_def by (rule evolves_update) (simp_all add: keeps_simps)
  then show ?thesis by (auto simp: take_value_def Let_def split: option.splits intro!: evolves_refl)
qed

lemma refund_value_evolves: "evolves keeps_shape N gs (refundValueBudget gid t amount nw gs)"
proof -
  have "evolves keeps_shape N gs (snd (update_where (\<lambda>g. ag_ID g = gid) (\<lambda>g. g\<lparr>ag_valueUsedToday := u\<rparr>) gs))" for u
    by (rule evolves_update) (simp_all add: keeps_simps)
  then show ?thesis by (auto simp: refundValueBudget_def Let_def split: option.splits intro!: evolves_refl)
qed

lemma record_deployed_evolves: "evolves keeps_shape N gs (recordDeployedContracts gid as gs)"
proof -
  have "evolves keeps_shape N gs (snd (update_where (\<lambda>g. ag_ID g = gid) (\<lambda>g. g\<lparr>ag_deployedContracts := u\<rparr>) gs))" for u
    by (rule evolves_update) (simp_all add: keeps_simps)
  then show ?thesis by (auto simp: recordDeployedContracts_def Let_def split: option.splits intro!: evolves_refl)
qed

lemma record_minted_evolves: "evolves keeps_shape N gs (recordMintedTokenTypes gid ts gs)"
proof -
  have "evolves keeps_shape N gs (snd (update_where (\<lambda>g. ag_ID g = gid) (\<lambda>g. g\<lparr>ag_mintedTokenTypes := u\<rparr>) gs))" for u
    by (rule evolves_update) (simp_all add: keeps_simps)
  then show ?thesis by (auto simp: recordMintedTokenTypes_def Let_def split: option.splits intro!: evolves_refl)
qed

lemma rotate_table:
  "snd (rotateAgentGrantToken env random gid u gs) = (if filled gid
     then snd (update_where (\<lambda>g. ag_ID g = the gid \<and> ag_userId g = u \<and> ag_isActive g = Some True)
                 (\<lambda>g. g\<lparr>ag_tokenHash := ad_hash env (TOKEN_PREFIX @ random)\<rparr>) gs) else gs)"
  by (simp add: rotateAgentGrantToken_def split: prod.splits)

lemma revoke_table:
  "snd (revokeAgentGrant env gid u gs) = (if filled gid
     then snd (update_where (\<lambda>g. ag_ID g = the gid \<and> ag_userId g = u \<and> ag_isActive g = Some True)
                 (\<lambda>g. g\<lparr>ag_isActive := Some False, ag_revokedAt := Some (ad_now env)\<rparr>) gs) else gs)"
  by (simp add: revokeAgentGrant_def split: prod.splits)

lemma update_table:
  "snd (updateAgentGrant env gid keys inp u read gs) = (case plan_update env gid keys inp u read of Inl r \<Rightarrow> gs
     | Inr v \<Rightarrow> snd (update_where (\<lambda>g. ag_ID g = the gid \<and> ag_userId g = u \<and> ag_isActive g = Some True) (patch_row v) gs))"
  by (simp add: updateAgentGrant_def split: sum.splits prod.splits)

lemma rotate_evolves: "evolves keeps_shape N gs (snd (rotateAgentGrantToken env random gid u gs))"
  unfolding rotate_table by (simp add: evolves_refl) (rule impI, rule evolves_update, simp_all add: keeps_simps)

lemma revoke_evolves: "evolves keeps_shape N gs (snd (revokeAgentGrant env gid u gs))"
  unfolding revoke_table by (simp add: evolves_refl) (rule impI, rule evolves_update, simp_all add: keeps_simps)

lemma update_binding_evolves: "evolves keeps_binding N gs (snd (updateAgentGrant env gid keys inp u read gs))"
proof -
  have "evolves keeps_binding N gs (snd (update_where (\<lambda>g. ag_ID g = i \<and> ag_userId g = u \<and> ag_isActive g = Some True) (patch_row v) gs))" for i v
    by (rule evolves_update) (simp_all add: keeps_simps patch_row_def)
  then show ?thesis unfolding update_table by (auto split: sum.splits intro!: evolves_refl)
qed

section \<open>The shape of a row\<close>

definition positive_amounts :: "value_map \<Rightarrow> bool" where
  "positive_amounts m \<longleftrightarrow> list_all (\<lambda>(t, a). HEX64_RE t \<and> is_amount a \<and> 0 < digits_val a 0) m"

definition positive_limit :: "int option \<Rightarrow> bool" where
  "positive_limit v \<longleftrightarrow> (case v of Some n \<Rightarrow> 1 \<le> n | None \<Rightarrow> True)"

definition grant_row_ok :: "agent_grant \<Rightarrow> bool" where
  "grant_row_ok r \<longleftrightarrow>
     (let actions = parseJsonStringList (ag_allowedActions r) in
      actions \<noteq> [] \<and> set actions \<subseteq> set AGENT_ALLOWLISTABLE_ACTIONS
      \<and> (ag_allowDeploy r = Some True \<longrightarrow> sponsors actions \<and> (\<exists>m. ag_maxDeploys r = Some m \<and> 1 \<le> m \<and> m \<le> 100))
      \<and> (ag_allowUnshieldedOffers r = Some True \<longrightarrow> sponsors actions)
      \<and> (parseJsonStringList (ag_allowedUnshieldedTokenTypes r) = [] \<or> ag_allowUnshieldedOffers r = Some True)
      \<and> list_all HEX64_RE (parseJsonStringList (ag_allowedTokenTypes r))
      \<and> list_all HEX64_RE (parseJsonStringList (ag_allowedUnshieldedTokenTypes r))
      \<and> positive_amounts (parseValueBudgetMap (ag_maxValuePerDay r))
      \<and> positive_limit (ag_maxJobsPerDay r) \<and> positive_limit (ag_maxJobsPerHour r))"

lemma shape_row_ok: "keeps_shape r r' \<Longrightarrow> grant_row_ok r' = grant_row_ok r"
  by (simp add: keeps_shape_def row_shape_def grant_row_ok_def)

lemma keeps_ok: "keeps_shape r r' \<Longrightarrow> grant_row_ok r \<Longrightarrow> grant_row_ok r'"
  by (simp add: shape_row_ok)

text \<open>What the checks promise of the values, when a row they start from is well formed.\<close>

lemma json_strings_grantable: "list_all grantable vs \<Longrightarrow> length (json_strings vs) = length vs \<and> set (json_strings vs) \<subseteq> set AGENT_ALLOWLISTABLE_ACTIONS"
  by (induction vs) (auto simp: grantable_def split: json.splits)

lemma token_entries_hex: "token_type_entries name vs out = Inr xs \<Longrightarrow> list_all HEX64_RE out \<Longrightarrow> list_all HEX64_RE xs"
  by (induction name vs out rule: token_type_entries.induct) (auto simp: add_new_def Let_def split: if_splits)

lemma token_types_hex: "validateTokenTypeList name v = Inr xs \<Longrightarrow> list_all HEX64_RE xs"
  by (auto simp: validateTokenTypeList_def intro: token_entries_hex split: sum.splits)

lemma digits_ge: "list_all is_digit s \<Longrightarrow> 0 \<le> acc \<Longrightarrow> acc \<le> digits_val s acc"
proof (induction s acc rule: digits_val.induct)
  case (2 c cs acc)
  have "acc \<le> 10 * acc + (int (of_char c) - 48)" using 2(2,3) by (auto simp: is_digit_def Let_def)
  then show ?case using 2 by (auto intro: order_trans)
qed simp

lemma positive_amount_value: "is_positive_amount a \<Longrightarrow> is_amount a \<and> 0 < digits_val a 0"
proof (cases a)
  case (Cons c cs)
  assume p: "is_positive_amount a"
  have z: "char_of (48 :: nat) = CHR ''0''" by code_simp
  have "(of_char c :: nat) = 48 \<Longrightarrow> c = CHR ''0''" by (drule arg_cong [where f = "char_of :: nat \<Rightarrow> char"]) (simp add: z)
  moreover have "48 \<le> (of_char c :: nat)" "c \<noteq> CHR ''0''" using p Cons by (auto simp: is_positive_amount_def is_digit_def Let_def)
  ultimately have "48 < (of_char c :: nat)" by (metis order_le_less)
  then have "0 < int (of_char c) - 48" by simp
  then have "0 < digits_val cs (int (of_char c) - 48)" using p Cons digits_ge [of cs "int (of_char c) - 48"] by (auto simp: is_positive_amount_def)
  then show ?thesis using p Cons by (simp add: is_positive_amount_def is_amount_def)
qed (simp add: is_positive_amount_def)

lemma value_entries_positive: "value_budget_entries vs out = Inr m \<Longrightarrow> positive_amounts out \<Longrightarrow> distinct (map fst out) \<Longrightarrow> positive_amounts m \<and> distinct (map fst m)"
proof (induction vs out rule: value_budget_entries.induct)
  case (2 entry rest out)
  let ?t = "without_0x (toLowerCase (trim (field_text ''tokenType'' entry)))" and ?a = "trim (field_text ''amount'' entry)"
  have "HEX64_RE ?t" "is_positive_amount ?a" "?t \<notin> set (map fst out)" "value_budget_entries rest (out @ [(?t, ?a)]) = Inr m"
    using 2(2) by (auto simp: Let_def split: if_splits)
  then show ?case using 2(1) [OF refl refl] 2(3,4) positive_amount_value by (auto simp: positive_amounts_def)
qed simp

lemma value_budget_positive: "validateValueBudget v = Inr m \<Longrightarrow> positive_amounts m \<and> distinct (map fst m)"
  using value_entries_positive [of _ "[]" m] by (auto simp: validateValueBudget_def positive_amounts_def split: option.splits json.splits if_splits)

lemma list_column_parse [simp]: "parseJsonStringList (list_column xs) = xs"
  by (simp add: list_column_def)

lemma value_column_parse: "value_map_ok m \<Longrightarrow> parseValueBudgetMap (value_column m) = m"
  by (auto simp: value_column_def parse_value_json) (simp add: parseValueBudgetMap_def)

lemma positive_map_ok: "positive_amounts m \<Longrightarrow> distinct (map fst m) \<Longrightarrow> value_map_ok m"
  by (auto simp: positive_amounts_def value_map_ok_def list_all_iff)

lemma shape_actions_ok:
  assumes "shape_actions inp existing = Inr actions" and "pred_option grant_row_ok existing"
  defines "eff \<equiv> effective_actions actions existing"
  shows "eff \<noteq> [] \<and> set eff \<subseteq> set AGENT_ALLOWLISTABLE_ACTIONS"
proof (cases actions)
  case None
  then obtain e where "existing = Some e" using assms(1)
    by (auto simp: shape_actions_def given_or_new_def Let_def split: if_splits option.splits json.splits list.splits)
  then show ?thesis using None assms(2) by (simp add: eff_def effective_actions_def stored_list_def grant_row_ok_def Let_def)
next
  case (Some xs)
  then obtain a as where a: "list_all grantable (a # as)" "xs = json_strings (a # as)" using assms(1)
    by (auto simp: shape_actions_def Let_def filter_empty_conv list_all_iff split: if_splits option.splits json.splits list.splits)
  then show ?thesis using json_strings_grantable [OF a(1)] Some by (cases xs) (auto simp: eff_def effective_actions_def)
qed

lemma shape_deploys_ok: "shape_deploys inp existing deploy = Inr m \<Longrightarrow> deploy \<Longrightarrow> \<exists>n. m = Some n \<and> 1 \<le> n \<and> n \<le> 100"
  by (auto simp: shape_deploys_def Let_def split: if_splits)

lemma shape_types_ok:
  assumes "shape_list validateTokenTypeList name v field existing = Inr xs" and "pred_option (\<lambda>e. list_all HEX64_RE (parseJsonStringList (field e))) existing"
  shows "list_all HEX64_RE xs"
  using assms token_types_hex by (auto simp: shape_list_def stored_list_def given_or_new_def split: if_splits sum.splits option.splits)

lemma shape_value_ok:
  assumes "shape_value v existing = Inr m" and "pred_option grant_row_ok existing"
  shows "positive_amounts m \<and> value_map_ok m"
proof (cases "given_or_new v existing")
  case True
  then have "validateValueBudget v = Inr m" using assms(1) by (simp add: shape_value_def split: sum.splits)
  then show ?thesis using value_budget_positive positive_map_ok by blast
next
  case False
  then obtain e where "existing = Some e" by (auto simp: given_or_new_def)
  then show ?thesis using False assms parse_ok by (auto simp: shape_value_def grant_row_ok_def Let_def)
qed

lemma shape_budget_ok: "shape_budget name v existing = Inr w \<Longrightarrow> pred_option positive_limit w"
  by (auto simp: shape_budget_def positive_limit_def split: if_splits option.splits)

text \<open>The checked values, over the row they change.\<close>

definition values_ok :: "grant_values \<Rightarrow> agent_grant option \<Rightarrow> bool" where
  "values_ok v existing \<longleftrightarrow>
     (let eff = effective_actions (gv_allowedActions v) existing in
      eff \<noteq> [] \<and> set eff \<subseteq> set AGENT_ALLOWLISTABLE_ACTIONS
      \<and> (gv_allowDeploy v \<longrightarrow> sponsors eff \<and> (\<exists>m. gv_maxDeploys v = Some m \<and> 1 \<le> m \<and> m \<le> 100))
      \<and> (gv_allowUnshieldedOffers v \<longrightarrow> sponsors eff) \<and> (gv_allowedUnshieldedTokenTypes v = [] \<or> gv_allowUnshieldedOffers v)
      \<and> list_all HEX64_RE (gv_allowedTokenTypes v) \<and> list_all HEX64_RE (gv_allowedUnshieldedTokenTypes v)
      \<and> positive_amounts (gv_maxValuePerDay v) \<and> value_map_ok (gv_maxValuePerDay v)
      \<and> pred_option positive_limit (gv_maxJobsPerDay v) \<and> pred_option positive_limit (gv_maxJobsPerHour v)
      \<and> (existing = None \<longrightarrow> gv_allowedActions v = Some eff))"

lemma shape_values_ok:
  assumes "validateGrantShape nw inp existing = Inr v" and ok: "pred_option grant_row_ok existing"
  shows "values_ok v existing"
proof -
  obtain actions maxDeploys contracts circuits types unshieldedTypes vm day hour until label where
    a: "shape_actions inp existing = Inr actions"
    and d: "shape_flag (gi_allowDeploy inp) ag_allowDeploy existing \<Longrightarrow> sponsors (effective_actions actions existing)"
    "shape_deploys inp existing (shape_flag (gi_allowDeploy inp) ag_allowDeploy existing) = Inr maxDeploys"
    and u: "shape_flag (gi_allowUnshieldedOffers inp) ag_allowUnshieldedOffers existing \<Longrightarrow> sponsors (effective_actions actions existing)"
    and t: "shape_list validateTokenTypeList ''allowedTokenTypes'' (gi_allowedTokenTypes inp) ag_allowedTokenTypes existing = Inr types"
    "shape_list validateTokenTypeList ''allowedUnshieldedTokenTypes'' (gi_allowedUnshieldedTokenTypes inp) ag_allowedUnshieldedTokenTypes existing = Inr unshieldedTypes"
    and m: "shape_value (gi_maxValuePerDay inp) existing = Inr vm"
    and n: "unshieldedTypes = [] \<or> shape_flag (gi_allowUnshieldedOffers inp) ag_allowUnshieldedOffers existing"
    and b: "shape_budget ''maxJobsPerDay'' (gi_maxJobsPerDay inp) existing = Inr day" "shape_budget ''maxJobsPerHour'' (gi_maxJobsPerHour inp) existing = Inr hour"
    and v: "v = \<lparr>gv_allowedActions = actions, gv_maxJobsPerDay = day, gv_maxJobsPerHour = hour, gv_validUntil = until, gv_agentLabel = label,
            gv_allowedContracts = contracts, gv_allowedCircuits = circuits, gv_allowedTokenTypes = types,
            gv_allowDeploy = shape_flag (gi_allowDeploy inp) ag_allowDeploy existing,
            gv_maxDeploys = maxDeploys, gv_allowUnshieldedOffers = shape_flag (gi_allowUnshieldedOffers inp) ag_allowUnshieldedOffers existing,
            gv_allowedUnshieldedTokenTypes = unshieldedTypes, gv_maxValuePerDay = vm\<rparr>"
    using assms(1) unfolding validateGrantShape_def Let_def check_then_Inr require_Inr by blast
  have h: "pred_option (\<lambda>e. list_all HEX64_RE (parseJsonStringList (ag_allowedTokenTypes e))) existing"
    "pred_option (\<lambda>e. list_all HEX64_RE (parseJsonStringList (ag_allowedUnshieldedTokenTypes e))) existing"
    using ok by (cases existing; simp add: grant_row_ok_def Let_def)+
  have new: "existing = None \<longrightarrow> actions = Some (effective_actions actions existing)"
    using a by (auto simp: shape_actions_def given_or_new_def effective_actions_def Let_def split: if_splits option.splits json.splits list.splits)
  show ?thesis
    using shape_actions_ok [OF a ok] d u n shape_types_ok [OF t(1) h(1)] shape_types_ok [OF t(2) h(2)] shape_value_ok [OF m ok] b [THEN shape_budget_ok]
      shape_deploys_ok [OF d(2)] new
    by (simp add: values_ok_def Let_def v)
qed

lemma patched_row_ok:
  assumes "values_ok v (Some e)" and "grant_row_ok e"
  shows "grant_row_ok (patch_row v e)"
proof -
  have a: "parseJsonStringList (ag_allowedActions (patch_row v e)) = effective_actions (gv_allowedActions v) (Some e)"
    by (simp add: patch_row_def effective_actions_def stored_list_def split: option.splits)
  have l: "positive_limit (ag_maxJobsPerDay (patch_row v e))" "positive_limit (ag_maxJobsPerHour (patch_row v e))"
    using assms by (auto simp: patch_row_def values_ok_def grant_row_ok_def Let_def split: option.splits)
  have f: "ag_allowDeploy (patch_row v e) = Some (gv_allowDeploy v)" "ag_maxDeploys (patch_row v e) = gv_maxDeploys v"
    "ag_allowUnshieldedOffers (patch_row v e) = Some (gv_allowUnshieldedOffers v)"
    "parseJsonStringList (ag_allowedUnshieldedTokenTypes (patch_row v e)) = gv_allowedUnshieldedTokenTypes v"
    "parseJsonStringList (ag_allowedTokenTypes (patch_row v e)) = gv_allowedTokenTypes v"
    "parseValueBudgetMap (ag_maxValuePerDay (patch_row v e)) = gv_maxValuePerDay v"
    using assms(1) by (simp_all add: patch_row_def values_ok_def Let_def value_column_parse)
  show ?thesis using assms(1) unfolding grant_row_ok_def Let_def a f values_ok_def using l by simp
qed

lemma new_grant_ok:
  assumes "prepareGrantCreation env userId inp = Inr (v, actions, sid)"
  shows "grant_row_ok (fst (newGrantRow env userId sid inp v actions label fresh))"
proof -
  have s: "validateGrantShape (ad_now env) (applyBudgetDefaults env inp) None = Inr v" and a: "actions = (case gv_allowedActions v of Some as \<Rightarrow> as | None \<Rightarrow> [])"
    using assms by (auto simp: prepareGrantCreation_def Let_def split: sum.splits option.splits)
  have v: "values_ok v None" using shape_values_ok [OF s] by simp
  then obtain xs where xs: "gv_allowedActions v = Some xs" by (auto simp: values_ok_def Let_def)
  then have act: "gv_allowedActions v = Some actions" "effective_actions (gv_allowedActions v) None = actions"
    using a by (simp_all add: effective_actions_def)
  have l: "positive_limit (case gv_maxJobsPerDay v of Some n \<Rightarrow> n | None \<Rightarrow> None)" "positive_limit (case gv_maxJobsPerHour v of Some n \<Rightarrow> n | None \<Rightarrow> None)"
    using v by (auto simp: values_ok_def Let_def positive_limit_def split: option.splits)
  show ?thesis using v act l unfolding values_ok_def Let_def
    by (simp add: newGrantRow_def grant_row_ok_def Let_def value_column_parse effective_actions_def)
qed

section \<open>Every change of the table\<close>

text \<open>
  One step is one call of the code, with any arguments, environment and time. \<open>atomic\<close> says whether an
  update writes over the table it read; without it, \<open>read\<close> is any earlier or invented table.
\<close>

inductive grant_step :: "bool \<Rightarrow> grants \<Rightarrow> grants \<Rightarrow> bool" for atomic where
  create: "fst fresh \<notin> ag_ID ` set gs \<Longrightarrow> grant_step atomic gs (snd (createAgentGrant env fresh inp u gs))"
| create_many: "distinct (map fst fresh) \<Longrightarrow> fst ` set fresh \<inter> ag_ID ` set gs = {}
    \<Longrightarrow> grant_step atomic gs (snd (createAgentGrants env fresh count labels inp u gs))"
| revoke: "grant_step atomic gs (snd (revokeAgentGrant env gid u gs))"
| rotate: "grant_step atomic gs (snd (rotateAgentGrantToken env random gid u gs))"
| update: "(atomic \<longrightarrow> read = gs) \<Longrightarrow> grant_step atomic gs (snd (updateAgentGrant env gid keys inp u read gs))"
| take: "grant_step atomic gs (snd (consumeBudget g b m nw gs))"
| give: "grant_step atomic gs (refundBudget g b nw gs)"
| reserve: "grant_step atomic gs (snd (reserveDeployBudget i count row gs))"
| release: "grant_step atomic gs (releaseDeployBudget i count gs)"
| take_value: "grant_step atomic gs (snd (take_value i t amount nw gs))"
| give_value: "grant_step atomic gs (refundValueBudget i t amount nw gs)"
| deployed: "grant_step atomic gs (recordDeployedContracts i as gs)"
| minted: "grant_step atomic gs (recordMintedTokenTypes i ts gs)"

text \<open>The rows a creation adds.\<close>

lemma newGrantRow_ID [simp]: "ag_ID (fst (newGrantRow env u sid inp v actions l f)) = fst f"
  by (simp add: newGrantRow_def Let_def)

lemma create_new:
  "snd (createAgentGrant env fresh inp u gs) = gs \<or> (\<exists>row. snd (createAgentGrant env fresh inp u gs) = gs @ [row] \<and> grant_row_ok row \<and> ag_ID row = fst fresh)"
proof (cases "prepareGrantCreation env u inp")
  case (Inr p)
  obtain v actions sid where p: "p = (v, actions, sid)" by (cases p)
  let ?label = "case gi_agentLabel inp of Some l \<Rightarrow> l | None \<Rightarrow> None"
  have "snd (createAgentGrant env fresh inp u gs) = gs @ [fst (newGrantRow env u sid inp v actions ?label fresh)]"
    using Inr p by (simp add: createAgentGrant_def split: prod.splits)
  then show ?thesis using new_grant_ok Inr p by (metis newGrantRow_ID)
qed (simp add: createAgentGrant_def)

lemma create_many_new:
  "\<exists>rows. snd (createAgentGrants env fresh count labels inp u gs) = gs @ rows \<and> list_all grant_row_ok rows
     \<and> (\<exists>n. map ag_ID rows = map fst (take n fresh))"
proof (cases "\<exists>rs. snd (createAgentGrants env fresh count labels inp u gs) = gs")
  case True
  then show ?thesis by (auto intro!: exI [of _ "[]"] exI [of _ 0])
next
  case False
  then obtain ls v actions sid where p: "prepareGrantCreation env u inp = Inr (v, actions, sid)"
    and e: "snd (createAgentGrants env fresh count labels inp u gs)
      = gs @ map (\<lambda>(l, f). fst (newGrantRow env u sid inp v actions (Some l) f)) (zip ls fresh)"
    by (auto simp: createAgentGrants_def check_then_def Let_def case_prod_unfold comp_def split: option.splits if_splits sum.splits)
  have "map ag_ID (map (\<lambda>(l, f). fst (newGrantRow env u sid inp v actions (Some l) f)) (zip ls fresh)) = map fst (take (length ls) fresh)"
  proof (induction ls arbitrary: fresh)
    case (Cons l ls)
    then show ?case by (cases fresh) auto
  qed simp
  then show ?thesis using e new_grant_ok [OF p] by (auto simp: list_all_iff)
qed

lemma step_evolves: "grant_step atomic gs gs' \<Longrightarrow> evolves keeps_binding grant_row_ok gs gs'"
proof (induction rule: grant_step.induct)
  case (create fresh gs env inp u)
  show ?case using create_new [of env fresh inp u gs] evolves_refl [of keeps_binding grant_row_ok gs] evolves_new [of keeps_binding grant_row_ok _ gs] by fastforce
next
  case (create_many fresh gs env count labels inp u)
  show ?case using create_many_new [of env fresh count labels inp u gs] evolves_new [of keeps_binding grant_row_ok _ gs] by fastforce
next
  case (update read gs env gid keys inp u)
  show ?case by (rule update_binding_evolves)
qed (blast intro: evolves_mono [of keeps_shape] revoke_evolves rotate_evolves consume_evolves refund_evolves reserve_evolves release_evolves
      take_value_evolves refund_value_evolves record_deployed_evolves record_minted_evolves keeps_shape_def [THEN iffD1, THEN conjunct1])+

lemmas quiet_evolves = revoke_evolves rotate_evolves consume_evolves refund_evolves reserve_evolves release_evolves
  take_value_evolves refund_value_evolves record_deployed_evolves record_minted_evolves

lemma evolves_ids: "evolves R (\<lambda>_. False) gs gs' \<Longrightarrow> (\<And>r r'. R r r' \<Longrightarrow> ag_ID r' = ag_ID r) \<Longrightarrow> map ag_ID gs' = map ag_ID gs"
  by (auto simp: evolves_def)

lemma keeps_ID: "keeps_binding r r' \<Longrightarrow> ag_ID r' = ag_ID r" "keeps_shape r r' \<Longrightarrow> ag_ID r' = ag_ID r"
  by (simp_all add: keeps_simps)

lemma step_ids: "grant_step atomic gs gs' \<Longrightarrow> distinct (map ag_ID gs) \<Longrightarrow> distinct (map ag_ID gs')"
proof (induction rule: grant_step.induct)
  case (create fresh gs env inp u)
  then show ?case using create_new [of env fresh inp u gs] by auto
next
  case (create_many fresh gs env count labels inp u)
  obtain rows n where r: "snd (createAgentGrants env fresh count labels inp u gs) = gs @ rows" "map ag_ID rows = map fst (take n fresh)"
    using create_many_new by blast
  have "distinct (map fst (take n fresh))" using create_many(1) by (simp add: take_map [symmetric])
  moreover have "set (map fst (take n fresh)) \<subseteq> fst ` set fresh" by (auto dest: in_set_takeD)
  ultimately show ?case using create_many(2,3) r by auto
next
  case (update read gs env gid keys inp u)
  then show ?case using evolves_ids [OF update_binding_evolves] keeps_ID by metis
qed (metis evolves_ids [OF quiet_evolves(1)] evolves_ids [OF quiet_evolves(2)] evolves_ids [OF quiet_evolves(3)] evolves_ids [OF quiet_evolves(4)]
      evolves_ids [OF quiet_evolves(5)] evolves_ids [OF quiet_evolves(6)] evolves_ids [OF quiet_evolves(7)] evolves_ids [OF quiet_evolves(8)]
      evolves_ids [OF quiet_evolves(9)] evolves_ids [OF quiet_evolves(10)] keeps_ID(2))+

lemma evolves_ok: "evolves keeps_shape (\<lambda>_. False) gs gs' \<Longrightarrow> list_all grant_row_ok gs \<Longrightarrow> list_all grant_row_ok gs'"
proof -
  assume e: "evolves keeps_shape (\<lambda>_. False) gs gs'" and ok: "list_all grant_row_ok gs"
  obtain f where f: "gs' = map f gs" "\<And>r. r \<in> set gs \<Longrightarrow> keeps_shape r (f r)" using e by (auto simp: evolves_def)
  have "grant_row_ok (f r)" if "r \<in> set gs" for r using keeps_ok [OF f(2) [OF that]] ok that by (simp add: list_all_iff)
  then show ?thesis by (simp add: f(1) list_all_iff)
qed

lemma update_ok:
  assumes "distinct (map ag_ID gs)" and "list_all grant_row_ok gs"
  shows "list_all grant_row_ok (snd (updateAgentGrant env gid keys inp u gs gs))"
proof (cases "plan_update env gid keys inp u gs")
  case (Inr v)
  then obtain e where e: "loadOwnGrant (the gid) u gs = Some e" and s: "validateGrantShape (ad_now env) inp (Some e) = Inr v"
    by (auto simp: plan_update_def Let_def split: option.splits sum.splits)
  have e': "e \<in> set gs" "ag_ID e = the gid" using e by (auto simp: loadOwnGrant_def dest!: select_one_Some)
  have ok: "grant_row_ok (patch_row v e)" using patched_row_ok shape_values_ok [OF s] assms(2) e' by (simp add: list_all_iff)
  have "grant_row_ok (patch_row v r)" if "r \<in> set gs" "ag_ID r = the gid" for r
    using ok row_unique [OF assms(1) e'(1) that(1)] that(2) e'(2) by simp
  then show ?thesis unfolding update_table using Inr assms(2) by (auto simp: update_where_def list_all_iff)
qed (simp add: update_table assms(2))

lemma step_ok: "grant_step True gs gs' \<Longrightarrow> distinct (map ag_ID gs) \<Longrightarrow> list_all grant_row_ok gs \<Longrightarrow> list_all grant_row_ok gs'"
proof (induction rule: grant_step.induct)
  case (create fresh gs env inp u)
  then show ?case using create_new [of env fresh inp u gs] by auto
next
  case (create_many fresh gs env count labels inp u)
  then show ?case using create_many_new [of env fresh count labels inp u gs] by auto
next
  case (update read gs env gid keys inp u)
  then show ?case using update_ok by simp
qed (blast intro: evolves_ok quiet_evolves)+

inductive grants_reach :: "bool \<Rightarrow> grants \<Rightarrow> bool" for atomic where
  init: "grants_reach atomic []"
| step: "grants_reach atomic gs \<Longrightarrow> grant_step atomic gs gs' \<Longrightarrow> grants_reach atomic gs'"

lemma reach_ids: "grants_reach atomic gs \<Longrightarrow> distinct (map ag_ID gs)"
  by (induction rule: grants_reach.induct) (auto intro: step_ids)

lemma reach_ok: "grants_reach True gs \<Longrightarrow> list_all grant_row_ok gs"
  by (induction rule: grants_reach.induct) (auto intro: step_ok reach_ids)

section \<open>Revocation and binding\<close>

definition revoked_row :: "string \<Rightarrow> grants \<Rightarrow> bool" where
  "revoked_row gid gs \<longleftrightarrow> gid \<in> ag_ID ` set gs \<and> distinct (map ag_ID gs) \<and> (\<forall>r \<in> set gs. ag_ID r = gid \<longrightarrow> ag_isActive r = Some False)"

text \<open>A row of the table after a step comes from the row of the same grant before it, or is new.\<close>

lemma evolves_source:
  assumes "evolves keeps_binding N gs gs'" and d: "distinct (map ag_ID gs')" and "r' \<in> set gs'" and "ag_ID r' \<in> ag_ID ` set gs"
  shows "\<exists>r \<in> set gs. ag_ID r = ag_ID r' \<and> keeps_binding r r'"
proof -
  obtain f new where f: "gs' = map f gs @ new" "\<forall>r \<in> set gs. keeps_binding r (f r)" using assms(1) unfolding evolves_def by blast
  obtain r where r: "r \<in> set gs" "ag_ID r = ag_ID r'" using assms(4) by auto
  have "ag_ID (f r) = ag_ID r'" using f(2) r keeps_ID(1) by metis
  then have "f r = r'" using d assms(3) r(1) f(1) by (intro distinct_map_eqD [OF d]) auto
  then show ?thesis using r f(2) by blast
qed

lemma step_kept_ids: "grant_step atomic gs gs' \<Longrightarrow> ag_ID ` set gs \<subseteq> ag_ID ` set gs'"
proof -
  assume "grant_step atomic gs gs'"
  then obtain f new where f: "gs' = map f gs @ new" "\<forall>r \<in> set gs. keeps_binding r (f r)" using step_evolves unfolding evolves_def by blast
  have "ag_ID r \<in> ag_ID ` set gs'" if "r \<in> set gs" for r
  proof (rule image_eqI [where x = "f r"])
    show "f r \<in> set gs'" using f(1) that by simp
    show "ag_ID r = ag_ID (f r)" using f(2) that keeps_ID(1) by metis
  qed
  then show ?thesis by blast
qed

lemma revoked_step: "grant_step atomic gs gs' \<Longrightarrow> revoked_row gid gs \<Longrightarrow> revoked_row gid gs'"
proof -
  assume s: "grant_step atomic gs gs'" and "revoked_row gid gs"
  then have g: "gid \<in> ag_ID ` set gs" "distinct (map ag_ID gs)" "\<And>r. r \<in> set gs \<Longrightarrow> ag_ID r = gid \<Longrightarrow> ag_isActive r = Some False"
    by (auto simp: revoked_row_def)
  have d: "distinct (map ag_ID gs')" by (rule step_ids [OF s g(2)])
  have "ag_isActive r' = Some False" if r': "r' \<in> set gs'" "ag_ID r' = gid" for r'
  proof -
    have "ag_ID r' \<in> ag_ID ` set gs" using r'(2) g(1) by simp
    then obtain r where r: "r \<in> set gs" "ag_ID r = gid" "keeps_binding r r'"
      using evolves_source [OF step_evolves [OF s] d r'(1)] r'(2) by blast
    then show ?thesis using g(3) [OF r(1,2)] by (simp add: keeps_binding_def)
  qed
  then show ?thesis using step_kept_ids [OF s] g(1) d by (auto simp: revoked_row_def)
qed

lemma revoked_steps: "(grant_step atomic)\<^sup>*\<^sup>* gs gs' \<Longrightarrow> revoked_row gid gs \<Longrightarrow> revoked_row gid gs'"
  by (induction rule: rtranclp_induct) (auto intro: revoked_step)

lemma revoke_row:
  assumes "revokeAgentGrant env (Some gid) u gs = (Revoked, gs')" and "distinct (map ag_ID gs)"
  shows "revoked_row gid gs'"
proof -
  let ?P = "\<lambda>g. ag_ID g = gid \<and> ag_userId g = u \<and> ag_isActive g = Some True"
  let ?p = "\<lambda>g. g\<lparr>ag_isActive := Some False, ag_revokedAt := Some (ad_now env)\<rparr>"
  have n: "fst (update_where ?P ?p gs) \<noteq> 0" and e: "gs' = snd (update_where ?P ?p gs)"
    using assms(1) by (auto simp: revokeAgentGrant_def filled_def split: prod.splits if_splits)
  then obtain g where g: "g \<in> set gs" "?P g" by (auto simp: update_where_def filter_empty_conv)
  have "map ag_ID gs' = map ag_ID gs" unfolding e by (rule update_where_keeps) simp
  moreover have "ag_isActive r' = Some False" if "r' \<in> set gs'" "ag_ID r' = gid" for r'
  proof -
    have "r' \<in> (\<lambda>r. if ?P r then ?p r else r) ` set gs" using that(1) e by (simp add: update_where_def)
    then obtain r where r: "r \<in> set gs" "r' = (if ?P r then ?p r else r)" by (rule imageE)
    have "ag_ID r = gid" using r(2) that(2) by (simp split: if_splits)
    then have "r = g" using row_unique [OF assms(2) g(1) r(1)] g(2) by simp
    then show ?thesis using r(2) g(2) by simp
  qed
  ultimately show ?thesis using g assms(2) by (simp add: revoked_row_def) (metis image_eqI image_set)
qed


definition admin_sample :: admin_env where
  "admin_sample = \<lparr>ad_now = 0, ad_defaultPerDay = Some 7, ad_defaultPerHour = None,
     ad_platform = Inr (sample_floor\<lparr>sp_allowedContracts := [], sp_allowedCircuits := [], sp_contractCircuits := None\<rparr>), ad_sharedTypes = [], ad_pool = [''pool''],
     ad_crypto = \<lparr>wc_decrypt = (\<lambda>c b. None), wc_deriveAccountId = (\<lambda>k. k), wc_deriveStoragePassword = (\<lambda>k. k)\<rparr>,
     ad_hash = (\<lambda>t. ''hash of '' @ t),
     ad_sessions = [\<lparr>ws_sessionId = ''s'', ws_userId = Some ''alice'', ws_isActive = Some True, ws_expiresAt = None, ws_encryptedViewingKey = None,
       ws_encryptedSeedKey = None, ws_accountIndex = None\<rparr>]\<rparr>"

definition no_input :: grant_input where
  "no_input = \<lparr>gi_sessionId = None, gi_sponsorSessionId = None, gi_allowedActions = None, gi_maxJobsPerDay = None, gi_maxJobsPerHour = None,
     gi_validUntil = None, gi_agentLabel = None, gi_allowedContracts = None, gi_allowedCircuits = None, gi_allowDeploy = None, gi_maxDeploys = None,
     gi_allowedTokenTypes = None, gi_allowUnshieldedOffers = None, gi_allowedUnshieldedTokenTypes = None, gi_maxValuePerDay = None\<rparr>"

definition pool_input :: "string \<Rightarrow> grant_input" where
  "pool_input action = no_input\<lparr>gi_sessionId := Some ''s'', gi_sponsorSessionId := Some PLATFORM_POOL_SENTINEL, gi_allowedActions := Some (JArr [JStr action])\<rparr>"

definition table_of :: "admin_answer \<times> grants \<Rightarrow> grants" where "table_of = snd"

definition pool_table :: grants where
  "pool_table = table_of (createAgentGrant admin_sample (''g'', ''1'') (pool_input ''sponsorSwap'') ''alice'' [])"

lemma pool_table_row: "length pool_table = 1 \<and> map ag_ID pool_table = [''g''] \<and> map ag_isActive pool_table = [Some True]
    \<and> map ag_userId pool_table = [''alice''] \<and> map ag_maxJobsPerDay pool_table = [Some 7]"
  by code_simp


text \<open>
  C9. Once an owner has revoked a grant, no later action, charge or record makes it work again, even if updates that read the
  table before the revocation are written after it: no request passes the gate under the grant, and no queued job finds it.
\<close>

theorem revoked_for_good:
  assumes "revokeAgentGrant env (Some gid) u gs = (Revoked, gs1)" and "distinct (map ag_ID gs)" and "(grant_step False)\<^sup>*\<^sup>* gs1 gs2"
  shows "currentGrantRow gid nw gs2 = None
    \<and> (\<forall>genv req r st req' rg taken out gs3. enforceAgentGrant genv req r st gs2 = (Admitted req' rg taken, out, gs3) \<longrightarrow> rg_ID rg \<noteq> gid)"
proof -
  have v: "revoked_row gid gs2" by (rule revoked_steps [OF assms(3) revoke_row [OF assms(1,2)]])
  have "currentGrantRow gid nw gs2 = None"
    using v by (auto simp: currentGrantRow_def revoked_row_def split: option.splits dest!: select_one_Some)
  moreover have "rg_ID rg \<noteq> gid" if "enforceAgentGrant genv req r st gs2 = (Admitted req' rg taken, out, gs3)" for genv req r st req' rg taken out gs3
  proof -
    from that obtain g token where "token_grant genv token gs2 = Inr g" "rg = request_grant_of g" by (rule admittedE)
    then have "g \<in> set gs2" "ag_isActive g = Some True" "rg_ID rg = ag_ID g"
      by (auto simp: token_grant_Inr request_grant_of_def dest!: select_one_Some)
    then show ?thesis using v by (auto simp: revoked_row_def)
  qed
  ultimately show ?thesis by blast
qed

definition label_edit :: grant_input where "label_edit = no_input\<lparr>gi_agentLabel := Some (Some ''new'')\<rparr>"

lemma revoked_sample: "fst (revokeAgentGrant admin_sample (Some ''g'') ''alice'' pool_table) = Revoked"
  by code_simp

theorem revoked_for_good_witness:
  "currentGrantRow ''g'' 0 (table_of (updateAgentGrant admin_sample (Some ''g'') [''agentLabel''] label_edit ''alice'' pool_table
     (table_of (revokeAgentGrant admin_sample (Some ''g'') ''alice'' pool_table)))) = None"
proof -
  let ?gs1 = "snd (revokeAgentGrant admin_sample (Some ''g'') ''alice'' pool_table)"
  have a: "revokeAgentGrant admin_sample (Some ''g'') ''alice'' pool_table = (Revoked, ?gs1)" using revoked_sample by (metis prod.collapse)
  have d: "distinct (map ag_ID pool_table)" using pool_table_row by simp
  have "grant_step False ?gs1 (snd (updateAgentGrant admin_sample (Some ''g'') [''agentLabel''] label_edit ''alice'' pool_table ?gs1))"
    by (rule grant_step.update) simp
  then have "(grant_step False)\<^sup>*\<^sup>* ?gs1 (snd (updateAgentGrant admin_sample (Some ''g'') [''agentLabel''] label_edit ''alice'' pool_table ?gs1))"
    by (rule r_into_rtranclp [where r = "grant_step False"])
  from revoked_for_good [OF a d this, where nw = 0] show ?thesis by (simp add: table_of_def)
qed

definition wide_input :: grant_input where
  "wide_input = no_input\<lparr>gi_sessionId := Some ''s'', gi_allowedActions := Some (JArr [JStr ''anchorDocument'']),
     gi_allowedContracts := Some (JArr [JStr ''kept'', JStr ''removed''])\<rparr>"

definition narrow_input :: grant_input where
  "narrow_input = no_input\<lparr>gi_allowedContracts := Some (JArr [JStr ''kept''])\<rparr>"


text \<open>
  The creation of a grant that the platform pool pays for refuses actions the pool cannot pay; an update of such a grant accepts
  them, so the grant then lists an action that fails whenever it is used.
\<close>

theorem pool_check_skipped:
  "table_of (createAgentGrant admin_sample (''g'', ''1'') (pool_input ''anchorDocument'') ''alice'' []) = [] \<and>
   (let gs = table_of (createAgentGrant admin_sample (''g'', ''1'') (pool_input ''sponsorSwap'') ''alice'' []);
        edited = updateAgentGrant admin_sample (Some ''g'') [''allowedActions'']
                   (no_input\<lparr>gi_allowedActions := Some (JArr [JStr ''anchorDocument''])\<rparr>) ''alice'' gs gs
    in fst edited = Updated ''g'' [''allowedActions''] \<and> map (\<lambda>g. parseJsonStringList (ag_allowedActions g)) (table_of edited) = [[''anchorDocument'']]
       \<and> map ag_sponsorSessionId (table_of edited) = [Some PLATFORM_POOL_SENTINEL])"
  by code_simp

end
