(* ===== verification/Dust_Lease.thy ===== *)
theory Dust_Lease
  imports Js_Value
begin

text \<open>
  The reservations of the sponsor's dust (\<^verbatim>\<open>srv/midnight/worker/sponsor.ts\<close>). A sponsor pays fees with
  dust notes that grow on a backing; two spends from one backing at once are rejected by the node, so a
  spend first reserves the backings it uses. The table of reservations and the counter of tokens are
  the worker's module state. A note is a value of the wallet library; its dust is read at the time of
  the spend. The order of two notes with the same dust is kept by the sort, as in the language.
\<close>

section \<open>Notes\<close>

text \<open>A text as \<^verbatim>\<open>BigInt\<close> reads it: decimal with a sign, or hexadecimal, octal or binary with its prefix.\<close>

definition digit_in :: "int \<Rightarrow> char \<Rightarrow> int option" where
  "digit_in r c =
     (let n = int (of_char c); d = (if 48 \<le> n \<and> n \<le> 57 then n - 48 else if 97 \<le> n \<and> n \<le> 102 then n - 87 else if 65 \<le> n \<and> n \<le> 70 then n - 55 else r)
      in if d < r then Some d else None)"

definition radix_text :: "int \<Rightarrow> string \<Rightarrow> int option" where
  "radix_text r s =
     (if s = [] \<or> \<not> list_all (\<lambda>c. digit_in r c \<noteq> None) s then None
      else Some (fold (\<lambda>c n. n * r + the (digit_in r c)) s 0))"

definition big_of_text :: "string \<Rightarrow> int option" where
  "big_of_text s =
     (let t = trim s; p = take 2 t in
      if t = [] then Some 0
      else if p = ''0x'' \<or> p = ''0X'' then radix_text 16 (drop 2 t)
      else if p = ''0o'' \<or> p = ''0O'' then radix_text 8 (drop 2 t)
      else if p = ''0b'' \<or> p = ''0B'' then radix_text 2 (drop 2 t)
      else if hd t = CHR ''-'' then map_option uminus (radix_text 10 (tl t))
      else if hd t = CHR ''+'' then radix_text 10 (tl t)
      else radix_text 10 t)"

text \<open>\<^verbatim>\<open>BigInt(v)\<close> where it does not throw. Anything that is no number is read by its text.\<close>

fun v_BigInt :: "jv \<Rightarrow> int option" where
  "v_BigInt (VBig n) = Some n"
| "v_BigInt (VNum n) = Some n"
| "v_BigInt (VBool b) = Some (if b then 1 else 0)"
| "v_BigInt VUndef = None"
| "v_BigInt VNull = None"
| "v_BigInt VNaN = None"
| "v_BigInt v = big_of_text (v_String v)"

definition noteSpecks :: "jv \<Rightarrow> int" where
  "noteSpecks note =
     (let v = jprop note ''generatedNow'' in
      if v_nullish v then 0 else (case v_BigInt v of Some n \<Rightarrow> n | None \<Rightarrow> 0))"

definition backing_text :: "jv \<Rightarrow> string" where
  "backing_text note = (let v = jprop (jprop note ''token'') ''backingNight'' in if v_nullish v then ''?'' else v_String v)"

definition backingKey :: "string \<Rightarrow> jv \<Rightarrow> string" where
  "backingKey sessionId note = sessionId @ ''|'' @ backing_text note"

definition by_specks :: "jv list \<Rightarrow> jv list" where
  "by_specks notes = sort_key (\<lambda>n. - noteSpecks n) notes"

section \<open>Reservations\<close>

record note_lock =
  lk_exp :: int
  lk_token :: nat

record lock_table =
  noteLocks :: "string \<rightharpoonup> note_lock"
  noteLeaseSeq :: nat

definition held_at :: "lock_table \<Rightarrow> int \<Rightarrow> string \<Rightarrow> bool" where
  "held_at st nw key = (case noteLocks st key of Some l \<Rightarrow> nw < lk_exp l | None \<Rightarrow> False)"

definition set_lock :: "string \<Rightarrow> int \<Rightarrow> lock_table \<Rightarrow> nat \<times> lock_table" where
  "set_lock key ex st =
     (let token = noteLeaseSeq st + 1 in
      (token, st\<lparr>noteLocks := (noteLocks st)(key \<mapsto> \<lparr>lk_exp = ex, lk_token = token\<rparr>), noteLeaseSeq := token\<rparr>))"

record lease_part =
  lp_key :: string
  lp_token :: nat

record dust_lease =
  dl_parts :: "lease_part list"
  dl_backing :: string

definition first_free :: "string \<Rightarrow> string set \<Rightarrow> lock_table \<Rightarrow> int \<Rightarrow> jv list \<Rightarrow> jv option" where
  "first_free sid skip st nw notes = find (\<lambda>n. backingKey sid n \<notin> skip \<and> \<not> held_at st nw (backingKey sid n)) notes"

definition tryLockBacking ::
    "int \<Rightarrow> string \<Rightarrow> jv list \<Rightarrow> int \<Rightarrow> int \<Rightarrow> string set \<Rightarrow> lock_table \<Rightarrow> dust_lease option \<times> lock_table" where
  "tryLockBacking nw sid notes need ttl skip st =
     (case first_free sid skip st nw (by_specks (filter (\<lambda>n. need \<le> noteSpecks n) notes)) of
        None \<Rightarrow> (None, st)
      | Some n \<Rightarrow>
          (case set_lock (backingKey sid n) (nw + ttl) st of
             (token, st') \<Rightarrow> (Some \<lparr>dl_parts = [\<lparr>lp_key = backingKey sid n, lp_token = token\<rparr>], dl_backing = take 16 (backing_text n)\<rparr>, st')))"

definition sufficientNoteOnBacking :: "string \<Rightarrow> jv list \<Rightarrow> string \<Rightarrow> int \<Rightarrow> jv option" where
  "sufficientNoteOnBacking sid notes key need = find (\<lambda>n. backingKey sid n = key \<and> need \<le> noteSpecks n) notes"

text \<open>The best note of each free backing, in the order the backings were first seen.\<close>

definition best_step :: "string \<Rightarrow> string set \<Rightarrow> lock_table \<Rightarrow> int \<Rightarrow> jv \<Rightarrow> (string \<times> jv) list \<Rightarrow> (string \<times> jv) list" where
  "best_step sid skip st nw n best =
     (let key = backingKey sid n in
      if key \<in> skip \<or> held_at st nw key then best
      else case map_of best key of
        None \<Rightarrow> map_put key n best
      | Some current \<Rightarrow> if noteSpecks current < noteSpecks n then map_put key n best else best)"

fun pick_until :: "nat \<Rightarrow> int \<Rightarrow> jv list \<Rightarrow> jv list \<Rightarrow> int \<Rightarrow> jv list \<times> int" where
  "pick_until maxNotes need [] picked acc = (picked, acc)"
| "pick_until maxNotes need (n # ns) picked acc =
     (if need \<le> acc \<or> maxNotes \<le> length picked then (picked, acc)
      else pick_until maxNotes need ns (picked @ [n]) (acc + noteSpecks n))"

definition free_notes :: "string \<Rightarrow> string set \<Rightarrow> lock_table \<Rightarrow> int \<Rightarrow> jv list \<Rightarrow> jv list" where
  "free_notes sid skip st nw notes =
     by_specks (filter (\<lambda>n. 0 < noteSpecks n) (map snd (fold (best_step sid skip st nw) notes [])))"

definition pickNotesAcrossBackings :: "int \<Rightarrow> string \<Rightarrow> jv list \<Rightarrow> int \<Rightarrow> nat \<Rightarrow> string set \<Rightarrow> lock_table \<Rightarrow> jv list option" where
  "pickNotesAcrossBackings nw sid notes need maxNotes skip st =
     (case pick_until maxNotes need (free_notes sid skip st nw notes) [] 0 of
        (picked, acc) \<Rightarrow> if need \<le> acc then Some picked else None)"

fun lock_all :: "string \<Rightarrow> int \<Rightarrow> jv list \<Rightarrow> lock_table \<Rightarrow> lease_part list \<times> lock_table" where
  "lock_all sid ex [] st = ([], st)"
| "lock_all sid ex (n # ns) st =
     (case set_lock (backingKey sid n) ex st of
        (token, st1) \<Rightarrow>
          (case lock_all sid ex ns st1 of (parts, st2) \<Rightarrow> (\<lparr>lp_key = backingKey sid n, lp_token = token\<rparr> # parts, st2)))"

definition tryLockDust ::
    "int \<Rightarrow> string \<Rightarrow> jv list \<Rightarrow> int \<Rightarrow> int \<Rightarrow> string set \<Rightarrow> nat \<Rightarrow> lock_table \<Rightarrow> dust_lease option \<times> lock_table" where
  "tryLockDust nw sid notes need ttl skip maxNotes st =
     (case tryLockBacking nw sid notes need ttl skip st of
        (Some l, st') \<Rightarrow> (Some l, st')
      | (None, st') \<Rightarrow>
          if maxNotes < 2 \<or> list_ex (\<lambda>n. need \<le> noteSpecks n \<and> backingKey sid n \<notin> skip) notes then (None, st')
          else (case pickNotesAcrossBackings nw sid notes need maxNotes skip st' of
                  None \<Rightarrow> (None, st')
                | Some picked \<Rightarrow>
                    (case lock_all sid (nw + ttl) picked st' of
                       (parts, st2) \<Rightarrow> (Some \<lparr>dl_parts = parts, dl_backing = join ''+'' (map (\<lambda>n. take 16 (backing_text n)) picked)\<rparr>, st2))))"

definition releaseNote :: "string \<Rightarrow> nat \<Rightarrow> lock_table \<Rightarrow> lock_table" where
  "releaseNote key token st =
     (case noteLocks st key of
        Some l \<Rightarrow> if lk_token l = token then st\<lparr>noteLocks := (noteLocks st)(key := None)\<rparr> else st
      | None \<Rightarrow> st)"

definition releaseLease :: "dust_lease \<Rightarrow> lock_table \<Rightarrow> lock_table" where
  "releaseLease lease st = fold (\<lambda>p. releaseNote (lp_key p) (lp_token p)) (dl_parts lease) st"

text \<open>One tick of the timer that renews a part while its job runs; it ticks every third of the time to live.\<close>

definition renew :: "string \<Rightarrow> nat \<Rightarrow> int \<Rightarrow> int \<Rightarrow> lock_table \<Rightarrow> lock_table" where
  "renew key token ttl nw st =
     (case noteLocks st key of
        Some l \<Rightarrow> if lk_token l = token then st\<lparr>noteLocks := (noteLocks st)(key \<mapsto> l\<lparr>lk_exp := nw + ttl\<rparr>)\<rparr> else st
      | None \<Rightarrow> st)"

definition renew_interval :: "int \<Rightarrow> int" where
  "renew_interval ttl = max 5 (ttl div 3)"

text \<open>
  The wait for free backings. Each look is the time it happens, the notes then, what other spends have
  done to the table since the look before, and whether the call was cancelled.
\<close>

record lock_look =
  lo_now :: int
  lo_notes :: "jv list"
  lo_others :: "lock_table \<Rightarrow> lock_table"
  lo_cancelled :: bool

datatype lease_wait = Leased dust_lease | NoBacking | Cancelled | StillWaiting

fun acquireBacking ::
    "string \<Rightarrow> int \<Rightarrow> int \<Rightarrow> int \<Rightarrow> string set \<Rightarrow> nat \<Rightarrow> lock_look list \<Rightarrow> lock_table \<Rightarrow> lease_wait \<times> lock_table" where
  "acquireBacking sid need ttl deadline skip maxNotes [] st = (StillWaiting, st)"
| "acquireBacking sid need ttl deadline skip maxNotes (lo # los) st =
     (let st0 = lo_others lo st in
      if lo_cancelled lo then (Cancelled, st0)
      else case tryLockDust (lo_now lo) sid (lo_notes lo) need ttl skip maxNotes st0 of
        (Some l, st1) \<Rightarrow> (Leased l, st1)
      | (None, st1) \<Rightarrow> if deadline \<le> lo_now lo then (NoBacking, st1) else acquireBacking sid need ttl deadline skip maxNotes los st1)"

section \<open>The spend\<close>

fun dustSpendInputs :: "jv list \<Rightarrow> int \<Rightarrow> (jv \<times> int) list" where
  "dustSpendInputs [] left = []"
| "dustSpendInputs (n # ns) left =
     (if left \<le> 0 then []
      else (let value = (if noteSpecks n < left then noteSpecks n else left)
            in (jprop n ''token'', value) # dustSpendInputs ns (left - value)))"

record backing_short =
  bs_backing :: string
  bs_held :: int
  bs_needed :: int
  bs_shortKeys :: "string list"

definition MAX_FEE_ROUNDS :: nat where "MAX_FEE_ROUNDS = 4"
definition MAX_BACKING_RESELECTS :: nat where "MAX_BACKING_RESELECTS = 3"

text \<open>The note with the most dust on a backing, the first of equals.\<close>

definition bestOn :: "string \<Rightarrow> jv list \<Rightarrow> string \<Rightarrow> jv option" where
  "bestOn sid fresh key =
     fold (\<lambda>n m. case m of None \<Rightarrow> Some n | Some b \<Rightarrow> if noteSpecks b < noteSpecks n then Some n else Some b)
          (filter (\<lambda>n. backingKey sid n = key) fresh) None"

definition specks_or_zero :: "jv option \<Rightarrow> int" where
  "specks_or_zero v = (case v of Some n \<Rightarrow> noteSpecks n | None \<Rightarrow> 0)"

definition spend_notes :: "string \<Rightarrow> dust_lease \<Rightarrow> jv list \<Rightarrow> int \<Rightarrow> backing_short + jv list" where
  "spend_notes sid lease fresh need =
     (case dl_parts lease of
        [p] \<Rightarrow>
          (case sufficientNoteOnBacking sid fresh (lp_key p) need of
             Some n \<Rightarrow> Inr [n]
           | None \<Rightarrow> Inl \<lparr>bs_backing = dl_backing lease, bs_held = specks_or_zero (bestOn sid fresh (lp_key p)), bs_needed = need, bs_shortKeys = []\<rparr>)
      | ps \<Rightarrow>
          (let missing = map lp_key (filter (\<lambda>p. bestOn sid fresh (lp_key p) = None) ps) in
           if missing \<noteq> [] then Inl \<lparr>bs_backing = dl_backing lease, bs_held = 0, bs_needed = need, bs_shortKeys = missing\<rparr>
           else Inr (map (\<lambda>p. the (bestOn sid fresh (lp_key p))) ps)))"

definition sum_specks :: "jv list \<Rightarrow> int" where
  "sum_specks notes = sum_list (map noteSpecks notes)"

text \<open>
  The price of a spend from several notes. \<open>fee target\<close> is the fee of the whole transaction with the
  spends that pay \<open>target\<close>, or nothing when the ledger cannot say.
\<close>

function price_rounds :: "string \<Rightarrow> jv list \<Rightarrow> (int \<Rightarrow> int option) \<Rightarrow> nat \<Rightarrow> int \<Rightarrow> backing_short + int" where
  "price_rounds backing notes fee r target =
     (if sum_specks notes < target
      then Inl \<lparr>bs_backing = backing, bs_held = sum_specks notes, bs_needed = target, bs_shortKeys = []\<rparr>
      else if length notes < 2 \<or> MAX_FEE_ROUNDS \<le> r then Inr target
      else (case fee target of
              None \<Rightarrow> Inr target
            | Some f \<Rightarrow> if f \<le> target then Inr target else price_rounds backing notes fee (r + 1) f))"
  by pat_completeness auto
termination
  by (relation "measure (\<lambda>(backing, notes, fee, r, target). MAX_FEE_ROUNDS - r)") auto

declare price_rounds.simps [simp del]

definition spent_nonces :: "jv list \<Rightarrow> int \<Rightarrow> string list" where
  "spent_nonces notes target =
     map v_String (filter (\<lambda>x. \<not> v_nullish x)
       (map (\<lambda>n. jprop (jprop n ''token'') ''nonce'') (take (length (dustSpendInputs notes target)) notes)))"

record dust_spend =
  ds_inputs :: "(jv \<times> int) list"
  ds_spentNonces :: "string list"

definition buildDustSpend :: "string \<Rightarrow> dust_lease \<Rightarrow> jv list \<Rightarrow> int \<Rightarrow> (jv list \<Rightarrow> int \<Rightarrow> int option) \<Rightarrow> backing_short + dust_spend" where
  "buildDustSpend sid lease fresh need fee =
     check_then (spend_notes sid lease fresh need) (\<lambda>notes.
     check_then (price_rounds (dl_backing lease) notes (fee notes) 0 need) (\<lambda>target.
       Inr \<lparr>ds_inputs = dustSpendInputs notes target, ds_spentNonces = spent_nonces notes target\<rparr>))"

text \<open>
  The reservation and the build, repeated when the reserved notes turn out to hold too little. \<open>tries\<close>
  has, for each attempt, the looks of its wait, its deadline, and the notes its build finds.
\<close>

record spend_try =
  st_looks :: "lock_look list"
  st_deadline :: int
  st_fresh :: "jv list"

datatype spend_result = Spend dust_lease dust_spend | Short backing_short | NotLeased lease_wait

definition next_need :: "dust_lease \<Rightarrow> backing_short \<Rightarrow> int \<Rightarrow> int" where
  "next_need lease e need = (if bs_shortKeys e = [] \<and> 1 < length (dl_parts lease) \<and> need < bs_needed e then bs_needed e else need)"

definition next_skip :: "dust_lease \<Rightarrow> backing_short \<Rightarrow> int \<Rightarrow> string set \<Rightarrow> string set" where
  "next_skip lease e need skip =
     (if bs_shortKeys e \<noteq> [] then skip \<union> set (bs_shortKeys e)
      else if 1 < length (dl_parts lease) \<and> need < bs_needed e then skip
      else skip \<union> lp_key ` set (dl_parts lease))"

fun reserve_and_build ::
    "string \<Rightarrow> int \<Rightarrow> nat \<Rightarrow> (jv list \<Rightarrow> int \<Rightarrow> int option) \<Rightarrow> spend_try list \<Rightarrow> nat \<Rightarrow> int \<Rightarrow> string set \<Rightarrow> lock_table \<Rightarrow> spend_result \<times> lock_table" where
  "reserve_and_build sid ttl maxNotes fee [] attempt need skip st = (NotLeased StillWaiting, st)"
| "reserve_and_build sid ttl maxNotes fee (t # ts) attempt need skip st =
     (case acquireBacking sid need ttl (st_deadline t) skip maxNotes (st_looks t) st of
        (Leased lease, st1) \<Rightarrow>
          (case buildDustSpend sid lease (st_fresh t) need fee of
             Inr spend \<Rightarrow> (Spend lease spend, st1)
           | Inl e \<Rightarrow>
               if attempt < MAX_BACKING_RESELECTS
               then reserve_and_build sid ttl maxNotes fee ts (attempt + 1) (next_need lease e need) (next_skip lease e need skip) (releaseLease lease st1)
               else (Short e, releaseLease lease st1))
      | (other, st1) \<Rightarrow> (NotLeased other, st1))"

section \<open>After the send\<close>

text \<open>
  The backings stay reserved until the wallet no longer lists a spent note, the wait is over, or the
  wallet was replaced. Each look is its time, whether the wallet is still the same, and the notes it
  lists; a look that fails ends the wait. The result says whether the wait has ended.
\<close>

record spent_look =
  sl_now :: int
  sl_same :: bool
  sl_listed :: "jv list option"

fun wait_spent :: "int \<Rightarrow> int \<Rightarrow> string list \<Rightarrow> bool \<Rightarrow> spent_look list \<Rightarrow> bool" where
  "wait_spent t0 waitMs nonces listed [] = (\<not> listed)"
| "wait_spent t0 waitMs nonces listed (lo # los) =
     (if \<not> listed \<or> waitMs \<le> sl_now lo - t0 \<or> \<not> sl_same lo then True
      else case sl_listed lo of
        None \<Rightarrow> True
      | Some coins \<Rightarrow>
          wait_spent t0 waitMs nonces (list_ex (\<lambda>n. v_String (jprop (jprop n ''token'') ''nonce'') \<in> set nonces) coins) los)"

definition releaseBackingWhenSpent :: "int \<Rightarrow> int \<Rightarrow> string list \<Rightarrow> spent_look list \<Rightarrow> dust_lease \<Rightarrow> lock_table \<Rightarrow> lock_table" where
  "releaseBackingWhenSpent t0 waitMs nonces los lease st =
     (if wait_spent t0 waitMs nonces (nonces \<noteq> [] \<and> 0 < waitMs) los then releaseLease lease st else st)"

end
