(* ===== verification/Dust_Lease_Safety.thy ===== *)
theory Dust_Lease_Safety
  imports Dust_Lease "HOL-Library.Sublist"
begin

text \<open>
  What the reservations guarantee: a reserved backing is not given to a second spend while the
  reservation lasts, free backings that cover a fee together are found, and the spend built on a
  reservation pays the fee from the reserved backings.
\<close>

section \<open>What a reservation may touch\<close>

lemma first_free_Some:
  assumes "first_free sid skip st nw notes = Some n"
  shows "n \<in> set notes \<and> backingKey sid n \<notin> skip \<and> \<not> held_at st nw (backingKey sid n)"
  using assms by (auto simp: first_free_def find_Some_iff)

lemma by_specks_set [simp]: "set (by_specks notes) = set notes"
  by (simp add: by_specks_def)

text \<open>The table of the best notes: one free note under the key of its own backing.\<close>

definition best_ok :: "string \<Rightarrow> string set \<Rightarrow> lock_table \<Rightarrow> int \<Rightarrow> jv set \<Rightarrow> (string \<times> jv) list \<Rightarrow> bool" where
  "best_ok sid skip st nw seen best \<longleftrightarrow> distinct (map fst best)
     \<and> (\<forall>(k, n) \<in> set best. k = backingKey sid n \<and> n \<in> seen \<and> k \<notin> skip \<and> \<not> held_at st nw k)
     \<and> (\<forall>n \<in> seen. backingKey sid n \<in> skip \<or> held_at st nw (backingKey sid n)
           \<or> (\<exists>b. map_of best (backingKey sid n) = Some b \<and> noteSpecks n \<le> noteSpecks b))"

lemma map_put_entries: "set (map_put k v m) \<subseteq> insert (k, v) (set m)"
  by (induction k v m rule: map_put.induct) auto

lemma best_step_ok:
  assumes "best_ok sid skip st nw seen best"
  shows "best_ok sid skip st nw (insert n seen) (best_step sid skip st nw n best)"
proof -
  let ?k = "backingKey sid n"
  have d: "distinct (map fst best)" and e: "\<forall>(k, m) \<in> set best. k = backingKey sid m \<and> m \<in> seen \<and> k \<notin> skip \<and> \<not> held_at st nw k"
    and c: "\<And>m. m \<in> seen \<Longrightarrow> backingKey sid m \<in> skip \<or> held_at st nw (backingKey sid m)
           \<or> (\<exists>b. map_of best (backingKey sid m) = Some b \<and> noteSpecks m \<le> noteSpecks b)"
    using assms by (auto simp: best_ok_def)
  show ?thesis
  proof (cases "?k \<in> skip \<or> held_at st nw ?k \<or> (\<exists>b. map_of best ?k = Some b \<and> noteSpecks n \<le> noteSpecks b)")
    case True
    then have "best_step sid skip st nw n best = best" by (auto simp: best_step_def Let_def)
    then show ?thesis using True d e c by (fastforce simp: best_ok_def)
  next
    case False
    then have put: "best_step sid skip st nw n best = map_put ?k n best"
      by (auto simp: best_step_def Let_def split: option.split)
    have less: "map_of best ?k = Some b \<Longrightarrow> noteSpecks b \<le> noteSpecks n" for b using False by force
    have "\<forall>(k, m) \<in> set (map_put ?k n best). k = backingKey sid m \<and> m \<in> insert n seen \<and> k \<notin> skip \<and> \<not> held_at st nw k"
      using map_put_entries [of ?k n best] e False by fastforce
    moreover have "backingKey sid m \<in> skip \<or> held_at st nw (backingKey sid m)
           \<or> (\<exists>b. map_of (map_put ?k n best) (backingKey sid m) = Some b \<and> noteSpecks m \<le> noteSpecks b)" if "m \<in> insert n seen" for m
      using that c [of m] less by (cases "backingKey sid m = ?k") (auto intro: order_trans)
    ultimately show ?thesis using d put by (simp add: best_ok_def distinct_map_put)
  qed
qed

lemma best_fold_ok: "best_ok sid skip st nw seen best \<Longrightarrow> best_ok sid skip st nw (set coins \<union> seen) (fold (best_step sid skip st nw) coins best)"
proof (induction coins arbitrary: seen best)
  case (Cons n coins)
  show ?case using Cons(1) [OF best_step_ok [OF Cons(2)], of n] by simp
qed simp

lemma best_notes: "best_ok sid skip st nw (set coins) (fold (best_step sid skip st nw) coins [])"
proof -
  have "best_ok sid skip st nw {} []" by (simp add: best_ok_def)
  from best_fold_ok [OF this] show ?thesis by simp
qed

lemma free_notes_ok:
  shows "distinct (map (backingKey sid) (free_notes sid skip st nw coins))"
    and "n \<in> set (free_notes sid skip st nw coins) \<Longrightarrow> n \<in> set coins \<and> 0 < noteSpecks n \<and> backingKey sid n \<notin> skip \<and> \<not> held_at st nw (backingKey sid n)"
    and "\<lbrakk>n \<in> set coins; 0 < noteSpecks n; backingKey sid n \<notin> skip; \<not> held_at st nw (backingKey sid n)\<rbrakk>
      \<Longrightarrow> \<exists>b \<in> set (free_notes sid skip st nw coins). backingKey sid b = backingKey sid n \<and> noteSpecks n \<le> noteSpecks b"
proof -
  let ?best = "fold (best_step sid skip st nw) coins []"
  have ok: "best_ok sid skip st nw (set coins) ?best" by (rule best_notes)
  have keys: "map (\<lambda>x. backingKey sid (snd x)) ?best = map fst ?best"
    using ok by (intro map_cong) (auto simp: best_ok_def)
  have "distinct (map (\<lambda>x. backingKey sid (snd x)) ?best)" unfolding keys using ok by (simp add: best_ok_def)
  then have "distinct (map (backingKey sid) (map snd ?best))" by (simp add: comp_def)
  then have "distinct (map (backingKey sid) (filter (\<lambda>n. 0 < noteSpecks n) (map snd ?best)))" by (rule distinct_map_filter)
  then show "distinct (map (backingKey sid) (free_notes sid skip st nw coins))"
    by (simp add: free_notes_def by_specks_def distinct_map)
  show "n \<in> set (free_notes sid skip st nw coins) \<Longrightarrow> n \<in> set coins \<and> 0 < noteSpecks n \<and> backingKey sid n \<notin> skip \<and> \<not> held_at st nw (backingKey sid n)"
    using ok by (auto simp: free_notes_def best_ok_def)
  assume n: "n \<in> set coins" "0 < noteSpecks n" "backingKey sid n \<notin> skip" "\<not> held_at st nw (backingKey sid n)"
  then obtain b where b: "map_of ?best (backingKey sid n) = Some b" "noteSpecks n \<le> noteSpecks b" using ok unfolding best_ok_def by blast
  have "(backingKey sid n, b) \<in> set ?best" by (rule map_of_SomeD [OF b(1)])
  then have "backingKey sid b = backingKey sid n" "b \<in> set (free_notes sid skip st nw coins)"
    using ok b(2) n(2) by (force simp: best_ok_def free_notes_def)+
  then show "\<exists>b \<in> set (free_notes sid skip st nw coins). backingKey sid b = backingKey sid n \<and> noteSpecks n \<le> noteSpecks b" using b(2) by blast
qed

lemma pick_prefix: "pick_until m need ns picked acc = (picked', acc') \<Longrightarrow> acc = sum_specks picked \<Longrightarrow> length picked \<le> m
    \<Longrightarrow> \<exists>k. picked' = picked @ take k ns \<and> acc' = sum_specks picked' \<and> length picked' \<le> m \<and> (need \<le> acc' \<or> length picked' = m \<or> k = length ns)"
proof (induction ns arbitrary: picked acc)
  case Nil
  then show ?case by auto
next
  case (Cons n ns)
  show ?case
  proof (cases "need \<le> acc \<or> m \<le> length picked")
    case True
    then show ?thesis using Cons(2,3,4) by (auto intro!: exI [of _ 0])
  next
    case False
    then have "pick_until m need ns (picked @ [n]) (acc + noteSpecks n) = (picked', acc')" using Cons(2) by simp
    moreover have "acc + noteSpecks n = sum_specks (picked @ [n])" "length (picked @ [n]) \<le> m"
      using Cons(3) False by (simp_all add: sum_specks_def)
    ultimately obtain k where "picked' = (picked @ [n]) @ take k ns" "acc' = sum_specks picked'" "length picked' \<le> m"
        "need \<le> acc' \<or> length picked' = m \<or> k = length ns"
      using Cons(1) [of "picked @ [n]" "acc + noteSpecks n"] by blast
    then show ?thesis by (auto intro!: exI [of _ "Suc k"])
  qed
qed

lemma pickE:
  assumes "pickNotesAcrossBackings nw sid coins need maxNotes skip st = Some picked"
  obtains k where "picked = take k (free_notes sid skip st nw coins)" "need \<le> sum_specks picked" "length picked \<le> maxNotes"
  using assms pick_prefix [of maxNotes need "free_notes sid skip st nw coins" "[]" 0]
  by (auto simp: pickNotesAcrossBackings_def sum_specks_def split: prod.splits if_splits)

section \<open>Free backings that cover a fee are found\<close>

lemma greedy_best:
  fixes f :: "'a \<Rightarrow> int"
  assumes "sorted_wrt (\<lambda>a b. f b \<le> f a) xs" "\<forall>x \<in> set xs. 0 \<le> f x" "A \<subseteq> set xs" "card A \<le> m" "distinct xs"
  shows "sum f A \<le> sum_list (map f (take m xs))"
  using assms
proof (induction xs arbitrary: m A)
  case Nil
  then show ?case by simp
next
  case (Cons x xs)
  have fin: "finite A" using Cons.prems(3) finite_subset by blast
  show ?case
  proof (cases m)
    case 0
    then show ?thesis using Cons.prems(4) fin by simp
  next
    case (Suc k)
    have ex: "\<exists>a. a \<in> A \<and> A - {a} \<subseteq> set xs \<and> f a \<le> f x" if ne: "A \<noteq> {}"
    proof (cases "x \<in> A")
      case True
      then show ?thesis using Cons.prems(3) by (intro exI [of _ x]) auto
    next
      case False
      then have sub: "A \<subseteq> set xs" using Cons.prems(3) by auto
      obtain a where "a \<in> A" using ne by blast
      then show ?thesis using sub Cons.prems(1) by (intro exI [of _ a]) auto
    qed
    show ?thesis
    proof (cases "A = {}")
      case True
      have "0 \<le> sum_list (map f (take m (x # xs)))"
        using Cons.prems(2) by (intro sum_list_nonneg) (metis imageE in_set_takeD list.set_map)
      then show ?thesis using True by simp
    next
      case False
      then obtain a where a: "a \<in> A" "A - {a} \<subseteq> set xs" "f a \<le> f x" using ex by blast
      have "card (A - {a}) \<le> k" using a(1) fin Cons.prems(4) Suc by simp
      then have "sum f (A - {a}) \<le> sum_list (map f (take k xs))" using Cons a(2) by simp
      then show ?thesis using a(1,3) fin Suc by (simp add: sum.remove [of A a])
    qed
  qed
qed

lemma by_specks_sorted: "sorted_wrt (\<lambda>a b. noteSpecks b \<le> noteSpecks a) (by_specks coins)"
proof -
  have "sorted (map (\<lambda>n. - noteSpecks n) (by_specks coins))" by (simp add: by_specks_def)
  then show ?thesis by (simp add: sorted_wrt_map)
qed

text \<open>A choice of notes on different free backings is worth no more than the best free notes.\<close>

lemma cover_le_free:
  assumes cs: "set cs \<subseteq> set coins" "distinct (map (backingKey sid) cs)" "length cs \<le> m"
    and free: "\<forall>n \<in> set cs. backingKey sid n \<notin> skip \<and> \<not> held_at st nw (backingKey sid n)"
  shows "sum_specks cs \<le> sum_specks (take m (free_notes sid skip st nw coins))"
proof -
  let ?F = "free_notes sid skip st nw coins" and ?P = "filter (\<lambda>n. 0 < noteSpecks n) cs"
  have "\<forall>n \<in> set ?P. \<exists>b. b \<in> set ?F \<and> backingKey sid b = backingKey sid n \<and> noteSpecks n \<le> noteSpecks b"
    using free_notes_ok(3) [of _ coins sid skip st nw] cs(1) free by (fastforce simp: Bex_def)
  then obtain g where g: "\<And>n. n \<in> set ?P \<Longrightarrow> g n \<in> set ?F \<and> backingKey sid (g n) = backingKey sid n \<and> noteSpecks n \<le> noteSpecks (g n)"
    by metis
  have inj: "inj_on g (set ?P)"
    using g cs(2) by (intro inj_onI) (metis distinct_map filter_is_subset inj_onD subsetD)
  have dist: "distinct cs" "distinct ?F" using cs(2) free_notes_ok(1) by (auto simp: distinct_map)
  have "sum_specks cs \<le> sum_specks ?P" unfolding sum_specks_def by (induction cs) auto
  also have "\<dots> = sum noteSpecks (set ?P)" unfolding sum_specks_def using dist(1) by (simp add: sum_list_distinct_conv_sum_set)
  also have "\<dots> \<le> sum (\<lambda>n. noteSpecks (g n)) (set ?P)" using g by (intro sum_mono) blast
  also have "\<dots> = sum noteSpecks (g ` set ?P)" using inj by (simp add: sum.reindex)
  also have "\<dots> \<le> sum_specks (take m ?F)"
    unfolding sum_specks_def
  proof (rule greedy_best)
    show "sorted_wrt (\<lambda>a b. noteSpecks b \<le> noteSpecks a) ?F" by (simp add: free_notes_def by_specks_sorted)
    show "\<forall>x \<in> set ?F. 0 \<le> noteSpecks x" using free_notes_ok(2) by (meson less_imp_le)
    show "g ` set ?P \<subseteq> set ?F" using g by blast
    have "card (g ` set ?P) \<le> length ?P" by (meson card_image_le card_length finite_set order_trans)
    then show "card (g ` set ?P) \<le> m" using cs(3) length_filter_le [of "\<lambda>n. 0 < noteSpecks n" cs] by linarith
    show "distinct ?F" by (rule dist(2))
  qed
  finally show ?thesis .
qed

lemma pick_complete:
  assumes "need \<le> sum_specks (take m (free_notes sid skip st nw coins))"
  obtains picked where "pickNotesAcrossBackings nw sid coins need m skip st = Some picked"
proof -
  let ?F = "free_notes sid skip st nw coins"
  obtain picked acc where r: "pick_until m need ?F [] 0 = (picked, acc)" by fastforce
  have "0 = sum_specks []" "length ([] :: jv list) \<le> m" by (simp_all add: sum_specks_def)
  from pick_prefix [OF r this] obtain k
    where k: "picked = take k ?F" "acc = sum_specks picked" "length picked \<le> m" "need \<le> acc \<or> length picked = m \<or> k = length ?F"
    by (elim exE conjE) (rule that, simp_all only: append_Nil)
  have "need \<le> acc"
  proof (rule ccontr)
    assume "\<not> need \<le> acc"
    then have "picked = take m ?F" using k by (auto simp: min_def split: if_splits)
    then show False using \<open>\<not> need \<le> acc\<close> k(2) assms by simp
  qed
  then show thesis using r that by (simp add: pickNotesAcrossBackings_def)
qed

section \<open>What granting a lease does to the table\<close>

lemma set_lock_get: "noteLocks (snd (set_lock k ex st)) k' = (if k' = k then Some \<lparr>lk_exp = ex, lk_token = noteLeaseSeq st + 1\<rparr> else noteLocks st k')"
  and set_lock_seq: "noteLeaseSeq (snd (set_lock k ex st)) = noteLeaseSeq st + 1"
  and set_lock_token: "fst (set_lock k ex st) = noteLeaseSeq st + 1"
  by (simp_all add: set_lock_def Let_def)

text \<open>What a grant of some backings up to a time has done: fresh tokens, the backings reserved, all else untouched.\<close>

definition granted :: "int \<Rightarrow> lease_part list \<Rightarrow> lock_table \<Rightarrow> lock_table \<Rightarrow> bool" where
  "granted ex parts st st' \<longleftrightarrow>
     distinct (map lp_token parts) \<and> distinct (map lp_key parts) \<and> noteLeaseSeq st \<le> noteLeaseSeq st'
     \<and> (\<forall>p \<in> set parts. noteLeaseSeq st < lp_token p \<and> lp_token p \<le> noteLeaseSeq st'
          \<and> noteLocks st' (lp_key p) = Some \<lparr>lk_exp = ex, lk_token = lp_token p\<rparr>)
     \<and> (\<forall>k. k \<notin> lp_key ` set parts \<longrightarrow> noteLocks st' k = noteLocks st k)"

lemma lock_all_granted:
  "distinct (map (backingKey sid) ns) \<Longrightarrow> lock_all sid ex ns st = (parts, st')
     \<Longrightarrow> granted ex parts st st' \<and> map lp_key parts = map (backingKey sid) ns"
proof (induction ns arbitrary: st parts)
  case Nil
  then show ?case by (simp add: granted_def)
next
  case (Cons n ns)
  let ?k = "backingKey sid n" and ?st1 = "snd (set_lock (backingKey sid n) ex st)"
  obtain ps where r: "lock_all sid ex ns ?st1 = (ps, st')" and parts: "parts = \<lparr>lp_key = ?k, lp_token = noteLeaseSeq st + 1\<rparr> # ps"
    using Cons.prems(2) set_lock_token [of ?k ex st] by (auto split: prod.splits)
  have g: "granted ex ps ?st1 st'" and ks: "map lp_key ps = map (backingKey sid) ns"
    using Cons.IH [OF _ r] Cons.prems(1) by simp_all
  have "?k \<notin> lp_key ` set ps"
    using Cons.prems(1) ks by (metis distinct.simps(2) list.set_map list.simps(9))
  then have "granted ex parts st st'" using g by (auto simp: granted_def parts set_lock_get set_lock_seq)
  then show ?case using ks by (simp add: parts)
qed

lemma tryLockBacking_granted:
  assumes "tryLockBacking nw sid coins need ttl skip st = (Some l, st')"
  shows "granted (nw + ttl) (dl_parts l) st st' \<and> (\<forall>p \<in> set (dl_parts l). \<not> held_at st nw (lp_key p) \<and> lp_key p \<notin> skip) \<and> length (dl_parts l) = 1"
proof -
  obtain n where f: "first_free sid skip st nw (by_specks (filter (\<lambda>n. need \<le> noteSpecks n) coins)) = Some n"
    using assms by (auto simp: tryLockBacking_def split: option.splits)
  have l: "dl_parts l = [\<lparr>lp_key = backingKey sid n, lp_token = noteLeaseSeq st + 1\<rparr>]" "st' = snd (set_lock (backingKey sid n) (nw + ttl) st)"
    using assms by (auto simp: tryLockBacking_def f set_lock_def Let_def)
  show ?thesis using first_free_Some [OF f] by (simp add: l granted_def set_lock_get set_lock_seq)
qed

lemma tryLockBacking_None:
  "fst (tryLockBacking nw sid coins need ttl skip st) = None \<Longrightarrow> tryLockBacking nw sid coins need ttl skip st = (None, st)"
  by (auto simp: tryLockBacking_def split: option.splits prod.splits)

lemma tryLockDust_granted:
  assumes "tryLockDust nw sid coins need ttl skip m st = (Some l, st')"
  shows "granted (nw + ttl) (dl_parts l) st st' \<and> (\<forall>p \<in> set (dl_parts l). \<not> held_at st nw (lp_key p) \<and> lp_key p \<notin> skip)
    \<and> length (dl_parts l) \<le> max 1 m"
proof (cases "tryLockBacking nw sid coins need ttl skip st")
  case (Pair ml s1)
  show ?thesis
  proof (cases ml)
    case (Some l1)
    then show ?thesis using assms Pair tryLockBacking_granted by (simp add: tryLockDust_def)
  next
    case None
    then have s1: "s1 = st" using Pair tryLockBacking_None [of nw sid coins need ttl skip st] by simp
    then obtain picked where p: "pickNotesAcrossBackings nw sid coins need m skip st = Some picked"
        and la: "lock_all sid (nw + ttl) picked st = (dl_parts l, st')"
      using assms Pair None by (auto simp: tryLockDust_def split: if_splits option.splits prod.splits)
    obtain k where k: "picked = take k (free_notes sid skip st nw coins)" "length picked \<le> m" using pickE [OF p] by blast
    have d: "distinct (map (backingKey sid) picked)" unfolding k(1) using free_notes_ok(1) by (simp add: take_map [symmetric] distinct_take)
    have g: "granted (nw + ttl) (dl_parts l) st st'" and ks: "map lp_key (dl_parts l) = map (backingKey sid) picked"
      using lock_all_granted [OF d la] by simp_all
    have "\<forall>p \<in> set (dl_parts l). lp_key p \<in> backingKey sid ` set picked" using ks by (metis image_eqI list.set_map)
    moreover have "\<forall>n \<in> set picked. \<not> held_at st nw (backingKey sid n) \<and> backingKey sid n \<notin> skip"
      using free_notes_ok(2) k(1) by (meson in_set_takeD)
    moreover have "length (dl_parts l) \<le> m" using ks k(2) by (metis length_map)
    ultimately show ?thesis using g by fastforce
  qed
qed

section \<open>The reservations over time\<close>

text \<open>
  The clock, the table, and the parts of leases that were granted and not released, each with the time
  its reservation is good for by its own account: the time to live after the grant or after the last
  renewal that came in time.
\<close>

record dust_world =
  dw_now :: int
  dw_table :: lock_table
  dw_held :: "(lease_part \<times> int) list"

definition renewed :: "string \<Rightarrow> nat \<Rightarrow> int \<Rightarrow> int \<Rightarrow> lease_part \<times> int \<Rightarrow> lease_part \<times> int" where
  "renewed key token ttl nw h =
     (if fst h = \<lparr>lp_key = key, lp_token = token\<rparr> \<and> nw < snd h then (fst h, nw + ttl) else h)"

text \<open>Time passes, any spend of any sponsor tries to reserve, any timer ticks, any lease is released, late or not.\<close>

inductive dust_step :: "dust_world \<Rightarrow> dust_world \<Rightarrow> bool" where
  Tick: "dw_now w \<le> t \<Longrightarrow> dust_step w (w\<lparr>dw_now := t\<rparr>)"
| Grant: "tryLockDust (dw_now w) sid coins need ttl skip m (dw_table w) = (Some l, st')
    \<Longrightarrow> dust_step w (w\<lparr>dw_table := st', dw_held := map (\<lambda>p. (p, dw_now w + ttl)) (dl_parts l) @ dw_held w\<rparr>)"
| Refuse: "tryLockDust (dw_now w) sid coins need ttl skip m (dw_table w) = (None, st') \<Longrightarrow> dust_step w (w\<lparr>dw_table := st'\<rparr>)"
| Renew: "dust_step w (w\<lparr>dw_table := renew key token ttl (dw_now w) (dw_table w), dw_held := map (renewed key token ttl (dw_now w)) (dw_held w)\<rparr>)"
| Release: "dust_step w (w\<lparr>dw_table := releaseLease l (dw_table w), dw_held := filter (\<lambda>h. fst h \<notin> set (dl_parts l)) (dw_held w)\<rparr>)"

inductive dust_reach :: "dust_world \<Rightarrow> bool" where
  Start: "dust_reach \<lparr>dw_now = t, dw_table = \<lparr>noteLocks = Map.empty, noteLeaseSeq = 0\<rparr>, dw_held = []\<rparr>"
| Step: "dust_reach w \<Longrightarrow> dust_step w w' \<Longrightarrow> dust_reach w'"

definition dust_inv :: "dust_world \<Rightarrow> bool" where
  "dust_inv w \<longleftrightarrow> distinct (map (lp_token \<circ> fst) (dw_held w))
     \<and> (\<forall>(p, u) \<in> set (dw_held w). lp_token p \<le> noteLeaseSeq (dw_table w)
          \<and> (dw_now w < u \<longrightarrow> (\<exists>l. noteLocks (dw_table w) (lp_key p) = Some l \<and> lk_token l = lp_token p \<and> u \<le> lk_exp l)))"

lemma releaseNote_get: "noteLocks (releaseNote k t st) k' = (if k' = k \<and> map_option lk_token (noteLocks st k) = Some t then None else noteLocks st k')"
  and releaseNote_seq [simp]: "noteLeaseSeq (releaseNote k t st) = noteLeaseSeq st"
  by (auto simp: releaseNote_def split: option.splits)

lemma renew_get: "noteLocks (renew k t ttl nw st) k'
     = (if k' = k \<and> map_option lk_token (noteLocks st k) = Some t then map_option (\<lambda>l. l\<lparr>lk_exp := nw + ttl\<rparr>) (noteLocks st k) else noteLocks st k')"
  and renew_seq [simp]: "noteLeaseSeq (renew k t ttl nw st) = noteLeaseSeq st"
  by (auto simp: renew_def split: option.splits)

text \<open>Releasing a lease leaves the reservations of all other parts as they are.\<close>

lemma releaseLease_other:
  assumes "noteLocks st (lp_key p) = Some l" "lk_token l = lp_token p" "p \<notin> set (dl_parts ls)"
  shows "noteLocks (releaseLease ls st) (lp_key p) = Some l \<and> noteLeaseSeq (releaseLease ls st) = noteLeaseSeq st"
proof -
  have "noteLocks (fold (\<lambda>p. releaseNote (lp_key p) (lp_token p)) ps st) (lp_key p) = Some l
      \<and> noteLeaseSeq (fold (\<lambda>p. releaseNote (lp_key p) (lp_token p)) ps st) = noteLeaseSeq st" if "p \<notin> set ps" for ps
    using that assms(1,2)
  proof (induction ps arbitrary: st)
    case (Cons q ps)
    have "\<not> (lp_key p = lp_key q \<and> lp_token p = lp_token q)" using Cons(2) by (auto intro: lease_part.equality)
    then have "noteLocks (releaseNote (lp_key q) (lp_token q) st) (lp_key p) = Some l" using Cons(3,4) by (auto simp: releaseNote_get)
    then show ?case using Cons(1) [of "releaseNote (lp_key q) (lp_token q) st"] Cons(2,4) by simp
  qed simp
  then show ?thesis using assms(3) by (simp add: releaseLease_def)
qed

lemma releaseLease_seq: "noteLeaseSeq (releaseLease ls st) = noteLeaseSeq st"
proof -
  have "noteLeaseSeq (fold (\<lambda>p. releaseNote (lp_key p) (lp_token p)) ps st) = noteLeaseSeq st" for ps
    by (induction ps arbitrary: st) simp_all
  then show ?thesis by (simp add: releaseLease_def)
qed

lemma grant_keeps:
  assumes inv: "dust_inv w" and g: "tryLockDust (dw_now w) sid coins need ttl skip m (dw_table w) = (Some l, st')"
  shows "dust_inv (w\<lparr>dw_table := st', dw_held := map (\<lambda>p. (p, dw_now w + ttl)) (dl_parts l) @ dw_held w\<rparr>)"
proof -
  have gr: "granted (dw_now w + ttl) (dl_parts l) (dw_table w) st'" and free: "\<forall>p \<in> set (dl_parts l). \<not> held_at (dw_table w) (dw_now w) (lp_key p)"
    using tryLockDust_granted [OF g] by blast+
  have "\<exists>lk. noteLocks st' (lp_key p) = Some lk \<and> lk_token lk = lp_token p \<and> u \<le> lk_exp lk"
    if p: "(p, u) \<in> set (dw_held w)" "dw_now w < u" for p u
  proof -
    obtain lk where lk: "noteLocks (dw_table w) (lp_key p) = Some lk" "lk_token lk = lp_token p" "u \<le> lk_exp lk"
      using inv p by (fastforce simp: dust_inv_def)
    then have "held_at (dw_table w) (dw_now w) (lp_key p)" using p(2) by (simp add: held_at_def)
    then have "lp_key p \<notin> lp_key ` set (dl_parts l)" using free by auto
    then show ?thesis using gr lk by (simp add: granted_def)
  qed
  moreover have "(lp_token \<circ> fst) ` set (dw_held w) \<inter> lp_token ` set (dl_parts l) = {}"
    using inv gr by (fastforce simp: dust_inv_def granted_def)
  ultimately show ?thesis using inv gr by (fastforce simp: dust_inv_def granted_def comp_def)
qed

lemma renewed_fst: "fst (renewed k t ttl nw h) = fst h"
  by (simp add: renewed_def)

lemma dust_step_inv:
  assumes "dust_step w w'" "dust_inv w"
  shows "dust_inv w'"
  using assms
proof (induction rule: dust_step.induct)
  case (Tick w t)
  then show ?case by (fastforce simp: dust_inv_def)
next
  case (Grant w sid coins need ttl skip m l st')
  then show ?case using grant_keeps by blast
next
  case (Refuse w sid coins need ttl skip m st')
  have "st' = dw_table w"
    using Refuse(1) tryLockBacking_None [of "dw_now w" sid coins need ttl skip "dw_table w"]
    by (auto simp: tryLockDust_def split: prod.splits option.splits if_splits)
  then show ?case using Refuse(2) by (simp add: dust_inv_def)
next
  case (Renew w key token ttl)
  have "\<exists>l. noteLocks (renew key token ttl (dw_now w) (dw_table w)) (lp_key (fst h)) = Some l \<and> lk_token l = lp_token (fst h)
      \<and> snd (renewed key token ttl (dw_now w) h) \<le> lk_exp l"
    if h: "h \<in> set (dw_held w)" "dw_now w < snd (renewed key token ttl (dw_now w) h)" for h
  proof -
    have "dw_now w < snd h" using h(2) by (auto simp: renewed_def split: if_splits)
    then obtain l where l: "noteLocks (dw_table w) (lp_key (fst h)) = Some l" "lk_token l = lp_token (fst h)" "snd h \<le> lk_exp l"
      using Renew h(1) by (fastforce simp: dust_inv_def)
    show ?thesis
    proof (cases "fst h = \<lparr>lp_key = key, lp_token = token\<rparr>")
      case True
      then show ?thesis using l \<open>dw_now w < snd h\<close> by (simp add: renew_get renewed_def)
    next
      case False
      then have "\<not> (lp_key (fst h) = key \<and> lp_token (fst h) = token)" by (auto intro: lease_part.equality)
      then show ?thesis using l False by (auto simp: renew_get renewed_def)
    qed
  qed
  note live = this
  have "distinct (map (lp_token \<circ> fst) (map (renewed key token ttl (dw_now w)) (dw_held w)))"
    using Renew by (simp add: dust_inv_def renewed_fst comp_def)
  moreover have "lp_token (fst h) \<le> noteLeaseSeq (dw_table w)" if "h \<in> set (dw_held w)" for h
    using Renew that by (auto simp: dust_inv_def)
  ultimately show ?case using live by (simp add: dust_inv_def renewed_fst split_beta)
next
  case (Release w l)
  have "distinct (map (lp_token \<circ> fst) (filter (\<lambda>h. fst h \<notin> set (dl_parts l)) (dw_held w)))"
    using Release by (simp add: dust_inv_def distinct_map_filter)
  moreover have "\<exists>lk. noteLocks (releaseLease l (dw_table w)) (lp_key p) = Some lk \<and> lk_token lk = lp_token p \<and> u \<le> lk_exp lk"
    if p: "(p, u) \<in> set (dw_held w)" "p \<notin> set (dl_parts l)" "dw_now w < u" for p u
  proof -
    obtain lk where lk: "noteLocks (dw_table w) (lp_key p) = Some lk" "lk_token lk = lp_token p" "u \<le> lk_exp lk"
      using Release p(1,3) by (fastforce simp: dust_inv_def)
    then show ?thesis using releaseLease_other [OF lk(1,2) p(2)] by auto
  qed
  ultimately show ?case using Release by (auto simp: dust_inv_def releaseLease_seq)
qed

lemma dust_reach_inv: "dust_reach w \<Longrightarrow> dust_inv w"
  by (induction rule: dust_reach.induct) (auto simp: dust_inv_def [of "\<lparr>dw_now = _, dw_table = _, dw_held = _\<rparr>"] intro: dust_step_inv)

lemma nth_map_distinct: "distinct (map f xs) \<Longrightarrow> i < length xs \<Longrightarrow> j < length xs \<Longrightarrow> i \<noteq> j \<Longrightarrow> f (xs ! i) \<noteq> f (xs ! j)"
  by (metis distinct_conv_nth length_map nth_map)

text \<open>
  C18. However spends, renewals, late releases and the clock interleave, a granted part whose time is
  not over still owns its backing in the table, and no two such parts are on the same backing: a backing is
  never reserved by two spends at once.
\<close>

theorem dust_exclusive:
  assumes "dust_reach w" "i < length (dw_held w)" "j < length (dw_held w)" "i \<noteq> j"
    and "dw_now w < snd (dw_held w ! i)" "dw_now w < snd (dw_held w ! j)"
  shows "map_option lk_token (noteLocks (dw_table w) (lp_key (fst (dw_held w ! i)))) = Some (lp_token (fst (dw_held w ! i)))
    \<and> lp_key (fst (dw_held w ! i)) \<noteq> lp_key (fst (dw_held w ! j))"
proof -
  have inv: "dust_inv w" by (rule dust_reach_inv [OF assms(1)])
  have owns: "map_option lk_token (noteLocks (dw_table w) (lp_key (fst (dw_held w ! k)))) = Some (lp_token (fst (dw_held w ! k)))"
    if k: "k < length (dw_held w)" "dw_now w < snd (dw_held w ! k)" for k
    using inv k nth_mem [OF k(1)] by (cases "dw_held w ! k") (fastforce simp: dust_inv_def)
  have "lp_token (fst (dw_held w ! i)) \<noteq> lp_token (fst (dw_held w ! j))"
    using nth_map_distinct [of "lp_token \<circ> fst" "dw_held w" i j] inv assms(2-4) by (simp add: dust_inv_def)
  then show ?thesis using owns [OF assms(2,5)] owns [OF assms(3,6)] by auto
qed

text \<open>Two sponsor notes on two backings, one of five and one of four specks.\<close>

definition note_of :: "string \<Rightarrow> int \<Rightarrow> jv" where
  "note_of b n = VObj ''Object'' [(''generatedNow'', VBig n), (''token'', VObj ''Object'' [(''backingNight'', VStr b), (''nonce'', VStr b)])]"

definition two_notes :: "jv list" where
  "two_notes = [note_of ''aa'' 5, note_of ''bb'' 4]"

definition empty_locks :: lock_table where
  "empty_locks = \<lparr>noteLocks = Map.empty, noteLeaseSeq = 0\<rparr>"

lemma two_notes_keys: "backingKey ''s'' (note_of b n) = ''s|'' @ b" "noteSpecks (note_of b n) = n"
  by (simp_all add: backingKey_def backing_text_def note_of_def noteSpecks_def jprop_def v_nullish_def Let_def)

lemma first_grant:
  "tryLockDust 0 ''s'' two_notes 5 100 {} 1 empty_locks
     = (Some \<lparr>dl_parts = [\<lparr>lp_key = ''s|aa'', lp_token = 1\<rparr>], dl_backing = ''aa''\<rparr>,
        \<lparr>noteLocks = [''s|aa'' \<mapsto> \<lparr>lk_exp = 100, lk_token = 1\<rparr>], noteLeaseSeq = 1\<rparr>)"
  by (simp add: tryLockDust_def tryLockBacking_def two_notes_def two_notes_keys first_free_def by_specks_def held_at_def
      empty_locks_def set_lock_def Let_def) (simp add: note_of_def backing_text_def jprop_def v_nullish_def Let_def eval_nat_numeral)

lemma second_grant:
  "tryLockDust 0 ''s'' two_notes 4 100 {} 1 \<lparr>noteLocks = [''s|aa'' \<mapsto> \<lparr>lk_exp = 100, lk_token = 1\<rparr>], noteLeaseSeq = 1\<rparr>
     = (Some \<lparr>dl_parts = [\<lparr>lp_key = ''s|bb'', lp_token = 2\<rparr>], dl_backing = ''bb''\<rparr>,
        \<lparr>noteLocks = [''s|aa'' \<mapsto> \<lparr>lk_exp = 100, lk_token = 1\<rparr>, ''s|bb'' \<mapsto> \<lparr>lk_exp = 100, lk_token = 2\<rparr>], noteLeaseSeq = 2\<rparr>)"
  by (simp add: tryLockDust_def tryLockBacking_def two_notes_def two_notes_keys first_free_def by_specks_def held_at_def
      set_lock_def Let_def) (simp add: note_of_def backing_text_def jprop_def v_nullish_def Let_def eval_nat_numeral)

definition two_leases :: dust_world where
  "two_leases = \<lparr>dw_now = 0,
     dw_table = \<lparr>noteLocks = [''s|aa'' \<mapsto> \<lparr>lk_exp = 100, lk_token = 1\<rparr>, ''s|bb'' \<mapsto> \<lparr>lk_exp = 100, lk_token = 2\<rparr>], noteLeaseSeq = 2\<rparr>,
     dw_held = [(\<lparr>lp_key = ''s|bb'', lp_token = 2\<rparr>, 100), (\<lparr>lp_key = ''s|aa'', lp_token = 1\<rparr>, 100)]\<rparr>"

lemma two_leases_reach: "dust_reach two_leases"
proof -
  have 0: "dust_reach \<lparr>dw_now = 0, dw_table = empty_locks, dw_held = []\<rparr>" unfolding empty_locks_def by (rule Start)
  have 1: "dust_reach \<lparr>dw_now = 0, dw_table = \<lparr>noteLocks = [''s|aa'' \<mapsto> \<lparr>lk_exp = 100, lk_token = 1\<rparr>], noteLeaseSeq = 1\<rparr>,
      dw_held = [(\<lparr>lp_key = ''s|aa'', lp_token = 1\<rparr>, 100)]\<rparr>"
    using Step [OF 0 Grant, of "''s''" two_notes 5 100 "{}" 1] first_grant by simp
  show ?thesis
    using Step [OF 1 Grant, of "''s''" two_notes 4 100 "{}" 1] second_grant by (simp add: two_leases_def)
qed

lemma dust_exclusive_witness:
  "map_option lk_token (noteLocks (dw_table two_leases) (lp_key (fst (dw_held two_leases ! 0)))) = Some 2
     \<and> lp_key (fst (dw_held two_leases ! 0)) \<noteq> lp_key (fst (dw_held two_leases ! 1))"
  using dust_exclusive [of two_leases 0 1] two_leases_reach by (simp add: two_leases_def)

text \<open>
  When some choice of at most \<open>m\<close> notes on different free backings covers the fee, and no note that
  covers it alone is busy, a reservation is granted: of free backings no two of which are the same, at most
  \<open>m\<close> of them, each reserved for the whole time to live, with every other reservation untouched.
\<close>

theorem dust_cover_found:
  assumes "set cs \<subseteq> set coins" "distinct (map (backingKey sid) cs)" "length cs \<le> m" "need \<le> sum_specks cs" "2 \<le> m"
    and "\<forall>n \<in> set cs. backingKey sid n \<notin> skip \<and> \<not> held_at st nw (backingKey sid n)"
    and "\<forall>n \<in> set coins. need \<le> noteSpecks n \<and> held_at st nw (backingKey sid n) \<longrightarrow> backingKey sid n \<in> skip"
  shows "\<exists>l st'. tryLockDust nw sid coins need ttl skip m st = (Some l, st')
    \<and> granted (nw + ttl) (dl_parts l) st st' \<and> length (dl_parts l) \<le> m
    \<and> (\<forall>p \<in> set (dl_parts l). \<not> held_at st nw (lp_key p) \<and> lp_key p \<notin> skip)"
proof -
  have "\<exists>l st'. tryLockDust nw sid coins need ttl skip m st = (Some l, st')"
  proof (cases "fst (tryLockBacking nw sid coins need ttl skip st)")
    case (Some l)
    then show ?thesis by (cases "tryLockBacking nw sid coins need ttl skip st") (simp add: tryLockDust_def)
  next
    case None
    then have r: "tryLockBacking nw sid coins need ttl skip st = (None, st)" by (rule tryLockBacking_None)
    then have "first_free sid skip st nw (by_specks (filter (\<lambda>n. need \<le> noteSpecks n) coins)) = None"
      by (auto simp: tryLockBacking_def split: option.splits prod.splits)
    then have "\<not> list_ex (\<lambda>n. need \<le> noteSpecks n \<and> backingKey sid n \<notin> skip) coins"
      using assms(7) by (auto simp: first_free_def find_None_iff list_ex_iff)
    moreover obtain picked where "pickNotesAcrossBackings nw sid coins need m skip st = Some picked"
      using pick_complete [of need m sid skip st nw coins] cover_le_free [OF assms(1,2,3,6)] assms(4) by auto
    ultimately show ?thesis using r assms(5) by (auto simp: tryLockDust_def split: prod.splits)
  qed
  then obtain l st' where g: "tryLockDust nw sid coins need ttl skip m st = (Some l, st')" by blast
  have "length (dl_parts l) \<le> m" using tryLockDust_granted [OF g] assms(5) by simp
  then show ?thesis using g tryLockDust_granted [OF g] by simp
qed

lemma dust_cover_found_witness:
  "(\<exists>l st'. tryLockDust 0 ''s'' two_notes 8 100 {} 2 empty_locks = (Some l, st') \<and> granted 100 (dl_parts l) empty_locks st' \<and> length (dl_parts l) \<le> 2)
     \<and> \<not> noteSpecks (two_notes ! 0) \<ge> 8"
  using dust_cover_found [of two_notes two_notes "''s''" 2 8 "{}" empty_locks 0 100]
  by (auto simp: two_notes_def two_notes_keys sum_specks_def held_at_def empty_locks_def)

section \<open>The spend pays the fee from the reserved backings\<close>

lemma inputs_sum: "\<forall>n \<in> set ns. 0 \<le> noteSpecks n \<Longrightarrow> 0 \<le> left \<Longrightarrow> sum_list (map snd (dustSpendInputs ns left)) = min left (sum_specks ns)"
proof (induction ns arbitrary: left)
  case Nil
  then show ?case by (simp add: sum_specks_def)
next
  case (Cons n ns)
  have nn: "0 \<le> sum_list (map noteSpecks ns)" using Cons(2) by (intro sum_list_nonneg) auto
  show ?case using Cons(1) [of "left - (if noteSpecks n < left then noteSpecks n else left)"] Cons(2,3) nn
    by (auto simp: sum_specks_def Let_def)
qed

text \<open>Each input is a note of its own with at most that note's dust.\<close>

lemma inputs_from_notes: "\<forall>n \<in> set ns. 0 \<le> noteSpecks n
    \<Longrightarrow> list_all2 (\<lambda>i n. fst i = jprop n ''token'' \<and> 0 \<le> snd i \<and> snd i \<le> noteSpecks n) (dustSpendInputs ns left) (take (length (dustSpendInputs ns left)) ns)"
  by (induction ns arbitrary: left) (auto simp: Let_def)

lemma bestOn_step:
  "fold (\<lambda>n m. case m of None \<Rightarrow> Some n | Some b \<Rightarrow> if noteSpecks b < noteSpecks n then Some n else Some b) ns m = Some r \<Longrightarrow> r \<in> set ns \<or> m = Some r"
  by (induction ns arbitrary: m) (fastforce split: option.splits if_splits)+

lemma bestOn_mem: "bestOn sid fresh key = Some n \<Longrightarrow> n \<in> set fresh \<and> backingKey sid n = key"
  unfolding bestOn_def by (drule bestOn_step) auto

lemma spend_notes_on_parts:
  assumes "spend_notes sid lease fresh need = Inr ns"
  shows "map (backingKey sid) ns = map lp_key (dl_parts lease) \<and> set ns \<subseteq> set fresh"
proof -
  have best: "\<forall>p \<in> set ps. \<exists>n. bestOn sid fresh (lp_key p) = Some n
      \<Longrightarrow> map (backingKey sid) (map (\<lambda>p. the (bestOn sid fresh (lp_key p))) ps) = map lp_key ps
        \<and> set (map (\<lambda>p. the (bestOn sid fresh (lp_key p))) ps) \<subseteq> set fresh" for ps
    using bestOn_mem by fastforce
  have many: ?thesis if "\<forall>p. dl_parts lease \<noteq> [p]"
  proof -
    have "filter (\<lambda>p. bestOn sid fresh (lp_key p) = None) (dl_parts lease) = [] \<and> ns = map (\<lambda>p. the (bestOn sid fresh (lp_key p))) (dl_parts lease)"
      using assms that by (auto simp: spend_notes_def Let_def split: list.splits if_splits)
    then show ?thesis using best [of "dl_parts lease"] by (auto simp: filter_empty_conv)
  qed
  show ?thesis
  proof (cases "\<exists>p. dl_parts lease = [p]")
    case True
    then show ?thesis using assms by (auto simp: spend_notes_def sufficientNoteOnBacking_def find_Some_iff split: option.splits)
  qed (use many in blast)
qed

lemma price_rounds_pays:
  "price_rounds b ns fee r target = Inr t \<Longrightarrow> target \<le> t \<and> t \<le> sum_specks ns"
proof (induction b ns fee r target rule: price_rounds.induct)
  case (1 b ns fee r target)
  from 1(2) show ?case
    using 1(1) by (subst (asm) price_rounds.simps) (fastforce split: if_splits option.splits)
qed

text \<open>
  A dust spend that is built pays exactly what it was priced at, which is at least the fee asked for;
  each input takes a note on a reserved backing, one per backing, and never more than the note holds.
\<close>

theorem dust_spend_pays:
  assumes "buildDustSpend sid lease fresh need fee = Inr spend" "0 \<le> need" "\<forall>n \<in> set fresh. 0 \<le> noteSpecks n"
  shows "need \<le> sum_list (map snd (ds_inputs spend))
    \<and> (\<exists>ns. set ns \<subseteq> set fresh \<and> (\<exists>k. map (backingKey sid) ns = take k (map lp_key (dl_parts lease)))
         \<and> list_all2 (\<lambda>i n. fst i = jprop n ''token'' \<and> 0 \<le> snd i \<and> snd i \<le> noteSpecks n) (ds_inputs spend) ns)"
proof -
  obtain ns target where n: "spend_notes sid lease fresh need = Inr ns" and t: "price_rounds (dl_backing lease) ns (fee ns) 0 need = Inr target"
      and s: "ds_inputs spend = dustSpendInputs ns target"
    using assms(1) by (auto simp: buildDustSpend_def check_then_Inr)
  have on: "map (backingKey sid) ns = map lp_key (dl_parts lease)" "set ns \<subseteq> set fresh" using spend_notes_on_parts [OF n] by simp_all
  have nn: "\<forall>n \<in> set ns. 0 \<le> noteSpecks n" using on(2) assms(3) by blast
  have tgt: "need \<le> target" "target \<le> sum_specks ns" using price_rounds_pays [OF t] by simp_all
  have "sum_list (map snd (ds_inputs spend)) = target" using inputs_sum [OF nn, of target] tgt assms(2) s by simp
  moreover have "map (backingKey sid) (take k ns) = take k (map lp_key (dl_parts lease))" for k using on(1) by (metis take_map)
  moreover have "set (take k ns) \<subseteq> set fresh" for k using on(2) by (meson in_set_takeD subsetD subsetI)
  ultimately show ?thesis
    using tgt(1) inputs_from_notes [OF nn, of target] unfolding s
    by (intro conjI exI [of _ "take (length (dustSpendInputs ns target)) ns"] exI [of _ "length (dustSpendInputs ns target)"]) simp_all
qed

definition two_parts :: dust_lease where
  "two_parts = \<lparr>dl_parts = [\<lparr>lp_key = ''s|aa'', lp_token = 1\<rparr>, \<lparr>lp_key = ''s|bb'', lp_token = 2\<rparr>], dl_backing = ''aa+bb''\<rparr>"

lemma two_parts_spend:
  "buildDustSpend ''s'' two_parts two_notes 8 (\<lambda>ns t. Some 9) = Inr \<lparr>ds_inputs = [(jprop (note_of ''aa'' 5) ''token'', 5), (jprop (note_of ''bb'' 4) ''token'', 4)], ds_spentNonces = [''aa'', ''bb'']\<rparr>"
  by code_simp

lemma dust_spend_pays_witness:
  "8 \<le> sum_list (map snd [(jprop (note_of ''aa'' 5) ''token'', 5), (jprop (note_of ''bb'' 4) ''token'', 4 :: int)])"
  using dust_spend_pays [OF two_parts_spend] by (simp add: two_notes_def two_notes_keys)

end
