(* ===== verification/Instance_Lease.thy ===== *)
theory Instance_Lease
  imports Db_Retry
begin

text \<open>
  The lease that lets one process per database run the background work (\<^verbatim>\<open>srv/utils/instance-lease.ts\<close>)
  and the gate that refuses writes in a process that lost it (\<^verbatim>\<open>srv/utils/runtime-gate.ts\<close>). The lease is a row
  of the database shared by all processes; each statement is atomic, and other processes run statements in
  between. Times are milliseconds; the stored timestamps have a fixed form, so they compare as their times.
\<close>

section \<open>The row and its statements\<close>

record instance_lease =
  il_role :: string
  il_instanceId :: "string option"
  il_acquiredAt :: "int option"
  il_heartbeatAt :: "int option"

type_synonym lease_rows = "instance_lease list"

definition BACKGROUND_LEASE_ROLE :: string where
  "BACKGROUND_LEASE_ROLE = ''background''"

definition own_lease :: "string \<Rightarrow> string \<Rightarrow> instance_lease \<Rightarrow> bool" where
  "own_lease role holder r \<longleftrightarrow> il_role r = role \<and> il_instanceId r = Some holder"

definition stale_lease :: "string \<Rightarrow> int \<Rightarrow> instance_lease \<Rightarrow> bool" where
  "stale_lease role before r \<longleftrightarrow> il_role r = role \<and> (case il_heartbeatAt r of Some t \<Rightarrow> t < before | None \<Rightarrow> False)"

definition beat_stmt :: "string \<Rightarrow> string \<Rightarrow> int \<Rightarrow> lease_rows \<Rightarrow> nat \<times> lease_rows" where
  "beat_stmt role holder nw = update_where (own_lease role holder) (\<lambda>r. r\<lparr>il_heartbeatAt := Some nw\<rparr>)"

definition takeover_stmt :: "string \<Rightarrow> string \<Rightarrow> int \<Rightarrow> int \<Rightarrow> lease_rows \<Rightarrow> nat \<times> lease_rows" where
  "takeover_stmt role holder ttlMs nw =
     update_where (stale_lease role (nw - ttlMs))
       (\<lambda>r. r\<lparr>il_instanceId := Some holder, il_acquiredAt := Some nw, il_heartbeatAt := Some nw\<rparr>)"

definition lease_exists :: js_error where
  "lease_exists = \<lparr>err_code = ''UNIQUE_CONSTRAINT_VIOLATION'', err_message = ''UNIQUE constraint failed''\<rparr>"

definition insert_stmt :: "string \<Rightarrow> string \<Rightarrow> int \<Rightarrow> lease_rows \<Rightarrow> lease_rows result" where
  "insert_stmt role holder nw rows =
     (if list_ex (\<lambda>r. il_role r = role) rows then Inl lease_exists
      else Inr (rows @ [\<lparr>il_role = role, il_instanceId = Some holder, il_acquiredAt = Some nw, il_heartbeatAt = Some nw\<rparr>]))"

definition releaseInstanceLease :: "string \<Rightarrow> string \<Rightarrow> lease_rows \<Rightarrow> lease_rows" where
  "releaseInstanceLease role holder = filter (\<lambda>r. \<not> own_lease role holder r)"

definition renewInstanceLease :: "string \<Rightarrow> string \<Rightarrow> int \<Rightarrow> lease_rows \<Rightarrow> bool \<times> lease_rows" where
  "renewInstanceLease role holder nw rows = (case beat_stmt role holder nw rows of (n, rows') \<Rightarrow> (0 < n, rows'))"

section \<open>Taking the lease\<close>

datatype lease_attempt = Acquired | HeldBy string int

definition held_attempt :: "int \<Rightarrow> instance_lease \<Rightarrow> lease_attempt" where
  "held_attempt nw r =
     HeldBy (case il_instanceId r of Some i \<Rightarrow> i | None \<Rightarrow> ''null'') (case il_heartbeatAt r of Some t \<Rightarrow> max 0 (nw - t) | None \<Rightarrow> 0)"

text \<open>\<open>gap k\<close> is what other processes do to the table between this attempt's statements.\<close>

function tryAcquireInstanceLease ::
    "(nat \<Rightarrow> lease_rows \<Rightarrow> lease_rows) \<Rightarrow> string \<Rightarrow> string \<Rightarrow> int \<Rightarrow> int \<Rightarrow> bool \<Rightarrow> lease_rows \<Rightarrow> lease_attempt result \<times> lease_rows" where
  "tryAcquireInstanceLease gap role holder ttlMs nw afterInsertRace rows =
     (let (n1, rows1) = beat_stmt role holder nw rows in
      if 0 < n1 then (Inr Acquired, rows1)
      else
        (let (n2, rows2) = takeover_stmt role holder ttlMs nw (gap 0 rows1) in
         if 0 < n2 then (Inr Acquired, rows2)
         else
           (let rows3 = gap 1 rows2 in
            case select_one (\<lambda>r. il_role r = role) rows3 of
              Some r \<Rightarrow> (Inr (held_attempt nw r), rows3)
            | None \<Rightarrow>
                (case insert_stmt role holder nw (gap 2 rows3) of
                   Inr rows4 \<Rightarrow> (Inr Acquired, rows4)
                 | Inl e \<Rightarrow>
                     if \<not> isUniqueViolation e \<or> afterInsertRace then (Inl e, gap 2 rows3)
                     else tryAcquireInstanceLease (\<lambda>k. gap (k + 4)) role holder ttlMs nw True (gap 3 (gap 2 rows3))))))"
  by pat_completeness auto
termination
  by (relation "measure (\<lambda>(gap, role, holder, ttlMs, nw, raced, rows). if raced then 0 else 1)") auto

declare tryAcquireInstanceLease.simps [simp del]

text \<open>
  The wait at startup. Each look is the time of its attempt, the time after it, and the other
  processes' statements before and within it.
\<close>

record lease_look =
  ll_now :: int
  ll_after :: int
  ll_gap :: "nat \<Rightarrow> lease_rows \<Rightarrow> lease_rows"
  ll_before :: "lease_rows \<Rightarrow> lease_rows"

datatype startup_wait = LeaseTaken | LeaseHeld string int | LeaseFailed js_error | LeaseWaiting

fun acquireInstanceLease :: "string \<Rightarrow> string \<Rightarrow> int \<Rightarrow> int option \<Rightarrow> lease_look list \<Rightarrow> lease_rows \<Rightarrow> startup_wait \<times> lease_rows" where
  "acquireInstanceLease role holder ttlMs deadline [] rows = (LeaseWaiting, rows)"
| "acquireInstanceLease role holder ttlMs deadline (l # ls) rows =
     (case tryAcquireInstanceLease (ll_gap l) role holder ttlMs (ll_now l) False (ll_before l rows) of
        (Inl e, rows') \<Rightarrow> (LeaseFailed e, rows')
      | (Inr Acquired, rows') \<Rightarrow> (LeaseTaken, rows')
      | (Inr (HeldBy other age), rows') \<Rightarrow>
          (let dl = (case deadline of Some d \<Rightarrow> d | None \<Rightarrow> ll_after l + ttlMs) in
           if dl \<le> ll_after l then (LeaseHeld other age, rows')
           else acquireInstanceLease role holder ttlMs (Some dl) ls rows'))"

definition poll_wait :: "int option \<Rightarrow> int \<Rightarrow> int \<Rightarrow> int \<Rightarrow> int" where
  "poll_wait pollMs ttlMs deadline nw =
     min (case pollMs of Some p \<Rightarrow> p | None \<Rightarrow> max 1000 (ttlMs div 6)) (deadline - nw)"

section \<open>The process\<close>

record lease_proc =
  activeLease :: "(string \<times> string) option"
  fenced :: bool

definition setActiveLease :: "string \<Rightarrow> string \<Rightarrow> lease_proc \<Rightarrow> lease_proc" where
  "setActiveLease role holder p = p\<lparr>activeLease := Some (role, holder), fenced := False\<rparr>"

definition clearActiveLease :: "lease_proc \<Rightarrow> lease_proc" where
  "clearActiveLease p = p\<lparr>activeLease := None\<rparr>"

definition fenceBackgroundWork :: "lease_proc \<Rightarrow> lease_proc" where
  "fenceBackgroundWork p = p\<lparr>fenced := True\<rparr>"

definition isBackgroundFenced :: "lease_proc \<Rightarrow> bool" where
  "isBackgroundFenced p = fenced p"

definition leaseLostError :: js_error where
  "leaseLostError = \<lparr>err_code = ''INSTANCE_LEASE_HELD'',
     err_message = ''this process lost the instance lease to another NIGHTGATE process on the same database; nothing was broadcast''\<rparr>"

definition assertLeaseHeld :: "lease_rows \<Rightarrow> lease_proc \<Rightarrow> unit result \<times> lease_proc" where
  "assertLeaseHeld rows p =
     (if fenced p then (Inl leaseLostError, p)
      else case activeLease p of
        None \<Rightarrow> (Inr (), p)
      | Some (role, holder) \<Rightarrow>
          if (case select_one (\<lambda>r. il_role r = role) rows of Some r \<Rightarrow> il_instanceId r = Some holder | None \<Rightarrow> False)
          then (Inr (), p) else (Inl leaseLostError, p\<lparr>fenced := True\<rparr>))"

text \<open>One tick of the heartbeat: a process whose row is gone fences itself and stops ticking.\<close>

definition heartbeat_tick :: "string \<Rightarrow> string \<Rightarrow> int \<Rightarrow> bool \<Rightarrow> lease_rows \<Rightarrow> lease_proc \<Rightarrow> bool \<times> lease_rows \<times> lease_proc" where
  "heartbeat_tick role holder nw stopped rows p =
     (case renewInstanceLease role holder nw rows of
        (ok, rows') \<Rightarrow> if \<not> ok \<and> \<not> stopped then (True, rows', fenceBackgroundWork p) else (stopped, rows', p))"

section \<open>The gate for writes\<close>

datatype runtime_mode = ModeIdle | ModeActive | ModeOffline

record runtime_state =
  rs_initialized :: bool
  rs_mode :: runtime_mode

definition RUNTIME_FREE_ACTIONS :: "string list" where
  "RUNTIME_FREE_ACTIONS =
     [''prepareDocumentProof'', ''prepareMembershipSet'', ''deriveWalletInfo'', ''getJobStatus'',
      ''registerGranteeIdentity'', ''createAgentGrant'', ''revokeAgentGrant'', ''disconnectWallet'']"

definition MUTATING_EVENTS :: "string list" where
  "MUTATING_EVENTS = [''CREATE'', ''UPDATE'', ''DELETE'', ''UPSERT'']"

definition runtimeUnavailableReason :: "bool \<Rightarrow> runtime_state \<Rightarrow> lease_proc \<Rightarrow> string option" where
  "runtimeUnavailableReason skipAutoInit st p =
     (if isBackgroundFenced p
      then Some ''this process lost the database instance lease to another NIGHTGATE process; write actions are refused until it restarts''
      else if rs_initialized st \<and> rs_mode st \<noteq> ModeOffline then None
      else if rs_mode st = ModeOffline
      then Some ''Nightgate runtime is offline after a failed startup; write actions are refused until it restarts''
      else if skipAutoInit then None
      else Some ''Nightgate runtime has not completed startup in this process; retry shortly'')"

text \<open>\<open>kinds\<close> has the kind of each definition of the service's model.\<close>

definition isRuntimeWriteEvent :: "(string \<Rightarrow> string option) \<Rightarrow> string \<Rightarrow> string \<Rightarrow> bool" where
  "isRuntimeWriteEvent kinds srv event =
     (if event \<in> set MUTATING_EVENTS then True
      else if event \<in> set RUNTIME_FREE_ACTIONS then False
      else kinds (srv @ ''.'' @ event) = Some ''action'')"

definition RUNTIME_RETRY_AFTER_SECONDS :: nat where
  "RUNTIME_RETRY_AFTER_SECONDS = 15"

record gate_answer =
  ga_status :: nat
  ga_code :: string
  ga_message :: string
  ga_retryAfter :: nat

definition runtime_gate :: "(string \<Rightarrow> string option) \<Rightarrow> bool \<Rightarrow> runtime_state \<Rightarrow> lease_proc \<Rightarrow> string \<Rightarrow> string \<Rightarrow> gate_answer option" where
  "runtime_gate kinds skipAutoInit st p srv event =
     (if isRuntimeWriteEvent kinds srv event
      then map_option (\<lambda>m. \<lparr>ga_status = 503, ga_code = ''RUNTIME_UNAVAILABLE'', ga_message = m, ga_retryAfter = RUNTIME_RETRY_AFTER_SECONDS\<rparr>)
             (runtimeUnavailableReason skipAutoInit st p)
      else None)"

end
