(* ===== verification/Instance_Lease_Safety.thy ===== *)
theory Instance_Lease_Safety
  imports Instance_Lease
begin

text \<open>
  One process at a time: as long as a process's last heartbeat is younger than the time to live, no
  statement of another process, however late it arrives, takes its row, and only it may broadcast.
\<close>

section \<open>The processes of a database\<close>

text \<open>
  The clock, the rows, and until when each process may count on the lease: the time of its last write
  plus the time to live. A process writes the time it read before the statement, which may be earlier
  than the clock.
\<close>

record lease_world =
  lw_now :: int
  lw_rows :: lease_rows
  lw_until :: "string \<rightharpoonup> int"

definition counted :: "string \<Rightarrow> int \<Rightarrow> nat \<times> lease_rows \<Rightarrow> lease_world \<Rightarrow> lease_world" where
  "counted h u r w = w\<lparr>lw_rows := snd r, lw_until := (if 0 < fst r then (lw_until w)(h \<mapsto> u) else lw_until w)\<rparr>"

text \<open>
  The statements any process may run at any time. The heartbeats of one process reach the table in the order
  of their times.
\<close>

inductive lease_step :: "string \<Rightarrow> int \<Rightarrow> lease_world \<Rightarrow> lease_world \<Rightarrow> bool" for role ttl where
  Tick: "lw_now w \<le> t \<Longrightarrow> lease_step role ttl w (w\<lparr>lw_now := t\<rparr>)"
| Beat: "\<lbrakk>nw \<le> lw_now w; \<forall>r \<in> set (lw_rows w). own_lease role h r \<longrightarrow> (\<exists>t. il_heartbeatAt r = Some t \<and> t \<le> nw)\<rbrakk>
    \<Longrightarrow> lease_step role ttl w (counted h (nw + ttl) (beat_stmt role h nw (lw_rows w)) w)"
| Take: "nw \<le> lw_now w \<Longrightarrow> lease_step role ttl w (counted h (nw + ttl) (takeover_stmt role h ttl nw (lw_rows w)) w)"
| Insert: "\<lbrakk>nw \<le> lw_now w; insert_stmt role h nw (lw_rows w) = Inr rows'\<rbrakk> \<Longrightarrow> lease_step role ttl w (counted h (nw + ttl) (1, rows') w)"
| Release: "lease_step role ttl w (w\<lparr>lw_rows := releaseInstanceLease role h (lw_rows w), lw_until := (lw_until w)(h := None)\<rparr>)"

inductive lease_reach :: "string \<Rightarrow> int \<Rightarrow> lease_world \<Rightarrow> bool" for role ttl where
  Start: "lease_reach role ttl \<lparr>lw_now = t, lw_rows = [], lw_until = Map.empty\<rparr>"
| Step: "lease_reach role ttl w \<Longrightarrow> lease_step role ttl w w' \<Longrightarrow> lease_reach role ttl w'"

definition counts_on :: "string \<Rightarrow> int \<Rightarrow> lease_world \<Rightarrow> string \<Rightarrow> int \<Rightarrow> bool" where
  "counts_on role ttl w h u \<longleftrightarrow> (\<exists>r \<in> set (lw_rows w). own_lease role h r \<and> (\<exists>t. il_heartbeatAt r = Some t \<and> u \<le> t + ttl))"

definition lease_inv :: "string \<Rightarrow> int \<Rightarrow> lease_world \<Rightarrow> bool" where
  "lease_inv role ttl w \<longleftrightarrow> distinct (map il_role (lw_rows w))
     \<and> (\<forall>h u. lw_until w h = Some u \<and> lw_now w \<le> u \<longrightarrow> counts_on role ttl w h u)"

lemma lease_invE:
  assumes "lease_inv role ttl w" "lw_until w k = Some u" "lw_now w \<le> u"
  obtains r t where "r \<in> set (lw_rows w)" "own_lease role k r" "il_heartbeatAt r = Some t" "u \<le> t + ttl"
  using assms by (meson counts_on_def lease_inv_def)

lemma role_unique: "\<lbrakk>distinct (map il_role rows); r \<in> set rows; r' \<in> set rows; il_role r = il_role r'\<rbrakk> \<Longrightarrow> r = r'"
  by (rule distinct_map_eqD)

lemma update_roles:
  "(\<And>r. g r \<Longrightarrow> il_role (p r) = il_role r) \<Longrightarrow> distinct (map il_role rows) \<Longrightarrow> distinct (map il_role (snd (update_where g p rows)))"
  using update_where_keeps [of g il_role p rows] by simp

lemma lease_step_inv:
  assumes "lease_step role ttl w w'" "lease_inv role ttl w"
  shows "lease_inv role ttl w'"
  using assms
proof (induction rule: lease_step.induct)
  case (Tick w t)
  then show ?case by (auto simp: lease_inv_def counts_on_def)
next
  case (Beat nw w h)
  let ?r = "beat_stmt role h nw (lw_rows w)"
  have d: "distinct (map il_role (snd ?r))"
    using Beat(3) unfolding beat_stmt_def by (intro update_roles) (auto simp: lease_inv_def)
  have "counts_on role ttl (counted h (nw + ttl) ?r w) k u" if k: "lw_until (counted h (nw + ttl) ?r w) k = Some u" "lw_now w \<le> u" for k u
  proof (cases "0 < fst ?r \<and> k = h")
    case True
    then obtain r where "r \<in> set (lw_rows w)" "own_lease role h r"
      by (auto simp: beat_stmt_def fst_update_where filter_empty_conv)
    moreover have "u = nw + ttl" using k True by (auto simp: counted_def)
    ultimately show ?thesis using True
      by (auto simp: counts_on_def counted_def beat_stmt_def snd_update_where own_lease_def intro!: bexI [of _ "r\<lparr>il_heartbeatAt := Some nw\<rparr>"])
  next
    case False
    then have "lw_until w k = Some u" using k by (auto simp: counted_def split: if_splits)
    then obtain r t where r: "r \<in> set (lw_rows w)" "own_lease role k r" "il_heartbeatAt r = Some t" "u \<le> t + ttl"
      using lease_invE [OF Beat(3) _ k(2)] by blast
    have "k \<noteq> h" using False r by (auto simp: beat_stmt_def fst_update_where filter_empty_conv)
    then have "\<not> own_lease role h r" using r(2) by (auto simp: own_lease_def)
    then have "r \<in> set (snd ?r)" using r(1) by (force simp: beat_stmt_def snd_update_where)
    then show ?thesis using r(2-4) by (auto simp: counts_on_def counted_def)
  qed
  then show ?case using d by (simp add: lease_inv_def counted_def)
next
  case (Take nw w h)
  let ?r = "takeover_stmt role h ttl nw (lw_rows w)"
  have d: "distinct (map il_role (snd ?r))"
    using Take(2) unfolding takeover_stmt_def by (intro update_roles) (auto simp: lease_inv_def)
  have "counts_on role ttl (counted h (nw + ttl) ?r w) k u" if k: "lw_until (counted h (nw + ttl) ?r w) k = Some u" "lw_now w \<le> u" for k u
  proof (cases "0 < fst ?r \<and> k = h")
    case True
    then obtain r where "r \<in> set (lw_rows w)" "stale_lease role (nw - ttl) r"
      by (auto simp: takeover_stmt_def fst_update_where filter_empty_conv)
    moreover have "u = nw + ttl" using k True by (auto simp: counted_def)
    ultimately show ?thesis
      by (auto simp: counts_on_def counted_def takeover_stmt_def snd_update_where own_lease_def stale_lease_def
          intro!: bexI [of _ "r\<lparr>il_instanceId := Some k, il_acquiredAt := Some nw, il_heartbeatAt := Some nw\<rparr>"] split: option.splits)
        (use True in auto)
  next
    case False
    then have "lw_until w k = Some u" using k by (auto simp: counted_def split: if_splits)
    then obtain r t where r: "r \<in> set (lw_rows w)" "own_lease role k r" "il_heartbeatAt r = Some t" "u \<le> t + ttl"
      using lease_invE [OF Take(2) _ k(2)] by blast
    have "\<not> stale_lease role (nw - ttl) r" using r k(2) Take(1) by (auto simp: stale_lease_def)
    then have "r \<in> set (snd ?r)" using r(1) by (force simp: takeover_stmt_def snd_update_where)
    then show ?thesis using r(2-4) by (auto simp: counts_on_def counted_def)
  qed
  then show ?case using d by (simp add: lease_inv_def counted_def)
next
  case (Insert nw w h rows')
  have rows: "rows' = lw_rows w @ [\<lparr>il_role = role, il_instanceId = Some h, il_acquiredAt = Some nw, il_heartbeatAt = Some nw\<rparr>]"
      "\<forall>r \<in> set (lw_rows w). il_role r \<noteq> role"
    using Insert(2) by (auto simp: insert_stmt_def list_ex_iff split: if_splits)
  then show ?case using Insert(3) by (fastforce simp: lease_inv_def counted_def counts_on_def own_lease_def split: if_splits)
next
  case (Release w h)
  have "distinct (map il_role (releaseInstanceLease role h (lw_rows w)))"
    using Release by (simp add: lease_inv_def releaseInstanceLease_def distinct_map_filter)
  moreover have "counts_on role ttl (w\<lparr>lw_rows := releaseInstanceLease role h (lw_rows w), lw_until := (lw_until w)(h := None)\<rparr>) k u"
    if k: "k \<noteq> h" "lw_until w k = Some u" "lw_now w \<le> u" for k u
    using lease_invE [OF Release k(2,3)] k(1) by (fastforce simp: counts_on_def releaseInstanceLease_def own_lease_def)
  ultimately show ?case by (simp add: lease_inv_def)
qed

lemma lease_reach_inv: "lease_reach role ttl w \<Longrightarrow> lease_inv role ttl w"
proof (induction rule: lease_reach.induct)
  case (Start t)
  show ?case by (simp add: lease_inv_def)
qed (rule lease_step_inv)

lemma one_role:
  assumes "distinct (map il_role rows)" "r \<in> set rows"
  shows "filter (\<lambda>x. il_role x = il_role r \<and> P x) rows = (if P r then [r] else [])"
    and "select_one (\<lambda>x. il_role x = il_role r) rows = Some r"
proof -
  have "filter (\<lambda>x. il_role x = il_role r \<and> P x) rows = (if P r then [r] else [])"
    if "distinct (map il_role rows)" "r \<in> set rows" for rows
    using that
  proof (induction rows)
    case (Cons y ys)
    show ?case
    proof (cases "y = r")
      case True
      then have "\<forall>x \<in> set ys. il_role x \<noteq> il_role r" using Cons(2) by (auto simp: image_iff)
      then show ?thesis using True by (auto simp: filter_empty_conv)
    next
      case False
      then have "r \<in> set ys" "il_role y \<noteq> il_role r" using Cons(2,3) by force+
      then show ?thesis using Cons by simp
    qed
  qed simp
  then show "filter (\<lambda>x. il_role x = il_role r \<and> P x) rows = (if P r then [r] else [])" using assms by blast
  obtain x where x: "select_one (\<lambda>x. il_role x = il_role r) rows = Some x"
    using assms(2) select_one_None [of "\<lambda>x. il_role x = il_role r" rows] by fastforce
  then show "select_one (\<lambda>x. il_role x = il_role r) rows = Some r"
    using select_one_Some [OF x] role_unique [OF assms(1) _ assms(2)] by simp
qed

text \<open>
  C19. While a process's last heartbeat is younger than the time to live, it alone passes the check
  before a broadcast, an attempt of any other process is told who holds the lease and changes nothing, and no
  other process may count on the lease.
\<close>

theorem one_instance:
  assumes "lease_reach role ttl w" "lw_until w h = Some u" "lw_now w \<le> u" "other \<noteq> h"
  shows "fst (assertLeaseHeld (lw_rows w) \<lparr>activeLease = Some (role, h), fenced = False\<rparr>) = Inr ()
    \<and> assertLeaseHeld (lw_rows w) \<lparr>activeLease = Some (role, other), fenced = False\<rparr>
        = (Inl leaseLostError, \<lparr>activeLease = Some (role, other), fenced = True\<rparr>)
    \<and> (\<exists>age. tryAcquireInstanceLease (\<lambda>_ rows. rows) role other ttl (lw_now w) False (lw_rows w) = (Inr (HeldBy h age), lw_rows w) \<and> age \<le> max 0 ttl)
    \<and> (\<forall>u'. lw_until w other = Some u' \<longrightarrow> u' < lw_now w)"
proof -
  have inv: "lease_inv role ttl w" by (rule lease_reach_inv [OF assms(1)])
  obtain r t where r: "r \<in> set (lw_rows w)" "own_lease role h r" "il_heartbeatAt r = Some t" "u \<le> t + ttl"
    using lease_invE [OF inv assms(2,3)] by blast
  have d: "distinct (map il_role (lw_rows w))" using inv by (simp add: lease_inv_def)
  have role: "il_role r = role" and inst: "il_instanceId r = Some h" using r(2) by (simp_all add: own_lease_def)
  have sel: "select_one (\<lambda>x. il_role x = role) (lw_rows w) = Some r" using one_role(2) [OF d r(1)] role by simp
  have noBeat: "beat_stmt role other (lw_now w) (lw_rows w) = (0, lw_rows w)"
    using one_role(1) [OF d r(1), of "\<lambda>x. il_instanceId x = Some other"] role inst assms(4)
      update_where_none [of "own_lease role other" "\<lambda>r. r\<lparr>il_heartbeatAt := Some (lw_now w)\<rparr>" "lw_rows w"]
    by (simp add: beat_stmt_def own_lease_def [abs_def] prod_eq_iff fst_update_where)
  have fresh: "\<not> t < lw_now w - ttl" using r(4) assms(3) by simp
  have noTake: "takeover_stmt role other ttl (lw_now w) (lw_rows w) = (0, lw_rows w)"
    using one_role(1) [OF d r(1), of "\<lambda>x. case il_heartbeatAt x of Some t \<Rightarrow> t < lw_now w - ttl | None \<Rightarrow> False"] role r(3) fresh
      update_where_none [of "stale_lease role (lw_now w - ttl)" "\<lambda>r. r\<lparr>il_instanceId := Some other, il_acquiredAt := Some (lw_now w), il_heartbeatAt := Some (lw_now w)\<rparr>" "lw_rows w"]
    by (simp add: takeover_stmt_def stale_lease_def [abs_def] prod_eq_iff fst_update_where)
  have "tryAcquireInstanceLease (\<lambda>_ rows. rows) role other ttl (lw_now w) False (lw_rows w) = (Inr (held_attempt (lw_now w) r), lw_rows w)"
    by (subst tryAcquireInstanceLease.simps) (simp add: noBeat noTake sel)
  moreover have "held_attempt (lw_now w) r = HeldBy h (max 0 (lw_now w - t))" using inst r(3) by (simp add: held_attempt_def)
  moreover have "max 0 (lw_now w - t) \<le> max 0 ttl" using fresh by simp
  moreover have "u' < lw_now w" if "lw_until w other = Some u'" for u'
  proof (rule ccontr)
    assume "\<not> u' < lw_now w"
    then have "lw_now w \<le> u'" by simp
    from lease_invE [OF inv that this] obtain r' where "r' \<in> set (lw_rows w)" "own_lease role other r'" by blast
    then show False using role_unique [OF d _ r(1)] role inst assms(4) by (auto simp: own_lease_def)
  qed
  ultimately show ?thesis using sel inst assms(4) by (simp add: assertLeaseHeld_def)
qed

definition one_lease :: lease_world where
  "one_lease = \<lparr>lw_now = 0, lw_rows = [\<lparr>il_role = ''background'', il_instanceId = Some ''a/1'', il_acquiredAt = Some 0, il_heartbeatAt = Some 0\<rparr>],
     lw_until = [''a/1'' \<mapsto> 90000]\<rparr>"

lemma one_lease_reach: "lease_reach ''background'' 90000 one_lease"
proof -
  have s: "lease_reach ''background'' 90000 \<lparr>lw_now = 0, lw_rows = [], lw_until = Map.empty\<rparr>" by (rule Start)
  show ?thesis
    using Step [OF s Insert, of 0 "''a/1''"] by (simp add: insert_stmt_def counted_def one_lease_def)
qed

lemma one_instance_witness:
  "fst (assertLeaseHeld (lw_rows one_lease) \<lparr>activeLease = Some (''background'', ''a/1''), fenced = False\<rparr>) = Inr ()
    \<and> fst (assertLeaseHeld (lw_rows one_lease) \<lparr>activeLease = Some (''background'', ''b/7''), fenced = False\<rparr>) = Inl leaseLostError"
  using one_instance [OF one_lease_reach, of "''a/1''" 90000 "''b/7''"] by (simp add: one_lease_def)

end
