(* ===== verification/Submit_Failure.thy ===== *)
theory Submit_Failure
  imports Prelude
begin

text \<open>
  The classification of a failed submission (\<^verbatim>\<open>srv/midnight/submit-error-classification.ts\<close>, with
  \<^verbatim>\<open>srv/submission/dust-race.ts\<close>, \<^verbatim>\<open>srv/utils/format-error.ts\<close>, \<^verbatim>\<open>srv/utils/errors.ts\<close> and
  \<^verbatim>\<open>srv/midnight/wallet-worker-protocol.ts\<close>). Every later decision about a failed payment is made on the
  code found here.

  A thrown value is an \<^verbatim>\<open>Error\<close>: its chain of causes, outermost first and cut before the first error that
  comes again, and its text as the runtime's \<^verbatim>\<open>inspect\<close> renders it. The tests of the message are regular
  expressions of the source, written out on characters.
\<close>

section \<open>Thrown errors\<close>

record batch_stage =
  bs_name :: string
  bs_segId :: int
  bs_stages :: string

datatype submit_code =
  PreMempoolReject | DustRace | Transport | Ambiguous | LandedNotApplied | PolicyRefusal | Causality | GasBudget | InternalFailure

record submit_failure =
  sf_code :: submit_code
  sf_ledgerCode :: "string option"
  sf_retryable :: bool
  sf_calls :: "batch_stage list option"
  sf_blockHeight :: "int option"

text \<open>What the code reads of one error of the chain. A property of another type than the one listed is absent.\<close>

record error_node =
  en_name :: string
  en_message :: string
  en_code :: "string option"
  en_nightgate :: bool
  en_phase :: "string option"
  en_blockHeight :: "int option"
  en_ledgerCode :: "string option"
  en_retryable :: bool
  en_calls :: "batch_stage list option"

record thrown =
  th_error :: error_node
  th_causes :: "error_node list"
  th_rendered :: string

definition MAX_CHAIN :: nat where "MAX_CHAIN = 8"

definition errorChain :: "thrown \<Rightarrow> error_node list" where
  "errorChain e = take MAX_CHAIN (th_error e # th_causes e)"

definition causeMessages :: "thrown \<Rightarrow> string list" where
  "causeMessages e = filter (\<lambda>m. m \<noteq> []) (map en_message (drop 1 (errorChain e)))"

text \<open>The chain is looked through one error deeper here than above.\<close>

definition findNightgateError :: "thrown \<Rightarrow> error_node option" where
  "findNightgateError e = find (\<lambda>n. en_nightgate n \<and> en_code n \<noteq> None) (take 9 (th_error e # th_causes e))"

section \<open>Tests of the text\<close>

definition is_word :: "char \<Rightarrow> bool" where
  "is_word c = (let n = of_char c :: nat in (48 \<le> n \<and> n \<le> 57) \<or> (65 \<le> n \<and> n \<le> 90) \<or> (97 \<le> n \<and> n \<le> 122) \<or> n = 95)"

definition newline :: char where
  "newline = char_of (10 :: nat)"

text \<open>The first place where a test succeeds; it is given whether a word character stands before the place.\<close>

fun first_at :: "(bool \<Rightarrow> string \<Rightarrow> 'a option) \<Rightarrow> bool \<Rightarrow> string \<Rightarrow> 'a option" where
  "first_at f prev [] = f prev []"
| "first_at f prev (c # cs) = (case f prev (c # cs) of Some x \<Rightarrow> Some x | None \<Rightarrow> first_at f (is_word c) cs)"

definition found_at :: "(bool \<Rightarrow> string \<Rightarrow> bool) \<Rightarrow> string \<Rightarrow> bool" where
  "found_at f s \<longleftrightarrow> first_at (\<lambda>b t. if f b t then Some () else None) False s \<noteq> None"

text \<open>A literal anywhere, ignoring case.\<close>

definition says :: "string \<Rightarrow> string \<Rightarrow> bool" where
  "says s p \<longleftrightarrow> strIncludes (toLowerCase s) (toLowerCase p)"

definition says_any :: "string \<Rightarrow> string list \<Rightarrow> bool" where
  "says_any s ps \<longleftrightarrow> list_ex (says s) ps"

text \<open>\<^verbatim>\<open>/a.*(b1|b2|...)/i\<close>: one of the literals after another on the same line.\<close>

definition says_then :: "string \<Rightarrow> string \<Rightarrow> string list \<Rightarrow> bool" where
  "says_then s a bs \<longleftrightarrow>
     found_at (\<lambda>_ t. startsWith (toLowerCase t) (toLowerCase a) \<and> says_any (takeWhile (\<lambda>c. c \<noteq> newline) (drop (length a) t)) bs) s"

text \<open>\<^verbatim>\<open>/\bN\s*:/\<close>: a number of the node followed by a colon.\<close>

definition says_code :: "string \<Rightarrow> string \<Rightarrow> bool" where
  "says_code s n \<longleftrightarrow>
     found_at (\<lambda>prev t. \<not> prev \<and> startsWith t n \<and> startsWith (dropWhile is_space (drop (length n) t)) '':'') s"

section \<open>The text searched\<close>

definition blank :: "string \<Rightarrow> bool" where
  "blank l \<longleftrightarrow> list_all is_space l"

text \<open>\<^verbatim>\<open>/^\s*at .*$/gm\<close> removed: a frame's line, with the blank lines before it.\<close>

fun strip_frames :: "string list \<Rightarrow> string list \<Rightarrow> string list" where
  "strip_frames blanks [] = blanks"
| "strip_frames blanks (l # ls) =
     (if startsWith (dropWhile is_space l) ''at '' then [] # strip_frames [] ls
      else if blank l then strip_frames (blanks @ [l]) ls
      else blanks @ l # strip_frames [] ls)"

text \<open>\<^verbatim>\<open>/:\d+:\d+\b/g\<close> replaced by \<^verbatim>\<open>:L:C\<close>.\<close>

definition position_at :: "string \<Rightarrow> string option" where
  "position_at s =
     (case s of
        c # t \<Rightarrow>
          (let d1 = takeWhile is_digit t; t1 = dropWhile is_digit t in
           if c = CHR '':'' \<and> d1 \<noteq> [] \<and> startsWith t1 '':''
           then (let d2 = takeWhile is_digit (tl t1); t2 = dropWhile is_digit (tl t1) in
                 if d2 \<noteq> [] \<and> (t2 = [] \<or> \<not> is_word (hd t2)) then Some t2 else None)
           else None)
      | [] \<Rightarrow> None)"

lemma position_shorter: "position_at s = Some t \<Longrightarrow> length t < length s"
  using length_dropWhile_le [of is_digit "tl s"] length_dropWhile_le [of is_digit "tl (dropWhile is_digit (tl s))"]
  by (auto simp: position_at_def Let_def split: list.splits if_splits)

function replace_positions :: "string \<Rightarrow> string" where
  "replace_positions s =
     (case position_at s of
        Some t \<Rightarrow> '':L:C'' @ replace_positions t
      | None \<Rightarrow> (case s of [] \<Rightarrow> [] | c # cs \<Rightarrow> c # replace_positions cs))"
  by pat_completeness auto
termination
  by (relation "measure length") (auto dest: position_shorter)

declare replace_positions.simps [simp del]

definition classificationHaystack :: "thrown \<Rightarrow> string" where
  "classificationHaystack e =
     replace_positions (join [newline] (strip_frames [] (split_at_char newline (th_rendered e))))"

definition haystack :: "thrown \<Rightarrow> string" where
  "haystack e = en_message (th_error e) @ '' '' @ classificationHaystack e"

text \<open>\<^verbatim>\<open>/custom error:?\s*(\d+)/i\<close>\<close>

definition ledgerErrorCode :: "string \<Rightarrow> string option" where
  "ledgerErrorCode s =
     first_at (\<lambda>_ t. if startsWith (toLowerCase t) ''custom error''
                    then (let r = drop 12 t; r1 = (if startsWith r '':'' then tl r else r); d = takeWhile is_digit (dropWhile is_space r1)
                          in if d = [] then None else Some d)
                    else None) False s"

definition DUST_RACE_LEDGER_CODES :: "string list" where
  "DUST_RACE_LEDGER_CODES = [''170'', ''171'', ''196'']"

text \<open>\<^verbatim>\<open>/\b1010\/(170|171|196)\b/\<close>\<close>

definition own_dust_code :: "string \<Rightarrow> string option" where
  "own_dust_code s =
     first_at (\<lambda>prev t. if \<not> prev \<and> startsWith t ''1010/'' \<and> take 3 (drop 5 t) \<in> set DUST_RACE_LEDGER_CODES
                          \<and> (drop 8 t = [] \<or> \<not> is_word (hd (drop 8 t)))
                        then Some (take 3 (drop 5 t)) else None) False s"

definition dustRaceLedgerCode :: "thrown \<Rightarrow> string option" where
  "dustRaceLedgerCode e =
     (let h = haystack e in
      case own_dust_code h of
        Some c \<Rightarrow> Some (''1010/'' @ c)
      | None \<Rightarrow>
          if says h ''priority is too low'' then None
          else if \<not> says_code h ''1010'' \<and> \<not> says h ''invalid transaction'' then None
          else (case ledgerErrorCode h of
                  Some c \<Rightarrow> if c \<in> set DUST_RACE_LEDGER_CODES then Some (''1010/'' @ c) else None
                | None \<Rightarrow> None))"

section \<open>The calls of a batch in a message\<close>

fun first_split :: "string \<Rightarrow> string \<Rightarrow> (string \<times> int \<times> string) option" where
  "first_split pre [] = None"
| "first_split pre (c # cs) =
     (let d = takeWhile is_digit cs; r = dropWhile is_digit cs in
      if c = CHR ''='' \<and> pre \<noteq> [] \<and> d \<noteq> [] \<and> startsWith r ''['' \<and> last r = CHR '']''
           \<and> CHR '']'' \<notin> set (butlast (tl r)) \<and> tl r \<noteq> []
      then Some (rev pre, digits_val d 0, butlast (tl r))
      else first_split (c # pre) cs)"

fun words_of :: "string \<Rightarrow> string \<Rightarrow> string list" where
  "words_of cur [] = [rev cur]"
| "words_of cur (c # cs) =
     (if is_space c then (case cs of d # _ \<Rightarrow> if is_space d then words_of cur cs else rev cur # words_of [] cs | [] \<Rightarrow> [rev cur, []])
      else words_of (c # cur) cs)"

fun stages_prefix :: "string list \<Rightarrow> batch_stage list" where
  "stages_prefix [] = []"
| "stages_prefix (w # ws) =
     (case first_split [] w of
        Some (n, i, st) \<Rightarrow> \<lparr>bs_name = n, bs_segId = i, bs_stages = st\<rparr> # stages_prefix ws
      | None \<Rightarrow> [])"

definition STAGES_MARK :: string where
  "STAGES_MARK = ''Stages in apply order:''"

definition parseBatchCallStages :: "string \<Rightarrow> batch_stage list" where
  "parseBatchCallStages t =
     (case first_at (\<lambda>_ s. if startsWith s STAGES_MARK then Some (drop (length STAGES_MARK) s) else None) False t of
        None \<Rightarrow> []
      | Some r \<Rightarrow> stages_prefix (words_of [] (trim r)))"

section \<open>The classification\<close>

fun submit_code_of :: "string \<Rightarrow> submit_code option" where
  "submit_code_of s =
     (if s = ''pre-mempool-reject'' then Some PreMempoolReject
      else if s = ''dust-race'' then Some DustRace
      else if s = ''transport'' then Some Transport
      else if s = ''ambiguous'' then Some Ambiguous
      else if s = ''landed-not-applied'' then Some LandedNotApplied
      else if s = ''policy'' then Some PolicyRefusal
      else if s = ''causality'' then Some Causality
      else if s = ''gas-budget'' then Some GasBudget
      else if s = ''internal'' then Some InternalFailure
      else None)"

definition failure :: "submit_code \<Rightarrow> string option \<Rightarrow> bool \<Rightarrow> submit_failure" where
  "failure c l r = \<lparr>sf_code = c, sf_ledgerCode = l, sf_retryable = r, sf_calls = None, sf_blockHeight = None\<rparr>"

definition carriedSubmitFailure :: "thrown \<Rightarrow> submit_failure option" where
  "carriedSubmitFailure e =
     (let n = th_error e in
      case en_code n of
        None \<Rightarrow> None
      | Some s \<Rightarrow>
          map_option (\<lambda>c. \<lparr>sf_code = c, sf_ledgerCode = en_ledgerCode n, sf_retryable = en_retryable n,
                          sf_calls = en_calls n, sf_blockHeight = en_blockHeight n\<rparr>) (submit_code_of s))"

definition codedSubmitFailure :: "error_node option \<Rightarrow> submit_failure option" where
  "codedSubmitFailure n =
     (let code = (case n of Some x \<Rightarrow> en_code x | None \<Rightarrow> None) in
      if code = Some ''WALLET_NOT_SYNCED'' then Some (failure Transport (Some ''wallet-not-synced'') True)
      else if code = Some ''SUBMIT_INTENT_TIMEOUT'' then Some (failure PreMempoolReject (Some ''intent-timeout'') False)
      else if code = Some ''SUBMIT_INTENT_REJECTED'' then Some (failure PreMempoolReject (Some ''intent-rejected'') False)
      else if code = Some ''SPONSOR_REFUSED'' then Some (failure PolicyRefusal None False)
      else None)"

definition TRANSPORT_RE :: "string list" where
  "TRANSPORT_RE =
     [''disconnected from'', ''Normal Closure'', ''Abnormal Closure'', ''WebSocket is not connected'', ''ECONNRESET'', ''ECONNREFUSED'',
      ''ETIMEDOUT'', ''EPIPE'', ''socket hang up'', ''Unable to connect'']"

definition NO_REPLY_RE :: "string list" where
  "NO_REPLY_RE =
     [''TimeoutError'', ''TimeoutException'', ''timeout'', ''time out'', ''timedout'', ''timed out'', ''no reply'', ''no response'', ''request timeout'']"

definition causality_node :: "error_node \<Rightarrow> bool" where
  "causality_node n \<longleftrightarrow> en_code n = Some ''BatchCausalityViolation'' \<or> en_name n = ''BatchCausalityError''"

definition phase_failure :: "string \<Rightarrow> submit_failure" where
  "phase_failure phase =
     (if phase = ''connect'' then failure Transport (Some ''not-sent'') True
      else if phase = ''request'' then failure Ambiguous (Some ''no-reply'') False
      else failure Ambiguous None False)"

definition phased_node :: "thrown \<Rightarrow> string option" where
  "phased_node e =
     (case find (\<lambda>n. en_name n = ''SubmitPhaseError'' \<and> en_phase n \<noteq> None) (errorChain e) of Some n \<Rightarrow> en_phase n | None \<Rightarrow> None)"

definition landed_failure :: "thrown \<Rightarrow> submit_failure" where
  "landed_failure e =
     (failure LandedNotApplied None False)
       \<lparr>sf_blockHeight := (case find (\<lambda>n. case en_blockHeight n of Some h \<Rightarrow> 0 \<le> h | None \<Rightarrow> False) (errorChain e) of
                             Some n \<Rightarrow> en_blockHeight n | None \<Rightarrow> None)\<rparr>"

definition causality_failure :: "thrown \<Rightarrow> string \<Rightarrow> submit_failure" where
  "causality_failure e h =
     (let own = (case find causality_node (errorChain e) of Some n \<Rightarrow> en_calls n | None \<Rightarrow> None) in
      (failure Causality None False)\<lparr>sf_calls := (case own of Some (c # cs) \<Rightarrow> Some (c # cs) | _ \<Rightarrow> Some (parseBatchCallStages h))\<rparr>)"

text \<open>The tests of the text alone, after the dust races.\<close>

definition classify_text :: "string \<Rightarrow> submit_failure" where
  "classify_text h =
     (if says h ''InvalidDustSpendProof'' then failure DustRace (Some ''1010/170'') True
      else if says_any h [''TransactionInvalidError'', ''Transaction is invalid and was rejected by the node'']
      then failure DustRace (Some ''pool-invalid'') True
      else if says h ''closing socket'' then failure Transport (Some ''closing-socket'') True
      else if says h ''priority is too low'' \<or> says_code h ''1014'' then failure PreMempoolReject (Some ''1014'') False
      else if says_code h ''1016'' \<or> says h ''immediately dropped'' then failure PreMempoolReject (Some ''1016'') True
      else if says_code h ''1010'' \<or> says h ''invalid transaction''
      then failure PreMempoolReject (Some (case ledgerErrorCode h of Some c \<Rightarrow> ''1010/'' @ c | None \<Rightarrow> ''1010'')) False
      else if says_any h TRANSPORT_RE then failure Transport None True
      else if says_any h NO_REPLY_RE then failure Ambiguous (Some ''no-reply'') False
      else failure InternalFailure None False)"

definition classifySubmitFailure :: "thrown \<Rightarrow> submit_failure" where
  "classifySubmitFailure e =
     (case carriedSubmitFailure e of
        Some f \<Rightarrow> f
      | None \<Rightarrow>
          (let chain = errorChain e; names = map en_name chain; h = haystack e in
           if list_ex causality_node chain \<or> strIncludes h (''violates the ledger'' @ [CHR 0x27] @ ''s causality constraint'') then causality_failure e h
           else if list_ex (\<lambda>n. en_code n = Some ''BatchGasBudgetExceeded'') chain \<or> strIncludes h ''runs out of gas on the ledger''
           then failure GasBudget None False
           else if ''SubmitOutcomeUnknownError'' \<in> set names then failure Ambiguous (Some ''unresolved-send'') False
           else (case codedSubmitFailure (findNightgateError e) of
                   Some f \<Rightarrow> f
                 | None \<Rightarrow>
                     (case phased_node e of
                        Some phase \<Rightarrow> phase_failure phase
                      | None \<Rightarrow>
                          if ''SubmitWatchTimeoutError'' \<in> set names \<or> says h ''submit watch timed out'' then failure Ambiguous None False
                          else if ''TxFailedError'' \<in> set names \<or> says_any h [''did NOT apply'', ''but did not apply''] then landed_failure e
                          else if ''SponsorRefusalError'' \<in> set names \<or> says h ''refusing to sponsor'' then failure PolicyRefusal None False
                          else if says h ''submit-intent was not acknowledged'' then failure PreMempoolReject (Some ''intent-timeout'') False
                          else if says h ''submit-intent rejected'' then failure PreMempoolReject (Some ''intent-rejected'') False
                          else (case dustRaceLedgerCode e of
                                  Some c \<Rightarrow> failure DustRace (Some c) True
                                | None \<Rightarrow> classify_text h)))))"

definition isPreMempoolFailure :: "submit_failure \<Rightarrow> bool" where
  "isPreMempoolFailure i \<longleftrightarrow>
     (if sf_code i = PreMempoolReject then sf_ledgerCode i \<noteq> Some ''intent-rejected'' \<and> sf_ledgerCode i \<noteq> Some ''intent-timeout''
      else sf_code i = DustRace \<and> sf_ledgerCode i \<noteq> Some ''pool-invalid'')"

section \<open>What a sponsor does about a failure\<close>

definition is_fee_sponsor_error :: "thrown \<Rightarrow> bool" where
  "is_fee_sponsor_error e \<longleftrightarrow> en_name (th_error e) = ''FeeSponsorError''"

definition sponsor_message :: "string \<Rightarrow> bool" where
  "sponsor_message m \<longleftrightarrow>
     says_any m [''genuine sync'', ''genuinely sync'', ''not caught up''] \<or> says_then m ''sync'' [''timeout'', ''timed out'', ''stalled'']
     \<or> says_any m [''not synced to tip'', ''No facade for sponsorSessionId''] \<or> says_then m ''dust'' [''stale'', ''validity'']
     \<or> says_any m [''WALLET_SYNCING'', ''Sponsor session'']"

definition isRetryableSponsorFailure :: "thrown \<Rightarrow> bool" where
  "isRetryableSponsorFailure e \<longleftrightarrow>
     (let coded = (case findNightgateError e of Some n \<Rightarrow> en_code n | None \<Rightarrow> None); i = classifySubmitFailure e in
      if coded = Some ''WALLET_NOT_SYNCED'' \<or> coded = Some ''FEE_SPONSOR_UNUSABLE'' then True
      else if is_fee_sponsor_error e then True
      else if sf_code i = DustRace then sf_ledgerCode i \<noteq> Some ''pool-invalid''
      else if sf_code i \<noteq> InternalFailure then False
      else sponsor_message (en_message (th_error e)))"

definition isDustRaceFailure :: "thrown \<Rightarrow> bool" where
  "isDustRaceFailure e \<longleftrightarrow> sf_code (classifySubmitFailure e) = DustRace"

definition isCallNotAppliedFailure :: "thrown \<Rightarrow> bool" where
  "isCallNotAppliedFailure e \<longleftrightarrow> sf_code (classifySubmitFailure e) = LandedNotApplied"

definition isPreInclusionReject :: "thrown \<Rightarrow> bool" where
  "isPreInclusionReject e \<longleftrightarrow>
     (let i = classifySubmitFailure e in
      if sf_code i = PreMempoolReject \<or> sf_code i = DustRace then True
      else sf_code i = Transport \<and> sf_ledgerCode i \<in> {Some ''closing-socket'', Some ''not-sent'', Some ''wallet-not-synced''})"

definition isAmbiguousSubmitOutcome :: "thrown \<Rightarrow> bool" where
  "isAmbiguousSubmitOutcome e \<longleftrightarrow> sf_code (classifySubmitFailure e) = Ambiguous"

definition isGenericInvalidFailure :: "thrown \<Rightarrow> bool" where
  "isGenericInvalidFailure e \<longleftrightarrow>
     (let i = classifySubmitFailure e in sf_code i = DustRace \<and> sf_ledgerCode i = Some ''pool-invalid'')"

datatype sponsor_decision = DecideAmbiguous | DecideLanded | DustRebuild | Failover | DecideFail

record sponsor_verdict =
  sv_decision :: sponsor_decision
  sv_generic :: bool
  sv_preInclusion :: bool

definition decideSponsorFailure :: "thrown \<Rightarrow> sponsor_verdict" where
  "decideSponsorFailure e =
     (let i = classifySubmitFailure e; pre = isPreInclusionReject e in
      if sf_code i = Ambiguous then \<lparr>sv_decision = DecideAmbiguous, sv_generic = False, sv_preInclusion = False\<rparr>
      else if sf_code i = LandedNotApplied then \<lparr>sv_decision = DecideLanded, sv_generic = False, sv_preInclusion = False\<rparr>
      else if sf_code i = DustRace then \<lparr>sv_decision = DustRebuild, sv_generic = (sf_ledgerCode i = Some ''pool-invalid''), sv_preInclusion = pre\<rparr>
      else if isRetryableSponsorFailure e then \<lparr>sv_decision = Failover, sv_generic = False, sv_preInclusion = pre\<rparr>
      else \<lparr>sv_decision = DecideFail, sv_generic = False, sv_preInclusion = pre\<rparr>)"

end
