(* ===== verification/Sponsor_Pool.thy ===== *)
theory Sponsor_Pool
  imports Submit_Failure "HOL-Library.Product_Lexorder"
begin

text \<open>
  The pool of sponsor wallets (\<^verbatim>\<open>srv/submission/sponsor-pool.ts\<close>). Its state is one lane per wallet; a wallet
  never seen has the lane of a free one. An exclusive use marks the lane busy, a failed wallet is paused.
\<close>

record sponsor_lane =
  ln_busy :: bool
  ln_lastUsed :: int
  ln_cooldownUntil :: int

type_synonym lanes = "string \<rightharpoonup> sponsor_lane"

definition lane :: "string \<Rightarrow> lanes \<Rightarrow> sponsor_lane" where
  "lane i p = (case p i of Some s \<Rightarrow> s | None \<Rightarrow> \<lparr>ln_busy = False, ln_lastUsed = 0, ln_cooldownUntil = 0\<rparr>)"

definition gateRank :: "string \<Rightarrow> (string \<Rightarrow> bool) option \<Rightarrow> nat" where
  "gateRank i atGate = (case atGate of Some f \<Rightarrow> if f i then 0 else 1 | None \<Rightarrow> 0)"

definition lane_free :: "lanes \<Rightarrow> int \<Rightarrow> string \<Rightarrow> bool" where
  "lane_free p nw i \<longleftrightarrow> \<not> ln_busy (lane i p) \<and> ln_cooldownUntil (lane i p) \<le> nw"

definition lane_rank :: "(string \<Rightarrow> bool) option \<Rightarrow> lanes \<Rightarrow> string \<Rightarrow> nat \<times> int" where
  "lane_rank atGate p i = (gateRank i atGate, ln_lastUsed (lane i p))"

definition pick_step :: "lanes \<Rightarrow> int \<Rightarrow> (string \<Rightarrow> bool) option \<Rightarrow> string \<Rightarrow> string option \<Rightarrow> string option" where
  "pick_step p nw atGate i best =
     (if \<not> lane_free p nw i then best
      else case best of
        None \<Rightarrow> Some i
      | Some b \<Rightarrow> if lane_rank atGate p i < lane_rank atGate p b then Some i else Some b)"

definition pickFreeSponsor :: "lanes \<Rightarrow> string list \<Rightarrow> int \<Rightarrow> (string \<Rightarrow> bool) option \<Rightarrow> string option" where
  "pickFreeSponsor p poolIds nw atGate = fold (pick_step p nw atGate) poolIds None"

text \<open>
  The wait for a free wallet. Each look is its time, the time written as the last use, and what other jobs
  have done to the lanes before it.
\<close>

record pool_look =
  pl_now :: int
  pl_used :: int
  pl_others :: "lanes \<Rightarrow> lanes"

datatype sponsor_wait = GotSponsor string | PoolEmpty | AllBusy | PoolWaiting

fun acquire_looks :: "string list \<Rightarrow> int \<Rightarrow> (string \<Rightarrow> bool) option \<Rightarrow> pool_look list \<Rightarrow> lanes \<Rightarrow> sponsor_wait \<times> lanes" where
  "acquire_looks poolIds deadline atGate [] p = (PoolWaiting, p)"
| "acquire_looks poolIds deadline atGate (l # ls) p =
     (let p0 = pl_others l p in
      case pickFreeSponsor p0 poolIds (pl_now l) atGate of
        Some i \<Rightarrow> (GotSponsor i, p0(i \<mapsto> (lane i p0)\<lparr>ln_busy := True, ln_lastUsed := pl_used l\<rparr>))
      | None \<Rightarrow> if deadline \<le> pl_used l then (AllBusy, p0) else acquire_looks poolIds deadline atGate ls p0)"

definition acquireSponsor :: "string list \<Rightarrow> int \<Rightarrow> int \<Rightarrow> (string \<Rightarrow> bool) option \<Rightarrow> pool_look list \<Rightarrow> lanes \<Rightarrow> sponsor_wait \<times> lanes" where
  "acquireSponsor poolIds nw waitMs atGate looks p =
     (if poolIds = [] then (PoolEmpty, p) else acquire_looks poolIds (nw + waitMs) atGate looks p)"

definition releaseSponsor :: "string \<Rightarrow> lanes \<Rightarrow> lanes" where
  "releaseSponsor i p = p(i \<mapsto> (lane i p)\<lparr>ln_busy := False\<rparr>)"

definition benchSponsor :: "string \<Rightarrow> int \<Rightarrow> int \<Rightarrow> lanes \<Rightarrow> lanes" where
  "benchSponsor i cooldownMs nw p = p(i \<mapsto> (lane i p)\<lparr>ln_busy := False, ln_cooldownUntil := nw + cooldownMs\<rparr>)"

definition sponsorCandidatesNonExclusive :: "lanes \<Rightarrow> string list \<Rightarrow> int \<Rightarrow> (string \<Rightarrow> bool) option \<Rightarrow> string list" where
  "sponsorCandidatesNonExclusive p poolIds nw atGate =
     sort_key (lane_rank atGate p) (filter (\<lambda>i. ln_cooldownUntil (lane i p) \<le> nw) poolIds)"

definition touchSponsor :: "string \<Rightarrow> int \<Rightarrow> lanes \<Rightarrow> lanes" where
  "touchSponsor i nw p = p(i \<mapsto> (lane i p)\<lparr>ln_lastUsed := nw\<rparr>)"

section \<open>The choice\<close>

lemma pick_fold:
  "fold (pick_step p nw atGate) ids best = r \<Longrightarrow> (\<forall>b. best = Some b \<longrightarrow> lane_free p nw b) \<Longrightarrow>
     (case r of None \<Rightarrow> best = None \<and> (\<forall>i \<in> set ids. \<not> lane_free p nw i)
      | Some b \<Rightarrow> (b \<in> set ids \<or> best = Some b) \<and> lane_free p nw b
           \<and> (\<forall>i. (i \<in> set ids \<and> lane_free p nw i) \<or> best = Some i \<longrightarrow> lane_rank atGate p b \<le> lane_rank atGate p i))"
proof (induction ids arbitrary: best)
  case Nil
  then show ?case by (auto split: option.split)
next
  case (Cons i ids)
  have step: "\<forall>b. pick_step p nw atGate i best = Some b \<longrightarrow> lane_free p nw b"
    using Cons.prems(2) by (auto simp: pick_step_def split: option.splits)
  have ih: "case r of None \<Rightarrow> pick_step p nw atGate i best = None \<and> (\<forall>i \<in> set ids. \<not> lane_free p nw i)
      | Some b \<Rightarrow> (b \<in> set ids \<or> pick_step p nw atGate i best = Some b) \<and> lane_free p nw b
           \<and> (\<forall>k. (k \<in> set ids \<and> lane_free p nw k) \<or> pick_step p nw atGate i best = Some k \<longrightarrow> lane_rank atGate p b \<le> lane_rank atGate p k)"
    using Cons.IH [of "pick_step p nw atGate i best"] Cons.prems(1) step by simp
  show ?case
  proof (cases r)
    case None
    then show ?thesis using ih by (auto simp: pick_step_def split: option.splits if_splits)
  next
    case (Some b)
    have rest: "lane_rank atGate p b \<le> lane_rank atGate p k"
      if "(k \<in> set ids \<and> lane_free p nw k) \<or> pick_step p nw atGate i best = Some k" for k
      using ih Some that by auto
    have le: "lane_rank atGate p b \<le> lane_rank atGate p k" if k: "k = i \<and> lane_free p nw i \<or> best = Some k" for k
    proof -
      have "\<exists>m. pick_step p nw atGate i best = Some m \<and> lane_rank atGate p m \<le> lane_rank atGate p k"
        using k by (cases best) (auto simp: pick_step_def less_imp_le leI)
      then show ?thesis using rest by (meson order_trans)
    qed
    have "b \<in> set (i # ids) \<or> best = Some b"
      using ih Some by (auto simp: pick_step_def split: option.splits if_splits)
    then show ?thesis using ih Some le by auto
  qed
qed

lemma pickFreeSponsor_Some:
  assumes "pickFreeSponsor p ids nw atGate = Some b"
  shows "b \<in> set ids \<and> lane_free p nw b \<and> (\<forall>i \<in> set ids. lane_free p nw i \<longrightarrow> lane_rank atGate p b \<le> lane_rank atGate p i)"
  using pick_fold [of p nw atGate ids None "Some b"] assms by (simp add: pickFreeSponsor_def)

lemma pickFreeSponsor_None: "pickFreeSponsor p ids nw atGate = None \<Longrightarrow> i \<in> set ids \<Longrightarrow> \<not> lane_free p nw i"
  using pick_fold [of p nw atGate ids None None] by (simp add: pickFreeSponsor_def)

text \<open>A wallet that is handed out was free and is busy afterwards; all other lanes are as the other jobs left them.\<close>

lemma acquire_looks_got:
  assumes "acquire_looks ids deadline atGate looks p = (GotSponsor i, p')"
  shows "i \<in> set ids \<and> ln_busy (lane i p') \<and> (\<exists>p0 l. l \<in> set looks \<and> lane_free p0 (pl_now l) i \<and> (\<forall>k. k \<noteq> i \<longrightarrow> lane k p' = lane k p0))"
  using assms
proof (induction looks arbitrary: p)
  case Nil
  then show ?case by simp
next
  case (Cons l ls)
  show ?case
  proof (cases "pickFreeSponsor (pl_others l p) ids (pl_now l) atGate")
    case None
    then have "acquire_looks ids deadline atGate ls (pl_others l p) = (GotSponsor i, p')"
      using Cons.prems by (auto simp: Let_def split: if_splits)
    from Cons.IH [OF this] show ?thesis by auto
  next
    case (Some b)
    then have "b = i" "p' = (pl_others l p)(i \<mapsto> (lane i (pl_others l p))\<lparr>ln_busy := True, ln_lastUsed := pl_used l\<rparr>)"
      using Cons.prems by (auto simp: Let_def)
    then show ?thesis using pickFreeSponsor_Some [OF Some] by (auto simp: lane_def intro!: exI [of _ "pl_others l p"])
  qed
qed

end
