(* ===== verification/Sponsor_Executor.thy ===== *)
theory Sponsor_Executor
  imports Job_Reconciliation Grant_Scope Sponsor_Pool Instance_Lease
begin

text \<open>
  The job executors that pay for a caller's transaction (\<^verbatim>\<open>srv/submission/executors/sponsor.ts\<close>). A job may need
  several attempts, with the same wallet or another one; each attempt that announces a transaction has a row
  of its own, and the row before it is closed first. The attempts of the worker and what other jobs do
  meanwhile are given as a script; the rows, the job, the grant's reservation and the lanes are the state.
\<close>

section \<open>The command and the attempts\<close>

record sponsor_command =
  sc_op :: string
  sc_grantId :: "string option"
  sc_sponsorSessionId :: "string option"
  sc_offerId :: "string option"

definition grant_of :: "sponsor_command \<Rightarrow> string option" where
  "grant_of c = (case sc_grantId c of Some g \<Rightarrow> if g = [] then None else Some g | None \<Rightarrow> None)"

record attempt_intent =
  ai_contractAddress :: "string option"
  ai_circuits :: "string list option"
  ai_note :: "string option"
  ai_sponsorAccountId :: "string option"
  ai_deployed :: "string list option"
  ai_ttl :: "string option"
  ai_segments :: "json list"
  ai_minted :: "string list"
  ai_nullifiers :: "string list"
  ai_unshielded :: "json list"
  ai_transfer :: "json option"

record sponsor_out =
  so_contractAddress :: "string option"
  so_circuits :: "string list option"
  so_deployed :: "string list"
  so_minted :: "string list"

text \<open>
  One attempt: a failure before the worker is asked, the wallet session that pays, the transaction the worker
  announces (with the identifier of the new row), the faults of the announcing transaction, the error the worker
  makes of a refusal, its answer, whether the row could be marked as included, a failure to record a deploy on
  the grant, the faults of the closing transaction, the lease rows at the announcement, what others did to the
  database before it and to the lanes before the answer is handled, and the time.
\<close>

record attempt_script =
  at_before :: "thrown option"
  at_sponsor :: string
  at_intent :: "(string \<times> string \<times> attempt_intent) option"
  at_faults :: faults
  at_refused :: "js_error \<Rightarrow> thrown"
  at_answer :: "thrown + sponsor_out"
  at_included :: bool
  at_record :: "thrown option"
  at_close :: faults
  at_lease :: lease_rows
  at_world :: "jdb \<Rightarrow> jdb"
  at_pool :: "lanes \<Rightarrow> lanes"
  at_now :: int

record executor_config =
  ec_command :: sponsor_command
  ec_env :: job_env
  ec_job :: string
  ec_proc :: lease_proc
  ec_retries :: nat
  ec_cooldownMs :: int

record sponsor_ledger =
  boundaryCrossed :: bool
  currentSubmissionId :: "string option"
  currentTxHash :: "string option"
  reservedDeploys :: nat

record sponsor_state =
  ss_db :: jdb
  ss_pool :: lanes
  ss_led :: sponsor_ledger

definition new_ledger :: sponsor_ledger where
  "new_ledger = \<lparr>boundaryCrossed = False, currentSubmissionId = None, currentTxHash = None, reservedDeploys = 0\<rparr>"

datatype sponsor_exc = SendFailed thrown | BookkeepingPending string | CloseFailed string | SponsorError string

section \<open>Closing the attempt before\<close>

definition close_row :: "string \<Rightarrow> bool \<Rightarrow> string \<Rightarrow> jdb \<Rightarrow> jdb" where
  "close_row rowId rejected why db =
     db\<lparr>db_subs := snd (update_where (\<lambda>r. ps_ID r = rowId)
          (\<lambda>r. r\<lparr>ps_status := SubFailed, ps_errorCode := Some (if rejected then ''REJECTED'' else ''REBUILT''), ps_errorMessage := Some (take 500 why)\<rparr>)
          (db_subs db))\<rparr>"

definition close_body :: "executor_config \<Rightarrow> string \<Rightarrow> string option \<Rightarrow> nat \<Rightarrow> bool \<Rightarrow> string \<Rightarrow> jdb \<Rightarrow> unit result \<times> jdb" where
  "close_body cfg rowId rowHash refund rejected why db =
     (let db1 = close_row rowId rejected why db;
          db2 = (if 0 < refund then db1\<lparr>db_grants := releaseDeployBudget (the (grant_of (ec_command cfg))) (int refund) (db_grants db1)\<rparr> else db1)
      in if rejected
         then (case markJobSubmissionRejectedOn (ec_env cfg) (ec_job cfg) (Some rowId) rowHash (db_jobs db2) of
                 (r, js') \<Rightarrow> (r, db2\<lparr>db_jobs := js'\<rparr>))
         else (Inr (), db2))"

definition pending_message :: "string \<Rightarrow> js_error \<Rightarrow> string \<Rightarrow> string" where
  "pending_message rowId e why =
     ''sponsoring attempt '' @ rowId @ '' was rejected before inclusion but its bookkeeping (close, refund, hash) could not be committed: ''
     @ err_message e @ ''. Settled by the reconciler. Original failure: '' @ take 200 why"

definition close_message :: "js_error \<Rightarrow> string \<Rightarrow> string" where
  "close_message e why =
     ''sponsoring attempt could not be closed ('' @ err_message e
     @ ''); the job stops here for reconciliation instead of rebuilding on an open attempt. Original failure: '' @ take 200 why"

definition refund_due :: "executor_config \<Rightarrow> sponsor_ledger \<Rightarrow> bool \<Rightarrow> nat" where
  "refund_due cfg led rejected = (if rejected \<and> grant_of (ec_command cfg) \<noteq> None then reservedDeploys led else 0)"

definition failPreviousAttempt :: "executor_config \<Rightarrow> faults \<Rightarrow> string \<Rightarrow> bool \<Rightarrow> sponsor_ledger \<Rightarrow> jdb \<Rightarrow> sponsor_exc option \<times> sponsor_ledger \<times> jdb" where
  "failPreviousAttempt cfg faults why rejected led db =
     (case currentSubmissionId led of
        None \<Rightarrow> (None, led, db)
      | Some rowId \<Rightarrow>
          (let refund = refund_due cfg led rejected in
           case withLockContentionRetry (db_tx faults (close_body cfg rowId (currentTxHash led) refund rejected why)) db of
             (Inl e, db') \<Rightarrow>
               (Some (if rejected then BookkeepingPending (pending_message rowId e why) else CloseFailed (close_message e why)), led, db')
           | (Inr _, db') \<Rightarrow>
               (None, led\<lparr>reservedDeploys := (if 0 < refund then 0 else reservedDeploys led), currentSubmissionId := None, currentTxHash := None\<rparr>, db')))"

section \<open>Announcing an attempt\<close>

definition when_some :: "string \<Rightarrow> ('a \<Rightarrow> json) \<Rightarrow> 'a option \<Rightarrow> (string \<times> json) list" where
  "when_some k f v = (case v of Some x \<Rightarrow> [(k, f x)] | None \<Rightarrow> [])"

definition when_list :: "string \<Rightarrow> json list \<Rightarrow> (string \<times> json) list" where
  "when_list k vs = (if vs = [] then [] else [(k, JArr vs)])"

definition filled_text :: "string option \<Rightarrow> string option" where
  "filled_text v = (case v of Some s \<Rightarrow> if s = [] then None else Some s | None \<Rightarrow> None)"

definition or_null :: "string option \<Rightarrow> json" where
  "or_null v = (case v of Some s \<Rightarrow> JStr s | None \<Rightarrow> JNull)"

definition deployed_of :: "attempt_intent \<Rightarrow> string list" where
  "deployed_of it = (case ai_deployed it of Some ds \<Rightarrow> filter (\<lambda>d. d \<noteq> []) ds | None \<Rightarrow> [])"

definition coordinates :: "sponsor_command \<Rightarrow> string \<Rightarrow> attempt_intent \<Rightarrow> json" where
  "coordinates cmd feeSponsor it =
     (let deployed = deployed_of it in
      JObj ([(''feeSponsor'', JStr feeSponsor), (''sponsorAccountId'', or_null (ai_sponsorAccountId it)),
             (''circuits'', JArr (map JStr (case ai_circuits it of Some cs \<Rightarrow> cs | None \<Rightarrow> []))),
             (''contractAddress'', or_null (ai_contractAddress it))]
            @ when_some ''note'' JStr (filled_text (ai_note it))
            @ when_some ''ttl'' JStr (filled_text (ai_ttl it))
            @ when_list ''segments'' (ai_segments it)
            @ when_list ''deployed'' (map JStr deployed)
            @ when_list ''minted'' (map JStr (ai_minted it))
            @ when_list ''nullifiers'' (map JStr (ai_nullifiers it))
            @ when_list ''unshielded'' (ai_unshielded it)
            @ when_some ''transfer'' (\<lambda>t. t) (ai_transfer it)
            @ when_some ''offerId'' JStr (filled_text (sc_offerId cmd))
            @ (case grant_of cmd of
                 Some g \<Rightarrow> if deployed = [] then []
                           else [(''deployReservation'', JObj [(''grantId'', JStr g), (''count'', JNum (int (length deployed)))])]
               | None \<Rightarrow> [])))"

definition attempt_row :: "sponsor_command \<Rightarrow> string \<Rightarrow> int \<Rightarrow> string \<Rightarrow> string \<Rightarrow> attempt_intent \<Rightarrow> submission" where
  "attempt_row cmd feeSponsor nw sid hash it =
     \<lparr>ps_ID = sid, ps_txHash = Some hash, ps_contractAddress = ai_contractAddress it,
      ps_circuitName = (case ai_circuits it of Some (c # _) \<Rightarrow> Some c | _ \<Rightarrow> None),
      ps_submittedAt = Some nw, ps_status = SubPending, ps_finalizedAt = None, ps_finalizedTxData = None,
      ps_chainBlockHeight = None, ps_chainBlockHash = None, ps_indexerTxHash = None,
      ps_submitIntentData = Some (JText (coordinates cmd feeSponsor it)), ps_errorCode = None, ps_errorMessage = None\<rparr>"

definition exhausted_message :: "nat \<Rightarrow> string" where
  "exhausted_message n =
     ''deploy budget of the grant is exhausted or the grant no longer allows deploys ('' @ nat_str n @ '' deploy(s) in this transaction); not broadcasting''"

text \<open>The deploys an announcement still has to reserve.\<close>

definition deploy_need :: "sponsor_command \<Rightarrow> sponsor_ledger \<Rightarrow> attempt_intent \<Rightarrow> nat" where
  "deploy_need cmd led it = (if grant_of cmd \<noteq> None then length (deployed_of it) - reservedDeploys led else 0)"

definition announce_body :: "executor_config \<Rightarrow> attempt_script \<Rightarrow> sponsor_ledger \<Rightarrow> string \<Rightarrow> string \<Rightarrow> attempt_intent \<Rightarrow> jdb \<Rightarrow> unit result \<times> jdb" where
  "announce_body cfg sc led sid hash it db =
     (let db1 = db\<lparr>db_subs := db_subs db @ [attempt_row (ec_command cfg) (at_sponsor sc) (at_now sc) sid hash it]\<rparr>;
          need = deploy_need (ec_command cfg) led it;
          gid = the (grant_of (ec_command cfg));
          (ok, gs) = (if 0 < need then reserveDeployBudget gid (int need) (select_one (\<lambda>g. ag_ID g = gid) (db_grants db1)) (db_grants db1)
                      else (True, db_grants db1))
      in if \<not> ok then (Inl (js_Error (exhausted_message (length (deployed_of it)))), db1\<lparr>db_grants := gs\<rparr>)
         else case fst (assertLeaseHeld (at_lease sc) (ec_proc cfg)) of
           Inl e \<Rightarrow> (Inl e, db1\<lparr>db_grants := gs\<rparr>)
         | Inr _ \<Rightarrow>
             (case markJobBroadcastOn (ec_env cfg) (ec_job cfg) (Some sid) (Some hash) (\<not> boundaryCrossed led) (db_jobs db1) of
                (r, js') \<Rightarrow> (r, db1\<lparr>db_grants := gs, db_jobs := js'\<rparr>)))"

definition onSubmitIntent :: "executor_config \<Rightarrow> attempt_script \<Rightarrow> string \<Rightarrow> string \<Rightarrow> attempt_intent \<Rightarrow> sponsor_ledger \<Rightarrow> jdb \<Rightarrow> unit result \<times> sponsor_ledger \<times> jdb" where
  "onSubmitIntent cfg sc sid hash it led db =
     (case withLockContentionRetry (db_tx (at_faults sc) (announce_body cfg sc led sid hash it)) db of
        (Inl e, db') \<Rightarrow> (Inl e, led, db')
      | (Inr _, db') \<Rightarrow>
          (Inr (),
           led\<lparr>boundaryCrossed := True,
               reservedDeploys := (if grant_of (ec_command cfg) \<noteq> None \<and> deployed_of it \<noteq> [] then length (deployed_of it) else reservedDeploys led),
               currentSubmissionId := Some sid, currentTxHash := Some hash\<rparr>, db'))"

definition markIncluded :: "bool \<Rightarrow> sponsor_out \<Rightarrow> sponsor_ledger \<Rightarrow> jdb \<Rightarrow> jdb" where
  "markIncluded written out led db =
     (case currentSubmissionId led of
        Some sid \<Rightarrow>
          if written
          then db\<lparr>db_subs := snd (update_where (\<lambda>r. ps_ID r = sid)
                 (\<lambda>r. r\<lparr>ps_status := SubIncluded, ps_contractAddress := so_contractAddress out,
                        ps_circuitName := (case so_circuits out of Some (c # _) \<Rightarrow> Some c | _ \<Rightarrow> None)\<rparr>) (db_subs db))\<rparr>
          else db
      | None \<Rightarrow> db)"

section \<open>One attempt\<close>

definition announcement :: "executor_config \<Rightarrow> attempt_script \<Rightarrow> sponsor_state \<Rightarrow> js_error option \<times> sponsor_state" where
  "announcement cfg sc s =
     (case at_intent sc of
        None \<Rightarrow> (None, s)
      | Some (sid, hash, it) \<Rightarrow>
          (case onSubmitIntent cfg sc sid hash it (ss_led s) (ss_db s) of
             (r, led, db) \<Rightarrow> ((case r of Inl e \<Rightarrow> Some e | Inr _ \<Rightarrow> None), s\<lparr>ss_led := led, ss_db := db\<rparr>)))"

definition sponsorAttempt :: "executor_config \<Rightarrow> attempt_script \<Rightarrow> sponsor_state \<Rightarrow> (thrown + sponsor_out) \<times> sponsor_state" where
  "sponsorAttempt cfg sc s =
     (case at_before sc of
        Some e \<Rightarrow> (Inl e, s)
      | None \<Rightarrow>
          (case announcement cfg sc (s\<lparr>ss_db := at_world sc (ss_db s)\<rparr>) of
             (Some e, s1) \<Rightarrow> (Inl (at_refused sc e), s1)
           | (None, s1) \<Rightarrow>
               (case at_answer sc of
                  Inl e \<Rightarrow> (Inl e, s1)
                | Inr out \<Rightarrow> (Inr out, s1\<lparr>ss_db := markIncluded (at_included sc) out (ss_led s1) (ss_db s1)\<rparr>))))"

text \<open>
  What a landed job produced. Learned token types and swap offers are tables of their own, and errors there do
  not reach the caller.
\<close>

definition recordOnGrant :: "sponsor_command \<Rightarrow> sponsor_out \<Rightarrow> thrown option \<Rightarrow> jdb \<Rightarrow> thrown option \<times> jdb" where
  "recordOnGrant cmd out fault db =
     (case grant_of cmd of
        None \<Rightarrow> (None, db)
      | Some g \<Rightarrow>
          (let db1 = (if so_minted out = [] then db else db\<lparr>db_grants := recordMintedTokenTypes g (so_minted out) (db_grants db)\<rparr>) in
           if so_deployed out = [] then (None, db1)
           else case fault of
             Some e \<Rightarrow> (Some e, db1)
           | None \<Rightarrow> (None, db1\<lparr>db_grants := recordDeployedContracts g (so_deployed out) (db_grants db1)\<rparr>)))"

section \<open>The finalized transaction\<close>

datatype sponsor_end = Done sponsor_out string | Raised sponsor_exc | StillBusy

datatype sponsor_next = Retry | Stop sponsor_end | NextSponsor thrown

definition rebuild_budget :: "nat \<Rightarrow> sponsor_verdict \<Rightarrow> nat" where
  "rebuild_budget retries v = (if sv_generic v then min 1 retries else retries)"

definition close_sponsored :: "executor_config \<Rightarrow> attempt_script \<Rightarrow> thrown \<Rightarrow> sponsor_state \<Rightarrow> sponsor_exc option \<times> sponsor_state" where
  "close_sponsored cfg sc e s =
     (case failPreviousAttempt cfg (at_close sc) (en_message (th_error e)) (sv_preInclusion (decideSponsorFailure e)) (ss_led s) (ss_db s) of
        (x, led, db) \<Rightarrow> (x, s\<lparr>ss_led := led, ss_db := db\<rparr>))"

definition on_pool :: "(lanes \<Rightarrow> lanes) \<Rightarrow> sponsor_state \<Rightarrow> sponsor_state" where
  "on_pool f s = s\<lparr>ss_pool := f (ss_pool s)\<rparr>"

definition finalized_failure :: "executor_config \<Rightarrow> attempt_script \<Rightarrow> string \<Rightarrow> nat \<Rightarrow> thrown \<Rightarrow> sponsor_state \<Rightarrow> sponsor_next \<times> sponsor_state" where
  "finalized_failure cfg sc sid attempt e s =
     (let v = decideSponsorFailure e; release = on_pool (releaseSponsor sid); bench = on_pool (benchSponsor sid (ec_cooldownMs cfg) (at_now sc)) in
      if sv_decision v = DecideAmbiguous \<or> sv_decision v = DecideLanded then (Stop (Raised (SendFailed e)), release s)
      else case close_sponsored cfg sc e s of
        (Some x, s1) \<Rightarrow> (Stop (Raised x), release s1)
      | (None, s1) \<Rightarrow>
          if sv_decision v = DustRebuild
          then (if attempt < rebuild_budget (ec_retries cfg) v then (Retry, s1)
                else if sv_generic v then (Stop (Raised (SendFailed e)), release s1)
                else (NextSponsor e, bench s1))
          else if sv_decision v = DecideFail then (Stop (Raised (SendFailed e)), release s1)
          else (NextSponsor e, bench s1))"

definition finalized_step :: "executor_config \<Rightarrow> attempt_script \<Rightarrow> string \<Rightarrow> nat \<Rightarrow> sponsor_state \<Rightarrow> sponsor_next \<times> sponsor_state" where
  "finalized_step cfg sc sid attempt s =
     (case sponsorAttempt cfg sc s of
        (Inl e, s1) \<Rightarrow> finalized_failure cfg sc sid attempt e (on_pool (at_pool sc) s1)
      | (Inr out, s1) \<Rightarrow>
          (let s2 = on_pool (releaseSponsor sid) s1 in
           case recordOnGrant (ec_command cfg) out (at_record sc) (ss_db s2) of
             (None, db) \<Rightarrow> (Stop (Done out (at_sponsor sc)), s2\<lparr>ss_db := db\<rparr>)
           | (Some e, db) \<Rightarrow> finalized_failure cfg sc sid attempt e (on_pool (at_pool sc) (s2\<lparr>ss_db := db\<rparr>))))"

lemma finalized_retry: "finalized_step cfg sc sid attempt s = (Retry, s') \<Longrightarrow> attempt < ec_retries cfg"
  by (auto simp: finalized_step_def finalized_failure_def rebuild_budget_def Let_def split: sum.splits prod.splits option.splits if_splits)

function finalized_try :: "executor_config \<Rightarrow> (nat \<Rightarrow> attempt_script) \<Rightarrow> string \<Rightarrow> nat \<Rightarrow> sponsor_state \<Rightarrow> sponsor_next \<times> sponsor_state" where
  "finalized_try cfg scr sid attempt s =
     (case finalized_step cfg (scr attempt) sid attempt s of
        (Retry, s1) \<Rightarrow> finalized_try cfg scr sid (attempt + 1) s1
      | r \<Rightarrow> r)"
  by pat_completeness auto
termination
  by (relation "measure (\<lambda>(cfg, scr, sid, attempt, s). ec_retries cfg - attempt)")
     (auto dest: finalized_retry [OF sym] intro: diff_less_mono2)

declare finalized_try.simps [simp del]

section \<open>The wallets, one after another\<close>

text \<open>
  \<open>StillBusy\<close> is a script that ends while the job still waits. A round has the time it starts, the looks of
  its wait and the attempts made with the wallet it gets; the deadline is one for all waits.
\<close>

record sponsor_round =
  rd_now :: int
  rd_looks :: "pool_look list"
  rd_attempts :: "nat \<Rightarrow> attempt_script"

definition raised_or :: "thrown option \<Rightarrow> string \<Rightarrow> sponsor_exc" where
  "raised_or lastErr m = (case lastErr of Some e \<Rightarrow> SendFailed e | None \<Rightarrow> SponsorError m)"

definition busy_message :: "nat \<Rightarrow> string" where
  "busy_message n = ''all '' @ nat_str n @ '' pool sponsors are busy or cooling down; resubmit shortly''"

definition POOL_EMPTY_MESSAGE :: string where
  "POOL_EMPTY_MESSAGE = ''sponsor pool is empty (NIGHTGATE_FEE_SPONSOR_SESSION)''"

fun finalized_rounds ::
    "executor_config \<Rightarrow> int \<Rightarrow> (string \<Rightarrow> bool) option \<Rightarrow> sponsor_round list \<Rightarrow> string list \<Rightarrow> thrown option \<Rightarrow> sponsor_state \<Rightarrow> sponsor_end \<times> sponsor_state" where
  "finalized_rounds cfg deadline atGate rounds [] lastErr s = (Raised (raised_or lastErr ''no sponsor candidate available''), s)"
| "finalized_rounds cfg deadline atGate [] (c # cs) lastErr s = (StillBusy, s)"
| "finalized_rounds cfg deadline atGate (r # rs) (c # cs) lastErr s =
     (case acquireSponsor (c # cs) (rd_now r) (max 0 (deadline - rd_now r)) atGate (rd_looks r) (ss_pool s) of
        (GotSponsor sid, p) \<Rightarrow>
          (case finalized_try cfg (rd_attempts r) sid 0 (s\<lparr>ss_pool := p\<rparr>) of
             (Stop x, s1) \<Rightarrow> (x, s1)
           | (NextSponsor e, s1) \<Rightarrow> finalized_rounds cfg deadline atGate rs (filter (\<lambda>k. k \<noteq> sid) (c # cs)) (Some e) s1
           | (Retry, s1) \<Rightarrow> (StillBusy, s1))
      | (PoolEmpty, p) \<Rightarrow> (Raised (raised_or lastErr POOL_EMPTY_MESSAGE), s\<lparr>ss_pool := p\<rparr>)
      | (AllBusy, p) \<Rightarrow> (Raised (raised_or lastErr (busy_message (length (c # cs)))), s\<lparr>ss_pool := p\<rparr>)
      | (PoolWaiting, p) \<Rightarrow> (StillBusy, s\<lparr>ss_pool := p\<rparr>))"

text \<open>The candidates of a command: the named wallet alone, or the pool.\<close>

definition sponsorCandidates :: "sponsor_command \<Rightarrow> string list \<Rightarrow> (string list \<Rightarrow> string list) \<Rightarrow> string + string list" where
  "sponsorCandidates cmd pool fromPool =
     (if sc_sponsorSessionId cmd \<noteq> Some PLATFORM_POOL_SENTINEL
      then Inr [case sc_sponsorSessionId cmd of Some i \<Rightarrow> i | None \<Rightarrow> ''undefined'']
      else if pool = [] then Inl ''platform sponsor pool is empty (NIGHTGATE_FEE_SPONSOR_SESSION)''
      else Inr (fromPool pool))"

definition bad_command :: "string \<Rightarrow> sponsor_exc" where
  "bad_command i = SponsorError (''Invalid persisted sponsor command for job '' @ i)"

definition executeSponsorFinalized ::
    "executor_config \<Rightarrow> string list \<Rightarrow> int \<Rightarrow> (string \<Rightarrow> bool) option \<Rightarrow> sponsor_round list \<Rightarrow> sponsor_state \<Rightarrow> sponsor_end \<times> sponsor_state" where
  "executeSponsorFinalized cfg pool deadline atGate rounds s =
     (if sc_op (ec_command cfg) \<noteq> ''sponsorFinalized'' then (Raised (bad_command (ec_job cfg)), s)
      else case sponsorCandidates (ec_command cfg) pool (\<lambda>p. p) of
        Inl m \<Rightarrow> (Raised (SponsorError m), s)
      | Inr candidates \<Rightarrow> finalized_rounds cfg deadline atGate rounds candidates None (s\<lparr>ss_led := new_ledger\<rparr>))"

section \<open>The unbound transaction\<close>

text \<open>Many jobs share a wallet here: nothing is reserved, a dust race is retried and then given up.\<close>

definition unbound_failure :: "executor_config \<Rightarrow> attempt_script \<Rightarrow> string \<Rightarrow> nat \<Rightarrow> thrown \<Rightarrow> sponsor_state \<Rightarrow> sponsor_next \<times> sponsor_state" where
  "unbound_failure cfg sc sid attempt e s =
     (let v = decideSponsorFailure e in
      if sv_decision v = DecideAmbiguous \<or> sv_decision v = DecideLanded then (Stop (Raised (SendFailed e)), s)
      else case close_sponsored cfg sc e s of
        (Some x, s1) \<Rightarrow> (Stop (Raised x), s1)
      | (None, s1) \<Rightarrow>
          if sv_decision v = DustRebuild
          then (if attempt < rebuild_budget (ec_retries cfg) v then (Retry, s1) else (Stop (Raised (SendFailed e)), s1))
          else if sv_decision v = DecideFail then (Stop (Raised (SendFailed e)), s1)
          else (NextSponsor e, on_pool (benchSponsor sid (ec_cooldownMs cfg) (at_now sc)) s1))"

definition unbound_step :: "executor_config \<Rightarrow> attempt_script \<Rightarrow> string \<Rightarrow> nat \<Rightarrow> sponsor_state \<Rightarrow> sponsor_next \<times> sponsor_state" where
  "unbound_step cfg sc sid attempt s =
     (case sponsorAttempt cfg sc s of
        (Inl e, s1) \<Rightarrow> unbound_failure cfg sc sid attempt e (on_pool (at_pool sc) s1)
      | (Inr out, s1) \<Rightarrow>
          (case recordOnGrant (ec_command cfg) out (at_record sc) (ss_db s1) of
             (None, db) \<Rightarrow> (Stop (Done out (at_sponsor sc)), s1\<lparr>ss_db := db\<rparr>)
           | (Some e, db) \<Rightarrow> unbound_failure cfg sc sid attempt e (on_pool (at_pool sc) (s1\<lparr>ss_db := db\<rparr>))))"

lemma unbound_retry: "unbound_step cfg sc sid attempt s = (Retry, s') \<Longrightarrow> attempt < ec_retries cfg"
  by (auto simp: unbound_step_def unbound_failure_def rebuild_budget_def Let_def split: sum.splits prod.splits option.splits if_splits)

function unbound_try :: "executor_config \<Rightarrow> (nat \<Rightarrow> attempt_script) \<Rightarrow> string \<Rightarrow> nat \<Rightarrow> sponsor_state \<Rightarrow> sponsor_next \<times> sponsor_state" where
  "unbound_try cfg scr sid attempt s =
     (case unbound_step cfg (scr attempt) sid attempt s of
        (Retry, s1) \<Rightarrow> unbound_try cfg scr sid (attempt + 1) s1
      | r \<Rightarrow> r)"
  by pat_completeness auto
termination
  by (relation "measure (\<lambda>(cfg, scr, sid, attempt, s). ec_retries cfg - attempt)")
     (auto dest: unbound_retry [OF sym] intro: diff_less_mono2)

declare unbound_try.simps [simp del]

text \<open>\<open>scr k\<close> has the attempts with the \<open>k\<close>-th candidate, \<open>touched k\<close> the time its use begins.\<close>

fun unbound_rounds ::
    "executor_config \<Rightarrow> (nat \<Rightarrow> nat \<Rightarrow> attempt_script) \<Rightarrow> (nat \<Rightarrow> int) \<Rightarrow> nat \<Rightarrow> string list \<Rightarrow> thrown option \<Rightarrow> sponsor_state \<Rightarrow> sponsor_end \<times> sponsor_state" where
  "unbound_rounds cfg scr touched k [] lastErr s = (Raised (raised_or lastErr ''no sponsor candidate available''), s)"
| "unbound_rounds cfg scr touched k (c # cs) lastErr s =
     (case unbound_try cfg (scr k) c 0 (on_pool (touchSponsor c (touched k)) s) of
        (Stop x, s1) \<Rightarrow> (x, s1)
      | (NextSponsor e, s1) \<Rightarrow> unbound_rounds cfg scr touched (k + 1) cs (Some e) s1
      | (Retry, s1) \<Rightarrow> (StillBusy, s1))"

definition executeSponsorUnbound ::
    "executor_config \<Rightarrow> string list \<Rightarrow> int \<Rightarrow> (string \<Rightarrow> bool) option \<Rightarrow> (nat \<Rightarrow> nat \<Rightarrow> attempt_script) \<Rightarrow> (nat \<Rightarrow> int) \<Rightarrow> sponsor_state \<Rightarrow> sponsor_end \<times> sponsor_state" where
  "executeSponsorUnbound cfg pool nw atGate scr touched s =
     (if sc_op (ec_command cfg) \<noteq> ''sponsorUnbound'' then (Raised (bad_command (ec_job cfg)), s)
      else case sponsorCandidates (ec_command cfg) pool (\<lambda>p. sponsorCandidatesNonExclusive (ss_pool s) p nw atGate) of
        Inl m \<Rightarrow> (Raised (SponsorError m), s)
      | Inr candidates \<Rightarrow> unbound_rounds cfg scr touched 0 candidates None (s\<lparr>ss_led := new_ledger\<rparr>))"

end
