(* ===== verification/Sponsor_Executor_Safety.thy ===== *)
theory Sponsor_Executor_Safety
  imports Sponsor_Executor Job_Machine Grant_Budget_Safety
begin

text \<open>
  What holds of a sponsoring job however its attempts fail: no second transaction is announced while the
  outcome of one is open, and the grant's reserved deploys are exactly those of the attempt that may land.
\<close>

definition at_rest :: "sponsor_state \<Rightarrow> bool" where
  "at_rest s \<longleftrightarrow> currentSubmissionId (ss_led s) = None"

lemma on_pool_keeps [simp]: "at_rest (on_pool f s) = at_rest s" "ss_db (on_pool f s) = ss_db s" "ss_led (on_pool f s) = ss_led s"
  by (simp_all add: on_pool_def at_rest_def)

lemma fail_rest: "failPreviousAttempt cfg flt why rejected led db = (None, led', db') \<Longrightarrow> currentSubmissionId led' = None"
  by (auto simp: failPreviousAttempt_def Let_def split: option.splits prod.splits sum.splits)

lemma close_sponsored_rest: "close_sponsored cfg sc e s = (None, s') \<Longrightarrow> at_rest s'"
  by (auto simp: close_sponsored_def at_rest_def split: prod.splits dest: fail_rest)

section \<open>The interface: what an executor keeps\<close>

text \<open>
  A property of the state that one attempt, the closing of an attempt, the record of a landed job and the
  other jobs' use of the lanes keep is kept by both executors. An attempt starts with no row open; that is
  part of the laws, since the executors see to it.
\<close>

locale sponsor_run =
  fixes cfg :: executor_config and P :: "sponsor_state \<Rightarrow> bool" and allowed :: "attempt_script \<Rightarrow> bool"
  assumes attempt: "\<lbrakk>sponsorAttempt cfg sc s = (r, s'); P s; at_rest s; allowed sc\<rbrakk> \<Longrightarrow> P s'"
    and closing: "\<lbrakk>close_sponsored cfg sc e s = (x, s'); P s\<rbrakk> \<Longrightarrow> P s'"
    and recording: "\<lbrakk>recordOnGrant (ec_command cfg) out flt (ss_db s) = (y, db); P s\<rbrakk> \<Longrightarrow> P (s\<lparr>ss_db := db\<rparr>)"
    and pooling: "P s \<Longrightarrow> P (s\<lparr>ss_pool := p\<rparr>)"
begin

definition next_ok :: "sponsor_next \<times> sponsor_state \<Rightarrow> bool" where
  "next_ok n \<longleftrightarrow> P (snd n) \<and> ((\<forall>x. fst n \<noteq> Stop x) \<longrightarrow> at_rest (snd n))"

lemma next_ok_Stop [simp]: "next_ok (Stop x, s) = P s"
  by (simp add: next_ok_def)

lemma pooled: "P s \<Longrightarrow> P (on_pool f s)"
  unfolding on_pool_def by (rule pooling)

lemma finalized_failure_ok: "P s \<Longrightarrow> next_ok (finalized_failure cfg sc sid k e s)"
  using closing [of sc e s] close_sponsored_rest [of cfg sc e s]
  by (auto simp: finalized_failure_def next_ok_def Let_def split: prod.splits option.splits intro!: pooled)

lemma unbound_failure_ok: "P s \<Longrightarrow> next_ok (unbound_failure cfg sc sid k e s)"
  using closing [of sc e s] close_sponsored_rest [of cfg sc e s]
  by (auto simp: unbound_failure_def next_ok_def Let_def split: prod.splits option.splits intro!: pooled)

lemma finalized_step_ok:
  assumes "P s" "at_rest s" "allowed sc"
  shows "next_ok (finalized_step cfg sc sid k s)"
proof (cases "sponsorAttempt cfg sc s")
  case (Pair r s1)
  have s1: "P s1" by (rule attempt [OF Pair assms])
  show ?thesis
  proof (cases r)
    case (Inl e)
    then show ?thesis using Pair finalized_failure_ok pooled [OF s1] by (simp add: finalized_step_def)
  next
    case (Inr out)
    obtain x db where x: "recordOnGrant (ec_command cfg) out (at_record sc) (ss_db s1) = (x, db)" by fastforce
    have "P ((on_pool (releaseSponsor sid) s1)\<lparr>ss_db := db\<rparr>)" using recording [of out "at_record sc" "on_pool (releaseSponsor sid) s1" x db] x pooled [OF s1] by simp
    then show ?thesis using Pair Inr x finalized_failure_ok [OF pooled]
      by (cases x) (simp_all add: finalized_step_def Let_def)
  qed
qed

lemma unbound_step_ok:
  assumes "P s" "at_rest s" "allowed sc"
  shows "next_ok (unbound_step cfg sc sid k s)"
proof (cases "sponsorAttempt cfg sc s")
  case (Pair r s1)
  have s1: "P s1" by (rule attempt [OF Pair assms])
  show ?thesis
  proof (cases r)
    case (Inl e)
    then show ?thesis using Pair unbound_failure_ok pooled [OF s1] by (simp add: unbound_step_def)
  next
    case (Inr out)
    obtain x db where x: "recordOnGrant (ec_command cfg) out (at_record sc) (ss_db s1) = (x, db)" by fastforce
    have "P (s1\<lparr>ss_db := db\<rparr>)" by (rule recording [OF x s1])
    then show ?thesis using Pair Inr x unbound_failure_ok [OF pooled]
      by (cases x) (simp_all add: unbound_step_def Let_def)
  qed
qed

lemma finalized_try_ok: "P s \<Longrightarrow> at_rest s \<Longrightarrow> (\<And>k. allowed (scr k)) \<Longrightarrow> next_ok (finalized_try cfg scr sid k s)"
proof (induction "ec_retries cfg - k" arbitrary: k s rule: less_induct)
  case less
  obtain n s1 where n: "finalized_step cfg (scr k) sid k s = (n, s1)" by fastforce
  have ok: "next_ok (n, s1)" using finalized_step_ok [OF less(2,3,4), of k sid k] n by simp
  show ?case
  proof (cases n)
    case Retry
    then have "k < ec_retries cfg" using finalized_retry n by blast
    then show ?thesis using less(1) [of "k + 1" s1] less(4) ok Retry n by (subst finalized_try.simps) (simp add: next_ok_def)
  qed (use ok n in \<open>subst finalized_try.simps, simp\<close>)+
qed

lemma unbound_try_ok: "P s \<Longrightarrow> at_rest s \<Longrightarrow> (\<And>k. allowed (scr k)) \<Longrightarrow> next_ok (unbound_try cfg scr sid k s)"
proof (induction "ec_retries cfg - k" arbitrary: k s rule: less_induct)
  case less
  obtain n s1 where n: "unbound_step cfg (scr k) sid k s = (n, s1)" by fastforce
  have ok: "next_ok (n, s1)" using unbound_step_ok [OF less(2,3,4), of k sid k] n by simp
  show ?case
  proof (cases n)
    case Retry
    then have "k < ec_retries cfg" using unbound_retry n by blast
    then show ?thesis using less(1) [of "k + 1" s1] less(4) ok Retry n by (subst unbound_try.simps) (simp add: next_ok_def)
  qed (use ok n in \<open>subst unbound_try.simps, simp\<close>)+
qed

lemma finalized_rounds_ok:
  "P s \<Longrightarrow> at_rest s \<Longrightarrow> \<forall>r \<in> set rounds. \<forall>k. allowed (rd_attempts r k) \<Longrightarrow> P (snd (finalized_rounds cfg deadline atGate rounds cs lastErr s))"
proof (induction rounds arbitrary: cs lastErr s)
  case Nil
  then show ?case by (cases cs) simp_all
next
  case (Cons r rs)
  show ?case
  proof (cases cs)
    case Nil
    then show ?thesis using Cons by simp
  next
    case cs: (Cons c cs')
    obtain q p where q: "acquireSponsor (c # cs') (rd_now r) (max 0 (deadline - rd_now r)) atGate (rd_looks r) (ss_pool s) = (q, p)" by fastforce
    have p: "P (s\<lparr>ss_pool := p\<rparr>)" "at_rest (s\<lparr>ss_pool := p\<rparr>)" using pooling [OF Cons(2)] Cons(3) by (simp_all add: at_rest_def)
    show ?thesis
    proof (cases q)
      case (GotSponsor sid)
      obtain n s1 where n: "finalized_try cfg (rd_attempts r) sid 0 (s\<lparr>ss_pool := p\<rparr>) = (n, s1)" by fastforce
      have ok: "next_ok (n, s1)" using finalized_try_ok [OF p, of "rd_attempts r" sid 0] Cons(4) n by simp
      show ?thesis using Cons(1) [of s1] Cons(4) ok by (cases n) (simp_all add: cs q GotSponsor n next_ok_def)
    qed (use p in \<open>simp_all add: cs q\<close>)
  qed
qed

lemma unbound_rounds_ok:
  "P s \<Longrightarrow> at_rest s \<Longrightarrow> \<forall>i k. allowed (scr i k) \<Longrightarrow> P (snd (unbound_rounds cfg scr touched i cs lastErr s))"
proof (induction cs arbitrary: i lastErr s)
  case (Cons c cs)
  obtain n s1 where n: "unbound_try cfg (scr i) c 0 (on_pool (touchSponsor c (touched i)) s) = (n, s1)" by fastforce
  have ok: "next_ok (n, s1)"
    using unbound_try_ok [of "on_pool (touchSponsor c (touched i)) s" "scr i" c 0] pooled [OF Cons(2)] Cons(3,4) n by simp
  show ?case using Cons(1) [of s1] Cons(4) ok by (cases n) (simp_all add: n next_ok_def)
qed simp

lemma executed_ok:
  assumes "P s" "P (s\<lparr>ss_led := new_ledger\<rparr>)"
    and "\<forall>r \<in> set rounds. \<forall>k. allowed (rd_attempts r k)" "\<forall>i k. allowed (scr i k)"
    and "s' = snd (executeSponsorFinalized cfg pool deadline atGate rounds s) \<or> s' = snd (executeSponsorUnbound cfg pool nw atGate scr touched s)"
  shows "P s'"
proof -
  have rest: "at_rest (s\<lparr>ss_led := new_ledger\<rparr>)" by (simp add: at_rest_def new_ledger_def)
  show ?thesis
    using assms(5) assms(1) finalized_rounds_ok [OF assms(2) rest assms(3)] unbound_rounds_ok [OF assms(2) rest assms(4)]
    by (auto simp: executeSponsorFinalized_def executeSponsorUnbound_def split: sum.splits)
qed

end

section \<open>The rows of a run\<close>

definition closed_row :: "submission \<Rightarrow> bool" where
  "closed_row r \<longleftrightarrow> ps_status r = SubFailed \<and> (ps_errorCode r = Some ''REJECTED'' \<or> ps_errorCode r = Some ''REBUILT'')"

text \<open>Of the rows with an identifier of this run, only the current attempt's may be open.\<close>

definition rows_ok :: "string set \<Rightarrow> sponsor_ledger \<Rightarrow> jdb \<Rightarrow> bool" where
  "rows_ok A led db \<longleftrightarrow> (\<forall>r \<in> set (db_subs db). ps_ID r \<in> A \<and> \<not> closed_row r \<longrightarrow> Some (ps_ID r) = currentSubmissionId led)"

definition run_ok :: "string set \<Rightarrow> sponsor_state \<Rightarrow> bool" where
  "run_ok A s \<longleftrightarrow> rows_ok A (ss_led s) (ss_db s)"

text \<open>Others neither add nor change rows of the run.\<close>

definition keeps_rows :: "string set \<Rightarrow> attempt_script \<Rightarrow> bool" where
  "keeps_rows A sc \<longleftrightarrow> (\<forall>db. \<forall>r \<in> set (db_subs (at_world sc db)). ps_ID r \<in> A \<longrightarrow> r \<in> set (db_subs db))"

lemma keeps_rows_ok: "keeps_rows A sc \<Longrightarrow> rows_ok A led db \<Longrightarrow> rows_ok A led (at_world sc db)"
  unfolding keeps_rows_def rows_ok_def by blast

lemma close_body_subs: "db_subs (snd (close_body cfg rowId h refund rejected why db)) = db_subs (close_row rowId rejected why db)"
  by (simp add: close_body_def Let_def split: prod.splits)

lemma close_row_ok:
  "rows_ok A led db \<Longrightarrow> currentSubmissionId led = Some rowId \<Longrightarrow> rows_ok A (led\<lparr>currentSubmissionId := None\<rparr>) (close_row rowId rejected why db)"
  by (auto simp: rows_ok_def close_row_def snd_update_where closed_row_def)

lemma rows_ok_subs: "db_subs db' = db_subs db \<Longrightarrow> currentSubmissionId led' = currentSubmissionId led \<Longrightarrow> rows_ok A led' db' = rows_ok A led db"
  by (simp add: rows_ok_def)

lemma fail_rows:
  assumes "failPreviousAttempt cfg flt why rejected led db = (x, led', db')" "rows_ok A led db"
  shows "rows_ok A led' db' \<and> (x = None \<longrightarrow> currentSubmissionId led' = None)"
proof (cases "currentSubmissionId led")
  case None
  then show ?thesis using assms by (auto simp: failPreviousAttempt_def)
next
  case (Some rowId)
  let ?refund = "refund_due cfg led rejected"
  obtain q db1 where q: "withLockContentionRetry (db_tx flt (close_body cfg rowId (currentTxHash led) ?refund rejected why)) db = (q, db1)"
    by fastforce
  show ?thesis
  proof (cases q)
    case (Inl e)
    then show ?thesis using assms Some q retried_tx_cases [OF q] by (auto simp: failPreviousAttempt_def Let_def)
  next
    case (Inr u)
    then have b: "close_body cfg rowId (currentTxHash led) ?refund rejected why db = (Inr u, db1)"
      using retried_tx_cases [OF q] by auto
    have r: "x = None" "db' = db1" "currentSubmissionId led' = None"
      using assms(1) Some q Inr by (auto simp: failPreviousAttempt_def Let_def)
    have "rows_ok A (led\<lparr>currentSubmissionId := None\<rparr>) (close_row rowId rejected why db)" by (rule close_row_ok [OF assms(2) Some])
    then have "rows_ok A led' db'"
      using close_body_subs [of cfg rowId "currentTxHash led" ?refund rejected why db] b r(2,3) by (simp add: rows_ok_def)
    then show ?thesis using r by simp
  qed
qed

lemma announce_body_subs:
  "announce_body cfg sc led sid hash it db = (Inr u, db') \<Longrightarrow> db_subs db' = db_subs db @ [attempt_row (ec_command cfg) (at_sponsor sc) (at_now sc) sid hash it]"
  by (auto simp: announce_body_def Let_def split: prod.splits sum.splits if_splits)

lemma announce_rows:
  assumes "onSubmitIntent cfg sc sid hash it led db = (r, led', db')" "rows_ok A led db" "currentSubmissionId led = None"
  shows "rows_ok A led' db'"
proof -
  obtain q db1 where q: "withLockContentionRetry (db_tx (at_faults sc) (announce_body cfg sc led sid hash it)) db = (q, db1)" by fastforce
  show ?thesis
  proof (cases q)
    case (Inl e)
    then show ?thesis using assms q retried_tx_cases [OF q] by (auto simp: onSubmitIntent_def)
  next
    case (Inr u)
    then have "db_subs db1 = db_subs db @ [attempt_row (ec_command cfg) (at_sponsor sc) (at_now sc) sid hash it]"
      using retried_tx_cases [OF q] announce_body_subs by auto
    then show ?thesis using assms q Inr by (auto simp: onSubmitIntent_def rows_ok_def attempt_row_def)
  qed
qed

lemma included_rows: "rows_ok A led db \<Longrightarrow> rows_ok A led (markIncluded w out led db)"
  by (auto simp: markIncluded_def rows_ok_def snd_update_where split: option.splits)

lemma announcement_rows:
  assumes "announcement cfg sc s = (x, s')" "run_ok A s" "at_rest s"
  shows "run_ok A s'"
proof (cases "at_intent sc")
  case None
  then show ?thesis using assms by (simp add: announcement_def)
next
  case (Some t)
  obtain sid hash it where t: "t = (sid, hash, it)" by (cases t)
  obtain r led db where q: "onSubmitIntent cfg sc sid hash it (ss_led s) (ss_db s) = (r, led, db)" by (metis prod_cases3)
  have "rows_ok A led db" using announce_rows [OF q] assms(2,3) by (simp add: run_ok_def at_rest_def)
  moreover have "s' = s\<lparr>ss_led := led, ss_db := db\<rparr>" using assms(1) Some t q by (simp add: announcement_def)
  ultimately show ?thesis by (simp add: run_ok_def)
qed

lemma attempt_rows:
  assumes "sponsorAttempt cfg sc s = (r, s')" "run_ok A s" "at_rest s" "keeps_rows A sc"
  shows "run_ok A s'"
proof (cases "at_before sc")
  case None
  let ?w = "s\<lparr>ss_db := at_world sc (ss_db s)\<rparr>"
  have w: "run_ok A ?w" "at_rest ?w" using assms(2-4) by (simp_all add: run_ok_def at_rest_def keeps_rows_ok)
  obtain x s1 where x: "announcement cfg sc ?w = (x, s1)" by fastforce
  have s1: "run_ok A s1" by (rule announcement_rows [OF x w])
  show ?thesis
    using assms(1) s1 included_rows [of A "ss_led s1" "ss_db s1"]
    by (cases x; cases "at_answer sc") (auto simp: sponsorAttempt_def None x run_ok_def)
qed (use assms in \<open>simp add: sponsorAttempt_def\<close>)

lemma record_subs: "db_subs (snd (recordOnGrant cmd out flt db)) = db_subs db"
  by (auto simp: recordOnGrant_def Let_def split: option.splits)

lemma close_sponsored_rows:
  assumes "close_sponsored cfg sc e s = (x, s')" "run_ok A s"
  shows "run_ok A s' \<and> (x = None \<longrightarrow> at_rest s')"
proof -
  obtain y led db where f: "failPreviousAttempt cfg (at_close sc) (en_message (th_error e)) (sv_preInclusion (decideSponsorFailure e)) (ss_led s) (ss_db s) = (y, led, db)"
    by (metis prod_cases3)
  have "x = y" "s' = s\<lparr>ss_led := led, ss_db := db\<rparr>" using assms(1) by (simp_all add: close_sponsored_def f)
  then show ?thesis using fail_rows [OF f] assms(2) by (simp add: run_ok_def at_rest_def)
qed

lemma record_ok: "recordOnGrant cmd out flt (ss_db s) = (x, db) \<Longrightarrow> run_ok A s \<Longrightarrow> run_ok A (s\<lparr>ss_db := db\<rparr>)"
  using record_subs [of cmd out flt "ss_db s"] by (simp add: run_ok_def rows_ok_def)

interpretation rows: sponsor_run cfg "run_ok A" "keeps_rows A" for cfg A
proof unfold_locales
  show "run_ok A s'" if "sponsorAttempt cfg sc s = (r, s')" "run_ok A s" "at_rest s" "keeps_rows A sc" for sc s r s'
    using that by (rule attempt_rows)
  show "run_ok A s'" if "close_sponsored cfg sc e s = (x, s')" "run_ok A s" for sc e s x s'
    using close_sponsored_rows that by blast
  show "run_ok A (s\<lparr>ss_db := db\<rparr>)" if "recordOnGrant (ec_command cfg) out flt (ss_db s) = (x, db)" "run_ok A s" for out flt s x db
    using record_ok that by blast
qed (simp add: run_ok_def)

lemma fresh_rows: "\<forall>r \<in> set (db_subs (ss_db s)). ps_ID r \<notin> A \<Longrightarrow> run_ok A s \<and> run_ok A (s\<lparr>ss_led := new_ledger\<rparr>)"
  by (auto simp: run_ok_def rows_ok_def)

text \<open>
  C20. However the attempts of a sponsoring job fail, with one wallet or several: of the rows its
  attempts wrote, every one but the current attempt's is closed as rejected or rebuilt when the job's
  executor ends. No transaction is announced while the one before it is open.
\<close>

theorem one_open_attempt:
  assumes "\<forall>r \<in> set (db_subs (ss_db s)). ps_ID r \<notin> A"
    and "\<forall>r \<in> set rounds. \<forall>k. keeps_rows A (rd_attempts r k)" "\<forall>i k. keeps_rows A (scr i k)"
    and "s' = snd (executeSponsorFinalized cfg pool deadline atGate rounds s) \<or> s' = snd (executeSponsorUnbound cfg pool nw atGate scr touched s)"
    and "r \<in> set (db_subs (ss_db s'))" "ps_ID r \<in> A" "\<not> closed_row r"
  shows "currentSubmissionId (ss_led s') = Some (ps_ID r)"
proof -
  have "run_ok A s'" using rows.executed_ok [OF _ _ assms(2,3,4)] fresh_rows [OF assms(1)] by blast
  then show ?thesis using assms(5-7) by (simp add: run_ok_def rows_ok_def)
qed

section \<open>A run\<close>

text \<open>A job whose first attempt meets a dust race and whose second attempt gets no answer.\<close>

definition worker_error :: "string \<Rightarrow> string option \<Rightarrow> string \<Rightarrow> thrown" where
  "worker_error code ledger m =
     \<lparr>th_error = \<lparr>en_name = ''Error'', en_message = m, en_code = Some code, en_nightgate = False, en_phase = None, en_blockHeight = None,
                  en_ledgerCode = ledger, en_retryable = False, en_calls = None\<rparr>, th_causes = [], th_rendered = m\<rparr>"

definition race :: thrown where "race = worker_error ''dust-race'' (Some ''1010/170'') ''dust race''"
definition unanswered :: thrown where "unanswered = worker_error ''ambiguous'' (Some ''no-reply'') ''no reply''"

definition sample_intent :: attempt_intent where
  "sample_intent = \<lparr>ai_contractAddress = Some ''c1'', ai_circuits = Some [''mint''], ai_note = None, ai_sponsorAccountId = None, ai_deployed = Some [''d1''],
     ai_ttl = None, ai_segments = [], ai_minted = [], ai_nullifiers = [], ai_unshielded = [], ai_transfer = None\<rparr>"

definition sample_out :: sponsor_out where
  "sample_out = \<lparr>so_contractAddress = Some ''c1'', so_circuits = Some [''mint''], so_deployed = [''d1''], so_minted = []\<rparr>"

definition sample_attempt :: "string \<Rightarrow> thrown + sponsor_out \<Rightarrow> thrown option \<Rightarrow> attempt_script" where
  "sample_attempt sid answer rec =
     \<lparr>at_before = None, at_sponsor = ''s1'', at_intent = Some (sid, sid @ ''-tx'', sample_intent), at_faults = (\<lambda>_. None),
      at_refused = (\<lambda>e. worker_error ''internal'' None (err_message e)), at_answer = answer, at_included = True, at_record = rec,
      at_close = (\<lambda>_. None), at_lease = [], at_world = (\<lambda>db. db), at_pool = (\<lambda>p. p), at_now = 0\<rparr>"

definition sample_grant_row :: agent_grant where
  "sample_grant_row = sample_row\<lparr>ag_ID := ''g1'', ag_allowDeploy := Some True, ag_maxDeploys := Some 1, ag_deploysUsed := Some 0, ag_isActive := Some True\<rparr>"

definition sample_config :: executor_config where
  "sample_config = \<lparr>ec_command = \<lparr>sc_op = ''sponsorUnbound'', sc_grantId = Some ''g1'', sc_sponsorSessionId = Some ''s1'', sc_offerId = None\<rparr>,
     ec_env = sample_job_env, ec_job = ID sample_job, ec_proc = \<lparr>activeLease = None, fenced = False\<rparr>, ec_retries = 2, ec_cooldownMs = 1000\<rparr>"

definition sample_state :: sponsor_state where
  "sample_state = \<lparr>ss_db = \<lparr>db_jobs = [sample_job\<lparr>status := Running, leaseOwner := Some (workerId sample_job_env)\<rparr>], db_subs = [],
       db_grants = [sample_grant_row], db_generation = None\<rparr>, ss_pool = Map.empty, ss_led = new_ledger\<rparr>"

definition race_then_silence :: "nat \<Rightarrow> nat \<Rightarrow> attempt_script" where
  "race_then_silence i k = (if k = 0 then sample_attempt ''a0'' (Inl race) None else sample_attempt ''a1'' (Inl unanswered) None)"

definition outcome_of :: "sponsor_end \<times> sponsor_state \<Rightarrow> (string \<times> submission_status \<times> string option) list \<times> int option list \<times> string option" where
  "outcome_of r = (map (\<lambda>x. (ps_ID x, ps_status x, ps_errorCode x)) (db_subs (ss_db (snd r))),
     map ag_deploysUsed (db_grants (ss_db (snd r))), currentSubmissionId (ss_led (snd r)))"

lemma race_run:
  "outcome_of (executeSponsorUnbound sample_config [] 0 None race_then_silence (\<lambda>_. 0) sample_state)
     = ([(''a0'', SubFailed, Some ''REJECTED''), (''a1'', SubPending, None)], [Some 1], Some ''a1'')"
  by code_simp

lemma one_open_attempt_witness:
  "currentSubmissionId (ss_led (snd (executeSponsorUnbound sample_config [] 0 None race_then_silence (\<lambda>_. 0) sample_state))) = Some ''a1''"
proof -
  let ?r = "executeSponsorUnbound sample_config [] 0 None race_then_silence (\<lambda>_. 0) sample_state"
  have "(''a1'', SubPending, None) \<in> set (fst (outcome_of ?r))" by (simp add: race_run)
  then obtain x where x: "x \<in> set (db_subs (ss_db (snd ?r)))" "ps_ID x = ''a1''" "ps_status x = SubPending"
    by (auto simp: outcome_of_def)
  have "currentSubmissionId (ss_led (snd ?r)) = Some (ps_ID x)"
  proof (rule one_open_attempt)
    show "\<forall>r \<in> set (db_subs (ss_db sample_state)). ps_ID r \<notin> {''a0'', ''a1''}" by (simp add: sample_state_def)
    show "\<forall>r \<in> set []. \<forall>k. keeps_rows {''a0'', ''a1''} (rd_attempts r k)" by simp
    show "\<forall>i k. keeps_rows {''a0'', ''a1''} (race_then_silence i k)"
      by (simp add: keeps_rows_def race_then_silence_def sample_attempt_def)
    show "snd ?r = snd (executeSponsorFinalized sample_config [] 0 None [] sample_state) \<or> snd ?r = snd ?r" by simp
  qed (use x in \<open>simp_all add: closed_row_def\<close>)
  then show ?thesis using x(2) by simp
qed



section \<open>Reserved deploys\<close>

definition counter_cell :: "string \<Rightarrow> jdb \<Rightarrow> int option list" where
  "counter_cell gid db = map ag_deploysUsed (filter (\<lambda>g. ag_ID g = gid) (db_grants db))"

text \<open>The grant's counter is what it was at the start and what the run has reserved, none or the deploys of one transaction.\<close>

definition deploys_ok :: "string \<Rightarrow> int \<Rightarrow> nat \<Rightarrow> sponsor_ledger \<Rightarrow> jdb \<Rightarrow> bool" where
  "deploys_ok gid u n led db \<longleftrightarrow> counter_cell gid db = [Some (u + int (reservedDeploys led))] \<and> (reservedDeploys led = 0 \<or> reservedDeploys led = n)"

text \<open>All attempts announce the same number of deploys, and others leave the counter alone.\<close>

definition same_deploys :: "string \<Rightarrow> nat \<Rightarrow> attempt_script \<Rightarrow> bool" where
  "same_deploys gid n sc \<longleftrightarrow>
     (\<forall>sid hash it. at_intent sc = Some (sid, hash, it) \<longrightarrow> length (deployed_of it) = n) \<and> (\<forall>db. counter_cell gid (at_world sc db) = counter_cell gid db)"

lemma cell_map:
  "(\<And>g. ag_ID (f g) = ag_ID g) \<Longrightarrow> map ag_deploysUsed (filter (\<lambda>g. ag_ID g = gid) (map f gs)) = map (\<lambda>g. ag_deploysUsed (f g)) (filter (\<lambda>g. ag_ID g = gid) gs)"
  by (induction gs) auto

lemma cell_row:
  assumes "map ag_deploysUsed (filter (\<lambda>g. ag_ID g = gid) gs) = [Some v]"
  obtains g where "filter (\<lambda>g. ag_ID g = gid) gs = [g]" "ag_deploysUsed g = Some v"
  using assms by (auto simp: map_eq_Cons_conv)

lemma reserve_cell:
  assumes "map ag_deploysUsed (filter (\<lambda>g. ag_ID g = gid) gs) = [Some v]" "reserveDeployBudget gid c row gs = (True, gs')"
  shows "map ag_deploysUsed (filter (\<lambda>g. ag_ID g = gid) gs') = [Some (v + c)]"
proof -
  obtain g where g: "filter (\<lambda>g. ag_ID g = gid) gs = [g]" "ag_deploysUsed g = Some v" using cell_row [OF assms(1)] by blast
  let ?m = "deploy_limit (the row)"
  have m: "0 < fst (reserve_stmt gid c ?m gs)" "gs' = snd (reserve_stmt gid c ?m gs)"
    using assms(2) by (auto simp: reserveDeployBudget_def split: option.splits if_splits prod.splits)
  let ?p = "\<lambda>g. ag_isActive g = Some True \<and> ag_allowDeploy g = Some True \<and> sql_le (ag_deploysUsed g) (?m - c)"
  have "filter (\<lambda>r. ag_ID r = gid \<and> ?p r) gs = filter ?p (filter (\<lambda>r. ag_ID r = gid) gs)" by (simp add: conj_commute filter_filter)
  then have "?p g" using m(1) g(1) by (auto simp: reserve_stmt_def fst_update_where split: if_splits)
  then show ?thesis using g m(2)
    by (simp add: reserve_stmt_def snd_update_where cell_map sql_add_def) (auto dest: filter_eq_ConsD)
qed

lemma release_cell:
  assumes "map ag_deploysUsed (filter (\<lambda>g. ag_ID g = gid) gs) = [Some (u + int c)]" "0 \<le> u" "gid \<noteq> []" "0 < c"
  shows "map ag_deploysUsed (filter (\<lambda>g. ag_ID g = gid) (releaseDeployBudget gid (int c) gs)) = [Some u]"
proof -
  obtain g where g: "filter (\<lambda>g. ag_ID g = gid) gs = [g]" "ag_deploysUsed g = Some (u + int c)" using cell_row [OF assms(1)] by blast
  then have "ag_ID g = gid" by (auto dest: filter_eq_ConsD)
  then show ?thesis using g assms(2-4) by (simp add: releaseDeployBudget_def deployRefund_def snd_update_where cell_map sql_ge_def sql_add_def)
qed

lemma deploys_ok_cell: "deploys_ok gid u n led db \<Longrightarrow> db_grants db' = db_grants db \<Longrightarrow> deploys_ok gid u n led db'"
  by (simp add: deploys_ok_def counter_cell_def)

lemma announce_body_deploys:
  assumes "announce_body cfg sc led sid hash it db = (Inr v, db')" "deploys_ok gid u n led db"
    and "grant_of (ec_command cfg) = Some gid" "length (deployed_of it) = n"
  shows "counter_cell gid db' = [Some (u + int n)] \<or> n = 0 \<and> counter_cell gid db' = counter_cell gid db"
proof -
  let ?need = "deploy_need (ec_command cfg) led it"
  have need: "?need = n - reservedDeploys led" using assms(3,4) by (simp add: deploy_need_def)
  show ?thesis
  proof (cases "0 < ?need")
    case True
    obtain ok gs where r: "reserveDeployBudget gid (int ?need) (select_one (\<lambda>g. ag_ID g = gid) (db_grants db)) (db_grants db) = (ok, gs)" by fastforce
    have "ok" "db_grants db' = gs"
      using assms(1,3) True r by (auto simp: announce_body_def Let_def split: prod.splits sum.splits if_splits)
    moreover have "u + int (reservedDeploys led) + int ?need = u + int n" using need True by simp
    ultimately show ?thesis using reserve_cell [of gid "db_grants db" "u + int (reservedDeploys led)" "int ?need"] r assms(2)
      by (simp add: deploys_ok_def counter_cell_def)
  next
    case False
    then have "db_grants db' = db_grants db"
      using assms(1) by (auto simp: announce_body_def Let_def split: prod.splits sum.splits if_splits)
    then show ?thesis using assms(2) need False by (auto simp: deploys_ok_def counter_cell_def)
  qed
qed

lemma announcement_deploys:
  assumes "announcement cfg sc s = (x, s')" "deploys_ok gid u n (ss_led s) (ss_db s)" "grant_of (ec_command cfg) = Some gid" "same_deploys gid n sc"
  shows "deploys_ok gid u n (ss_led s') (ss_db s')"
proof (cases "at_intent sc")
  case None
  then show ?thesis using assms by (simp add: announcement_def)
next
  case (Some t)
  obtain sid hash it where t: "t = (sid, hash, it)" by (cases t)
  have len: "length (deployed_of it) = n" using assms(4) Some t by (simp add: same_deploys_def)
  obtain q db1 where q: "withLockContentionRetry (db_tx (at_faults sc) (announce_body cfg sc (ss_led s) sid hash it)) (ss_db s) = (q, db1)" by fastforce
  show ?thesis
  proof (cases q)
    case (Inl e)
    then show ?thesis using assms(1,2) Some t q retried_tx_cases [OF q] by (auto simp: announcement_def onSubmitIntent_def)
  next
    case (Inr v)
    then have b: "announce_body cfg sc (ss_led s) sid hash it (ss_db s) = (Inr v, db1)" using retried_tx_cases [OF q] by auto
    have s': "ss_db s' = db1" "reservedDeploys (ss_led s') = (if n = 0 then reservedDeploys (ss_led s) else n)"
      using assms(1,3) Some t q Inr len by (auto simp: announcement_def onSubmitIntent_def)
    show ?thesis
      using announce_body_deploys [OF b assms(2,3) len] assms(2) s' by (auto simp: deploys_ok_def)
  qed
qed

lemma fail_deploys:
  assumes "failPreviousAttempt cfg flt why rejected led db = (x, led', db')" "deploys_ok gid u n led db" "grant_of (ec_command cfg) = Some gid" "0 \<le> u"
  shows "deploys_ok gid u n led' db' \<and> (rejected \<and> x = None \<and> currentSubmissionId led \<noteq> None \<longrightarrow> reservedDeploys led' = 0)"
proof (cases "currentSubmissionId led")
  case None
  then show ?thesis using assms by (auto simp: failPreviousAttempt_def)
next
  case (Some rowId)
  have gid: "gid \<noteq> []" using assms(3) by (auto simp: grant_of_def split: option.splits if_splits)
  let ?c = "refund_due cfg led rejected"
  obtain q db1 where q: "withLockContentionRetry (db_tx flt (close_body cfg rowId (currentTxHash led) ?c rejected why)) db = (q, db1)" by fastforce
  show ?thesis
  proof (cases q)
    case (Inl e)
    then show ?thesis using assms Some q retried_tx_cases [OF q] by (auto simp: failPreviousAttempt_def Let_def split: if_splits)
  next
    case (Inr v)
    then have b: "close_body cfg rowId (currentTxHash led) ?c rejected why db = (Inr v, db1)" using retried_tx_cases [OF q] by auto
    have r: "db' = db1" "reservedDeploys led' = (if 0 < ?c then 0 else reservedDeploys led)"
      using assms(1) Some q Inr by (auto simp: failPreviousAttempt_def Let_def)
    have "db_grants db1 = (if 0 < ?c then releaseDeployBudget gid (int ?c) (db_grants db) else db_grants db)"
      using b assms(3) by (auto simp: close_body_def close_row_def Let_def split: prod.splits if_splits)
    moreover have "0 < ?c \<Longrightarrow> ?c = reservedDeploys led" by (simp add: refund_due_def split: if_splits)
    moreover have "rejected \<Longrightarrow> ?c = reservedDeploys led" using assms(3) by (simp add: refund_due_def)
    ultimately show ?thesis
      using assms(2,4) r gid release_cell [of gid "db_grants db" u ?c] by (auto simp: deploys_ok_def counter_cell_def)
  qed
qed

definition reserved_ok :: "executor_config \<Rightarrow> string \<Rightarrow> int \<Rightarrow> nat \<Rightarrow> sponsor_state \<Rightarrow> bool" where
  "reserved_ok cfg gid u n s \<longleftrightarrow> (grant_of (ec_command cfg) = Some gid \<and> 0 \<le> u \<longrightarrow> deploys_ok gid u n (ss_led s) (ss_db s))"

lemma counter_update:
  "(\<And>g. ag_ID (f g) = ag_ID g \<and> ag_deploysUsed (f g) = ag_deploysUsed g)
     \<Longrightarrow> map ag_deploysUsed (filter (\<lambda>g. ag_ID g = gid) (snd (update_where P f gs))) = map ag_deploysUsed (filter (\<lambda>g. ag_ID g = gid) gs)"
  by (induction gs) (auto simp: update_where_def)

lemma deployed_cell: "map ag_deploysUsed (filter (\<lambda>g. ag_ID g = gid) (recordDeployedContracts g ds gs)) = map ag_deploysUsed (filter (\<lambda>g. ag_ID g = gid) gs)"
  unfolding recordDeployedContracts_def Let_def by (simp split: option.split) (simp add: counter_update)

lemma minted_cell: "map ag_deploysUsed (filter (\<lambda>g. ag_ID g = gid) (recordMintedTokenTypes g ts gs)) = map ag_deploysUsed (filter (\<lambda>g. ag_ID g = gid) gs)"
  unfolding recordMintedTokenTypes_def Let_def by (simp split: option.split) (simp add: counter_update)

lemma record_cell: "counter_cell gid (snd (recordOnGrant cmd out flt db)) = counter_cell gid db"
  by (simp add: recordOnGrant_def counter_cell_def Let_def deployed_cell minted_cell split: option.split)

interpretation deploys: sponsor_run cfg "reserved_ok cfg gid u n" "same_deploys gid n" for cfg gid u n
proof unfold_locales
  show "reserved_ok cfg gid u n s'" if "sponsorAttempt cfg sc s = (r, s')" "reserved_ok cfg gid u n s" "same_deploys gid n sc" for sc s r s'
  proof (cases "at_before sc")
    case None
    let ?w = "s\<lparr>ss_db := at_world sc (ss_db s)\<rparr>"
    obtain x s1 where x: "announcement cfg sc ?w = (x, s1)" by fastforce
    have "reserved_ok cfg gid u n s1"
      using announcement_deploys [OF x, of gid u n] that(2,3) by (auto simp: reserved_ok_def deploys_ok_def same_deploys_def)
    then show ?thesis using that(1)
      by (cases x; cases "at_answer sc")
         (auto simp: sponsorAttempt_def None x reserved_ok_def deploys_ok_def counter_cell_def markIncluded_def split: option.splits)
  qed (use that in \<open>simp add: sponsorAttempt_def\<close>)
  show "reserved_ok cfg gid u n s'" if "close_sponsored cfg sc e s = (x, s')" "reserved_ok cfg gid u n s" for sc e s x s'
  proof -
    obtain y led db where f: "failPreviousAttempt cfg (at_close sc) (en_message (th_error e)) (sv_preInclusion (decideSponsorFailure e)) (ss_led s) (ss_db s) = (y, led, db)"
      by (metis prod_cases3)
    have "s' = s\<lparr>ss_led := led, ss_db := db\<rparr>" using that(1) by (simp add: close_sponsored_def f)
    then show ?thesis using fail_deploys [OF f, of gid u n] that(2) by (simp add: reserved_ok_def)
  qed
  show "reserved_ok cfg gid u n (s\<lparr>ss_db := db\<rparr>)" if "recordOnGrant (ec_command cfg) out flt (ss_db s) = (x, db)" "reserved_ok cfg gid u n s" for out flt s x db
    using record_cell [of gid "ec_command cfg" out flt "ss_db s"] that by (simp add: reserved_ok_def deploys_ok_def)
qed (simp add: reserved_ok_def)

text \<open>
  C22. However many attempts a sponsoring job needs, and whatever fails in between, its grant's
  counter of deploys ends at the value before plus what the job's ledger still reserves: nothing, or the
  deploys of one transaction.
\<close>

theorem deploys_reserved_once:
  assumes "counter_cell gid (ss_db s) = [Some u]" "0 \<le> u" "ss_led s = new_ledger" "grant_of (ec_command cfg) = Some gid"
    and "\<forall>r \<in> set rounds. \<forall>k. same_deploys gid n (rd_attempts r k)" "\<forall>i k. same_deploys gid n (scr i k)"
    and "s' = snd (executeSponsorFinalized cfg pool deadline atGate rounds s) \<or> s' = snd (executeSponsorUnbound cfg pool nw atGate scr touched s)"
  shows "counter_cell gid (ss_db s') = [Some (u + int (reservedDeploys (ss_led s')))] \<and> reservedDeploys (ss_led s') \<in> {0, n}"
proof -
  have "reserved_ok cfg gid u n s" "reserved_ok cfg gid u n (s\<lparr>ss_led := new_ledger\<rparr>)"
    using assms(1,3) by (simp_all add: reserved_ok_def deploys_ok_def new_ledger_def)
  then have "reserved_ok cfg gid u n s'" by (rule deploys.executed_ok [OF _ _ assms(5-7)])
  then show ?thesis using assms(2,4) by (simp add: reserved_ok_def deploys_ok_def)
qed

lemma deploys_reserved_once_witness:
  "counter_cell ''g1'' (ss_db (snd (executeSponsorUnbound sample_config [] 0 None race_then_silence (\<lambda>_. 0) sample_state)))
     = [Some (int (reservedDeploys (ss_led (snd (executeSponsorUnbound sample_config [] 0 None race_then_silence (\<lambda>_. 0) sample_state)))))]"
  using deploys_reserved_once [of "''g1''" sample_state 0 sample_config "[]" 1 race_then_silence
      "snd (executeSponsorUnbound sample_config [] 0 None race_then_silence (\<lambda>_. 0) sample_state)" "[]" 0 None 0 "\<lambda>_. 0"]
  by (simp add: sample_state_def counter_cell_def sample_grant_row_def grant_of_def sample_config_def race_then_silence_def
      same_deploys_def sample_attempt_def sample_intent_def deployed_of_def)

section \<open>An error after the landing\<close>

text \<open>The database goes away while the deploy of a landed job is recorded.\<close>

definition db_down :: thrown where
  "db_down = worker_error ''57P01'' None ''down''"

lemma db_down_code: "classifySubmitFailure db_down = failure InternalFailure None False"
  by code_simp

lemma db_down_verdict: "decideSponsorFailure db_down = \<lparr>sv_decision = DecideFail, sv_generic = False, sv_preInclusion = False\<rparr>"
proof -
  have "findNightgateError db_down = None" "\<not> is_fee_sponsor_error db_down" "\<not> sponsor_message (en_message (th_error db_down))"
    by code_simp+
  then show ?thesis
    by (simp add: decideSponsorFailure_def isPreInclusionReject_def isRetryableSponsorFailure_def Let_def db_down_code failure_def)
qed

definition landed_attempt :: attempt_script where
  "landed_attempt = sample_attempt ''a0'' (Inr sample_out) (Some db_down)"

definition landed_state :: sponsor_state where
  "landed_state = snd (sponsorAttempt sample_config landed_attempt sample_state)"

lemma landed: "sponsorAttempt sample_config landed_attempt sample_state = (Inr sample_out, landed_state)"
proof -
  have "fst (sponsorAttempt sample_config landed_attempt sample_state) = Inr sample_out" by code_simp
  then show ?thesis by (simp add: landed_state_def prod_eq_iff)
qed

lemma not_recorded: "recordOnGrant (ec_command sample_config) sample_out (at_record landed_attempt) (ss_db landed_state) = (Some db_down, ss_db landed_state)"
  by (simp add: recordOnGrant_def sample_config_def grant_of_def sample_out_def landed_attempt_def sample_attempt_def)

lemma landed_included: "map (\<lambda>x. (ps_ID x, ps_status x)) (db_subs (ss_db landed_state)) = [(''a0'', SubIncluded)]"
  by code_simp

lemma closed_without_faults:
  assumes "currentSubmissionId led = Some rowId" "sv_decision (decideSponsorFailure e) = DecideFail" "\<not> sv_preInclusion (decideSponsorFailure e)"
    and "at_close sc = (\<lambda>_. None)" "ss_led s = led"
  obtains s' where "close_sponsored cfg sc e s = (None, s')" "ss_pool s' = ss_pool s"
    "db_subs (ss_db s') = db_subs (close_row rowId False (en_message (th_error e)) (ss_db s))"
proof -
  have "refund_due cfg led False = 0" by (simp add: refund_due_def)
  then have "withLockContentionRetry (db_tx (\<lambda>_. None) (close_body cfg rowId (currentTxHash led) (refund_due cfg led False) False (en_message (th_error e)))) (ss_db s)
      = (Inr (), close_row rowId False (en_message (th_error e)) (ss_db s))"
    by (intro tx_attempt.retry_first) (simp add: db_tx_def close_body_def Let_def)
  then show thesis using assms that by (simp add: close_sponsored_def failPreviousAttempt_def Let_def)
qed

text \<open>
  C33. An error while a landed job's deploy is recorded on the grant is handled as a failure of
  the payment: the row of the transaction that is in a block is closed as rebuilt, and the executor throws.
  The executor of finalized transactions releases its wallet a second time, also when another job was given
  it in between.
\<close>

theorem landed_row_rebuilt:
  assumes "sponsorAttempt cfg sc s = (Inr out, s1)" "currentSubmissionId (ss_led s1) = Some rowId"
    and "recordOnGrant (ec_command cfg) out (at_record sc) (ss_db s1) = (Some e, db)"
    and "sv_decision (decideSponsorFailure e) = DecideFail" "\<not> sv_preInclusion (decideSponsorFailure e)" "at_close sc = (\<lambda>_. None)"
  shows "\<exists>s' s''. unbound_step cfg sc sid k s = (Stop (Raised (SendFailed e)), s')
      \<and> (\<forall>r \<in> set (db_subs (ss_db s')). ps_ID r = rowId \<longrightarrow> closed_row r)
    \<and> finalized_step cfg sc sid k s = (Stop (Raised (SendFailed e)), s'')
      \<and> (\<forall>r \<in> set (db_subs (ss_db s'')). ps_ID r = rowId \<longrightarrow> closed_row r) \<and> \<not> ln_busy (lane sid (ss_pool s''))"
proof -
  have closed: "\<forall>r \<in> set (db_subs (close_row rowId False m x)). ps_ID r = rowId \<longrightarrow> closed_row r" for m x
    by (simp add: close_row_def snd_update_where closed_row_def ball_Un)
  let ?u = "on_pool (at_pool sc) (s1\<lparr>ss_db := db\<rparr>)"
  obtain u where u: "close_sponsored cfg sc e ?u = (None, u)" "db_subs (ss_db u) = db_subs (close_row rowId False (en_message (th_error e)) db)"
    by (rule closed_without_faults [OF assms(2,4,5,6), of ?u cfg]) (simp_all add: on_pool_def)
  let ?f = "on_pool (at_pool sc) ((on_pool (releaseSponsor sid) s1)\<lparr>ss_db := db\<rparr>)"
  obtain f where f: "close_sponsored cfg sc e ?f = (None, f)" "db_subs (ss_db f) = db_subs (close_row rowId False (en_message (th_error e)) db)"
    by (rule closed_without_faults [OF assms(2,4,5,6), of ?f cfg]) (simp_all add: on_pool_def)
  have "unbound_step cfg sc sid k s = (Stop (Raised (SendFailed e)), u)"
    using u(1) assms(1,3,4) by (simp add: unbound_step_def unbound_failure_def Let_def)
  moreover have "finalized_step cfg sc sid k s = (Stop (Raised (SendFailed e)), on_pool (releaseSponsor sid) f)"
    using f(1) assms(1,3,4) by (simp add: finalized_step_def finalized_failure_def Let_def)
  moreover have "\<not> ln_busy (lane sid (ss_pool (on_pool (releaseSponsor sid) f)))" by (simp add: on_pool_def releaseSponsor_def lane_def)
  moreover have "\<forall>r \<in> set (db_subs (ss_db u)). ps_ID r = rowId \<longrightarrow> closed_row r" unfolding u(2) by (rule closed)
  moreover have "\<forall>r \<in> set (db_subs (ss_db (on_pool (releaseSponsor sid) f))). ps_ID r = rowId \<longrightarrow> closed_row r"
    unfolding on_pool_keeps f(2) by (rule closed)
  ultimately show ?thesis by (intro exI [of _ u] exI [of _ "on_pool (releaseSponsor sid) f"] conjI)
qed

lemma landed_row_rebuilt_witness:
  "map (\<lambda>x. (ps_ID x, ps_status x)) (db_subs (ss_db landed_state)) = [(''a0'', SubIncluded)]
     \<and> fst (unbound_step sample_config landed_attempt ''s1'' 0 sample_state) = Stop (Raised (SendFailed db_down))"
proof -
  have "currentSubmissionId (ss_led landed_state) = Some ''a0''" by code_simp
  from landed_row_rebuilt [OF landed this not_recorded, of "''s1''" 0]
  have "fst (unbound_step sample_config landed_attempt ''s1'' 0 sample_state) = Stop (Raised (SendFailed db_down))"
    by (auto simp: db_down_verdict landed_attempt_def sample_attempt_def)
  then show ?thesis by (simp add: landed_included)
qed

end
