(* ===== verification/Batch_Segments.thy ===== *)
theory Batch_Segments
  imports Js_Value Submit_Failure "HOL-Library.Multiset" "HOL-Library.Sublist"
begin

text \<open>
  The order of the calls of a batch (\<^verbatim>\<open>srv/midnight/batch-segment-order.ts\<close>). The ledger library numbers the
  segments of a transaction at random and applies them by ascending number; before the proof is made, the
  calls get the numbers they have among themselves again in the order they were asked for, and a batch the
  ledger would reject is stopped.

  The transaction is seen by its map of intents, in the map's insertion order. An intent is an object: it has
  an identity, because the code collects the intents it moved in a \<^verbatim>\<open>Set\<close> of objects. A value of the map that is
  undefined or null is \<open>None\<close>. How a double is printed with two decimals is an argument; it shows in messages only.
\<close>

section \<open>Transactions\<close>

type_synonym intent = "(nat \<times> jv) option"

record segment_tx =
  tx_intents :: "(int \<times> intent) list option"

definition intent_value :: "intent \<Rightarrow> jv" where
  "intent_value i = (case i of None \<Rightarrow> VUndef | Some (_, v) \<Rightarrow> v)"

definition first_item :: "jv \<Rightarrow> jv" where
  "first_item v = (case v of VArr xs \<Rightarrow> elem_at xs 0
                          | VBytes bs \<Rightarrow> elem_at (map (\<lambda>b. VNum (int b)) bs) 0
                          | VStr s \<Rightarrow> elem_at (map (\<lambda>c. VStr [c]) s) 0
                          | VObj _ _ \<Rightarrow> jprop v ''0'' | _ \<Rightarrow> VUndef)"

definition first_action :: "intent \<Rightarrow> jv" where
  "first_action i = first_item (jprop (intent_value i) ''actions'')"

fun entryPointName :: "jv \<Rightarrow> string" where
  "entryPointName (VStr s) = s"
| "entryPointName (VBytes bs) = text_decode bs"
| "entryPointName v = text_or_empty v"

definition intent_call :: "intent \<Rightarrow> string" where
  "intent_call i = entryPointName (jprop (first_action i) ''entryPoint'')"

section \<open>Stages\<close>

definition gasOf :: "(int \<Rightarrow> string) \<Rightarrow> jv \<Rightarrow> string" where
  "gasOf fix2 t =
     (case jprop (jprop t ''gas'') ''computeTime'' of
        VBig n \<Rightarrow> '':'' @ fix2 n @ ''G''
      | VNum n \<Rightarrow> '':'' @ fix2 n @ ''G''
      | VNaN \<Rightarrow> '':NaNG''
      | _ \<Rightarrow> [])"

definition transcriptStages :: "(int \<Rightarrow> string) \<Rightarrow> jv \<Rightarrow> string" where
  "transcriptStages fix2 a =
     (let g = jprop a ''guaranteedTranscript''; f = jprop a ''fallibleTranscript'';
          stages = (if v_truthy g then ''g'' @ gasOf fix2 g else []) @ (if v_truthy g \<and> v_truthy f then ''+'' else [])
                     @ (if v_truthy f then ''f'' @ gasOf fix2 f else [])
      in if stages = [] then ''-'' else stages)"

section \<open>Calls in apply order\<close>

record segment_call =
  cl_name :: string
  cl_segId :: int
  cl_guaranteed :: bool
  cl_fallible :: bool

definition segment_call_of :: "int \<times> intent \<Rightarrow> segment_call" where
  "segment_call_of e = \<lparr>cl_name = intent_call (snd e), cl_segId = fst e,
     cl_guaranteed = v_truthy (jprop (first_action (snd e)) ''guaranteedTranscript''),
     cl_fallible = v_truthy (jprop (first_action (snd e)) ''fallibleTranscript'')\<rparr>"

definition orderedCalls :: "segment_tx \<Rightarrow> segment_call list" where
  "orderedCalls tx =
     (case tx_intents tx of
        None \<Rightarrow> []
      | Some es \<Rightarrow> sort_key cl_segId (map segment_call_of (filter (\<lambda>e. intent_call (snd e) \<noteq> []) es)))"

definition add_segment :: "segment_call \<Rightarrow> (int \<times> string list) list \<Rightarrow> (int \<times> string list) list" where
  "add_segment c m = map_put (cl_segId c) ((case map_of m (cl_segId c) of Some ns \<Rightarrow> ns | None \<Rightarrow> []) @ [cl_name c]) m"

definition callSegments :: "segment_tx \<Rightarrow> (int \<times> string list) list option" where
  "callSegments tx =
     (let calls = orderedCalls tx in if length calls < 2 then None else Some (fold add_segment calls []))"

definition violation_message :: "segment_call \<Rightarrow> segment_call \<Rightarrow> string" where
  "violation_message c later =
     quoted (cl_name c) @ '' (segment '' @ int_str (cl_segId c) @ '') carries a FALLIBLE transcript while '' @
     quoted (cl_name later) @ '' (segment '' @ int_str (cl_segId later) @ '') behind it carries a GUARANTEED one. The ledger '' @
     ''applies every guaranteed stage before any fallible stage, so the later call would run '' @
     ''against state the earlier one has not written yet, and the node rejects the transaction '' @
     ''as 1010/188. Which stage a call lands in is decided by its gas cost and therefore MOVES '' @
     ''as the contract state grows. Submit the fallible call as its own transaction and batch '' @
     ''the rest''"

fun violation_in :: "segment_call list \<Rightarrow> string option" where
  "violation_in [] = None"
| "violation_in (c # cs) =
     (if \<not> cl_fallible c then violation_in cs
      else case filter cl_guaranteed cs of [] \<Rightarrow> violation_in cs | later # _ \<Rightarrow> Some (violation_message c later))"

definition findCausalityViolation :: "segment_tx \<Rightarrow> string option" where
  "findCausalityViolation tx = violation_in (orderedCalls tx)"

definition get_intent :: "(int \<times> intent) list \<Rightarrow> int \<Rightarrow> intent" where
  "get_intent es s = (case map_of es s of Some i \<Rightarrow> i | None \<Rightarrow> None)"

definition batchCallStages :: "(int \<Rightarrow> string) \<Rightarrow> segment_tx \<Rightarrow> batch_stage list" where
  "batchCallStages fix2 tx =
     map (\<lambda>c. \<lparr>bs_name = cl_name c, bs_segId = cl_segId c,
                bs_stages = transcriptStages fix2 (first_action (get_intent (the (tx_intents tx)) (cl_segId c)))\<rparr>)
       (orderedCalls tx)"

section \<open>Reordering\<close>

record batch_options =
  bo_independentCalls :: bool
  bo_orderedPrefix :: "int option"
  bo_segmentIds :: "int list option"

fun pick_ids :: "(int \<times> intent) list \<Rightarrow> string list \<Rightarrow> int list \<Rightarrow> (int \<times> intent) list option" where
  "pick_ids es (n # ns) (s # ss) =
     (if intent_call (get_intent es s) \<noteq> n then None
      else map_option (Cons (s, get_intent es s)) (pick_ids es ns ss))"
| "pick_ids es _ _ = Some []"

definition pickBySegmentIds :: "(int \<times> intent) list \<Rightarrow> string list \<Rightarrow> int list option \<Rightarrow> (int \<times> intent) list option" where
  "pickBySegmentIds es circuits ids =
     (case ids of
        None \<Rightarrow> None
      | Some ss \<Rightarrow> if length ss \<noteq> length circuits then None
                  else if \<not> distinct ss then None
                  else pick_ids es circuits ss)"

type_synonym pools = "(string \<times> (int \<times> intent) list) list"

definition add_to_pool :: "int \<times> intent \<Rightarrow> pools \<Rightarrow> pools" where
  "add_to_pool e m =
     (case map_of m (intent_call (snd e)) of
        Some p \<Rightarrow> map_put (intent_call (snd e)) (p @ [e]) m
      | None \<Rightarrow> map_put (intent_call (snd e)) [e] m)"

fun take_from_pools :: "string list \<Rightarrow> pools \<Rightarrow> (int \<times> intent) list option" where
  "take_from_pools [] m = Some []"
| "take_from_pools (n # ns) m =
     (case map_of m n of
        Some (e # p) \<Rightarrow> map_option (Cons e) (take_from_pools ns (map_put n p m))
      | _ \<Rightarrow> None)"

definition ordered_prefix :: "batch_options \<Rightarrow> nat \<Rightarrow> nat" where
  "ordered_prefix opts n = nat (max 0 (min (case bo_orderedPrefix opts of Some p \<Rightarrow> p | None \<Rightarrow> 0) (int n)))"

definition stage_rank :: "nat \<Rightarrow> nat \<times> (int \<times> intent) \<Rightarrow> nat" where
  "stage_rank front x =
     (if fst x < front then 0
      else if v_truthy (jprop (first_action (snd (snd x))) ''fallibleTranscript'') then 2 else 1)"

text \<open>A stable sort by the rank: the source compares the positions of equal ranks.\<close>

definition group_stages :: "batch_options \<Rightarrow> (int \<times> intent) list \<Rightarrow> (int \<times> intent) list" where
  "group_stages opts es =
     (if bo_independentCalls opts
      then map snd (sort_key (stage_rank (ordered_prefix opts (length es))) (zip [0 ..< length es] es)) else es)"

definition reassign :: "(int \<times> intent) list \<Rightarrow> (int \<times> intent) list \<Rightarrow> (int \<times> intent) list" where
  "reassign es picked =
     (let refs = map (map_option fst \<circ> snd) picked; ids = sort (map fst picked);
          rest = filter (\<lambda>e. map_option fst (snd e) \<notin> set refs) es
      in fold (\<lambda>(s, i) m. map_put s i m) (zip ids (map snd picked)) rest)"

definition pick_calls :: "(int \<times> intent) list \<Rightarrow> string list \<Rightarrow> batch_options \<Rightarrow> (int \<times> intent) list option" where
  "pick_calls es circuits opts =
     (case pickBySegmentIds es circuits (bo_segmentIds opts) of
        Some p \<Rightarrow> Some p
      | None \<Rightarrow> take_from_pools circuits (fold add_to_pool es []))"

definition orderBatchSegments :: "segment_tx \<Rightarrow> string list \<Rightarrow> batch_options \<Rightarrow> bool \<times> segment_tx" where
  "orderBatchSegments tx circuits opts =
     (case tx_intents tx of
        None \<Rightarrow> (False, tx)
      | Some es \<Rightarrow>
          if length circuits < 2 \<or> length es < 2 then (False, tx)
          else case pick_calls es circuits opts of
                 None \<Rightarrow> (False, tx)
               | Some p \<Rightarrow> (let after = reassign es (group_stages opts p)
                            in if length after \<noteq> length es then (False, tx)
                               else (True, tx\<lparr>tx_intents := Some after\<rparr>)))"

definition describe_entry :: "(int \<Rightarrow> string) \<Rightarrow> int \<times> intent \<Rightarrow> string" where
  "describe_entry fix2 e =
     (if intent_call (snd e) = [] then ''?'' else intent_call (snd e)) @ ''='' @ int_str (fst e) @ ''['' @
     transcriptStages fix2 (first_action (snd e)) @ '']''"

definition describeBatchSegments :: "(int \<Rightarrow> string) \<Rightarrow> segment_tx \<Rightarrow> string" where
  "describeBatchSegments fix2 tx =
     (case tx_intents tx of None \<Rightarrow> ''no intents'' | Some es \<Rightarrow> join '' '' (map (describe_entry fix2) es))"

section \<open>The proof provider\<close>

text \<open>
  A proof is asked for, or the build stops: with an error of its own, or with the causality error and the stages
  of the calls, or because the preflight threw. The transaction comes with the answer, since it is changed in
  place. Reading values throws nothing here, so ordering never throws.
\<close>

datatype 'e prove_end =
    AskProof
  | OrderRefused string
  | CausalityRefused string "batch_stage list"
  | PreflightThrew 'e

definition stage_text :: "batch_stage \<Rightarrow> string" where
  "stage_text b = bs_name b @ ''='' @ int_str (bs_segId b) @ ''['' @ bs_stages b @ '']''"

definition unmatched_message :: "string list \<Rightarrow> string" where
  "unmatched_message circuits =
     ''batch segment ordering could not match the transaction intents to the call list ['' @ join ''+'' circuits @ '']; '' @
     ''aborting before proving (nothing submitted) because the deterministic apply order cannot be guaranteed''"

definition causality_message :: "string list \<Rightarrow> string \<Rightarrow> batch_stage list \<Rightarrow> string" where
  "causality_message circuits why calls =
     ''batch ['' @ join ''+'' circuits @ ''] violates the ledger''@ [CHR 0x27] @ ''s causality constraint: '' @ why @ ''. '' @
     ''Aborted before proving; nothing was submitted. '' @
     ''Stages in apply order: '' @ join '' '' (map stage_text calls)"

definition withOrderedBatchSegments ::
    "(int \<Rightarrow> string) \<Rightarrow> (segment_tx \<Rightarrow> 'e option) \<Rightarrow> string list \<Rightarrow> batch_options \<Rightarrow> segment_tx \<Rightarrow> 'e prove_end \<times> segment_tx" where
  "withOrderedBatchSegments fix2 preflight circuits opts tx =
     (if length circuits < 2 then (AskProof, tx)
      else case orderBatchSegments tx circuits opts of (ordered, tx') \<Rightarrow>
        if \<not> ordered then (OrderRefused (unmatched_message circuits), tx')
        else case findCausalityViolation tx' of
               Some why \<Rightarrow> (let calls = batchCallStages fix2 tx' in (CausalityRefused (causality_message circuits why calls) calls, tx'))
             | None \<Rightarrow> (case preflight tx' of Some e \<Rightarrow> (PreflightThrew e, tx') | None \<Rightarrow> (AskProof, tx')))"

end
