(* ===== verification/Batch_Segments_Safety.thy ===== *)
theory Batch_Segments_Safety
  imports Batch_Segments
begin

text \<open>
  What the reordering of a batch guarantees: the segments and the intents are the ones the transaction had, the
  calls are applied in the order asked for, and no fallible stage stands before a guaranteed one when a proof
  is asked for.
\<close>

section \<open>Picking the calls\<close>

text \<open>A pick is a list of different entries of the map whose circuits are the ones asked for.\<close>

definition picks :: "(int \<times> intent) list \<Rightarrow> string list \<Rightarrow> (int \<times> intent) list \<Rightarrow> bool" where
  "picks es circuits p \<longleftrightarrow> distinct p \<and> set p \<subseteq> set es \<and> map (intent_call \<circ> snd) p = circuits"

lemma intent_call_None [simp]: "intent_call None = []"
  by (simp add: intent_call_def first_action_def intent_value_def first_item_def jprop_def inherited_def text_or_empty_def v_nullish_def)

lemma get_intent_in: "intent_call (get_intent es s) \<noteq> [] \<Longrightarrow> (s, get_intent es s) \<in> set es"
  by (auto simp: get_intent_def dest: map_of_SomeD split: option.splits)

lemma pick_ids_picks:
  "pick_ids es circuits ss = Some p \<Longrightarrow> [] \<notin> set circuits \<Longrightarrow> distinct ss \<Longrightarrow> length ss = length circuits \<Longrightarrow>
   picks es circuits p \<and> map fst p = ss"
proof (induction es circuits ss arbitrary: p rule: pick_ids.induct)
  case (1 es n ns s ss)
  obtain q where q: "pick_ids es ns ss = Some q" "p = (s, get_intent es s) # q" "intent_call (get_intent es s) = n"
    using 1(2) by (auto split: if_splits)
  have i: "picks es ns q" "map fst q = ss" using 1(1) [of q] q 1(3-5) by auto
  have "(s, get_intent es s) \<in> set es" using get_intent_in q(3) 1(3) by auto
  moreover have "s \<notin> fst ` set q" using i(2) 1(4) by (metis distinct.simps(2) set_map)
  ultimately show ?case using i q by (force simp: picks_def)
qed (auto simp: picks_def)

lemma pickBySegmentIds_picks:
  "pickBySegmentIds es circuits ids = Some p \<Longrightarrow> [] \<notin> set circuits \<Longrightarrow> picks es circuits p"
  by (auto simp: pickBySegmentIds_def split: option.splits if_splits dest: pick_ids_picks)

definition pools_ok :: "(int \<times> intent) list \<Rightarrow> pools \<Rightarrow> bool" where
  "pools_ok es m \<longleftrightarrow> (\<forall>n p. map_of m n = Some p \<longrightarrow> distinct p \<and> set p \<subseteq> set es \<and> (\<forall>e \<in> set p. intent_call (snd e) = n))"

lemma add_to_pool_ok: "pools_ok es m \<Longrightarrow> e \<notin> set es \<Longrightarrow> pools_ok (es @ [e]) (add_to_pool e m)"
  by (fastforce simp: pools_ok_def add_to_pool_def split: option.splits)

lemma all_pools_ok: "distinct es \<Longrightarrow> pools_ok es (fold add_to_pool es [])"
  by (induction es rule: rev_induct) (auto simp: pools_ok_def [of "[]"] intro: add_to_pool_ok)

lemma take_from_pools_picks:
  "take_from_pools circuits m = Some p \<Longrightarrow> pools_ok es m \<Longrightarrow>
   picks es circuits p \<and> (\<forall>e \<in> set p. \<exists>q. map_of m (intent_call (snd e)) = Some q \<and> e \<in> set q)"
proof (induction circuits m arbitrary: p rule: take_from_pools.induct)
  case (2 n ns m)
  obtain e q r where m: "map_of m n = Some (e # q)" and r: "take_from_pools ns (map_put n q m) = Some r" "p = e # r"
    using 2(2) by (auto split: option.splits list.splits)
  have pool: "distinct (e # q) \<and> set (e # q) \<subseteq> set es \<and> (\<forall>x \<in> set (e # q). intent_call (snd x) = n)"
    using 2(3) m unfolding pools_ok_def by blast
  then have ok: "pools_ok es (map_put n q m)" using 2(3) by (auto simp: pools_ok_def)
  have e: "intent_call (snd e) = n" "e \<in> set es" "e \<notin> set q" using pool by auto
  have i: "picks es ns r" "\<forall>x \<in> set r. \<exists>z. map_of (map_put n q m) (intent_call (snd x)) = Some z \<and> x \<in> set z"
    using 2(1) [OF m refl r(1) ok] by auto
  have "e \<notin> set r" using i(2) e by auto
  moreover have "\<forall>x \<in> set r. \<exists>z. map_of m (intent_call (snd x)) = Some z \<and> x \<in> set z"
    using i(2) m by (fastforce split: if_splits)
  ultimately show ?case using i(1) e m r(2) by (auto simp: picks_def)
qed (auto simp: picks_def)

lemma pick_calls_picks:
  "pick_calls es circuits opts = Some p \<Longrightarrow> [] \<notin> set circuits \<Longrightarrow> distinct es \<Longrightarrow> picks es circuits p"
  unfolding pick_calls_def
  by (auto split: option.splits dest: pickBySegmentIds_picks take_from_pools_picks [OF _ all_pools_ok])

section \<open>Grouping by stage\<close>

lemma group_stages_mset: "mset (group_stages opts p) = mset p"
proof -
  have "mset (map snd (sort_key f (zip [0 ..< length p] p))) = image_mset snd (mset (zip [0 ..< length p] p))" for f :: "_ \<Rightarrow> nat"
    by (simp only: mset_map mset_sort)
  also have "\<dots> = mset (map snd (zip [0 ..< length p] p))" by (simp only: mset_map)
  finally show ?thesis by (simp add: group_stages_def)
qed

text \<open>The calls the request fixes: all of them, or the ordered prefix of independent calls.\<close>

definition fixed_calls :: "batch_options \<Rightarrow> nat \<Rightarrow> nat" where
  "fixed_calls opts n = (if bo_independentCalls opts then ordered_prefix opts n else n)"

lemma sort_key_front:
  assumes "\<forall>x \<in> set xs. f x = (0 :: nat)" "\<forall>x \<in> set ys. 0 < f x"
  shows "sort_key f (xs @ ys) = xs @ sort_key f ys"
proof -
  have z: "sort_key f (zs @ ys) = zs @ sort_key f ys" if "\<forall>x \<in> set zs. f x = 0" for zs
    using that
  proof (induction zs)
    case (Cons z zs)
    then have "sort_key f (zs @ ys) = zs @ sort_key f ys" "f z = 0" by auto
    moreover have "insort_key f z (zs @ sort_key f ys) = z # zs @ sort_key f ys" if "f z = 0"
      using that by (cases "zs @ sort_key f ys") auto
    ultimately show ?case by simp
  qed simp
  show ?thesis using z [OF assms(1)] .
qed

lemma group_stages_prefix: "take (fixed_calls opts (length p)) (group_stages opts p) = take (fixed_calls opts (length p)) p"
proof (cases "bo_independentCalls opts")
  case True
  let ?k = "ordered_prefix opts (length p)" and ?z = "zip [0 ..< length p] p"
  have k: "?k \<le> length p" by (simp add: ordered_prefix_def)
  have "\<forall>x \<in> set (take ?k ?z). stage_rank ?k x = 0" "\<forall>x \<in> set (drop ?k ?z). 0 < stage_rank ?k x"
    using k by (auto simp: stage_rank_def in_set_conv_nth)
  then have "sort_key (stage_rank ?k) (take ?k ?z @ drop ?k ?z) = take ?k ?z @ sort_key (stage_rank ?k) (drop ?k ?z)"
    by (rule sort_key_front)
  then have "sort_key (stage_rank ?k) ?z = take ?k ?z @ sort_key (stage_rank ?k) (drop ?k ?z)" by simp
  then have "take ?k (map snd (sort_key (stage_rank ?k) ?z)) = map snd (take ?k ?z)" using k by simp
  also have "\<dots> = take ?k p" by (simp add: take_map [symmetric])
  finally show ?thesis using True by (simp add: group_stages_def fixed_calls_def)
qed (simp add: group_stages_def)

section \<open>Giving out the numbers\<close>

lemma other_key: "distinct (map fst es) \<Longrightarrow> set p \<subseteq> set es \<Longrightarrow> e \<in> set es \<Longrightarrow> e \<notin> set p \<Longrightarrow> fst e \<notin> fst ` set p"
  by (auto simp: distinct_map dest: inj_onD)

lemma disjoint_keys: "(\<And>e. e \<in> A \<Longrightarrow> fst e \<notin> K) \<Longrightarrow> K \<inter> fst ` A = {}"
  by auto

lemma same_filter:
  "(\<And>e. e \<in> set xs \<Longrightarrow> P e \<Longrightarrow> Q e) \<Longrightarrow> length (filter P xs) = length (filter Q xs) \<Longrightarrow> filter P xs = filter Q xs"
proof (induction xs)
  case (Cons x xs)
  have "length (filter P ys) \<le> length (filter Q ys)" if "\<And>e. e \<in> set ys \<Longrightarrow> P e \<Longrightarrow> Q e" for ys
    using that by (induction ys) (auto intro: le_SucI)
  from this [of xs] show ?case using Cons by (auto split: if_splits)
qed simp

lemma put_new_key: "k \<notin> fst ` set m \<Longrightarrow> map_put k v m = m @ [(k, v)]"
  by (induction k v m rule: map_put.induct) auto

lemma fold_put_new:
  "distinct (map fst kvs) \<Longrightarrow> fst ` set kvs \<inter> fst ` set m = {} \<Longrightarrow> fold (\<lambda>(s, i) m. map_put s i m) kvs m = m @ kvs"
  by (induction kvs arbitrary: m) (auto simp: put_new_key)

lemma reassign_split:
  assumes "distinct (map fst es)" "distinct p" "set p \<subseteq> set es"
  shows "reassign es p = filter (\<lambda>e. map_option fst (snd e) \<notin> set (map (map_option fst \<circ> snd) p)) es @ zip (sort (map fst p)) (map snd p)"
proof -
  let ?refs = "map (map_option fst \<circ> snd) p"
  let ?rest = "filter (\<lambda>e. map_option fst (snd e) \<notin> set ?refs) es" and ?new = "zip (sort (map fst p)) (map snd p)"
  have keys: "distinct (map fst p)" using assms(1-3)
    by (auto simp: distinct_map intro: inj_on_subset)
  have new: "map fst ?new = sort (map fst p)" by simp
  have sub: "e \<notin> set p" if "e \<in> set ?rest" for e using that by auto
  have n: "fst ` set ?new = fst ` set p" using new by (metis set_map set_sort)
  have "fst ` set ?new \<inter> fst ` set ?rest = {}"
    unfolding n
  proof (rule disjoint_keys)
    show "fst e \<notin> fst ` set p" if "e \<in> set ?rest" for e
      using sub [OF that] that by (intro other_key [OF assms(1,3)]) (simp_all del: set_map)
  qed
  then show ?thesis
    unfolding reassign_def Let_def by (intro fold_put_new) (simp_all add: keys)
qed

lemma unpicked_length:
  assumes "distinct es" "distinct p" "set p \<subseteq> set es"
  shows "length (filter (\<lambda>e. e \<notin> set p) es) + length p = length es"
proof -
  have "length (filter (\<lambda>e. e \<in> set p) es) = card (set (filter (\<lambda>e. e \<in> set p) es))" using assms(1) by (simp only: distinct_card distinct_filter)
  also have "set (filter (\<lambda>e. e \<in> set p) es) = set p" using assms(3) by auto
  finally show ?thesis using sum_length_filter_compl [of "\<lambda>e. e \<in> set p" es] distinct_card [OF assms(2)] by simp
qed

lemma reassign_rest:
  assumes "distinct (map fst es)" "distinct p" "set p \<subseteq> set es" "length (reassign es p) = length es"
  shows "reassign es p = filter (\<lambda>e. e \<notin> set p) es @ zip (sort (map fst p)) (map snd p)"
proof -
  let ?rest = "filter (\<lambda>e. map_option fst (snd e) \<notin> set (map (map_option fst \<circ> snd) p)) es"
  have "distinct es" using assms(1) by (simp add: distinct_map)
  then have "length ?rest = length (filter (\<lambda>e. e \<notin> set p) es)"
    using assms(4) reassign_split [OF assms(1-3)] unpicked_length [OF _ assms(2,3)] by simp
  then have "?rest = filter (\<lambda>e. e \<notin> set p) es"
    by (intro same_filter) auto
  then show ?thesis using reassign_split [OF assms(1-3)] by simp
qed

lemma reassign_length:
  assumes "distinct (map fst es)" "distinct (map (map_option fst \<circ> snd) es)" "distinct p" "set p \<subseteq> set es"
  shows "length (reassign es p) = length es"
proof -
  have "map_option fst (snd e) \<notin> set (map (map_option fst \<circ> snd) p) \<longleftrightarrow> e \<notin> set p" if "e \<in> set es" for e
  proof -
    have i: "inj_on (map_option fst \<circ> snd) (set es)" using assms(2) by (simp add: distinct_map)
    have "e = x" if "x \<in> set p" "map_option fst (snd e) = map_option fst (snd x)" for x
      using inj_onD [OF i, of e x] that \<open>e \<in> set es\<close> assms(4) by auto
    then show ?thesis by auto
  qed
  then have "filter (\<lambda>e. map_option fst (snd e) \<notin> set (map (map_option fst \<circ> snd) p)) es = filter (\<lambda>e. e \<notin> set p) es"
    by (rule filter_cong [OF refl])
  moreover have "distinct es" using assms(1) by (simp add: distinct_map)
  ultimately show ?thesis using reassign_split [OF assms(1,3,4)] unpicked_length [OF _ assms(3,4)] by simp
qed

lemma ordered_tx:
  assumes "orderBatchSegments tx circuits opts = (True, tx')" "tx_intents tx = Some es" "distinct (map fst es)" "[] \<notin> set circuits"
  obtains p where "picks es circuits p"
    "tx_intents tx' = Some (filter (\<lambda>e. e \<notin> set p) es @ zip (sort (map fst p)) (map snd (group_stages opts p)))"
proof -
  obtain p where p: "pick_calls es circuits opts = Some p" "length (reassign es (group_stages opts p)) = length es"
    "tx_intents tx' = Some (reassign es (group_stages opts p))"
    using assms(1,2) by (auto simp: orderBatchSegments_def Let_def split: if_splits option.splits)
  have d: "distinct es" using assms(3) by (simp add: distinct_map)
  have pk: "picks es circuits p" using pick_calls_picks [OF p(1) assms(4) d] .
  have g: "set (group_stages opts p) = set p" "distinct (group_stages opts p)"
    using mset_eq_setD [OF group_stages_mset] mset_eq_imp_distinct_iff [OF group_stages_mset] pk by (simp_all add: picks_def)
  have "sort (map fst (group_stages opts p)) = sort (map fst p)"
    using group_stages_mset [of opts p] by (intro properties_for_sort) simp_all
  then have "reassign es (group_stages opts p) = filter (\<lambda>e. e \<notin> set p) es @ zip (sort (map fst p)) (map snd (group_stages opts p))"
    using reassign_rest [OF assms(3) g(2) _ p(2)] g(1) pk by (simp add: picks_def)
  then show thesis using that [OF pk] p(3) by simp
qed

section \<open>Apply order\<close>

text \<open>Among the calls in apply order, those that got the picked numbers stand in the order of the pick.\<close>

lemma calls_of_pick:
  assumes "distinct (map fst es)" "picks es circuits p" "[] \<notin> set circuits"
    "tx_intents tx = Some (filter (\<lambda>e. e \<notin> set p) es @ zip (sort (map fst p)) (map snd g))" "mset g = mset p"
  shows "subseq (map (intent_call \<circ> snd) g) (map cl_name (orderedCalls tx))"
proof -
  let ?new = "zip (sort (map fst p)) (map snd g)" and ?old = "filter (\<lambda>e. e \<notin> set p) es"
  let ?K = "set (map fst p)"
  let ?named = "filter (\<lambda>e. intent_call (snd e) \<noteq> [])"
  have l: "length g = length p" using assms(5) by (metis size_mset)
  have sg: "set g = set p" using assms(5) by (metis set_mset_mset)
  have fs: "map fst ?new = sort (map fst p)" and sn: "map snd ?new = map snd g" using l by simp_all
  have inp: "fst e \<in> ?K" if "e \<in> set ?new" for e using that fs by (metis image_eqI list.set_map set_sort)
  have nm: "intent_call (snd e) \<noteq> []" if "e \<in> set ?new" for e
  proof -
    have "snd e \<in> set (map snd g)" using that sn by (metis image_eqI list.set_map)
    then obtain x where x: "x \<in> set p" "snd x = snd e" using sg by auto
    have "map (intent_call \<circ> snd) p = circuits" using assms(2) by (simp add: picks_def)
    then have "intent_call (snd x) \<in> set circuits" using x(1) by force
    then show ?thesis using assms(3) x(2) by auto
  qed
  have out: "fst e \<notin> ?K" if "e \<in> set ?old" for e
    using that other_key [OF assms(1), of p e] assms(2) by (simp add: picks_def)
  have "filter (\<lambda>c. cl_segId c \<in> ?K) (map segment_call_of (?named (?old @ ?new))) = map segment_call_of ?new"
  proof -
    have "filter (\<lambda>c. cl_segId c \<in> ?K) (map segment_call_of (?named ?old)) = []" using out by (auto simp: filter_empty_conv segment_call_of_def)
    moreover have "?named ?new = ?new" using nm by (simp add: filter_id_conv)
    moreover have "filter (\<lambda>c. cl_segId c \<in> ?K) (map segment_call_of ?new) = map segment_call_of ?new"
      using inp by (auto simp: filter_id_conv segment_call_of_def)
    ultimately show ?thesis by simp
  qed
  then have "filter (\<lambda>c. cl_segId c \<in> ?K) (orderedCalls tx) = sort_key cl_segId (map segment_call_of ?new)"
    by (simp add: orderedCalls_def assms(4) filter_sort)
  also have "\<dots> = map segment_call_of ?new"
  proof (rule sort_key_id_if_sorted)
    have "map cl_segId (map segment_call_of ?new) = map fst ?new" by (simp add: segment_call_of_def)
    then show "sorted (map cl_segId (map segment_call_of ?new))" using fs by (metis sorted_sort)
  qed
  finally have f: "filter (\<lambda>c. cl_segId c \<in> ?K) (orderedCalls tx) = map segment_call_of ?new" .
  have "map cl_name (map segment_call_of ?new) = map intent_call (map snd ?new)" by (simp add: segment_call_of_def)
  also have "\<dots> = map (intent_call \<circ> snd) g" unfolding sn by simp
  finally have "map (intent_call \<circ> snd) g = map cl_name (filter (\<lambda>c. cl_segId c \<in> ?K) (orderedCalls tx))" using f by simp
  then show ?thesis using subseq_map [OF subseq_filter_left] by metis
qed

lemma no_violation: "violation_in cs = None \<longleftrightarrow> sorted_wrt (\<lambda>a b. \<not> (cl_fallible a \<and> cl_guaranteed b)) cs"
proof (induction cs)
  case (Cons c cs)
  have "filter cl_guaranteed cs = [] \<longleftrightarrow> (\<forall>x \<in> set cs. \<not> cl_guaranteed x)" by (simp add: filter_empty_conv)
  then show ?case using Cons by (auto split: list.splits)
qed simp

lemma rest_and_pick: "distinct es \<Longrightarrow> distinct p \<Longrightarrow> set p \<subseteq> set es \<Longrightarrow> mset (filter (\<lambda>e. e \<notin> set p) es) + mset p = mset es"
proof -
  assume a: "distinct es" "distinct p" "set p \<subseteq> set es"
  then have "mset p = mset (filter (\<lambda>e. e \<in> set p) es)" by (subst set_eq_iff_mset_eq_distinct [symmetric]) auto
  then show ?thesis using multiset_partition [of "mset es" "\<lambda>e. e \<in> set p"] by (simp add: union_commute)
qed

lemma subseq_imp_mset: "subseq xs ys \<Longrightarrow> mset xs \<subseteq># mset ys"
proof (induction rule: list_emb.induct)
  case (list_emb_Cons xs ys y)
  then show ?case using subset_mset.order_trans [of "mset xs" "mset ys" "mset (y # ys)"] by simp
qed simp_all


definition batch_intent :: "nat \<Rightarrow> string \<Rightarrow> string \<Rightarrow> intent" where
  "batch_intent a n part = Some (a, VObj ''Intent'' [(''actions'', VArr [VObj ''Call'' [(''entryPoint'', VStr n), (part, VBool True)]])])"

definition sample_batch :: "(int \<times> intent) list" where
  "sample_batch = [(7, batch_intent 1 ''mint'' ''guaranteedTranscript''), (3, batch_intent 2 ''send'' ''fallibleTranscript'')]"

definition sample_ordered :: segment_tx where
  "sample_ordered = \<lparr>tx_intents = Some [(3, batch_intent 1 ''mint'' ''guaranteedTranscript''), (7, batch_intent 2 ''send'' ''fallibleTranscript'')]\<rparr>"

definition batch_defaults :: batch_options where
  "batch_defaults = \<lparr>bo_independentCalls = False, bo_orderedPrefix = None, bo_segmentIds = None\<rparr>"

lemma sample_proved:
  "withOrderedBatchSegments (\<lambda>_. []) ((\<lambda>_. None) :: segment_tx \<Rightarrow> unit option) [''mint'', ''send''] batch_defaults \<lparr>tx_intents = Some sample_batch\<rparr> =
   (AskProof, sample_ordered)"
  by code_simp


section \<open>No batch turned away\<close>

lemma all_pools:
  "map_of (fold add_to_pool es []) n =
   (let p = filter (\<lambda>e. intent_call (snd e) = n) es in if p = [] then None else Some p)"
  by (induction es rule: rev_induct) (auto simp: add_to_pool_def Let_def split: option.splits)

lemma take_from_pools_total:
  "(\<And>n. count (mset ns) n \<le> (case map_of m n of None \<Rightarrow> 0 | Some p \<Rightarrow> length p)) \<Longrightarrow> take_from_pools ns m \<noteq> None"
proof (induction ns m rule: take_from_pools.induct)
  case (2 n ns m)
  have "0 < (case map_of m n of None \<Rightarrow> 0 | Some p \<Rightarrow> length p)" using 2(2) [of n] by simp
  then obtain p where "map_of m n = Some p" "p \<noteq> []" by (cases "map_of m n") auto
  then obtain e q where m: "map_of m n = Some (e # q)" by (cases p) auto
  have "count (mset ns) k \<le> (case map_of (map_put n q m) k of None \<Rightarrow> 0 | Some p \<Rightarrow> length p)" for k
    using 2(2) [of k] m by (cases "k = n") simp_all
  then show ?case using 2(1) [OF m refl] m by simp
qed simp

text \<open>C39. A batch whose calls are all there, each an object of its own, is never turned away as unmatched when no build-time numbers are given.\<close>

theorem batch_not_stuck:
  assumes "tx_intents tx = Some es" "distinct (map fst es)" "distinct (map (map_option fst \<circ> snd) es)" "2 \<le> length circuits"
    "[] \<notin> set circuits" "mset circuits \<subseteq># mset (map (intent_call \<circ> snd) es)" "bo_segmentIds opts = None"
  shows "\<forall>m. fst (withOrderedBatchSegments fix2 preflight circuits opts tx) \<noteq> OrderRefused m"
proof -
  have d: "distinct es" using assms(2) by (simp add: distinct_map)
  have "count (mset circuits) n \<le> length (filter (\<lambda>e. intent_call (snd e) = n) es)" for n
  proof -
    have "count (mset circuits) n \<le> count (mset (map (intent_call \<circ> snd) es)) n" using assms(6) by (simp only: mset_subset_eq_count)
    also have "\<dots> = length (filter (\<lambda>e. intent_call (snd e) = n) es)" by (induction es) simp_all
    finally show ?thesis .
  qed
  note c = this
  have "count (mset circuits) n \<le> (case map_of (fold add_to_pool es []) n of None \<Rightarrow> 0 | Some q \<Rightarrow> length q)" for n
    using c [of n] by (cases "filter (\<lambda>e. intent_call (snd e) = n) es = []") (simp_all add: all_pools del: count_mset_0_iff)
  then have "take_from_pools circuits (fold add_to_pool es []) \<noteq> None" by (rule take_from_pools_total)
  then obtain p where p: "pick_calls es circuits opts = Some p" using assms(7) by (auto simp: pick_calls_def pickBySegmentIds_def)
  have pk: "picks es circuits p" using pick_calls_picks [OF p assms(5) d] .
  let ?g = "group_stages opts p"
  have g: "set ?g = set p" "distinct ?g"
    using mset_eq_setD [OF group_stages_mset] mset_eq_imp_distinct_iff [OF group_stages_mset] pk by (simp_all add: picks_def)
  then have "length (reassign es ?g) = length es" using pk by (intro reassign_length [OF assms(2,3)]) (simp_all add: picks_def)
  moreover have "2 \<le> length es" using assms(4) size_mset_mono [OF assms(6)] by simp
  ultimately have "fst (orderBatchSegments tx circuits opts)" using assms(1,4) p by (simp add: orderBatchSegments_def Let_def)
  then show ?thesis by (auto simp: withOrderedBatchSegments_def Let_def split: prod.splits option.splits)
qed

theorem batch_not_stuck_witness:
  "\<forall>m. fst (withOrderedBatchSegments (\<lambda>_. []) ((\<lambda>_. None) :: segment_tx \<Rightarrow> unit option) [''send'', ''mint''] batch_defaults \<lparr>tx_intents = Some sample_batch\<rparr>) \<noteq> OrderRefused m"
proof -
  have "map (intent_call \<circ> snd) sample_batch = [''mint'', ''send'']" by code_simp
  then show ?thesis
    by (intro batch_not_stuck [of _ sample_batch]) (simp_all, simp_all add: sample_batch_def batch_intent_def batch_defaults_def)
qed

end
