(* ===== verification/Disclosure.thy ===== *)
theory Disclosure
  imports Prelude
begin

text \<open>
  Disclosure grants (\<^verbatim>\<open>srv/submission/actions/disclosure.ts\<close>, the projection in \<^verbatim>\<open>actions/context.ts\<close>,
  \<^verbatim>\<open>disclosure-indexer.ts\<close>, \<^verbatim>\<open>disclosure-grants.ts\<close>, \<^verbatim>\<open>grantee-identity.ts\<close>, and
  \<^verbatim>\<open>srv/middleware/disclosure-role.ts\<close>). The attestation contract on the chain decides who may read what; the
  table mirrored_all it. It is written by requests, by jobs and finalizers when a transaction landed, and by the
  reindex, which reads the contract's state at a block height. Each write says which rows it may still change.

  Times are milliseconds, a timestamp column holds one. Sending transactions, reading the chain and hashing are
  outside: their results are arguments.
\<close>

section \<open>Rows\<close>

record disclosure_grant =
  dg_ID :: string
  dg_payloadHash :: string
  dg_attesterId :: "string option"
  dg_grantee :: string
  dg_level :: int
  dg_pendingLevel :: "int option"
  dg_contractAddress :: string
  dg_grantedTxHash :: "string option"
  dg_revokedTxHash :: "string option"
  dg_active :: bool
  dg_changedAtHeight :: "int option"
  dg_createdAt :: int
  dg_modifiedAt :: "int option"

type_synonym disclosures = "disclosure_grant list"

section \<open>Confirmations\<close>

text \<open>A height counts when it is an integer from zero on.\<close>

definition is_height :: "int option \<Rightarrow> bool" where
  "is_height h = (case h of Some n \<Rightarrow> 0 \<le> n | None \<Rightarrow> False)"

definition heightStamp :: "int option \<Rightarrow> disclosure_grant \<Rightarrow> disclosure_grant" where
  "heightStamp h r = (if is_height h then r\<lparr>dg_changedAtHeight := h\<rparr> else r)"

definition confirmedDisclosureLevel :: "int \<Rightarrow> string \<Rightarrow> int \<Rightarrow> int option \<Rightarrow> disclosure_grant \<Rightarrow> disclosure_grant" where
  "confirmedDisclosureLevel level txHash changedAt landed r =
     heightStamp landed
       (r\<lparr>dg_level := level, dg_pendingLevel := None, dg_grantedTxHash := Some txHash, dg_revokedTxHash := None,
          dg_modifiedAt := Some changedAt\<rparr>)"

definition notNewerThan :: "int option \<Rightarrow> disclosure_grant \<Rightarrow> bool" where
  "notNewerThan h r =
     (if is_height h then (case dg_changedAtHeight r of None \<Rightarrow> True | Some k \<Rightarrow> k < the h)
      else dg_changedAtHeight r = None)"

definition confirm_grant :: "string \<Rightarrow> int \<Rightarrow> string \<Rightarrow> int \<Rightarrow> int option \<Rightarrow> disclosures \<Rightarrow> disclosures" where
  "confirm_grant i level txHash now landed rs =
     snd (update_where (\<lambda>r. dg_ID r = i \<and> notNewerThan landed r) (confirmedDisclosureLevel level txHash now landed) rs)"

definition revoke_write :: "string \<Rightarrow> int \<Rightarrow> int option \<Rightarrow> disclosure_grant \<Rightarrow> disclosure_grant" where
  "revoke_write txHash now landed r =
     heightStamp landed (r\<lparr>dg_revokedTxHash := Some txHash, dg_active := False, dg_modifiedAt := Some now\<rparr>)"

definition confirm_revoke :: "string \<Rightarrow> string \<Rightarrow> string \<Rightarrow> string \<Rightarrow> string \<Rightarrow> int \<Rightarrow> int option \<Rightarrow> disclosures \<Rightarrow> disclosures" where
  "confirm_revoke contract attester payload grantee txHash now landed rs =
     snd (update_where (\<lambda>r. dg_contractAddress r = contract \<and> dg_attesterId r = Some attester \<and> dg_payloadHash r = payload \<and>
                            dg_grantee r = grantee \<and> notNewerThan landed r)
            (revoke_write txHash now landed) rs)"

text \<open>Retracting an attestation took all its grants.\<close>

definition confirm_retract :: "string \<Rightarrow> string \<Rightarrow> string \<Rightarrow> string \<Rightarrow> int \<Rightarrow> int option \<Rightarrow> disclosures \<Rightarrow> disclosures" where
  "confirm_retract contract attester payload txHash now landed rs =
     snd (update_where (\<lambda>r. dg_contractAddress r = contract \<and> dg_attesterId r = Some attester \<and> dg_payloadHash r = payload \<and>
                            dg_active r \<and> notNewerThan landed r)
            (revoke_write txHash now landed) rs)"

definition clearPendingDisclosureLevel :: "string \<Rightarrow> int \<Rightarrow> int \<Rightarrow> disclosures \<Rightarrow> disclosures" where
  "clearPendingDisclosureLevel i level now rs =
     snd (update_where (\<lambda>r. dg_ID r = i \<and> dg_pendingLevel r = Some level) (\<lambda>r. r\<lparr>dg_pendingLevel := None, dg_modifiedAt := Some now\<rparr>) rs)"

section \<open>The state of the contract\<close>

record chain_grant =
  cg_attesterId :: string
  cg_payloadHash :: string
  cg_grantee :: string
  cg_level :: int

text \<open>
  The decoded ledger: the attestations as pairs of record key and record (payload hash, owner), and for a record
  key the pairs of grantee and level, when it has any.
\<close>

record disclosure_ledger =
  dl_attestations :: "(nat list \<times> nat list \<times> nat list) list"
  dl_disclosures :: "nat list \<Rightarrow> (nat list \<times> int) list option"

definition hex_of :: "nat list \<Rightarrow> string" where
  "hex_of bs = concat (map (\<lambda>b. [hex_digit (b div 16), hex_digit (b mod 16)]) bs)"

definition record_grants :: "disclosure_ledger \<Rightarrow> nat list \<times> nat list \<times> nat list \<Rightarrow> chain_grant list" where
  "record_grants led a =
     (case a of (recordKey, payloadHash, owner) \<Rightarrow>
        case dl_disclosures led recordKey of
          None \<Rightarrow> []
        | Some gs \<Rightarrow> map (\<lambda>(g, l). \<lparr>cg_attesterId = hex_of owner, cg_payloadHash = hex_of payloadHash, cg_grantee = hex_of g, cg_level = l\<rparr>) gs)"

definition enumerateGrants :: "disclosure_ledger \<Rightarrow> chain_grant list" where
  "enumerateGrants led = concat (map (record_grants led) (dl_attestations led))"

section \<open>The reindex\<close>

definition heightOf :: "disclosure_grant \<Rightarrow> int option" where
  "heightOf r = (case dg_changedAtHeight r of Some h \<Rightarrow> if 0 \<le> h then Some h else None | None \<Rightarrow> None)"

definition same_key :: "string \<Rightarrow> chain_grant \<Rightarrow> disclosure_grant \<Rightarrow> bool" where
  "same_key contract g r \<longleftrightarrow>
     dg_contractAddress r = contract \<and> dg_attesterId r = Some (cg_attesterId g) \<and> dg_payloadHash r = cg_payloadHash g \<and> dg_grantee r = cg_grantee g"

definition chain_row :: "string \<Rightarrow> int option \<Rightarrow> int \<Rightarrow> string \<Rightarrow> chain_grant \<Rightarrow> disclosure_grant" where
  "chain_row contract height now i g =
     \<lparr>dg_ID = i, dg_payloadHash = cg_payloadHash g, dg_attesterId = Some (cg_attesterId g), dg_grantee = cg_grantee g, dg_level = cg_level g,
      dg_pendingLevel = None, dg_contractAddress = contract, dg_grantedTxHash = None, dg_revokedTxHash = None, dg_active = True,
      dg_changedAtHeight = height, dg_createdAt = now, dg_modifiedAt = Some now\<rparr>"

definition stamped :: "int option \<Rightarrow> disclosure_grant \<Rightarrow> disclosure_grant" where
  "stamped height r = (case height of None \<Rightarrow> r | Some h \<Rightarrow> r\<lparr>dg_changedAtHeight := Some h\<rparr>)"

definition later_than :: "disclosure_grant \<Rightarrow> int option \<Rightarrow> bool" where
  "later_than e height = (case (height, heightOf e) of (Some h, Some k) \<Rightarrow> h < k | _ \<Rightarrow> False)"

definition unordered_revoke :: "disclosure_grant \<Rightarrow> int option \<Rightarrow> bool" where
  "unordered_revoke e height \<longleftrightarrow>
     height = None \<and> heightOf e \<noteq> None \<and> (case dg_revokedTxHash e of Some t \<Rightarrow> t \<noteq> [] | None \<Rightarrow> False)"

text \<open>The update for a grant on chain, decided on the row \<open>e\<close> as it was read.\<close>

definition mirror_stmt :: "disclosure_grant \<Rightarrow> chain_grant \<Rightarrow> int option \<Rightarrow> int \<Rightarrow> disclosures \<Rightarrow> disclosures" where
  "mirror_stmt e g height now rs =
     snd (update_where (\<lambda>r. dg_ID r = dg_ID e \<and> dg_changedAtHeight r = heightOf e)
            (\<lambda>r. stamped height (r\<lparr>dg_level := cg_level g, dg_active := True, dg_revokedTxHash := None, dg_modifiedAt := Some now\<rparr>)) rs)"

definition mirror_read :: "disclosure_grant \<Rightarrow> chain_grant \<Rightarrow> int option \<Rightarrow> int \<Rightarrow> disclosures \<Rightarrow> disclosures" where
  "mirror_read e g height now rs =
     (if later_than e height then rs
      else if unordered_revoke e height then rs
      else mirror_stmt e g height now rs)"

definition mirror_grant :: "string \<Rightarrow> int option \<Rightarrow> int \<Rightarrow> (chain_grant \<Rightarrow> string) \<Rightarrow> chain_grant \<Rightarrow> disclosures \<Rightarrow> disclosures" where
  "mirror_grant contract height now uuid g rs =
     (case select_one (same_key contract g) rs of
        Some e \<Rightarrow> mirror_read e g height now rs
      | None \<Rightarrow> rs @ [chain_row contract height now (uuid g) g])"

definition seen_on_chain :: "chain_grant list \<Rightarrow> disclosure_grant \<Rightarrow> bool" where
  "seen_on_chain gs r \<longleftrightarrow>
     ((case dg_attesterId r of Some a \<Rightarrow> a | None \<Rightarrow> []), dg_payloadHash r, dg_grantee r) \<in> set (map (\<lambda>g. (cg_attesterId g, cg_payloadHash g, cg_grantee g)) gs)"

text \<open>A row read as active that the sweep leaves alone: changed later, or, without heights to compare, of late.\<close>

definition sweep_spares :: "int option \<Rightarrow> int \<Rightarrow> disclosure_grant \<Rightarrow> bool" where
  "sweep_spares height cutoff r =
     (case (height, heightOf r) of
        (Some h, Some k) \<Rightarrow> h < k
      | _ \<Rightarrow> (case dg_modifiedAt r of Some m \<Rightarrow> cutoff < m | None \<Rightarrow> False))"

definition sweep_stmt :: "disclosure_grant \<Rightarrow> int option \<Rightarrow> int \<Rightarrow> disclosures \<Rightarrow> disclosures" where
  "sweep_stmt e height now rs =
     snd (update_where (\<lambda>r. dg_ID r = dg_ID e \<and> dg_changedAtHeight r = heightOf e)
            (\<lambda>r. stamped height (r\<lparr>dg_active := False, dg_modifiedAt := Some now\<rparr>)) rs)"

definition swept :: "chain_grant list \<Rightarrow> int option \<Rightarrow> int \<Rightarrow> disclosure_grant \<Rightarrow> bool" where
  "swept gs height cutoff r \<longleftrightarrow> \<not> seen_on_chain gs r \<and> \<not> sweep_spares height cutoff r"

definition DEFAULT_SWEEP_GRACE_MS :: int where "DEFAULT_SWEEP_GRACE_MS = 600000"

record reindex_env =
  rx_contract :: string
  rx_atHeight :: "int option"
  rx_tip :: "int option"
  rx_graceMs :: int
  rx_now :: int
  rx_uuid :: "chain_grant \<Rightarrow> string"

definition reindex_height :: "reindex_env \<Rightarrow> int option" where
  "reindex_height env = (case rx_atHeight env of Some h \<Rightarrow> Some h | None \<Rightarrow> rx_tip env)"

record reindex_result =
  rr_indexed :: nat
  rr_deactivated :: nat
  rr_snapshotHeight :: "int option"

text \<open>The state read at a height, or of the tip; \<open>None\<close> when the contract has none.\<close>

definition reindexOnce :: "reindex_env \<Rightarrow> (string \<Rightarrow> int option \<Rightarrow> chain_grant list option) \<Rightarrow> disclosures \<Rightarrow> reindex_result \<times> disclosures" where
  "reindexOnce env readGrants rs =
     (let contract = toLowerCase (rx_contract env); height = reindex_height env
      in case readGrants contract height of
           None \<Rightarrow> (\<lparr>rr_indexed = 0, rr_deactivated = 0, rr_snapshotHeight = height\<rparr>, rs)
         | Some gs \<Rightarrow>
             (let mirror_write = fold (mirror_grant contract height (rx_now env) (rx_uuid env)) gs rs;
                  gone = filter (swept gs height (rx_now env - rx_graceMs env)) (filter (\<lambda>r. dg_contractAddress r = contract \<and> dg_active r) mirror_write)
              in (\<lparr>rr_indexed = length gs, rr_deactivated = length gone, rr_snapshotHeight = height\<rparr>,
                  fold (\<lambda>r. sweep_stmt r height (rx_now env)) gone mirror_write)))"

section \<open>The retry job\<close>

text \<open>
  The attempts of the job, each with its result and the time that has passed since the start. The pause is a
  quarter of the window at most, which need not be a whole number: four times the figures are compared.
\<close>

definition pause4 :: "int \<Rightarrow> nat \<Rightarrow> int" where
  "pause4 windowMs attempt = min (4 * 15000 * 2 ^ (attempt - 1)) (min (4 * 300000) (max 4 windowMs))"

fun reindex_attempts :: "int \<Rightarrow> nat \<Rightarrow> ((js_error + reindex_result) \<times> int) list \<Rightarrow> (js_error + nat \<times> reindex_result) option" where
  "reindex_attempts windowMs attempt [] = None"
| "reindex_attempts windowMs attempt ((Inr r, _) # _) = Some (Inr (attempt, r))"
| "reindex_attempts windowMs attempt ((Inl e, elapsed) # looks) =
     (if 4 * windowMs < 4 * elapsed + pause4 windowMs attempt then Some (Inl e)
      else reindex_attempts windowMs (attempt + 1) looks)"

section \<open>Requests\<close>

record disclosure_request =
  rq_payloadHash :: "string option"
  rq_grantee :: "string option"
  rq_level :: "int option"
  rq_sessionId :: "string option"
  rq_contractAddress :: "string option"

record disclosure_env =
  de_mainnetBlock :: "string option"
  de_rate_ok :: bool
  de_prepared :: "js_error + string"
  de_now :: int
  de_after :: int
  de_uuid :: string
  de_start :: "js_error + bool \<times> string"

datatype disclosure_answer =
    Rejected400 string
  | Blocked403 string
  | RateLimited
  | Failed500 js_error
  | GrantQueued string string
  | RevokeQueued string
  | Reindexed nat nat

definition missing :: "string option \<Rightarrow> bool" where
  "missing v \<longleftrightarrow> v = None \<or> v = Some []"

definition grant_request_problem :: "disclosure_request \<Rightarrow> string option" where
  "grant_request_problem d =
     (if missing (rq_payloadHash d) then Some ''payloadHash is required''
      else if missing (rq_grantee d) then Some ''grantee is required''
      else if rq_level d = None then Some ''level is required''
      else if the (rq_level d) < 0 \<or> 2 < the (rq_level d) then Some ''level must be 0 (public), 1 (legitimate-interest), or 2 (authority)''
      else if missing (rq_sessionId d) then Some ''sessionId is required''
      else if missing (rq_contractAddress d) then Some ''contractAddress is required''
      else None)"

definition lower_of :: "string option \<Rightarrow> string" where
  "lower_of v = toLowerCase (the v)"

definition requested_key :: "disclosure_request \<Rightarrow> string \<Rightarrow> disclosure_grant \<Rightarrow> bool" where
  "requested_key d attester r \<longleftrightarrow>
     dg_contractAddress r = lower_of (rq_contractAddress d) \<and> dg_attesterId r = Some attester \<and>
     dg_payloadHash r = lower_of (rq_payloadHash d) \<and> dg_grantee r = lower_of (rq_grantee d)"

definition requested_row :: "disclosure_env \<Rightarrow> disclosure_request \<Rightarrow> string \<Rightarrow> disclosure_grant" where
  "requested_row env d attester =
     \<lparr>dg_ID = de_uuid env, dg_payloadHash = lower_of (rq_payloadHash d), dg_attesterId = Some attester, dg_grantee = lower_of (rq_grantee d),
      dg_level = the (rq_level d), dg_pendingLevel = None, dg_contractAddress = lower_of (rq_contractAddress d), dg_grantedTxHash = None,
      dg_revokedTxHash = None, dg_active = False, dg_changedAtHeight = None, dg_createdAt = de_now env, dg_modifiedAt = Some (de_now env)\<rparr>"

definition mark_pending :: "string \<Rightarrow> int \<Rightarrow> int \<Rightarrow> disclosures \<Rightarrow> disclosures" where
  "mark_pending i level now rs = snd (update_where (\<lambda>r. dg_ID r = i) (\<lambda>r. r\<lparr>dg_pendingLevel := Some level, dg_modifiedAt := Some now\<rparr>) rs)"

text \<open>The framework sets the modification time of a managed row on every update.\<close>

definition restore_pending :: "string \<Rightarrow> int \<Rightarrow> int option \<Rightarrow> int \<Rightarrow> disclosures \<Rightarrow> disclosures" where
  "restore_pending i level old now rs =
     snd (update_where (\<lambda>r. dg_ID r = i \<and> dg_pendingLevel r = Some level) (\<lambda>r. r\<lparr>dg_pendingLevel := old, dg_modifiedAt := Some now\<rparr>) rs)"

definition delete_grant :: "string \<Rightarrow> disclosures \<Rightarrow> disclosures" where
  "delete_grant i rs = filter (\<lambda>r. dg_ID r \<noteq> i) rs"

definition grantDisclosure :: "disclosure_env \<Rightarrow> disclosure_request \<Rightarrow> disclosures \<Rightarrow> disclosure_answer \<times> disclosures" where
  "grantDisclosure env d rs =
     (case grant_request_problem d of
        Some m \<Rightarrow> (Rejected400 m, rs)
      | None \<Rightarrow>
          case de_mainnetBlock env of
            Some m \<Rightarrow> (Blocked403 m, rs)
          | None \<Rightarrow>
              if \<not> de_rate_ok env then (RateLimited, rs)
              else case de_prepared env of
                Inl e \<Rightarrow> (Failed500 e, rs)
              | Inr attester \<Rightarrow>
                  (let level = the (rq_level d); existing = select_one (requested_key d attester) rs;
                       i = (case existing of Some e \<Rightarrow> dg_ID e | None \<Rightarrow> de_uuid env);
                       rs1 = (case existing of Some e \<Rightarrow> mark_pending i level (de_now env) rs | None \<Rightarrow> rs @ [requested_row env d attester])
                   in case de_start env of
                        Inl e \<Rightarrow> (Failed500 e, case existing of Some _ \<Rightarrow> clearPendingDisclosureLevel i level (de_after env) rs1
                                                             | None \<Rightarrow> delete_grant i rs1)
                      | Inr (deduplicated, job) \<Rightarrow>
                          (GrantQueued job i,
                           case existing of Some e \<Rightarrow> if deduplicated then restore_pending i level (dg_pendingLevel e) (de_after env) rs1 else rs1
                                          | None \<Rightarrow> rs1)))"

definition revoke_request_problem :: "disclosure_request \<Rightarrow> string option" where
  "revoke_request_problem d =
     (if missing (rq_payloadHash d) then Some ''payloadHash is required''
      else if missing (rq_grantee d) then Some ''grantee is required''
      else if missing (rq_sessionId d) then Some ''sessionId is required''
      else if missing (rq_contractAddress d) then Some ''contractAddress is required''
      else None)"

definition revokeDisclosure :: "disclosure_env \<Rightarrow> disclosure_request \<Rightarrow> disclosure_answer" where
  "revokeDisclosure env d =
     (case revoke_request_problem d of
        Some m \<Rightarrow> Rejected400 m
      | None \<Rightarrow>
          case de_mainnetBlock env of
            Some m \<Rightarrow> Blocked403 m
          | None \<Rightarrow>
              if \<not> de_rate_ok env then RateLimited
              else case de_prepared env of
                Inl e \<Rightarrow> Failed500 e
              | Inr _ \<Rightarrow> (case de_start env of Inl e \<Rightarrow> Failed500 e | Inr (_, job) \<Rightarrow> RevokeQueued job))"

section \<open>Jobs\<close>

text \<open>
  A job of a grant, a revoke or a retraction: the contract call answers with the transaction and its height, or
  fails. After a confirmation the contract is reindexed; when that fails, a retry job is queued, and the
  statements made before the failure stay.
\<close>

datatype disclosure_command =
    GrantCommand string int
  | RevokeCommand string string string string
  | RetractCommand string string string

definition confirm_command :: "disclosure_command \<Rightarrow> string \<Rightarrow> int \<Rightarrow> int option \<Rightarrow> disclosures \<Rightarrow> disclosures" where
  "confirm_command cmd tx now landed rs =
     (case cmd of
        GrantCommand i level \<Rightarrow> confirm_grant i level tx now landed rs
      | RevokeCommand c a p g \<Rightarrow> confirm_revoke c a p g tx now landed rs
      | RetractCommand c a p \<Rightarrow> confirm_retract c a p tx now landed rs)"

definition reindexAfterSubmit :: "(disclosures \<Rightarrow> (js_error + reindex_result) \<times> disclosures) \<Rightarrow> disclosures \<Rightarrow> bool \<times> disclosures" where
  "reindexAfterSubmit run rs = (case run rs of (r, rs') \<Rightarrow> (\<not> isInr r, rs'))"

definition execute_disclosure ::
    "disclosure_command \<Rightarrow> js_error + string \<times> int option \<Rightarrow> int \<Rightarrow> (disclosures \<Rightarrow> (js_error + reindex_result) \<times> disclosures) \<Rightarrow> disclosures \<Rightarrow>
     (js_error + bool \<times> string) \<times> disclosures" where
  "execute_disclosure cmd sent now run rs =
     (case sent of
        Inl e \<Rightarrow> (Inl e, case cmd of GrantCommand i level \<Rightarrow> clearPendingDisclosureLevel i level now rs | _ \<Rightarrow> rs)
      | Inr (tx, landed) \<Rightarrow> (case reindexAfterSubmit run (confirm_command cmd tx now landed rs) of (queued, rs') \<Rightarrow> (Inr (queued, tx), rs')))"

text \<open>The finalizer of a job whose answer was lost confirms with the evidence of the chain.\<close>

definition finalize_disclosure :: "disclosure_command \<Rightarrow> string \<Rightarrow> int option \<Rightarrow> int \<Rightarrow> int option \<Rightarrow> disclosures \<Rightarrow> disclosures" where
  "finalize_disclosure cmd tx finalizedAt now landed rs =
     confirm_command cmd tx (case finalizedAt of Some t \<Rightarrow> t | None \<Rightarrow> now) landed rs"

text \<open>The action that reindexes on request, with no height given; without a provider it answers at once.\<close>

definition reindex_action ::
    "disclosure_env \<Rightarrow> bool \<Rightarrow> string option \<Rightarrow> (string \<Rightarrow> disclosures \<Rightarrow> (js_error + reindex_result) \<times> disclosures) \<Rightarrow> disclosures \<Rightarrow>
     disclosure_answer \<times> disclosures" where
  "reindex_action env liveProvider contract run rs =
     (if missing contract then (Rejected400 ''contractAddress is required'', rs)
      else if \<not> de_rate_ok env then (RateLimited, rs)
      else if \<not> liveProvider then (Reindexed 0 0, rs)
      else case run (lower_of contract) rs of
             (Inl e, rs') \<Rightarrow> (Failed500 e, rs')
           | (Inr r, rs') \<Rightarrow> (Reindexed (rr_indexed r) (rr_deactivated r), rs'))"

section \<open>Who a caller is\<close>

record grantee_identity =
  gi_ID :: string
  gi_userId :: string
  gi_granteeId :: string
  gi_bindingKind :: string
  gi_scope :: "string option"

datatype grantee_binding = CustomBinding | WalletBinding | DidBinding

fun is_hex_char :: "char \<Rightarrow> bool" where
  "is_hex_char c = is_lower_hex (lower_char c)"

definition HEX64_ANY_CASE_RE :: "string \<Rightarrow> bool" where
  "HEX64_ANY_CASE_RE s \<longleftrightarrow> length s = 64 \<and> list_all is_hex_char s"

text \<open>The hash of the bytes a hex text stands for, and of a text, are arguments.\<close>

definition deriveGranteeId :: "(string \<Rightarrow> string) \<Rightarrow> (string \<Rightarrow> string) \<Rightarrow> grantee_binding \<Rightarrow> string \<Rightarrow> string result" where
  "deriveGranteeId sha_hex sha_text kind inp =
     (if inp = [] then Inl (js_Error ''grantee-identity: input is required'')
      else case kind of
        CustomBinding \<Rightarrow> if \<not> HEX64_ANY_CASE_RE inp then Inl (js_Error ''grantee-identity: custom granteeId must be 64 hex chars (32 bytes)'')
                         else Inr (toLowerCase inp)
      | WalletBinding \<Rightarrow> if \<not> list_all is_hex_char inp \<or> odd (length inp) then Inl (js_Error ''grantee-identity: wallet coin public key must be hex'')
                         else Inr (sha_hex inp)
      | DidBinding \<Rightarrow> Inr (sha_text inp))"

definition norm_scope :: "string option \<Rightarrow> string option" where
  "norm_scope s = (if s = Some [] then None else s)"

definition global_identity :: "grantee_identity list \<Rightarrow> string option" where
  "global_identity rows = map_option gi_granteeId (find (\<lambda>r. norm_scope (gi_scope r) = None) rows)"

definition resolveGranteeId :: "string option \<Rightarrow> string option \<Rightarrow> grantee_identity list \<Rightarrow> string option" where
  "resolveGranteeId userId scope ids =
     (if missing userId then None
      else let rows = filter (\<lambda>r. gi_userId r = the userId) ids
           in if rows = [] then None
              else case scope of
                     None \<Rightarrow> global_identity rows
                   | Some s \<Rightarrow> (case find (\<lambda>r. norm_scope (gi_scope r) = Some s) rows of
                                 Some r \<Rightarrow> Some (gi_granteeId r)
                               | None \<Rightarrow> global_identity rows))"

record identity_env =
  ie_userId :: "string option"
  ie_selfService :: bool
  ie_binding :: grantee_binding
  ie_bindingName :: string
  ie_uuid :: string

datatype identity_answer = IdentityRejected nat string | IdentityStored string string

text \<open>Registering again updates the row of the user and scope.\<close>

definition registerGranteeIdentity ::
    "(string \<Rightarrow> string) \<Rightarrow> (string \<Rightarrow> string) \<Rightarrow> identity_env \<Rightarrow> string option \<Rightarrow> string option \<Rightarrow> grantee_identity list \<Rightarrow>
     identity_answer \<times> grantee_identity list" where
  "registerGranteeIdentity sha_hex sha_text env bindingInput scope ids =
     (if missing (ie_userId env) then (IdentityRejected 401 ''authentication required'', ids)
      else if \<not> ie_selfService env
      then (IdentityRejected 403 (''Self-service grantee registration is disabled on this deployment. '' @
              ''Identities are registered through the operator'' @ [CHR 0x27] @ ''s proofing flow.''), ids)
      else if missing bindingInput then (IdentityRejected 400 ''bindingInput is required'', ids)
      else case deriveGranteeId sha_hex sha_text (ie_binding env) (the bindingInput) of
             Inl e \<Rightarrow> (IdentityRejected 400 (err_message e), ids)
           | Inr granteeId \<Rightarrow>
               (let uid = the (ie_userId env); scopeNorm = norm_scope scope
                in case select_one (\<lambda>r. gi_userId r = uid \<and> gi_scope r = scopeNorm) ids of
                     Some e \<Rightarrow> (IdentityStored (gi_ID e) granteeId,
                               snd (update_where (\<lambda>r. gi_ID r = gi_ID e) (\<lambda>r. r\<lparr>gi_granteeId := granteeId, gi_bindingKind := ie_bindingName env\<rparr>) ids))
                   | None \<Rightarrow> (IdentityStored (ie_uuid env) granteeId,
                             ids @ [\<lparr>gi_ID = ie_uuid env, gi_userId = uid, gi_granteeId = granteeId, gi_bindingKind = ie_bindingName env, gi_scope = scopeNorm\<rparr>])))"

section \<open>Roles\<close>

datatype disclosure_role = PublicOnly | LegitimateInterest | Authority

fun RANK :: "disclosure_role \<Rightarrow> nat" where
  "RANK PublicOnly = 0"
| "RANK LegitimateInterest = 1"
| "RANK Authority = 2"

definition level_to_role :: "int \<Rightarrow> disclosure_role option" where
  "level_to_role l = (if l = 0 then Some PublicOnly else if l = 1 then Some LegitimateInterest else if l = 2 then Some Authority else None)"

definition granted_levels :: "string \<Rightarrow> string \<Rightarrow> string option \<Rightarrow> string option \<Rightarrow> disclosures \<Rightarrow> int list" where
  "granted_levels contract granteeId payload attester rs =
     map dg_level (filter (\<lambda>r. dg_contractAddress r = toLowerCase contract \<and> dg_grantee r = granteeId \<and> dg_active r \<and>
                      (missing payload \<or> dg_payloadHash r = toLowerCase (the payload) \<and> dg_attesterId r = Some (toLowerCase (the attester)))) rs)"

definition highest_level :: "int list \<Rightarrow> int" where
  "highest_level ls = fold max ls 0"

definition resolveOnChainRole ::
    "string option \<Rightarrow> grantee_identity list \<Rightarrow> string \<Rightarrow> string option \<Rightarrow> string option \<Rightarrow> disclosures \<Rightarrow> disclosure_role" where
  "resolveOnChainRole userId ids contract payload attester rs =
     (if \<not> missing payload \<and> missing attester then PublicOnly
      else case resolveGranteeId userId (Some contract) ids of
             None \<Rightarrow> PublicOnly
           | Some granteeId \<Rightarrow>
               if granteeId = [] then PublicOnly
               else (let ls = granted_levels contract granteeId payload attester rs
                     in if ls = [] then PublicOnly
                        else case level_to_role (highest_level ls) of Some r \<Rightarrow> r | None \<Rightarrow> PublicOnly))"

record operator_role =
  or_userId :: string
  or_role :: disclosure_role
  or_scope :: "string option"
  or_validFrom :: "int option"
  or_validUntil :: "int option"

definition isCurrentlyValidGrant :: "int \<Rightarrow> string option \<Rightarrow> operator_role \<Rightarrow> bool" where
  "isCurrentlyValidGrant now scope r =
     (if (case or_validFrom r of Some f \<Rightarrow> now < f | None \<Rightarrow> False) then False
      else if (case or_validUntil r of Some u \<Rightarrow> u \<le> now | None \<Rightarrow> False) then False
      else case scope of
             None \<Rightarrow> norm_scope (or_scope r) = None
           | Some s \<Rightarrow> norm_scope (or_scope r) = None \<or> norm_scope (or_scope r) = Some s)"

fun higher_role :: "operator_role \<Rightarrow> operator_role \<Rightarrow> operator_role" where
  "higher_role current best = (if RANK (or_role best) < RANK (or_role current) then current else best)"

definition attachDisclosureRole ::
    "string option \<Rightarrow> grantee_identity list \<Rightarrow> operator_role list \<Rightarrow> int \<Rightarrow> string option \<Rightarrow> string option \<Rightarrow> string option \<Rightarrow> string option \<Rightarrow>
     disclosures \<Rightarrow> disclosure_role" where
  "attachDisclosureRole userId ids roles now scope contract payload attester rs =
     (if missing userId then PublicOnly
      else if \<not> missing contract then resolveOnChainRole userId ids (the contract) payload attester rs
      else case filter (isCurrentlyValidGrant now scope) (filter (\<lambda>r. or_userId r = the userId) roles) of
             [] \<Rightarrow> PublicOnly
           | r # others \<Rightarrow> or_role (fold higher_role others r))"

definition isAuthority :: "disclosure_role \<Rightarrow> bool" where
  "isAuthority r \<longleftrightarrow> r = Authority"

definition meetsDisclosure :: "disclosure_role option \<Rightarrow> disclosure_role \<Rightarrow> bool" where
  "meetsDisclosure actual required =
     (RANK required \<le> RANK (case actual of Some r \<Rightarrow> r | None \<Rightarrow> PublicOnly))"

end
