(* ===== verification/Disclosure_Safety.thy ===== *)
theory Disclosure_Safety
  imports Disclosure
begin

text \<open>
  What the table of disclosure grants promises. Statements of requests, jobs, finalizers and reindexes
  interleave; a reindex decides on a row it read before. A confirmed change holds against everything older;
  an uninterrupted reindex leaves exactly what the chain grants, and a request by itself gives nothing.
\<close>

section \<open>Interleaved statements\<close>

datatype disclosure_stmt =
    Grant_landed string int string int "int option"
  | Revoke_landed string string string string string int "int option"
  | Retract_landed string string string string int "int option"
  | Clear_pending string int int
  | Mark_pending string int int
  | Restore_pending string int "int option" int
  | Insert_request disclosure_env disclosure_request string
  | Delete_request string
  | Mirror disclosure_grant chain_grant "int option" int
  | Mirror_insert string "int option" int string chain_grant
  | Sweep disclosure_grant "int option" int int

fun exec_stmt :: "disclosure_stmt \<Rightarrow> disclosures \<Rightarrow> disclosures" where
  "exec_stmt (Grant_landed i l tx now landed) rs = confirm_grant i l tx now landed rs"
| "exec_stmt (Revoke_landed c a p g tx now landed) rs = confirm_revoke c a p g tx now landed rs"
| "exec_stmt (Retract_landed c a p tx now landed) rs = confirm_retract c a p tx now landed rs"
| "exec_stmt (Clear_pending i l now) rs = clearPendingDisclosureLevel i l now rs"
| "exec_stmt (Mark_pending i l now) rs = mark_pending i l now rs"
| "exec_stmt (Restore_pending i l old now) rs = restore_pending i l old now rs"
| "exec_stmt (Insert_request env d a) rs = rs @ [requested_row env d a]"
| "exec_stmt (Delete_request i) rs = delete_grant i rs"
| "exec_stmt (Mirror e g h now) rs = mirror_read e g h now rs"
| "exec_stmt (Mirror_insert c h now i g) rs = rs @ [chain_row c h now i g]"
| "exec_stmt (Sweep e h now cutoff) rs = (if sweep_spares h cutoff e then rs else sweep_stmt e h now rs)"

text \<open>
  A statement that decides on a row has read it at some time; a new row has an identifier never used, and a
  landed transaction has an identifier.
\<close>

fun stmt_ok :: "disclosure_grant set \<Rightarrow> disclosure_stmt \<Rightarrow> bool" where
  "stmt_ok reads (Mirror e g h now) = (e \<in> reads)"
| "stmt_ok reads (Sweep e h now cutoff) = (e \<in> reads)"
| "stmt_ok reads (Insert_request env d a) = (de_uuid env \<notin> dg_ID ` reads)"
| "stmt_ok reads (Mirror_insert c h now i g) = (i \<notin> dg_ID ` reads)"
| "stmt_ok reads (Revoke_landed c a p g tx now landed) = (tx \<noteq> [])"
| "stmt_ok reads (Retract_landed c a p tx now landed) = (tx \<noteq> [])"
| "stmt_ok reads _ = True"

fun run_disclosure :: "disclosure_stmt list \<Rightarrow> disclosures \<Rightarrow> disclosure_grant set \<Rightarrow> disclosures \<times> disclosure_grant set" where
  "run_disclosure [] rs reads = (rs, reads)"
| "run_disclosure (s # ss) rs reads = run_disclosure ss (exec_stmt s rs) (reads \<union> set (exec_stmt s rs))"

fun stmts_ok :: "disclosure_stmt list \<Rightarrow> disclosures \<Rightarrow> disclosure_grant set \<Rightarrow> bool" where
  "stmts_ok [] rs reads = True"
| "stmts_ok (s # ss) rs reads = (stmt_ok reads s \<and> stmts_ok ss (exec_stmt s rs) (reads \<union> set (exec_stmt s rs)))"

lemma run_disclosure_append: "run_disclosure (ss @ ts) rs reads = (case run_disclosure ss rs reads of (rs', reads') \<Rightarrow> run_disclosure ts rs' reads')"
  by (induction ss rs reads rule: run_disclosure.induct) auto

lemma stmts_ok_append: "stmts_ok (ss @ ts) rs reads \<longleftrightarrow> stmts_ok ss rs reads \<and> (case run_disclosure ss rs reads of (rs', reads') \<Rightarrow> stmts_ok ts rs' reads')"
  by (induction ss rs reads rule: run_disclosure.induct) auto

text \<open>The row was changed at height \<open>h\<close> or later.\<close>

definition at_least :: "nat \<Rightarrow> disclosure_grant \<Rightarrow> bool" where
  "at_least h r = (case dg_changedAtHeight r of Some k \<Rightarrow> int h \<le> k | None \<Rightarrow> False)"

section \<open>Confirmed changes\<close>

text \<open>What a row is after a statement, given the row it was.\<close>

lemma heightOf_at_least: "at_least h r \<Longrightarrow> \<exists>k. heightOf r = Some k \<and> dg_changedAtHeight r = Some k \<and> int h \<le> k"
  by (auto simp: at_least_def heightOf_def split: option.splits)

lemma updated_row:
  "r \<in> set (snd (update_where P f rs)) \<Longrightarrow> \<exists>e \<in> set rs. r = (if P e then f e else e)"
  by (auto simp: table_simps)

lemma dg_ID_upd [simp]:
  "dg_ID (heightStamp l r) = dg_ID r" "dg_ID (confirmedDisclosureLevel lv tx now l r) = dg_ID r" "dg_ID (revoke_write tx now l r) = dg_ID r"
  "dg_ID (stamped l r) = dg_ID r"
  by (simp_all add: heightStamp_def confirmedDisclosureLevel_def revoke_write_def stamped_def split: option.split)

lemmas confirm_defs = confirm_grant_def confirm_revoke_def confirm_retract_def clearPendingDisclosureLevel_def mark_pending_def restore_pending_def

text \<open>A guard that a row stamped \<open>h\<close> passes is one of a later height.\<close>

lemma notNewerThan_at_least: "at_least h r \<Longrightarrow> notNewerThan l r \<Longrightarrow> \<exists>k. l = Some k \<and> int h < k"
  by (auto simp: at_least_def notNewerThan_def is_height_def split: option.splits if_splits)

text \<open>A statement that read an older version of the row does not reach it.\<close>

lemma older_read_misses:
  assumes "at_least h r" "\<not> at_least h e"
  shows "dg_changedAtHeight r \<noteq> heightOf e"
  using heightOf_at_least [OF assms(1)] assms(2) by (auto simp: at_least_def heightOf_def split: option.splits if_splits)

lemma mirror_row:
  assumes "r \<in> set (mirror_read e g l now rs)"
  obtains r0 where "r0 \<in> set rs" "dg_ID r0 = dg_ID r"
    "r = r0 \<or> \<not> later_than e l \<and> \<not> unordered_revoke e l \<and> dg_ID r0 = dg_ID e \<and> dg_changedAtHeight r0 = heightOf e \<and>
       r = stamped l (r0\<lparr>dg_level := cg_level g, dg_active := True, dg_revokedTxHash := None, dg_modifiedAt := Some now\<rparr>)"
  using assms that by (auto simp: mirror_read_def mirror_stmt_def table_simps split: if_splits)

lemma sweep_row:
  assumes "r \<in> set (sweep_stmt e l now rs)"
  obtains r0 where "r0 \<in> set rs" "dg_ID r0 = dg_ID r"
    "r = r0 \<or> dg_ID r0 = dg_ID e \<and> dg_changedAtHeight r0 = heightOf e \<and> r = stamped l (r0\<lparr>dg_active := False, dg_modifiedAt := Some now\<rparr>)"
  using assms that by (auto simp: sweep_stmt_def table_simps split: if_splits)

lemma swept_at_least:
  assumes "at_least h r0" "dg_changedAtHeight r0 = heightOf e" "\<not> sweep_spares l cutoff e"
  shows "at_least h (stamped l (r0\<lparr>dg_active := False, dg_modifiedAt := Some now\<rparr>))"
  using heightOf_at_least [OF assms(1)] assms(2,3) by (auto simp: at_least_def stamped_def sweep_spares_def split: option.splits)

text \<open>The rows of the pending marker's statements, and of the inserts and the delete.\<close>

definition same_grant :: "disclosure_grant \<Rightarrow> disclosure_grant \<Rightarrow> bool" where
  "same_grant r r0 \<longleftrightarrow> dg_ID r = dg_ID r0 \<and> dg_level r = dg_level r0 \<and> dg_active r = dg_active r0 \<and>
     dg_revokedTxHash r = dg_revokedTxHash r0 \<and> dg_changedAtHeight r = dg_changedAtHeight r0"

fun marks_only :: "disclosure_stmt \<Rightarrow> bool" where
  "marks_only (Clear_pending _ _ _) = True"
| "marks_only (Mark_pending _ _ _) = True"
| "marks_only (Restore_pending _ _ _ _) = True"
| "marks_only (Delete_request _) = True"
| "marks_only _ = False"

lemma marked_row: "marks_only s \<Longrightarrow> r \<in> set (exec_stmt s rs) \<Longrightarrow> \<exists>r0 \<in> set rs. same_grant r r0"
  by (cases s) (auto simp: confirm_defs delete_grant_def table_simps same_grant_def split: if_splits)

text \<open>What a row is after a statement: what it was, or a new row, or the result of one of the writes.\<close>

lemma row_after:
  assumes "r \<in> set (exec_stmt s rs)"
  obtains (Kept) r0 where "r0 \<in> set rs" "same_grant r r0"
  | (New) "\<forall>reads. stmt_ok reads s \<longrightarrow> dg_ID r \<notin> dg_ID ` reads"
  | (Granted) l tx now landed r0 where "s = Grant_landed (dg_ID r) l tx now landed" "r0 \<in> set rs" "notNewerThan landed r0"
      "r = confirmedDisclosureLevel l tx now landed r0"
  | (Revoked) tx now landed r0 where "r0 \<in> set rs" "notNewerThan landed r0" "r = revoke_write tx now landed r0" "\<forall>reads. stmt_ok reads s \<longrightarrow> tx \<noteq> []"
  | (Mirrored) e g l now r0 where "s = Mirror e g l now" "r0 \<in> set rs" "\<not> later_than e l" "\<not> unordered_revoke e l" "dg_ID r0 = dg_ID e"
      "dg_changedAtHeight r0 = heightOf e" "r = stamped l (r0\<lparr>dg_level := cg_level g, dg_active := True, dg_revokedTxHash := None, dg_modifiedAt := Some now\<rparr>)"
  | (Swept) e l now cutoff r0 where "s = Sweep e l now cutoff" "r0 \<in> set rs" "\<not> sweep_spares l cutoff e" "dg_changedAtHeight r0 = heightOf e"
      "r = stamped l (r0\<lparr>dg_active := False, dg_modifiedAt := Some now\<rparr>)"
proof (cases "marks_only s")
  case True
  then show thesis using marked_row [OF _ assms] Kept by blast
next
  case False
  have k: thesis if "r \<in> set rs" using Kept [OF that] by (simp add: same_grant_def)
  show thesis
  proof (cases s)
    case (Grant_landed i l tx now landed)
    then show ?thesis using assms k Granted by (auto simp: confirm_grant_def table_simps split: if_splits)
  next
    case (Revoke_landed c a p g tx now landed)
    then show ?thesis using assms k Revoked by (auto simp: confirm_revoke_def table_simps split: if_splits)
  next
    case (Retract_landed c a p tx now landed)
    then show ?thesis using assms k Revoked by (auto simp: confirm_retract_def table_simps split: if_splits)
  next
    case (Insert_request env d a)
    then show ?thesis using assms k New by (auto simp: requested_row_def)
  next
    case (Mirror_insert c h now j g)
    then show ?thesis using assms k New by (auto simp: chain_row_def)
  next
    case (Mirror e g l now)
    then have "r \<in> set (mirror_read e g l now rs)" using assms by simp
    then show ?thesis using k Mirrored [OF Mirror] by (elim mirror_row) blast
  next
    case (Sweep e l now cutoff)
    show ?thesis
    proof (cases "sweep_spares l cutoff e")
      case False
      then have "r \<in> set (sweep_stmt e l now rs)" using assms Sweep by simp
      then show ?thesis using k Swept [OF Sweep _ False] by (elim sweep_row) blast
    qed (use assms k Sweep in simp)
  qed (use False in simp_all)
qed

lemma same_grant_kept: "same_grant r r0 \<Longrightarrow> at_least h r = at_least h r0 \<and> dg_ID r = dg_ID r0"
  by (simp add: same_grant_def at_least_def)

lemma revoked_row_at_least: "at_least h r0 \<Longrightarrow> notNewerThan l r0 \<Longrightarrow> at_least h (revoke_write tx now l r0)"
  by (auto simp: at_least_def revoke_write_def heightStamp_def notNewerThan_def is_height_def split: option.splits if_splits)

text \<open>
  A fact \<open>K\<close> about row \<open>i\<close>, once the row is stamped \<open>h\<close> or later: revokes and sweeps keep it, and what may end it
  is a later grant or a state that its own guards let through. A statement that decides on an older read of the
  row does not reach it.
\<close>

locale confirmed_row =
  fixes i :: string and h :: nat and K :: "disclosure_grant \<Rightarrow> bool" and undoes :: "disclosure_stmt \<Rightarrow> bool"
  assumes same: "same_grant r r0 \<Longrightarrow> K r = K r0"
    and revoke: "K r0 \<Longrightarrow> tx \<noteq> [] \<Longrightarrow> K (revoke_write tx now l r0)"
    and swept: "K r0 \<Longrightarrow> K (stamped l (r0\<lparr>dg_active := False, dg_modifiedAt := Some now\<rparr>))"
    and later_grant: "int h < k \<Longrightarrow> undoes (Grant_landed i lv tx now (Some k))"
    and state: "K e \<Longrightarrow> dg_ID e = i \<Longrightarrow> at_least h e \<Longrightarrow> \<not> later_than e l \<Longrightarrow> \<not> unordered_revoke e l \<Longrightarrow> undoes (Mirror e g l now)"
begin

lemma keep:
  assumes "\<not> undoes s" "stmt_ok reads s" "r \<in> set (exec_stmt s rs)" "dg_ID r = i" "set rs \<subseteq> reads"
    "\<forall>e \<in> set rs. dg_ID e = i \<longrightarrow> at_least h e \<and> K e" "\<forall>e \<in> reads. dg_ID e = i \<longrightarrow> at_least h e \<longrightarrow> K e" "i \<in> dg_ID ` reads"
  shows "at_least h r \<and> K r"
  using assms(3)
proof (cases rule: row_after)
  case (Kept r0)
  then show ?thesis using assms(4,6) same same_grant_kept by metis
next
  case New
  then show ?thesis using assms(2,4,8) by auto
next
  case (Granted l tx now landed r0)
  then have "at_least h r0" using assms(4,6) by simp
  then obtain k where "landed = Some k" "int h < k" using notNewerThan_at_least Granted(3) by blast
  then show ?thesis using assms(1,4) Granted(1) later_grant by simp
next
  case (Revoked tx now landed r0)
  then have "at_least h r0" "K r0" "tx \<noteq> []" using assms(2,4,6) by auto
  then show ?thesis using revoked_row_at_least revoke Revoked(2,3) by simp
next
  case (Mirrored e g l now r0)
  have r0: "at_least h r0" "dg_ID r0 = i" using Mirrored(2,5,7) assms(4,6) by auto
  then have e: "at_least h e" using older_read_misses [OF r0(1)] Mirrored(6) by blast
  have "e \<in> reads" "dg_ID e = i" using assms(2) Mirrored(1,5) r0(2) by auto
  then have "undoes (Mirror e g l now)" using e assms(7) state Mirrored(3,4) by blast
  then show ?thesis using assms(1) Mirrored(1) by simp
next
  case (Swept e l now cutoff r0)
  have "at_least h r0 \<and> K r0" using Swept(2,5) assms(4,6) by simp
  then show ?thesis using swept_at_least [OF _ Swept(4,3)] swept Swept(5) by simp
qed

lemma run_keeps:
  "\<lbrakk>\<forall>s \<in> set ss. \<not> undoes s; stmts_ok ss rs reads; set rs \<subseteq> reads; i \<in> dg_ID ` reads;
    \<forall>e \<in> set rs. dg_ID e = i \<longrightarrow> at_least h e \<and> K e; \<forall>e \<in> reads. dg_ID e = i \<longrightarrow> at_least h e \<longrightarrow> K e\<rbrakk>
   \<Longrightarrow> \<forall>r \<in> set (fst (run_disclosure ss rs reads)). dg_ID r = i \<longrightarrow> K r"
proof (induction ss rs reads rule: run_disclosure.induct)
  case (2 s ss rs reads)
  have k: "at_least h r \<and> K r" if "r \<in> set (exec_stmt s rs)" "dg_ID r = i" for r
    by (rule keep [OF _ _ that 2(4)]) (use 2(2,3,5-7) in auto)
  have "i \<in> dg_ID ` (reads \<union> set (exec_stmt s rs))" using 2(5) by auto
  moreover have "\<forall>e \<in> reads \<union> set (exec_stmt s rs). dg_ID e = i \<longrightarrow> at_least h e \<longrightarrow> K e" using k 2(7) by auto
  ultimately have "\<forall>r \<in> set (fst (run_disclosure ss (exec_stmt s rs) (reads \<union> set (exec_stmt s rs)))). dg_ID r = i \<longrightarrow> K r"
    using k 2(2,3) by (intro 2(1)) auto
  then show ?case by simp
qed auto

end

section \<open>Confirmed revokes and levels\<close>

definition revoked :: "disclosure_grant \<Rightarrow> bool" where
  "revoked r \<longleftrightarrow> \<not> dg_active r \<and> (case dg_revokedTxHash r of Some t \<Rightarrow> t \<noteq> [] | None \<Rightarrow> False)"

text \<open>A state of the chain from that height on, or a grant that landed later.\<close>

fun undoes_revoke :: "string \<Rightarrow> nat \<Rightarrow> disclosure_stmt \<Rightarrow> bool" where
  "undoes_revoke i h (Mirror e g (Some k) now) = (dg_ID e = i \<and> int h \<le> k)"
| "undoes_revoke i h (Grant_landed j l tx now (Some k)) = (j = i \<and> int h < k)"
| "undoes_revoke i h _ = False"

text \<open>For a level also a state read without a height.\<close>

fun changes_level :: "string \<Rightarrow> nat \<Rightarrow> disclosure_stmt \<Rightarrow> bool" where
  "changes_level i h (Mirror e g None now) = (dg_ID e = i)"
| "changes_level i h s = undoes_revoke i h s"

lemma ordered_state: "at_least h e \<Longrightarrow> \<not> later_than e (Some k) \<Longrightarrow> int h \<le> k"
  using heightOf_at_least [of h e] by (auto simp: later_than_def)

interpretation revokes: confirmed_row i h revoked "undoes_revoke i h" for i h
proof unfold_locales
  show "undoes_revoke i h (Mirror e g l now)"
    if "revoked e" "dg_ID e = i" "at_least h e" "\<not> later_than e l" "\<not> unordered_revoke e l" for e l g now
    using that heightOf_at_least [of h e] ordered_state [of h e]
    by (cases l) (auto simp: revoked_def unordered_revoke_def split: option.splits)
qed (auto simp: same_grant_def revoked_def revoke_write_def heightStamp_def stamped_def split: option.splits)

interpretation levels: confirmed_row i h "\<lambda>r. dg_level r = l" "changes_level i h" for i h l
proof unfold_locales
  show "changes_level i h (Mirror e g m now)"
    if "dg_level e = l" "dg_ID e = i" "at_least h e" "\<not> later_than e m" "\<not> unordered_revoke e m" for e m g now
    using that ordered_state [of h e] by (cases m) auto
qed (auto simp: same_grant_def revoke_write_def heightStamp_def stamped_def split: option.split)

section \<open>Histories\<close>

text \<open>Heights of a row only grow, whatever is read and written in between.\<close>

lemma stamps_grow:
  assumes "stmt_ok reads s" "r \<in> set (exec_stmt s rs)" "dg_ID r \<in> dg_ID ` reads" "\<forall>e \<in> set rs. dg_ID e = dg_ID r \<longrightarrow> at_least h e"
  shows "at_least h r"
  using assms(2)
proof (cases rule: row_after)
  case (Kept r0)
  then show ?thesis using assms(4) same_grant_kept by metis
next
  case New
  then show ?thesis using assms(1,3) by auto
next
  case (Granted l tx now landed r0)
  then have "at_least h r0" using assms(4) dg_ID_upd(2) by metis
  then obtain k where "landed = Some k" "int h < k" using notNewerThan_at_least Granted(3) by blast
  then show ?thesis using Granted(4) by (simp add: at_least_def confirmedDisclosureLevel_def heightStamp_def is_height_def)
next
  case (Revoked tx now landed r0)
  then show ?thesis using revoked_row_at_least assms(4) dg_ID_upd(3) by metis
next
  case (Mirrored e g l now r0)
  have r0: "at_least h r0" using Mirrored(2,7) assms(4) by auto
  then obtain k where k: "heightOf e = Some k" "int h \<le> k" using Mirrored(6) heightOf_at_least [OF r0] by auto
  show ?thesis
  proof (cases l)
    case None
    then show ?thesis using Mirrored(7) r0 by (simp add: at_least_def stamped_def)
  next
    case (Some m)
    then have "int h \<le> m" using Mirrored(3) k by (simp add: later_than_def)
    then show ?thesis using Some Mirrored(7) by (simp add: at_least_def stamped_def)
  qed
next
  case (Swept e l now cutoff r0)
  then have "at_least h r0" using assms(4) by simp
  then show ?thesis using swept_at_least Swept(3,4,5) by simp
qed

definition history_ok :: "disclosures \<Rightarrow> disclosure_grant set \<Rightarrow> bool" where
  "history_ok rs reads \<longleftrightarrow> set rs \<subseteq> reads \<and> distinct (map dg_ID rs) \<and>
     (\<forall>e \<in> reads. \<forall>r \<in> set rs. dg_ID e = dg_ID r \<longrightarrow> (\<forall>h. at_least h e \<longrightarrow> at_least h r))"

lemma history_start: "distinct (map dg_ID rs) \<Longrightarrow> history_ok rs (set rs)"
  by (auto simp: history_ok_def distinct_map dest: inj_onD)

lemma ids_updated: "(\<And>r. dg_ID (f r) = dg_ID r) \<Longrightarrow> map dg_ID (snd (update_where P f rs)) = map dg_ID rs"
  by (simp add: table_simps)

lemma ids_kept:
  assumes "distinct (map dg_ID rs)" "stmt_ok reads s" "set rs \<subseteq> reads"
  shows "distinct (map dg_ID (exec_stmt s rs))"
proof (cases s)
  case (Insert_request env d a)
  then show ?thesis using assms by (auto simp: requested_row_def)
next
  case (Mirror_insert c h now j g)
  then show ?thesis using assms by (auto simp: chain_row_def)
next
  case (Delete_request i)
  then show ?thesis using assms(1) by (simp add: delete_grant_def distinct_map_filter)
qed (use assms(1) in \<open>simp_all add: confirm_defs mirror_read_def mirror_stmt_def sweep_stmt_def ids_updated\<close>)

lemma history_kept:
  assumes "history_ok rs reads" "stmt_ok reads s"
  shows "history_ok (exec_stmt s rs) (reads \<union> set (exec_stmt s rs))"
  unfolding history_ok_def
proof (intro conjI ballI allI impI)
  show "distinct (map dg_ID (exec_stmt s rs))" using ids_kept assms by (simp add: history_ok_def)
  then have inj: "e = r" if "e \<in> set (exec_stmt s rs)" "r \<in> set (exec_stmt s rs)" "dg_ID e = dg_ID r" for e r
    using that by (auto simp: distinct_map dest: inj_onD)
  show "at_least h r" if "e \<in> reads \<union> set (exec_stmt s rs)" "r \<in> set (exec_stmt s rs)" "dg_ID e = dg_ID r" "at_least h e" for e r h
  proof (cases "e \<in> reads")
    case True
    have "\<forall>r0 \<in> set rs. dg_ID r0 = dg_ID r \<longrightarrow> at_least h r0" using assms(1) True that(3,4) unfolding history_ok_def by metis
    then show ?thesis using stamps_grow [OF assms(2) that(2)] True that(3) by (metis image_eqI)
  qed (use that inj in auto)
qed simp

lemma history_run: "history_ok rs reads \<Longrightarrow> stmts_ok ss rs reads \<Longrightarrow> history_ok (fst (run_disclosure ss rs reads)) (snd (run_disclosure ss rs reads))"
  by (induction ss rs reads rule: run_disclosure.induct) (simp_all add: history_kept)

text \<open>The moment of a confirmation: the row is written, and no earlier read of it is stamped that high.\<close>

lemma confirmed_then:
  assumes "history_ok rs reads" "r \<in> set rs" "notNewerThan (Some (int h)) r" "dg_ID r = i"
  shows "\<forall>e \<in> reads. dg_ID e = i \<longrightarrow> \<not> at_least h e" "\<forall>e \<in> set rs. dg_ID e = i \<longrightarrow> e = r"
proof -
  have "\<not> at_least h r" using assms(3) by (auto simp: notNewerThan_def at_least_def is_height_def split: option.splits)
  then show "\<forall>e \<in> reads. dg_ID e = i \<longrightarrow> \<not> at_least h e" using assms(1,2,4) unfolding history_ok_def by metis
  show "\<forall>e \<in> set rs. dg_ID e = i \<longrightarrow> e = r" using assms(1,2,4) by (auto simp: history_ok_def distinct_map dest: inj_onD)
qed

context confirmed_row
begin

lemma holds_after:
  assumes "distinct (map dg_ID rs)" "stmts_ok (ss @ s # ts) rs (set rs)" "r \<in> set (fst (run_disclosure ss rs (set rs)))" "dg_ID r = i"
    "notNewerThan (Some (int h)) r" "\<And>e. e \<in> set (exec_stmt s (fst (run_disclosure ss rs (set rs)))) \<Longrightarrow> dg_ID e = i \<Longrightarrow> at_least h e \<and> K e"
    "\<forall>s \<in> set ts. \<not> undoes s" "r' \<in> set (fst (run_disclosure (ss @ s # ts) rs (set rs)))" "dg_ID r' = i"
  shows "K r'"
proof -
  obtain rs1 reads1 where run: "run_disclosure ss rs (set rs) = (rs1, reads1)" by fastforce
  let ?rs2 = "exec_stmt s rs1"
  have ok: "stmts_ok ss rs (set rs)" "stmts_ok ts ?rs2 (reads1 \<union> set ?rs2)" using assms(2) run by (auto simp: stmts_ok_append)
  have hist: "history_ok rs1 reads1" using history_run [OF history_start [OF assms(1)] ok(1)] run by simp
  have r: "r \<in> set rs1" using assms(3) run by simp
  note older = confirmed_then(1) [OF hist r assms(5,4)]
  have k: "at_least h e \<and> K e" if "e \<in> set ?rs2" "dg_ID e = i" for e using assms(6) that run by simp
  have "r' \<in> set (fst (run_disclosure ts ?rs2 (reads1 \<union> set ?rs2)))" using assms(8) run by (simp add: run_disclosure_append)
  moreover have "i \<in> dg_ID ` (reads1 \<union> set ?rs2)" using r hist assms(4) by (auto simp: history_ok_def)
  moreover have "\<forall>e \<in> set ?rs2. dg_ID e = i \<longrightarrow> at_least h e \<and> K e" using k by blast
  moreover have "\<forall>e \<in> reads1 \<union> set ?rs2. dg_ID e = i \<longrightarrow> at_least h e \<longrightarrow> K e" using older k by auto
  ultimately show ?thesis using run_keeps [OF assms(7) ok(2)] assms(9) by blast
qed

end

lemma same_row_then:
  assumes "distinct (map dg_ID rs)" "stmts_ok (ss @ s # ts) rs (set rs)" "r \<in> set (fst (run_disclosure ss rs (set rs)))"
    "e \<in> set (fst (run_disclosure ss rs (set rs)))" "dg_ID e = dg_ID r"
  shows "e = r"
proof -
  have "history_ok (fst (run_disclosure ss rs (set rs))) (snd (run_disclosure ss rs (set rs)))"
    using assms(2) by (intro history_run history_start [OF assms(1)]) (auto simp: stmts_ok_append split: prod.splits)
  then show ?thesis using assms(3-5) by (auto simp: history_ok_def distinct_map dest: inj_onD)
qed

text \<open>C23. A grant whose revoke is confirmed at a block height stays inactive, whatever older reads and confirmations are written late: only a state of the contract at that height or later, or a grant that landed later, can make it active again.\<close>

theorem revoke_holds:
  assumes "distinct (map dg_ID rs)" "stmts_ok (ss @ Revoke_landed c a p g tx now (Some (int h)) # ts) rs (set rs)"
    "r \<in> set (fst (run_disclosure ss rs (set rs)))" "dg_contractAddress r = c" "dg_attesterId r = Some a" "dg_payloadHash r = p" "dg_grantee r = g"
    "notNewerThan (Some (int h)) r" "\<forall>s \<in> set ts. \<not> undoes_revoke (dg_ID r) h s"
    "r' \<in> set (fst (run_disclosure (ss @ Revoke_landed c a p g tx now (Some (int h)) # ts) rs (set rs)))" "dg_ID r' = dg_ID r"
  shows "\<not> dg_active r'"
proof -
  let ?s = "Revoke_landed c a p g tx now (Some (int h))"
  let ?rs1 = "fst (run_disclosure ss rs (set rs))"
  have tx: "tx \<noteq> []" using assms(2) by (auto simp: stmts_ok_append split: prod.splits)
  have "at_least h e \<and> revoked e" if e: "e \<in> set (exec_stmt ?s ?rs1)" "dg_ID e = dg_ID r" for e
  proof -
    obtain e0 where e0: "e0 \<in> set ?rs1" "e = (if dg_contractAddress e0 = c \<and> dg_attesterId e0 = Some a \<and> dg_payloadHash e0 = p \<and> dg_grantee e0 = g \<and>
        notNewerThan (Some (int h)) e0 then revoke_write tx now (Some (int h)) e0 else e0)"
      using updated_row [OF e(1) [unfolded exec_stmt.simps confirm_revoke_def]] by blast
    then have "dg_ID e0 = dg_ID r" using e(2) by (auto split: if_splits)
    then have "e0 = r" by (rule same_row_then [OF assms(1-3) e0(1)])
    then show ?thesis using e0(2) assms(4-8) tx by (auto simp: revoked_def revoke_write_def heightStamp_def is_height_def at_least_def)
  qed
  then have "revoked r'" by (rule revokes.holds_after [OF assms(1-3) refl assms(8) _ assms(9-11)])
  then show ?thesis by (simp add: revoked_def)
qed

text \<open>A level confirmed at a block height is changed only by a state of the contract at that height or later, by a grant that landed later, or by a state that was read without a height.\<close>

theorem level_holds:
  assumes "distinct (map dg_ID rs)" "stmts_ok (ss @ Grant_landed (dg_ID r) l tx now (Some (int h)) # ts) rs (set rs)"
    "r \<in> set (fst (run_disclosure ss rs (set rs)))" "notNewerThan (Some (int h)) r" "\<forall>s \<in> set ts. \<not> changes_level (dg_ID r) h s"
    "r' \<in> set (fst (run_disclosure (ss @ Grant_landed (dg_ID r) l tx now (Some (int h)) # ts) rs (set rs)))" "dg_ID r' = dg_ID r"
  shows "dg_level r' = l"
proof -
  let ?s = "Grant_landed (dg_ID r) l tx now (Some (int h))"
  let ?rs1 = "fst (run_disclosure ss rs (set rs))"
  have "at_least h e \<and> dg_level e = l" if e: "e \<in> set (exec_stmt ?s ?rs1)" "dg_ID e = dg_ID r" for e
  proof -
    obtain e0 where e0: "e0 \<in> set ?rs1" "e = (if dg_ID e0 = dg_ID r \<and> notNewerThan (Some (int h)) e0
        then confirmedDisclosureLevel l tx now (Some (int h)) e0 else e0)"
      using updated_row [OF e(1) [unfolded exec_stmt.simps confirm_grant_def]] by blast
    then have "dg_ID e0 = dg_ID r" using e(2) by (auto split: if_splits)
    then have "e0 = r" by (rule same_row_then [OF assms(1-3) e0(1)])
    then show ?thesis using e0(2) assms(4) by (auto simp: confirmedDisclosureLevel_def heightStamp_def is_height_def at_least_def)
  qed
  then show ?thesis by (rule levels.holds_after [OF assms(1-3) refl assms(4) _ assms(5-7)])
qed

section \<open>A reindex that runs alone\<close>

text \<open>
  The rows a reindex at height \<open>H\<close> of contract \<open>c\<close> can order: one row per key, none changed later.
\<close>

definition key_of :: "disclosure_grant \<Rightarrow> string \<times> string option \<times> string \<times> string" where
  "key_of r = (dg_contractAddress r, dg_attesterId r, dg_payloadHash r, dg_grantee r)"

definition ordered_rows :: "string \<Rightarrow> int \<Rightarrow> disclosures \<Rightarrow> bool" where
  "ordered_rows c H rs \<longleftrightarrow> distinct (map dg_ID rs) \<and> distinct (map key_of rs) \<and>
     (\<forall>r \<in> set rs. dg_contractAddress r = c \<longrightarrow>
        dg_attesterId r \<noteq> None \<and> (case dg_changedAtHeight r of Some k \<Rightarrow> 0 \<le> k \<and> k \<le> H | None \<Rightarrow> True))"

definition mirror_write :: "int \<Rightarrow> int \<Rightarrow> chain_grant \<Rightarrow> disclosure_grant \<Rightarrow> disclosure_grant" where
  "mirror_write H now g r = stamped (Some H) (r\<lparr>dg_level := cg_level g, dg_active := True, dg_revokedTxHash := None, dg_modifiedAt := Some now\<rparr>)"

lemma same_key_of: "same_key c g r \<longleftrightarrow> key_of r = (c, Some (cg_attesterId g), cg_payloadHash g, cg_grantee g)"
  by (auto simp: same_key_def key_of_def)

lemma mirrored_fields [simp]:
  "dg_ID (mirror_write H now g r) = dg_ID r" "key_of (mirror_write H now g r) = key_of r" "dg_active (mirror_write H now g r)" "dg_level (mirror_write H now g r) = cg_level g"
  "dg_changedAtHeight (mirror_write H now g r) = Some H" "dg_contractAddress (mirror_write H now g r) = dg_contractAddress r" "dg_attesterId (mirror_write H now g r) = dg_attesterId r"
  by (simp_all add: mirror_write_def stamped_def key_of_def)

lemma heightOf_ordered: "ordered_rows c H rs \<Longrightarrow> r \<in> set rs \<Longrightarrow> dg_contractAddress r = c \<Longrightarrow> heightOf r = dg_changedAtHeight r"
  by (auto simp: ordered_rows_def heightOf_def split: option.splits)

lemma mirror_grant_ordered:
  assumes "ordered_rows c H rs"
  shows "mirror_grant c (Some H) now uuid g rs =
    (if \<exists>r \<in> set rs. same_key c g r then map (\<lambda>r. if same_key c g r then mirror_write H now g r else r) rs
     else rs @ [chain_row c (Some H) now (uuid g) g])"
proof (cases "select_one (same_key c g) rs")
  case None
  then have "\<not> (\<exists>r \<in> set rs. same_key c g r)" by (simp add: select_one_None)
  then show ?thesis unfolding mirror_grant_def None by simp
next
  case (Some e)
  then have e: "e \<in> set rs" "same_key c g e" using select_one_Some by fastforce+
  then have c: "dg_contractAddress e = c" by (simp add: same_key_def)
  have h: "heightOf e = dg_changedAtHeight e" by (rule heightOf_ordered [OF assms e(1) c])
  have "\<not> later_than e (Some H)" using assms e(1) c h by (auto simp: ordered_rows_def later_than_def split: option.splits)
  moreover have "\<not> unordered_revoke e (Some H)" by (simp add: unordered_revoke_def)
  moreover have "(dg_ID r = dg_ID e \<and> dg_changedAtHeight r = heightOf e) = same_key c g r" if "r \<in> set rs" for r
  proof -
    have "inj_on dg_ID (set rs)" "inj_on key_of (set rs)" using assms by (auto simp: ordered_rows_def distinct_map)
    then have "dg_ID r = dg_ID e \<longleftrightarrow> r = e" "key_of r = key_of e \<longleftrightarrow> r = e" using that e(1) inj_on_eq_iff by fastforce+
    then show ?thesis using e(2) h by (auto simp: same_key_of)
  qed
  ultimately have "mirror_grant c (Some H) now uuid g rs = map (\<lambda>r. if same_key c g r then mirror_write H now g r else r) rs"
    using Some by (simp add: mirror_grant_def mirror_read_def mirror_stmt_def table_simps mirror_write_def cong: map_cong)
  then show ?thesis using e by auto
qed

lemma mirror_grant_keeps_order:
  assumes "ordered_rows c H rs" "0 \<le> H" "uuid g \<notin> dg_ID ` set rs"
  shows "ordered_rows c H (mirror_grant c (Some H) now uuid g rs)"
proof (cases "\<exists>r \<in> set rs. same_key c g r")
  case True
  have m: "map dg_ID (map (\<lambda>r. if same_key c g r then mirror_write H now g r else r) rs) = map dg_ID rs"
    "map key_of (map (\<lambda>r. if same_key c g r then mirror_write H now g r else r) rs) = map key_of rs" by simp_all
  show ?thesis unfolding mirror_grant_ordered [OF assms(1)] if_P [OF True] ordered_rows_def m
    using assms by (auto simp: ordered_rows_def)
next
  case False
  then show ?thesis using assms unfolding mirror_grant_ordered [OF assms(1)]
    by (auto simp: ordered_rows_def same_key_of chain_row_def key_of_def)
qed

text \<open>What the rows are after the grants \<open>gs\<close> have been mirrored into \<open>rs0\<close>.\<close>

definition mirrored_all :: "string \<Rightarrow> int \<Rightarrow> chain_grant list \<Rightarrow> disclosures \<Rightarrow> disclosures \<Rightarrow> bool" where
  "mirrored_all c H gs rs0 rs \<longleftrightarrow> ordered_rows c H rs \<and>
     (\<forall>g \<in> set gs. \<exists>r \<in> set rs. same_key c g r \<and> dg_active r \<and> dg_level r = cg_level g \<and> dg_changedAtHeight r = Some H) \<and>
     (\<forall>r \<in> set rs. (\<forall>g \<in> set gs. \<not> same_key c g r) \<longrightarrow> r \<in> set rs0)"

lemma chain_row_fields [simp]:
  "dg_ID (chain_row c h now i g) = i" "dg_active (chain_row c h now i g)" "dg_level (chain_row c h now i g) = cg_level g"
  "dg_changedAtHeight (chain_row c h now i g) = h" "same_key c g (chain_row c h now i g)"
  "key_of (chain_row c h now i g) = (c, Some (cg_attesterId g), cg_payloadHash g, cg_grantee g)"
  by (simp_all add: chain_row_def same_key_def key_of_def)

lemma same_key_mirrored [simp]: "same_key c g' (mirror_write H now g r) = same_key c g' r"
  by (simp add: same_key_of)

lemma mirrors_step:
  assumes "mirrored_all c H gs rs0 rs" "0 \<le> H" "uuid g \<notin> dg_ID ` set rs" "\<forall>g' \<in> set gs. (cg_attesterId g', cg_payloadHash g', cg_grantee g') \<noteq> (cg_attesterId g, cg_payloadHash g, cg_grantee g)"
  shows "mirrored_all c H (gs @ [g]) rs0 (mirror_grant c (Some H) now uuid g rs)"
proof -
  let ?rs' = "mirror_grant c (Some H) now uuid g rs"
  have o: "ordered_rows c H rs" using assms(1) by (simp add: mirrored_all_def)
  have o': "ordered_rows c H ?rs'" by (rule mirror_grant_keeps_order [where uuid = uuid]) (use o assms(2,3) in simp_all)
  have other: "\<not> same_key c g r" if "g' \<in> set gs" "same_key c g' r" for g' r using that assms(4) by (auto simp: same_key_def)
  show ?thesis
  proof (cases "\<exists>r \<in> set rs. same_key c g r")
    case True
    then have m: "?rs' = map (\<lambda>r. if same_key c g r then mirror_write H now g r else r) rs" using mirror_grant_ordered [OF o] by simp
    obtain r0 where r0: "r0 \<in> set rs" "same_key c g r0" using True by blast
    have new: "mirror_write H now g r0 \<in> set ?rs'" using r0 unfolding m by (force intro: image_eqI [of _ _ r0])
    have kept: "r \<in> set ?rs'" if "r \<in> set rs" "\<not> same_key c g r" for r using that unfolding m by (force intro: image_eqI [of _ _ r])
    show ?thesis unfolding mirrored_all_def
    proof (intro conjI ballI impI)
      fix g' assume g': "g' \<in> set (gs @ [g])"
      show "\<exists>r \<in> set ?rs'. same_key c g' r \<and> dg_active r \<and> dg_level r = cg_level g' \<and> dg_changedAtHeight r = Some H"
      proof (cases "g' = g")
        case True
        then show ?thesis using new r0(2) by (intro bexI [of _ "mirror_write H now g r0"]) simp_all
      next
        case False
        then obtain r where "r \<in> set rs" "same_key c g' r" "dg_active r" "dg_level r = cg_level g'" "dg_changedAtHeight r = Some H"
          using g' assms(1) by (auto simp: mirrored_all_def)
        then show ?thesis using kept other [of g' r] False g' by (intro bexI [of _ r]) auto
      qed
    next
      fix r assume r: "r \<in> set ?rs'" "\<forall>g' \<in> set (gs @ [g]). \<not> same_key c g' r"
      then obtain r1 where "r1 \<in> set rs" "r = (if same_key c g r1 then mirror_write H now g r1 else r1)" unfolding m by auto
      then have "r \<in> set rs" using r(2) by (auto split: if_splits)
      then show "r \<in> set rs0" using r(2) assms(1) by (simp add: mirrored_all_def)
    qed (rule o')
  next
    case False
    then have m: "?rs' = rs @ [chain_row c (Some H) now (uuid g) g]" using mirror_grant_ordered [OF o] by simp
    show ?thesis using assms(1) o' unfolding mirrored_all_def m by auto
  qed
qed

lemma mirror_ids: "dg_ID ` set (mirror_grant c (Some H) now uuid g rs) \<subseteq> insert (uuid g) (dg_ID ` set rs)" if "ordered_rows c H rs"
  unfolding mirror_grant_ordered [OF that] by auto

lemma mirrors_all:
  assumes "ordered_rows c H rs0" "0 \<le> H" "distinct (map (\<lambda>g. (cg_attesterId g, cg_payloadHash g, cg_grantee g)) gs)"
    "distinct (map uuid gs)" "set (map uuid gs) \<inter> dg_ID ` set rs0 = {}"
  shows "mirrored_all c H gs rs0 (fold (mirror_grant c (Some H) now uuid) gs rs0) \<and>
         dg_ID ` set (fold (mirror_grant c (Some H) now uuid) gs rs0) \<subseteq> set (map uuid gs) \<union> dg_ID ` set rs0"
  using assms(3-5)
proof (induction gs rule: rev_induct)
  case Nil
  then show ?case using assms(1) by (simp add: mirrored_all_def)
next
  case (snoc g gs)
  let ?rs = "fold (mirror_grant c (Some H) now uuid) gs rs0"
  have i: "mirrored_all c H gs rs0 ?rs" "dg_ID ` set ?rs \<subseteq> set (map uuid gs) \<union> dg_ID ` set rs0" using snoc by auto
  have fresh: "uuid g \<notin> dg_ID ` set ?rs" using i(2) snoc(3,4) by auto
  have apart: "\<forall>g' \<in> set gs. (cg_attesterId g', cg_payloadHash g', cg_grantee g') \<noteq> (cg_attesterId g, cg_payloadHash g, cg_grantee g)"
    using snoc(2) by (auto simp: image_iff)
  have "mirrored_all c H (gs @ [g]) rs0 (mirror_grant c (Some H) now uuid g ?rs)"
    by (rule mirrors_step [where uuid = uuid]) (fact i(1), fact assms(2), fact fresh, fact apart)
  moreover have "dg_ID ` set (mirror_grant c (Some H) now uuid g ?rs) \<subseteq> insert (uuid g) (dg_ID ` set ?rs)"
    using i(1) by (intro mirror_ids) (simp add: mirrored_all_def)
  ultimately show ?case using i(2) by auto
qed

text \<open>The sweep writes exactly the rows it found gone.\<close>

lemma sweep_all:
  assumes "distinct (map dg_ID rs)" "set es \<subseteq> set rs" "distinct es" "\<forall>e \<in> set es. heightOf e = dg_changedAtHeight e"
  shows "fold (\<lambda>e. sweep_stmt e l now) es rs =
    map (\<lambda>r. if r \<in> set es then stamped l (r\<lparr>dg_active := False, dg_modifiedAt := Some now\<rparr>) else r) rs"
  using assms(2-4)
proof (induction es rule: rev_induct)
  case (snoc e es)
  let ?s = "\<lambda>r. stamped l (r\<lparr>dg_active := False, dg_modifiedAt := Some now\<rparr>)"
  have i: "fold (\<lambda>e. sweep_stmt e l now) es rs = map (\<lambda>r. if r \<in> set es then ?s r else r) rs" using snoc by simp
  have inj: "r = e" if "r \<in> set rs" "dg_ID r = dg_ID e" for r using that snoc(2) assms(1) by (auto simp: distinct_map dest: inj_onD)
  have g: "(if dg_ID x = dg_ID e \<and> dg_changedAtHeight x = heightOf e then ?s x else x) = (if r \<in> set (es @ [e]) then ?s r else r)"
    if "r \<in> set rs" "x = (if r \<in> set es then ?s r else r)" for r x
  proof (cases "dg_ID r = dg_ID e")
    case True
    then have "r = e" using inj that(1) by simp
    then show ?thesis using that(2) snoc(3,4) by simp
  next
    case False
    then have "r \<noteq> e" "dg_ID x \<noteq> dg_ID e" using that(2) by auto
    then show ?thesis using that(2) by simp
  qed
  have "fold (\<lambda>e. sweep_stmt e l now) (es @ [e]) rs = sweep_stmt e l now (fold (\<lambda>e. sweep_stmt e l now) es rs)" by simp
  also have "\<dots> = map (\<lambda>r. if r \<in> set (es @ [e]) then ?s r else r) rs"
    unfolding i sweep_stmt_def snd_update_where map_map by (rule map_cong [OF refl]) (simp only: comp_apply g)
  finally show ?case .
qed simp

definition shown_grants :: "string \<Rightarrow> disclosures \<Rightarrow> (string option \<times> string \<times> string \<times> int) set" where
  "shown_grants c rs = (\<lambda>r. (dg_attesterId r, dg_payloadHash r, dg_grantee r, dg_level r)) ` {r \<in> set rs. dg_contractAddress r = c \<and> dg_active r}"

lemma seen_same_key: "dg_contractAddress r = c \<Longrightarrow> dg_attesterId r \<noteq> None \<Longrightarrow> seen_on_chain gs r \<longleftrightarrow> (\<exists>g \<in> set gs. same_key c g r)"
  by (auto simp: seen_on_chain_def same_key_def)

lemma shown_after_sweep:
  assumes "mirrored_all c H gs rs0 rs" "ordered_rows c H rs0"
    "\<forall>r \<in> set rs0. dg_contractAddress r = c \<longrightarrow> dg_changedAtHeight r = None \<longrightarrow> (case dg_modifiedAt r of Some m \<Rightarrow> m \<le> cutoff | None \<Rightarrow> True)"
  defines "gone \<equiv> filter (swept gs (Some H) cutoff) (filter (\<lambda>r. dg_contractAddress r = c \<and> dg_active r) rs)"
  shows "shown_grants c (fold (\<lambda>e. sweep_stmt e (Some H) now) gone rs) =
    (\<lambda>g. (Some (cg_attesterId g), cg_payloadHash g, cg_grantee g, cg_level g)) ` set gs"
proof -
  have o: "ordered_rows c H rs" using assms(1) by (simp add: mirrored_all_def)
  have d: "distinct (map dg_ID rs)" "distinct rs" using o by (auto simp: ordered_rows_def distinct_map)
  have a: "dg_attesterId r \<noteq> None" if "r \<in> set rs" "dg_contractAddress r = c" for r using that o by (simp add: ordered_rows_def)
  let ?s = "\<lambda>r. stamped (Some H) (r\<lparr>dg_active := False, dg_modifiedAt := Some now\<rparr>)"
  have f: "fold (\<lambda>e. sweep_stmt e (Some H) now) gone rs = map (\<lambda>r. if r \<in> set gone then ?s r else r) rs"
    using d heightOf_ordered [OF o] by (intro sweep_all) (auto simp: gone_def)
  have left: "r \<notin> set gone \<longleftrightarrow> (\<exists>g \<in> set gs. same_key c g r)" if r: "r \<in> set rs" "dg_contractAddress r = c" "dg_active r" for r
  proof -
    have "\<not> sweep_spares (Some H) cutoff r" if "\<forall>g \<in> set gs. \<not> same_key c g r"
    proof -
      have r0: "r \<in> set rs0" using that r assms(1) by (simp add: mirrored_all_def)
      have h: "heightOf r = dg_changedAtHeight r" using heightOf_ordered [OF o] r by blast
      show ?thesis
      proof (cases "dg_changedAtHeight r")
        case None
        then have "case dg_modifiedAt r of Some m \<Rightarrow> m \<le> cutoff | None \<Rightarrow> True" using assms(3) r0 r(2) by blast
        then show ?thesis using None h by (auto simp: sweep_spares_def split: option.splits)
      next
        case (Some k)
        then have "k \<le> H" using r0 r(2) assms(2) by (auto simp: ordered_rows_def)
        then show ?thesis using Some h by (simp add: sweep_spares_def)
      qed
    qed
    then show ?thesis using r seen_same_key [OF r(2) a [OF r(1,2)]] by (auto simp: gone_def swept_def)
  qed
  have level: "dg_level r = cg_level g" if r: "r \<in> set rs" "g \<in> set gs" "same_key c g r" for r g
  proof -
    obtain r' where r': "r' \<in> set rs" "same_key c g r'" "dg_level r' = cg_level g" using assms(1) r(2) by (auto simp: mirrored_all_def)
    have "inj_on key_of (set rs)" using o by (auto simp: ordered_rows_def distinct_map)
    then have "r = r'" using inj_onD [of key_of "set rs" r r'] r r' by (simp add: same_key_of)
    then show ?thesis using r'(3) by simp
  qed
  have "shown_grants c (map (\<lambda>r. if r \<in> set gone then ?s r else r) rs) =
    (\<lambda>r. (dg_attesterId r, dg_payloadHash r, dg_grantee r, dg_level r)) ` {r \<in> set rs. dg_contractAddress r = c \<and> dg_active r \<and> r \<notin> set gone}"
    unfolding shown_grants_def by (rule arg_cong [where f = "image _"]) (auto simp: stamped_def)
  also have "\<dots> = (\<lambda>g. (Some (cg_attesterId g), cg_payloadHash g, cg_grantee g, cg_level g)) ` set gs" (is "?L = ?R")
  proof (intro equalityI subsetI)
    fix x assume "x \<in> ?L"
    then obtain r where r: "r \<in> set rs" "dg_contractAddress r = c" "dg_active r" "r \<notin> set gone"
      "x = (dg_attesterId r, dg_payloadHash r, dg_grantee r, dg_level r)" by auto
    then obtain g where "g \<in> set gs" "same_key c g r" using left by blast
    then show "x \<in> ?R" using level [OF r(1)] r(5) by (intro image_eqI [of _ _ g]) (auto simp: same_key_def)
  next
    fix x assume "x \<in> ?R"
    then obtain g where g: "g \<in> set gs" "x = (Some (cg_attesterId g), cg_payloadHash g, cg_grantee g, cg_level g)" by auto
    then obtain r where r: "r \<in> set rs" "same_key c g r" "dg_active r" "dg_level r = cg_level g" using assms(1) by (auto simp: mirrored_all_def)
    have "dg_contractAddress r = c" using r(2) by (simp add: same_key_def)
    then have "r \<notin> set gone" using left r g(1) by blast
    then show "x \<in> ?L" using r g(2) by (intro image_eqI [of _ _ r]) (auto simp: same_key_def)
  qed
  finally show ?thesis unfolding f .
qed

lemma levels_shown:
  "set (granted_levels contract i p a rs) =
   (\<lambda>(_, _, _, l). l) ` {(at, ph, g, l) \<in> shown_grants (toLowerCase contract) rs. g = i \<and> (missing p \<or> ph = toLowerCase (the p) \<and> at = Some (toLowerCase (the a)))}"
proof (intro equalityI subsetI)
  fix l assume "l \<in> set (granted_levels contract i p a rs)"
  then obtain r where "r \<in> set rs" "dg_contractAddress r = toLowerCase contract" "dg_grantee r = i" "dg_active r"
    "missing p \<or> dg_payloadHash r = toLowerCase (the p) \<and> dg_attesterId r = Some (toLowerCase (the a))" "l = dg_level r"
    by (auto simp: granted_levels_def)
  then show "l \<in> (\<lambda>(_, _, _, l). l) ` {(at, ph, g, l) \<in> shown_grants (toLowerCase contract) rs. g = i \<and> (missing p \<or> ph = toLowerCase (the p) \<and> at = Some (toLowerCase (the a)))}"
    by (intro image_eqI [of _ _ "(dg_attesterId r, dg_payloadHash r, dg_grantee r, dg_level r)"]) (auto simp: shown_grants_def)
qed (auto simp: granted_levels_def shown_grants_def)

lemma highest_of_set: "highest_level ls = Max (insert 0 (set ls))"
  by (simp add: highest_level_def flip: Max.set_eq_fold)

lemma role_of_shown:
  assumes "shown_grants (toLowerCase contract) rs = shown_grants (toLowerCase contract) rs'"
  shows "resolveOnChainRole uid ids contract p a rs = resolveOnChainRole uid ids contract p a rs'"
proof -
  have "set (granted_levels contract i p a rs) = set (granted_levels contract i p a rs')" for i by (simp only: levels_shown assms)
  then have "highest_level (granted_levels contract i p a rs) = highest_level (granted_levels contract i p a rs')"
    "granted_levels contract i p a rs = [] \<longleftrightarrow> granted_levels contract i p a rs' = []" for i
    by (simp_all only: highest_of_set flip: set_empty)
  then show ?thesis by (simp add: resolveOnChainRole_def Let_def split: option.split)
qed


section \<open>Requests\<close>

lemma shown_marked:
  assumes "\<And>r. dg_attesterId (f r) = dg_attesterId r \<and> dg_payloadHash (f r) = dg_payloadHash r \<and> dg_grantee (f r) = dg_grantee r \<and>
    dg_level (f r) = dg_level r \<and> dg_contractAddress (f r) = dg_contractAddress r \<and> dg_active (f r) = dg_active r"
  shows "shown_grants c (snd (update_where P f rs)) = shown_grants c rs"
proof -
  let ?h = "\<lambda>r. if P r then f r else r"
  have "{r \<in> set (map ?h rs). dg_contractAddress r = c \<and> dg_active r} = ?h ` {r \<in> set rs. dg_contractAddress r = c \<and> dg_active r}"
    using assms by auto
  moreover have "(\<lambda>r. (dg_attesterId r, dg_payloadHash r, dg_grantee r, dg_level r)) \<circ> ?h = (\<lambda>r. (dg_attesterId r, dg_payloadHash r, dg_grantee r, dg_level r))"
    using assms by (simp add: fun_eq_iff)
  ultimately show ?thesis unfolding shown_grants_def snd_update_where by (simp only: image_comp)
qed

lemma shown_pending [simp]:
  "shown_grants c (mark_pending i l now rs) = shown_grants c rs" "shown_grants c (clearPendingDisclosureLevel i l now rs) = shown_grants c rs"
  "shown_grants c (restore_pending i l old now rs) = shown_grants c rs" "shown_grants c (rs @ [requested_row env d a]) = shown_grants c rs"
  unfolding mark_pending_def clearPendingDisclosureLevel_def restore_pending_def
  by (simp_all add: shown_marked) (auto simp: shown_grants_def requested_row_def)

lemma delete_requested: "de_uuid env \<notin> dg_ID ` set rs \<Longrightarrow> delete_grant (de_uuid env) (rs @ [requested_row env d a]) = rs"
  by (auto simp: delete_grant_def requested_row_def filter_id_conv image_iff)

text \<open>Asking for a grant changes nobody's role, on every branch: the requested level counts once the chain has it.\<close>

theorem request_gives_nothing:
  assumes "de_uuid env \<notin> dg_ID ` set rs"
  shows "resolveOnChainRole userId ids contract payload attester (snd (grantDisclosure env d rs)) =
         resolveOnChainRole userId ids contract payload attester rs"
  by (rule role_of_shown)
     (simp add: grantDisclosure_def Let_def delete_requested [OF assms] split: option.split sum.split prod.split)

section \<open>States without a height\<close>

lemma sweeps_elsewhere: "r \<in> set rs \<Longrightarrow> \<forall>e \<in> set es. dg_ID e \<noteq> dg_ID r \<Longrightarrow> r \<in> set (fold (\<lambda>e. sweep_stmt e l now) es rs)"
proof (induction es arbitrary: rs)
  case (Cons e es)
  have "r \<in> set (sweep_stmt e l now rs)" using Cons(2,3) by (force simp: sweep_stmt_def table_simps)
  then show ?case using Cons by simp
qed simp

text \<open>
  C37. When the height of the tip cannot be read, the reindex writes the state it gets over a row
  of any height whose revoke is not recorded, and over one whose revoke is recorded without a height: level and
  activity are the state's, however old it is, and the row keeps its height.
\<close>

theorem unordered_state_wins:
  assumes "toLowerCase (rx_contract env) = c" "rx_atHeight env = None" "rx_tip env = None" "readGrants c None = Some [g]" "ordered_rows c H rs"
    "r \<in> set rs" "same_key c g r" "heightOf r = None \<or> dg_revokedTxHash r = None"
  shows "\<exists>r' \<in> set (snd (reindexOnce env readGrants rs)). dg_ID r' = dg_ID r \<and> dg_active r' \<and> dg_level r' = cg_level g \<and>
           dg_revokedTxHash r' = None \<and> dg_changedAtHeight r' = dg_changedAtHeight r"
proof -
  let ?w = "\<lambda>r. stamped None (r\<lparr>dg_level := cg_level g, dg_active := True, dg_revokedTxHash := None, dg_modifiedAt := Some (rx_now env)\<rparr>)"
  have inj: "inj_on dg_ID (set rs)" "inj_on key_of (set rs)" using assms(5) by (auto simp: ordered_rows_def distinct_map)
  obtain e where e: "select_one (same_key c g) rs = Some e" using assms(6,7) select_one_None by (metis not_None_eq)
  have "e = r" using select_one_Some [OF e] assms(6,7) inj(2) inj_onD [of key_of "set rs" e r] by (auto simp: same_key_of)
  moreover have "\<not> unordered_revoke r None" using assms(8) by (auto simp: unordered_revoke_def)
  moreover have "heightOf r = dg_changedAtHeight r" using assms(6,7) by (intro heightOf_ordered [OF assms(5)]) (simp_all add: same_key_def)
  ultimately have m: "mirror_grant c None (rx_now env) (rx_uuid env) g rs = map (\<lambda>x. if dg_ID x = dg_ID r \<and> dg_changedAtHeight x = dg_changedAtHeight r then ?w x else x) rs"
    using e by (simp add: mirror_grant_def mirror_read_def mirror_stmt_def later_than_def table_simps)
  have w: "?w r \<in> set (mirror_grant c None (rx_now env) (rx_uuid env) g rs)" unfolding m set_map using assms(6) by (intro image_eqI [of _ _ r]) simp_all
  have other: "dg_ID x \<noteq> dg_ID r" if x: "x \<in> set (mirror_grant c None (rx_now env) (rx_uuid env) g rs)" "\<not> seen_on_chain [g] x" for x
  proof
    assume i: "dg_ID x = dg_ID r"
    obtain x0 where x0: "x0 \<in> set rs" "x = (if dg_ID x0 = dg_ID r \<and> dg_changedAtHeight x0 = dg_changedAtHeight r then ?w x0 else x0)"
      using x(1) unfolding m by auto
    have "dg_ID x0 = dg_ID r" using x0(2) i by (auto split: if_splits)
    then have "x0 = r" using inj(1) x0(1) assms(6) by (meson inj_onD)
    then show False using x0(2) x(2) assms(7) by (simp add: seen_on_chain_def same_key_def stamped_def)
  qed
  have "?w r \<in> set (snd (reindexOnce env readGrants rs))"
    using assms(1-4) other by (simp add: reindexOnce_def reindex_height_def Let_def) (rule sweeps_elsewhere [OF w], auto simp: swept_def)
  then show ?thesis by (rule bexI [rotated]) (simp add: stamped_def)
qed

section \<open>Concrete histories\<close>

definition sample_disclosure :: "string \<Rightarrow> int \<Rightarrow> int option \<Rightarrow> disclosure_grant" where
  "sample_disclosure i l h = \<lparr>dg_ID = i, dg_payloadHash = ''p'', dg_attesterId = Some ''a'', dg_grantee = ''g'', dg_level = l, dg_pendingLevel = None,
     dg_contractAddress = ''c'', dg_grantedTxHash = Some ''t1'', dg_revokedTxHash = None, dg_active = True, dg_changedAtHeight = h,
     dg_createdAt = 0, dg_modifiedAt = Some 0\<rparr>"

definition sample_chain :: "int \<Rightarrow> chain_grant" where
  "sample_chain l = \<lparr>cg_attesterId = ''a'', cg_payloadHash = ''p'', cg_grantee = ''g'', cg_level = l\<rparr>"

lemmas sample_defs = sample_disclosure_def sample_chain_def revoke_write_def heightStamp_def is_height_def notNewerThan_def confirm_revoke_def confirm_grant_def
  confirmedDisclosureLevel_def update_where_def mirror_read_def later_than_def unordered_revoke_def mirror_stmt_def heightOf_def same_key_def

theorem revoke_holds_witness:
  "\<not> dg_active (revoke_write ''t2'' 7 (Some 5) (sample_disclosure ''1'' 2 (Some 3)))"
  by (rule revoke_holds [where rs = "[sample_disclosure ''1'' 2 (Some 3)]" and ss = "[]" and c = "''c''" and a = "''a''" and p = "''p''" and g = "''g''"
        and tx = "''t2''" and now = 7 and h = 5 and ts = "[Mirror (sample_disclosure ''1'' 2 (Some 3)) (sample_chain 2) (Some 4) 9]"
        and r = "sample_disclosure ''1'' 2 (Some 3)"]) (simp_all add: sample_defs)

theorem level_holds_witness:
  "dg_level (confirmedDisclosureLevel 0 ''t2'' 7 (Some 5) (sample_disclosure ''1'' 2 (Some 3))) = 0"
  by (rule level_holds [where rs = "[sample_disclosure ''1'' 2 (Some 3)]" and ss = "[]" and r = "sample_disclosure ''1'' 2 (Some 3)" and l = 0 and tx = "''t2''"
        and now = 7 and h = 5 and ts = "[Mirror (sample_disclosure ''1'' 2 (Some 3)) (sample_chain 2) (Some 4) 9]"]) (simp_all add: sample_defs)

definition sample_reindex :: "int option \<Rightarrow> reindex_env" where
  "sample_reindex h = \<lparr>rx_contract = ''C'', rx_atHeight = h, rx_tip = None, rx_graceMs = DEFAULT_SWEEP_GRACE_MS, rx_now = 10, rx_uuid = (\<lambda>_. ''2'')\<rparr>"

definition sample_identity :: grantee_identity where
  "sample_identity = \<lparr>gi_ID = ''i'', gi_userId = ''u'', gi_granteeId = ''g'', gi_bindingKind = ''custom'', gi_scope = None\<rparr>"


theorem request_gives_nothing_witness:
  "resolveOnChainRole (Some ''u'') [sample_identity] ''c'' None None
     (snd (grantDisclosure \<lparr>de_mainnetBlock = None, de_rate_ok = True, de_prepared = Inr ''a'', de_now = 1, de_after = 2, de_uuid = ''2'', de_start = Inr (False, ''j'')\<rparr>
       \<lparr>rq_payloadHash = Some ''p'', rq_grantee = Some ''g'', rq_level = Some 2, rq_sessionId = Some ''s'', rq_contractAddress = Some ''c''\<rparr>
       [sample_disclosure ''1'' 1 (Some 3)])) =
   resolveOnChainRole (Some ''u'') [sample_identity] ''c'' None None [sample_disclosure ''1'' 1 (Some 3)]"
  by (rule request_gives_nothing) (simp add: sample_disclosure_def)

theorem unordered_state_wins_witness:
  "\<exists>r' \<in> set (snd (reindexOnce (sample_reindex None) (\<lambda>_ _. Some [sample_chain 2]) [sample_disclosure ''1'' 0 (Some 3)])).
     dg_ID r' = ''1'' \<and> dg_active r' \<and> dg_level r' = 2 \<and> dg_revokedTxHash r' = None \<and> dg_changedAtHeight r' = Some 3"
proof -
  have l: "toLowerCase ''C'' = ''c''" by code_simp
  show ?thesis
    using unordered_state_wins [of "sample_reindex None" "''c''" "\<lambda>_ _. Some [sample_chain 2]" "sample_chain 2" 3 "[sample_disclosure ''1'' 0 (Some 3)]" "sample_disclosure ''1'' 0 (Some 3)"]
    by (simp add: sample_reindex_def l ordered_rows_def sample_defs)
qed

end
