(* ===== verification/Envelope.thy ===== *)
theory Envelope
  imports Fee_Sponsor Js_Value Scale
begin

text \<open>
  The envelopes that protect stored secrets (\<^verbatim>\<open>srv/utils/crypto.ts\<close>): a value gets a data key of its own, a master
  key of the key ring encrypts that key, and both ciphertexts are bound to a column and a row. Several master
  keys live side by side while they are rotated.

  AES-256-GCM, HKDF and SHA-256 of the runtime and its random bytes are arguments. A text is the sequence of its
  UTF-8 bytes; reading bytes as text replaces what is ill-formed.
\<close>

section \<open>Bytes as text\<close>

type_synonym octets = "nat list"

definition utf8_bytes :: "string \<Rightarrow> octets" where
  "utf8_bytes s = map of_char s"

definition utf8_text :: "octets \<Rightarrow> string" where
  "utf8_text bs = map char_of (utf8_decode (0, 0, 0, []) bs)"

definition B64_ALPHABET :: string where
  "B64_ALPHABET = ''ABCDEFGHIJKLMNOPQRSTUVWXYZabcdefghijklmnopqrstuvwxyz0123456789+/''"

abbreviation b64_char :: "nat \<Rightarrow> char" where "b64_char n \<equiv> B64_ALPHABET ! n"

fun base64 :: "octets \<Rightarrow> string" where
  "base64 [] = []"
| "base64 [a] = [b64_char (a div 4), b64_char (a mod 4 * 16), CHR ''='', CHR ''='']"
| "base64 [a, b] = [b64_char (a div 4), b64_char (a mod 4 * 16 + b div 16), b64_char (b mod 16 * 4), CHR ''='']"
| "base64 (a # b # c # bs) =
     [b64_char (a div 4), b64_char (a mod 4 * 16 + b div 16), b64_char (b mod 16 * 4 + c div 64), b64_char (c mod 64)] @ base64 bs"

text \<open>Reading skips what is no digit, and takes the two digits of the alphabet for addresses as well.\<close>

definition b64_digit :: "char \<Rightarrow> nat option" where
  "b64_digit c =
     (let n = of_char c :: nat in
      if 65 \<le> n \<and> n \<le> 90 then Some (n - 65)
      else if 97 \<le> n \<and> n \<le> 122 then Some (n - 71)
      else if 48 \<le> n \<and> n \<le> 57 then Some (n + 4)
      else if c = CHR ''+'' \<or> c = CHR ''-'' then Some 62
      else if c = CHR ''/'' \<or> c = CHR ''_'' then Some 63 else None)"

fun sextets :: "nat list \<Rightarrow> octets" where
  "sextets [] = []"
| "sextets [x] = []"
| "sextets [x, y] = [x * 4 + y div 16]"
| "sextets [x, y, z] = [x * 4 + y div 16, y mod 16 * 16 + z div 4]"
| "sextets (x # y # z # w # ds) = [x * 4 + y div 16, y mod 16 * 16 + z div 4, z mod 4 * 64 + w] @ sextets ds"

definition unbase64 :: "string \<Rightarrow> octets" where
  "unbase64 s = sextets (List.map_filter b64_digit s)"

section \<open>The key ring\<close>

record crypto_lib =
  cl_seal :: "octets \<Rightarrow> octets \<Rightarrow> octets \<Rightarrow> octets \<Rightarrow> octets \<times> octets"
  cl_open :: "octets \<Rightarrow> octets \<Rightarrow> octets \<Rightarrow> octets \<Rightarrow> octets \<Rightarrow> octets option"
  cl_hkdf :: "octets \<Rightarrow> string \<Rightarrow> string \<Rightarrow> nat \<Rightarrow> octets"
  cl_sha256 :: "octets \<Rightarrow> octets"

definition IV_LENGTH :: nat where "IV_LENGTH = 12"
definition AUTH_TAG_LENGTH :: nat where "AUTH_TAG_LENGTH = 16"
definition DEK_LENGTH :: nat where "DEK_LENGTH = 32"
definition KEK_LENGTH :: nat where "KEK_LENGTH = 32"
definition WRAPPED_DEK_LENGTH :: nat where "WRAPPED_DEK_LENGTH = IV_LENGTH + AUTH_TAG_LENGTH + DEK_LENGTH"

definition ENVELOPE_VERSION :: string where "ENVELOPE_VERSION = ''v2''"
definition BOUND_ENVELOPE_VERSION :: string where "BOUND_ENVELOPE_VERSION = ''v3''"
definition LEGACY_KEY_ID :: string where "LEGACY_KEY_ID = ''1''"
definition MIN_SECRET_LENGTH :: nat where "MIN_SECRET_LENGTH = 32"

definition key_id_char :: "char \<Rightarrow> bool" where
  "key_id_char c \<longleftrightarrow> is_digit c \<or> (let n = of_char (lower_char c) :: nat in 97 \<le> n \<and> n \<le> 122) \<or> c = CHR ''_'' \<or> c = CHR ''-''"

definition KEY_ID_PATTERN :: "string \<Rightarrow> bool" where
  "KEY_ID_PATTERN s \<longleftrightarrow> 1 \<le> length s \<and> length s \<le> 16 \<and> list_all key_id_char s"

definition KEK_INFO :: string where "KEK_INFO = ''nightgate/kek/v2''"

definition deriveKek :: "crypto_lib \<Rightarrow> string \<Rightarrow> string \<Rightarrow> octets" where
  "deriveKek lib i secret = cl_hkdf lib (utf8_bytes secret) i KEK_INFO KEK_LENGTH"

definition legacyFold :: "crypto_lib \<Rightarrow> string \<Rightarrow> octets" where
  "legacyFold lib secret = cl_sha256 lib (utf8_bytes secret)"

definition UnknownEncryptionKeyError :: "string \<Rightarrow> js_error" where
  "UnknownEncryptionKeyError i =
     \<lparr>err_code = ''ENCRYPTION_KEY_UNKNOWN'', err_message = ''ciphertext is encrypted under key id '' @ quoted i @
        '', which is not in the encryption key ring (ENCRYPTION_KEYS); add the key or run nightgate-rewrap-keys before removing it''\<rparr>"

record key_ring_spec =
  ks_activeId :: string
  ks_keys :: "(string \<times> string) list"

record key_ring =
  kr_activeId :: string
  kr_keks :: "(string \<times> octets) list"
  kr_legacyKeys :: "(string \<times> octets) list"
  kr_spec :: "key_ring_spec option"

fun add_keys :: "crypto_lib \<Rightarrow> (string \<times> string) list \<Rightarrow> key_ring \<Rightarrow> key_ring result" where
  "add_keys lib [] ring = Inr ring"
| "add_keys lib ((i, secret) # ks) ring =
     (if \<not> KEY_ID_PATTERN i then Inl (js_Error (''invalid encryption key id '' @ quoted i @ '' (allowed: [A-Za-z0-9_-]{1,16})''))
      else if secret = [] then Inl (js_Error (''encryption key '' @ quoted i @ '' has an empty secret''))
      else if map_of (kr_keks ring) i \<noteq> None then Inl (js_Error (''duplicate encryption key id '' @ quoted i))
      else add_keys lib ks
             (ring\<lparr>kr_keks := kr_keks ring @ [(i, deriveKek lib i secret)],
                   kr_legacyKeys := (if i = LEGACY_KEY_ID then kr_legacyKeys ring @ [(i, legacyFold lib secret)] else kr_legacyKeys ring)\<rparr>))"

definition new_KeyRing :: "crypto_lib \<Rightarrow> key_ring_spec \<Rightarrow> key_ring result" where
  "new_KeyRing lib spec =
     check_then (require (ks_keys spec \<noteq> []) (js_Error ''encryption key ring is empty'')) (\<lambda>_.
     check_then (add_keys lib (ks_keys spec) \<lparr>kr_activeId = [], kr_keks = [], kr_legacyKeys = [], kr_spec = None\<rparr>) (\<lambda>ring.
     check_then (require (map_of (kr_keks ring) (ks_activeId spec) \<noteq> None)
       (js_Error (''ENCRYPTION_KEY_ACTIVE='' @ quoted (ks_activeId spec) @ '' is not in the encryption key ring''))) (\<lambda>_.
     Inr (ring\<lparr>kr_activeId := ks_activeId spec, kr_spec := Some spec\<rparr>))))"

definition fromKek :: "octets \<Rightarrow> key_ring result" where
  "fromKek kek =
     (if length kek \<noteq> KEK_LENGTH
      then Inl (js_Error (''encryption key must be '' @ nat_str KEK_LENGTH @ '' bytes, got '' @ nat_str (length kek)))
      else Inr \<lparr>kr_activeId = LEGACY_KEY_ID, kr_keks = [(LEGACY_KEY_ID, kek)], kr_legacyKeys = [(LEGACY_KEY_ID, kek)], kr_spec = None\<rparr>)"

definition ring_has :: "key_ring \<Rightarrow> string \<Rightarrow> bool" where
  "ring_has ring i \<longleftrightarrow> map_of (kr_keks ring) i \<noteq> None"

definition ring_kek :: "key_ring \<Rightarrow> string \<Rightarrow> octets result" where
  "ring_kek ring i = (case map_of (kr_keks ring) i of Some k \<Rightarrow> Inr k | None \<Rightarrow> Inl (UnknownEncryptionKeyError i))"

section \<open>The ring from the environment\<close>

record key_env =
  ke_keys :: string
  ke_key :: string
  ke_active :: string

definition ELLIPSIS_BYTES :: string where "ELLIPSIS_BYTES = [CHR 0xE2, CHR 0x80, CHR 0xA6]"

definition key_entry :: "string \<Rightarrow> (string \<times> string) result" where
  "key_entry entry =
     (let i = takeWhile (\<lambda>c. c \<noteq> CHR ''='') entry in
      if i = [] \<or> length i = length entry then Inl (js_Error (''ENCRYPTION_KEYS entry '' @ quoted (take 8 entry @ ELLIPSIS_BYTES) @ '' is not id=secret''))
      else Inr (trim i, trim (drop (length i + 1) entry)))"

fun key_entries :: "string list \<Rightarrow> (string \<times> string) list result" where
  "key_entries [] = Inr []"
| "key_entries (raw # raws) =
     (if trim raw = [] then key_entries raws
      else check_then (key_entry (trim raw)) (\<lambda>k. check_then (key_entries raws) (\<lambda>ks. Inr (k # ks))))"

definition add_legacy :: "string \<Rightarrow> (string \<times> string) list \<Rightarrow> (string \<times> string) list result" where
  "add_legacy legacy keys =
     (if legacy = [] then Inr keys
      else case map_of keys LEGACY_KEY_ID of
             Some s \<Rightarrow> if s \<noteq> legacy
                       then Inl (js_Error (''ENCRYPTION_KEY and ENCRYPTION_KEYS both define key id '' @ quoted LEGACY_KEY_ID @ '' with different secrets''))
                       else Inr keys
           | None \<Rightarrow> Inr (keys @ [(LEGACY_KEY_ID, legacy)]))"

definition parseKeyRingSpec :: "key_env \<Rightarrow> key_ring_spec option result" where
  "parseKeyRingSpec env =
     check_then (if trim (ke_keys env) = [] then Inr [] else key_entries (split_at_char (CHR '','') (trim (ke_keys env)))) (\<lambda>listed.
     check_then (add_legacy (ke_key env) listed) (\<lambda>keys.
       if keys = [] then Inr None
       else if trim (ke_active env) = [] \<and> 1 < length keys
       then Inl (js_Error ''ENCRYPTION_KEY_ACTIVE is required when the encryption key ring holds more than one key'')
       else Inr (Some \<lparr>ks_activeId = (if trim (ke_active env) \<noteq> [] then trim (ke_active env) else fst (hd keys)), ks_keys = keys\<rparr>)))"

record ring_state =
  rs_pinned :: "key_ring option"
  rs_cached :: "(string \<times> key_ring) option"
  rs_dev :: "key_ring option"

definition setKeyRing :: "crypto_lib \<Rightarrow> key_ring_spec option \<Rightarrow> ring_state \<Rightarrow> unit result \<times> ring_state" where
  "setKeyRing lib spec st =
     (case spec of
        None \<Rightarrow> (Inr (), st\<lparr>rs_pinned := None\<rparr>)
      | Some s \<Rightarrow> (case new_KeyRing lib s of Inl e \<Rightarrow> (Inl e, st) | Inr r \<Rightarrow> (Inr (), st\<lparr>rs_pinned := Some r\<rparr>)))"

definition env_snapshot :: "key_env \<Rightarrow> string" where
  "env_snapshot env = ke_keys env @ [CHR 0x00] @ ke_active env @ [CHR 0x00] @ ke_key env"

definition short_secret :: "key_ring_spec \<Rightarrow> string option" where
  "short_secret spec = map_option fst (find (\<lambda>k. length (snd k) < MIN_SECRET_LENGTH) (ks_keys spec))"

definition load_ring :: "crypto_lib \<Rightarrow> key_env \<Rightarrow> bool \<Rightarrow> string \<Rightarrow> ring_state \<Rightarrow> key_ring result \<times> ring_state" where
  "load_ring lib env production randomHex st =
     (case parseKeyRingSpec env of
        Inl e \<Rightarrow> (Inl e, st)
      | Inr (Some spec) \<Rightarrow>
          (case (production, short_secret spec) of
             (True, Some i) \<Rightarrow>
               (Inl (js_Error (''encryption key '' @ quoted i @ '' is shorter than '' @ nat_str MIN_SECRET_LENGTH
                  @ '' characters; production requires a high-entropy secret of at least '' @ nat_str MIN_SECRET_LENGTH
                  @ '' characters (hex or base64) in ENCRYPTION_KEY / ENCRYPTION_KEYS'')), st)
           | _ \<Rightarrow> (case new_KeyRing lib spec of
                    Inl e \<Rightarrow> (Inl e, st)
                  | Inr r \<Rightarrow> (Inr r, st\<lparr>rs_cached := Some (env_snapshot env, r)\<rparr>)))
      | Inr None \<Rightarrow>
          if production then (Inl (js_Error ''ENCRYPTION_KEY must be set in production. Refusing to start with fallback key.''), st)
          else (case rs_dev st of
                  Some r \<Rightarrow> (Inr r, st)
                | None \<Rightarrow> (case new_KeyRing lib \<lparr>ks_activeId = ''dev'', ks_keys = [(''dev'', randomHex)]\<rparr> of
                            Inl e \<Rightarrow> (Inl e, st)
                          | Inr r \<Rightarrow> (Inr r, st\<lparr>rs_dev := Some r\<rparr>))))"

definition getEncryptionKey :: "crypto_lib \<Rightarrow> key_env \<Rightarrow> bool \<Rightarrow> string \<Rightarrow> ring_state \<Rightarrow> key_ring result \<times> ring_state" where
  "getEncryptionKey lib env production randomHex st =
     (case rs_pinned st of
        Some r \<Rightarrow> (Inr r, st)
      | None \<Rightarrow>
          (case rs_cached st of
             Some (snap, r) \<Rightarrow> if snap = env_snapshot env then (Inr r, st) else load_ring lib env production randomHex st
           | None \<Rightarrow> load_ring lib env production randomHex st))"

section \<open>Envelopes\<close>

datatype encryption_key = RawKey octets | Ring key_ring

definition asRing :: "encryption_key \<Rightarrow> key_ring result" where
  "asRing key = (case key of RawKey k \<Rightarrow> fromKek k | Ring r \<Rightarrow> Inr r)"

text \<open>The random bytes one encryption draws, in the order it draws them.\<close>

record entropy =
  en_dek :: octets
  en_iv :: octets
  en_wrapIv :: octets

definition aad :: "string \<Rightarrow> octets" where
  "aad keyId = utf8_bytes (ENVELOPE_VERSION @ '':'' @ keyId)"

definition boundAad :: "string \<Rightarrow> envelope_binding \<Rightarrow> octets" where
  "boundAad keyId b = utf8_bytes (join [CHR 0x00] [BOUND_ENVELOPE_VERSION, keyId, eb_purpose b, eb_subject b])"

definition assertBinding :: "envelope_binding \<Rightarrow> unit result" where
  "assertBinding b =
     (if eb_purpose b = [] \<or> eb_subject b = [] then Inl (js_Error ''envelope binding needs a non-empty purpose and subject'')
      else if CHR 0x00 \<in> set (eb_purpose b) \<or> CHR 0x00 \<in> set (eb_subject b) then Inl (js_Error ''envelope binding fields must not contain NUL'')
      else Inr ())"

record gcm_out =
  g_iv :: octets
  g_tag :: octets
  g_data :: octets

definition gcmEncrypt :: "crypto_lib \<Rightarrow> octets \<Rightarrow> octets \<Rightarrow> octets \<Rightarrow> octets \<Rightarrow> gcm_out" where
  "gcmEncrypt lib iv key plain associated =
     (case cl_seal lib key iv associated plain of (data, tg) \<Rightarrow> \<lparr>g_iv = iv, g_tag = tg, g_data = data\<rparr>)"

text \<open>What the cipher itself refuses is the message of OpenSSL for a tag that does not match.\<close>

definition gcmDecrypt :: "crypto_lib \<Rightarrow> octets \<Rightarrow> octets \<Rightarrow> octets \<Rightarrow> octets \<Rightarrow> octets \<Rightarrow> octets result" where
  "gcmDecrypt lib key iv tg data associated =
     (if length iv \<noteq> IV_LENGTH
      then Inl (js_Error (''Invalid IV length: expected '' @ nat_str IV_LENGTH @ '' bytes, got '' @ nat_str (length iv)))
      else if length tg \<noteq> AUTH_TAG_LENGTH
      then Inl (js_Error (''Invalid auth tag length: expected '' @ nat_str AUTH_TAG_LENGTH @ '' bytes, got '' @ nat_str (length tg)))
      else case cl_open lib key iv associated tg data of
             None \<Rightarrow> Inl (js_Error ''Unsupported state or unable to authenticate data'')
           | Some p \<Rightarrow> Inr p)"

definition envelope_text :: "string \<Rightarrow> string \<Rightarrow> gcm_out \<Rightarrow> gcm_out \<Rightarrow> string" where
  "envelope_text version keyId wrap payload =
     join '':'' [version, keyId, base64 (g_iv wrap @ g_tag wrap @ g_data wrap),
        base64 (g_iv payload), base64 (g_tag payload), base64 (g_data payload)]"

definition encrypt :: "crypto_lib \<Rightarrow> entropy \<Rightarrow> string \<Rightarrow> encryption_key \<Rightarrow> envelope_binding option \<Rightarrow> string result" where
  "encrypt lib rnd plaintext key binding =
     check_then (asRing key) (\<lambda>ring.
     check_then (case binding of None \<Rightarrow> Inr () | Some b \<Rightarrow> assertBinding b) (\<lambda>_.
     let keyId = kr_activeId ring;
         version = (case binding of None \<Rightarrow> ENVELOPE_VERSION | Some _ \<Rightarrow> BOUND_ENVELOPE_VERSION);
         associated = (case binding of None \<Rightarrow> aad keyId | Some b \<Rightarrow> boundAad keyId b);
         payload = gcmEncrypt lib (en_iv rnd) (en_dek rnd) (utf8_bytes plaintext) associated
     in check_then (ring_kek ring keyId) (\<lambda>k.
          Inr (envelope_text version keyId (gcmEncrypt lib (en_wrapIv rnd) k (en_dek rnd) associated) payload))))"

definition inspectCiphertext :: "string \<Rightarrow> (nat \<times> string) result" where
  "inspectCiphertext combined =
     (let parts = split_at_char (CHR '':'') combined in
      if length parts = 3 then Inr (1, LEGACY_KEY_ID)
      else if length parts = 6 \<and> (parts ! 0 = ENVELOPE_VERSION \<or> parts ! 0 = BOUND_ENVELOPE_VERSION)
      then (if \<not> KEY_ID_PATTERN (parts ! 1) then Inl (js_Error (''Invalid encrypted format: bad key id '' @ quoted (parts ! 1)))
            else Inr (if parts ! 0 = BOUND_ENVELOPE_VERSION then 3 else 2, parts ! 1))
      else Inl (js_Error ''Invalid encrypted format: expected v3|v2:keyId:wrappedDek:iv:authTag:ciphertext or iv:authTag:ciphertext''))"

definition UnboundEnvelopeError :: "string \<Rightarrow> js_error" where
  "UnboundEnvelopeError purpose =
     js_Error (''ciphertext for '' @ quoted purpose
       @ '' is an unbound v1/v2 envelope; run nightgate-rewrap-keys (or set NIGHTGATE_ACCEPT_UNBOUND_ENVELOPES=true until it ran)'')"

definition decrypt_legacy :: "crypto_lib \<Rightarrow> key_ring \<Rightarrow> string \<Rightarrow> string list \<Rightarrow> string result" where
  "decrypt_legacy lib ring keyId parts =
     (case map_of (kr_legacyKeys ring) keyId of
        None \<Rightarrow> Inl (UnknownEncryptionKeyError keyId)
      | Some k \<Rightarrow> check_then (gcmDecrypt lib k (unbase64 (parts ! 0)) (unbase64 (parts ! 1)) (unbase64 (parts ! 2)) []) (\<lambda>p. Inr (utf8_text p)))"

definition associated_data :: "nat \<Rightarrow> string \<Rightarrow> envelope_binding option \<Rightarrow> octets result" where
  "associated_data version keyId binding =
     (if version = 3
      then (case binding of
              None \<Rightarrow> Inl (js_Error ''ciphertext is bound to a purpose and a subject; decrypt it with the binding it was written under'')
            | Some b \<Rightarrow> check_then (assertBinding b) (\<lambda>_. Inr (boundAad keyId b)))
      else Inr (aad keyId))"

definition decrypt_wrapped :: "crypto_lib \<Rightarrow> key_ring \<Rightarrow> nat \<Rightarrow> string \<Rightarrow> string list \<Rightarrow> envelope_binding option \<Rightarrow> string result" where
  "decrypt_wrapped lib ring version keyId parts binding =
     (let wrapped = unbase64 (parts ! 2) in
      check_then (require (length wrapped = WRAPPED_DEK_LENGTH)
        (js_Error (''Invalid wrapped key length: expected '' @ nat_str WRAPPED_DEK_LENGTH @ '' bytes, got '' @ nat_str (length wrapped)))) (\<lambda>_.
      check_then (associated_data version keyId binding) (\<lambda>associated.
      check_then (ring_kek ring keyId) (\<lambda>k.
      check_then (gcmDecrypt lib k (take IV_LENGTH wrapped) (take AUTH_TAG_LENGTH (drop IV_LENGTH wrapped))
                    (drop (IV_LENGTH + AUTH_TAG_LENGTH) wrapped) associated) (\<lambda>dek.
      check_then (gcmDecrypt lib dek (unbase64 (parts ! 3)) (unbase64 (parts ! 4)) (unbase64 (parts ! 5)) associated) (\<lambda>p.
      Inr (utf8_text p)))))))"

definition decrypt :: "crypto_lib \<Rightarrow> bool \<Rightarrow> bool \<Rightarrow> string \<Rightarrow> encryption_key \<Rightarrow> envelope_binding option \<Rightarrow> string result" where
  "decrypt lib acceptUnbound allowUnbound combined key binding =
     check_then (asRing key) (\<lambda>ring.
     check_then (inspectCiphertext combined) (\<lambda>(version, keyId).
     case binding of
       Some b \<Rightarrow>
         if version < 3 \<and> \<not> allowUnbound \<and> \<not> acceptUnbound then Inl (UnboundEnvelopeError (eb_purpose b))
         else if version = 1 then decrypt_legacy lib ring keyId (split_at_char (CHR '':'') combined)
         else decrypt_wrapped lib ring version keyId (split_at_char (CHR '':'') combined) binding
     | None \<Rightarrow>
         if version = 1 then decrypt_legacy lib ring keyId (split_at_char (CHR '':'') combined)
         else decrypt_wrapped lib ring version keyId (split_at_char (CHR '':'') combined) binding))"

definition deriveBoundSecret :: "crypto_lib \<Rightarrow> key_ring \<Rightarrow> string \<Rightarrow> string \<Rightarrow> string \<Rightarrow> octets result" where
  "deriveBoundSecret lib ring keyId material info =
     check_then (ring_kek ring keyId) (\<lambda>k. Inr (cl_hkdf lib (k @ utf8_bytes material) keyId info 32))"

definition hex_text :: "octets \<Rightarrow> string" where
  "hex_text bs = concat (map (\<lambda>b. [hex_digit (b div 16), hex_digit (b mod 16)]) bs)"

definition hashViewingKey :: "crypto_lib \<Rightarrow> string \<Rightarrow> string" where
  "hashViewingKey lib viewingKey = hex_text (cl_sha256 lib (utf8_bytes viewingKey))"

end
