(* ===== verification/Rewrap.thy ===== *)
theory Rewrap
  imports Envelope "HOL-Library.List_Lexorder" "HOL-Library.Char_ord"
begin

text \<open>
  Moving the stored values to the active key (\<^verbatim>\<open>srv/utils/encryption-rewrap.ts\<close>): the columns that hold envelopes,
  the check a start makes of the keys they name, the pass that re-encrypts them page by page, the count of the rows the
  pass cannot reach, and what the tool reports (\<^verbatim>\<open>scripts/rewrap-encryption-keys.mjs\<close>).

  A row is its primary key and its other columns; a column without a value is SQL's NULL. The database compares
  strings byte by byte, answers every statement, and a transaction is applied at once. Each encryption draws its random
  bytes for the column and the row it writes.
\<close>

section \<open>The columns that hold envelopes\<close>

record stored_row =
  sr_key :: string
  sr_cols :: "string \<Rightarrow> string option"

type_synonym stored_db = "string \<Rightarrow> stored_row list"

record ciphertext_column =
  cc_entity :: string
  cc_column :: string
  cc_where :: "(string \<times> string) list"
  cc_binding :: "stored_row \<Rightarrow> envelope_binding"
  cc_plainPrefix :: "string option"

definition BARE_VIEWING_KEY_SEAL_PREFIX :: string where "BARE_VIEWING_KEY_SEAL_PREFIX = ''vk1:''"

text \<open>\<^verbatim>\<open>String(sessionId)\<close> of a column that is NULL is the text \<^verbatim>\<open>null\<close>.\<close>

definition col_text :: "stored_row \<Rightarrow> string \<Rightarrow> string" where
  "col_text r c = (case sr_cols r c of Some s \<Rightarrow> s | None \<Rightarrow> ''null'')"

definition jobCommandBinding :: "string \<Rightarrow> envelope_binding" where
  "jobCommandBinding i = \<lparr>eb_purpose = ''background-job/command'', eb_subject = i\<rparr>"

definition accountDekBinding :: "string \<Rightarrow> envelope_binding" where
  "accountDekBinding i = \<lparr>eb_purpose = ''account-key/ring-seal'', eb_subject = i\<rparr>"

definition holderDisclosureContentBinding :: "string \<Rightarrow> envelope_binding" where
  "holderDisclosureContentBinding i = \<lparr>eb_purpose = ''holder-disclosure/content'', eb_subject = i\<rparr>"

definition accountDekViewingKeySealBinding :: "string \<Rightarrow> envelope_binding" where
  "accountDekViewingKeySealBinding i = \<lparr>eb_purpose = ''account-key/viewing-key-seal'', eb_subject = i\<rparr>"

definition ENVELOPE_COLUMNS :: "ciphertext_column list" where
  "ENVELOPE_COLUMNS =
     [\<lparr>cc_entity = ''midnight.WalletSessions'', cc_column = ''encryptedViewingKey'', cc_where = [],
       cc_binding = (\<lambda>r. walletSessionViewingKeyBinding (col_text r ''sessionId'')), cc_plainPrefix = None\<rparr>,
      \<lparr>cc_entity = ''midnight.WalletSessions'', cc_column = ''encryptedSeedKey'', cc_where = [],
       cc_binding = (\<lambda>r. walletSessionSeedBinding (col_text r ''sessionId'')), cc_plainPrefix = None\<rparr>,
      \<lparr>cc_entity = ''midnight.BackgroundJobs'', cc_column = ''command'', cc_where = [(''commandEncoding'', ''aes-gcm-v1'')],
       cc_binding = (\<lambda>r. jobCommandBinding (sr_key r)), cc_plainPrefix = None\<rparr>,
      \<lparr>cc_entity = ''midnight.AccountKeys'', cc_column = ''wrappedDek'', cc_where = [],
       cc_binding = (\<lambda>r. accountDekBinding (sr_key r)), cc_plainPrefix = None\<rparr>,
      \<lparr>cc_entity = ''midnight.AccountKeys'', cc_column = ''wrappedDekByViewingKey'', cc_where = [],
       cc_binding = (\<lambda>r. accountDekViewingKeySealBinding (sr_key r)), cc_plainPrefix = Some BARE_VIEWING_KEY_SEAL_PREFIX\<rparr>,
      \<lparr>cc_entity = ''midnight.HolderDisclosureGrants'', cc_column = ''content'', cc_where = [],
       cc_binding = (\<lambda>r. holderDisclosureContentBinding (sr_key r)), cc_plainPrefix = None\<rparr>]"

definition cc_name :: "ciphertext_column \<Rightarrow> string" where
  "cc_name c = cc_entity c @ ''.'' @ cc_column c"

definition where_holds :: "ciphertext_column \<Rightarrow> stored_row \<Rightarrow> bool" where
  "where_holds c r \<longleftrightarrow> list_all (\<lambda>(k, v). sr_cols r k = Some v) (cc_where c)"

section \<open>The keys the stored values name\<close>

definition key_after :: "string \<Rightarrow> string \<Rightarrow> string" where
  "key_after head prefix =
     (let rest = drop (length head) prefix; i = takeWhile (\<lambda>ch. ch \<noteq> CHR '':'') rest
      in if i \<noteq> [] \<and> length i < length rest then i else rest)"

definition keyIdFromPrefix :: "string \<Rightarrow> string option" where
  "keyIdFromPrefix prefix =
     (if startsWith prefix BARE_VIEWING_KEY_SEAL_PREFIX then None
      else if startsWith prefix (BOUND_ENVELOPE_VERSION @ '':'') then Some (key_after (BOUND_ENVELOPE_VERSION @ '':'') prefix)
      else if startsWith prefix (ENVELOPE_VERSION @ '':'') then Some (key_after (ENVELOPE_VERSION @ '':'') prefix)
      else Some LEGACY_KEY_ID)"

definition prefix_key :: "string \<Rightarrow> string option" where
  "prefix_key prefix = (if prefix = [] then None else case keyIdFromPrefix prefix of Some i \<Rightarrow> if i = [] then None else Some i | None \<Rightarrow> None)"

definition column_prefixes :: "stored_db \<Rightarrow> ciphertext_column \<Rightarrow> string list" where
  "column_prefixes db c =
     remdups (List.map_filter (\<lambda>r. if where_holds c r then map_option (take 24) (sr_cols r (cc_column c)) else None) (db (cc_entity c)))"

definition column_key_ids :: "stored_db \<Rightarrow> ciphertext_column \<Rightarrow> string list" where
  "column_key_ids db c = sort (remdups (List.map_filter prefix_key (column_prefixes db c)))"

definition scanStoredKeyIds :: "stored_db \<Rightarrow> (ciphertext_column \<times> string list) list" where
  "scanStoredKeyIds db = map (\<lambda>c. (c, column_key_ids db c)) ENVELOPE_COLUMNS"

definition note_unknown :: "key_ring \<Rightarrow> ciphertext_column \<Rightarrow> string \<Rightarrow> (string \<times> string list) list \<Rightarrow> (string \<times> string list) list" where
  "note_unknown ring c i unknown =
     (if ring_has ring i then unknown
      else map_put i ((case map_of unknown i of Some cols \<Rightarrow> cols | None \<Rightarrow> []) @ [cc_name c]) unknown)"

definition unknown_keys :: "stored_db \<Rightarrow> key_ring \<Rightarrow> (string \<times> string list) list" where
  "unknown_keys db ring = fold (\<lambda>(c, ids) u. fold (note_unknown ring c) ids u) (scanStoredKeyIds db) []"

definition assertStoredKeyIdsKnown :: "stored_db \<Rightarrow> key_ring \<Rightarrow> unit result" where
  "assertStoredKeyIdsKnown db ring =
     (if unknown_keys db ring \<noteq> []
      then Inl (js_Error (''stored ciphertexts reference encryption key id(s) not in the ring: ''
             @ join ''; '' (map (\<lambda>(i, cols). quoted i @ '' ('' @ join '', '' cols @ '')'') (unknown_keys db ring))
             @ ''. Add the key to ENCRYPTION_KEYS, or run nightgate-rewrap-keys with the old key still in the ring before removing it.''))
      else Inr ())"

section \<open>Rows the ring alone cannot move\<close>

definition DEK_TABLES :: "(string \<times> string) list" where
  "DEK_TABLES =
     [(''midnight.PrivateStates'', ''private state row(s)''), (''midnight.ContractSigningKeys'', ''signing key(s)''),
      (''midnight.WalletSyncStates'', ''sync-state row(s)'')]"

record legacy_table =
  lt_entity :: string
  lt_what :: string
  lt_rows :: nat
  lt_accounts :: nat

record legacy_census =
  lc_tables :: "legacy_table list"
  lc_accounts :: "string list"
  lc_total :: nat

definition legacy_ids :: "stored_db \<Rightarrow> string \<Rightarrow> string list" where
  "legacy_ids db e =
     filter (\<lambda>a. a \<noteq> []) (List.map_filter (\<lambda>r. if sr_cols r ''keyScheme'' = None then sr_cols r ''accountId'' else None) (db e))"

definition countLegacyRows :: "stored_db \<Rightarrow> legacy_census" where
  "countLegacyRows db =
     \<lparr>lc_tables = map (\<lambda>(e, w). \<lparr>lt_entity = e, lt_what = w, lt_rows = length (legacy_ids db e), lt_accounts = length (remdups (legacy_ids db e))\<rparr>) DEK_TABLES,
      lc_accounts = sort (remdups (concat (map (\<lambda>(e, w). legacy_ids db e) DEK_TABLES))),
      lc_total = sum_list (map (\<lambda>(e, w). length (legacy_ids db e)) DEK_TABLES)\<rparr>"

section \<open>The envelope pass\<close>

record column_stats =
  cs_column :: string
  cs_scanned :: nat
  cs_rewrapped :: nat
  cs_unreadable :: nat
  cs_bySourceKey :: "(string \<times> nat) list"

definition count_source :: "string \<Rightarrow> (string \<times> nat) list \<Rightarrow> (string \<times> nat) list" where
  "count_source k m = map_put k ((case map_of m k of Some n \<Rightarrow> n | None \<Rightarrow> 0) + 1) m"

text \<open>What the pass does with one row.\<close>

datatype row_verdict = NotScanned | Current | Unreadable | Moved string string | Throws js_error

definition rewrap_row :: "crypto_lib \<Rightarrow> (string \<Rightarrow> string \<Rightarrow> entropy) \<Rightarrow> key_ring \<Rightarrow> ciphertext_column \<Rightarrow> stored_row \<Rightarrow> row_verdict" where
  "rewrap_row lib rnd ring c r =
     (let fresh = (\<lambda>source plain. case encrypt lib (rnd (cc_name c) (sr_key r)) plain (Ring ring) (Some (cc_binding c r)) of
                                    Inl e \<Rightarrow> Throws e | Inr v \<Rightarrow> Moved source v)
      in case sr_cols r (cc_column c) of
           None \<Rightarrow> NotScanned
         | Some value \<Rightarrow>
             if value = [] \<or> \<not> where_holds c r then NotScanned
             else if (case cc_plainPrefix c of Some p \<Rightarrow> startsWith value p | None \<Rightarrow> False) then fresh ''bare'' value
             else (case inspectCiphertext value of
                     Inl e \<Rightarrow> Throws e
                   | Inr (version, keyId) \<Rightarrow>
                       if version = 3 \<and> keyId = kr_activeId ring then Current
                       else (case decrypt lib False True value (Ring ring) (Some (cc_binding c r)) of
                               Inl e \<Rightarrow> if err_code e = ''ENCRYPTION_KEY_UNKNOWN'' then Throws e else Unreadable
                             | Inr plain \<Rightarrow> fresh keyId plain)))"

fun rewrap_rows :: "crypto_lib \<Rightarrow> (string \<Rightarrow> string \<Rightarrow> entropy) \<Rightarrow> key_ring \<Rightarrow> ciphertext_column \<Rightarrow> stored_row list
    \<Rightarrow> column_stats \<times> (string \<times> string) list \<Rightarrow> (column_stats \<times> (string \<times> string) list) result" where
  "rewrap_rows lib rnd ring c [] acc = Inr acc"
| "rewrap_rows lib rnd ring c (r # rs) (stats, updates) =
     (case rewrap_row lib rnd ring c r of
        NotScanned \<Rightarrow> rewrap_rows lib rnd ring c rs (stats, updates)
      | Current \<Rightarrow> rewrap_rows lib rnd ring c rs (stats\<lparr>cs_scanned := cs_scanned stats + 1\<rparr>, updates)
      | Unreadable \<Rightarrow> rewrap_rows lib rnd ring c rs
          (stats\<lparr>cs_scanned := cs_scanned stats + 1, cs_unreadable := cs_unreadable stats + 1\<rparr>, updates)
      | Moved source v \<Rightarrow> rewrap_rows lib rnd ring c rs
          (stats\<lparr>cs_scanned := cs_scanned stats + 1, cs_bySourceKey := count_source source (cs_bySourceKey stats)\<rparr>, updates @ [(sr_key r, v)])
      | Throws e \<Rightarrow> Inl e)"

definition write_value :: "string \<Rightarrow> ciphertext_column \<Rightarrow> string \<Rightarrow> stored_row \<Rightarrow> stored_row" where
  "write_value nw c v r =
     r\<lparr>sr_cols := (if cc_entity c = ''midnight.AccountKeys'' then (sr_cols r)(cc_column c \<mapsto> v, ''rotatedAt'' \<mapsto> nw) else (sr_cols r)(cc_column c \<mapsto> v))\<rparr>"

definition update_row :: "string \<Rightarrow> ciphertext_column \<Rightarrow> string \<times> string \<Rightarrow> stored_row list \<Rightarrow> stored_row list" where
  "update_row nw c u rows = map (\<lambda>r. if sr_key r = fst u \<and> where_holds c r then write_value nw c (snd u) r else r) rows"

definition apply_updates :: "string \<Rightarrow> ciphertext_column \<Rightarrow> (string \<times> string) list \<Rightarrow> stored_row list \<Rightarrow> stored_row list" where
  "apply_updates nw c us rows = fold (update_row nw c) us rows"

text \<open>A page: the rows behind the last key seen, in the order of their keys.\<close>

definition behind :: "string option \<Rightarrow> stored_row \<Rightarrow> bool" where
  "behind seen r \<longleftrightarrow> (case seen of None \<Rightarrow> True | Some l \<Rightarrow> l < sr_key r)"

definition page :: "nat \<Rightarrow> string option \<Rightarrow> stored_row list \<Rightarrow> stored_row list" where
  "page n seen rows = take n (sort_key sr_key (filter (behind seen) rows))"

lemma update_keys [simp]: "map sr_key (apply_updates nw c us rows) = map sr_key rows"
proof (induction us arbitrary: rows)
  case (Cons u us)
  have "map sr_key (update_row nw c u rows) = map sr_key rows" by (simp add: update_row_def write_value_def)
  then show ?case using Cons [of "update_row nw c u rows"] by (simp add: apply_updates_def)
qed (simp add: apply_updates_def)

definition left_rows :: "string option \<Rightarrow> stored_row list \<Rightarrow> nat" where
  "left_rows seen rows = length (filter (\<lambda>k. case seen of None \<Rightarrow> True | Some l \<Rightarrow> l < k) (map sr_key rows))"

lemma left_rows_update [simp]: "left_rows seen (apply_updates nw c us rows) = left_rows seen rows"
  by (simp only: left_rows_def update_keys)

lemma page_row: "r \<in> set (page n seen rows) \<Longrightarrow> r \<in> set rows \<and> behind seen r"
  by (auto simp: page_def dest: in_set_takeD)

lemma left_rows_less: "r \<in> set rows \<Longrightarrow> behind seen r \<Longrightarrow> left_rows (Some (sr_key r)) rows < left_rows seen rows"
proof -
  let ?p = "\<lambda>k. case seen of None \<Rightarrow> True | Some l \<Rightarrow> l < k" and ?q = "\<lambda>k. sr_key r < k"
  assume r: "r \<in> set rows" "behind seen r"
  have "filter ?q (map sr_key rows) = filter ?q (filter ?p (map sr_key rows))"
    using r(2) by (auto simp: behind_def intro!: filter_cong split: option.splits)
  moreover have "sr_key r \<in> set (filter ?p (map sr_key rows))" using r by (auto simp: behind_def split: option.splits)
  then have "length (filter ?q (filter ?p (map sr_key rows))) < length (filter ?p (map sr_key rows))"
    by (rule length_filter_less) (rule less_irrefl)
  ultimately show ?thesis by (simp add: left_rows_def)
qed


definition no_stats :: "ciphertext_column \<Rightarrow> column_stats" where
  "no_stats c = \<lparr>cs_column = cc_name c, cs_scanned = 0, cs_rewrapped = 0, cs_unreadable = 0, cs_bySourceKey = []\<rparr>"

text \<open>The pages of one column, from the first to the one that is not full. The page size is at least one.\<close>

function rewrap_pages :: "crypto_lib \<Rightarrow> (string \<Rightarrow> string \<Rightarrow> entropy) \<Rightarrow> key_ring \<Rightarrow> bool \<Rightarrow> nat \<Rightarrow> string \<Rightarrow> ciphertext_column
    \<Rightarrow> string option \<Rightarrow> column_stats \<Rightarrow> stored_row list \<Rightarrow> column_stats result \<times> stored_row list" where
  "rewrap_pages lib rnd ring dry n nw c seen stats rows =
     (let p = page n seen rows in
      if p = [] then (Inr stats, rows)
      else case rewrap_rows lib rnd ring c p (stats, []) of
             Inl e \<Rightarrow> (Inl e, rows)
           | Inr (stats', us) \<Rightarrow>
               let rows' = (if us \<noteq> [] \<and> \<not> dry then apply_updates nw c us rows else rows);
                   stats'' = stats'\<lparr>cs_rewrapped := cs_rewrapped stats' + length us\<rparr>
               in if length p < n then (Inr stats'', rows')
                  else rewrap_pages lib rnd ring dry n nw c (Some (sr_key (last p))) stats'' rows')"
  by pat_completeness auto

termination
proof (relation "measure (\<lambda>(lib, rnd, ring, dry, n, nw, c, seen, stats, rows). left_rows seen rows)", simp)
  fix lib rnd ring dry n nw c seen stats rows p x stats' us rows' stats''
  assume p: "p = page n seen rows" "p \<noteq> []"
    and rows': "rows' = (if us \<noteq> [] \<and> \<not> dry then apply_updates nw c us rows else rows)"
  then have "last p \<in> set rows \<and> behind seen (last p)" using page_row last_in_set by metis
  then have "left_rows (Some (sr_key (last p))) rows < left_rows seen rows" by (simp add: left_rows_less)
  moreover have "left_rows s rows' = left_rows s rows" for s by (simp add: rows')
  ultimately show "((lib, rnd, ring, dry, n, nw, c, Some (sr_key (last p)), stats'', rows'), lib, rnd, ring, dry, n, nw, c, seen, stats, rows)
      \<in> measure (\<lambda>(lib, rnd, ring, dry, n, nw, c, seen, stats, rows). left_rows seen rows)"
    by simp
qed

declare rewrap_pages.simps [simp del]

definition rewrap_column :: "crypto_lib \<Rightarrow> (string \<Rightarrow> string \<Rightarrow> entropy) \<Rightarrow> key_ring \<Rightarrow> bool \<Rightarrow> nat \<Rightarrow> string \<Rightarrow> ciphertext_column
    \<Rightarrow> stored_db \<Rightarrow> column_stats result \<times> stored_db" where
  "rewrap_column lib rnd ring dry n nw c db =
     (case rewrap_pages lib rnd ring dry n nw c None (no_stats c) (db (cc_entity c)) of
        (res, rows) \<Rightarrow> (res, db(cc_entity c := rows)))"

fun rewrap_columns :: "crypto_lib \<Rightarrow> (string \<Rightarrow> string \<Rightarrow> entropy) \<Rightarrow> key_ring \<Rightarrow> bool \<Rightarrow> nat \<Rightarrow> string \<Rightarrow> ciphertext_column list
    \<Rightarrow> column_stats list \<Rightarrow> stored_db \<Rightarrow> column_stats list result \<times> stored_db" where
  "rewrap_columns lib rnd ring dry n nw [] done_cols db = (Inr done_cols, db)"
| "rewrap_columns lib rnd ring dry n nw (c # cs) done_cols db =
     (case rewrap_column lib rnd ring dry n nw c db of
        (Inl e, db') \<Rightarrow> (Inl e, db')
      | (Inr stats, db') \<Rightarrow> rewrap_columns lib rnd ring dry n nw cs (done_cols @ [stats]) db')"

text \<open>
  The tool up to the envelope pass: the keys the stored values name must be in the ring. \<^verbatim>\<open>batch\<close> is the option
  \<^verbatim>\<open>batchSize\<close>, 200 when there is none.
\<close>

definition rewrap_envelopes :: "crypto_lib \<Rightarrow> (string \<Rightarrow> string \<Rightarrow> entropy) \<Rightarrow> key_ring \<Rightarrow> bool \<Rightarrow> int option \<Rightarrow> string \<Rightarrow> stored_db
    \<Rightarrow> column_stats list result \<times> stored_db" where
  "rewrap_envelopes lib rnd ring dry batch nw db =
     (case assertStoredKeyIdsKnown db ring of
        Inl e \<Rightarrow> (Inl e, db)
      | Inr _ \<Rightarrow> rewrap_columns lib rnd ring dry (nat (max 1 (case batch of Some b \<Rightarrow> b | None \<Rightarrow> 200))) nw ENVELOPE_COLUMNS [] db)"

section \<open>Sync states of wallets that do not come back\<close>

definition SYNC_STATES :: string where "SYNC_STATES = ''midnight.WalletSyncStates''"

definition null_text :: "string option \<Rightarrow> string" where
  "null_text v = (case v of Some s \<Rightarrow> s | None \<Rightarrow> ''null'')"

definition drop_one :: "bool \<Rightarrow> string option \<Rightarrow> nat \<times> string set \<times> stored_db \<Rightarrow> nat \<times> string set \<times> stored_db" where
  "drop_one dry a st =
     (case st of (dropped, migrated, db) \<Rightarrow>
        if null_text a \<in> migrated then st
        else (dropped + 1, insert (null_text a) migrated,
              if dry then db else db(SYNC_STATES := filter (\<lambda>r. sr_cols r ''accountId'' \<noteq> a) (db SYNC_STATES))))"

definition dropLegacySyncStates :: "bool \<Rightarrow> bool \<Rightarrow> string set \<Rightarrow> stored_db \<Rightarrow> nat \<times> string set \<times> stored_db" where
  "dropLegacySyncStates dry wanted migrated db =
     (if \<not> wanted then (0, migrated, db)
      else fold (drop_one dry) (map (\<lambda>r. sr_cols r ''accountId'') (filter (\<lambda>r. sr_cols r ''keyScheme'' = None) (db SYNC_STATES))) (0, migrated, db))"

section \<open>What the tool says\<close>

record rewrap_report =
  rr_dryRun :: bool
  rr_envelope :: "column_stats list"
  rr_legacy :: legacy_census
  rr_migratable :: "string list"

datatype tool_verdict = LegacyRemains nat | KeyMayLeave | DryRunClean

definition tool_verdict_of :: "rewrap_report \<Rightarrow> tool_verdict" where
  "tool_verdict_of report =
     (let stuck = filter (\<lambda>a. a \<notin> set (rr_migratable report)) (lc_accounts (rr_legacy report)) in
      if 0 < lc_total (rr_legacy report) \<and> (\<not> rr_dryRun report \<or> stuck \<noteq> []) then LegacyRemains (length stuck)
      else if \<not> rr_dryRun report then KeyMayLeave else DryRunClean)"

definition exit_code :: "tool_verdict \<Rightarrow> nat" where
  "exit_code v = (case v of LegacyRemains _ \<Rightarrow> 1 | KeyMayLeave \<Rightarrow> 0 | DryRunClean \<Rightarrow> 0)"

end
