(* ===== verification/Envelope_Safety.thy ===== *)
theory Envelope_Safety
  imports Envelope
begin

text \<open>
  What the envelopes promise: what one key ring writes every ring that still holds the key reads back, under the
  same column and row only, and what the parser of a stored value tells of it.
\<close>

section \<open>Text and base64\<close>

lemma b64_digits: "map b64_digit B64_ALPHABET = map Some [0..<64]"
  by (simp add: B64_ALPHABET_def b64_digit_def upt_rec)

lemma b64_length: "length B64_ALPHABET = 64"
  by (simp add: B64_ALPHABET_def)

lemma b64_digit_char: "n < 64 \<Longrightarrow> b64_digit (b64_char n) = Some n"
proof -
  assume n: "n < 64"
  have "map b64_digit B64_ALPHABET ! n = map Some [0..<64] ! n" by (simp only: b64_digits)
  then show ?thesis using n by (simp add: b64_length)
qed

lemma b64_pad: "b64_digit (CHR ''='') = None"
  by code_simp

lemma b64_split:
  fixes a b c :: nat
  assumes "a < 256" "b < 256" "c < 256"
  shows "a div 4 < 64" "a mod 4 * 16 + b div 16 < 64" "b mod 16 * 4 + c div 64 < 64" "c mod 64 < 64"
    "a mod 4 * 16 < 64" "b mod 16 * 4 < 64"
proof -
  have "b div 16 < 16" "c div 64 < 4" using assms by simp_all
  moreover have "a mod 4 < 4" "b mod 16 < 16" by simp_all
  ultimately show "a div 4 < 64" "a mod 4 * 16 + b div 16 < 64" "b mod 16 * 4 + c div 64 < 64" "c mod 64 < 64"
    "a mod 4 * 16 < 64" "b mod 16 * 4 < 64" using assms by linarith+
qed

lemma b64_join_first: "b < 256 \<Longrightarrow> a div 4 * 4 + (a mod 4 * 16 + b div 16) div 16 = (a::nat)"
proof -
  assume "b < 256"
  then have "b div 16 < 16" by simp
  then have "(a mod 4 * 16 + b div 16) div 16 = a mod 4" by simp
  then show ?thesis by simp
qed

lemma b64_join_second: "b < 256 \<Longrightarrow> c < 256 \<Longrightarrow> (a mod 4 * 16 + b div 16) mod 16 * 16 + (b mod 16 * 4 + c div 64) div 4 = (b::nat)"
proof -
  assume "b < 256" "c < 256"
  then have "b div 16 < 16" "c div 64 < 4" by simp_all
  then have "(a mod 4 * 16 + b div 16) mod 16 = b div 16" "(b mod 16 * 4 + c div 64) div 4 = b mod 16" by simp_all
  then show ?thesis by simp
qed

lemma b64_join_third: "c < 256 \<Longrightarrow> (b mod 16 * 4 + c div 64) mod 4 * 64 + c mod 64 = (c::nat)"
proof -
  assume "c < 256"
  then have "c div 64 < 4" by simp
  then have "(b mod 16 * 4 + c div 64) mod 4 = c div 64" by simp
  then show ?thesis by simp
qed

definition octets_ok :: "octets \<Rightarrow> bool" where
  "octets_ok bs \<longleftrightarrow> list_all (\<lambda>b. b < 256) bs"

lemma octets_ok_append [simp]: "octets_ok (xs @ ys) \<longleftrightarrow> octets_ok xs \<and> octets_ok ys"
  by (simp add: octets_ok_def)

lemma octets_ok_Cons [simp]: "octets_ok (x # xs) \<longleftrightarrow> x < 256 \<and> octets_ok xs" "octets_ok []"
  by (simp_all add: octets_ok_def)

lemma unbase64_base64: "octets_ok bs \<Longrightarrow> unbase64 (base64 bs) = bs"
proof (induction bs rule: base64.induct)
  case 1
  then show ?case by (simp add: unbase64_def map_filter_simps)
next
  case (2 a)
  then show ?case
    using b64_split [of a 0 0] b64_join_first [of 0 a] by (simp add: unbase64_def map_filter_simps b64_digit_char b64_pad)
next
  case (3 a b)
  then show ?case
    using b64_split [of a b 0] b64_join_first [of b a] b64_join_second [of b 0 a]
    by (simp add: unbase64_def map_filter_simps b64_digit_char b64_pad)
next
  case (4 a b c bs)
  then have l: "a < 256" "b < 256" "c < 256" by simp_all
  have "unbase64 (base64 (a # b # c # bs)) =
    [a div 4 * 4 + (a mod 4 * 16 + b div 16) div 16, (a mod 4 * 16 + b div 16) mod 16 * 16 + (b mod 16 * 4 + c div 64) div 4,
     (b mod 16 * 4 + c div 64) mod 4 * 64 + c mod 64] @ unbase64 (base64 bs)"
    using b64_split [OF l] by (simp add: unbase64_def map_filter_simps b64_digit_char)
  also have "\<dots> = a # b # c # bs"
    by (simp only: b64_join_first [OF l(2)] b64_join_second [OF l(2,3)] b64_join_third [OF l(3)] 4 append_Cons append_Nil octets_ok_Cons)
      (use 4 in simp)
  finally show ?case .
qed

definition plain_field :: "string \<Rightarrow> bool" where
  "plain_field s \<longleftrightarrow> CHR '':'' \<notin> set s"

lemma b64_char_plain: "n < 64 \<Longrightarrow> b64_char n \<noteq> CHR '':''"
proof -
  have "CHR '':'' \<notin> set B64_ALPHABET" by (simp add: B64_ALPHABET_def)
  then show "n < 64 \<Longrightarrow> b64_char n \<noteq> CHR '':''" by (metis b64_length nth_mem)
qed

lemma base64_plain: "octets_ok bs \<Longrightarrow> plain_field (base64 bs)"
proof (induction bs rule: base64.induct)
  case (2 a)
  then show ?case using b64_split [of a 0 0] by (simp add: plain_field_def b64_char_plain [symmetric])
next
  case (3 a b)
  then show ?case using b64_split [of a b 0] by (simp add: plain_field_def b64_char_plain [symmetric])
next
  case (4 a b c bs)
  then show ?case using b64_split [of a b c] by (simp add: plain_field_def b64_char_plain [symmetric])
qed (simp add: plain_field_def)

lemma split_plain: "sep \<notin> set s \<Longrightarrow> split_at_char sep s = [s]"
  by (induction s) auto

lemma split_field: "sep \<notin> set s \<Longrightarrow> split_at_char sep (s @ sep # t) = s # split_at_char sep t"
  by (induction s) auto

lemma key_id_plain: "KEY_ID_PATTERN i \<Longrightarrow> plain_field i"
proof -
  have "\<not> key_id_char (CHR '':'')" by code_simp
  then show "KEY_ID_PATTERN i \<Longrightarrow> plain_field i" by (auto simp: KEY_ID_PATTERN_def plain_field_def list_all_iff)
qed


section \<open>What is written is read back\<close>

text \<open>What the code relies on of the cipher: what it seals it opens, and the lengths of what it produces.\<close>

definition gcm_opens :: "crypto_lib \<Rightarrow> bool" where
  "gcm_opens lib \<longleftrightarrow>
     (\<forall>key iv a plain. length key = KEK_LENGTH \<and> length iv = IV_LENGTH \<and> octets_ok plain \<longrightarrow>
        (case cl_seal lib key iv a plain of (data, tg) \<Rightarrow>
           cl_open lib key iv a tg data = Some plain \<and> length tg = AUTH_TAG_LENGTH \<and> length data = length plain
             \<and> octets_ok tg \<and> octets_ok data))"

definition fresh_bytes :: "entropy \<Rightarrow> bool" where
  "fresh_bytes rnd \<longleftrightarrow>
     length (en_dek rnd) = DEK_LENGTH \<and> length (en_iv rnd) = IV_LENGTH \<and> length (en_wrapIv rnd) = IV_LENGTH
       \<and> octets_ok (en_dek rnd) \<and> octets_ok (en_iv rnd) \<and> octets_ok (en_wrapIv rnd)"

definition well_formed_text :: "string \<Rightarrow> bool" where
  "well_formed_text s \<longleftrightarrow> utf8_text (utf8_bytes s) = s"

definition kek_lengths :: "key_ring \<Rightarrow> bool" where
  "kek_lengths ring \<longleftrightarrow> (\<forall>(i, k) \<in> set (kr_keks ring). length k = KEK_LENGTH)"

lemma map_of_char: "map (char_of \<circ> (of_char :: char \<Rightarrow> nat)) s = s"
  by (induction s) auto

lemma ascii_well_formed: "list_all (\<lambda>c. (of_char c :: nat) < 128) s \<Longrightarrow> well_formed_text s"
proof -
  assume "list_all (\<lambda>c. (of_char c :: nat) < 128) s"
  then have "utf8_decode (0, 0, 0, []) (map of_char s) = map of_char s"
    by (induction s) (auto simp: utf8_byte_def utf8_start_def)
  then show ?thesis by (simp add: well_formed_text_def utf8_text_def utf8_bytes_def map_of_char)
qed

lemma utf8_octets: "octets_ok (utf8_bytes s)"
proof -
  have "(of_char c :: nat) < 256" for c :: char by (metis char_of_quasi_inj of_char_of mod_less_divisor of_char_mod_256 zero_less_numeral)
  then show ?thesis by (simp add: octets_ok_def utf8_bytes_def list_all_iff)
qed

lemma gcm_round:
  assumes "gcm_opens lib" "length key = KEK_LENGTH" "length iv = IV_LENGTH" "octets_ok p"
  shows "gcmDecrypt lib key (g_iv (gcmEncrypt lib iv key p a)) (g_tag (gcmEncrypt lib iv key p a)) (g_data (gcmEncrypt lib iv key p a)) a = Inr p"
    "length (g_tag (gcmEncrypt lib iv key p a)) = AUTH_TAG_LENGTH" "length (g_data (gcmEncrypt lib iv key p a)) = length p"
    "octets_ok (g_tag (gcmEncrypt lib iv key p a))" "octets_ok (g_data (gcmEncrypt lib iv key p a))"
    "g_iv (gcmEncrypt lib iv key p a) = iv"
proof -
  obtain d t where s: "cl_seal lib key iv a p = (d, t)" by fastforce
  have g: "gcmEncrypt lib iv key p a = \<lparr>g_iv = iv, g_tag = t, g_data = d\<rparr>" by (simp add: gcmEncrypt_def s)
  have "case cl_seal lib key iv a p of (data, tg) \<Rightarrow> cl_open lib key iv a tg data = Some p \<and> length tg = AUTH_TAG_LENGTH
      \<and> length data = length p \<and> octets_ok tg \<and> octets_ok data"
    using assms(1) [unfolded gcm_opens_def, rule_format, OF conjI, OF assms(2) conjI, OF assms(3,4), of a] .
  then have "cl_open lib key iv a t d = Some p" and l: "length t = AUTH_TAG_LENGTH" "length d = length p" "octets_ok t" "octets_ok d"
    by (simp_all add: s)
  with assms(3) show "gcmDecrypt lib key (g_iv (gcmEncrypt lib iv key p a)) (g_tag (gcmEncrypt lib iv key p a)) (g_data (gcmEncrypt lib iv key p a)) a = Inr p"
    by (simp add: gcmDecrypt_def g)
  show "length (g_tag (gcmEncrypt lib iv key p a)) = AUTH_TAG_LENGTH" "length (g_data (gcmEncrypt lib iv key p a)) = length p"
    "octets_ok (g_tag (gcmEncrypt lib iv key p a))" "octets_ok (g_data (gcmEncrypt lib iv key p a))"
    "g_iv (gcmEncrypt lib iv key p a) = iv"
    using l by (simp_all add: g)
qed

definition plain_envelope :: "string \<Rightarrow> string \<Rightarrow> gcm_out \<Rightarrow> gcm_out \<Rightarrow> bool" where
  "plain_envelope version keyId wrap payload \<longleftrightarrow>
     plain_field version \<and> plain_field keyId
       \<and> octets_ok (g_iv wrap @ g_tag wrap @ g_data wrap @ g_iv payload @ g_tag payload @ g_data payload)"

lemma envelope_parts:
  assumes "plain_envelope version keyId wrap payload"
  shows "split_at_char (CHR '':'') (envelope_text version keyId wrap payload) =
    [version, keyId, base64 (g_iv wrap @ g_tag wrap @ g_data wrap), base64 (g_iv payload), base64 (g_tag payload), base64 (g_data payload)]"
proof -
  have "plain_field (base64 (g_iv wrap @ g_tag wrap @ g_data wrap))" "plain_field (base64 (g_iv payload))"
    "plain_field (base64 (g_tag payload))" "plain_field (base64 (g_data payload))"
    using assms by (auto intro!: base64_plain simp: plain_envelope_def)
  then show ?thesis
    using assms by (simp add: envelope_text_def plain_envelope_def plain_field_def split_field split_plain)
qed

lemma envelope_names_key:
  assumes "plain_envelope version keyId wrap payload" "KEY_ID_PATTERN keyId" "version = ENVELOPE_VERSION \<or> version = BOUND_ENVELOPE_VERSION"
  shows "inspectCiphertext (envelope_text version keyId wrap payload) = Inr (if version = BOUND_ENVELOPE_VERSION then 3 else 2, keyId)"
  using assms(2,3) by (auto simp: inspectCiphertext_def envelope_parts [OF assms(1)])


lemma keys_32 [simp]: "DEK_LENGTH = 32" "KEK_LENGTH = 32" "IV_LENGTH = 12" "AUTH_TAG_LENGTH = 16" "WRAPPED_DEK_LENGTH = 60"
  by (simp_all add: DEK_LENGTH_def KEK_LENGTH_def IV_LENGTH_def AUTH_TAG_LENGTH_def WRAPPED_DEK_LENGTH_def)

text \<open>What an encryption that succeeds has written.\<close>

definition bound_data :: "string \<Rightarrow> envelope_binding option \<Rightarrow> octets" where
  "bound_data keyId binding = (case binding of None \<Rightarrow> aad keyId | Some b \<Rightarrow> boundAad keyId b)"

definition envelope_version :: "envelope_binding option \<Rightarrow> string" where
  "envelope_version binding = (case binding of None \<Rightarrow> ENVELOPE_VERSION | Some _ \<Rightarrow> BOUND_ENVELOPE_VERSION)"

definition sealed :: "crypto_lib \<Rightarrow> entropy \<Rightarrow> string \<Rightarrow> string \<Rightarrow> octets \<Rightarrow> envelope_binding option \<Rightarrow> string" where
  "sealed lib rnd s keyId k binding =
     envelope_text (envelope_version binding) keyId
       (gcmEncrypt lib (en_wrapIv rnd) k (en_dek rnd) (bound_data keyId binding))
       (gcmEncrypt lib (en_iv rnd) (en_dek rnd) (utf8_bytes s) (bound_data keyId binding))"

lemma encrypt_sealed:
  assumes "encrypt lib rnd s (Ring ring) binding = Inr v"
  obtains k where "map_of (kr_keks ring) (kr_activeId ring) = Some k" "v = sealed lib rnd s (kr_activeId ring) k binding"
    "\<And>b. binding = Some b \<Longrightarrow> assertBinding b = Inr ()"
  using assms
  by (auto simp: encrypt_def asRing_def Let_def ring_kek_def sealed_def bound_data_def envelope_version_def split: option.splits)

lemma versions_plain [simp]: "plain_field (envelope_version binding)"
  "envelope_version binding = ENVELOPE_VERSION \<or> envelope_version binding = BOUND_ENVELOPE_VERSION"
  by (auto simp: plain_field_def envelope_version_def ENVELOPE_VERSION_def BOUND_ENVELOPE_VERSION_def split: option.splits)

lemma sealed_plain:
  assumes "gcm_opens lib" "fresh_bytes rnd" "KEY_ID_PATTERN i" "length k = KEK_LENGTH"
  shows "plain_envelope (envelope_version binding) i (gcmEncrypt lib (en_wrapIv rnd) k (en_dek rnd) (bound_data i binding))
    (gcmEncrypt lib (en_iv rnd) (en_dek rnd) (utf8_bytes s) (bound_data i binding))"
proof -
  have l: "length (en_dek rnd) = KEK_LENGTH" "length (en_iv rnd) = IV_LENGTH" "length (en_wrapIv rnd) = IV_LENGTH"
    "octets_ok (en_iv rnd)" "octets_ok (en_wrapIv rnd)" "octets_ok (en_dek rnd)" using assms(2) by (simp_all add: fresh_bytes_def)
  show ?thesis
    using gcm_round [OF assms(1) assms(4) l(3,6)] gcm_round [OF assms(1) l(1,2) utf8_octets] l key_id_plain [OF assms(3)]
    by (simp add: plain_envelope_def)
qed

lemma sealed_names_key:
  assumes "gcm_opens lib" "fresh_bytes rnd" "KEY_ID_PATTERN i" "length k = KEK_LENGTH"
  shows "inspectCiphertext (sealed lib rnd s i k binding) = Inr (if binding = None then 2 else 3, i)"
  unfolding sealed_def envelope_names_key [OF sealed_plain [OF assms] assms(3) versions_plain(2)]
  by (simp add: envelope_version_def ENVELOPE_VERSION_def BOUND_ENVELOPE_VERSION_def split: option.splits)

lemma sealed_opens:
  assumes "gcm_opens lib" "fresh_bytes rnd" "KEY_ID_PATTERN i" "length k = KEK_LENGTH" "well_formed_text s"
    and k: "map_of (kr_keks ring) i = Some k" and b: "\<And>b. binding = Some b \<Longrightarrow> assertBinding b = Inr ()"
  shows "decrypt lib accept al (sealed lib rnd s i k binding) (Ring ring) binding = Inr s"
proof -
  define w where "w = gcmEncrypt lib (en_wrapIv rnd) k (en_dek rnd) (bound_data i binding)"
  define p where "p = gcmEncrypt lib (en_iv rnd) (en_dek rnd) (utf8_bytes s) (bound_data i binding)"
  have l: "length (en_dek rnd) = KEK_LENGTH" "length (en_iv rnd) = IV_LENGTH" "length (en_wrapIv rnd) = IV_LENGTH"
    "octets_ok (en_iv rnd)" "octets_ok (en_wrapIv rnd)" "octets_ok (en_dek rnd)" using assms(2) by (simp_all add: fresh_bytes_def)
  note w = gcm_round [OF assms(1) assms(4) l(3,6), of "bound_data i binding", folded w_def]
  note p = gcm_round [OF assms(1) l(1,2) utf8_octets, of s "bound_data i binding", folded p_def]
  note parts = envelope_parts [OF sealed_plain [OF assms(1-4)], of binding s, folded w_def p_def]
  have u: "unbase64 (base64 (g_iv w @ g_tag w @ g_data w)) = g_iv w @ g_tag w @ g_data w" "unbase64 (base64 (g_iv p)) = g_iv p"
    "unbase64 (base64 (g_tag p)) = g_tag p" "unbase64 (base64 (g_data p)) = g_data p"
    using w p l by (auto intro!: unbase64_base64)
  have lw: "length (g_iv w) = 12" "length (g_tag w) = 16" "length (g_data w) = 32" using w l by simp_all
  have a: "associated_data (if binding = None then 2 else 3) i binding = Inr (bound_data i binding)"
    using b by (auto simp: associated_data_def bound_data_def check_then_def split: option.splits)
  have d: "decrypt_wrapped lib ring (if binding = None then 2 else 3) i
      [envelope_version binding, i, base64 (g_iv w @ g_tag w @ g_data w), base64 (g_iv p), base64 (g_tag p), base64 (g_data p)] binding = Inr s"
    using w(1) p(1) lw assms(5)
    by (simp add: decrypt_wrapped_def Let_def u a k ring_kek_def require_def well_formed_text_def)
  have e: "sealed lib rnd s i k binding = envelope_text (envelope_version binding) i w p" by (simp add: sealed_def w_def p_def)
  have n: "inspectCiphertext (envelope_text (envelope_version binding) i w p) = Inr (if binding = None then 2 else 3, i)"
    using sealed_names_key [OF assms(1-4), of s binding] by (simp only: e)
  show ?thesis
    unfolding e using d n parts by (cases binding) (simp_all add: decrypt_def asRing_def check_then_def)
qed


text \<open>
  C31. Keys rotate without losing values: what is encrypted under the active key of one ring is
  decrypted, under the same column and row, by every ring that still holds that key, whichever key is active there and
  whether or not unbound values are accepted; and the stored value names the key it needs.
\<close>

theorem envelope_rotates:
  assumes "gcm_opens lib" "fresh_bytes rnd" "well_formed_text s"
    and "KEY_ID_PATTERN (kr_activeId written)" "map_of (kr_keks written) (kr_activeId written) = Some k" "length k = KEK_LENGTH"
    and "map_of (kr_keks ring) (kr_activeId written) = Some k"
    and "encrypt lib rnd s (Ring written) binding = Inr v"
  shows "decrypt lib accept al v (Ring ring) binding = Inr s
    \<and> inspectCiphertext v = Inr (if binding = None then 2 else 3, kr_activeId written)"
proof -
  obtain k' where "map_of (kr_keks written) (kr_activeId written) = Some k'"
    and v: "v = sealed lib rnd s (kr_activeId written) k' binding" and b: "\<And>b. binding = Some b \<Longrightarrow> assertBinding b = Inr ()"
    using encrypt_sealed [OF assms(8)] by metis
  then have "k' = k" using assms(5) by simp
  then show ?thesis
    using sealed_opens [OF assms(1,2,4,6,3,7) b] sealed_names_key [OF assms(1,2,4,6)] by (simp add: v)
qed

section \<open>A value belongs to its column and row\<close>

lemma utf8_bytes_inj: "utf8_bytes s = utf8_bytes t \<longleftrightarrow> s = t"
proof -
  have "inj (of_char :: char \<Rightarrow> nat)" by (rule injI) simp
  then show ?thesis by (auto simp: utf8_bytes_def dest: map_injective)
qed

lemma key_id_no_nul: "KEY_ID_PATTERN i \<Longrightarrow> CHR 0x00 \<notin> set i"
proof -
  have "\<not> key_id_char (CHR 0x00)" by code_simp
  then show "KEY_ID_PATTERN i \<Longrightarrow> CHR 0x00 \<notin> set i" by (auto simp: KEY_ID_PATTERN_def list_all_iff)
qed

lemma bound_fields:
  assumes "KEY_ID_PATTERN i" "assertBinding b = Inr ()"
  shows "split_at_char (CHR 0x00) (join [CHR 0x00] [BOUND_ENVELOPE_VERSION, i, eb_purpose b, eb_subject b]) =
    [BOUND_ENVELOPE_VERSION, i, eb_purpose b, eb_subject b]"
proof -
  have "CHR 0x00 \<notin> set (eb_purpose b)" "CHR 0x00 \<notin> set (eb_subject b)"
    using assms(2) by (auto simp: assertBinding_def split: if_splits)
  moreover have "CHR 0x00 \<notin> set BOUND_ENVELOPE_VERSION" by (simp add: BOUND_ENVELOPE_VERSION_def)
  ultimately show ?thesis using key_id_no_nul [OF assms(1)] by (simp add: split_field split_plain)
qed

lemma boundAad_inj:
  assumes "KEY_ID_PATTERN i" "assertBinding b = Inr ()" "assertBinding b' = Inr ()" "boundAad i b = boundAad i b'"
  shows "b = b'"
proof -
  have "join [CHR 0x00] [BOUND_ENVELOPE_VERSION, i, eb_purpose b, eb_subject b] = join [CHR 0x00] [BOUND_ENVELOPE_VERSION, i, eb_purpose b', eb_subject b']"
    using assms(4) by (simp only: boundAad_def utf8_bytes_inj)
  then have "[BOUND_ENVELOPE_VERSION, i, eb_purpose b, eb_subject b] = [BOUND_ENVELOPE_VERSION, i, eb_purpose b', eb_subject b']"
    using bound_fields [OF assms(1,2)] bound_fields [OF assms(1,3)] by metis
  then show ?thesis by simp
qed


text \<open>The cipher opens what it sealed only under the data it was sealed with.\<close>

definition opens_only_sealed :: "crypto_lib \<Rightarrow> octets \<Rightarrow> octets \<Rightarrow> octets \<Rightarrow> octets \<Rightarrow> bool" where
  "opens_only_sealed lib key iv a plain \<longleftrightarrow>
     (case cl_seal lib key iv a plain of (data, tg) \<Rightarrow> \<forall>a'. a' \<noteq> a \<longrightarrow> cl_open lib key iv a' tg data = None)"

text \<open>
  C32. A value copied to another column or another row does not decrypt there: whichever key ring reads it,
  and also when unbound values are accepted, the answer is an error; and without its binding it is refused as well.
\<close>

theorem bound_to_row:
  assumes "gcm_opens lib" "fresh_bytes rnd"
    and "KEY_ID_PATTERN (kr_activeId written)" "map_of (kr_keks written) (kr_activeId written) = Some k" "length k = KEK_LENGTH"
    and "map_of (kr_keks ring) (kr_activeId written) = Some k"
    and "opens_only_sealed lib k (en_wrapIv rnd) (boundAad (kr_activeId written) b) (en_dek rnd)"
    and "encrypt lib rnd s (Ring written) (Some b) = Inr v" "b' \<noteq> b"
  shows "(\<exists>e. decrypt lib accept al v (Ring ring) (Some b') = Inl e) \<and> (\<exists>e. decrypt lib accept al v (Ring ring) None = Inl e)"
proof -
  let ?i = "kr_activeId written"
  define w where "w = gcmEncrypt lib (en_wrapIv rnd) k (en_dek rnd) (boundAad ?i b)"
  define p where "p = gcmEncrypt lib (en_iv rnd) (en_dek rnd) (utf8_bytes s) (boundAad ?i b)"
  obtain k' where "map_of (kr_keks written) ?i = Some k'" and v: "v = sealed lib rnd s ?i k' (Some b)" and b: "assertBinding b = Inr ()"
    using encrypt_sealed [OF assms(8)] by metis
  then have k: "k' = k" using assms(4) by simp
  have l: "length (en_wrapIv rnd) = IV_LENGTH" "octets_ok (en_wrapIv rnd)" "octets_ok (en_dek rnd)" "length (en_dek rnd) = DEK_LENGTH"
    using assms(2) by (simp_all add: fresh_bytes_def)
  note w = gcm_round [OF assms(1,5) l(1,3), of "boundAad ?i b", folded w_def]
  note plain = sealed_plain [OF assms(1,2,3,5), of "Some b" s]
  have e: "v = envelope_text (envelope_version (Some b)) ?i w p" by (simp add: v k sealed_def bound_data_def w_def p_def)
  have parts: "split_at_char (CHR '':'') v = [envelope_version (Some b), ?i, base64 (g_iv w @ g_tag w @ g_data w),
      base64 (g_iv p), base64 (g_tag p), base64 (g_data p)]"
    using envelope_parts [OF plain] by (simp add: e w_def p_def bound_data_def)
  have n: "inspectCiphertext v = Inr (3, ?i)" using sealed_names_key [OF assms(1,2,3,5), of s "Some b"] by (simp add: v k)
  have u: "unbase64 (base64 (g_iv w @ g_tag w @ g_data w)) = g_iv w @ g_tag w @ g_data w" using w l by (auto intro!: unbase64_base64)
  have lw: "length (g_iv w) = 12" "length (g_tag w) = 16" "length (g_data w) = 32" "g_iv w = en_wrapIv rnd" using w l by simp_all
  note u = u [unfolded lw(4)]
  have o: "\<forall>a. a \<noteq> boundAad ?i b \<longrightarrow> cl_open lib k (en_wrapIv rnd) a (g_tag w) (g_data w) = None"
    using assms(7) by (simp add: opens_only_sealed_def w_def gcmEncrypt_def split: prod.splits)
  have "\<exists>e. decrypt_wrapped lib ring 3 ?i (split_at_char (CHR '':'') v) (Some b') = Inl e"
  proof (cases "assertBinding b'")
    case (Inr x)
    then have "assertBinding b' = Inr ()" by simp
    then have "boundAad ?i b' \<noteq> boundAad ?i b" using boundAad_inj [OF assms(3) _ b] assms(9) by metis
    then have "cl_open lib k (en_wrapIv rnd) (boundAad ?i b') (g_tag w) (g_data w) = None" using o by simp
    then show ?thesis
      using Inr lw assms(6) by (simp add: parts decrypt_wrapped_def Let_def u ring_kek_def require_def check_then_def associated_data_def gcmDecrypt_def)
  qed (simp add: parts decrypt_wrapped_def Let_def u require_def check_then_def associated_data_def lw)
  moreover have "\<exists>e. decrypt_wrapped lib ring 3 ?i (split_at_char (CHR '':'') v) None = Inl e"
    by (simp add: parts decrypt_wrapped_def Let_def u require_def check_then_def associated_data_def lw)
  ultimately show ?thesis by (simp add: decrypt_def asRing_def check_then_def n)
qed


section \<open>A cipher for the examples\<close>

text \<open>It leaves the text as it is and puts into the tag whether the associated data are the expected ones.\<close>

definition demo_tag :: "octets \<Rightarrow> octets \<Rightarrow> octets" where
  "demo_tag a0 a = replicate 16 (if a = a0 then 1 else 0)"

definition demo_crypto :: "octets \<Rightarrow> crypto_lib" where
  "demo_crypto a0 =
     \<lparr>cl_seal = (\<lambda>key iv a p. (p, demo_tag a0 a)),
      cl_open = (\<lambda>key iv a tg data. if tg = demo_tag a0 a then Some data else None),
      cl_hkdf = (\<lambda>ikm salt info n. replicate n (length ikm mod 256)),
      cl_sha256 = (\<lambda>d. replicate 32 (length d mod 256))\<rparr>"

lemma demo_opens: "gcm_opens (demo_crypto a0)"
  by (simp add: gcm_opens_def demo_crypto_def demo_tag_def octets_ok_def list_all_iff)

definition demo_entropy :: entropy where
  "demo_entropy = \<lparr>en_dek = replicate 32 7, en_iv = replicate 12 3, en_wrapIv = replicate 12 5\<rparr>"

lemma demo_fresh: "fresh_bytes demo_entropy"
  by (simp add: fresh_bytes_def demo_entropy_def octets_ok_def list_all_iff)

definition demo_ring :: "string \<Rightarrow> key_ring" where
  "demo_ring active = \<lparr>kr_activeId = active, kr_keks = [(''k1'', replicate 32 1), (''k2'', replicate 32 2)], kr_legacyKeys = [], kr_spec = None\<rparr>"

definition demo_binding :: "string \<Rightarrow> envelope_binding" where
  "demo_binding i = \<lparr>eb_purpose = ''job'', eb_subject = i\<rparr>"

lemma demo_k1: "KEY_ID_PATTERN ''k1''" "assertBinding (demo_binding ''7'') = Inr ()"
  by code_simp+

lemma demo_encrypts: "isInr (encrypt lib rnd s (Ring (demo_ring ''k1'')) (Some (demo_binding ''7'')))"
  using demo_k1(2) by (simp add: encrypt_def asRing_def check_then_def demo_ring_def ring_kek_def Let_def)

lemma isInr_value: "isInr m \<Longrightarrow> m = Inr (projr m)"
  by (cases m) simp_all

theorem envelope_rotates_witness:
  "decrypt (demo_crypto []) False False (projr (encrypt (demo_crypto []) demo_entropy ''seed'' (Ring (demo_ring ''k1'')) (Some (demo_binding ''7''))))
     (Ring (demo_ring ''k2'')) (Some (demo_binding ''7'')) = Inr ''seed''"
proof -
  have "well_formed_text ''seed''" by (rule ascii_well_formed) simp
  then show ?thesis
    using envelope_rotates [of "demo_crypto []" demo_entropy "''seed''" "demo_ring ''k1''" "replicate 32 1" "demo_ring ''k2''"
        "Some (demo_binding ''7'')" _ False False]
      demo_opens demo_fresh demo_k1 isInr_value [OF demo_encrypts]
    by (simp add: demo_ring_def)
qed

theorem bound_to_row_witness:
  "\<exists>e. decrypt (demo_crypto (boundAad ''k1'' (demo_binding ''7''))) True True
     (projr (encrypt (demo_crypto (boundAad ''k1'' (demo_binding ''7''))) demo_entropy ''seed'' (Ring (demo_ring ''k1'')) (Some (demo_binding ''7''))))
     (Ring (demo_ring ''k2'')) (Some (demo_binding ''8'')) = Inl e"
proof -
  let ?c = "demo_crypto (boundAad ''k1'' (demo_binding ''7''))"
  have "opens_only_sealed ?c (replicate 32 1) (en_wrapIv demo_entropy) (boundAad ''k1'' (demo_binding ''7'')) (en_dek demo_entropy)"
    by (simp add: opens_only_sealed_def demo_crypto_def demo_tag_def)
  moreover have "demo_binding ''8'' \<noteq> demo_binding ''7''" by (simp add: demo_binding_def)
  ultimately show ?thesis
    using bound_to_row [of ?c demo_entropy "demo_ring ''k1''" "replicate 32 1" "demo_ring ''k2''" "demo_binding ''7''" "''seed''" _ "demo_binding ''8''" True True]
      demo_opens demo_fresh demo_k1 isInr_value [OF demo_encrypts]
    by (simp add: demo_ring_def)
qed

end
