(* ===== verification/Rewrap_Safety.thy ===== *)
theory Rewrap_Safety
  imports Rewrap Envelope_Safety
begin

text \<open>
  What the re-encryption leaves behind: reading a table page by page writes what one pass over the table would, no
  value is lost, and what names the old key afterwards could not be read before.
\<close>

section \<open>One pass\<close>

definition moved_row :: "crypto_lib \<Rightarrow> (string \<Rightarrow> string \<Rightarrow> entropy) \<Rightarrow> key_ring \<Rightarrow> string \<Rightarrow> ciphertext_column \<Rightarrow> stored_row \<Rightarrow> stored_row" where
  "moved_row lib rnd ring nw c r = (case rewrap_row lib rnd ring c r of Moved source v \<Rightarrow> write_value nw c v r | _ \<Rightarrow> r)"

definition row_updates :: "crypto_lib \<Rightarrow> (string \<Rightarrow> string \<Rightarrow> entropy) \<Rightarrow> key_ring \<Rightarrow> ciphertext_column \<Rightarrow> stored_row list \<Rightarrow> (string \<times> string) list" where
  "row_updates lib rnd ring c rs =
     List.map_filter (\<lambda>r. case rewrap_row lib rnd ring c r of Moved source v \<Rightarrow> Some (sr_key r, v) | _ \<Rightarrow> None) rs"

definition is_throw :: "row_verdict \<Rightarrow> bool" where
  "is_throw s = (case s of Throws e \<Rightarrow> True | _ \<Rightarrow> False)"

lemma rewrap_rows_updates:
  "rewrap_rows lib rnd ring c rs (stats, us) = Inr (stats', us') \<Longrightarrow>
     us' = us @ row_updates lib rnd ring c rs \<and> list_all (\<lambda>r. \<not> is_throw (rewrap_row lib rnd ring c r)) rs
     \<and> cs_unreadable stats' = cs_unreadable stats + length (filter (\<lambda>r. rewrap_row lib rnd ring c r = Unreadable) rs)"
proof (induction rs arbitrary: stats us)
  case Nil
  then show ?case by (simp add: row_updates_def map_filter_simps)
next
  case (Cons r rs)
  then show ?case
    by (cases "rewrap_row lib rnd ring c r") (force simp: row_updates_def map_filter_simps is_throw_def)+
qed

lemma write_value_key [simp]: "sr_key (write_value nw c v r) = sr_key r"
  by (simp add: write_value_def)

text \<open>A column the pass writes is none of those that say which rows it may write.\<close>

definition column_ok :: "ciphertext_column \<Rightarrow> bool" where
  "column_ok c \<longleftrightarrow>
     cc_column c \<notin> fst ` set (cc_where c) \<and> ''rotatedAt'' \<notin> fst ` set (cc_where c) \<and> cc_column c \<noteq> ''rotatedAt''
       \<and> cc_column c \<noteq> ''sessionId''"

lemma write_other_col: "k \<noteq> cc_column c \<Longrightarrow> k \<noteq> ''rotatedAt'' \<Longrightarrow> sr_cols (write_value nw c v r) k = sr_cols r k"
  by (simp add: write_value_def)

lemma write_own_col: "cc_column c \<noteq> ''rotatedAt'' \<Longrightarrow> sr_cols (write_value nw c v r) (cc_column c) = Some v"
  by (simp add: write_value_def)

lemma where_write: "column_ok c \<Longrightarrow> where_holds c (write_value nw c v r) = where_holds c r"
proof -
  assume c: "column_ok c"
  have "sr_cols (write_value nw c v r) k = sr_cols r k" if "(k, w) \<in> set (cc_where c)" for k w
  proof (rule write_other_col)
    show "k \<noteq> cc_column c" using c that by (auto simp: column_ok_def image_iff)
    show "k \<noteq> ''rotatedAt''" using c that by (auto simp: column_ok_def image_iff)
  qed
  then show ?thesis unfolding where_holds_def by (intro list.pred_cong) auto
qed

definition set_row :: "string \<Rightarrow> ciphertext_column \<Rightarrow> (string \<times> string) list \<Rightarrow> stored_row \<Rightarrow> stored_row" where
  "set_row nw c us r = (case map_of us (sr_key r) of Some v \<Rightarrow> if where_holds c r then write_value nw c v r else r | None \<Rightarrow> r)"

lemma apply_updates_map: "distinct (map fst us) \<Longrightarrow> column_ok c \<Longrightarrow> apply_updates nw c us rows = map (set_row nw c us) rows"
proof (induction us arbitrary: rows)
  case Nil
  then show ?case by (simp add: apply_updates_def set_row_def)
next
  case (Cons u us)
  have "apply_updates nw c (u # us) rows = map (set_row nw c us) (update_row nw c u rows)"
    using Cons by (simp add: apply_updates_def)
  also have "\<dots> = map (set_row nw c (u # us)) rows"
  proof -
    have "map_of us (fst u) = None" using Cons.prems(1) by (simp add: map_of_eq_None_iff)
    then have "set_row nw c us (if sr_key r = fst u \<and> where_holds c r then write_value nw c (snd u) r else r) = set_row nw c (u # us) r" for r
      using Cons.prems(2) by (cases u) (auto simp: set_row_def split: option.splits)
    then show ?thesis by (simp add: update_row_def)
  qed
  finally show ?case .
qed


lemma page_short: "length (page n seen rows) < n \<Longrightarrow> set (page n seen rows) = {r \<in> set rows. behind seen r}"
  by (auto simp: page_def)

lemma page_full:
  assumes "distinct (map sr_key rows)" "page n seen rows \<noteq> []" "\<not> length (page n seen rows) < n" "r \<in> set rows"
  shows "r \<in> set (page n seen rows) \<longleftrightarrow> behind seen r \<and> \<not> behind (Some (sr_key (last (page n seen rows)))) r"
proof -
  define xs where "xs = sort_key sr_key (filter (behind seen) rows)"
  define p where "p = take n xs"
  define q where "q = drop n xs"
  have p: "page n seen rows = p" by (simp add: page_def p_def xs_def)
  have xs: "xs = p @ q" by (simp add: p_def q_def)
  have d: "inj_on sr_key (set rows)" using assms(1) by (simp add: distinct_map)
  then have d: "inj_on sr_key (set xs)" "distinct xs"
    using assms(1) by (auto simp: xs_def distinct_map inj_on_def distinct_sort)
  have "sorted (map sr_key xs)" unfolding xs_def by (rule sorted_sort_key)
  then have s: "sorted (map sr_key p @ map sr_key q)" by (simp add: xs)
  have pne: "p \<noteq> []" using assms(2) p by simp
  have le: "sr_key t \<le> sr_key (last p)" if "t \<in> set p" for t
  proof -
    have "sorted (map sr_key (butlast p) @ [sr_key (last p)])" using s pne by (metis append_butlast_last_id list.simps(8,9) map_append sorted_append)
    moreover have "t \<in> set (butlast p) \<or> t = last p" using that pne by (metis append_butlast_last_id rotate1.simps(2) set_ConsD set_rotate1)
    ultimately show ?thesis by (auto simp: sorted_append)
  qed
  have gt: "sr_key (last p) < sr_key t" if "t \<in> set q" for t
  proof -
    have l: "last p \<in> set p" using pne by simp
    then have "sr_key (last p) \<le> sr_key t" using s that by (auto simp: sorted_append)
    moreover have "last p \<noteq> t" using d(2) l that xs by (metis disjoint_iff distinct_append)
    then have "sr_key (last p) \<noteq> sr_key t" using d(1) l that xs by (auto dest: inj_onD)
    ultimately show ?thesis by simp
  qed
  have "r \<in> set xs \<longleftrightarrow> behind seen r" using assms(4) by (simp add: xs_def)
  then have m: "behind seen r \<longleftrightarrow> r \<in> set p \<or> r \<in> set q" by (simp add: xs)
  show ?thesis
  proof
    assume "r \<in> set (page n seen rows)"
    then have "r \<in> set p" by (simp add: p)
    then show "behind seen r \<and> \<not> behind (Some (sr_key (last (page n seen rows)))) r" using m le [of r] by (auto simp: behind_def p)
  next
    assume "behind seen r \<and> \<not> behind (Some (sr_key (last (page n seen rows)))) r"
    then show "r \<in> set (page n seen rows)" using m gt [of r] by (auto simp: behind_def p)
  qed
qed

lemma page_distinct: "distinct (map sr_key rows) \<Longrightarrow> distinct (map sr_key (page n seen rows))"
proof -
  assume "distinct (map sr_key rows)"
  then have "distinct (map sr_key (sort_key sr_key (filter (behind seen) rows)))"
    by (auto simp: distinct_map distinct_sort inj_on_def)
  then show ?thesis by (simp add: page_def take_map [symmetric])
qed

lemma row_updates_keys: "set (map fst (row_updates lib rnd ring c rs)) \<subseteq> sr_key ` set rs"
  by (auto simp: row_updates_def List.map_filter_def split: row_verdict.splits)

lemma row_updates_distinct: "distinct (map sr_key rs) \<Longrightarrow> distinct (map fst (row_updates lib rnd ring c rs))"
proof (induction rs)
  case (Cons r rs)
  then show ?case
    using row_updates_keys [of lib rnd ring c rs]
    by (cases "rewrap_row lib rnd ring c r") (auto simp: row_updates_def map_filter_simps)
qed (simp add: row_updates_def map_filter_simps)

lemma row_updates_of:
  "distinct (map sr_key rs) \<Longrightarrow> r \<in> set rs \<Longrightarrow>
     map_of (row_updates lib rnd ring c rs) (sr_key r) = (case rewrap_row lib rnd ring c r of Moved source v \<Rightarrow> Some v | _ \<Rightarrow> None)"
proof (induction rs)
  case (Cons t rs)
  have n: "map_of (row_updates lib rnd ring c rs) (sr_key t) = None"
    using Cons.prems(1) row_updates_keys [of lib rnd ring c rs] by (auto simp: map_of_eq_None_iff)
  show ?case
  proof (cases "r = t")
    case True
    then show ?thesis using n by (cases "rewrap_row lib rnd ring c t") (auto simp: row_updates_def map_filter_simps)
  next
    case False
    then have r: "r \<in> set rs" using Cons.prems by simp
    then have k: "sr_key r \<in> sr_key ` set rs" by (rule imageI)
    then have ne: "sr_key r \<noteq> sr_key t" using Cons.prems(1) by auto
    have "map_of (row_updates lib rnd ring c (t # rs)) (sr_key r) = map_of (row_updates lib rnd ring c rs) (sr_key r)"
      using ne by (cases "rewrap_row lib rnd ring c t") (auto simp: row_updates_def map_filter_simps)
    then show ?thesis using Cons r by simp
  qed
qed simp

lemma moved_where: "rewrap_row lib rnd ring c r = Moved source v \<Longrightarrow> where_holds c r"
  by (auto simp: rewrap_row_def Let_def split: option.splits if_splits)

lemma page_write:
  assumes "distinct (map sr_key rows)" "column_ok c" "set p \<subseteq> set rows" "distinct (map sr_key p)"
  shows "apply_updates nw c (row_updates lib rnd ring c p) rows = map (\<lambda>r. if r \<in> set p then moved_row lib rnd ring nw c r else r) rows"
proof -
  have "set_row nw c (row_updates lib rnd ring c p) r = (if r \<in> set p then moved_row lib rnd ring nw c r else r)" if "r \<in> set rows" for r
  proof (cases "r \<in> set p")
    case True
    then show ?thesis
      using row_updates_of [OF assms(4) True, of lib rnd ring c] moved_where [of lib rnd ring c r]
      by (auto simp: set_row_def moved_row_def split: row_verdict.splits)
  next
    case False
    then have "sr_key r \<notin> sr_key ` set p" using assms(1,3) that by (auto simp: distinct_map dest: inj_onD)
    then have "map_of (row_updates lib rnd ring c p) (sr_key r) = None"
      using row_updates_keys [of lib rnd ring c p] by (auto simp: map_of_eq_None_iff)
    then show ?thesis using False by (simp add: set_row_def)
  qed
  then show ?thesis by (simp add: apply_updates_map [OF row_updates_distinct [OF assms(4)] assms(2)])
qed


definition moved_behind :: "crypto_lib \<Rightarrow> (string \<Rightarrow> string \<Rightarrow> entropy) \<Rightarrow> key_ring \<Rightarrow> bool \<Rightarrow> string \<Rightarrow> ciphertext_column
    \<Rightarrow> string option \<Rightarrow> stored_row list \<Rightarrow> stored_row list" where
  "moved_behind lib rnd ring dry nw c seen rows = (if dry then rows else map (\<lambda>r. if behind seen r then moved_row lib rnd ring nw c r else r) rows)"

lemma moved_row_key [simp]: "sr_key (moved_row lib rnd ring nw c r) = sr_key r"
  by (simp add: moved_row_def split: row_verdict.splits)

lemma behind_moved [simp]: "behind seen (moved_row lib rnd ring nw c r) = behind seen r"
  by (simp add: behind_def split: option.splits)

lemma behind_trans: "behind seen r \<Longrightarrow> behind (Some (sr_key r)) t \<Longrightarrow> behind seen t"
  by (auto simp: behind_def split: option.splits)

lemma page_step_map:
  assumes "distinct (map sr_key rows)" "column_ok c" "page n seen rows \<noteq> []" "\<not> length (page n seen rows) < n" "l = sr_key (last (page n seen rows))"
  shows "moved_behind lib rnd ring False nw c (Some l) (apply_updates nw c (row_updates lib rnd ring c (page n seen rows)) rows)
    = moved_behind lib rnd ring False nw c seen rows"
proof -
  let ?p = "page n seen rows"
  have sub: "set ?p \<subseteq> set rows" using page_row by blast
  have "last ?p \<in> set ?p" using assms(3) by simp
  then have last: "behind seen (last ?p)" using page_row by blast
  have "(\<lambda>t. if behind (Some l) t then moved_row lib rnd ring nw c t else t) (if r \<in> set ?p then moved_row lib rnd ring nw c r else r)
      = (if behind seen r then moved_row lib rnd ring nw c r else r)" if "r \<in> set rows" for r
    using page_full [OF assms(1,3,4) that] behind_trans [OF last, of r] assms(5) by auto
  then show ?thesis by (simp add: moved_behind_def page_write [OF assms(1,2) sub page_distinct [OF assms(1)]])
qed

lemma one_pass:
  "rewrap_pages lib rnd ring dry n nw c seen stats rows = (Inr stats', rows') \<Longrightarrow> 1 \<le> n \<Longrightarrow> column_ok c \<Longrightarrow> distinct (map sr_key rows) \<Longrightarrow>
     rows' = moved_behind lib rnd ring dry nw c seen rows"
proof (induction lib rnd ring dry n nw c seen stats rows rule: rewrap_pages.induct)
  case (1 lib rnd ring dry n nw c seen stats rows)
  define p where "p = page n seen rows"
  show ?case
  proof (cases "p = []")
    case True
    then have "{r \<in> set rows. behind seen r} = {}"
      using "1.prems"(2) page_short [of n seen rows] by (simp add: p_def)
    then have "\<not> behind seen r" if "r \<in> set rows" for r using that by blast
    then have "moved_behind lib rnd ring dry nw c seen rows = rows" by (simp add: moved_behind_def map_idI)
    then show ?thesis using "1.prems"(1) True by (simp add: rewrap_pages.simps Let_def p_def [symmetric])
  next
    case ne: False
    then obtain stats1 us where u: "rewrap_rows lib rnd ring c p (stats, []) = Inr (stats1, us)"
      using "1.prems"(1) by (auto simp: rewrap_pages.simps [of lib rnd ring dry n nw c seen stats rows] Let_def p_def [symmetric] split: sum.splits)
    then have us: "us = row_updates lib rnd ring c p" using rewrap_rows_updates by fastforce
    define rows1 where "rows1 = (if us \<noteq> [] \<and> \<not> dry then apply_updates nw c us rows else rows)"
    have sub: "set p \<subseteq> set rows" using page_row p_def by blast
    have dp: "distinct (map sr_key p)" using page_distinct "1.prems"(4) by (simp add: p_def)
    have r1: "rows1 = (if dry then rows else apply_updates nw c us rows)" by (simp add: rows1_def apply_updates_def)
    have d1: "distinct (map sr_key rows1)" using "1.prems"(4) by (simp add: r1)
    show ?thesis
    proof (cases "length p < n")
      case True
      then have sp: "set p = {r \<in> set rows. behind seen r}" unfolding p_def by (rule page_short)
      have "rows' = rows1"
        using "1.prems"(1) ne u True by (simp add: rewrap_pages.simps [of lib rnd ring dry n nw c seen stats rows] Let_def p_def [symmetric] rows1_def)
      moreover have "rows1 = moved_behind lib rnd ring dry nw c seen rows"
        using page_write [OF "1.prems"(4,3) sub dp] by (auto simp: r1 moved_behind_def us sp)
      ultimately show ?thesis by simp
    next
      case False
      let ?stats2 = "stats1\<lparr>cs_rewrapped := cs_rewrapped stats1 + length us\<rparr>" and ?l = "sr_key (last p)"
      have "rewrap_pages lib rnd ring dry n nw c (Some ?l) ?stats2 rows1 = (Inr stats', rows')"
        using "1.prems"(1) ne u False by (simp add: rewrap_pages.simps [of lib rnd ring dry n nw c seen stats rows] Let_def p_def [symmetric] rows1_def)
      then have "rows' = moved_behind lib rnd ring dry nw c (Some ?l) rows1"
        using "1.IH" [OF p_def ne u refl rows1_def refl False] "1.prems"(2,3) d1 by simp
      also have "\<dots> = moved_behind lib rnd ring dry nw c seen rows"
        using page_step_map [OF "1.prems"(4,3), of n seen ?l] ne False by (cases dry) (simp_all add: moved_behind_def r1 us p_def)
      finally show ?thesis .
    qed
  qed
qed


lemma pages_steps:
  "rewrap_pages lib rnd ring dry n nw c seen stats rows = (Inr stats', rows') \<Longrightarrow> 1 \<le> n \<Longrightarrow> column_ok c \<Longrightarrow> distinct (map sr_key rows) \<Longrightarrow>
     cs_unreadable stats \<le> cs_unreadable stats' \<and>
     (\<forall>r \<in> set rows. behind seen r \<longrightarrow> \<not> is_throw (rewrap_row lib rnd ring c r) \<and>
        (rewrap_row lib rnd ring c r = Unreadable \<longrightarrow> cs_unreadable stats < cs_unreadable stats'))"
proof (induction lib rnd ring dry n nw c seen stats rows rule: rewrap_pages.induct)
  case (1 lib rnd ring dry n nw c seen stats rows)
  define p where "p = page n seen rows"
  show ?case
  proof (cases "p = []")
    case True
    then have "{r \<in> set rows. behind seen r} = {}"
      using "1.prems"(2) page_short [of n seen rows] by (simp add: p_def)
    then have "\<not> behind seen r" if "r \<in> set rows" for r using that by blast
    then show ?thesis using "1.prems"(1) True by (simp add: rewrap_pages.simps Let_def p_def [symmetric])
  next
    case ne: False
    then obtain stats1 us where u: "rewrap_rows lib rnd ring c p (stats, []) = Inr (stats1, us)"
      using "1.prems"(1) by (auto simp: rewrap_pages.simps [of lib rnd ring dry n nw c seen stats rows] Let_def p_def [symmetric] split: sum.splits)
    then have us: "us = row_updates lib rnd ring c p" and nothrow: "list_all (\<lambda>r. \<not> is_throw (rewrap_row lib rnd ring c r)) p"
      and cnt: "cs_unreadable stats1 = cs_unreadable stats + length (filter (\<lambda>r. rewrap_row lib rnd ring c r = Unreadable) p)"
      using rewrap_rows_updates by fastforce+
    have unr: "cs_unreadable stats < cs_unreadable stats1" if "r \<in> set p" "rewrap_row lib rnd ring c r = Unreadable" for r
      using that by (auto simp: cnt length_greater_0_conv filter_empty_conv simp del: length_0_conv)
    define rows1 where "rows1 = (if us \<noteq> [] \<and> \<not> dry then apply_updates nw c us rows else rows)"
    have sub: "set p \<subseteq> set rows" using page_row p_def by blast
    have dp: "distinct (map sr_key p)" using page_distinct "1.prems"(4) by (simp add: p_def)
    have r1: "rows1 = (if dry then rows else apply_updates nw c us rows)" by (simp add: rows1_def apply_updates_def)
    have d1: "distinct (map sr_key rows1)" using "1.prems"(4) by (simp add: r1)
    let ?stats2 = "stats1\<lparr>cs_rewrapped := cs_rewrapped stats1 + length us\<rparr>" and ?l = "sr_key (last p)"
    show ?thesis
    proof (cases "length p < n")
      case True
      then have sp: "set p = {r \<in> set rows. behind seen r}" unfolding p_def by (rule page_short)
      have "stats' = ?stats2"
        using "1.prems"(1) ne u True by (simp add: rewrap_pages.simps [of lib rnd ring dry n nw c seen stats rows] Let_def p_def [symmetric])
      then show ?thesis using nothrow unr sp cnt by (auto simp: list_all_iff)
    next
      case False
      have "rewrap_pages lib rnd ring dry n nw c (Some ?l) ?stats2 rows1 = (Inr stats', rows')"
        using "1.prems"(1) ne u False by (simp add: rewrap_pages.simps [of lib rnd ring dry n nw c seen stats rows] Let_def p_def [symmetric] rows1_def)
      then have ih: "cs_unreadable ?stats2 \<le> cs_unreadable stats'"
        "\<And>r. r \<in> set rows1 \<Longrightarrow> behind (Some ?l) r \<Longrightarrow> \<not> is_throw (rewrap_row lib rnd ring c r)
           \<and> (rewrap_row lib rnd ring c r = Unreadable \<longrightarrow> cs_unreadable ?stats2 < cs_unreadable stats')"
        using "1.IH" [OF p_def ne u refl rows1_def refl False] "1.prems"(2,3) d1 by blast+
      have "\<not> is_throw (rewrap_row lib rnd ring c r) \<and> (rewrap_row lib rnd ring c r = Unreadable \<longrightarrow> cs_unreadable stats < cs_unreadable stats')"
        if r: "r \<in> set rows" "behind seen r" for r
      proof (cases "r \<in> set p")
        case True
        then show ?thesis using nothrow unr [OF True] ih(1) by (auto simp: list_all_iff)
      next
        case nin: False
        then have "behind (Some ?l) r"
          using page_full [of rows n seen r] "1.prems"(4) ne False r by (simp add: p_def)
        moreover have "r \<in> set rows1"
          using nin r(1) page_write [OF "1.prems"(4,3) sub dp, of nw lib rnd ring] by (cases dry) (auto simp: r1 us image_iff)
        ultimately show ?thesis using ih cnt by fastforce
      qed
      then show ?thesis using ih(1) cnt by simp
    qed
  qed
qed

section \<open>All columns\<close>

text \<open>What the pass looks at in a row for one column.\<close>

definition view :: "ciphertext_column \<Rightarrow> stored_row \<Rightarrow> string \<times> string option \<times> bool \<times> envelope_binding" where
  "view c r = (sr_key r, sr_cols r (cc_column c), where_holds c r, cc_binding c r)"

lemma view_eqs:
  "view c r = view c t \<Longrightarrow> sr_key r = sr_key t" "view c r = view c t \<Longrightarrow> sr_cols r (cc_column c) = sr_cols t (cc_column c)"
  "view c r = view c t \<Longrightarrow> where_holds c r = where_holds c t" "view c r = view c t \<Longrightarrow> cc_binding c r = cc_binding c t"
  by (simp_all add: view_def)

lemma rewrap_row_view: "view c r = view c t \<Longrightarrow> rewrap_row lib rnd ring c r = rewrap_row lib rnd ring c t"
  by (simp only: rewrap_row_def view_eqs [of c r t])

definition guards_ok :: "ciphertext_column \<Rightarrow> bool" where
  "guards_ok c \<longleftrightarrow>
     fst ` set (cc_where c) \<subseteq> {''commandEncoding''} \<and> cc_column c \<notin> {''commandEncoding'', ''rotatedAt'', ''sessionId''}
     \<and> (\<forall>r t. sr_key r = sr_key t \<and> sr_cols r ''sessionId'' = sr_cols t ''sessionId'' \<longrightarrow> cc_binding c r = cc_binding c t)"

lemma guards_column_ok: "guards_ok c \<Longrightarrow> column_ok c"
  by (auto simp: guards_ok_def column_ok_def)

lemma columns_guarded: "\<forall>c \<in> set ENVELOPE_COLUMNS. guards_ok c"
  by (simp add: ENVELOPE_COLUMNS_def guards_ok_def col_text_def)

lemma columns_distinct: "distinct (map cc_column ENVELOPE_COLUMNS)"
  by (simp add: ENVELOPE_COLUMNS_def)

lemma view_write_other:
  assumes "guards_ok c" "guards_ok d" "cc_column c \<noteq> cc_column d"
  shows "view c (write_value nw d v r) = view c r"
proof -
  have same: "sr_cols (write_value nw d v r) k = sr_cols r k" if "k \<in> {''commandEncoding'', ''sessionId'', cc_column c}" for k
    using that assms by (auto simp: guards_ok_def intro!: write_other_col)
  have "cc_binding c (write_value nw d v r) = cc_binding c r"
    using assms(1) same [of "''sessionId''"] unfolding guards_ok_def by (metis insertCI write_value_key)
  moreover have "where_holds c (write_value nw d v r) = where_holds c r"
  proof -
    have "sr_cols (write_value nw d v r) k = sr_cols r k" if "(k, w) \<in> set (cc_where c)" for k w
      using assms(1) that same [of k] by (force simp: guards_ok_def)
    then show ?thesis unfolding where_holds_def by (intro list.pred_cong) auto
  qed
  ultimately show ?thesis using same [of "cc_column c"] by (simp add: view_def)
qed

lemma view_moved_other: "guards_ok c \<Longrightarrow> guards_ok d \<Longrightarrow> cc_column c \<noteq> cc_column d \<Longrightarrow> view c (moved_row lib rnd ring nw d r) = view c r"
  by (simp add: moved_row_def view_write_other split: row_verdict.splits)

definition moved_all :: "crypto_lib \<Rightarrow> (string \<Rightarrow> string \<Rightarrow> entropy) \<Rightarrow> key_ring \<Rightarrow> string \<Rightarrow> ciphertext_column list \<Rightarrow> string \<Rightarrow> stored_row \<Rightarrow> stored_row" where
  "moved_all lib rnd ring nw cs e r = fold (\<lambda>c t. if cc_entity c = e then moved_row lib rnd ring nw c t else t) cs r"

lemma moved_all_key [simp]: "sr_key (moved_all lib rnd ring nw cs e r) = sr_key r"
  by (induction cs arbitrary: r) (simp_all add: moved_all_def)

lemma view_unmoved:
  "guards_ok c \<Longrightarrow> \<forall>d \<in> set cs. guards_ok d \<and> cc_column c \<noteq> cc_column d \<Longrightarrow> view c (moved_all lib rnd ring nw cs e r) = view c r"
proof (induction cs arbitrary: r)
  case (Cons d cs)
  have "view c (moved_all lib rnd ring nw cs e (if cc_entity d = e then moved_row lib rnd ring nw d r else r))
      = view c (if cc_entity d = e then moved_row lib rnd ring nw d r else r)"
    using Cons by simp
  then show ?case using Cons.prems view_moved_other [of c d] by (simp add: moved_all_def)
qed (simp add: moved_all_def)

lemma view_write_own: "guards_ok c \<Longrightarrow> view c (write_value nw c v r) = (sr_key r, Some v, where_holds c r, cc_binding c r)"
proof -
  assume g: "guards_ok c"
  have c: "column_ok c" "cc_column c \<noteq> ''rotatedAt''" "cc_column c \<noteq> ''sessionId''"
    using guards_column_ok [OF g] by (simp_all add: column_ok_def)
  have "sr_cols (write_value nw c v r) ''sessionId'' = sr_cols r ''sessionId''" using c by (intro write_other_col) auto
  then have "cc_binding c (write_value nw c v r) = cc_binding c r" using g unfolding guards_ok_def by (metis write_value_key)
  then show ?thesis using c by (simp add: view_def where_write write_own_col)
qed

definition moved_view :: "crypto_lib \<Rightarrow> (string \<Rightarrow> string \<Rightarrow> entropy) \<Rightarrow> key_ring \<Rightarrow> ciphertext_column \<Rightarrow> stored_row \<Rightarrow> string \<times> string option \<times> bool \<times> envelope_binding" where
  "moved_view lib rnd ring c r =
     (sr_key r, case rewrap_row lib rnd ring c r of Moved source v \<Rightarrow> Some v | _ \<Rightarrow> sr_cols r (cc_column c), where_holds c r, cc_binding c r)"

lemma view_moved_own: "guards_ok c \<Longrightarrow> view c (moved_row lib rnd ring nw c r) = moved_view lib rnd ring c r"
  by (cases "rewrap_row lib rnd ring c r") (simp_all add: moved_row_def moved_view_def view_write_own, simp_all add: view_def)

lemma moved_view_cong: "view c r = view c t \<Longrightarrow> moved_view lib rnd ring c r = moved_view lib rnd ring c t"
  by (simp only: moved_view_def view_eqs [of c r t] rewrap_row_view [of c r t])

lemma moved_all_view:
  "c \<in> set cs \<Longrightarrow> \<forall>d \<in> set cs. guards_ok d \<Longrightarrow> distinct (map cc_column cs) \<Longrightarrow>
     view c (moved_all lib rnd ring nw cs (cc_entity c) r) = moved_view lib rnd ring c r"
proof (induction cs arbitrary: r)
  case (Cons d cs)
  show ?case
  proof (cases "c = d")
    case True
    have "\<forall>x \<in> set cs. guards_ok x \<and> cc_column c \<noteq> cc_column x" using Cons.prems True by (auto simp: image_iff)
    then have "view c (moved_all lib rnd ring nw cs (cc_entity c) (moved_row lib rnd ring nw c r)) = view c (moved_row lib rnd ring nw c r)"
      using Cons.prems True by (intro view_unmoved) auto
    then show ?thesis using True Cons.prems view_moved_own [of c] by (simp add: moved_all_def)
  next
    case False
    then have c: "c \<in> set cs" "cc_column c \<noteq> cc_column d" using Cons.prems by (auto simp: image_iff)
    let ?t = "if cc_entity d = cc_entity c then moved_row lib rnd ring nw d r else r"
    have "view c ?t = view c r" using Cons.prems c view_moved_other [of c d] by auto
    then have "moved_view lib rnd ring c ?t = moved_view lib rnd ring c r" by (rule moved_view_cong)
    moreover have "view c (moved_all lib rnd ring nw cs (cc_entity c) ?t) = moved_view lib rnd ring c ?t" using Cons c by simp
    ultimately show ?thesis by (simp add: moved_all_def)
  qed
qed simp


definition moved_once :: "crypto_lib \<Rightarrow> (string \<Rightarrow> string \<Rightarrow> entropy) \<Rightarrow> key_ring \<Rightarrow> string \<Rightarrow> ciphertext_column \<Rightarrow> string \<Rightarrow> stored_row \<Rightarrow> stored_row" where
  "moved_once lib rnd ring nw d e r = (if cc_entity d = e then moved_row lib rnd ring nw d r else r)"

lemma moved_once_fun: "moved_once lib rnd ring nw d e = (if cc_entity d = e then moved_row lib rnd ring nw d else id)"
  by (simp add: fun_eq_iff moved_once_def)

lemma moved_all_Cons: "moved_all lib rnd ring nw (d # cs) e r = moved_all lib rnd ring nw cs e (moved_once lib rnd ring nw d e r)"
  by (simp add: moved_all_def moved_once_def)

lemma column_step:
  assumes "rewrap_column lib rnd ring False n nw d db = (Inr st, db')" "1 \<le> n" "guards_ok d" "\<forall>e. distinct (map sr_key (db e))"
  shows "db' = (\<lambda>e. map (moved_once lib rnd ring nw d e) (db e))"
    "r \<in> set (db (cc_entity d)) \<Longrightarrow> \<not> is_throw (rewrap_row lib rnd ring d r)"
    "r \<in> set (db (cc_entity d)) \<Longrightarrow> rewrap_row lib rnd ring d r = Unreadable \<Longrightarrow> 0 < cs_unreadable st"
proof -
  obtain rows where p: "rewrap_pages lib rnd ring False n nw d None (no_stats d) (db (cc_entity d)) = (Inr st, rows)"
    and db': "db' = db(cc_entity d := rows)"
    using assms(1) by (auto simp: rewrap_column_def split: prod.splits)
  have k: "distinct (map sr_key (db (cc_entity d)))" using assms(4) by blast
  have "rows = map (moved_row lib rnd ring nw d) (db (cc_entity d))"
    using one_pass [OF p assms(2) guards_column_ok [OF assms(3)] k] by (simp add: moved_behind_def behind_def)
  then show "db' = (\<lambda>e. map (moved_once lib rnd ring nw d e) (db e))"
    by (simp add: db' fun_eq_iff moved_once_fun)
  note st = pages_steps [OF p assms(2) guards_column_ok [OF assms(3)] k]
  show "r \<in> set (db (cc_entity d)) \<Longrightarrow> \<not> is_throw (rewrap_row lib rnd ring d r)"
    using st by (simp add: behind_def)
  show "r \<in> set (db (cc_entity d)) \<Longrightarrow> rewrap_row lib rnd ring d r = Unreadable \<Longrightarrow> 0 < cs_unreadable st"
    using st by (force simp: behind_def no_stats_def)
qed

lemma moved_once_key [simp]: "sr_key (moved_once lib rnd ring nw d e r) = sr_key r"
  by (simp add: moved_once_def)

lemma columns_rows:
  "rewrap_columns lib rnd ring False n nw cs acc db = (Inr stats, db') \<Longrightarrow> 1 \<le> n \<Longrightarrow> \<forall>c \<in> set cs. guards_ok c \<Longrightarrow> distinct (map cc_column cs)
   \<Longrightarrow> \<forall>e. distinct (map sr_key (db e)) \<Longrightarrow>
     db' = (\<lambda>e. map (moved_all lib rnd ring nw cs e) (db e)) \<and> set acc \<subseteq> set stats \<and>
     (\<forall>c \<in> set cs. \<forall>r \<in> set (db (cc_entity c)). \<not> is_throw (rewrap_row lib rnd ring c r) \<and>
        (rewrap_row lib rnd ring c r = Unreadable \<longrightarrow> (\<exists>st \<in> set stats. 0 < cs_unreadable st)))"
proof (induction cs arbitrary: acc db)
  case Nil
  then show ?case by (simp add: moved_all_def)
next
  case (Cons d cs)
  obtain st db1 where d: "rewrap_column lib rnd ring False n nw d db = (Inr st, db1)"
    and more: "rewrap_columns lib rnd ring False n nw cs (acc @ [st]) db1 = (Inr stats, db')"
    using Cons.prems(1) by (auto split: prod.splits sum.splits)
  have g: "guards_ok d" using Cons.prems(3) by simp
  note step = column_step [OF d Cons.prems(2) g Cons.prems(5)]
  have k1: "\<forall>e. distinct (map sr_key (db1 e))" using Cons.prems(5) by (simp add: step(1) comp_def)
  have ih: "db' = (\<lambda>e. map (moved_all lib rnd ring nw cs e) (db1 e))" "set (acc @ [st]) \<subseteq> set stats"
    "\<And>c r. c \<in> set cs \<Longrightarrow> r \<in> set (db1 (cc_entity c)) \<Longrightarrow> \<not> is_throw (rewrap_row lib rnd ring c r)
       \<and> (rewrap_row lib rnd ring c r = Unreadable \<longrightarrow> (\<exists>st \<in> set stats. 0 < cs_unreadable st))"
    using Cons.IH [OF more Cons.prems(2) _ _ k1] Cons.prems(3,4) by auto
  have "\<not> is_throw (rewrap_row lib rnd ring c r) \<and> (rewrap_row lib rnd ring c r = Unreadable \<longrightarrow> (\<exists>st \<in> set stats. 0 < cs_unreadable st))"
    if c: "c \<in> set (d # cs)" and r: "r \<in> set (db (cc_entity c))" for c r
  proof (cases "c = d")
    case True
    then show ?thesis using step(2,3) r ih(2) by auto
  next
    case False
    then have cs: "c \<in> set cs" "cc_column c \<noteq> cc_column d" "guards_ok c" using c Cons.prems(3,4) by (auto simp: image_iff)
    have "moved_once lib rnd ring nw d (cc_entity c) r \<in> set (db1 (cc_entity c))" using r by (simp add: step(1))
    moreover have "view c (moved_once lib rnd ring nw d (cc_entity c) r) = view c r"
      using view_moved_other [OF cs(3) g cs(2)] by (simp add: moved_once_def)
    then have "rewrap_row lib rnd ring c (moved_once lib rnd ring nw d (cc_entity c) r) = rewrap_row lib rnd ring c r"
      by (rule rewrap_row_view)
    ultimately show ?thesis using ih(3) [OF cs(1)] by metis
  qed
  then show ?case using ih(1,2) by (simp add: step(1) moved_all_Cons comp_def)
qed

lemma envelopes_rows:
  assumes "rewrap_envelopes lib rnd ring False batch nw db = (Inr stats, db')" "\<forall>e. distinct (map sr_key (db e))"
  shows "db' = (\<lambda>e. map (moved_all lib rnd ring nw ENVELOPE_COLUMNS e) (db e))"
    "c \<in> set ENVELOPE_COLUMNS \<Longrightarrow> r \<in> set (db (cc_entity c)) \<Longrightarrow> \<not> is_throw (rewrap_row lib rnd ring c r)"
    "c \<in> set ENVELOPE_COLUMNS \<Longrightarrow> r \<in> set (db (cc_entity c)) \<Longrightarrow> rewrap_row lib rnd ring c r = Unreadable \<Longrightarrow> \<exists>st \<in> set stats. 0 < cs_unreadable st"
proof -
  let ?n = "nat (max 1 (case batch of Some b \<Rightarrow> b | None \<Rightarrow> 200))"
  have c: "rewrap_columns lib rnd ring False ?n nw ENVELOPE_COLUMNS [] db = (Inr stats, db')"
    using assms(1) unfolding rewrap_envelopes_def by (simp split: sum.splits)
  have n: "1 \<le> ?n" by linarith
  note rows = columns_rows [OF c n columns_guarded columns_distinct assms(2)]
  show "db' = (\<lambda>e. map (moved_all lib rnd ring nw ENVELOPE_COLUMNS e) (db e))" using rows by blast
  show "c \<in> set ENVELOPE_COLUMNS \<Longrightarrow> r \<in> set (db (cc_entity c)) \<Longrightarrow> \<not> is_throw (rewrap_row lib rnd ring c r)" using rows by blast
  show "c \<in> set ENVELOPE_COLUMNS \<Longrightarrow> r \<in> set (db (cc_entity c)) \<Longrightarrow> rewrap_row lib rnd ring c r = Unreadable \<Longrightarrow> \<exists>st \<in> set stats. 0 < cs_unreadable st"
    using rows by blast
qed

text \<open>The row a stored row has become, as one column sees it.\<close>

lemma moved_row_after:
  assumes "rewrap_envelopes lib rnd ring False batch nw db = (Inr stats, db')" "\<forall>e. distinct (map sr_key (db e))"
    and "c \<in> set ENVELOPE_COLUMNS" "r \<in> set (db (cc_entity c))"
  obtains r' where "r' \<in> set (db' (cc_entity c))" "view c r' = moved_view lib rnd ring c r"
proof -
  let ?r = "moved_all lib rnd ring nw ENVELOPE_COLUMNS (cc_entity c) r"
  have "?r \<in> set (db' (cc_entity c))" using envelopes_rows(1) [OF assms(1,2)] assms(4) by simp
  moreover have "view c ?r = moved_view lib rnd ring c r" by (rule moved_all_view [OF assms(3) columns_guarded columns_distinct])
  ultimately show thesis by (rule that)
qed

lemma row_before:
  assumes "rewrap_envelopes lib rnd ring False batch nw db = (Inr stats, db')" "\<forall>e. distinct (map sr_key (db e))"
    and "c \<in> set ENVELOPE_COLUMNS" "r' \<in> set (db' (cc_entity c))"
  obtains r where "r \<in> set (db (cc_entity c))" "view c r' = moved_view lib rnd ring c r"
proof -
  obtain r where "r \<in> set (db (cc_entity c))" "r' = moved_all lib rnd ring nw ENVELOPE_COLUMNS (cc_entity c) r"
    using envelopes_rows(1) [OF assms(1,2)] assms(4) by auto
  then show thesis using moved_all_view [OF assms(3) columns_guarded columns_distinct] that by metis
qed


section \<open>No value is lost\<close>

text \<open>A ring the tool can run with: its active key is well named, present, and of the length the cipher takes.\<close>

definition active_key :: "key_ring \<Rightarrow> octets \<Rightarrow> bool" where
  "active_key ring k \<longleftrightarrow> KEY_ID_PATTERN (kr_activeId ring) \<and> map_of (kr_keks ring) (kr_activeId ring) = Some k \<and> length k = KEK_LENGTH"

lemma bound_value_ring:
  assumes "inspectCiphertext v = Inr (3, i)" "map_of (kr_keks ring) i = map_of (kr_keks other) i"
  shows "decrypt lib a al v (Ring ring) b = decrypt lib a' al' v (Ring other) b"
proof -
  have "ring_kek ring i = ring_kek other i" by (simp only: ring_kek_def assms(2))
  then have "decrypt_wrapped lib ring 3 i parts b = decrypt_wrapped lib other 3 i parts b" for parts by (simp only: decrypt_wrapped_def)
  then show ?thesis using assms(1) by (cases b) (simp_all add: decrypt_def asRing_def check_then_def)
qed

lemma moved_opens:
  assumes "gcm_opens lib" "fresh_bytes ent" "active_key ring k" "map_of (kr_keks new) (kr_activeId ring) = Some k"
    and "encrypt lib ent s (Ring ring) (Some b) = Inr v" "well_formed_text s"
  shows "decrypt lib a al v (Ring new) (Some b) = Inr s" "inspectCiphertext v = Inr (3, kr_activeId ring)"
proof -
  obtain k' where k': "map_of (kr_keks ring) (kr_activeId ring) = Some k'" "v = sealed lib ent s (kr_activeId ring) k' (Some b)"
    and b: "\<And>b'. Some b = Some b' \<Longrightarrow> assertBinding b' = Inr ()"
    using encrypt_sealed [OF assms(5)] by metis
  have k: "KEY_ID_PATTERN (kr_activeId ring)" "length k = KEK_LENGTH" "k' = k" using assms(3) k' by (simp_all add: active_key_def)
  have v: "v = sealed lib ent s (kr_activeId ring) k (Some b)" using k'(2) k(3) by simp
  show "decrypt lib a al v (Ring new) (Some b) = Inr s"
    unfolding v by (rule sealed_opens [OF assms(1,2) k(1,2) assms(6,4)]) (rule b)
  show "inspectCiphertext v = Inr (3, kr_activeId ring)"
    using sealed_names_key [OF assms(1,2) k(1,2)] by (simp add: v)
qed

text \<open>
  C26. After a complete run of the envelope pass, with whatever page size, every value that could be
  decrypted before is decrypted to the same text by a ring that holds the active key alone, under its own column and
  row, and without accepting unbound values any more.
\<close>

theorem rewrap_keeps_values:
  assumes "gcm_opens lib" "\<forall>t k. fresh_bytes (rnd t k)" "active_key ring k" "map_of (kr_keks new) (kr_activeId ring) = Some k"
    and "rewrap_envelopes lib rnd ring False batch nw db = (Inr stats, db')" "\<forall>e. distinct (map sr_key (db e))"
    and "c \<in> set ENVELOPE_COLUMNS" "r \<in> set (db (cc_entity c))" "where_holds c r"
    and "sr_cols r (cc_column c) = Some v" "v \<noteq> []" "\<And>p. cc_plainPrefix c = Some p \<Longrightarrow> \<not> startsWith v p"
    and "decrypt lib False True v (Ring ring) (Some (cc_binding c r)) = Inr s" "well_formed_text s"
  shows "\<exists>r' \<in> set (db' (cc_entity c)). sr_key r' = sr_key r \<and> cc_binding c r' = cc_binding c r
    \<and> (\<exists>v'. sr_cols r' (cc_column c) = Some v' \<and> decrypt lib False False v' (Ring new) (Some (cc_binding c r)) = Inr s)"
proof -
  obtain r' where r': "r' \<in> set (db' (cc_entity c))" and view: "view c r' = moved_view lib rnd ring c r"
    using moved_row_after [OF assms(5-8)] by metis
  have nothrow: "\<not> is_throw (rewrap_row lib rnd ring c r)" using envelopes_rows(2) [OF assms(5,6)] assms(7,8) by blast
  obtain version i where ins: "inspectCiphertext v = Inr (version, i)"
    using assms(13) by (auto simp: decrypt_def asRing_def)
  have bare: "\<not> (case cc_plainPrefix c of Some p \<Rightarrow> startsWith v p | None \<Rightarrow> False)" using assms(12) by (auto split: option.splits)
  have "\<exists>v'. snd (moved_view lib rnd ring c r) = (Some v', where_holds c r, cc_binding c r) \<and> decrypt lib False False v' (Ring new) (Some (cc_binding c r)) = Inr s"
  proof (cases "version = 3 \<and> i = kr_activeId ring")
    case True
    have "rewrap_row lib rnd ring c r = Current" using assms(9-11) bare True by (simp add: rewrap_row_def Let_def ins)
    moreover have "map_of (kr_keks ring) i = map_of (kr_keks new) i" using assms(3,4) True by (simp add: active_key_def)
    then have "decrypt lib False False v (Ring new) (Some (cc_binding c r)) = Inr s"
      using bound_value_ring [of v i ring new lib False True "Some (cc_binding c r)" False False] ins True assms(13) by simp
    ultimately show ?thesis using assms(10) by (simp add: moved_view_def)
  next
    case False
    have step: "rewrap_row lib rnd ring c r = (case encrypt lib (rnd (cc_name c) (sr_key r)) s (Ring ring) (Some (cc_binding c r)) of
        Inl e \<Rightarrow> Throws e | Inr v' \<Rightarrow> Moved i v')"
      using assms(9-11,13) bare False by (auto simp: rewrap_row_def Let_def ins)
    then obtain v' where v': "encrypt lib (rnd (cc_name c) (sr_key r)) s (Ring ring) (Some (cc_binding c r)) = Inr v'"
      using nothrow by (auto simp: is_throw_def split: sum.splits)
    then have "rewrap_row lib rnd ring c r = Moved i v'" by (simp add: step)
    then show ?thesis using moved_opens(1) [OF assms(1) assms(2) [rule_format] assms(3,4) v' assms(14)] by (simp add: moved_view_def)
  qed
  then show ?thesis using r' view by (intro bexI [of _ r']) (auto simp: view_def moved_view_def)
qed


section \<open>When the old key may leave\<close>

lemma split_head:
  "split_at_char sep s = p # ps \<Longrightarrow> sep \<notin> set p \<and> (ps = [] \<and> s = p \<or> (\<exists>t. s = p @ sep # t \<and> split_at_char sep t = ps))"
proof (induction s arbitrary: p)
  case (Cons ch s)
  show ?case
  proof (cases "ch = sep")
    case True
    then show ?thesis using Cons.prems by auto
  next
    case False
    then obtain q where q: "split_at_char sep s = q # ps" "p = ch # q" using Cons.prems by (auto split: list.splits)
    then show ?thesis using Cons.IH [OF q(1)] False by auto
  qed
qed simp

lemma takeWhile_field: "sep \<notin> set i \<Longrightarrow> takeWhile (\<lambda>ch. ch \<noteq> sep) (i @ sep # t) = i"
  by (induction i) auto

lemma key_after_field: "plain_field i \<Longrightarrow> i \<noteq> [] \<Longrightarrow> key_after head (head @ i @ CHR '':'' # t) = i"
  using takeWhile_field [of "CHR '':''" i t] by (simp add: key_after_def Let_def plain_field_def)

lemma prefix_names_key:
  assumes "inspectCiphertext v = Inr (n, i)" "n \<noteq> 1"
  shows "prefix_key (take 24 v) = Some i"
proof -
  obtain ver where len: "length (split_at_char (CHR '':'') v) = 6" and ver: "split_at_char (CHR '':'') v ! 0 = ver" "ver = ENVELOPE_VERSION \<or> ver = BOUND_ENVELOPE_VERSION"
    and i: "split_at_char (CHR '':'') v ! 1 = i" "KEY_ID_PATTERN i"
    using assms by (auto simp: inspectCiphertext_def Let_def split: if_splits)
  obtain qs where qs: "split_at_char (CHR '':'') v = ver # i # qs" "length qs = 4"
    using len ver(1) i(1) by (cases "split_at_char (CHR '':'') v"; cases "tl (split_at_char (CHR '':'') v)") auto
  then have qs: "split_at_char (CHR '':'') v = ver # i # qs" "qs \<noteq> []" by auto
  obtain t where t: "v = ver @ CHR '':'' # t" "split_at_char (CHR '':'') t = i # qs" using split_head [OF qs(1)] by auto
  obtain u where u: "t = i @ CHR '':'' # u" using split_head [OF t(2)] qs(2) by auto
  have li: "i \<noteq> []" "length i \<le> 16" using i(2) by (auto simp: KEY_ID_PATTERN_def)
  have "take 24 v = (ver @ '':'') @ i @ CHR '':'' # take (20 - length i) u"
  proof -
    have "take (21 - length i) (CHR '':'' # u) = CHR '':'' # take (20 - length i) u" using li(2) by (auto simp: take_Cons')
    then show ?thesis using ver(2) li(2) t(1) u by (auto simp: ENVELOPE_VERSION_def BOUND_ENVELOPE_VERSION_def)
  qed
  then have k: "key_after (ver @ '':'') (take 24 v) = i" by (simp only: key_after_field [OF key_id_plain [OF i(2)] li(1)])
  have v: "take 24 v = ver @ CHR '':'' # take (23 - length ver) t" using ver(2) t(1) by (auto simp: ENVELOPE_VERSION_def BOUND_ENVELOPE_VERSION_def)
  have "keyIdFromPrefix (take 24 v) = Some (key_after (ver @ '':'') (take 24 v))"
    using ver(2) unfolding v by (auto simp: keyIdFromPrefix_def BARE_VIEWING_KEY_SEAL_PREFIX_def ENVELOPE_VERSION_def BOUND_ENVELOPE_VERSION_def)
  moreover have "take 24 v \<noteq> []" by (simp add: v)
  ultimately show ?thesis using k li(1) by (simp add: prefix_key_def)
qed

lemma note_unknown_keys: "fst ` set (note_unknown ring c i u) = fst ` set u \<union> (if ring_has ring i then {} else {i})"
  by (auto simp: note_unknown_def map_put_keys)

lemma fold_note_keys: "fst ` set (fold (note_unknown ring c) ids u) = fst ` set u \<union> {i \<in> set ids. \<not> ring_has ring i}"
  by (induction ids arbitrary: u) (auto simp: note_unknown_keys)

lemma fold_scan_keys:
  "fst ` set (fold (\<lambda>(c, ids) u. fold (note_unknown ring c) ids u) cs u) = fst ` set u \<union> {i. \<exists>(c, ids) \<in> set cs. i \<in> set ids \<and> \<not> ring_has ring i}"
proof (induction cs arbitrary: u)
  case (Cons x cs)
  obtain c ids where x: "x = (c, ids)" by (cases x)
  have "fst ` set (fold (\<lambda>(c, ids) u. fold (note_unknown ring c) ids u) (x # cs) u)
      = fst ` set u \<union> {i \<in> set ids. \<not> ring_has ring i} \<union> {i. \<exists>(c, ids) \<in> set cs. i \<in> set ids \<and> \<not> ring_has ring i}"
    using Cons [of "fold (note_unknown ring c) ids u"] by (simp add: x fold_note_keys)
  then show ?case unfolding x by auto
qed simp

lemma map_filter_set: "set (List.map_filter f xs) = {y. \<exists>x \<in> set xs. f x = Some y}"
  by (force simp: List.map_filter_def image_iff)

lemma column_key_ids_set:
  "set (column_key_ids db c) = {i. \<exists>r \<in> set (db (cc_entity c)). where_holds c r \<and> (\<exists>v. sr_cols r (cc_column c) = Some v \<and> prefix_key (take 24 v) = Some i)}"
proof -
  have "set (column_key_ids db c) = {i. \<exists>p \<in> set (column_prefixes db c). prefix_key p = Some i}"
    by (simp add: column_key_ids_def map_filter_set)
  also have "set (column_prefixes db c) = {p. \<exists>r \<in> set (db (cc_entity c)). where_holds c r \<and> (\<exists>v. sr_cols r (cc_column c) = Some v \<and> p = take 24 v)}"
    by (auto simp: column_prefixes_def map_filter_set)
  finally show ?thesis by blast
qed

lemma start_accepts:
  "assertStoredKeyIdsKnown db ring = Inr () \<longleftrightarrow>
     (\<forall>c \<in> set ENVELOPE_COLUMNS. \<forall>r \<in> set (db (cc_entity c)). \<forall>v i.
        where_holds c r \<and> sr_cols r (cc_column c) = Some v \<and> prefix_key (take 24 v) = Some i \<longrightarrow> ring_has ring i)"
proof -
  have "assertStoredKeyIdsKnown db ring = Inr () \<longleftrightarrow> unknown_keys db ring = []" by (simp add: assertStoredKeyIdsKnown_def)
  also have "\<dots> \<longleftrightarrow> fst ` set (unknown_keys db ring) = {}" by simp
  also have "fst ` set (unknown_keys db ring) = {i. \<exists>c \<in> set ENVELOPE_COLUMNS. i \<in> set (column_key_ids db c) \<and> \<not> ring_has ring i}"
    unfolding unknown_keys_def fold_scan_keys scanStoredKeyIds_def by auto
  finally show ?thesis unfolding column_key_ids_set by blast
qed


lemma moved_encrypts:
  "rewrap_row lib rnd ring c r = Moved source v \<Longrightarrow> \<exists>ent plain. encrypt lib ent plain (Ring ring) (Some (cc_binding c r)) = Inr v \<and> ent = rnd (cc_name c) (sr_key r)"
  by (auto simp: rewrap_row_def Let_def split: option.splits if_splits sum.splits)

lemma moved_names:
  assumes "gcm_opens lib" "fresh_bytes ent" "active_key ring k" "encrypt lib ent s (Ring ring) (Some b) = Inr v"
  shows "inspectCiphertext v = Inr (3, kr_activeId ring)"
proof -
  obtain k' where k': "map_of (kr_keks ring) (kr_activeId ring) = Some k'" "v = sealed lib ent s (kr_activeId ring) k' (Some b)"
    using encrypt_sealed [OF assms(4)] by metis
  then have "KEY_ID_PATTERN (kr_activeId ring)" "length k' = KEK_LENGTH" using assms(3) by (simp_all add: active_key_def)
  then show ?thesis using sealed_names_key [OF assms(1,2), of "kr_activeId ring" k' s "Some b"] by (simp add: k'(2))
qed

text \<open>
  C27. When a run of the envelope pass has met no unreadable value, the old keys can leave: a start with
  any ring that holds the active key of the run is not refused for a key it does not hold.
\<close>

theorem old_key_may_leave:
  assumes "gcm_opens lib" "\<forall>t k. fresh_bytes (rnd t k)" "active_key ring k"
    and "rewrap_envelopes lib rnd ring False batch nw db = (Inr stats, db')" "\<forall>e. distinct (map sr_key (db e))"
    and "list_all (\<lambda>st. cs_unreadable st = 0) stats" "ring_has new (kr_activeId ring)"
  shows "assertStoredKeyIdsKnown db' new = Inr ()"
  unfolding start_accepts
proof (intro ballI allI impI)
  fix c r' v i
  assume c: "c \<in> set ENVELOPE_COLUMNS" "r' \<in> set (db' (cc_entity c))"
    and v: "where_holds c r' \<and> sr_cols r' (cc_column c) = Some v \<and> prefix_key (take 24 v) = Some i"
  obtain r where r: "r \<in> set (db (cc_entity c))" and view: "view c r' = moved_view lib rnd ring c r"
    using row_before [OF assms(4,5) c] by metis
  then have after: "where_holds c r" "(case rewrap_row lib rnd ring c r of Moved source v \<Rightarrow> Some v | _ \<Rightarrow> sr_cols r (cc_column c)) = Some v"
    using v by (simp_all add: view_def moved_view_def)
  have ne: "v \<noteq> []" using v by (auto simp: prefix_key_def)
  have ok: "\<not> is_throw (rewrap_row lib rnd ring c r)" "rewrap_row lib rnd ring c r \<noteq> Unreadable"
    using envelopes_rows(2,3) [OF assms(4,5) c(1) r] assms(6) by (auto simp: list_all_iff)
  have "inspectCiphertext v = Inr (3, kr_activeId ring)"
  proof (cases "rewrap_row lib rnd ring c r")
    case NotScanned
    then show ?thesis using after ne by (auto simp: rewrap_row_def Let_def split: if_splits sum.splits prod.splits)
  next
    case Current
    then show ?thesis using after ne by (auto simp: rewrap_row_def Let_def split: if_splits sum.splits prod.splits)
  next
    case (Moved source w)
    then have "w = v" using after(2) by simp
    then show ?thesis using moved_encrypts [OF Moved] moved_names [OF assms(1) _ assms(3)] assms(2) by blast
  qed (use ok in \<open>simp_all add: is_throw_def\<close>)
  then have "prefix_key (take 24 v) = Some (kr_activeId ring)" by (rule prefix_names_key) simp
  then show "ring_has new i" using v assms(7) by simp
qed

text \<open>
  The tool does not look at the unreadable values it has counted: one that names another
  key is left as it was, the tool says the key may leave and exits with 0, and the next start without that key is
  refused.
\<close>

theorem verdict_ignores_unreadable:
  assumes "rewrap_envelopes lib rnd ring False batch nw db = (Inr stats, db')" "\<forall>e. distinct (map sr_key (db e))"
    and "c \<in> set ENVELOPE_COLUMNS" "r \<in> set (db (cc_entity c))"
    and "rewrap_row lib rnd ring c r = Unreadable" "sr_cols r (cc_column c) = Some v" "inspectCiphertext v = Inr (n, i)" "n \<noteq> 1"
    and "\<not> ring_has new i" "lc_total (countLegacyRows db') = 0"
  shows "(\<exists>st \<in> set stats. 0 < cs_unreadable st)
    \<and> tool_verdict_of \<lparr>rr_dryRun = False, rr_envelope = stats, rr_legacy = countLegacyRows db', rr_migratable = mig\<rparr> = KeyMayLeave
    \<and> exit_code KeyMayLeave = 0 \<and> assertStoredKeyIdsKnown db' new \<noteq> Inr ()"
proof -
  obtain r' where r': "r' \<in> set (db' (cc_entity c))" and view: "view c r' = moved_view lib rnd ring c r"
    using moved_row_after [OF assms(1-4)] by metis
  have w: "where_holds c r" using assms(5,6) by (auto simp: rewrap_row_def Let_def split: if_splits)
  have "where_holds c r'" "sr_cols r' (cc_column c) = Some v" using view w assms(5,6) by (simp_all add: view_def moved_view_def)
  moreover have "prefix_key (take 24 v) = Some i" by (rule prefix_names_key [OF assms(7,8)])
  ultimately have "assertStoredKeyIdsKnown db' new \<noteq> Inr ()" using start_accepts [of db' new] assms(3,9) r' by blast
  moreover have "\<exists>st \<in> set stats. 0 < cs_unreadable st" by (rule envelopes_rows(3) [OF assms(1-5)])
  ultimately show ?thesis using assms(10) by (simp add: tool_verdict_of_def exit_code_def)
qed


section \<open>Runs of the tool\<close>

definition job_column :: ciphertext_column where
  "job_column = ENVELOPE_COLUMNS ! 2"

definition demo_job :: "string \<Rightarrow> stored_row" where
  "demo_job v = \<lparr>sr_key = ''7'', sr_cols = [''command'' \<mapsto> v, ''commandEncoding'' \<mapsto> ''aes-gcm-v1'']\<rparr>"

definition demo_db :: "string \<Rightarrow> stored_db" where
  "demo_db v = (\<lambda>e. if e = ''midnight.BackgroundJobs'' then [demo_job v] else [])"

definition demo_rnd :: "string \<Rightarrow> string \<Rightarrow> entropy" where
  "demo_rnd t k = demo_entropy"

definition demo_run :: "string \<Rightarrow> column_stats list result \<times> stored_db" where
  "demo_run v = rewrap_envelopes (demo_crypto []) demo_rnd (demo_ring ''k2'') False None ''now'' (demo_db v)"

lemma job_column_in [simp]: "job_column \<in> set ENVELOPE_COLUMNS"
  by (simp add: job_column_def ENVELOPE_COLUMNS_def)

lemma job_column_parts [simp]:
  "cc_entity job_column = ''midnight.BackgroundJobs''" "cc_column job_column = ''command''" "cc_plainPrefix job_column = None"
  "cc_where job_column = [(''commandEncoding'', ''aes-gcm-v1'')]" "cc_binding job_column (demo_job v) = jobCommandBinding ''7''"
  by (simp_all add: job_column_def ENVELOPE_COLUMNS_def demo_job_def)

lemma demo_job_parts [simp]: "where_holds job_column (demo_job v)" "sr_cols (demo_job v) ''command'' = Some v" "sr_key (demo_job v) = ''7''"
  by (simp_all add: where_holds_def demo_job_def)

lemma demo_db_parts [simp]: "demo_db v ''midnight.BackgroundJobs'' = [demo_job v]" "distinct (map sr_key (demo_db v e))"
  by (simp_all add: demo_db_def)

lemma column_empty: "db (cc_entity c) = [] \<Longrightarrow> rewrap_column lib rnd ring dry n nw c db = (Inr (no_stats c), db)"
  by (simp add: rewrap_column_def rewrap_pages.simps page_def fun_upd_idem)

lemma demo_job_column:
  "rewrap_rows lib rnd ring job_column [demo_job v] (no_stats job_column, []) = Inr (st, us) \<Longrightarrow>
   rewrap_column lib rnd ring False 200 nw job_column (demo_db v)
     = (Inr (st\<lparr>cs_rewrapped := cs_rewrapped st + length us\<rparr>), (demo_db v)(''midnight.BackgroundJobs'' := apply_updates nw job_column us [demo_job v]))"
  by (auto simp: rewrap_column_def rewrap_pages.simps page_def behind_def apply_updates_def Let_def simp del: rewrap_rows.simps)

lemma demo_db_accepted:
  assumes "inspectCiphertext v = Inr (3, ''k1'')"
  shows "assertStoredKeyIdsKnown (demo_db v) (demo_ring a) = Inr ()"
proof -
  have p: "prefix_key (take 24 v) = Some ''k1''" using prefix_names_key [OF assms] by simp
  have "ring_has (demo_ring a) i" if c: "c \<in> set ENVELOPE_COLUMNS" and r: "r \<in> set (demo_db v (cc_entity c))"
    and v': "sr_cols r (cc_column c) = Some v'" and i: "prefix_key (take 24 v') = Some i" for c r v' i
  proof -
    have e: "cc_entity c = ''midnight.BackgroundJobs''" and "r = demo_job v" using r by (auto simp: demo_db_def split: if_splits)
    moreover have "cc_column c = ''command''" using c e by (auto simp: ENVELOPE_COLUMNS_def)
    ultimately have "v' = v" using v' by simp
    then show ?thesis using i p by (simp add: ring_has_def demo_ring_def)
  qed
  then show ?thesis unfolding start_accepts by blast
qed

lemma demo_runs:
  assumes "inspectCiphertext v = Inr (3, ''k1'')"
    and "rewrap_column (demo_crypto []) demo_rnd (demo_ring ''k2'') False 200 ''now'' job_column (demo_db v) = (Inr st, db')"
    and "\<And>e. e \<noteq> ''midnight.BackgroundJobs'' \<Longrightarrow> db' e = []"
  shows "demo_run v = (Inr (map no_stats (take 2 ENVELOPE_COLUMNS) @ [st] @ map no_stats (drop 3 ENVELOPE_COLUMNS)), db')"
proof -
  have e: "ENVELOPE_COLUMNS = take 2 ENVELOPE_COLUMNS @ [job_column] @ drop 3 ENVELOPE_COLUMNS" by (simp add: ENVELOPE_COLUMNS_def job_column_def)
  have skip: "rewrap_columns lib rnd ring False n nw (cs @ ds) acc db = rewrap_columns lib rnd ring False n nw ds (acc @ map no_stats cs) db"
    if "\<forall>c \<in> set cs. db (cc_entity c) = []" for lib rnd ring n nw cs ds acc db
    using that by (induction cs arbitrary: acc) (simp_all add: column_empty)
  have f: "\<forall>c \<in> set (take 2 ENVELOPE_COLUMNS). demo_db v (cc_entity c) = []" by (simp add: ENVELOPE_COLUMNS_def demo_db_def)
  have l: "\<forall>c \<in> set (drop 3 ENVELOPE_COLUMNS). db' (cc_entity c) = []" by (simp add: ENVELOPE_COLUMNS_def assms(3))
  have "demo_run v = rewrap_columns (demo_crypto []) demo_rnd (demo_ring ''k2'') False 200 ''now'' ENVELOPE_COLUMNS [] (demo_db v)"
    by (simp add: demo_run_def rewrap_envelopes_def demo_db_accepted [OF assms(1)])
  also have "\<dots> = (Inr (map no_stats (take 2 ENVELOPE_COLUMNS) @ [st] @ map no_stats (drop 3 ENVELOPE_COLUMNS)), db')"
    by (subst e) (simp add: skip [OF f] assms(2) skip [OF l, of _ _ _ _ _ "[]", simplified])
  finally show ?thesis .
qed


definition demo_value :: "string \<Rightarrow> string" where
  "demo_value i = sealed (demo_crypto []) demo_entropy ''seed'' i (if i = ''k1'' then replicate 32 1 else replicate 32 2) (Some (jobCommandBinding ''7''))"

lemma demo_facts:
  "KEY_ID_PATTERN ''k2''" "assertBinding (jobCommandBinding ''7'') = Inr ()" "well_formed_text ''seed''"
  "inspectCiphertext (demo_value ''k1'') = Inr (3, ''k1'')"
  "decrypt (demo_crypto []) a al (demo_value ''k1'') (Ring (demo_ring ''k2'')) (Some (jobCommandBinding ''7'')) = Inr ''seed''"
  "encrypt (demo_crypto []) demo_entropy ''seed'' (Ring (demo_ring ''k2'')) (Some (jobCommandBinding ''7'')) = Inr (demo_value ''k2'')"
  "demo_value ''k1'' \<noteq> []"
proof -
  show b: "assertBinding (jobCommandBinding ''7'') = Inr ()" by code_simp
  show "KEY_ID_PATTERN ''k2''" by code_simp
  show w: "well_formed_text ''seed''" by (rule ascii_well_formed) simp
  have l: "length (replicate 32 1 :: octets) = KEK_LENGTH" by simp
  show "inspectCiphertext (demo_value ''k1'') = Inr (3, ''k1'')"
    using sealed_names_key [OF demo_opens demo_fresh demo_k1(1) l] by (simp add: demo_value_def)
  have k: "map_of (kr_keks (demo_ring ''k2'')) ''k1'' = Some (replicate 32 1)" by (simp add: demo_ring_def)
  show "decrypt (demo_crypto []) a al (demo_value ''k1'') (Ring (demo_ring ''k2'')) (Some (jobCommandBinding ''7'')) = Inr ''seed''"
    using sealed_opens [OF demo_opens demo_fresh demo_k1(1) l w k, of "Some (jobCommandBinding ''7'')" "[]"] b by (simp add: demo_value_def)
  show "encrypt (demo_crypto []) demo_entropy ''seed'' (Ring (demo_ring ''k2'')) (Some (jobCommandBinding ''7'')) = Inr (demo_value ''k2'')"
    using b by (simp add: encrypt_def asRing_def check_then_def demo_ring_def ring_kek_def Let_def demo_value_def sealed_def bound_data_def envelope_version_def)
  show "demo_value ''k1'' \<noteq> []" by (simp add: demo_value_def sealed_def envelope_text_def)
qed

lemma demo_moved: "rewrap_row (demo_crypto []) demo_rnd (demo_ring ''k2'') job_column (demo_job (demo_value ''k1'')) = Moved ''k1'' (demo_value ''k2'')"
  using demo_facts by (simp add: rewrap_row_def Let_def demo_rnd_def) (simp add: demo_ring_def)

lemma demo_active: "active_key (demo_ring ''k2'') (replicate 32 2)"
  using demo_facts(1) by (simp add: active_key_def demo_ring_def)

lemma demo_run_moves: "isInr (fst (demo_run (demo_value ''k1'')))" "list_all (\<lambda>st. cs_unreadable st = 0) (projr (fst (demo_run (demo_value ''k1''))))"
proof -
  have rows: "rewrap_rows (demo_crypto []) demo_rnd (demo_ring ''k2'') job_column [demo_job (demo_value ''k1'')] (no_stats job_column, [])
    = Inr ((no_stats job_column)\<lparr>cs_scanned := 1, cs_bySourceKey := [(''k1'', 1)]\<rparr>, [(''7'', demo_value ''k2'')])"
    by (simp add: demo_moved no_stats_def count_source_def)
  note run = demo_runs [OF demo_facts(4) demo_job_column [OF rows]]
  have "demo_run (demo_value ''k1'') = (Inr (map no_stats (take 2 ENVELOPE_COLUMNS)
      @ [(no_stats job_column)\<lparr>cs_scanned := 1, cs_bySourceKey := [(''k1'', 1)], cs_rewrapped := 1\<rparr>] @ map no_stats (drop 3 ENVELOPE_COLUMNS)),
      (demo_db (demo_value ''k1''))(''midnight.BackgroundJobs'' := apply_updates ''now'' job_column [(''7'', demo_value ''k2'')] [demo_job (demo_value ''k1'')]))"
    by (subst run) (simp_all add: demo_db_def no_stats_def)
  then show "isInr (fst (demo_run (demo_value ''k1'')))" "list_all (\<lambda>st. cs_unreadable st = 0) (projr (fst (demo_run (demo_value ''k1''))))"
    by (simp, auto simp: no_stats_def list_all_iff)
qed

lemma demo_run_result:
  "rewrap_envelopes (demo_crypto []) demo_rnd (demo_ring ''k2'') False None ''now'' (demo_db (demo_value ''k1''))
     = (Inr (projr (fst (demo_run (demo_value ''k1'')))), snd (demo_run (demo_value ''k1'')))"
  using isInr_value [OF demo_run_moves(1)] by (simp add: demo_run_def prod_eq_iff)

lemma demo_rnd_fresh: "\<forall>t k. fresh_bytes (demo_rnd t k)"
  by (simp add: demo_rnd_def demo_fresh)

definition only_k2 :: key_ring where
  "only_k2 = \<lparr>kr_activeId = ''k2'', kr_keks = [(''k2'', replicate 32 2)], kr_legacyKeys = [], kr_spec = None\<rparr>"

theorem rewrap_keeps_values_witness:
  "\<exists>r' \<in> set (snd (demo_run (demo_value ''k1'')) (cc_entity job_column)). sr_key r' = ''7''
    \<and> (\<exists>v'. sr_cols r' ''command'' = Some v' \<and> decrypt (demo_crypto []) False False v' (Ring only_k2) (Some (jobCommandBinding ''7'')) = Inr ''seed'')"
proof -
  have "map_of (kr_keks only_k2) (kr_activeId (demo_ring ''k2'')) = Some (replicate 32 2)" by (simp add: only_k2_def demo_ring_def)
  from rewrap_keeps_values [OF demo_opens demo_rnd_fresh demo_active this demo_run_result _ job_column_in, of "demo_job (demo_value ''k1'')" "demo_value ''k1''" "''seed''"]
  have "\<exists>r' \<in> set (snd (demo_run (demo_value ''k1'')) (cc_entity job_column)). sr_key r' = ''7'' \<and> cc_binding job_column r' = jobCommandBinding ''7''
    \<and> (\<exists>v'. sr_cols r' ''command'' = Some v' \<and> decrypt (demo_crypto []) False False v' (Ring only_k2) (Some (jobCommandBinding ''7'')) = Inr ''seed'')"
    using demo_facts(3,5,7) by simp
  then show ?thesis by blast
qed

theorem old_key_may_leave_witness: "assertStoredKeyIdsKnown (snd (demo_run (demo_value ''k1''))) only_k2 = Inr ()"
  using old_key_may_leave [OF demo_opens demo_rnd_fresh demo_active demo_run_result _ demo_run_moves(2), of only_k2]
  by (simp add: only_k2_def demo_ring_def ring_has_def)


definition spoilt :: string where
  "spoilt = ''v3:k1:x:x:x:x''"

lemma spoilt_parts: "split_at_char (CHR '':'') spoilt = [''v3'', ''k1'', ''x'', ''x'', ''x'', ''x'']"
  by (simp add: spoilt_def)

lemma spoilt_names: "inspectCiphertext spoilt = Inr (3, ''k1'')"
  using demo_k1(1) by (simp add: inspectCiphertext_def spoilt_parts BOUND_ENVELOPE_VERSION_def ENVELOPE_VERSION_def)

lemma spoilt_unreadable: "rewrap_row lib demo_rnd (demo_ring ''k2'') job_column (demo_job spoilt) = Unreadable"
proof -
  have "unbase64 ''x'' = []" by (simp add: unbase64_def map_filter_simps b64_digit_def)
  then have "\<exists>e. decrypt lib a al spoilt (Ring (demo_ring ''k2'')) (Some b) = Inl e \<and> err_code e = []" for a al b
    by (simp add: decrypt_def asRing_def check_then_def spoilt_names spoilt_parts decrypt_wrapped_def require_def js_Error_def)
  then obtain e where e: "decrypt lib False True spoilt (Ring (demo_ring ''k2'')) (Some (jobCommandBinding ''7'')) = Inl e" "err_code e = []" by blast
  have "spoilt \<noteq> []" by (simp add: spoilt_def)
  then show ?thesis using e by (simp add: rewrap_row_def Let_def spoilt_names) (simp add: demo_ring_def)
qed

lemma spoilt_run:
  "rewrap_envelopes (demo_crypto []) demo_rnd (demo_ring ''k2'') False None ''now'' (demo_db spoilt)
     = (Inr (map no_stats (take 2 ENVELOPE_COLUMNS) @ [(no_stats job_column)\<lparr>cs_scanned := 1, cs_unreadable := 1\<rparr>] @ map no_stats (drop 3 ENVELOPE_COLUMNS)),
        demo_db spoilt)"
proof -
  have rows: "rewrap_rows (demo_crypto []) demo_rnd (demo_ring ''k2'') job_column [demo_job spoilt] (no_stats job_column, [])
    = Inr ((no_stats job_column)\<lparr>cs_scanned := 1, cs_unreadable := 1\<rparr>, [])"
    by (simp add: spoilt_unreadable no_stats_def)
  have "(demo_db spoilt)(''midnight.BackgroundJobs'' := apply_updates ''now'' job_column [] [demo_job spoilt]) = demo_db spoilt"
    by (simp add: apply_updates_def fun_upd_idem)
  then show ?thesis
    using demo_runs [OF spoilt_names demo_job_column [OF rows]] by (simp add: demo_run_def demo_db_def no_stats_def)
qed

theorem verdict_ignores_unreadable_witness:
  "tool_verdict_of \<lparr>rr_dryRun = False, rr_envelope = projr (fst (demo_run spoilt)), rr_legacy = countLegacyRows (demo_db spoilt), rr_migratable = []\<rparr> = KeyMayLeave
    \<and> assertStoredKeyIdsKnown (demo_db spoilt) only_k2 \<noteq> Inr ()"
proof -
  have "lc_total (countLegacyRows (demo_db spoilt)) = 0"
    by (simp add: countLegacyRows_def DEK_TABLES_def legacy_ids_def demo_db_def map_filter_simps)
  then show ?thesis
    using verdict_ignores_unreadable [OF spoilt_run _ job_column_in _ spoilt_unreadable _ spoilt_names, of only_k2 "[]"]
    by (simp add: only_k2_def ring_has_def demo_run_def spoilt_run)
qed

end
