(* ===== verification/Account_Keys.thy ===== *)
theory Account_Keys
  imports Rewrap
begin

text \<open>
  The data key of an account and what is stored under it: the format of stored blobs
  (\<^verbatim>\<open>srv/utils/storage-encryption.ts\<close>), the two seals of the key, its lookup with cache, shared lookups and
  eviction (\<^verbatim>\<open>srv/submission/account-keys.ts\<close>), and the passwords derived from a viewing key
  (\<^verbatim>\<open>srv/submission/wallet-material-factory.ts\<close>).

  PBKDF2, HMAC and the cipher of the runtime are arguments, as are its random bytes. Wiping a buffer in memory is not
  modelled.
\<close>

section \<open>Stored blobs\<close>

record storage_lib =
  sl_crypto :: crypto_lib
  sl_pbkdf2 :: "string \<Rightarrow> octets \<Rightarrow> octets"
  sl_hmac :: "string \<Rightarrow> string \<Rightarrow> octets"

definition SALT_LENGTH :: nat where "SALT_LENGTH = 32"
definition CURRENT_ENCRYPTION_VERSION :: nat where "CURRENT_ENCRYPTION_VERSION = 2"
definition HEADER_LENGTH :: nat where "HEADER_LENGTH = 1 + SALT_LENGTH + IV_LENGTH + AUTH_TAG_LENGTH"

record storage_encryption =
  se_salt :: octets
  se_key :: octets
  se_cleared :: bool

definition new_StorageEncryption :: "storage_lib \<Rightarrow> string \<Rightarrow> octets \<Rightarrow> storage_encryption" where
  "new_StorageEncryption lib password salt = \<lparr>se_salt = salt, se_key = sl_pbkdf2 lib password salt, se_cleared = False\<rparr>"

definition se_clear :: "storage_encryption \<Rightarrow> storage_encryption" where
  "se_clear e = e\<lparr>se_key := replicate (length (se_key e)) 0, se_cleared := True\<rparr>"

definition assertUsable :: "storage_encryption \<Rightarrow> unit result" where
  "assertUsable e = require (\<not> se_cleared e) (js_Error ''StorageEncryption: key has been cleared'')"

definition se_encrypt :: "storage_lib \<Rightarrow> octets \<Rightarrow> storage_encryption \<Rightarrow> string \<Rightarrow> string result" where
  "se_encrypt lib iv e text_in =
     check_then (assertUsable e) (\<lambda>_.
       case cl_seal (sl_crypto lib) (se_key e) iv [] (utf8_bytes text_in) of
         (data, tg) \<Rightarrow> Inr (base64 (CURRENT_ENCRYPTION_VERSION # se_salt e @ iv @ tg @ data)))"

record encrypted_components =
  ec_salt :: octets
  ec_iv :: octets
  ec_authTag :: octets
  ec_encrypted :: octets

definition extractEncryptedComponents :: "octets \<Rightarrow> encrypted_components result" where
  "extractEncryptedComponents data =
     (if length data < HEADER_LENGTH then Inl (js_Error ''Invalid encrypted data: too short'')
      else if data ! 0 \<noteq> CURRENT_ENCRYPTION_VERSION then Inl (js_Error (''Unsupported encryption version: '' @ nat_str (data ! 0)))
      else Inr \<lparr>ec_salt = take SALT_LENGTH (drop 1 data), ec_iv = take IV_LENGTH (drop (1 + SALT_LENGTH) data),
                ec_authTag = take AUTH_TAG_LENGTH (drop (1 + SALT_LENGTH + IV_LENGTH) data), ec_encrypted = drop HEADER_LENGTH data\<rparr>)"

definition decryptComponents :: "storage_lib \<Rightarrow> encrypted_components \<Rightarrow> octets \<Rightarrow> string result" where
  "decryptComponents lib c key =
     (case cl_open (sl_crypto lib) key (ec_iv c) [] (ec_authTag c) (ec_encrypted c) of
        None \<Rightarrow> Inl (js_Error ''Unsupported state or unable to authenticate data'')
      | Some p \<Rightarrow> Inr (utf8_text p))"

definition se_decrypt :: "storage_lib \<Rightarrow> storage_encryption \<Rightarrow> string \<Rightarrow> string result" where
  "se_decrypt lib e blob =
     check_then (assertUsable e) (\<lambda>_.
     check_then (extractEncryptedComponents (unbase64 blob)) (\<lambda>c.
       if se_salt e \<noteq> ec_salt c then Inl (js_Error ''Salt mismatch: data was encrypted with a different password/salt'')
       else decryptComponents lib c (se_key e)))"

definition decryptWithPassword :: "storage_lib \<Rightarrow> string \<Rightarrow> string \<Rightarrow> string result" where
  "decryptWithPassword lib blob password =
     check_then (extractEncryptedComponents (unbase64 blob)) (\<lambda>c. decryptComponents lib c (sl_pbkdf2 lib password (ec_salt c)))"

text \<open>The salt a stored blob carries, none when it is no blob.\<close>

definition saltOf :: "string \<Rightarrow> octets option" where
  "saltOf blob = (case extractEncryptedComponents (unbase64 blob) of Inr c \<Rightarrow> Some (ec_salt c) | Inl _ \<Rightarrow> None)"

section \<open>What derives from a viewing key\<close>

definition deriveAccountId :: "storage_lib \<Rightarrow> string \<Rightarrow> string" where
  "deriveAccountId lib viewingKey = hex_text (sl_hmac lib ''nightgate-account-id-v1'' viewingKey)"

definition deriveStoragePassword :: "storage_lib \<Rightarrow> string \<Rightarrow> string" where
  "deriveStoragePassword lib viewingKey = hex_text (sl_hmac lib ''nightgate-private-state-password-v1'' viewingKey)"

definition derivePrivateStatePassword :: "storage_lib \<Rightarrow> key_ring \<Rightarrow> string \<Rightarrow> string \<Rightarrow> string result" where
  "derivePrivateStatePassword lib ring keyId viewingKey =
     check_then (deriveBoundSecret (sl_crypto lib) ring keyId (deriveStoragePassword lib viewingKey) ''nightgate/private-state/v2'')
       (\<lambda>b. Inr (hex_text b))"

definition ring_ids :: "key_ring \<Rightarrow> string list" where
  "ring_ids ring = map fst (kr_keks ring)"

definition active_first :: "key_ring \<Rightarrow> string list" where
  "active_first ring = kr_activeId ring # filter (\<lambda>i. i \<noteq> kr_activeId ring) (ring_ids ring)"

fun collect :: "('a \<Rightarrow> 'b result) \<Rightarrow> 'a list \<Rightarrow> 'b list result" where
  "collect f [] = Inr []"
| "collect f (x # xs) = check_then (f x) (\<lambda>y. check_then (collect f xs) (\<lambda>ys. Inr (y # ys)))"

definition privateStatePasswordCandidates :: "storage_lib \<Rightarrow> key_ring \<Rightarrow> string \<Rightarrow> string list result" where
  "privateStatePasswordCandidates lib ring viewingKey =
     check_then (collect (\<lambda>i. derivePrivateStatePassword lib ring i viewingKey) (active_first ring)) (\<lambda>ps.
       Inr (ps @ [deriveStoragePassword lib viewingKey]))"

section \<open>The seals of an account's key\<close>

definition VK_SEAL_VERSION :: string where "VK_SEAL_VERSION = ''vk1''"

definition vkSealKey :: "storage_lib \<Rightarrow> string \<Rightarrow> octets" where
  "vkSealKey lib storagePassword =
     cl_hkdf (sl_crypto lib) (utf8_bytes storagePassword) ''nightgate-account-dek'' ''nightgate/account-dek/vk-seal/v1'' 32"

definition sealDekByStoragePassword :: "storage_lib \<Rightarrow> octets \<Rightarrow> octets \<Rightarrow> string \<Rightarrow> string" where
  "sealDekByStoragePassword lib iv dek storagePassword =
     (case cl_seal (sl_crypto lib) (vkSealKey lib storagePassword) iv (utf8_bytes VK_SEAL_VERSION) dek of
        (data, tg) \<Rightarrow> join '':'' [VK_SEAL_VERSION, base64 iv, base64 tg, base64 data])"

definition checked_dek :: "octets \<Rightarrow> octets result" where
  "checked_dek dek = (if length dek \<noteq> DEK_LENGTH then Inl (js_Error (''Invalid account key length: '' @ nat_str (length dek))) else Inr dek)"

definition openDekByStoragePassword :: "storage_lib \<Rightarrow> string \<Rightarrow> string \<Rightarrow> octets result" where
  "openDekByStoragePassword lib stored storagePassword =
     (let parts = split_at_char (CHR '':'') stored in
      if length parts \<noteq> 4 \<or> parts ! 0 \<noteq> VK_SEAL_VERSION then Inl (js_Error ''Invalid account key seal: expected vk1:iv:tag:data'')
      else if unbase64 (parts ! 1) = [] then Inl (js_Error ''Invalid initialization vector'')
      else if length (unbase64 (parts ! 2)) \<noteq> AUTH_TAG_LENGTH
      then Inl (js_Error (''Invalid authentication tag length: '' @ nat_str (length (unbase64 (parts ! 2)))))
      else case cl_open (sl_crypto lib) (vkSealKey lib storagePassword) (unbase64 (parts ! 1)) (utf8_bytes VK_SEAL_VERSION)
                  (unbase64 (parts ! 2)) (unbase64 (parts ! 3)) of
             None \<Rightarrow> Inl (js_Error ''Unsupported state or unable to authenticate data'')
           | Some dek \<Rightarrow> checked_dek dek)"

definition isBareViewingKeySeal :: "string \<Rightarrow> bool" where
  "isBareViewingKeySeal stored \<longleftrightarrow> startsWith stored (VK_SEAL_VERSION @ '':'')"

definition sealDekByViewingKey :: "storage_lib \<Rightarrow> entropy \<Rightarrow> octets \<Rightarrow> octets \<Rightarrow> string \<Rightarrow> key_ring \<Rightarrow> string \<Rightarrow> string result" where
  "sealDekByViewingKey lib rnd iv dek storagePassword ring accountId =
     encrypt (sl_crypto lib) rnd (sealDekByStoragePassword lib iv dek storagePassword) (Ring ring) (Some (accountDekViewingKeySealBinding accountId))"

definition openDekByViewingKey :: "storage_lib \<Rightarrow> bool \<Rightarrow> string \<Rightarrow> string \<Rightarrow> key_ring \<Rightarrow> string \<Rightarrow> octets result" where
  "openDekByViewingKey lib accept stored storagePassword ring accountId =
     check_then (if isBareViewingKeySeal stored then Inr stored
                 else decrypt (sl_crypto lib) accept False stored (Ring ring) (Some (accountDekViewingKeySealBinding accountId)))
       (\<lambda>inner. openDekByStoragePassword lib inner storagePassword)"

text \<open>\<^verbatim>\<open>Buffer.from(text, 'hex')\<close>: pairs of digits up to the first that is none.\<close>

definition hex_value :: "char \<Rightarrow> nat option" where
  "hex_value c =
     (let n = of_char c :: nat in
      if 48 \<le> n \<and> n \<le> 57 then Some (n - 48)
      else if 97 \<le> n \<and> n \<le> 102 then Some (n - 87)
      else if 65 \<le> n \<and> n \<le> 70 then Some (n - 55) else None)"

fun unhex :: "string \<Rightarrow> octets" where
  "unhex (a # b # cs) = (case (hex_value a, hex_value b) of (Some x, Some y) \<Rightarrow> (x * 16 + y) # unhex cs | _ \<Rightarrow> [])"
| "unhex cs = []"

definition wrapDek :: "storage_lib \<Rightarrow> entropy \<Rightarrow> octets \<Rightarrow> key_ring \<Rightarrow> string \<Rightarrow> string result" where
  "wrapDek lib rnd dek ring accountId = encrypt (sl_crypto lib) rnd (hex_text dek) (Ring ring) (Some (accountDekBinding accountId))"

definition unwrapDek :: "storage_lib \<Rightarrow> bool \<Rightarrow> string \<Rightarrow> key_ring \<Rightarrow> string \<Rightarrow> octets result" where
  "unwrapDek lib accept wrapped ring accountId =
     check_then (decrypt (sl_crypto lib) accept False wrapped (Ring ring) (Some (accountDekBinding accountId))) (\<lambda>h. checked_dek (unhex h))"

definition dekPassword :: "storage_lib \<Rightarrow> octets \<Rightarrow> string \<Rightarrow> string \<Rightarrow> string" where
  "dekPassword lib dek accountId info = hex_text (cl_hkdf (sl_crypto lib) dek accountId info 32)"

definition privateStatePasswordFromDek :: "storage_lib \<Rightarrow> octets \<Rightarrow> string \<Rightarrow> string" where
  "privateStatePasswordFromDek lib dek accountId = dekPassword lib dek accountId ''nightgate/private-state/dek/v1''"

definition syncStatePassphraseFromDek :: "storage_lib \<Rightarrow> octets \<Rightarrow> string \<Rightarrow> string" where
  "syncStatePassphraseFromDek lib dek accountId = dekPassword lib dek accountId ''nightgate/sync-state/dek/v1''"

definition DEK_SCHEME :: string where "DEK_SCHEME = ''dek1''"


section \<open>The stored key of an account\<close>

record account_key_row =
  ak_accountId :: string
  ak_wrappedDek :: string
  ak_byViewingKey :: string
  ak_rotatedAt :: "string option"

record resolve_args =
  ra_accountId :: string
  ra_storagePassword :: "string option"
  ra_create :: bool
  ra_readOnly :: bool

definition AccountDekUnavailableError :: "string \<Rightarrow> string \<Rightarrow> js_error" where
  "AccountDekUnavailableError accountId reason =
     \<lparr>err_code = ''ACCOUNT_KEY_UNAVAILABLE'', err_message = ''account key for '' @ take 16 accountId @ '' cannot be opened: '' @ reason\<rparr>"

definition is_unknown :: "js_error \<Rightarrow> bool" where
  "is_unknown e \<longleftrightarrow> err_code e = ''ENCRYPTION_KEY_UNKNOWN''"

definition is_unbound :: "envelope_binding \<Rightarrow> js_error \<Rightarrow> bool" where
  "is_unbound b e \<longleftrightarrow> e = UnboundEnvelopeError (eb_purpose b)"

text \<open>The fresh bytes of one lookup: for the seal under the ring, for the one under the viewing key, and for a new key.\<close>

record key_entropy =
  ke_wrap :: entropy
  ke_vk :: entropy
  ke_iv :: octets
  ke_dek :: octets
  ke_now :: string

text \<open>What the two copies of a stored key say: the key, whether the viewing key opens it, and whose ring key is missing.\<close>

record opened_row =
  op_dek :: "octets option"
  op_ringError :: "js_error option"
  op_vkOpens :: "bool option"
  op_vkUnknown :: bool

definition open_by_ring :: "storage_lib \<Rightarrow> bool \<Rightarrow> key_ring \<Rightarrow> account_key_row \<Rightarrow> opened_row result" where
  "open_by_ring lib accept ring row =
     (case unwrapDek lib accept (ak_wrappedDek row) ring (ak_accountId row) of
        Inr d \<Rightarrow> Inr \<lparr>op_dek = Some d, op_ringError = None, op_vkOpens = None, op_vkUnknown = False\<rparr>
      | Inl e \<Rightarrow> if is_unbound (accountDekBinding (ak_accountId row)) e then Inl e
                 else Inr \<lparr>op_dek = None, op_ringError = Some e, op_vkOpens = None, op_vkUnknown = False\<rparr>)"

definition open_by_viewing_key :: "storage_lib \<Rightarrow> bool \<Rightarrow> key_ring \<Rightarrow> string option \<Rightarrow> account_key_row \<Rightarrow> opened_row \<Rightarrow> opened_row result" where
  "open_by_viewing_key lib accept ring password row op =
     (if \<not> filled password \<or> ak_byViewingKey row = [] then Inr op
      else case openDekByViewingKey lib accept (ak_byViewingKey row) (the password) ring (ak_accountId row) of
             Inr viaVk \<Rightarrow> Inr (op\<lparr>op_vkOpens := Some (case op_dek op of None \<Rightarrow> True | Some d \<Rightarrow> viaVk = d),
                                  op_dek := Some (case op_dek op of None \<Rightarrow> viaVk | Some d \<Rightarrow> d)\<rparr>)
           | Inl e \<Rightarrow> if is_unbound (accountDekViewingKeySealBinding (ak_accountId row)) e then Inl e
                      else if is_unknown e then Inr (op\<lparr>op_vkUnknown := True\<rparr>) else Inr (op\<lparr>op_vkOpens := Some False\<rparr>))"

definition named_key :: "string \<Rightarrow> string" where
  "named_key v = (case inspectCiphertext v of Inr (n, i) \<Rightarrow> i | Inl _ \<Rightarrow> [])"

definition unavailable_reason :: "string option \<Rightarrow> account_key_row \<Rightarrow> opened_row \<Rightarrow> string" where
  "unavailable_reason password row op =
     (let sealed_under = (\<lambda>i. ''it is sealed under encryption key id '' @ quoted i @ '', which is not in the ring'') in
      if (case op_ringError op of Some e \<Rightarrow> is_unknown e | None \<Rightarrow> False) then sealed_under (named_key (ak_wrappedDek row))
      else if op_vkUnknown op then sealed_under (named_key (ak_byViewingKey row))
      else if filled password then ''neither the ring nor the viewing key opens it''
      else ''the ring does not open it and no viewing key is at hand'')"

definition opened_dek :: "string option \<Rightarrow> account_key_row \<Rightarrow> opened_row \<Rightarrow> octets result" where
  "opened_dek password row op =
     (case op_dek op of
        None \<Rightarrow> Inl (AccountDekUnavailableError (ak_accountId row) (unavailable_reason password row op))
      | Some d \<Rightarrow> if op_vkOpens op = Some False
                  then Inl (AccountDekUnavailableError (ak_accountId row) ''the viewing key does not match the account key'') else Inr d)"

text \<open>The columns a lookup rewrites, each only when it has to.\<close>

definition repair_ring_seal :: "storage_lib \<Rightarrow> key_entropy \<Rightarrow> key_ring \<Rightarrow> octets \<Rightarrow> account_key_row \<Rightarrow> opened_row \<Rightarrow> string option result" where
  "repair_ring_seal lib rnd ring dek row op =
     check_then (inspectCiphertext (ak_wrappedDek row)) (\<lambda>(version, keyId).
       if keyId \<noteq> kr_activeId ring \<or> version \<noteq> 3 \<or> op_ringError op \<noteq> None
       then check_then (wrapDek lib (ke_wrap rnd) dek ring (ak_accountId row)) (\<lambda>v. Inr (Some v)) else Inr None)"

definition repair_vk_seal :: "storage_lib \<Rightarrow> bool \<Rightarrow> key_entropy \<Rightarrow> key_ring \<Rightarrow> string option \<Rightarrow> octets \<Rightarrow> account_key_row \<Rightarrow> opened_row \<Rightarrow> string option result" where
  "repair_vk_seal lib accept rnd ring password dek row op =
     (let b = Some (accountDekViewingKeySealBinding (ak_accountId row)); stored = ak_byViewingKey row in
      if filled password \<and> stored = []
      then check_then (sealDekByViewingKey lib (ke_vk rnd) (ke_iv rnd) dek (the password) ring (ak_accountId row)) (\<lambda>v. Inr (Some v))
      else if stored \<noteq> [] \<and> isBareViewingKeySeal stored
      then check_then (encrypt (sl_crypto lib) (ke_vk rnd) stored (Ring ring) b) (\<lambda>v. Inr (Some v))
      else if stored \<noteq> [] \<and> \<not> op_vkUnknown op
      then check_then (inspectCiphertext stored) (\<lambda>(version, keyId).
             if keyId = kr_activeId ring then Inr None
             else check_then (decrypt (sl_crypto lib) accept False stored (Ring ring) b) (\<lambda>inner.
                  check_then (encrypt (sl_crypto lib) (ke_vk rnd) inner (Ring ring) b) (\<lambda>v. Inr (Some v))))
      else Inr None)"

record seal_patch =
  sp_wrappedDek :: "string option"
  sp_byViewingKey :: "string option"

definition read_row :: "storage_lib \<Rightarrow> bool \<Rightarrow> key_entropy \<Rightarrow> key_ring \<Rightarrow> resolve_args \<Rightarrow> account_key_row \<Rightarrow> (octets \<times> seal_patch) result" where
  "read_row lib accept rnd ring args row =
     check_then (open_by_ring lib accept ring row) (\<lambda>op0.
     check_then (open_by_viewing_key lib accept ring (ra_storagePassword args) row op0) (\<lambda>op.
     check_then (opened_dek (ra_storagePassword args) row op) (\<lambda>dek.
     check_then (repair_ring_seal lib rnd ring dek row op) (\<lambda>w.
     check_then (repair_vk_seal lib accept rnd ring (ra_storagePassword args) dek row op) (\<lambda>v.
     Inr (dek, \<lparr>sp_wrappedDek = w, sp_byViewingKey = v\<rparr>))))))"

definition patch_seals :: "string \<Rightarrow> seal_patch \<Rightarrow> account_key_row \<Rightarrow> account_key_row" where
  "patch_seals nw p r =
     r\<lparr>ak_wrappedDek := (case sp_wrappedDek p of Some v \<Rightarrow> v | None \<Rightarrow> ak_wrappedDek r),
       ak_byViewingKey := (case sp_byViewingKey p of Some v \<Rightarrow> v | None \<Rightarrow> ak_byViewingKey r), ak_rotatedAt := Some nw\<rparr>"

definition write_patch :: "string \<Rightarrow> resolve_args \<Rightarrow> seal_patch \<Rightarrow> account_key_row list \<Rightarrow> account_key_row list" where
  "write_patch nw args p rows =
     (if (sp_wrappedDek p \<noteq> None \<or> sp_byViewingKey p \<noteq> None) \<and> \<not> ra_readOnly args
      then map (\<lambda>r. if ak_accountId r = ra_accountId args then patch_seals nw p r else r) rows else rows)"

definition account_row :: "string \<Rightarrow> account_key_row list \<Rightarrow> account_key_row option" where
  "account_row a rows = find (\<lambda>r. ak_accountId r = a) rows"

definition fresh_row :: "storage_lib \<Rightarrow> key_entropy \<Rightarrow> key_ring \<Rightarrow> resolve_args \<Rightarrow> account_key_row result" where
  "fresh_row lib rnd ring args =
     check_then (wrapDek lib (ke_wrap rnd) (ke_dek rnd) ring (ra_accountId args)) (\<lambda>w.
     check_then (sealDekByViewingKey lib (ke_vk rnd) (ke_iv rnd) (ke_dek rnd) (the (ra_storagePassword args)) ring (ra_accountId args)) (\<lambda>v.
     Inr \<lparr>ak_accountId = ra_accountId args, ak_wrappedDek = w, ak_byViewingKey = v, ak_rotatedAt = None\<rparr>))"

section \<open>Lookups that run at the same time\<close>

text \<open>
  A lookup first reads the row and then, in a statement of its own, writes what has to be rewritten or inserts a new
  key; in between other lookups of the same and of other processes run. One process runs one lookup per account, which
  callers that come later join.
\<close>

record cached_dek =
  cd_dek :: octets
  cd_keyId :: string
  cd_passwordHash :: "string option"

record dek_lookup =
  lk_args :: resolve_args
  lk_read :: "account_key_row option option"
  lk_callers :: "(nat \<times> resolve_args) list"

record dek_process =
  dp_cache :: "string \<Rightarrow> cached_dek option"
  dp_inflight :: "string \<Rightarrow> nat option"
  dp_running :: "nat \<Rightarrow> dek_lookup option"
  dp_next :: nat

record dek_answer =
  da_caller :: nat
  da_args :: resolve_args
  da_result :: "octets option result"

record dek_world =
  dw_rows :: "account_key_row list"
  dw_procs :: "nat \<Rightarrow> dek_process"
  dw_answers :: "dek_answer list"

definition passwordHash :: "storage_lib \<Rightarrow> string \<Rightarrow> string" where
  "passwordHash lib pw = hex_text (cl_sha256 (sl_crypto lib) (utf8_bytes pw))"

definition cached_answer :: "storage_lib \<Rightarrow> resolve_args \<Rightarrow> cached_dek \<Rightarrow> octets option result" where
  "cached_answer lib args c =
     (if filled (ra_storagePassword args) \<and> filled (cd_passwordHash c) \<and> cd_passwordHash c \<noteq> map_option (passwordHash lib) (ra_storagePassword args)
      then Inl (AccountDekUnavailableError (ra_accountId args) ''the viewing key does not match the account key'') else Inr (Some (cd_dek c)))"

definition start_lookup :: "nat \<Rightarrow> resolve_args \<Rightarrow> dek_process \<Rightarrow> dek_process" where
  "start_lookup q args p =
     p\<lparr>dp_inflight := (dp_inflight p)(ra_accountId args \<mapsto> dp_next p),
       dp_running := (dp_running p)(dp_next p \<mapsto> \<lparr>lk_args = args, lk_read = None, lk_callers = [(q, args)]\<rparr>),
       dp_next := dp_next p + 1\<rparr>"

definition join_lookup :: "nat \<Rightarrow> resolve_args \<Rightarrow> nat \<Rightarrow> dek_process \<Rightarrow> dek_process" where
  "join_lookup q args t p =
     p\<lparr>dp_running := (dp_running p)(t := map_option (\<lambda>l. l\<lparr>lk_callers := lk_callers l @ [(q, args)]\<rparr>) (dp_running p t))\<rparr>"

definition with_process :: "nat \<Rightarrow> dek_process \<Rightarrow> dek_world \<Rightarrow> dek_world" where
  "with_process i p w = w\<lparr>dw_procs := (dw_procs w)(i := p)\<rparr>"

definition resolveAccountDek :: "storage_lib \<Rightarrow> key_ring \<Rightarrow> nat \<Rightarrow> nat \<Rightarrow> resolve_args \<Rightarrow> dek_world \<Rightarrow> dek_world" where
  "resolveAccountDek lib ring i q args w =
     (let p = dw_procs w i in
      case dp_cache p (ra_accountId args) of
        Some c \<Rightarrow>
          if cd_keyId c = kr_activeId ring
          then w\<lparr>dw_answers := dw_answers w @ [\<lparr>da_caller = q, da_args = args, da_result = cached_answer lib args c\<rparr>]\<rparr>
          else (case dp_inflight p (ra_accountId args) of
                  Some t \<Rightarrow> with_process i (join_lookup q args t p) w
                | None \<Rightarrow> with_process i (start_lookup q args p) w)
      | None \<Rightarrow>
          (case dp_inflight p (ra_accountId args) of
             Some t \<Rightarrow> with_process i (join_lookup q args t p) w
           | None \<Rightarrow> with_process i (start_lookup q args p) w))"

definition look :: "nat \<Rightarrow> nat \<Rightarrow> dek_world \<Rightarrow> dek_world" where
  "look i t w =
     (let p = dw_procs w i in
      with_process i (p\<lparr>dp_running := (dp_running p)(t := map_option
        (\<lambda>l. l\<lparr>lk_read := Some (account_row (ra_accountId (lk_args l)) (dw_rows w))\<rparr>) (dp_running p t))\<rparr>) w)"

definition storeDek :: "nat \<Rightarrow> string \<Rightarrow> cached_dek \<Rightarrow> dek_process \<Rightarrow> dek_process" where
  "storeDek t a entry p = (if dp_inflight p a \<noteq> Some t then p else p\<lparr>dp_cache := (dp_cache p)(a \<mapsto> entry)\<rparr>)"

definition end_lookup :: "nat \<Rightarrow> string \<Rightarrow> dek_process \<Rightarrow> dek_process" where
  "end_lookup t a p =
     p\<lparr>dp_inflight := (if dp_inflight p a = Some t then (dp_inflight p)(a := None) else dp_inflight p), dp_running := (dp_running p)(t := None)\<rparr>"

datatype lookup_end = Ended "octets option result" "account_key_row list" "cached_dek option" | ReadAgain

definition cache_entry :: "storage_lib \<Rightarrow> key_ring \<Rightarrow> resolve_args \<Rightarrow> octets \<Rightarrow> cached_dek" where
  "cache_entry lib ring args dek =
     \<lparr>cd_dek = dek, cd_keyId = kr_activeId ring,
      cd_passwordHash = (if filled (ra_storagePassword args) then map_option (passwordHash lib) (ra_storagePassword args) else None)\<rparr>"

definition unique_error :: js_error where
  "unique_error = js_Error ''UNIQUE constraint failed: midnight_AccountKeys.accountId''"

definition resolveUncached :: "storage_lib \<Rightarrow> bool \<Rightarrow> key_entropy \<Rightarrow> key_ring \<Rightarrow> resolve_args \<Rightarrow> account_key_row option \<Rightarrow> account_key_row list \<Rightarrow> lookup_end" where
  "resolveUncached lib accept rnd ring args read rows =
     (if (case read of Some r \<Rightarrow> ak_wrappedDek r \<noteq> [] | None \<Rightarrow> False)
      then (case read_row lib accept rnd ring args (the read) of
              Inl e \<Rightarrow> Ended (Inl e) rows None
            | Inr (dek, p) \<Rightarrow> Ended (Inr (Some dek)) (write_patch (ke_now rnd) args p rows) (Some (cache_entry lib ring args dek)))
      else if \<not> ra_create args \<or> \<not> filled (ra_storagePassword args) then Ended (Inr None) rows None
      else (case fresh_row lib rnd ring args of
              Inl e \<Rightarrow> (case account_row (ra_accountId args) rows of
                          Some r \<Rightarrow> if ak_wrappedDek r = [] then Ended (Inl e) rows None else ReadAgain
                        | None \<Rightarrow> Ended (Inl e) rows None)
            | Inr row \<Rightarrow>
                (case account_row (ra_accountId args) rows of
                   Some r \<Rightarrow> if ak_wrappedDek r = [] then Ended (Inl unique_error) rows None else ReadAgain
                 | None \<Rightarrow> Ended (Inr (Some (ke_dek rnd))) (rows @ [row]) (Some (cache_entry lib ring args (ke_dek rnd))))))"

definition answers_of :: "octets option result \<Rightarrow> dek_lookup \<Rightarrow> dek_answer list" where
  "answers_of res l = map (\<lambda>(q, args). \<lparr>da_caller = q, da_args = args, da_result = res\<rparr>) (lk_callers l)"

definition finish :: "storage_lib \<Rightarrow> bool \<Rightarrow> key_entropy \<Rightarrow> key_ring \<Rightarrow> nat \<Rightarrow> nat \<Rightarrow> dek_world \<Rightarrow> dek_world" where
  "finish lib accept rnd ring i t w =
     (let p = dw_procs w i in
      case dp_running p t of
        None \<Rightarrow> w
      | Some l \<Rightarrow>
          (case lk_read l of
             None \<Rightarrow> w
           | Some read \<Rightarrow>
               (case resolveUncached lib accept rnd ring (lk_args l) read (dw_rows w) of
                  ReadAgain \<Rightarrow> with_process i (p\<lparr>dp_running := (dp_running p)(t \<mapsto> l\<lparr>lk_read := None\<rparr>)\<rparr>) w
                | Ended res rows entry \<Rightarrow>
                    with_process i
                      (end_lookup t (ra_accountId (lk_args l))
                        (case entry of Some c \<Rightarrow> storeDek t (ra_accountId (lk_args l)) c p | None \<Rightarrow> p))
                      (w\<lparr>dw_rows := rows, dw_answers := dw_answers w @ answers_of res l\<rparr>))))"

definition evictAccountDek :: "string \<Rightarrow> dek_process \<Rightarrow> dek_process" where
  "evictAccountDek a p = p\<lparr>dp_cache := (dp_cache p)(a := None), dp_inflight := (dp_inflight p)(a := None)\<rparr>"

definition clearAllAccountDeks :: "dek_process \<Rightarrow> dek_process" where
  "clearAllAccountDeks p = p\<lparr>dp_cache := (\<lambda>a. None), dp_inflight := (\<lambda>a. None)\<rparr>"

definition accountDekKeyId :: "account_key_row \<Rightarrow> string option" where
  "accountDekKeyId row =
     (if ak_wrappedDek row = [] then None else case inspectCiphertext (ak_wrappedDek row) of Inr (n, i) \<Rightarrow> Some i | Inl _ \<Rightarrow> None)"

datatype dek_event = Ask nat nat resolve_args | Look nat nat | Finish nat nat key_entropy | Evict nat string | EvictAll nat

fun dek_step :: "storage_lib \<Rightarrow> bool \<Rightarrow> key_ring \<Rightarrow> dek_event \<Rightarrow> dek_world \<Rightarrow> dek_world" where
  "dek_step lib accept ring (Ask i q args) w = resolveAccountDek lib ring i q args w"
| "dek_step lib accept ring (Look i t) w = look i t w"
| "dek_step lib accept ring (Finish i t rnd) w = finish lib accept rnd ring i t w"
| "dek_step lib accept ring (Evict i a) w = with_process i (evictAccountDek a (dw_procs w i)) w"
| "dek_step lib accept ring (EvictAll i) w = with_process i (clearAllAccountDeks (dw_procs w i)) w"

definition dek_run :: "storage_lib \<Rightarrow> bool \<Rightarrow> key_ring \<Rightarrow> dek_event list \<Rightarrow> dek_world \<Rightarrow> dek_world" where
  "dek_run lib accept ring es w = fold (dek_step lib accept ring) es w"

end
