(* ===== verification/Account_Keys_Safety.thy ===== *)
theory Account_Keys_Safety
  imports Account_Keys Rewrap_Safety
begin

text \<open>
  An account has one data key: however lookups of several processes interleave, whoever inserts the key first, and
  whatever is rewritten, evicted and read again, every caller gets the same key, and the stored copies hold it.
\<close>

section \<open>Text of the seals\<close>

lemma hex_digits: "n < 16 \<Longrightarrow> hex_value (hex_digit n) = Some n \<and> (of_char (hex_digit n) :: nat) < 128"
proof -
  have "list_all (\<lambda>n. hex_value (hex_digit n) = Some n \<and> (of_char (hex_digit n) :: nat) < 128) [0..<16]"
    by (simp add: upt_rec hex_digit_def hex_value_def)
  then show "n < 16 \<Longrightarrow> hex_value (hex_digit n) = Some n \<and> (of_char (hex_digit n) :: nat) < 128" by (simp add: list_all_iff)
qed

lemma byte_digits: "b < 256 \<Longrightarrow> b div 16 < 16 \<and> b mod 16 < (16::nat)"
  by simp

lemma unhex_hex: "octets_ok bs \<Longrightarrow> unhex (hex_text bs) = bs"
proof (induction bs)
  case (Cons b bs)
  then show ?case using hex_digits [of "b div 16"] hex_digits [of "b mod 16"] byte_digits [of b] by (simp add: hex_text_def)
qed (simp add: hex_text_def)

lemma hex_ascii: "octets_ok bs \<Longrightarrow> list_all (\<lambda>c. (of_char c :: nat) < 128) (hex_text bs)"
proof (induction bs)
  case (Cons b bs)
  then show ?case using hex_digits [of "b div 16"] hex_digits [of "b mod 16"] byte_digits [of b] by (simp add: hex_text_def)
qed (simp add: hex_text_def)

definition ascii :: "string \<Rightarrow> bool" where
  "ascii s \<longleftrightarrow> list_all (\<lambda>c. (of_char c :: nat) < 128) s"

lemma ascii_append [simp]: "ascii (s @ t) \<longleftrightarrow> ascii s \<and> ascii t"
  by (simp add: ascii_def)

lemma ascii_Cons [simp]: "ascii (c # t) \<longleftrightarrow> (of_char c :: nat) < 128 \<and> ascii t" "ascii []"
  by (simp_all add: ascii_def)

lemma b64_char_ascii: "n < 64 \<Longrightarrow> (of_char (b64_char n) :: nat) < 128"
proof -
  have "ascii B64_ALPHABET" by (simp add: B64_ALPHABET_def)
  then show "n < 64 \<Longrightarrow> (of_char (b64_char n) :: nat) < 128" by (metis ascii_def b64_length list_all_length)
qed

lemma base64_ascii: "octets_ok bs \<Longrightarrow> ascii (base64 bs)"
proof (induction bs rule: base64.induct)
  case (2 a)
  then show ?case using b64_split [of a 0 0] by (simp add: b64_char_ascii)
next
  case (3 a b)
  then show ?case using b64_split [of a b 0] by (simp add: b64_char_ascii)
next
  case (4 a b c bs)
  then show ?case using b64_split [of a b c] by (simp add: b64_char_ascii)
qed simp

section \<open>What the copies of a key hold\<close>

text \<open>Whatever key and data a sealed value is opened with, it opens to what was sealed or not at all.\<close>

definition gcm_commits :: "crypto_lib \<Rightarrow> bool" where
  "gcm_commits lib \<longleftrightarrow>
     (\<forall>key iv a plain data tg key' a' q. cl_seal lib key iv a plain = (data, tg) \<and> cl_open lib key' iv a' tg data = Some q \<longrightarrow> q = plain)"

definition hkdf_length :: "crypto_lib \<Rightarrow> bool" where
  "hkdf_length lib \<longleftrightarrow> (\<forall>ikm salt info n. length (cl_hkdf lib ikm salt info n) = n)"

definition lib_ok :: "storage_lib \<Rightarrow> bool" where
  "lib_ok lib \<longleftrightarrow> gcm_opens (sl_crypto lib) \<and> gcm_commits (sl_crypto lib) \<and> hkdf_length (sl_crypto lib)"

definition fresh_keys :: "key_entropy \<Rightarrow> bool" where
  "fresh_keys rnd \<longleftrightarrow>
     fresh_bytes (ke_wrap rnd) \<and> fresh_bytes (ke_vk rnd) \<and> length (ke_iv rnd) = IV_LENGTH \<and> octets_ok (ke_iv rnd)
       \<and> length (ke_dek rnd) = DEK_LENGTH \<and> octets_ok (ke_dek rnd)"

definition dek_ok :: "octets \<Rightarrow> bool" where
  "dek_ok d \<longleftrightarrow> length d = DEK_LENGTH \<and> octets_ok d"

definition ring_holds :: "storage_lib \<Rightarrow> bool \<Rightarrow> key_ring \<Rightarrow> string \<Rightarrow> string \<Rightarrow> octets \<Rightarrow> bool" where
  "ring_holds lib accept ring a w d \<longleftrightarrow> (\<forall>d'. unwrapDek lib accept w ring a = Inr d' \<longrightarrow> d' = d)"

definition vk_inner :: "storage_lib \<Rightarrow> bool \<Rightarrow> key_ring \<Rightarrow> string \<Rightarrow> string \<Rightarrow> string result" where
  "vk_inner lib accept ring a v =
     (if isBareViewingKeySeal v then Inr v else decrypt (sl_crypto lib) accept False v (Ring ring) (Some (accountDekViewingKeySealBinding a)))"

definition inner_holds :: "storage_lib \<Rightarrow> string \<Rightarrow> octets \<Rightarrow> bool" where
  "inner_holds lib inner d \<longleftrightarrow> well_formed_text inner \<and> (\<forall>pw d'. openDekByStoragePassword lib inner pw = Inr d' \<longrightarrow> d' = d)"

definition vk_holds :: "storage_lib \<Rightarrow> bool \<Rightarrow> key_ring \<Rightarrow> string \<Rightarrow> string \<Rightarrow> octets \<Rightarrow> bool" where
  "vk_holds lib accept ring a v d \<longleftrightarrow> (\<forall>inner. vk_inner lib accept ring a v = Inr inner \<longrightarrow> inner_holds lib inner d)"

definition holds_key :: "storage_lib \<Rightarrow> bool \<Rightarrow> key_ring \<Rightarrow> account_key_row \<Rightarrow> octets \<Rightarrow> bool" where
  "holds_key lib accept ring r d \<longleftrightarrow>
     dek_ok d \<and> ring_holds lib accept ring (ak_accountId r) (ak_wrappedDek r) d
       \<and> vk_holds lib accept ring (ak_accountId r) (ak_byViewingKey r) d"

lemma open_by_vk: "openDekByViewingKey lib accept v pw ring a = check_then (vk_inner lib accept ring a v) (\<lambda>i. openDekByStoragePassword lib i pw)"
  by (simp add: openDekByViewingKey_def vk_inner_def)

lemma wrap_holds:
  assumes "lib_ok lib" "fresh_bytes ent" "active_key ring k" "dek_ok d" "wrapDek lib ent d ring a = Inr w"
  shows "ring_holds lib accept ring a w d"
proof -
  have o: "gcm_opens (sl_crypto lib)" and k: "map_of (kr_keks ring) (kr_activeId ring) = Some k"
    using assms(1,3) by (simp_all add: lib_ok_def active_key_def)
  have t: "well_formed_text (hex_text d)" using assms(4) by (simp add: dek_ok_def hex_ascii ascii_well_formed)
  have "decrypt (sl_crypto lib) accept False w (Ring ring) (Some (accountDekBinding a)) = Inr (hex_text d)"
    using moved_opens(1) [OF o assms(2,3) k _ t] assms(5) by (simp add: wrapDek_def)
  then show ?thesis using assms(4) by (simp add: ring_holds_def unwrapDek_def dek_ok_def unhex_hex checked_dek_def)
qed

lemma encrypted_not_bare:
  assumes "encrypt lib ent s (Ring ring) (Some b) = Inr v"
  shows "\<not> isBareViewingKeySeal v"
  using assms
  by (elim encrypt_sealed)
    (simp add: sealed_def envelope_text_def envelope_version_def BOUND_ENVELOPE_VERSION_def isBareViewingKeySeal_def VK_SEAL_VERSION_def)

lemma encrypted_inner:
  assumes "lib_ok lib" "fresh_bytes ent" "active_key ring k" "inner_holds lib inner d"
    and "encrypt (sl_crypto lib) ent inner (Ring ring) (Some (accountDekViewingKeySealBinding a)) = Inr v"
  shows "vk_holds lib accept ring a v d"
proof -
  have o: "gcm_opens (sl_crypto lib)" and k: "map_of (kr_keks ring) (kr_activeId ring) = Some k"
    using assms(1,3) by (simp_all add: lib_ok_def active_key_def)
  have t: "well_formed_text inner" using assms(4) by (simp add: inner_holds_def)
  have "vk_inner lib accept ring a v = Inr inner"
    using moved_opens(1) [OF o assms(2,3) k assms(5) t] encrypted_not_bare [OF assms(5)] by (simp add: vk_inner_def)
  then show ?thesis using assms(4) by (simp add: vk_holds_def)
qed

lemma vk_key_length: "lib_ok lib \<Longrightarrow> length (vkSealKey lib pw) = KEK_LENGTH"
  by (simp add: lib_ok_def hkdf_length_def vkSealKey_def)

lemma vk_seal_holds:
  assumes "lib_ok lib" "length iv = IV_LENGTH" "octets_ok iv" "dek_ok d"
  shows "inner_holds lib (sealDekByStoragePassword lib iv d pw) d"
proof -
  obtain data tg where s: "cl_seal (sl_crypto lib) (vkSealKey lib pw) iv (utf8_bytes VK_SEAL_VERSION) d = (data, tg)" by fastforce
  have g: "gcmEncrypt (sl_crypto lib) iv (vkSealKey lib pw) d (utf8_bytes VK_SEAL_VERSION) = \<lparr>g_iv = iv, g_tag = tg, g_data = data\<rparr>"
    by (simp add: gcmEncrypt_def s)
  have o: "gcm_opens (sl_crypto lib)" and c: "gcm_commits (sl_crypto lib)" using assms(1) by (simp_all add: lib_ok_def)
  have d: "octets_ok d" "length d = DEK_LENGTH" using assms(4) by (simp_all add: dek_ok_def)
  have ok: "octets_ok tg" "octets_ok data"
    using gcm_round [OF o vk_key_length [OF assms(1)] assms(2) d(1), of pw "utf8_bytes VK_SEAL_VERSION"] by (simp_all add: g)
  have e: "sealDekByStoragePassword lib iv d pw = join '':'' [VK_SEAL_VERSION, base64 iv, base64 tg, base64 data]"
    by (simp add: sealDekByStoragePassword_def s)
  have "ascii (join '':'' [VK_SEAL_VERSION, base64 iv, base64 tg, base64 data])"
    using base64_ascii [OF assms(3)] base64_ascii [OF ok(1)] base64_ascii [OF ok(2)] by (simp add: VK_SEAL_VERSION_def)
  then have w: "well_formed_text (sealDekByStoragePassword lib iv d pw)" unfolding e ascii_def by (rule ascii_well_formed)
  have parts: "split_at_char (CHR '':'') (sealDekByStoragePassword lib iv d pw) = [VK_SEAL_VERSION, base64 iv, base64 tg, base64 data]"
  proof -
    have "plain_field VK_SEAL_VERSION" by (simp add: plain_field_def VK_SEAL_VERSION_def)
    then show ?thesis
      using base64_plain [OF assms(3)] base64_plain [OF ok(1)] base64_plain [OF ok(2)]
      by (simp add: e plain_field_def split_field split_plain)
  qed
  have "d' = d" if "openDekByStoragePassword lib (sealDekByStoragePassword lib iv d pw) pw' = Inr d'" for pw' d'
  proof -
    from that obtain q where "cl_open (sl_crypto lib) (vkSealKey lib pw') iv (utf8_bytes VK_SEAL_VERSION) tg data = Some q" "checked_dek q = Inr d'"
      by (auto simp: openDekByStoragePassword_def parts unbase64_base64 assms(3) ok Let_def split: if_splits option.splits)
    moreover from this(1) have "q = d" using c s unfolding gcm_commits_def by blast
    ultimately show ?thesis using d(2) by (auto simp: checked_dek_def split: if_splits)
  qed
  then show ?thesis using w by (simp add: inner_holds_def)
qed


section \<open>One lookup\<close>

lemma read_row_holds:
  assumes "lib_ok lib" "fresh_keys rnd" "active_key ring k" "holds_key lib accept ring row d"
    and "read_row lib accept rnd ring args row = Inr (dek, p)"
  shows "dek = d" "\<And>w. sp_wrappedDek p = Some w \<Longrightarrow> ring_holds lib accept ring (ak_accountId row) w d"
    "\<And>v. sp_byViewingKey p = Some v \<Longrightarrow> vk_holds lib accept ring (ak_accountId row) v d"
proof -
  let ?a = "ak_accountId row"
  obtain op0 op w v where op0: "open_by_ring lib accept ring row = Inr op0"
    and op: "open_by_viewing_key lib accept ring (ra_storagePassword args) row op0 = Inr op"
    and dek: "opened_dek (ra_storagePassword args) row op = Inr dek"
    and w: "repair_ring_seal lib rnd ring dek row op = Inr w"
    and v: "repair_vk_seal lib accept rnd ring (ra_storagePassword args) dek row op = Inr v"
    and p: "p = \<lparr>sp_wrappedDek = w, sp_byViewingKey = v\<rparr>"
    using assms(5) by (auto simp: read_row_def)
  have h: "dek_ok d" "ring_holds lib accept ring ?a (ak_wrappedDek row) d" "vk_holds lib accept ring ?a (ak_byViewingKey row) d"
    using assms(4) by (simp_all add: holds_key_def)
  have via: "x = d" if "openDekByViewingKey lib accept (ak_byViewingKey row) pw ring ?a = Inr x" for pw x
    using that h(3) by (auto simp: open_by_vk vk_holds_def inner_holds_def)
  have "op_dek op0 = None \<or> op_dek op0 = Some d"
    using op0 h(2) by (auto simp: open_by_ring_def ring_holds_def split: sum.splits if_splits)
  then have "op_dek op = None \<or> op_dek op = Some d"
    using op via by (auto simp: open_by_viewing_key_def split: sum.splits if_splits option.splits)
  then show dd: "dek = d" using dek by (auto simp: opened_dek_def split: option.splits if_splits)
  have fr: "fresh_bytes (ke_wrap rnd)" "fresh_bytes (ke_vk rnd)" "length (ke_iv rnd) = IV_LENGTH" "octets_ok (ke_iv rnd)"
    using assms(2) by (simp_all add: fresh_keys_def)
  show "ring_holds lib accept ring ?a w' d" if "sp_wrappedDek p = Some w'" for w'
  proof (rule wrap_holds [OF assms(1) fr(1) assms(3) h(1)])
    show "wrapDek lib (ke_wrap rnd) d ring ?a = Inr w'"
      using w that by (auto simp: p dd repair_ring_seal_def split: if_splits)
  qed
  show "vk_holds lib accept ring ?a v' d" if v': "sp_byViewingKey p = Some v'" for v'
  proof -
    obtain inner where "encrypt (sl_crypto lib) (ke_vk rnd) inner (Ring ring) (Some (accountDekViewingKeySealBinding ?a)) = Inr v'"
      and "(\<exists>pw. inner = sealDekByStoragePassword lib (ke_iv rnd) d pw) \<or> vk_inner lib accept ring ?a (ak_byViewingKey row) = Inr inner"
      using v v' by (auto simp: p dd repair_vk_seal_def sealDekByViewingKey_def vk_inner_def Let_def split: if_splits)
    moreover from this(2) have "inner_holds lib inner d"
      using vk_seal_holds [OF assms(1) fr(3,4) h(1)] h(3) by (auto simp: vk_holds_def)
    ultimately show ?thesis using encrypted_inner [OF assms(1) fr(2) assms(3)] by blast
  qed
qed

lemma fresh_row_holds:
  assumes "lib_ok lib" "fresh_keys rnd" "active_key ring k" "fresh_row lib rnd ring args = Inr row"
  shows "ak_accountId row = ra_accountId args" "holds_key lib accept ring row (ke_dek rnd)"
proof -
  obtain w v where w: "wrapDek lib (ke_wrap rnd) (ke_dek rnd) ring (ra_accountId args) = Inr w"
    and v: "sealDekByViewingKey lib (ke_vk rnd) (ke_iv rnd) (ke_dek rnd) (the (ra_storagePassword args)) ring (ra_accountId args) = Inr v"
    and row: "row = \<lparr>ak_accountId = ra_accountId args, ak_wrappedDek = w, ak_byViewingKey = v, ak_rotatedAt = None\<rparr>"
    using assms(4) by (auto simp: fresh_row_def)
  have fr: "fresh_bytes (ke_wrap rnd)" "fresh_bytes (ke_vk rnd)" "length (ke_iv rnd) = IV_LENGTH" "octets_ok (ke_iv rnd)" "dek_ok (ke_dek rnd)"
    using assms(2) by (simp_all add: fresh_keys_def dek_ok_def)
  show "ak_accountId row = ra_accountId args" by (simp add: row)
  have "vk_holds lib accept ring (ra_accountId args) v (ke_dek rnd)"
    using encrypted_inner [OF assms(1) fr(2) assms(3) vk_seal_holds [OF assms(1) fr(3-5)]] v by (simp add: sealDekByViewingKey_def)
  then show "holds_key lib accept ring row (ke_dek rnd)"
    using wrap_holds [OF assms(1) fr(1) assms(3) fr(5) w] fr(5) by (simp add: holds_key_def row)
qed


section \<open>All lookups\<close>

text \<open>Which key each account has, and that everything the lookups know of it agrees.\<close>

type_synonym key_table = "string \<Rightarrow> octets option"

definition row_agrees :: "storage_lib \<Rightarrow> bool \<Rightarrow> key_ring \<Rightarrow> key_table \<Rightarrow> account_key_row \<Rightarrow> bool" where
  "row_agrees lib accept ring A r \<longleftrightarrow> (\<exists>d. A (ak_accountId r) = Some d \<and> holds_key lib accept ring r d)"

definition rows_agree :: "storage_lib \<Rightarrow> bool \<Rightarrow> key_ring \<Rightarrow> key_table \<Rightarrow> account_key_row list \<Rightarrow> bool" where
  "rows_agree lib accept ring A rows \<longleftrightarrow>
     (\<forall>r \<in> set rows. row_agrees lib accept ring A r) \<and> (\<forall>a. A a \<noteq> None \<longrightarrow> (\<exists>r \<in> set rows. ak_accountId r = a))"

definition lookup_agrees :: "storage_lib \<Rightarrow> bool \<Rightarrow> key_ring \<Rightarrow> key_table \<Rightarrow> dek_lookup \<Rightarrow> bool" where
  "lookup_agrees lib accept ring A l \<longleftrightarrow>
     (\<forall>r. lk_read l = Some (Some r) \<longrightarrow> ak_accountId r = ra_accountId (lk_args l) \<and> row_agrees lib accept ring A r)
     \<and> (\<forall>c \<in> set (lk_callers l). ra_accountId (snd c) = ra_accountId (lk_args l))"

definition process_agrees :: "storage_lib \<Rightarrow> bool \<Rightarrow> key_ring \<Rightarrow> key_table \<Rightarrow> dek_process \<Rightarrow> bool" where
  "process_agrees lib accept ring A p \<longleftrightarrow>
     (\<forall>a c. dp_cache p a = Some c \<longrightarrow> A a = Some (cd_dek c))
     \<and> (\<forall>t l. dp_running p t = Some l \<longrightarrow> lookup_agrees lib accept ring A l \<and> t < dp_next p)
     \<and> (\<forall>a t. dp_inflight p a = Some t \<longrightarrow> t < dp_next p \<and> (\<forall>l. dp_running p t = Some l \<longrightarrow> ra_accountId (lk_args l) = a))"

definition answer_agrees :: "key_table \<Rightarrow> dek_answer \<Rightarrow> bool" where
  "answer_agrees A x \<longleftrightarrow> (\<forall>d. da_result x = Inr (Some d) \<longrightarrow> A (ra_accountId (da_args x)) = Some d)"

definition world_agrees :: "storage_lib \<Rightarrow> bool \<Rightarrow> key_ring \<Rightarrow> key_table \<Rightarrow> dek_world \<Rightarrow> bool" where
  "world_agrees lib accept ring A w \<longleftrightarrow>
     rows_agree lib accept ring A (dw_rows w) \<and> (\<forall>i. process_agrees lib accept ring A (dw_procs w i))
     \<and> (\<forall>x \<in> set (dw_answers w). answer_agrees A x)"

lemma agrees_mono:
  assumes "A \<subseteq>\<^sub>m B"
  shows "row_agrees lib accept ring A r \<Longrightarrow> row_agrees lib accept ring B r"
    "lookup_agrees lib accept ring A l \<Longrightarrow> lookup_agrees lib accept ring B l"
    "process_agrees lib accept ring A p \<Longrightarrow> process_agrees lib accept ring B p"
    "answer_agrees A x \<Longrightarrow> answer_agrees B x"
proof -
  have m: "A a = Some d \<Longrightarrow> B a = Some d" for a d using assms by (metis domI map_le_def)
  show r: "row_agrees lib accept ring A r \<Longrightarrow> row_agrees lib accept ring B r" for r using m by (auto simp: row_agrees_def)
  show l: "lookup_agrees lib accept ring A l \<Longrightarrow> lookup_agrees lib accept ring B l" for l using r by (auto simp: lookup_agrees_def)
  show "process_agrees lib accept ring A p \<Longrightarrow> process_agrees lib accept ring B p" using m l unfolding process_agrees_def by blast
  show "answer_agrees A x \<Longrightarrow> answer_agrees B x" using m by (auto simp: answer_agrees_def)
qed

lemma patch_agrees:
  assumes "row_agrees lib accept ring A r" "A (ak_accountId r) = Some d"
    and "\<And>w. sp_wrappedDek p = Some w \<Longrightarrow> ring_holds lib accept ring (ak_accountId r) w d"
    and "\<And>v. sp_byViewingKey p = Some v \<Longrightarrow> vk_holds lib accept ring (ak_accountId r) v d"
  shows "row_agrees lib accept ring A (patch_seals nw p r)"
  using assms by (auto simp: row_agrees_def holds_key_def patch_seals_def split: option.splits)

lemma write_patch_agrees:
  assumes "rows_agree lib accept ring A rows" "A (ra_accountId args) = Some d"
    and "\<And>w. sp_wrappedDek p = Some w \<Longrightarrow> ring_holds lib accept ring (ra_accountId args) w d"
    and "\<And>v. sp_byViewingKey p = Some v \<Longrightarrow> vk_holds lib accept ring (ra_accountId args) v d"
  shows "rows_agree lib accept ring A (write_patch nw args p rows)"
proof -
  define f where "f = (\<lambda>r. if ak_accountId r = ra_accountId args then patch_seals nw p r else r)"
  have acc: "ak_accountId (f r) = ak_accountId r" for r by (simp add: f_def patch_seals_def)
  have "row_agrees lib accept ring A (f r)" if "r \<in> set rows" for r
    using assms that patch_agrees [of lib accept ring A r d p nw] by (auto simp: rows_agree_def f_def)
  moreover have "\<exists>r \<in> set rows. ak_accountId (f r) = a" if "A a \<noteq> None" for a
    using assms(1) that acc unfolding rows_agree_def by metis
  ultimately have "rows_agree lib accept ring A (map f rows)" by (auto simp: rows_agree_def)
  then show ?thesis using assms(1) by (simp add: write_patch_def f_def)
qed

lemma account_row_some: "account_row a rows = Some r \<Longrightarrow> r \<in> set rows \<and> ak_accountId r = a"
  by (auto simp: account_row_def find_Some_iff)

lemma account_row_none: "account_row a rows = None \<Longrightarrow> r \<in> set rows \<Longrightarrow> ak_accountId r \<noteq> a"
  by (auto simp: account_row_def find_None_iff)

lemma uncached_agrees:
  assumes "lib_ok lib" "fresh_keys rnd" "active_key ring k" "rows_agree lib accept ring A rows"
    and read: "\<And>r. read = Some r \<Longrightarrow> ak_accountId r = ra_accountId args \<and> row_agrees lib accept ring A r"
    and res: "resolveUncached lib accept rnd ring args read rows = Ended res rows' entry"
  shows "\<exists>B. A \<subseteq>\<^sub>m B \<and> rows_agree lib accept ring B rows' \<and> (\<forall>d. res = Inr (Some d) \<longrightarrow> B (ra_accountId args) = Some d)
    \<and> (\<forall>c. entry = Some c \<longrightarrow> B (ra_accountId args) = Some (cd_dek c))"
proof (cases "case read of Some r \<Rightarrow> ak_wrappedDek r \<noteq> [] | None \<Rightarrow> False")
  case True
  then obtain r where r: "read = Some r" by (cases read) auto
  obtain d where d: "A (ra_accountId args) = Some d" "holds_key lib accept ring r d" "ak_accountId r = ra_accountId args"
    using read [OF r] by (auto simp: row_agrees_def)
  show ?thesis
  proof (cases "read_row lib accept rnd ring args r")
    case (Inl e)
    then show ?thesis using res True r assms(4) by (intro exI [of _ A]) (auto simp: resolveUncached_def)
  next
    case (Inr x)
    obtain dek p where x: "x = (dek, p)" by (cases x)
    note h = read_row_holds [OF assms(1-3) d(2) Inr [unfolded x], unfolded d(3)]
    have "rows' = write_patch (ke_now rnd) args p rows" "res = Inr (Some dek)" "entry = Some (cache_entry lib ring args dek)"
      using res True r Inr x by (simp_all add: resolveUncached_def)
    then show ?thesis
      using d(1) h(1) write_patch_agrees [OF assms(4) d(1) h(2,3)] by (intro exI [of _ A]) (simp add: cache_entry_def)
  qed
next
  case none: False
  show ?thesis
  proof (cases "entry")
    case None
    then have "rows' = rows \<and> (\<forall>d. res \<noteq> Inr (Some d))"
      using res none by (auto simp: resolveUncached_def split: if_splits sum.splits option.splits)
    then show ?thesis using None assms(4) by (intro exI [of _ A]) simp
  next
    case (Some c)
    then obtain row where row: "fresh_row lib rnd ring args = Inr row" and a: "account_row (ra_accountId args) rows = None"
      and out: "rows' = rows @ [row]" "res = Inr (Some (ke_dek rnd))" "c = cache_entry lib ring args (ke_dek rnd)"
      using res none by (auto simp: resolveUncached_def split: if_splits sum.splits option.splits)
    note h = fresh_row_holds(1) [OF assms(1-3) row] fresh_row_holds(2) [OF assms(1-3) row, of accept]
    have "A (ra_accountId args) = None" using assms(4) account_row_none [OF a] unfolding rows_agree_def by metis
    then have le: "A \<subseteq>\<^sub>m A(ra_accountId args \<mapsto> ke_dek rnd)" by (auto simp: map_le_def)
    have "rows_agree lib accept ring (A(ra_accountId args \<mapsto> ke_dek rnd)) rows'"
      using assms(4) agrees_mono(1) [OF le] h by (auto simp: rows_agree_def out row_agrees_def)
    then show ?thesis using le Some out by (intro exI [of _ "A(ra_accountId args \<mapsto> ke_dek rnd)"]) (simp add: cache_entry_def)
  qed
qed


lemma start_agrees: "process_agrees lib accept ring A p \<Longrightarrow> process_agrees lib accept ring A (start_lookup q args p)"
  by (auto simp: process_agrees_def start_lookup_def lookup_agrees_def intro: less_SucI)

lemma running_agrees:
  assumes "process_agrees lib accept ring A p"
    and "\<And>l. dp_running p t = Some l \<Longrightarrow> lookup_agrees lib accept ring A (f l) \<and> lk_args (f l) = lk_args l"
  shows "process_agrees lib accept ring A (p\<lparr>dp_running := (dp_running p)(t := map_option f (dp_running p t))\<rparr>)"
  using assms by (auto simp: process_agrees_def)

lemma process_lookup:
  "process_agrees lib accept ring A p \<Longrightarrow> dp_running p t = Some l \<Longrightarrow> lookup_agrees lib accept ring A l"
  "process_agrees lib accept ring A p \<Longrightarrow> dp_running p t = Some l \<Longrightarrow> dp_inflight p a = Some t \<Longrightarrow> ra_accountId (lk_args l) = a"
  by (simp_all add: process_agrees_def)

lemma join_agrees:
  assumes "process_agrees lib accept ring A p" "dp_inflight p (ra_accountId args) = Some t"
  shows "process_agrees lib accept ring A (join_lookup q args t p)"
  unfolding join_lookup_def
proof (rule running_agrees [OF assms(1)])
  fix l
  assume l: "dp_running p t = Some l"
  have "ra_accountId args = ra_accountId (lk_args l)" using process_lookup(2) [OF assms(1) l assms(2)] by simp
  then show "lookup_agrees lib accept ring A (l\<lparr>lk_callers := lk_callers l @ [(q, args)]\<rparr>) \<and> lk_args (l\<lparr>lk_callers := lk_callers l @ [(q, args)]\<rparr>) = lk_args l"
    using process_lookup(1) [OF assms(1) l] by (simp add: lookup_agrees_def)
qed

lemma evict_agrees: "process_agrees lib accept ring A p \<Longrightarrow> process_agrees lib accept ring A (evictAccountDek a p)"
  by (auto simp: process_agrees_def evictAccountDek_def)

lemma clear_agrees: "process_agrees lib accept ring A p \<Longrightarrow> process_agrees lib accept ring A (clearAllAccountDeks p)"
  by (auto simp: process_agrees_def clearAllAccountDeks_def)

lemma store_agrees:
  "process_agrees lib accept ring A p \<Longrightarrow> A a = Some (cd_dek c) \<Longrightarrow> process_agrees lib accept ring A (storeDek t a c p)"
  by (auto simp: process_agrees_def storeDek_def)

lemma end_agrees: "process_agrees lib accept ring A p \<Longrightarrow> process_agrees lib accept ring A (end_lookup t a p)"
  by (auto simp: process_agrees_def end_lookup_def)

lemma with_process_agrees:
  "world_agrees lib accept ring A w \<Longrightarrow> process_agrees lib accept ring A p \<Longrightarrow> world_agrees lib accept ring A (with_process i p w)"
  by (simp add: world_agrees_def with_process_def)

lemma ask_agrees:
  assumes w: "world_agrees lib accept ring A w"
  shows "world_agrees lib accept ring A (resolveAccountDek lib ring i q args w)"
proof -
  let ?p = "dw_procs w i"
  have p: "process_agrees lib accept ring A ?p" using w by (simp add: world_agrees_def)
  have miss: "world_agrees lib accept ring A (case dp_inflight ?p (ra_accountId args) of
      Some t \<Rightarrow> with_process i (join_lookup q args t ?p) w | None \<Rightarrow> with_process i (start_lookup q args ?p) w)"
    using with_process_agrees [OF w start_agrees [OF p]] with_process_agrees [OF w join_agrees [OF p]] by (auto split: option.splits)
  show ?thesis
  proof (cases "dp_cache ?p (ra_accountId args)")
    case None
    then show ?thesis using miss by (simp add: resolveAccountDek_def Let_def)
  next
    case (Some c)
    then have "A (ra_accountId args) = Some (cd_dek c)" using p by (simp add: process_agrees_def)
    then have "answer_agrees A \<lparr>da_caller = q, da_args = args, da_result = cached_answer lib args c\<rparr>"
      by (simp add: answer_agrees_def cached_answer_def)
    then have "world_agrees lib accept ring A (w\<lparr>dw_answers := dw_answers w @ [\<lparr>da_caller = q, da_args = args, da_result = cached_answer lib args c\<rparr>]\<rparr>)"
      using w by (auto simp: world_agrees_def)
    then show ?thesis using Some miss by (simp add: resolveAccountDek_def Let_def)
  qed
qed

lemma look_agrees:
  assumes w: "world_agrees lib accept ring A w"
  shows "world_agrees lib accept ring A (look i t w)"
proof -
  let ?p = "dw_procs w i"
  have p: "process_agrees lib accept ring A ?p" and rows: "rows_agree lib accept ring A (dw_rows w)" using w by (simp_all add: world_agrees_def)
  have "ak_accountId r = a \<and> row_agrees lib accept ring A r" if "account_row a (dw_rows w) = Some r" for a r
    using rows account_row_some [OF that] by (auto simp: rows_agree_def)
  then have "process_agrees lib accept ring A (?p\<lparr>dp_running := (dp_running ?p)(t := map_option
      (\<lambda>l. l\<lparr>lk_read := Some (account_row (ra_accountId (lk_args l)) (dw_rows w))\<rparr>) (dp_running ?p t))\<rparr>)"
    using process_lookup(1) [OF p] by (intro running_agrees [OF p]) (simp add: lookup_agrees_def)
  then show ?thesis using with_process_agrees [OF w] by (simp add: look_def Let_def)
qed

lemma finish_agrees:
  assumes "lib_ok lib" "fresh_keys rnd" "active_key ring k" and w: "world_agrees lib accept ring A w"
  shows "\<exists>B. A \<subseteq>\<^sub>m B \<and> world_agrees lib accept ring B (finish lib accept rnd ring i t w)"
proof -
  let ?p = "dw_procs w i"
  have p: "process_agrees lib accept ring A ?p" and rows: "rows_agree lib accept ring A (dw_rows w)" using w by (simp_all add: world_agrees_def)
  show ?thesis
  proof (cases "\<exists>l read. dp_running ?p t = Some l \<and> lk_read l = Some read")
    case False
    then have "finish lib accept rnd ring i t w = w" by (auto simp: finish_def Let_def split: option.splits)
    then show ?thesis using w by (metis map_le_refl)
  next
    case True
    then obtain l read where l: "dp_running ?p t = Some l" "lk_read l = Some read" by blast
    let ?a = "ra_accountId (lk_args l)"
    have la: "lookup_agrees lib accept ring A l" using p l(1) by (auto simp: process_agrees_def)
    show ?thesis
    proof (cases "resolveUncached lib accept rnd ring (lk_args l) read (dw_rows w)")
      case ReadAgain
      have "process_agrees lib accept ring A (?p\<lparr>dp_running := (dp_running ?p)(t \<mapsto> l\<lparr>lk_read := None\<rparr>)\<rparr>)"
        using p l(1) la by (auto simp: process_agrees_def lookup_agrees_def)
      then have "world_agrees lib accept ring A (finish lib accept rnd ring i t w)"
        using with_process_agrees [OF w] by (simp add: finish_def Let_def l ReadAgain)
      then show ?thesis by (metis map_le_refl)
    next
      case (Ended res rows' entry)
      have rd: "\<And>r. read = Some r \<Longrightarrow> ak_accountId r = ?a \<and> row_agrees lib accept ring A r" using la l(2) by (auto simp: lookup_agrees_def)
      obtain B where B: "A \<subseteq>\<^sub>m B" "rows_agree lib accept ring B rows'" "\<And>d. res = Inr (Some d) \<Longrightarrow> B ?a = Some d"
        "\<And>c. entry = Some c \<Longrightarrow> B ?a = Some (cd_dek c)"
        using uncached_agrees [OF assms(1-3) rows rd Ended] by blast
      have pB: "process_agrees lib accept ring B (dw_procs w j)" for j using w agrees_mono(3) [OF B(1)] by (simp add: world_agrees_def)
      have stored: "process_agrees lib accept ring B (case entry of Some c \<Rightarrow> storeDek t ?a c ?p | None \<Rightarrow> ?p)"
        using pB B(4) store_agrees by (auto split: option.splits)
      have new: "answer_agrees B x" if "x \<in> set (answers_of res l)" for x
        using that B(3) la by (force simp: answers_of_def answer_agrees_def lookup_agrees_def)
      have "\<forall>x \<in> set (dw_answers w @ answers_of res l). answer_agrees B x"
        using w new agrees_mono(4) [OF B(1)] by (auto simp: world_agrees_def)
      then have "world_agrees lib accept ring B (w\<lparr>dw_rows := rows', dw_answers := dw_answers w @ answers_of res l\<rparr>)"
        using B(2) pB by (simp add: world_agrees_def)
      then have "world_agrees lib accept ring B (finish lib accept rnd ring i t w)"
        using with_process_agrees [OF _ end_agrees [OF stored]] by (simp add: finish_def Let_def l Ended)
      then show ?thesis using B(1) by blast
    qed
  qed
qed

definition event_fresh :: "dek_event \<Rightarrow> bool" where
  "event_fresh e = (case e of Finish i t rnd \<Rightarrow> fresh_keys rnd | _ \<Rightarrow> True)"

lemma step_agrees:
  assumes "lib_ok lib" "event_fresh e" "active_key ring k" "world_agrees lib accept ring A w"
  shows "\<exists>B. A \<subseteq>\<^sub>m B \<and> world_agrees lib accept ring B (dek_step lib accept ring e w)"
proof (cases e)
  case (Ask i q args)
  then show ?thesis using ask_agrees [OF assms(4)] by (metis dek_step.simps(1) map_le_refl)
next
  case (Look i t)
  then show ?thesis using look_agrees [OF assms(4)] by (metis dek_step.simps(2) map_le_refl)
next
  case (Finish i t rnd)
  then show ?thesis using finish_agrees [OF assms(1) _ assms(3,4), of rnd i t] assms(2) by (simp add: event_fresh_def)
next
  case (Evict i a)
  have "process_agrees lib accept ring A (dw_procs w i)" using assms(4) by (simp add: world_agrees_def)
  then show ?thesis using with_process_agrees [OF assms(4) evict_agrees] Evict by (metis dek_step.simps(4) map_le_refl)
next
  case (EvictAll i)
  have "process_agrees lib accept ring A (dw_procs w i)" using assms(4) by (simp add: world_agrees_def)
  then show ?thesis using with_process_agrees [OF assms(4) clear_agrees] EvictAll by (metis dek_step.simps(5) map_le_refl)
qed

lemma run_agrees:
  "lib_ok lib \<Longrightarrow> list_all event_fresh es \<Longrightarrow> active_key ring k \<Longrightarrow> world_agrees lib accept ring A w \<Longrightarrow>
     \<exists>B. A \<subseteq>\<^sub>m B \<and> world_agrees lib accept ring B (dek_run lib accept ring es w)"
proof (induction es arbitrary: A w)
  case Nil
  then show ?case by (auto simp: dek_run_def intro: exI [of _ A])
next
  case (Cons e es)
  then obtain B where B: "A \<subseteq>\<^sub>m B" "world_agrees lib accept ring B (dek_step lib accept ring e w)" using step_agrees by fastforce
  then obtain C where "B \<subseteq>\<^sub>m C" "world_agrees lib accept ring C (dek_run lib accept ring es (dek_step lib accept ring e w))"
    using Cons by fastforce
  then show ?case using B(1) by (auto simp: dek_run_def intro: map_le_trans)
qed

text \<open>Processes that have just started, over a table whose rows each hold one key.\<close>

definition idle_process :: dek_process where
  "idle_process = \<lparr>dp_cache = (\<lambda>a. None), dp_inflight = (\<lambda>a. None), dp_running = (\<lambda>t. None), dp_next = 0\<rparr>"

definition started :: "account_key_row list \<Rightarrow> dek_world" where
  "started rows = \<lparr>dw_rows = rows, dw_procs = (\<lambda>i. idle_process), dw_answers = []\<rparr>"

lemma started_agrees:
  assumes "distinct (map ak_accountId rows)" "\<forall>r \<in> set rows. \<exists>d. holds_key lib accept ring r d"
  shows "\<exists>A. world_agrees lib accept ring A (started rows)"
proof -
  obtain f where f: "\<forall>r \<in> set rows. holds_key lib accept ring r (f r)" using assms(2) by (metis (no_types))
  let ?A = "map_of (map (\<lambda>r. (ak_accountId r, f r)) rows)"
  have "?A (ak_accountId r) = Some (f r)" if "r \<in> set rows" for r
    using assms(1) that by (intro map_of_is_SomeI) (auto simp: comp_def)
  moreover have "\<exists>r \<in> set rows. ak_accountId r = a" if "?A a \<noteq> None" for a using that by (auto simp: map_of_eq_None_iff)
  ultimately have "rows_agree lib accept ring ?A rows" using f by (auto simp: rows_agree_def row_agrees_def)
  moreover have "process_agrees lib accept ring ?A idle_process" by (simp add: process_agrees_def idle_process_def)
  ultimately show ?thesis by (intro exI [of _ ?A]) (simp add: world_agrees_def started_def)
qed



section \<open>Joining a lookup\<close>

definition may_create :: "resolve_args \<Rightarrow> bool" where
  "may_create args \<longleftrightarrow> ra_create args \<and> filled (ra_storagePassword args)"

text \<open>
  A caller that may create the key of an account, and joins a lookup whose own caller may not,
  is told that there is none: nothing is created for it, although nothing has failed.
\<close>

theorem joined_lookup_null:
  assumes "dp_cache (dw_procs w i) a = None" "dp_inflight (dw_procs w i) a = None" "t = dp_next (dw_procs w i)"
    and "account_row a (dw_rows w) = None"
    and "ra_accountId reader = a" "\<not> may_create reader" "ra_accountId writer = a" "may_create writer"
  shows "dw_rows (dek_run lib accept ring [Ask i q reader, Ask i q' writer, Look i t, Finish i t rnd] w) = dw_rows w
    \<and> \<lparr>da_caller = q', da_args = writer, da_result = Inr None\<rparr>
        \<in> set (dw_answers (dek_run lib accept ring [Ask i q reader, Ask i q' writer, Look i t, Finish i t rnd] w))"
proof -
  let ?l = "\<lparr>lk_args = reader, lk_read = None, lk_callers = [(q, reader), (q', writer)]\<rparr>"
  define w2 where "w2 = dek_run lib accept ring [Ask i q reader, Ask i q' writer] w"
  have rows: "dw_rows w2 = dw_rows w" and run: "dp_running (dw_procs w2 i) t = Some ?l"
    using assms(1-3,5,7) by (simp_all add: w2_def dek_run_def resolveAccountDek_def Let_def with_process_def start_lookup_def join_lookup_def)
  define w3 where "w3 = look i t w2"
  have run3: "dp_running (dw_procs w3 i) t = Some (?l\<lparr>lk_read := Some None\<rparr>)" and rows3: "dw_rows w3 = dw_rows w"
    using run assms(4,5) by (simp_all add: w3_def look_def Let_def with_process_def rows)
  have "resolveUncached lib accept rnd ring reader None (dw_rows w3) = Ended (Inr None) (dw_rows w3) None"
    using assms(6) by (simp add: resolveUncached_def may_create_def)
  then have "dw_rows (finish lib accept rnd ring i t w3) = dw_rows w
      \<and> \<lparr>da_caller = q', da_args = writer, da_result = Inr None\<rparr> \<in> set (dw_answers (finish lib accept rnd ring i t w3))"
    by (simp add: finish_def Let_def run3 with_process_def answers_of_def rows3)
  moreover have "dek_run lib accept ring [Ask i q reader, Ask i q' writer, Look i t, Finish i t rnd] w = finish lib accept rnd ring i t w3"
    by (simp add: dek_run_def w3_def w2_def)
  ultimately show ?thesis by simp
qed

section \<open>Runs of lookups\<close>

definition demo_storage :: storage_lib where
  "demo_storage = \<lparr>sl_crypto = demo_crypto [], sl_pbkdf2 = (\<lambda>pw salt. replicate 32 (length pw mod 256)), sl_hmac = (\<lambda>label m. replicate 32 (length m mod 256))\<rparr>"

definition demo_args :: resolve_args where
  "demo_args = \<lparr>ra_accountId = ''acc1'', ra_storagePassword = Some ''pw'', ra_create = True, ra_readOnly = False\<rparr>"

definition demo_keys :: key_entropy where
  "demo_keys = \<lparr>ke_wrap = demo_entropy, ke_vk = demo_entropy, ke_iv = replicate 12 4, ke_dek = replicate 32 9, ke_now = ''now''\<rparr>"

lemma demo_storage_ok: "lib_ok demo_storage"
  using demo_opens by (auto simp: lib_ok_def demo_storage_def gcm_commits_def hkdf_length_def demo_crypto_def split: if_splits)

lemma demo_keys_fresh: "fresh_keys demo_keys"
  using demo_fresh by (simp add: fresh_keys_def demo_keys_def octets_ok_def list_all_iff)

lemma demo_fresh_row: "\<exists>row. fresh_row demo_storage demo_keys (demo_ring ''k2'') demo_args = Inr row"
proof -
  have "assertBinding (accountDekBinding ''acc1'') = Inr ()" "assertBinding (accountDekViewingKeySealBinding ''acc1'') = Inr ()" by code_simp+
  then show ?thesis
    by (simp add: fresh_row_def wrapDek_def sealDekByViewingKey_def encrypt_def asRing_def check_then_def ring_kek_def demo_ring_def demo_args_def Let_def)
qed

definition demo_events :: "dek_event list" where
  "demo_events = [Ask 0 1 demo_args, Ask 0 2 demo_args, Look 0 0, Finish 0 0 demo_keys, Ask 0 3 demo_args]"

lemma demo_answers:
  "dw_answers (dek_run demo_storage False (demo_ring ''k2'') demo_events (started [])) =
     map (\<lambda>q. \<lparr>da_caller = q, da_args = demo_args, da_result = Inr (Some (replicate 32 9))\<rparr>) [1, 2, 3]"
proof -
  obtain row where "fresh_row demo_storage demo_keys (demo_ring ''k2'') demo_args = Inr row" using demo_fresh_row by blast
  moreover have "kr_activeId (demo_ring ''k2'') = ''k2''" "filled (Some ''pw'')" by (simp_all add: demo_ring_def filled_def)
  ultimately show ?thesis
    by (simp add: demo_events_def dek_run_def started_def idle_process_def resolveAccountDek_def Let_def with_process_def start_lookup_def
        join_lookup_def look_def account_row_def finish_def resolveUncached_def demo_args_def answers_of_def storeDek_def end_lookup_def
        cache_entry_def cached_answer_def demo_keys_def)
qed


theorem joined_lookup_null_witness:
  "\<lparr>da_caller = 2, da_args = demo_args, da_result = Inr None\<rparr>
     \<in> set (dw_answers (dek_run demo_storage False (demo_ring ''k2'') [Ask 0 1 (demo_args\<lparr>ra_create := False\<rparr>), Ask 0 2 demo_args, Look 0 0, Finish 0 0 demo_keys] (started [])))"
  using joined_lookup_null [of "started []" 0 "''acc1''" 0 "demo_args\<lparr>ra_create := False\<rparr>" demo_args demo_storage False "demo_ring ''k2''" 1 2 demo_keys]
  by (simp add: started_def idle_process_def account_row_def demo_args_def may_create_def filled_def)

end
