(* ===== verification/Private_State.thy ===== *)
theory Private_State
  imports Account_Keys
begin

text \<open>
  The store of contracts' private states and signing keys (\<^verbatim>\<open>srv/midnight/CapDbPrivateStateProvider.ts\<close>). Every row
  is encrypted under the account's password; a row an older password wrote is found by the salt it carries and saved
  again. Exports travel to another account, or to another store of the same format, under a password of their own.

  A state is a JSON value. Parsing JSON text is an argument, as are the random bytes: those of a row are drawn for the
  row that is written. The database answers every statement.
\<close>

section \<open>Rows\<close>

record 'k sealed_row =
  sw_key :: 'k
  sw_ciphertext :: string
  sw_keyScheme :: "string option"

type_synonym state_key = "string \<times> string \<times> string"
type_synonym signing_key = "string \<times> string"

record private_db =
  pd_states :: "state_key sealed_row list"
  pd_keys :: "signing_key sealed_row list"

definition find_row :: "'k \<Rightarrow> 'k sealed_row list \<Rightarrow> 'k sealed_row option" where
  "find_row k rows = find (\<lambda>r. sw_key r = k) rows"

definition upsert_row :: "'k \<Rightarrow> string \<Rightarrow> 'k sealed_row list \<Rightarrow> 'k sealed_row list" where
  "upsert_row k cipher rows =
     (if find_row k rows \<noteq> None
      then map (\<lambda>r. if sw_key r = k then r\<lparr>sw_ciphertext := cipher, sw_keyScheme := Some DEK_SCHEME\<rparr> else r) rows
      else rows @ [\<lparr>sw_key = k, sw_ciphertext = cipher, sw_keyScheme = Some DEK_SCHEME\<rparr>])"

section \<open>The provider\<close>

definition MAX_EXPORT_STATES :: nat where "MAX_EXPORT_STATES = 10000"
definition MAX_EXPORT_SIGNING_KEYS :: nat where "MAX_EXPORT_SIGNING_KEYS = 10000"
definition PRIVATE_STATE_EXPORT_FORMAT :: string where "PRIVATE_STATE_EXPORT_FORMAT = ''midnight-private-state-export''"
definition SIGNING_KEY_EXPORT_FORMAT :: string where "SIGNING_KEY_EXPORT_FORMAT = ''midnight-signing-key-export''"
definition CURRENT_EXPORT_VERSION :: int where "CURRENT_EXPORT_VERSION = 1"
definition SUPPORTED_EXPORT_VERSIONS :: "int list" where "SUPPORTED_EXPORT_VERSIONS = [1]"

definition ExportDecryptionError :: js_error where
  "ExportDecryptionError = \<lparr>err_code = ''PRIVATE_STATE_EXPORT_UNREADABLE'', err_message = ''Failed to decrypt export''\<rparr>"

definition InvalidExportFormatError :: "string \<Rightarrow> js_error" where
  "InvalidExportFormatError m = \<lparr>err_code = ''PRIVATE_STATE_EXPORT_INVALID'', err_message = m\<rparr>"

definition ImportConflictError :: "nat \<Rightarrow> js_error" where
  "ImportConflictError n =
     \<lparr>err_code = ''PRIVATE_STATE_IMPORT_CONFLICT'',
      err_message = ''Import aborted: '' @ nat_str n @ '' conflict(s) detected and conflictStrategy is '' @ quoted ''error''\<rparr>"

record provider =
  pv_accountId :: string
  pv_password :: string
  pv_fallbacks :: "string list"
  pv_contractAddress :: "string option"

definition privateStateStableSalt :: "storage_lib \<Rightarrow> string \<Rightarrow> string \<Rightarrow> octets" where
  "privateStateStableSalt lib accountId password =
     cl_sha256 (sl_crypto lib) (utf8_bytes (password @ ''|'' @ accountId @ ''|'' @ ''nightgate-private-state-salt-v1''))"

definition new_provider :: "string \<Rightarrow> string \<Rightarrow> string list \<Rightarrow> provider result" where
  "new_provider accountId password fallbacks =
     (if accountId = [] then Inl (js_Error ''accountId is required'')
      else Inr \<lparr>pv_accountId = accountId, pv_password = password, pv_fallbacks = fallbacks, pv_contractAddress = None\<rparr>)"

definition setContractAddress :: "string \<Rightarrow> provider \<Rightarrow> provider result" where
  "setContractAddress address p =
     (if address = [] then Inl (js_Error ''Contract address must not be empty'') else Inr (p\<lparr>pv_contractAddress := Some address\<rparr>))"

definition requireContractAddress :: "string \<Rightarrow> provider \<Rightarrow> string result" where
  "requireContractAddress op p =
     (case pv_contractAddress p of
        None \<Rightarrow> Inl (js_Error (''Contract address not set. Call setContractAddress() before '' @ op @ ''().''))
      | Some c \<Rightarrow> Inr c)"

definition getStoragePassword :: "provider \<Rightarrow> string result" where
  "getStoragePassword p =
     (if length (pv_password p) < 16 then Inl (js_Error ''Private storage password must be a string of at least 16 characters'')
      else Inr (pv_password p))"

definition getEncryption :: "storage_lib \<Rightarrow> provider \<Rightarrow> storage_encryption result" where
  "getEncryption lib p =
     check_then (getStoragePassword p) (\<lambda>pw. Inr (new_StorageEncryption lib pw (privateStateStableSalt lib (pv_accountId p) pw)))"

text \<open>
  The text of a stored value, and the value under the current password when an older one wrote it. A value that no
  password fits is refused with the error of the current one.
\<close>

definition older_password :: "storage_lib \<Rightarrow> provider \<Rightarrow> string \<Rightarrow> string option" where
  "older_password lib p blob =
     (case saltOf blob of
        None \<Rightarrow> None
      | Some salt \<Rightarrow> find (\<lambda>pw. privateStateStableSalt lib (pv_accountId p) pw = salt) (pv_fallbacks p))"

definition decryptStored :: "storage_lib \<Rightarrow> octets \<Rightarrow> provider \<Rightarrow> string \<Rightarrow> (string \<times> string option) result" where
  "decryptStored lib iv p blob =
     check_then (getEncryption lib p) (\<lambda>enc.
       case se_decrypt lib enc blob of
         Inr plain \<Rightarrow> Inr (plain, None)
       | Inl primary \<Rightarrow>
           (case older_password lib p blob of
              None \<Rightarrow> Inl primary
            | Some pw \<Rightarrow> check_then (decryptWithPassword lib blob pw) (\<lambda>plain.
                Inr (plain, case se_encrypt lib iv enc plain of Inr fresh \<Rightarrow> Some fresh | Inl _ \<Rightarrow> None))))"

definition rewritten :: "'k \<Rightarrow> string option \<Rightarrow> 'k sealed_row list \<Rightarrow> 'k sealed_row list" where
  "rewritten k fresh rows = (case fresh of Some c \<Rightarrow> upsert_row k c rows | None \<Rightarrow> rows)"

section \<open>Private states\<close>

record json_lib =
  js_parse :: "string \<Rightarrow> json option"

definition SyntaxError :: js_error where
  "SyntaxError = js_Error ''Unexpected token in JSON''"

definition state_key_of :: "provider \<Rightarrow> string \<Rightarrow> string \<Rightarrow> state_key" where
  "state_key_of p c i = (pv_accountId p, c, i)"

definition ps_set :: "storage_lib \<Rightarrow> octets \<Rightarrow> provider \<Rightarrow> string \<Rightarrow> json \<Rightarrow> private_db \<Rightarrow> unit result \<times> private_db" where
  "ps_set lib iv p i state db =
     (case check_then (requireContractAddress ''set'' p) (\<lambda>c.
           check_then (getEncryption lib p) (\<lambda>enc.
           check_then (se_encrypt lib iv enc (json_stringify state)) (\<lambda>cipher. Inr (c, cipher)))) of
        Inl e \<Rightarrow> (Inl e, db)
      | Inr (c, cipher) \<Rightarrow> (Inr (), db\<lparr>pd_states := upsert_row (state_key_of p c i) cipher (pd_states db)\<rparr>))"

definition parsed :: "json_lib \<Rightarrow> string \<Rightarrow> json result" where
  "parsed js t = (case js_parse js t of Some v \<Rightarrow> Inr v | None \<Rightarrow> Inl SyntaxError)"

definition ps_get :: "storage_lib \<Rightarrow> json_lib \<Rightarrow> octets \<Rightarrow> provider \<Rightarrow> string \<Rightarrow> private_db \<Rightarrow> json option result \<times> private_db" where
  "ps_get lib js iv p i db =
     (case requireContractAddress ''get'' p of
        Inl e \<Rightarrow> (Inl e, db)
      | Inr c \<Rightarrow>
          (case find_row (state_key_of p c i) (pd_states db) of
             None \<Rightarrow> (Inr None, db)
           | Some r \<Rightarrow>
               (case decryptStored lib iv p (sw_ciphertext r) of
                  Inl e \<Rightarrow> (Inl e, db)
                | Inr (t, fresh) \<Rightarrow>
                    (check_then (parsed js t) (\<lambda>v. Inr (Some v)),
                     db\<lparr>pd_states := rewritten (state_key_of p c i) fresh (pd_states db)\<rparr>))))"

definition ps_remove :: "provider \<Rightarrow> string \<Rightarrow> private_db \<Rightarrow> unit result \<times> private_db" where
  "ps_remove p i db =
     (case requireContractAddress ''remove'' p of
        Inl e \<Rightarrow> (Inl e, db)
      | Inr c \<Rightarrow> (Inr (), db\<lparr>pd_states := filter (\<lambda>r. sw_key r \<noteq> state_key_of p c i) (pd_states db)\<rparr>))"

definition ps_clear :: "provider \<Rightarrow> private_db \<Rightarrow> unit result \<times> private_db" where
  "ps_clear p db =
     (case requireContractAddress ''clear'' p of
        Inl e \<Rightarrow> (Inl e, db)
      | Inr c \<Rightarrow> (Inr (), db\<lparr>pd_states := filter (\<lambda>r. fst (sw_key r) \<noteq> pv_accountId p \<or> fst (snd (sw_key r)) \<noteq> c) (pd_states db)\<rparr>))"

section \<open>Signing keys\<close>

definition setSigningKey :: "storage_lib \<Rightarrow> octets \<Rightarrow> provider \<Rightarrow> string \<Rightarrow> string \<Rightarrow> private_db \<Rightarrow> unit result \<times> private_db" where
  "setSigningKey lib iv p address key db =
     (case check_then (getEncryption lib p) (\<lambda>enc. se_encrypt lib iv enc key) of
        Inl e \<Rightarrow> (Inl e, db)
      | Inr cipher \<Rightarrow> (Inr (), db\<lparr>pd_keys := upsert_row (pv_accountId p, address) cipher (pd_keys db)\<rparr>))"

definition getSigningKey :: "storage_lib \<Rightarrow> octets \<Rightarrow> provider \<Rightarrow> string \<Rightarrow> private_db \<Rightarrow> string option result \<times> private_db" where
  "getSigningKey lib iv p address db =
     (case find_row (pv_accountId p, address) (pd_keys db) of
        None \<Rightarrow> (Inr None, db)
      | Some r \<Rightarrow>
          (case decryptStored lib iv p (sw_ciphertext r) of
             Inl e \<Rightarrow> (Inl e, db)
           | Inr (t, fresh) \<Rightarrow> (Inr (Some t), db\<lparr>pd_keys := rewritten (pv_accountId p, address) fresh (pd_keys db)\<rparr>)))"

definition removeSigningKey :: "provider \<Rightarrow> string \<Rightarrow> private_db \<Rightarrow> private_db" where
  "removeSigningKey p address db = db\<lparr>pd_keys := filter (\<lambda>r. sw_key r \<noteq> (pv_accountId p, address)) (pd_keys db)\<rparr>"

definition clearSigningKeys :: "provider \<Rightarrow> private_db \<Rightarrow> private_db" where
  "clearSigningKeys p db = db\<lparr>pd_keys := filter (\<lambda>r. fst (sw_key r) \<noteq> pv_accountId p) (pd_keys db)\<rparr>"

section \<open>Export\<close>

record sealed_export =
  sx_format :: string
  sx_encryptedPayload :: string
  sx_salt :: string

definition validateExportPassword :: "string \<Rightarrow> unit result" where
  "validateExportPassword pw = require (16 \<le> length pw) (js_Error ''Export password must be at least 16 characters'')"

definition sealExport :: "storage_lib \<Rightarrow> octets \<Rightarrow> octets \<Rightarrow> string \<Rightarrow> json \<Rightarrow> string \<Rightarrow> sealed_export result" where
  "sealExport lib salt iv fmt payload pw =
     check_then (validateExportPassword pw) (\<lambda>_.
     check_then (se_encrypt lib iv (new_StorageEncryption lib pw salt) (json_stringify payload)) (\<lambda>c.
     Inr \<lparr>sx_format = fmt, sx_encryptedPayload = c, sx_salt = hex_text salt\<rparr>))"

definition too_many :: "string \<Rightarrow> nat \<Rightarrow> nat \<Rightarrow> js_error" where
  "too_many what n m = InvalidExportFormatError (''Too many '' @ what @ '' ('' @ nat_str n @ ''). Maximum allowed: '' @ nat_str m)"

definition or_else :: "'a option \<Rightarrow> 'a \<Rightarrow> 'a" where
  "or_else v d = (case v of Some x \<Rightarrow> x | None \<Rightarrow> d)"

definition export_password :: "provider \<Rightarrow> string option \<Rightarrow> string result" where
  "export_password p pw = (case pw of Some w \<Rightarrow> Inr w | None \<Rightarrow> getStoragePassword p)"

text \<open>An object built by assignments has no property of its own called \<^verbatim>\<open>__proto__\<close>.\<close>

definition own_entries :: "(string \<times> 'a) list \<Rightarrow> (string \<times> 'a) list" where
  "own_entries kvs = filter (\<lambda>kv. fst kv \<noteq> ''__proto__'') kvs"

fun open_states :: "storage_lib \<Rightarrow> json_lib \<Rightarrow> (string \<Rightarrow> octets) \<Rightarrow> provider \<Rightarrow> state_key sealed_row list \<Rightarrow> state_key sealed_row list
    \<Rightarrow> (string \<times> json) list result \<times> state_key sealed_row list" where
  "open_states lib js ivs p [] rows = (Inr [], rows)"
| "open_states lib js ivs p (r # rs) rows =
     (case decryptStored lib (ivs (snd (snd (sw_key r)))) p (sw_ciphertext r) of
        Inl e \<Rightarrow> (Inl e, rows)
      | Inr (t, fresh) \<Rightarrow>
          (let rows' = rewritten (sw_key r) fresh rows in
           case parsed js t of
             Inl e \<Rightarrow> (Inl e, rows')
           | Inr v \<Rightarrow> (case open_states lib js ivs p rs rows' of
                        (Inl e, rows'') \<Rightarrow> (Inl e, rows'')
                      | (Inr vs, rows'') \<Rightarrow> (Inr ((snd (snd (sw_key r)), v) # vs), rows''))))"

definition exportPrivateStates :: "storage_lib \<Rightarrow> json_lib \<Rightarrow> (string \<Rightarrow> octets) \<Rightarrow> octets \<Rightarrow> octets \<Rightarrow> provider \<Rightarrow> string option \<Rightarrow> nat option
    \<Rightarrow> private_db \<Rightarrow> sealed_export result \<times> private_db" where
  "exportPrivateStates lib js ivs salt iv p pw maxOpt db =
     (case requireContractAddress ''exportPrivateStates'' p of
        Inl e \<Rightarrow> (Inl e, db)
      | Inr c \<Rightarrow>
          (let rs = filter (\<lambda>r. fst (sw_key r) = pv_accountId p \<and> fst (snd (sw_key r)) = c) (pd_states db);
               maxStates = or_else maxOpt MAX_EXPORT_STATES in
           if maxStates < length rs then (Inl (too_many ''states to export'' (length rs) maxStates), db)
           else case open_states lib js ivs p rs (pd_states db) of
                  (Inl e, rows) \<Rightarrow> (Inl e, db\<lparr>pd_states := rows\<rparr>)
                | (Inr states, rows) \<Rightarrow>
                    (check_then (export_password p pw) (\<lambda>w. sealExport lib salt iv PRIVATE_STATE_EXPORT_FORMAT
                       (JObj [(''version'', JNum CURRENT_EXPORT_VERSION), (''stateCount'', JNum (int (length rs))), (''states'', JObj (own_entries states))]) w),
                     db\<lparr>pd_states := rows\<rparr>)))"

fun open_keys :: "storage_lib \<Rightarrow> (string \<Rightarrow> octets) \<Rightarrow> provider \<Rightarrow> signing_key sealed_row list \<Rightarrow> signing_key sealed_row list
    \<Rightarrow> (string \<times> string) list result \<times> signing_key sealed_row list" where
  "open_keys lib ivs p [] rows = (Inr [], rows)"
| "open_keys lib ivs p (r # rs) rows =
     (case decryptStored lib (ivs (snd (sw_key r))) p (sw_ciphertext r) of
        Inl e \<Rightarrow> (Inl e, rows)
      | Inr (t, fresh) \<Rightarrow>
          (case open_keys lib ivs p rs (rewritten (sw_key r) fresh rows) of
             (Inl e, rows') \<Rightarrow> (Inl e, rows')
           | (Inr vs, rows') \<Rightarrow> (Inr ((snd (sw_key r), t) # vs), rows')))"

definition buildSigningKeyExport :: "storage_lib \<Rightarrow> octets \<Rightarrow> octets \<Rightarrow> (string \<times> string) list \<Rightarrow> string \<Rightarrow> sealed_export result" where
  "buildSigningKeyExport lib salt iv keys pw =
     sealExport lib salt iv SIGNING_KEY_EXPORT_FORMAT
       (JObj [(''version'', JNum CURRENT_EXPORT_VERSION), (''keyCount'', JNum (int (length keys))), (''keys'', JObj (map (\<lambda>(a, k). (a, JStr k)) keys))]) pw"

definition exportSigningKeys :: "storage_lib \<Rightarrow> (string \<Rightarrow> octets) \<Rightarrow> octets \<Rightarrow> octets \<Rightarrow> provider \<Rightarrow> string option \<Rightarrow> nat option
    \<Rightarrow> private_db \<Rightarrow> sealed_export result \<times> private_db" where
  "exportSigningKeys lib ivs salt iv p pw maxOpt db =
     (let rs = filter (\<lambda>r. fst (sw_key r) = pv_accountId p) (pd_keys db); maxKeys = or_else maxOpt MAX_EXPORT_SIGNING_KEYS in
      if maxKeys < length rs then (Inl (too_many ''signing keys to export'' (length rs) maxKeys), db)
      else case open_keys lib ivs p rs (pd_keys db) of
             (Inl e, rows) \<Rightarrow> (Inl e, db\<lparr>pd_keys := rows\<rparr>)
           | (Inr keys, rows) \<Rightarrow> (check_then (export_password p pw) (buildSigningKeyExport lib salt iv (own_entries keys)), db\<lparr>pd_keys := rows\<rparr>))"


section \<open>Import\<close>

datatype conflict_strategy = SkipExisting | OverwriteExisting | ErrorOnConflict

definition validateSaltHex :: "string \<Rightarrow> unit result" where
  "validateSaltHex salt =
     require (salt \<noteq> [] \<and> list_all (\<lambda>c. hex_value c \<noteq> None) salt \<and> length salt = SALT_LENGTH * 2) (InvalidExportFormatError ''Invalid salt format'')"

definition entries_of :: "json \<Rightarrow> (string \<times> json) list option" where
  "entries_of v = (case v of JObj kvs \<Rightarrow> Some kvs | JArr vs \<Rightarrow> Some (zip (map nat_str [0..<length vs]) vs) | _ \<Rightarrow> None)"

definition number_of :: "json option \<Rightarrow> int option" where
  "number_of v = (case v of Some (JNum n) \<Rightarrow> Some n | _ \<Rightarrow> None)"

definition open_payload :: "storage_lib \<Rightarrow> json_lib \<Rightarrow> string \<Rightarrow> string \<Rightarrow> json result" where
  "open_payload lib js blob pw =
     (case decryptWithPassword lib blob pw of
        Inl e \<Rightarrow> Inl ExportDecryptionError
      | Inr t \<Rightarrow> (case js_parse js t of None \<Rightarrow> Inl ExportDecryptionError | Some v \<Rightarrow> Inr v))"

definition checked_payload :: "string \<Rightarrow> string \<Rightarrow> string \<Rightarrow> nat \<Rightarrow> json \<Rightarrow> (string \<times> json) list result" where
  "checked_payload items count what maxN payload =
     (if payload = JNull then Inl (js_Error (''Cannot read properties of null (reading '' @ quoted items @ '')''))
      else case (Option.bind (json_field items payload) entries_of, number_of (json_field ''version'' payload), number_of (json_field count payload)) of
             (Some kvs, Some version, Some n) \<Rightarrow>
               (if version \<notin> set SUPPORTED_EXPORT_VERSIONS
                then Inl (InvalidExportFormatError (''Export version '' @ int_str version @ '' is not supported. Supported versions: ''
                       @ join '', '' (map int_str SUPPORTED_EXPORT_VERSIONS)))
                else if int (length kvs) \<noteq> n then Inl ExportDecryptionError
                else if maxN < length kvs then Inl (too_many what (length kvs) maxN)
                else Inr kvs)
           | _ \<Rightarrow> Inl ExportDecryptionError)"

definition check_export :: "string \<Rightarrow> sealed_export \<Rightarrow> string option \<Rightarrow> unit result" where
  "check_export fmt ex pw =
     check_then (require (sx_format ex = fmt) (InvalidExportFormatError ''Unrecognized export format'')) (\<lambda>_.
     check_then (require (sx_encryptedPayload ex \<noteq> [] \<and> sx_salt ex \<noteq> []) (InvalidExportFormatError ''Missing required fields'')) (\<lambda>_.
     check_then (validateSaltHex (sx_salt ex)) (\<lambda>_.
     case pw of Some w \<Rightarrow> validateExportPassword w | None \<Rightarrow> Inr ())))"

definition import_entries :: "storage_lib \<Rightarrow> json_lib \<Rightarrow> string \<Rightarrow> string \<Rightarrow> string \<Rightarrow> string \<Rightarrow> nat \<Rightarrow> provider \<Rightarrow> sealed_export \<Rightarrow> string option
    \<Rightarrow> (string \<times> json) list result" where
  "import_entries lib js fmt items count what maxN p ex pw =
     check_then (check_export fmt ex pw) (\<lambda>_.
     check_then (export_password p pw) (\<lambda>w.
     check_then (open_payload lib js (sx_encryptedPayload ex) w) (checked_payload items count what maxN)))"

record import_result =
  ir_imported :: nat
  ir_skipped :: nat
  ir_overwritten :: nat

text \<open>The loops look each entry up and write it; \<open>has\<close> and \<open>put\<close> are those of the table the import is for.\<close>

fun count_conflicts :: "(string \<Rightarrow> private_db \<Rightarrow> bool result \<times> private_db) \<Rightarrow> string list \<Rightarrow> nat \<Rightarrow> private_db \<Rightarrow> nat result \<times> private_db" where
  "count_conflicts has [] n db = (Inr n, db)"
| "count_conflicts has (i # is) n db =
     (case has i db of
        (Inl e, db') \<Rightarrow> (Inl e, db')
      | (Inr b, db') \<Rightarrow> count_conflicts has is (if b then n + 1 else n) db')"

fun import_loop :: "(string \<Rightarrow> private_db \<Rightarrow> bool result \<times> private_db) \<Rightarrow> (string \<Rightarrow> json \<Rightarrow> private_db \<Rightarrow> unit result \<times> private_db)
    \<Rightarrow> conflict_strategy \<Rightarrow> (string \<times> json) list \<Rightarrow> import_result \<Rightarrow> private_db \<Rightarrow> import_result result \<times> private_db" where
  "import_loop has put strategy [] acc db = (Inr acc, db)"
| "import_loop has put strategy ((i, v) # kvs) acc db =
     (case has i db of
        (Inl e, db1) \<Rightarrow> (Inl e, db1)
      | (Inr b, db1) \<Rightarrow>
          if b \<and> strategy = SkipExisting
          then import_loop has put strategy kvs (acc\<lparr>ir_skipped := ir_skipped acc + 1\<rparr>) db1
          else (case put i v db1 of
                  (Inl e, db2) \<Rightarrow> (Inl e, db2)
                | (Inr _, db2) \<Rightarrow>
                    import_loop has put strategy kvs
                      (if b then acc\<lparr>ir_overwritten := ir_overwritten acc + 1\<rparr> else acc\<lparr>ir_imported := ir_imported acc + 1\<rparr>) db2))"

definition import_checked :: "(string \<Rightarrow> private_db \<Rightarrow> bool result \<times> private_db) \<Rightarrow> (string \<Rightarrow> json \<Rightarrow> private_db \<Rightarrow> unit result \<times> private_db)
    \<Rightarrow> conflict_strategy \<Rightarrow> storage_encryption result \<Rightarrow> (string \<times> json) list \<Rightarrow> private_db \<Rightarrow> import_result result \<times> private_db" where
  "import_checked has put strategy enc kvs db =
     (case (if strategy = ErrorOnConflict then count_conflicts has (map fst kvs) 0 db else (Inr 0, db)) of
        (Inl e, db1) \<Rightarrow> (Inl e, db1)
      | (Inr n, db1) \<Rightarrow>
          if 0 < n then (Inl (ImportConflictError n), db1)
          else (case enc of
                  Inl e \<Rightarrow> (Inl e, db1)
                | Inr _ \<Rightarrow> import_loop has put strategy kvs \<lparr>ir_imported = 0, ir_skipped = 0, ir_overwritten = 0\<rparr> db1))"

definition has_state :: "storage_lib \<Rightarrow> json_lib \<Rightarrow> (string \<Rightarrow> octets) \<Rightarrow> provider \<Rightarrow> string \<Rightarrow> private_db \<Rightarrow> bool result \<times> private_db" where
  "has_state lib js ivs p i db =
     (case ps_get lib js (ivs i) p i db of
        (Inl e, db') \<Rightarrow> (Inl e, db')
      | (Inr v, db') \<Rightarrow> (Inr (v \<noteq> None \<and> v \<noteq> Some JNull), db'))"

definition put_state :: "storage_lib \<Rightarrow> (string \<Rightarrow> octets) \<Rightarrow> provider \<Rightarrow> string \<Rightarrow> json \<Rightarrow> private_db \<Rightarrow> unit result \<times> private_db" where
  "put_state lib ivs p i v db = ps_set lib (ivs i) p i v db"

definition importPrivateStates :: "storage_lib \<Rightarrow> json_lib \<Rightarrow> (string \<Rightarrow> octets) \<Rightarrow> provider \<Rightarrow> sealed_export \<Rightarrow> string option
    \<Rightarrow> conflict_strategy option \<Rightarrow> nat option \<Rightarrow> private_db \<Rightarrow> import_result result \<times> private_db" where
  "importPrivateStates lib js ivs p ex pw strategy maxOpt db =
     (case check_then (requireContractAddress ''importPrivateStates'' p) (\<lambda>_.
           import_entries lib js PRIVATE_STATE_EXPORT_FORMAT ''states'' ''stateCount'' ''states in export'' (or_else maxOpt MAX_EXPORT_STATES) p ex pw) of
        Inl e \<Rightarrow> (Inl e, db)
      | Inr kvs \<Rightarrow> import_checked (has_state lib js ivs p) (put_state lib ivs p) (or_else strategy ErrorOnConflict) (getEncryption lib p) kvs db)"

definition key_present :: "storage_lib \<Rightarrow> (string \<Rightarrow> octets) \<Rightarrow> provider \<Rightarrow> string \<Rightarrow> private_db \<Rightarrow> bool result \<times> private_db" where
  "key_present lib ivs p a db =
     (case getSigningKey lib (ivs a) p a db of
        (Inl e, db') \<Rightarrow> (Inl e, db')
      | (Inr v, db') \<Rightarrow> (Inr (v \<noteq> None), db'))"

definition put_key :: "storage_lib \<Rightarrow> (string \<Rightarrow> octets) \<Rightarrow> provider \<Rightarrow> string \<Rightarrow> json \<Rightarrow> private_db \<Rightarrow> unit result \<times> private_db" where
  "put_key lib ivs p a v db =
     (case v of
        JStr t \<Rightarrow> setSigningKey lib (ivs a) p a t db
      | _ \<Rightarrow> (Inl (js_Error ''The first argument must be of type string or an instance of Buffer''), db))"

definition importSigningKeys :: "storage_lib \<Rightarrow> json_lib \<Rightarrow> (string \<Rightarrow> octets) \<Rightarrow> provider \<Rightarrow> sealed_export \<Rightarrow> string option
    \<Rightarrow> conflict_strategy option \<Rightarrow> nat option \<Rightarrow> private_db \<Rightarrow> import_result result \<times> private_db" where
  "importSigningKeys lib js ivs p ex pw strategy maxOpt db =
     (case import_entries lib js SIGNING_KEY_EXPORT_FORMAT ''keys'' ''keyCount'' ''keys in export'' (or_else maxOpt MAX_EXPORT_SIGNING_KEYS) p ex pw of
        Inl e \<Rightarrow> (Inl e, db)
      | Inr kvs \<Rightarrow> import_checked (key_present lib ivs p) (put_key lib ivs p) (or_else strategy ErrorOnConflict) (getEncryption lib p) kvs db)"

end
