(* ===== verification/Private_State_Safety.thy ===== *)
theory Private_State_Safety
  imports Private_State Account_Keys_Safety
begin

text \<open>
  What the store of private states promises: a value is read back under the password it was written with, also after
  the account got a new one, and what is exported from one account is what an import gives another.
\<close>

section \<open>Blobs\<close>

definition storage_ok :: "storage_lib \<Rightarrow> bool" where
  "storage_ok lib \<longleftrightarrow>
     lib_ok lib \<and> (\<forall>pw salt. length (sl_pbkdf2 lib pw salt) = KEK_LENGTH)
       \<and> (\<forall>d. length (cl_sha256 (sl_crypto lib) d) = SALT_LENGTH \<and> octets_ok (cl_sha256 (sl_crypto lib) d))"

definition iv_ok :: "octets \<Rightarrow> bool" where
  "iv_ok iv \<longleftrightarrow> length iv = IV_LENGTH \<and> octets_ok iv"

lemma lengths [simp]: "SALT_LENGTH = 32" "HEADER_LENGTH = 61" "CURRENT_ENCRYPTION_VERSION = 2"
  by (simp_all add: SALT_LENGTH_def HEADER_LENGTH_def CURRENT_ENCRYPTION_VERSION_def)

text \<open>A blob is its header, which carries the salt, and the sealed text.\<close>

lemma blob_parts:
  assumes "storage_ok lib" "iv_ok iv" "length salt = SALT_LENGTH" "octets_ok salt" "well_formed_text t"
    and "se_encrypt lib iv (new_StorageEncryption lib pw salt) t = Inr blob"
  obtains c where "extractEncryptedComponents (unbase64 blob) = Inr c" "ec_salt c = salt"
    "decryptComponents lib c (sl_pbkdf2 lib pw salt) = Inr t"
proof -
  let ?k = "sl_pbkdf2 lib pw salt"
  have o: "gcm_opens (sl_crypto lib)" and k: "length ?k = KEK_LENGTH" and iv: "length iv = IV_LENGTH" "octets_ok iv"
    using assms(1,2) by (simp_all add: storage_ok_def lib_ok_def iv_ok_def)
  define g where "g = gcmEncrypt (sl_crypto lib) iv ?k (utf8_bytes t) []"
  note g = gcm_round [OF o k iv(1) utf8_octets, of t "[]", folded g_def]
  have blob: "blob = base64 (CURRENT_ENCRYPTION_VERSION # salt @ iv @ g_tag g @ g_data g)"
    using assms(6) by (auto simp: se_encrypt_def new_StorageEncryption_def assertUsable_def require_def g_def gcmEncrypt_def split: prod.splits)
  have u: "unbase64 blob = 2 # salt @ iv @ g_tag g @ g_data g"
    unfolding blob using assms(4) iv g by (subst unbase64_base64) simp_all
  let ?c = "\<lparr>ec_salt = salt, ec_iv = iv, ec_authTag = g_tag g, ec_encrypted = g_data g\<rparr>"
  have "extractEncryptedComponents (unbase64 blob) = Inr ?c"
    using assms(3) iv g(2) by (simp add: extractEncryptedComponents_def u)
  moreover have "cl_open (sl_crypto lib) ?k iv [] (g_tag g) (g_data g) = Some (utf8_bytes t)"
    using g(1,2,6) iv by (auto simp: gcmDecrypt_def split: option.splits)
  then have "decryptComponents lib ?c ?k = Inr t" using assms(5) by (simp add: decryptComponents_def well_formed_text_def)
  ultimately show thesis using that by simp
qed

lemma blob_read:
  assumes "storage_ok lib" "iv_ok iv" "length salt = SALT_LENGTH" "octets_ok salt" "well_formed_text t"
    and "se_encrypt lib iv (new_StorageEncryption lib pw salt) t = Inr blob"
  shows "se_decrypt lib (new_StorageEncryption lib pw salt) blob = Inr t" "decryptWithPassword lib blob pw = Inr t" "saltOf blob = Some salt"
proof -
  obtain c where c: "extractEncryptedComponents (unbase64 blob) = Inr c" "ec_salt c = salt" "decryptComponents lib c (sl_pbkdf2 lib pw salt) = Inr t"
    using blob_parts [OF assms] by blast
  show "se_decrypt lib (new_StorageEncryption lib pw salt) blob = Inr t"
    using c by (simp add: se_decrypt_def new_StorageEncryption_def assertUsable_def require_def)
  show "decryptWithPassword lib blob pw = Inr t" using c by (simp add: decryptWithPassword_def)
  show "saltOf blob = Some salt" using c by (simp add: saltOf_def)
qed

lemma blob_other_salt:
  assumes "saltOf blob = Some salt" "se_salt enc \<noteq> salt" "\<not> se_cleared enc"
  shows "se_decrypt lib enc blob = Inl (js_Error ''Salt mismatch: data was encrypted with a different password/salt'')"
  using assms by (auto simp: saltOf_def se_decrypt_def assertUsable_def require_def check_then_def split: sum.splits)

lemma fresh_blob: "\<exists>blob. se_encrypt lib iv (new_StorageEncryption lib pw salt) t = Inr blob"
  by (auto simp: se_encrypt_def new_StorageEncryption_def assertUsable_def require_def split: prod.splits)

section \<open>Tables of rows\<close>

definition row_cipher :: "'k \<Rightarrow> 'k sealed_row list \<Rightarrow> string option" where
  "row_cipher k rows = map_option sw_ciphertext (find_row k rows)"

lemma find_row_append: "find_row k (rows @ [r]) = (case find_row k rows of Some x \<Rightarrow> Some x | None \<Rightarrow> if sw_key r = k then Some r else None)"
  by (induction rows) (auto simp: find_row_def)

lemma find_row_map:
  "find_row j (map (\<lambda>r. if sw_key r = k then r\<lparr>sw_ciphertext := c, sw_keyScheme := s\<rparr> else r) rows) =
     map_option (\<lambda>r. if sw_key r = k then r\<lparr>sw_ciphertext := c, sw_keyScheme := s\<rparr> else r) (find_row j rows)"
  by (induction rows) (auto simp: find_row_def)

lemma find_row_key: "find_row k rows = Some r \<Longrightarrow> sw_key r = k \<and> r \<in> set rows"
  by (auto simp: find_row_def find_Some_iff)

lemma upsert_same: "row_cipher k (upsert_row k c rows) = Some c"
proof (cases "find_row k rows")
  case (Some r)
  then show ?thesis using find_row_key [OF Some] by (simp add: row_cipher_def upsert_row_def find_row_map)
qed (simp add: row_cipher_def upsert_row_def find_row_append)

lemma upsert_other:
  assumes "j \<noteq> k"
  shows "row_cipher j (upsert_row k c rows) = row_cipher j rows"
proof (cases "find_row j rows")
  case (Some r)
  then show ?thesis using assms find_row_key [OF Some] by (auto simp: row_cipher_def upsert_row_def find_row_map find_row_append)
qed (use assms in \<open>simp add: row_cipher_def upsert_row_def find_row_map find_row_append\<close>)

section \<open>Values under a changed password\<close>

definition own_encryption :: "storage_lib \<Rightarrow> provider \<Rightarrow> storage_encryption" where
  "own_encryption lib p = new_StorageEncryption lib (pv_password p) (privateStateStableSalt lib (pv_accountId p) (pv_password p))"

lemma own_encryption_ready: "16 \<le> length (pv_password p) \<Longrightarrow> getEncryption lib p = Inr (own_encryption lib p)"
  by (simp add: getEncryption_def getStoragePassword_def own_encryption_def)

text \<open>No two passwords of the account give the same salt.\<close>

definition salts_differ :: "storage_lib \<Rightarrow> string \<Rightarrow> string list \<Rightarrow> bool" where
  "salts_differ lib a pws \<longleftrightarrow> inj_on (privateStateStableSalt lib a) (set pws)"

definition written :: "storage_lib \<Rightarrow> octets \<Rightarrow> provider \<Rightarrow> string \<Rightarrow> string \<Rightarrow> bool" where
  "written lib iv p t blob \<longleftrightarrow> iv_ok iv \<and> well_formed_text t \<and> se_encrypt lib iv (own_encryption lib p) t = Inr blob"

lemma salt_ok: "storage_ok lib \<Longrightarrow> length (privateStateStableSalt lib a pw) = SALT_LENGTH \<and> octets_ok (privateStateStableSalt lib a pw)"
  by (simp add: storage_ok_def privateStateStableSalt_def)

lemma written_read:
  assumes "storage_ok lib" "written lib iv p t blob"
  shows "se_decrypt lib (own_encryption lib p) blob = Inr t" "decryptWithPassword lib blob (pv_password p) = Inr t"
    "saltOf blob = Some (privateStateStableSalt lib (pv_accountId p) (pv_password p))"
  using blob_read [OF assms(1), of iv "privateStateStableSalt lib (pv_accountId p) (pv_password p)" t "pv_password p" blob]
    salt_ok [OF assms(1)] assms(2)
  by (simp_all add: written_def own_encryption_def)

lemma decrypt_own:
  assumes "storage_ok lib" "written lib iv p t blob" "16 \<le> length (pv_password p)"
  shows "decryptStored lib iv' p blob = Inr (t, None)"
  using written_read(1) [OF assms(1,2)] own_encryption_ready [OF assms(3)] by (simp add: decryptStored_def)

lemma find_same: "inj_on f (set xs) \<Longrightarrow> x \<in> set xs \<Longrightarrow> find (\<lambda>y. f y = f x) xs = Some x"
proof (induction xs)
  case (Cons y ys)
  then show ?case by (cases "y = x") (auto simp: inj_on_def)
qed simp

lemma decrypt_older:
  assumes "storage_ok lib" "written lib iv p t blob" "16 \<le> length (pv_password q)" "pv_accountId q = pv_accountId p"
    and "pv_password p \<noteq> pv_password q" "pv_password p \<in> set (pv_fallbacks q)"
    and "salts_differ lib (pv_accountId p) (pv_password q # pv_fallbacks q)"
  obtains fresh where "decryptStored lib iv' q blob = Inr (t, Some fresh)" "se_encrypt lib iv' (own_encryption lib q) t = Inr fresh"
proof -
  let ?s = "privateStateStableSalt lib (pv_accountId p)"
  obtain fresh where fresh: "se_encrypt lib iv' (own_encryption lib q) t = Inr fresh"
    using fresh_blob unfolding own_encryption_def by blast
  have "?s (pv_password q) \<noteq> ?s (pv_password p)"
    using assms(5-7) by (auto simp: salts_differ_def inj_on_def)
  then have "\<exists>e. se_decrypt lib (own_encryption lib q) blob = Inl e"
    using blob_other_salt [OF written_read(3) [OF assms(1,2)], of "own_encryption lib q" lib] assms(4)
    by (simp add: own_encryption_def new_StorageEncryption_def)
  moreover have "older_password lib q blob = Some (pv_password p)"
    using find_same [of ?s "pv_fallbacks q" "pv_password p"] assms(4,6,7) written_read(3) [OF assms(1,2)]
    by (simp add: older_password_def salts_differ_def inj_on_def)
  ultimately have "decryptStored lib iv' q blob = Inr (t, Some fresh)"
    using written_read(2) [OF assms(1,2)] fresh own_encryption_ready [OF assms(3)] by (auto simp: decryptStored_def)
  then show thesis using fresh that by blast
qed

lemma row_cipher_find: "row_cipher k rows = Some c \<Longrightarrow> \<exists>r. find_row k rows = Some r \<and> sw_ciphertext r = c"
  by (auto simp: row_cipher_def)

lemma get_written:
  assumes "storage_ok lib" "pv_contractAddress q = Some c" "row_cipher (state_key_of q c i) (pd_states db) = Some blob"
    and "decryptStored lib iv q blob = Inr (json_stringify v, fresh)" "js_parse js (json_stringify v) = Some v"
  shows "ps_get lib js iv q i db = (Inr (Some v), db\<lparr>pd_states := rewritten (state_key_of q c i) fresh (pd_states db)\<rparr>)"
  using assms row_cipher_find [OF assms(3)] by (auto simp: ps_get_def requireContractAddress_def parsed_def)

lemma set_written:
  assumes "pv_contractAddress p = Some c" "16 \<le> length (pv_password p)" "iv_ok iv" "well_formed_text (json_stringify v)"
  obtains blob where "ps_set lib iv p i v db = (Inr (), db\<lparr>pd_states := upsert_row (state_key_of p c i) blob (pd_states db)\<rparr>)"
    "written lib iv p (json_stringify v) blob"
proof -
  obtain blob where "se_encrypt lib iv (own_encryption lib p) (json_stringify v) = Inr blob"
    using fresh_blob unfolding own_encryption_def by blast
  then show thesis using assms own_encryption_ready [OF assms(2)]
    by (intro that [of blob]) (simp_all add: ps_set_def requireContractAddress_def written_def check_then_def)
qed


section \<open>Imports into an empty table\<close>

text \<open>
  What an import uses of the table it writes: \<open>has\<close> finds nothing where the table is \<open>empty\<close>, and what \<open>put\<close> writes
  the table \<open>holds\<close>, without a change elsewhere.
\<close>

locale import_table =
  fixes has :: "string \<Rightarrow> private_db \<Rightarrow> bool result \<times> private_db"
    and put :: "string \<Rightarrow> json \<Rightarrow> private_db \<Rightarrow> unit result \<times> private_db"
    and fits :: "json \<Rightarrow> bool" and empty :: "string \<Rightarrow> private_db \<Rightarrow> bool" and holds :: "string \<Rightarrow> json \<Rightarrow> private_db \<Rightarrow> bool"
  assumes has_empty: "empty i db \<Longrightarrow> has i db = (Inr False, db)"
    and put_holds: "fits v \<Longrightarrow> \<exists>db'. put i v db = (Inr (), db') \<and> holds i v db'
      \<and> (\<forall>j. j \<noteq> i \<longrightarrow> (empty j db \<longrightarrow> empty j db') \<and> (\<forall>u. holds j u db \<longrightarrow> holds j u db'))"
begin

lemma no_conflicts: "list_all (\<lambda>i. empty i db) is \<Longrightarrow> count_conflicts has is n db = (Inr n, db)"
  by (induction "is") (simp_all add: has_empty)

lemma loop_puts:
  assumes "distinct (map fst kvs)" "list_all (\<lambda>(i, v). empty i db \<and> fits v) kvs"
  shows "\<exists>db'. import_loop has put s kvs acc db = (Inr (acc\<lparr>ir_imported := ir_imported acc + length kvs\<rparr>), db')
           \<and> (\<forall>(i, v) \<in> set kvs. holds i v db') \<and> (\<forall>j u. j \<notin> fst ` set kvs \<and> holds j u db \<longrightarrow> holds j u db')"
  using assms
proof (induction kvs arbitrary: acc db)
  case (Cons kv kvs)
  obtain i v where kv: "kv = (i, v)" by (cases kv)
  have fits: "fits v" and empty: "empty i db" and d: "i \<notin> fst ` set kvs" "distinct (map fst kvs)" using Cons.prems kv by auto
  obtain db1 where put: "put i v db = (Inr (), db1)" "holds i v db1"
    and keeps: "\<And>j. j \<noteq> i \<Longrightarrow> (empty j db \<longrightarrow> empty j db1) \<and> (\<forall>u. holds j u db \<longrightarrow> holds j u db1)"
    using put_holds [OF fits] by blast
  have "empty j db1 \<and> fits u" if "(j, u) \<in> set kvs" for j u
  proof -
    have "j \<noteq> i" using d(1) imageI [OF that, of fst] by auto
    moreover have "empty j db \<and> fits u" using Cons.prems(2) that by (auto simp: list_all_iff)
    ultimately show ?thesis using keeps by blast
  qed
  then have "list_all (\<lambda>(i, v). empty i db1 \<and> fits v) kvs" by (auto simp: list_all_iff)
  then obtain db' where rest: "import_loop has put s kvs (acc\<lparr>ir_imported := ir_imported acc + 1\<rparr>) db1 =
      (Inr (acc\<lparr>ir_imported := ir_imported acc + 1 + length kvs\<rparr>), db')"
    and all: "\<forall>(j, u) \<in> set kvs. holds j u db'" and others: "\<forall>j u. j \<notin> fst ` set kvs \<and> holds j u db1 \<longrightarrow> holds j u db'"
    using Cons.IH [OF d(2), of db1 "acc\<lparr>ir_imported := ir_imported acc + 1\<rparr>"] by auto
  have "import_loop has put s (kv # kvs) acc db = (Inr (acc\<lparr>ir_imported := ir_imported acc + length (kv # kvs)\<rparr>), db')"
    using rest put(1) has_empty [OF empty] by (simp add: kv)
  moreover have "holds i v db'" using others d(1) put(2) by blast
  then have "\<forall>(j, u) \<in> set (kv # kvs). holds j u db'" using all by (simp add: kv)
  moreover have "\<forall>j u. j \<notin> fst ` set (kv # kvs) \<and> holds j u db \<longrightarrow> holds j u db'" using others keeps by (auto simp: kv)
  ultimately show ?case by blast
qed simp

lemma import_all:
  assumes "distinct (map fst kvs)" "list_all (\<lambda>(i, v). empty i db \<and> fits v) kvs"
  obtains db' where "import_checked has put ErrorOnConflict (Inr enc) kvs db =
      (Inr \<lparr>ir_imported = length kvs, ir_skipped = 0, ir_overwritten = 0\<rparr>, db')" "\<forall>(i, v) \<in> set kvs. holds i v db'"
proof -
  have "count_conflicts has (map fst kvs) 0 db = (Inr 0, db)"
    using assms(2) by (intro no_conflicts) (auto simp: list_all_iff)
  then show thesis
    using loop_puts [OF assms, of ErrorOnConflict "\<lparr>ir_imported = 0, ir_skipped = 0, ir_overwritten = 0\<rparr>"] that
    by (auto simp: import_checked_def)
qed

end

definition writer_ok :: "storage_lib \<Rightarrow> (string \<Rightarrow> octets) \<Rightarrow> provider \<Rightarrow> bool" where
  "writer_ok lib ivs q \<longleftrightarrow> storage_ok lib \<and> (\<forall>i. iv_ok (ivs i)) \<and> 16 \<le> length (pv_password q) \<and> pv_contractAddress q \<noteq> None"

definition readable :: "json_lib \<Rightarrow> json \<Rightarrow> bool" where
  "readable js v \<longleftrightarrow> well_formed_text (json_stringify v) \<and> js_parse js (json_stringify v) = Some v"

definition state_slot :: "provider \<Rightarrow> string \<Rightarrow> private_db \<Rightarrow> string option" where
  "state_slot q i db = row_cipher (state_key_of q (the (pv_contractAddress q)) i) (pd_states db)"

definition key_slot :: "provider \<Rightarrow> string \<Rightarrow> private_db \<Rightarrow> string option" where
  "key_slot q a db = row_cipher (pv_accountId q, a) (pd_keys db)"

definition holds_state :: "storage_lib \<Rightarrow> (string \<Rightarrow> octets) \<Rightarrow> provider \<Rightarrow> string \<Rightarrow> json \<Rightarrow> private_db \<Rightarrow> bool" where
  "holds_state lib ivs q i v db \<longleftrightarrow> (\<exists>b. state_slot q i db = Some b \<and> written lib (ivs i) q (json_stringify v) b)"

definition holds_key_text :: "storage_lib \<Rightarrow> (string \<Rightarrow> octets) \<Rightarrow> provider \<Rightarrow> string \<Rightarrow> json \<Rightarrow> private_db \<Rightarrow> bool" where
  "holds_key_text lib ivs q a v db \<longleftrightarrow> (\<exists>b t. v = JStr t \<and> key_slot q a db = Some b \<and> written lib (ivs a) q t b)"

lemma row_cipher_None: "row_cipher k rows = None \<longleftrightarrow> find_row k rows = None"
  by (simp add: row_cipher_def)

interpretation state_import: import_table "has_state lib js ivs q" "put_state lib ivs q"
  "\<lambda>v. writer_ok lib ivs q \<and> readable js v" "\<lambda>i db. pv_contractAddress q \<noteq> None \<and> state_slot q i db = None" "holds_state lib ivs q" for lib js ivs q
proof (unfold_locales, goal_cases)
  case (1 i db)
  then show ?case by (auto simp: has_state_def ps_get_def requireContractAddress_def state_slot_def row_cipher_None)
next
  case (2 v i db)
  then obtain c where c: "pv_contractAddress q = Some c" by (auto simp: writer_ok_def)
  obtain b where "ps_set lib (ivs i) q i v db = (Inr (), db\<lparr>pd_states := upsert_row (state_key_of q c i) b (pd_states db)\<rparr>)"
    "written lib (ivs i) q (json_stringify v) b"
    using set_written [OF c, of "ivs i" v lib i db] 2 by (auto simp: writer_ok_def readable_def)
  moreover have "state_key_of q c j \<noteq> state_key_of q c i" if "j \<noteq> i" for j using that by (simp add: state_key_of_def)
  ultimately show ?case
    by (simp add: put_state_def holds_state_def state_slot_def c upsert_same upsert_other)
qed

interpretation key_import: import_table "key_present lib ivs q" "put_key lib ivs q"
  "\<lambda>v. writer_ok lib ivs q \<and> (\<exists>t. v = JStr t \<and> well_formed_text t)" "\<lambda>a db. key_slot q a db = None" "holds_key_text lib ivs q" for lib ivs q
proof (unfold_locales, goal_cases)
  case (1 a db)
  then show ?case by (auto simp: key_present_def getSigningKey_def key_slot_def row_cipher_None)
next
  case (2 v a db)
  then obtain t where t: "v = JStr t" "well_formed_text t" by auto
  obtain b where b: "se_encrypt lib (ivs a) (own_encryption lib q) t = Inr b" using fresh_blob unfolding own_encryption_def by blast
  then have "setSigningKey lib (ivs a) q a t db = (Inr (), db\<lparr>pd_keys := upsert_row (pv_accountId q, a) b (pd_keys db)\<rparr>)"
    using 2 own_encryption_ready [of q lib] by (simp add: setSigningKey_def check_then_def writer_ok_def)
  moreover have "written lib (ivs a) q t b" using 2 b t by (simp add: written_def writer_ok_def)
  ultimately show ?case
    by (simp add: put_key_def t holds_key_text_def key_slot_def upsert_same upsert_other)
qed

section \<open>Exports\<close>

definition contract_rows :: "provider \<Rightarrow> private_db \<Rightarrow> state_key sealed_row list" where
  "contract_rows p db = filter (\<lambda>r. fst (sw_key r) = pv_accountId p \<and> fst (snd (sw_key r)) = the (pv_contractAddress p)) (pd_states db)"

text \<open>What a provider reads of its contract: the states in the order of their rows.\<close>

definition held_states :: "storage_lib \<Rightarrow> json_lib \<Rightarrow> provider \<Rightarrow> private_db \<Rightarrow> (string \<times> json) list \<Rightarrow> bool" where
  "held_states lib js p db states \<longleftrightarrow>
     map fst states = map (\<lambda>r. snd (snd (sw_key r))) (contract_rows p db)
       \<and> list_all (\<lambda>(i, v). \<forall>iv. fst (ps_get lib js iv p i db) = Inr (Some v)) states"

definition states_payload :: "(string \<times> json) list \<Rightarrow> json" where
  "states_payload states =
     JObj [(''version'', JNum CURRENT_EXPORT_VERSION), (''stateCount'', JNum (int (length states))), (''states'', JObj states)]"

lemma find_row_in: "distinct (map sw_key rows) \<Longrightarrow> r \<in> set rows \<Longrightarrow> find_row (sw_key r) rows = Some r"
  by (induction rows) (auto simp: find_row_def)

lemma get_of_row:
  assumes "distinct (map sw_key (pd_states db))" "pv_contractAddress p = Some c" "r \<in> set (contract_rows p db)"
    and "fst (ps_get lib js iv p (snd (snd (sw_key r))) db) = Inr (Some v)"
  obtains t fresh where "decryptStored lib iv p (sw_ciphertext r) = Inr (t, fresh)" "parsed js t = Inr v"
proof -
  have k: "state_key_of p c (snd (snd (sw_key r))) = sw_key r" "r \<in> set (pd_states db)"
    using assms(2,3) by (auto simp: contract_rows_def state_key_of_def prod_eq_iff)
  show thesis
    using assms(4) find_row_in [OF assms(1) k(2)] that
    by (auto simp: ps_get_def requireContractAddress_def assms(2) k(1) split: sum.splits prod.splits)
qed

lemma open_states_all:
  assumes "list_all2 (\<lambda>r (i, v). i = snd (snd (sw_key r)) \<and>
      (\<forall>iv. \<exists>t fresh. decryptStored lib iv p (sw_ciphertext r) = Inr (t, fresh) \<and> parsed js t = Inr v)) rs states"
  shows "\<exists>rows'. open_states lib js ivs p rs rows = (Inr states, rows')"
  using assms
proof (induction rs states arbitrary: rows rule: list_all2_induct)
  case (Cons r rs x xs)
  obtain i v where x: "x = (i, v)" by (cases x)
  obtain t fresh where "decryptStored lib (ivs i) p (sw_ciphertext r) = Inr (t, fresh)" "parsed js t = Inr v" "i = snd (snd (sw_key r))"
    using Cons.hyps(1) unfolding x prod.case by blast
  then show ?case using Cons.IH [of "rewritten (sw_key r) fresh rows"] by (auto simp: x Let_def)
qed simp

lemma held_open:
  assumes "distinct (map sw_key (pd_states db))" "pv_contractAddress p = Some c" "held_states lib js p db states"
  obtains rows where "open_states lib js ivs p (contract_rows p db) (pd_states db) = (Inr states, rows)"
proof -
  let ?rs = "contract_rows p db"
  have m: "map fst states = map (\<lambda>r. snd (snd (sw_key r))) ?rs" using assms(3) by (simp add: held_states_def)
  have len: "length ?rs = length states" using arg_cong [OF m, of length] by simp
  have "list_all2 (\<lambda>r (i, v). i = snd (snd (sw_key r)) \<and>
      (\<forall>iv. \<exists>t fresh. decryptStored lib iv p (sw_ciphertext r) = Inr (t, fresh) \<and> parsed js t = Inr v)) ?rs states"
    unfolding list_all2_conv_all_nth
  proof (intro conjI allI impI len)
    fix n assume n: "n < length ?rs"
    obtain i v where x: "states ! n = (i, v)" by (cases "states ! n")
    have i: "i = snd (snd (sw_key (?rs ! n)))" using arg_cong [OF m, of "\<lambda>ys. ys ! n"] n len x by simp
    have "fst (ps_get lib js iv p i db) = Inr (Some v)" for iv
      using assms(3) n len x by (auto simp: held_states_def list_all_length)
    then have "\<exists>t fresh. decryptStored lib iv p (sw_ciphertext (?rs ! n)) = Inr (t, fresh) \<and> parsed js t = Inr v" for iv
      using get_of_row [OF assms(1,2) nth_mem [OF n], of lib js iv v] i by blast
    then show "case states ! n of (i, v) \<Rightarrow> i = snd (snd (sw_key (?rs ! n))) \<and>
        (\<forall>iv. \<exists>t fresh. decryptStored lib iv p (sw_ciphertext (?rs ! n)) = Inr (t, fresh) \<and> parsed js t = Inr v)"
      using i by (simp add: x)
  qed
  then show thesis using open_states_all that by blast
qed

lemma salt_hex: "octets_ok salt \<Longrightarrow> list_all (\<lambda>c. hex_value c \<noteq> None) (hex_text salt) \<and> length (hex_text salt) = length salt * 2"
proof (induction salt)
  case (Cons b bs)
  then show ?case using hex_digits [of "b div 16"] hex_digits [of "b mod 16"] byte_digits [of b] by (simp add: hex_text_def)
qed (simp add: hex_text_def)

lemma export_opens:
  assumes "storage_ok lib" "iv_ok iv" "length salt = SALT_LENGTH" "octets_ok salt" "readable js payload" "16 \<le> length w"
  obtains b where "sealExport lib salt iv fmt payload w = Inr \<lparr>sx_format = fmt, sx_encryptedPayload = b, sx_salt = hex_text salt\<rparr>"
    "b \<noteq> []" "open_payload lib js b w = Inr payload"
proof -
  obtain b where b: "se_encrypt lib iv (new_StorageEncryption lib w salt) (json_stringify payload) = Inr b" using fresh_blob by blast
  have r: "decryptWithPassword lib b w = Inr (json_stringify payload)" "saltOf b = Some salt"
    using blob_read [OF assms(1-4) _ b] assms(5) by (simp_all add: readable_def)
  have "unbase64 [] = []" using unbase64_base64 [of "[]"] by simp
  then have "b \<noteq> []" using r(2) by (auto simp: saltOf_def extractEncryptedComponents_def)
  then show thesis
    using that b r(1) assms(5,6) by (simp add: sealExport_def validateExportPassword_def require_def check_then_def open_payload_def readable_def)
qed

lemma import_reads:
  assumes "octets_ok salt" "length salt = SALT_LENGTH" "b \<noteq> []" "16 \<le> length w" "open_payload lib js b w = Inr (states_payload states)"
    and "length states \<le> maxN"
  shows "import_entries lib js fmt ''states'' ''stateCount'' what maxN q \<lparr>sx_format = fmt, sx_encryptedPayload = b, sx_salt = hex_text salt\<rparr> (Some w) = Inr states"
proof -
  have h: "hex_text salt \<noteq> []" using salt_hex [OF assms(1)] assms(2) by auto
  have "check_export fmt \<lparr>sx_format = fmt, sx_encryptedPayload = b, sx_salt = hex_text salt\<rparr> (Some w) = Inr ()"
    using assms(2-4) salt_hex [OF assms(1)] h by (simp add: check_export_def validateSaltHex_def validateExportPassword_def require_def)
  moreover have "checked_payload ''states'' ''stateCount'' what maxN (states_payload states) = Inr states"
    using assms(6) by (simp add: checked_payload_def states_payload_def entries_of_def number_of_def CURRENT_EXPORT_VERSION_def SUPPORTED_EXPORT_VERSIONS_def)
  ultimately show ?thesis using assms(5) by (simp add: import_entries_def export_password_def)
qed

lemma held_state_read:
  assumes "storage_ok lib" "pv_contractAddress q = Some c" "16 \<le> length (pv_password q)" "readable js v" "holds_state lib ivs q i v db"
  shows "ps_get lib js iv q i db = (Inr (Some v), db)"
proof -
  obtain b where "row_cipher (state_key_of q c i) (pd_states db) = Some b" "written lib (ivs i) q (json_stringify v) b"
    using assms(2,5) by (auto simp: holds_state_def state_slot_def)
  then show ?thesis
    using get_written [OF assms(1,2), of i db b iv v None js] decrypt_own [OF assms(1) _ assms(3)] assms(4)
    by (simp add: rewritten_def readable_def)
qed


section \<open>Examples\<close>

definition demo_provider :: "string \<Rightarrow> provider" where
  "demo_provider a = \<lparr>pv_accountId = a, pv_password = replicate 16 CHR ''p'', pv_fallbacks = [], pv_contractAddress = Some ''c1''\<rparr>"

lemma demo_stores: "storage_ok demo_storage" "iv_ok (replicate 12 3)"
  using demo_storage_ok by (simp_all add: storage_ok_def demo_storage_def demo_crypto_def KEK_LENGTH_def octets_ok_def iv_ok_def IV_LENGTH_def list_all_iff)

text \<open>A parser that knows the texts it is asked for.\<close>

definition demo_json :: "json list \<Rightarrow> json_lib" where
  "demo_json vs = \<lparr>js_parse = (\<lambda>t. find (\<lambda>v. json_stringify v = t) vs)\<rparr>"


definition demo_states :: "(string \<times> json) list" where
  "demo_states = [(''s1'', JBool True)]"

definition demo_js :: json_lib where
  "demo_js = demo_json [JBool True, states_payload demo_states]"

lemma demo_readable: "readable demo_js (states_payload demo_states)" "readable demo_js (JBool True)"
proof -
  have "ascii (json_stringify (states_payload demo_states))" by code_simp
  then show "readable demo_js (states_payload demo_states)"
    using ascii_well_formed [folded ascii_def] by (simp add: readable_def demo_js_def demo_json_def) (simp add: states_payload_def)
  have "ascii ''true''" by simp
  then show "readable demo_js (JBool True)" using ascii_well_formed [folded ascii_def] by (simp add: readable_def demo_js_def demo_json_def)
qed

lemma demo_held:
  obtains db where "held_states demo_storage demo_js (demo_provider ''a'') db demo_states" "distinct (map sw_key (pd_states db))"
proof -
  let ?p = "demo_provider ''a''"
  have p: "pv_contractAddress ?p = Some ''c1''" "16 \<le> length (pv_password ?p)" "pv_accountId ?p = ''a''" by (simp_all add: demo_provider_def)
  obtain b where b: "written demo_storage (replicate 12 3) ?p (json_stringify (JBool True)) b"
    using set_written [OF p(1,2) demo_stores(2), of "JBool True"] demo_readable(2) unfolding readable_def by blast
  let ?db = "\<lparr>pd_states = upsert_row (state_key_of ?p ''c1'' ''s1'') b [], pd_keys = []\<rparr>"
  have "ps_get demo_storage demo_js iv ?p ''s1'' ?db = (Inr (Some (JBool True)), ?db)" for iv
    using get_written [OF demo_stores(1) p(1), of "''s1''" ?db b iv "JBool True" None demo_js]
      decrypt_own [OF demo_stores(1) b p(2)] demo_readable(2)
    by (simp add: upsert_same rewritten_def readable_def)
  then have "held_states demo_storage demo_js ?p ?db demo_states"
    by (simp add: held_states_def demo_states_def contract_rows_def upsert_row_def find_row_def state_key_of_def p)
  moreover have "distinct (map sw_key (pd_states ?db))" by (simp add: upsert_row_def find_row_def)
  ultimately show thesis using that by blast
qed


end
