(* ===== verification/Spec2Isabelle.thy ===== *)
theory Spec2Isabelle
  imports Job_Properties Rollback Sponsor_Safety Grant_Admin_Safety Dust_Lease_Safety Instance_Lease_Safety
    Sponsor_Executor_Safety Batch_Segments_Safety Disclosure_Safety Rewrap_Safety
    Account_Keys_Safety Private_State_Safety
begin

text \<open>
  Verification of NIGHTGATE, a CAP plugin that indexes the Midnight chain and submits transactions for
  wallet sessions. Every definition is a translation of code under \<^verbatim>\<open>src/\<close>; paths below are relative to
  it. The development has several parts that meet in the database.

  \<^bold>\<open>Submission.\<close> A request becomes a row of the job table. \<open>Job_Store\<close> (\<^verbatim>\<open>srv/submission/job-store.ts\<close>) has the
  guarded updates: each is the statement of the source, its WHERE as a guard and its SET as an update of
  the rows that match, and answers with the count of rows. \<open>Db_Retry\<close> (\<^verbatim>\<open>db-write-retry.ts\<close>) repeats a
  statement whose database was locked. \<open>Job_Kinds\<close> holds the kinds, their traits and the registry of
  processors; \<open>Background_Jobs\<close> the admission under an idempotency key and the wait of a workflow parent for
  its child; \<open>Semaphore\<close> and \<open>Job_Scheduler\<close> the slots, the claim of a job, and the settlement of its
  result or error; \<open>Job_Reconciliation\<close> the restart recovery and the passes that settle parked jobs by
  the chain; \<open>Chain_Outcome\<close> what an indexer's answer means. \<open>Job_Machine\<close> composes them into one step
  relation over the whole table, with workers, leases, passes and rollbacks interleaved, and
  \<open>Job_Properties\<close> proves by rule induction what holds of every reachable table.

  \<^bold>\<open>Delegation and sponsoring.\<close> An owner gives agents tokens. \<open>Grant_Row\<close>, \<open>Grant_Shape\<close> and \<open>Grant_Admin\<close>
  (\<^verbatim>\<open>srv/sessions/agent-grants.ts\<close>) have the row, the checks of a request to make one, and the actions that
  create, change, rotate and revoke; \<open>Grant_Scope\<close> and \<open>Grant_Gate\<close> what a token may do, bound before the
  request runs and checked again when its queued job does; \<open>Calendar\<close> and \<open>Grant_Budget\<close> the budgets, each
  an UPDATE that refuses or takes, interleaved with refunds. \<open>Session_Expiry\<close> and \<open>Fee_Sponsor\<close> resolve the
  wallet session that pays. \<open>Sponsor_Policy\<close> (\<^verbatim>\<open>srv/submission/sponsor-policy.ts\<close>) reads the operator's policy
  file and narrows it by a grant. \<open>Sponsor_Check\<close> (\<^verbatim>\<open>srv/midnight/worker/sponsor.ts\<close>) looks at a foreign
  transaction before the sponsor pays for it: the transaction is a value of unknown shape (\<open>Js_Value\<close>), whose
  properties may be missing. \<open>Dust_Lease\<close> reserves the backings a payment comes from and builds the
  spend. \<open>Sponsor_Pool\<close> (\<^verbatim>\<open>sponsor-pool.ts\<close>) picks the wallet that pays, \<open>Submit_Failure\<close>
  (\<^verbatim>\<open>srv/midnight/submit-error-classification.ts\<close>) says what a failed payment means, and \<open>Sponsor_Executor\<close>
  (\<^verbatim>\<open>executors/sponsor.ts\<close>) announces, sends, closes and repeats the attempts of a sponsoring job. \<open>Rate_Limiter\<close> and \<open>Rate_Classes\<close> limit callers.

  \<^bold>\<open>Contracts and disclosure.\<close> \<open>Batch_Segments\<close> (\<^verbatim>\<open>srv/midnight/batch-segment-order.ts\<close>) puts the calls of a batch
  in order before the proof is made. \<open>Disclosure\<close> (\<^verbatim>\<open>srv/submission/disclosure-indexer.ts\<close>,
  \<^verbatim>\<open>actions/disclosure.ts\<close>, \<^verbatim>\<open>srv/middleware/disclosure-role.ts\<close>) mirrors who may read what from the chain and
  decides a caller's role by it. \<open>Instance_Lease\<close> (\<^verbatim>\<open>srv/utils/instance-lease.ts\<close>, \<^verbatim>\<open>runtime-gate.ts\<close>) keeps a
  second process from doing any of this on the same database.

  \<^bold>\<open>Stored secrets.\<close> \<open>Envelope\<close> (\<^verbatim>\<open>srv/utils/crypto.ts\<close>) has the ring of master keys and the envelopes that
  protect a stored value and bind it to its column and row; \<open>Rewrap\<close> (\<^verbatim>\<open>srv/utils/encryption-rewrap.ts\<close>) moves the
  stored values to the active key, page by page, and is what a start asks before it runs. \<open>Account_Keys\<close>
  (\<^verbatim>\<open>srv/submission/account-keys.ts\<close>, \<^verbatim>\<open>srv/utils/storage-encryption.ts\<close>) has the data key of an account, sealed
  twice, with the lookups of several processes interleaved; \<open>Private_State\<close>
  (\<^verbatim>\<open>srv/midnight/CapDbPrivateStateProvider.ts\<close>) the private states and signing keys stored under it.

  \<^bold>\<open>Indexing.\<close> \<open>Scale\<close> (\<^verbatim>\<open>srv/utils/scale.ts\<close>) decodes bytes of the node, on 8-bit words, with every read
  checked against the buffer. \<open>Block_Events\<close> and \<open>Block_Processor\<close> (\<^verbatim>\<open>srv/crawler\<close>) classify, project and
  store a block; \<open>Index_Store\<close> is the tables; \<open>Rollback\<close> removes what a reorganisation undid, clears the
  outcomes that rested on it, and recomputes balances.

  \<^bold>\<open>How state corresponds.\<close> A table is a list of records with the columns as fields, NULL as None. Module
  state (locks, tokens, caches) is a record passed along. A throw is an \<open>Inl\<close>, a null an option; a message
  text the client sees is kept as the source has it. Time, random identifiers, configuration and the answers
  of other services are arguments. \<open>Prelude\<close> has the strings, JSON values, the update of rows that match, and
  the sequencing of checks that all components share.

  \<^bold>\<open>Interfaces.\<close> Where one component relies on another, the laws are a locale, interpreted on the model in
  the component that provides them; client lemmas are proved once in it: the attempts of a transaction
  (\<open>Db_Retry\<close>), the guarded updates of a job (\<open>Job_Store\<close>), the clock of a budget's windows
  (\<open>Grant_Budget_Safety\<close>), the runs of the sponsor executors
  (\<open>Sponsor_Executor_Safety\<close>: for the rows of the attempts and for the reserved deploys), a confirmed change of a
  disclosure row (\<open>Disclosure_Safety\<close>: for revokes and for levels), and the table an import writes
  (\<open>Private_State_Safety\<close>: for states and for signing keys).

  \<^bold>\<open>What the lemmas show.\<close> Job table: unique identifiers and keys, ended jobs stay ended, one external effect,
  no second start, only the owner settles, an outcome looked up before a rollback is not written after it, the
  recovery reaches its specification also when the database fails half way. Grants: what passes the gate is
  confined to the grant, its session, contracts and circuits; budgets bound what is admitted; revocation is
  final; every table is well formed. Sponsoring: a transaction that passes is within policy and grant, creates
  only what it mints and keeps unshielded value; a backing is never reserved twice; a spend pays what it
  must. Secrets: what one ring writes every ring that keeps the key reads, under its own column and row only; a
  complete re-encryption loses nothing and lets the old key go unless it met a value it could not read; an
  account has one data key; a state survives a change of its password, and an export what an import reads. Indexing: references and balances are right after any history of stored and rolled back blocks, decoding
  inverts encoding.

  \<^bold>\<open>Bounds.\<close> Loops over data are structural. The waits take the list of looks they make; \<open>child_wait_ends\<close>
  shows the deadline ends it. The price of a dust spend is recomputed at most \<open>MAX_FEE_ROUNDS\<close> times and the
  reservation repeated at most \<open>MAX_BACKING_RESELECTS\<close> times, as in the source. The retries of a statement
  are as many as the source allows.

  \<^bold>\<open>Not modelled.\<close> The wallet facades, the worker threads and their message protocol, proving, and the
  transaction builder: they are calls into the ledger and wallet libraries, which are not in the repository.
  The HTTP and WebSocket clients, services that only read the tables, the saved sync state of the wallet
  library, monitoring and scripts. Log lines, timers and metrics inside modelled functions. Texts are sequences of characters and
  numbers are integers; the few places where the source could meet a fraction say so.
\<close>

end
